(* ===== verification/Dolos_Prelude.thy ===== *)
theory Dolos_Prelude
  imports Main "HOL-Library.Word" "HOL-Library.Monad_Syntax" "HOL-Library.List_Lexorder"
begin

text \<open>
  Shared vocabulary of the development: the machine integers of the Rust source as words, the
  build-dependent arithmetic (the \<^verbatim>\<open>add!\<close> and \<^verbatim>\<open>sub!\<close> macros of
  \<^verbatim>\<open>crates/cardano/src/math_macros.rs\<close> and the plain operators), panics as the
  value \<^term>\<open>None\<close> of an \<open>option\<close>, big-endian byte strings, and the generic lemmas about
  them that the component theories use.

  An operation of the source that can panic (\<^verbatim>\<open>expect\<close>, \<^verbatim>\<open>unwrap\<close>,
  \<^verbatim>\<open>assert!\<close>, arithmetic overflow in a checked build) returns an \<open>option\<close>, and
  \<^term>\<open>None\<close> is the panic.
\<close>

named_theorems panic_simps \<open>inversion of computations that may panic\<close>

section \<open>Machine integers\<close>

type_synonym u8 = "8 word"
type_synonym u16 = "16 word"
type_synonym u32 = "32 word"
type_synonym u64 = "64 word"
type_synonym bytes = "u8 list"

text \<open>A \<^verbatim>\<open>Hash<N>\<close> is the \<open>8 * N\<close> bit word whose big-endian bytes it holds.\<close>

type_synonym hash32 = "256 word"
type_synonym hash28 = "224 word"

type_synonym lovelace = u64
type_synonym epoch = u64
type_synonym block_slot = u64
type_synonym tx_hash = hash32
type_synonym txo_ref = "tx_hash \<times> u32"
type_synonym era_cbor = "u16 \<times> bytes"

text \<open>
  What a build of the program fixes: the cargo feature \<^verbatim>\<open>strict\<close> of the cardano
  crate, and whether the compiler inserts overflow checks for the plain operators (the debug
  profile does, the release profile does not).
\<close>

record build =
  strict :: bool
  overflow_checks :: bool

subsection \<open>Checked and saturating operations\<close>

definition checked_add :: "'a::len word \<Rightarrow> 'a word \<Rightarrow> 'a word option" where
  "checked_add x y = (if unat x + unat y < 2 ^ LENGTH('a) then Some (x + y) else None)"

definition checked_sub :: "'a::len word \<Rightarrow> 'a word \<Rightarrow> 'a word option" where
  "checked_sub x y = (if y \<le> x then Some (x - y) else None)"

definition checked_mul :: "'a::len word \<Rightarrow> 'a word \<Rightarrow> 'a word option" where
  "checked_mul x y = (if unat x * unat y < 2 ^ LENGTH('a) then Some (x * y) else None)"

definition saturating_add :: "'a::len word \<Rightarrow> 'a word \<Rightarrow> 'a word" where
  "saturating_add x y = (if unat x + unat y < 2 ^ LENGTH('a) then x + y else - 1)"

definition saturating_sub :: "'a::len word \<Rightarrow> 'a word \<Rightarrow> 'a word" where
  "saturating_sub x y = (if y \<le> x then x - y else 0)"

text \<open>The \<^verbatim>\<open>add!\<close> and \<^verbatim>\<open>sub!\<close> macros.\<close>

definition add_m :: "build \<Rightarrow> 'a::len word \<Rightarrow> 'a word \<Rightarrow> 'a word option" where
  "add_m b x y = (if strict b then checked_add x y else Some (saturating_add x y))"

definition sub_m :: "build \<Rightarrow> 'a::len word \<Rightarrow> 'a word \<Rightarrow> 'a word option" where
  "sub_m b x y = (if strict b then checked_sub x y else Some (saturating_sub x y))"

text \<open>The plain operators: checked or wrapping, by the compiler's overflow checks.\<close>

definition raw_add :: "build \<Rightarrow> 'a::len word \<Rightarrow> 'a word \<Rightarrow> 'a word option" where
  "raw_add b x y = (if overflow_checks b then checked_add x y else Some (x + y))"

definition raw_sub :: "build \<Rightarrow> 'a::len word \<Rightarrow> 'a word \<Rightarrow> 'a word option" where
  "raw_sub b x y = (if overflow_checks b then checked_sub x y else Some (x - y))"

definition raw_mul :: "build \<Rightarrow> 'a::len word \<Rightarrow> 'a word \<Rightarrow> 'a word option" where
  "raw_mul b x y = (if overflow_checks b then checked_mul x y else Some (x * y))"

text \<open>Division: panics on zero in every build.\<close>

definition checked_div :: "u64 \<Rightarrow> u64 \<Rightarrow> u64 option" where
  "checked_div x y = (if y = 0 then None else Some (x div y))"

text \<open>\<^verbatim>\<open>assert!\<close>: panic when the condition fails.\<close>

definition assert_that :: "bool \<Rightarrow> unit option" where
  "assert_that c = (if c then Some () else None)"

lemma bind_Some_iff [panic_simps]:
  "(Option.bind x f = Some z) = (\<exists>y. x = Some y \<and> f y = Some z)"
  by (cases x) auto

lemma assert_that_Some [panic_simps]: "(assert_that c = Some u) = c"
  by (simp add: assert_that_def)

lemma assert_that_True [simp]: "assert_that True = Some ()"
  by (simp add: assert_that_def)

lemma assert_that_False [simp]: "assert_that False = None"
  by (simp add: assert_that_def)

subsection \<open>What the operations compute, read as natural numbers\<close>

lemma unat_add_no_overflow:
  fixes x y :: "'a::len word"
  assumes "unat x + unat y < 2 ^ LENGTH('a)"
  shows "unat (x + y) = unat x + unat y"
  using assms by (simp add: unat_word_ariths)

lemma unat_mul_no_overflow:
  fixes x y :: "'a::len word"
  assumes "unat x * unat y < 2 ^ LENGTH('a)"
  shows "unat (x * y) = unat x * unat y"
  using assms by (simp add: unat_word_ariths)

lemma unat_sub_no_underflow:
  fixes x y :: "'a::len word"
  assumes "y \<le> x"
  shows "unat (x - y) = unat x - unat y"
  using assms by (simp add: unat_sub)

lemma checked_add_Some:
  fixes x y :: "'a::len word"
  shows "(checked_add x y = Some z) =
    (unat x + unat y < 2 ^ LENGTH('a) \<and> z = x + y \<and> unat z = unat x + unat y)"
  by (auto simp: checked_add_def unat_add_no_overflow)

lemma checked_sub_Some:
  fixes x y :: "'a::len word"
  shows "(checked_sub x y = Some z) = (y \<le> x \<and> z = x - y \<and> unat z + unat y = unat x)"
  by (auto simp: checked_sub_def unat_sub_no_underflow word_le_nat_alt)

lemma checked_mul_Some:
  fixes x y :: "'a::len word"
  shows "(checked_mul x y = Some z) =
    (unat x * unat y < 2 ^ LENGTH('a) \<and> z = x * y \<and> unat z = unat x * unat y)"
  by (auto simp: checked_mul_def unat_mul_no_overflow)

lemma raw_exact:
  fixes x y :: "'a::len word"
  shows "unat x + unat y < 2 ^ LENGTH('a) \<Longrightarrow> raw_add b x y = Some (x + y)"
    and "y \<le> x \<Longrightarrow> raw_sub b x y = Some (x - y)"
    and "unat x * unat y < 2 ^ LENGTH('a) \<Longrightarrow> raw_mul b x y = Some (x * y)"
  by (simp_all add: raw_add_def raw_sub_def raw_mul_def checked_add_def checked_sub_def checked_mul_def)

lemma saturating_add_exact:
  fixes x y :: "'a::len word"
  assumes "unat x + unat y < 2 ^ LENGTH('a)"
  shows "unat (saturating_add x y) = unat x + unat y"
  using assms by (simp add: saturating_add_def unat_add_no_overflow)

lemma saturating_sub_exact:
  fixes x y :: "'a::len word"
  assumes "unat y \<le> unat x"
  shows "unat (saturating_sub x y) + unat y = unat x"
  using assms by (simp add: saturating_sub_def word_le_nat_alt unat_sub_no_underflow)

text \<open>In every build the macros are exact when the exact result fits.\<close>

lemma add_m_exact:
  fixes x y :: "'a::len word"
  assumes "unat x + unat y < 2 ^ LENGTH('a)"
  obtains z where "add_m b x y = Some z" and "unat z = unat x + unat y"
  using assms
  by (cases "strict b") (auto simp: add_m_def checked_add_def saturating_add_def unat_add_no_overflow)

lemma sub_m_exact:
  fixes x y :: "'a::len word"
  assumes "unat y \<le> unat x"
  obtains z where "sub_m b x y = Some z" and "unat z + unat y = unat x"
  using assms
  by (cases "strict b")
    (auto simp: sub_m_def checked_sub_def saturating_sub_def word_le_nat_alt unat_sub_no_underflow)

lemma raw_add_sub_cancel:
  fixes x y :: "'a::len word"
  assumes "raw_add b x y = Some z"
  shows "raw_sub b z y = Some x"
proof (cases "overflow_checks b")
  case True
  with assms have "unat z = unat x + unat y" and "z = x + y"
    by (auto simp: raw_add_def checked_add_Some)
  with True show ?thesis
    by (simp add: raw_sub_def checked_sub_def word_le_nat_alt)
next
  case False
  with assms show ?thesis by (auto simp: raw_add_def raw_sub_def)
qed

section \<open>Big-endian byte strings\<close>

text \<open>\<^verbatim>\<open>to_be_bytes\<close> and \<^verbatim>\<open>from_be_bytes\<close>, at any width.\<close>

fun be_bytes :: "nat \<Rightarrow> nat \<Rightarrow> bytes" where
  "be_bytes 0 n = []"
| "be_bytes (Suc k) n = be_bytes k (n div 256) @ [word_of_nat (n mod 256)]"

definition be_value :: "bytes \<Rightarrow> nat" where
  "be_value bs = foldl (\<lambda>acc c. acc * 256 + unat c) 0 bs"

lemma length_be_bytes [simp]: "length (be_bytes k n) = k"
  by (induction k arbitrary: n) auto

lemma be_value_snoc [simp]: "be_value (bs @ [c]) = be_value bs * 256 + unat c"
  by (simp add: be_value_def)

lemma be_value_Nil [simp]: "be_value [] = 0"
  by (simp add: be_value_def)

lemma unat_u8_bound: "unat (c :: u8) < 256"
  using unsigned_less [where 'a = nat, of c] by simp

lemma be_value_bound: "be_value bs < 256 ^ length bs"
proof (induction bs rule: rev_induct)
  case Nil
  show ?case by simp
next
  case (snoc c bs)
  have "be_value bs + 1 \<le> 256 ^ length bs" using snoc.IH by simp
  then have "(be_value bs + 1) * 256 \<le> 256 ^ length bs * 256" by (rule mult_le_mono1)
  with unat_u8_bound [of c] show ?case by simp
qed

lemma be_value_be_bytes: "n < 256 ^ k \<Longrightarrow> be_value (be_bytes k n) = n"
proof (induction k arbitrary: n)
  case 0
  then show ?case by simp
next
  case (Suc k)
  then have "n div 256 < 256 ^ k" by (simp add: less_mult_imp_div_less mult.commute)
  with Suc.IH show ?case by (simp add: unat_of_nat)
qed

lemma be_bytes_be_value: "be_bytes (length bs) (be_value bs) = bs"
proof (induction bs rule: rev_induct)
  case Nil
  show ?case by simp
next
  case (snoc c bs)
  with unat_u8_bound [of c] show ?case by simp
qed

lemma be_value_Cons: "be_value (c # bs) = unat c * 256 ^ length bs + be_value bs"
proof (induction bs rule: rev_induct)
  case Nil
  show ?case using be_value_snoc [of "[]" c] by simp
next
  case (snoc d bs)
  have "be_value (c # bs @ [d]) = be_value (c # bs) * 256 + unat d"
    using be_value_snoc [of "c # bs" d] by simp
  with snoc.IH show ?case by (simp add: algebra_simps)
qed

lemma leading_digit_less:
  fixes c d :: u8
  assumes "c < d" and "x < 256 ^ n"
  shows "unat c * 256 ^ n + x < unat d * 256 ^ n + y"
proof -
  have "unat c + 1 \<le> unat d" using assms(1) by (simp add: word_less_nat_alt)
  then have "(unat c + 1) * 256 ^ n \<le> unat d * 256 ^ n" by (rule mult_le_mono1)
  with assms(2) show ?thesis by simp
qed

text \<open>On byte strings of one length the lexicographic order is the order of the values.\<close>

lemma be_value_less_iff:
  "length xs = length ys \<Longrightarrow> xs < ys \<longleftrightarrow> be_value xs < be_value ys"
proof (induction xs ys rule: list_induct2)
  case Nil
  show ?case by simp
next
  case (Cons x xs y ys)
  have bx: "be_value xs < 256 ^ length xs" and by': "be_value ys < 256 ^ length xs"
    using be_value_bound [of xs] be_value_bound [of ys] Cons.hyps by simp_all
  consider "x < y" | "x = y" | "y < x" by (rule linorder_cases)
  then show ?case
  proof cases
    case 1
    with leading_digit_less [OF 1 bx, of "be_value ys"] Cons.hyps show ?thesis
      by (simp add: be_value_Cons)
  next
    case 2
    with Cons show ?thesis by (simp add: be_value_Cons)
  next
    case 3
    then have "\<not> x < y" and "x \<noteq> y" by auto
    with leading_digit_less [OF 3 by', of "be_value xs"] Cons.hyps show ?thesis
      by (simp add: be_value_Cons)
  qed
qed

lemma be_value_eq_iff: "length xs = length ys \<Longrightarrow> xs = ys \<longleftrightarrow> be_value xs = be_value ys"
  by (metis be_bytes_be_value)

text \<open>The bytes of a word.\<close>

definition word_bytes :: "'a::len word \<Rightarrow> bytes" where
  "word_bytes w = be_bytes (LENGTH('a) div 8) (unat w)"

definition bytes_word :: "bytes \<Rightarrow> 'a::len word" where
  "bytes_word bs = word_of_nat (be_value bs)"

lemma length_word_bytes [simp]: "length (word_bytes (w :: 'a::len word)) = LENGTH('a) div 8"
  by (simp add: word_bytes_def)

lemma be_value_word_bytes:
  fixes w :: "'a::len word"
  assumes "8 dvd LENGTH('a)"
  shows "be_value (word_bytes w) = unat w"
proof -
  have "(256::nat) ^ (LENGTH('a) div 8) = 2 ^ (8 * (LENGTH('a) div 8))"
    by (simp add: power_mult)
  also have "\<dots> = 2 ^ LENGTH('a)" using assms by simp
  finally have "unat w < 256 ^ (LENGTH('a) div 8)" using unsigned_less [where 'a = nat, of w] by simp
  then show ?thesis by (simp add: word_bytes_def be_value_be_bytes)
qed

lemma bytes_word_word_bytes:
  fixes w :: "'a::len word"
  assumes "8 dvd LENGTH('a)"
  shows "bytes_word (word_bytes w) = w"
  using assms by (simp add: bytes_word_def be_value_word_bytes)

section \<open>Lists and maps\<close>

lemma map_upd_same [simp]: "m k = v \<Longrightarrow> m(k := v) = m"
  by (simp add: fun_upd_idem)

text \<open>\<^verbatim>\<open>Option::get_or_insert_with\<close>: the value, or the one to insert.\<close>

definition get_or_insert :: "'a option \<Rightarrow> 'a \<Rightarrow> 'a" where
  "get_or_insert e d = (case e of Some x \<Rightarrow> x | None \<Rightarrow> d)"

lemma get_or_insert_simps [simp]:
  "get_or_insert None d = d"
  "get_or_insert (Some x) d = x"
  by (simp_all add: get_or_insert_def)

end
