(* ===== verification/Chain_Point.thy ===== *)
theory Chain_Point
  imports Dolos_Prelude
begin

text \<open>
  Chain points (\<^verbatim>\<open>crates/core/src/point.rs\<close>): the three kinds of point, the
  hand-written equality and order, and the 40-byte database key. The text form
  (\<^verbatim>\<open>Display\<close> and \<^verbatim>\<open>FromStr\<close>) and the conversions to the network
  library's own point type are not modelled.
\<close>

datatype chain_point =
    Origin
  | Slot block_slot
  | Specific block_slot hash32

datatype ordering = Less | Equal | Greater

text \<open>Rust's \<^verbatim>\<open>Ord::cmp\<close> on a linear order and its derived instance on options.\<close>

definition cmp :: "'a::linorder \<Rightarrow> 'a \<Rightarrow> ordering" where
  "cmp x y = (if x < y then Less else if x = y then Equal else Greater)"

fun cmp_option :: "'a::linorder option \<Rightarrow> 'a option \<Rightarrow> ordering" where
  "cmp_option None None = Equal"
| "cmp_option None (Some _) = Less"
| "cmp_option (Some _) None = Greater"
| "cmp_option (Some x) (Some y) = cmp x y"

fun cp_slot :: "chain_point \<Rightarrow> block_slot" where
  "cp_slot Origin = 0"
| "cp_slot (Slot s) = s"
| "cp_slot (Specific s _) = s"

fun cp_hash :: "chain_point \<Rightarrow> hash32 option" where
  "cp_hash (Specific _ h) = Some h"
| "cp_hash _ = None"

fun is_fully_defined :: "chain_point \<Rightarrow> bool" where
  "is_fully_defined Origin = True"
| "is_fully_defined (Specific _ h) = (h \<noteq> 0)"
| "is_fully_defined (Slot _) = False"

text \<open>The \<^verbatim>\<open>PartialEq\<close> instance, in the order of its match arms.\<close>

fun cp_eq :: "chain_point \<Rightarrow> chain_point \<Rightarrow> bool" where
  "cp_eq (Specific l0 l1) (Specific r0 r1) = (l0 = r0 \<and> l1 = r1)"
| "cp_eq (Slot l0) (Slot r0) = (l0 = r0)"
| "cp_eq Origin Origin = True"
| "cp_eq (Specific l0 _) (Slot r0) = (l0 = r0)"
| "cp_eq _ _ = False"

definition cp_cmp :: "chain_point \<Rightarrow> chain_point \<Rightarrow> ordering" where
  "cp_cmp l r =
     (let l_slot = cp_slot l; r_slot = cp_slot r in
      if l_slot \<noteq> r_slot then cmp l_slot r_slot
      else cmp_option (cp_hash l) (cp_hash r))"

definition into_bytes :: "chain_point \<Rightarrow> bytes" where
  "into_bytes p =
     word_bytes (cp_slot p) @
     (case cp_hash p of Some h \<Rightarrow> word_bytes h | None \<Rightarrow> replicate 32 0)"

definition origin_bytes :: bytes where
  "origin_bytes = replicate 40 0"

definition from_bytes :: "bytes \<Rightarrow> chain_point" where
  "from_bytes value =
     (if value = origin_bytes then Origin
      else Specific (bytes_word (take 8 value)) (bytes_word (take 32 (drop 8 value))))"

section \<open>The byte key\<close>

lemma be_value_replicate_0 [simp]: "be_value (replicate n 0) = 0"
  by (induction n) (simp_all add: be_value_Cons)

lemma word_bytes_0: "word_bytes (0 :: 'a::len word) = replicate (LENGTH('a) div 8) 0"
proof -
  have "be_bytes k 0 = replicate k 0" for k
    by (induction k) (auto simp flip: replicate_append_same)
  then show ?thesis by (simp add: word_bytes_def)
qed

lemma word_bytes_inject:
  fixes x y :: "'a::len word"
  assumes "8 dvd LENGTH('a)"
  shows "word_bytes x = word_bytes y \<longleftrightarrow> x = y"
  using bytes_word_word_bytes [OF assms, of x] bytes_word_word_bytes [OF assms, of y] by metis

lemma length_into_bytes [simp]: "length (into_bytes p) = 40"
  by (cases p) (auto simp: into_bytes_def)

text \<open>The key is the slot's eight bytes followed by the hash, a missing hash being zero.\<close>

lemma into_bytes_alt:
  "into_bytes p = word_bytes (cp_slot p) @ word_bytes (case cp_hash p of Some h \<Rightarrow> h | None \<Rightarrow> 0)"
  by (cases p) (simp_all add: into_bytes_def word_bytes_0 del: replicate.simps)

lemma origin_bytes_alt: "origin_bytes = word_bytes (0 :: u64) @ word_bytes (0 :: hash32)"
  by (simp add: origin_bytes_def word_bytes_0 flip: replicate_add)

lemma from_bytes_word_bytes:
  "from_bytes (word_bytes s @ word_bytes h) = (if s = 0 \<and> h = 0 then Origin else Specific s h)"
proof -
  have "word_bytes s @ word_bytes h = origin_bytes \<longleftrightarrow> s = 0 \<and> h = 0"
    by (simp add: origin_bytes_alt word_bytes_inject)
  then show ?thesis by (simp add: from_bytes_def bytes_word_word_bytes)
qed

lemma cmp_append:
  fixes a b c d :: "'a::linorder list"
  assumes "length a = length b"
  shows "cmp (a @ c) (b @ d) = (if a \<noteq> b then cmp a b else cmp c d)"
  using assms by (induction a b rule: list_induct2) (auto simp: cmp_def split: if_splits)

lemma cmp_word_bytes:
  fixes x y :: "'a::len word"
  assumes "8 dvd LENGTH('a)"
  shows "cmp (word_bytes x) (word_bytes y) = cmp x y"
  using assms
  by (simp add: cmp_def be_value_less_iff be_value_word_bytes word_bytes_inject word_less_nat_alt)

text \<open>
  The order of the database keys is the order of the slots, then of the hashes read with zero
  for a missing one.
\<close>

lemma cmp_into_bytes:
  "cmp (into_bytes p) (into_bytes q) =
     (if cp_slot p \<noteq> cp_slot q then cmp (cp_slot p) (cp_slot q)
      else cmp (case cp_hash p of Some h \<Rightarrow> h | None \<Rightarrow> 0) (case cp_hash q of Some h \<Rightarrow> h | None \<Rightarrow> 0))"
  by (simp add: into_bytes_alt cmp_append cmp_word_bytes word_bytes_inject)

lemma cmp_Equal_iff [simp]: "cmp x y = Equal \<longleftrightarrow> x = y"
  by (simp add: cmp_def)

lemma cmp_Less_iff [simp]: "cmp x y = Less \<longleftrightarrow> x < y"
  by (simp add: cmp_def)

lemma into_bytes_less_iff:
  "into_bytes p < into_bytes q \<longleftrightarrow>
     cp_slot p < cp_slot q \<or>
     cp_slot p = cp_slot q \<and>
       (case cp_hash p of Some h \<Rightarrow> h | None \<Rightarrow> 0) < (case cp_hash q of Some h \<Rightarrow> h | None \<Rightarrow> 0)"
proof -
  have "into_bytes p < into_bytes q \<longleftrightarrow> cmp (into_bytes p) (into_bytes q) = Less" by simp
  then show ?thesis by (auto simp: cmp_into_bytes split: if_splits)
qed

lemma into_bytes_slot_mono: "into_bytes p \<le> into_bytes q \<Longrightarrow> cp_slot p \<le> cp_slot q"
  by (metis into_bytes_less_iff linorder_not_le)

section \<open>Properties\<close>

text \<open>
  Reading back the 40 bytes of a point: the origin and every specific point come back as
  they were, a point without a hash comes back as the specific point with the zero hash of its slot,
  and the zero key is the origin.
\<close>

theorem point_bytes_roundtrip:
  "from_bytes (into_bytes p) =
     (case p of
        Origin \<Rightarrow> Origin
      | Slot s \<Rightarrow> if s = 0 then Origin else Specific s 0
      | Specific s h \<Rightarrow> if s = 0 \<and> h = 0 then Origin else Specific s h)"
  by (simp add: into_bytes_alt from_bytes_word_bytes split: chain_point.splits)

text \<open>
  The byte order of the keys is the order of the points (slot first, then hash, a missing
  hash before any other), for points whose hash is not all zeros: a scan of the log by key visits
  the points in the order \<^verbatim>\<open>Ord\<close> gives them.
\<close>

theorem point_bytes_order:
  assumes "cp_hash p \<noteq> Some 0" and "cp_hash q \<noteq> Some 0"
  shows "cmp (into_bytes p) (into_bytes q) = cp_cmp p q"
  unfolding cmp_into_bytes cp_cmp_def Let_def using assms
  by (cases "cp_hash p"; cases "cp_hash q") (auto simp: cmp_def word_neq_0_conv)

theorem point_bytes_order_witness:
  "cmp (into_bytes (Slot 7)) (into_bytes (Specific 7 3)) = Less"
  using point_bytes_order [of "Slot 7" "Specific 7 3"] by (simp add: cp_cmp_def)

text \<open>
  The equality of points is not symmetric, although \<^verbatim>\<open>Eq\<close> is declared: a specific
  point equals the bare slot it lies in, the bare slot does not equal the point, and the order puts
  the point strictly after the slot.
\<close>

theorem point_eq_asymmetric:
  "cp_eq (Specific s h) (Slot s) \<and> \<not> cp_eq (Slot s) (Specific s h) \<and> cp_cmp (Specific s h) (Slot s) = Greater"
  by (simp add: cp_cmp_def)

end
