(* ===== verification/Ordered_Table.thy ===== *)
theory Ordered_Table
  imports Dolos_Prelude
begin

text \<open>
  Ordered key-value tables: what the program uses of \<^verbatim>\<open>BTreeMap\<close> and of the tables of the
  redb database. A table is the list of its entries in increasing order of the keys. The locale
  \<open>ordered_table\<close> states what the stores rely on, and is interpreted on the list below.
\<close>

type_synonym ('k, 'v) table = "('k \<times> 'v) list"

definition tbl_ok :: "('k::linorder, 'v) table \<Rightarrow> bool" where
  "tbl_ok t = sorted_wrt (<) (map fst t)"

fun tbl_insert :: "'k::linorder \<Rightarrow> 'v \<Rightarrow> ('k, 'v) table \<Rightarrow> ('k, 'v) table" where
  "tbl_insert k v [] = [(k, v)]"
| "tbl_insert k v ((k', v') # t) =
     (if k < k' then (k, v) # (k', v') # t
      else if k = k' then (k, v) # t
      else (k', v') # tbl_insert k v t)"

definition tbl_get :: "('k, 'v) table \<Rightarrow> 'k \<Rightarrow> 'v option" where
  "tbl_get t = map_of t"

definition tbl_retain :: "('k \<Rightarrow> bool) \<Rightarrow> ('k, 'v) table \<Rightarrow> ('k, 'v) table" where
  "tbl_retain p t = filter (\<lambda>(k, _). p k) t"

definition tbl_remove :: "'k \<Rightarrow> ('k, 'v) table \<Rightarrow> ('k, 'v) table" where
  "tbl_remove k t = tbl_retain (\<lambda>k'. k' \<noteq> k) t"

section \<open>The interface\<close>

locale ordered_table =
  fixes ins :: "'k::linorder \<Rightarrow> 'v \<Rightarrow> 't \<Rightarrow> 't"
    and retain :: "('k \<Rightarrow> bool) \<Rightarrow> 't \<Rightarrow> 't"
    and get :: "'t \<Rightarrow> 'k \<Rightarrow> 'v option"
    and entries :: "'t \<Rightarrow> ('k \<times> 'v) list"
    and wf_t :: "'t \<Rightarrow> bool"
  assumes get_ins: "get (ins k v t) k' = (if k' = k then Some v else get t k')"
    and get_retain: "get (retain p t) k = (if p k then get t k else None)"
    and wf_ins: "wf_t t \<Longrightarrow> wf_t (ins k v t)"
    and wf_retain: "wf_t t \<Longrightarrow> wf_t (retain p t)"
    and entries_sorted: "wf_t t \<Longrightarrow> sorted_wrt (<) (map fst (entries t))"
    and entries_get: "wf_t t \<Longrightarrow> ((k, v) \<in> set (entries t)) = (get t k = Some v)"
begin

text \<open>A table is determined by what it holds.\<close>

lemma entries_eqI:
  assumes "wf_t t" and "wf_t u" and "\<And>k. get t k = get u k"
  shows "entries t = entries u"
proof -
  have s: "sorted (map fst (entries t))" "sorted (map fst (entries u))"
    "distinct (map fst (entries t))" "distinct (map fst (entries u))"
    using assms(1,2)[THEN entries_sorted] strict_sorted_iff by blast+
  have eq: "set (entries t) = set (entries u)"
    using entries_get [OF assms(1)] entries_get [OF assms(2)] assms(3) by auto
  have "inj_on fst (set (entries t) \<union> set (entries u))" using s(3) eq by (simp add: distinct_map)
  from this s(1,3,2,4) eq show ?thesis by (rule map_sorted_distinct_set_unique)
qed

text \<open>Inserting a batch: the last value of a key wins.\<close>

lemma get_fold_ins:
  "get (fold (\<lambda>(k, v). ins k v) kvs t) k = (case map_of (rev kvs) k of Some v \<Rightarrow> Some v | None \<Rightarrow> get t k)"
proof (induction kvs arbitrary: t)
  case Nil
  show ?case by simp
next
  case (Cons kv kvs)
  then show ?case by (cases kv) (auto simp: get_ins map_add_def split: option.splits)
qed

lemma wf_fold_ins: "wf_t t \<Longrightarrow> wf_t (fold (\<lambda>(k, v). ins k v) kvs t)"
  by (induction kvs arbitrary: t) (auto simp: wf_ins)

text \<open>Retaining undoes an insertion of keys it drops.\<close>

lemma retain_fold_ins:
  assumes "wf_t t" and "\<forall>k \<in> fst ` set kvs. \<not> p k" and "\<And>k v. get t k = Some v \<Longrightarrow> p k"
  shows "entries (retain p (fold (\<lambda>(k, v). ins k v) kvs t)) = entries t"
proof (rule entries_eqI)
  show "wf_t (retain p (fold (\<lambda>(k, v). ins k v) kvs t))" using assms(1) by (intro wf_retain wf_fold_ins)
  show "wf_t t" by (rule assms(1))
  fix k
  have "map_of (rev kvs) k = None" if "p k" using assms(2) that by (auto simp: map_of_eq_None_iff)
  then show "get (retain p (fold (\<lambda>(k, v). ins k v) kvs t)) k = get t k"
    using assms(3) [of k] by (cases "get t k") (auto simp: get_retain get_fold_ins)
qed

end

section \<open>The list keeps the interface\<close>

lemma tbl_get_insert: "tbl_get (tbl_insert k v t) k' = (if k' = k then Some v else tbl_get t k')"
  by (induction t) (auto simp: tbl_get_def)

lemma tbl_insert_keys: "fst ` set (tbl_insert k v t) = insert k (fst ` set t)"
  by (induction k v t rule: tbl_insert.induct) (simp_all add: insert_commute)

lemma tbl_ok_insert: "tbl_ok t \<Longrightarrow> tbl_ok (tbl_insert k v t)"
proof (induction t)
  case Nil
  show ?case by (simp add: tbl_ok_def)
next
  case (Cons x t)
  obtain k' v' where x: "x = (k', v')" by (cases x)
  have less: "\<forall>y \<in> fst ` set t. k' < y" and ok: "tbl_ok t" using Cons.prems by (auto simp: tbl_ok_def x)
  consider "k < k'" | "k = k'" | "k' < k" by (rule linorder_cases)
  then show ?case
  proof cases
    case 3
    have "\<forall>y \<in> fst ` set (tbl_insert k v t). k' < y" using less 3 by (simp add: tbl_insert_keys)
    with 3 Cons.IH [OF ok] show ?thesis by (auto simp: tbl_ok_def x)
  qed (use Cons.prems less in \<open>auto simp: tbl_ok_def x\<close>)
qed

lemma tbl_insert_newest: "\<forall>k' \<in> fst ` set t. k' < k \<Longrightarrow> tbl_insert k v t = t @ [(k, v)]"
  by (induction t) auto

lemma tbl_insert_last: "\<forall>k' \<in> fst ` set t. k' < k \<Longrightarrow> tbl_insert k v (t @ [(k, v')]) = t @ [(k, v)]"
  by (induction t) auto

lemma tbl_ok_retain: "tbl_ok t \<Longrightarrow> tbl_ok (tbl_retain p t)"
  by (induction t) (auto simp: tbl_ok_def tbl_retain_def)

lemma tbl_ok_distinct: "tbl_ok t \<Longrightarrow> distinct (map fst t)"
  using strict_sorted_iff by (auto simp: tbl_ok_def)

interpretation tbl: ordered_table tbl_insert tbl_retain tbl_get id tbl_ok
proof
  show "tbl_get (tbl_retain p t) k = (if p k then tbl_get t k else None)"
    for p k and t :: "('a::linorder, 'b) table"
    by (induction t) (auto simp: tbl_get_def tbl_retain_def)
  show "((k, v) \<in> set (id t)) = (tbl_get t k = Some v)" if "tbl_ok t"
    for k v and t :: "('a::linorder, 'b) table"
    using tbl_ok_distinct [OF that] by (simp add: tbl_get_def)
qed (simp_all add: tbl_get_insert tbl_ok_insert tbl_ok_retain, simp add: tbl_ok_def)

end
