(* ===== verification/Errors.thy ===== *)
theory Errors
  imports Dolos_Prelude
begin

text \<open>
  The error types the components share (\<^verbatim>\<open>crates/core/src/lib.rs\<close>,
  \<^verbatim>\<open>crates/core/src/state.rs\<close>). An error of another library that a variant only wraps is
  carried as its message.
\<close>

datatype broken_invariant =
    MissingUtxo txo_ref
  | InvalidGenesisConfig
  | BadBootstrap
  | InvalidEpochState
  | MissingPool bytes
  | EpochBoundaryIncomplete epoch "u32 option" "u32 option"

datatype state_error =
    InternalStoreError string
  | InvalidOpForTable
  | NamespaceNotFound string
  | EncodingError string
  | StateInvalidNamespace string
  | StateDecodingError string
  | StateTraverseError string
  | StateInvariantViolation string
  | EntityDecodingError string
  | StateUnsupported string

datatype consensus_error =
    BrokenContinuity block_slot hash32 hash32
  | SlotNotIncreasing block_slot block_slot

datatype chain_error =
    CantReceiveBlock bytes
  | ChainBrokenInvariant broken_invariant
  | DecodingError string
  | CborDecodingError string
  | InvalidNamespace string
  | AddressDecoding string
  | ChainStateError state_error
  | ChainIndexError string
  | ChainArchiveError string
  | GenesisFieldMissing string
  | InvalidConfig string
  | PParamsNotFound string
  | NoActiveEpoch
  | MissingGovState
  | EraNotFound
  | EpochValueVersionNotFound epoch
  | PoolSnapshotLagging string "epoch option" epoch
  | MissingRewards
  | InvalidPoolParams
  | InvalidProposalParams
  | Phase1ValidationRejected string
  | Phase2EvaluationError string
  | Phase2ValidationRejected "string list"
  | ConsensusFailure consensus_error

end
