(* ===== verification/Entity_Delta.thy ===== *)
theory Entity_Delta
  imports Errors "HOL-Library.AList"
begin

text \<open>
  Entities and deltas (\<^verbatim>\<open>crates/core/src/state.rs\<close>): entity keys, the generic
  machinery that applies and undoes a chunk of deltas over a cache of entities, and the locales
  that state the contract of the trait \<^verbatim>\<open>EntityDelta\<close> and what the machinery makes
  of it. The machinery is generic in the source, so its definitions take the trait's methods as
  arguments: \<open>key\<close>, \<open>apply_d\<close> (which also updates the delta, as
  \<^verbatim>\<open>&mut self\<close> does) and \<open>undo_d\<close>.
\<close>

type_synonym namespace = string
type_synonym entity_key = bytes
type_synonym ns_key = "namespace \<times> entity_key"

text \<open>\<^verbatim>\<open>EntityKey::from(&[u8])\<close>: the first 32 bytes, zero-padded.\<close>

definition key_size :: nat where
  "key_size = 32"

definition entity_key_from :: "bytes \<Rightarrow> entity_key" where
  "entity_key_from value = take key_size value @ replicate (key_size - length value) 0"

type_synonym ('d, 'e) apply_fn = "'d \<Rightarrow> 'e option \<Rightarrow> ('d \<times> 'e option) option"
type_synonym ('d, 'e) undo_fn = "'d \<Rightarrow> 'e option \<Rightarrow> 'e option option"

text \<open>
  \<^verbatim>\<open>EntityMap\<close>, a hash map from keys to optional entities, as an association
  list: its iteration order, which the source leaves to the hasher, is the order of the list.
\<close>

type_synonym 'e entity_map = "(ns_key \<times> 'e option) list"

text \<open>A store as the machinery sees it: reading a key gives an error or an optional entity.\<close>

type_synonym 'e reader = "ns_key \<Rightarrow> state_error + 'e option"

section \<open>Loading, applying, undoing, saving\<close>

fun load_entity_chunk :: "'e reader \<Rightarrow> ns_key list \<Rightarrow> 'e entity_map \<Rightarrow> state_error + 'e entity_map" where
  "load_entity_chunk read [] loaded = Inr loaded"
| "load_entity_chunk read (k # ks) loaded =
     (case read k of
        Inl err \<Rightarrow> Inl err
      | Inr v \<Rightarrow> load_entity_chunk read ks (AList.update k v loaded))"

definition load_missing_entities ::
  "('d \<Rightarrow> ns_key) \<Rightarrow> 'e entity_map \<Rightarrow> 'e reader \<Rightarrow> 'd list \<Rightarrow> state_error + 'e entity_map" where
  "load_missing_entities key entities read deltas =
     (let missing = filter (\<lambda>k. map_of entities k = None) (map key deltas) in
      if missing = [] then Inr entities
      else case load_entity_chunk read missing [] of
             Inl err \<Rightarrow> Inl err
           | Inr loaded \<Rightarrow> Inr (fold (\<lambda>(k, v). AList.update k v) loaded entities))"

text \<open>The loop of \<^verbatim>\<open>apply_delta_chunk\<close>; a key that is not tracked panics.\<close>

fun apply_deltas ::
  "('d \<Rightarrow> ns_key) \<Rightarrow> ('d, 'e) apply_fn \<Rightarrow> 'e entity_map \<Rightarrow> 'd list \<Rightarrow> ('e entity_map \<times> 'd list) option" where
  "apply_deltas key apply_d entities [] = Some (entities, [])"
| "apply_deltas key apply_d entities (d # ds) = do {
     entity \<leftarrow> map_of entities (key d);
     (d', entity') \<leftarrow> apply_d d entity;
     (entities', ds') \<leftarrow> apply_deltas key apply_d (AList.update (key d) entity' entities) ds;
     Some (entities', d' # ds')
   }"

definition apply_delta_chunk ::
  "('d \<Rightarrow> ns_key) \<Rightarrow> ('d, 'e) apply_fn \<Rightarrow> 'e entity_map \<Rightarrow> 'e reader \<Rightarrow> 'd list
    \<Rightarrow> (state_error + 'e entity_map \<times> 'd list) option" where
  "apply_delta_chunk key apply_d entities read deltas =
     (case load_missing_entities key entities read deltas of
        Inl err \<Rightarrow> Some (Inl err)
      | Inr entities' \<Rightarrow> map_option Inr (apply_deltas key apply_d entities' deltas))"

text \<open>The loop of \<^verbatim>\<open>undo_delta_chunk\<close> over the reversed chunk.\<close>

fun undo_deltas ::
  "('d \<Rightarrow> ns_key) \<Rightarrow> ('d, 'e) undo_fn \<Rightarrow> 'e entity_map \<Rightarrow> 'd list \<Rightarrow> 'e entity_map option" where
  "undo_deltas key undo_d entities [] = Some entities"
| "undo_deltas key undo_d entities (d # ds) = do {
     entity \<leftarrow> map_of entities (key d);
     entity' \<leftarrow> undo_d d entity;
     undo_deltas key undo_d (AList.update (key d) entity' entities) ds
   }"

definition undo_delta_chunk ::
  "('d \<Rightarrow> ns_key) \<Rightarrow> ('d, 'e) undo_fn \<Rightarrow> 'e entity_map \<Rightarrow> 'e reader \<Rightarrow> 'd list
    \<Rightarrow> (state_error + 'e entity_map) option" where
  "undo_delta_chunk key undo_d entities read deltas =
     (case load_missing_entities key entities read deltas of
        Inl err \<Rightarrow> Some (Inl err)
      | Inr entities' \<Rightarrow> map_option Inr (undo_deltas key undo_d entities' (rev deltas)))"

text \<open>
  The entity part of a state store, decoded, and \<^verbatim>\<open>save_entities\<close> over it. A present
  entity is written under the namespace of its own type (\<^verbatim>\<open>write_entity_typed\<close>), an
  absent one is deleted under the namespace of its key (\<^verbatim>\<open>save_entity_typed\<close>).
\<close>

type_synonym 'e entity_table = "ns_key \<rightharpoonup> 'e"

fun save_entity_typed :: "('e \<Rightarrow> namespace) \<Rightarrow> ns_key \<Rightarrow> 'e option \<Rightarrow> 'e entity_table \<Rightarrow> 'e entity_table" where
  "save_entity_typed ns_of (ns, k) (Some e) store = store((ns_of e, k) \<mapsto> e)"
| "save_entity_typed ns_of (ns, k) None store = store((ns, k) := None)"

definition save_entities :: "('e \<Rightarrow> namespace) \<Rightarrow> 'e entity_map \<Rightarrow> 'e entity_table \<Rightarrow> 'e entity_table" where
  "save_entities ns_of entities store = fold (\<lambda>(k, e). save_entity_typed ns_of k e) entities store"

text \<open>A store that holds decodable rows only, read by the machinery.\<close>

definition table_reader :: "'e entity_table \<Rightarrow> 'e reader" where
  "table_reader store k = Inr (store k)"

section \<open>Lemmas on entity keys and entity maps\<close>

lemma length_entity_key_from [simp]: "length (entity_key_from bs) = key_size"
  by (simp add: entity_key_from_def)

lemma map_of_AList_update [simp]: "map_of (AList.update k v al) = (map_of al)(k \<mapsto> v)"
  by (simp add: update_conv')

lemma dom_map_of_AList_update: "dom (map_of (AList.update k v al)) = insert k (dom (map_of al))"
  unfolding map_of_AList_update by (simp only: dom_fun_upd option.distinct if_False)

lemma map_of_fold_update:
  "map_of (fold (\<lambda>(k, v). AList.update k v) xs m) k = (case map_of (rev xs) k of None \<Rightarrow> map_of m k | Some v \<Rightarrow> Some v)"
proof (induction xs arbitrary: m)
  case Nil
  show ?case by simp
next
  case (Cons x xs)
  then show ?case by (cases x) (auto simp: map_add_def split: option.splits)
qed

lemma distinct_fold_update:
  "distinct (map fst m) \<Longrightarrow> distinct (map fst (fold (\<lambda>(k, v). AList.update k v) xs m))"
  by (induction xs arbitrary: m) (auto simp: distinct_update)

lemma load_entity_chunk_table:
  obtains m' where "load_entity_chunk (table_reader store) ks m = Inr m'"
    and "\<And>k. map_of m' k = (if k \<in> set ks then Some (store k) else map_of m k)"
    and "distinct (map fst m) \<Longrightarrow> distinct (map fst m')"
proof (induction ks arbitrary: m thesis)
  case Nil
  then show ?case by simp
next
  case (Cons k ks)
  obtain m' where "load_entity_chunk (table_reader store) ks (AList.update k (store k) m) = Inr m'"
    and "\<And>j. map_of m' j = (if j \<in> set ks then Some (store j) else map_of (AList.update k (store k) m) j)"
    and "distinct (map fst (AList.update k (store k) m)) \<Longrightarrow> distinct (map fst m')"
    using Cons.IH [of "AList.update k (store k) m"] by metis
  moreover have "load_entity_chunk (table_reader store) (k # ks) m =
      load_entity_chunk (table_reader store) ks (AList.update k (store k) m)"
    using table_reader_def [of store k] by simp
  ultimately show ?case
    by (intro Cons.prems [of m']) (simp_all add: distinct_update)
qed

text \<open>The cache overlaid on the store: what a reader of cached entities sees.\<close>

definition overlay :: "'e entity_map \<Rightarrow> 'e entity_table \<Rightarrow> 'e entity_table" where
  "overlay entities store k = (case map_of entities k of None \<Rightarrow> store k | Some e \<Rightarrow> e)"

definition cache_ok :: "'e entity_map \<Rightarrow> bool" where
  "cache_ok entities \<longleftrightarrow> distinct (map fst entities)"

lemma cache_ok_Nil [simp]: "cache_ok []"
  by (simp add: cache_ok_def)

lemma cache_ok_update [simp]: "cache_ok m \<Longrightarrow> cache_ok (AList.update k v m)"
  by (simp add: cache_ok_def distinct_update)

lemma overlay_Nil [simp]: "overlay [] store = store"
  by (simp add: overlay_def fun_eq_iff)

lemma overlay_update [simp]: "overlay (AList.update k e m) store = (overlay m store)(k := e)"
  by (auto simp: overlay_def fun_eq_iff)

text \<open>
  Loading from a store makes every key of the chunk tracked and changes nothing a reader sees.
\<close>

lemma load_missing_entities_table:
  assumes "cache_ok m"
  obtains m' where "load_missing_entities key m (table_reader store) ds = Inr m'"
    and "overlay m' store = overlay m store" and "cache_ok m'"
    and "dom (map_of m') = dom (map_of m) \<union> key ` set ds"
proof (cases "filter (\<lambda>k. map_of m k = None) (map key ds) = []")
  case True
  then have "key ` set ds \<subseteq> dom (map_of m)" by (auto simp: filter_empty_conv)
  with True assms show thesis
    by (intro that [of m]) (auto simp: load_missing_entities_def)
next
  case False
  let ?ks = "filter (\<lambda>k. map_of m k = None) (map key ds)"
  obtain l where l: "load_entity_chunk (table_reader store) ?ks [] = Inr l"
    and ml: "\<And>k. map_of l k = (if k \<in> set ?ks then Some (store k) else map_of [] k)"
    and dl: "distinct (map fst l)"
    using load_entity_chunk_table [of store ?ks "[]"] by auto
  let ?m' = "fold (\<lambda>(k, v). AList.update k v) l m"
  have rev_l: "map_of (rev l) = map_of l" using dl by (simp add: map_of_inject_set rev_map [symmetric])
  have mm: "map_of ?m' k = (if k \<in> set ?ks then Some (store k) else map_of m k)" for k
    unfolding map_of_fold_update rev_l ml by simp
  show thesis
  proof (rule that)
    show "load_missing_entities key m (table_reader store) ds = Inr ?m'"
      using False l by (auto simp: load_missing_entities_def Let_def)
    show "overlay ?m' store = overlay m store"
      by (auto simp: overlay_def fun_eq_iff mm)
    show "cache_ok ?m'" using assms by (simp add: cache_ok_def distinct_fold_update)
    show "dom (map_of ?m') = dom (map_of m) \<union> key ` set ds"
      unfolding dom_def mm by (auto split: if_splits)
  qed
qed

text \<open>\<^term>\<open>typed ns e\<close>: an optional entity of the type the namespace holds.\<close>

definition typed :: "('e \<Rightarrow> namespace) \<Rightarrow> namespace \<Rightarrow> 'e option \<Rightarrow> bool" where
  "typed ns_of ns e \<longleftrightarrow> (\<forall>x. e = Some x \<longrightarrow> ns_of x = ns)"

definition typed_table :: "('e \<Rightarrow> namespace) \<Rightarrow> 'e entity_table \<Rightarrow> bool" where
  "typed_table ns_of store \<longleftrightarrow> (\<forall>k. typed ns_of (fst k) (store k))"

lemma typed_tableD: "typed_table ns_of t \<Longrightarrow> typed ns_of (fst k) (t k)"
  by (cases k) (simp add: typed_table_def)

lemma typed_table_upd: "typed_table ns_of t \<Longrightarrow> typed ns_of (fst k) e \<Longrightarrow> typed_table ns_of (t(k := e))"
  by (cases k) (simp add: typed_table_def)

lemma save_entity_typed_upd:
  "typed ns_of (fst k) e \<Longrightarrow> save_entity_typed ns_of k e store = store(k := e)"
  by (cases k; cases e) (simp_all add: typed_def)

text \<open>Saving a well-typed cache makes the store show what the cache overlaid on it showed.\<close>

lemma save_entities_overlay:
  assumes "cache_ok m" and "\<And>k e. (k, e) \<in> set m \<Longrightarrow> typed ns_of (fst k) e"
  shows "save_entities ns_of m store = overlay m store"
  using assms
proof (induction m arbitrary: store)
  case Nil
  then show ?case by (simp add: save_entities_def)
next
  case (Cons x m)
  obtain k e where x: "x = (k, e)" by (cases x)
  have "save_entities ns_of m (store(k := e)) = overlay m (store(k := e))"
    using Cons.prems by (intro Cons.IH) (auto simp: cache_ok_def)
  moreover have "save_entity_typed ns_of k e store = store(k := e)"
    using Cons.prems(2) x by (intro save_entity_typed_upd) simp
  moreover have "k \<notin> dom (map_of m)"
    using Cons.prems(1) x by (simp add: cache_ok_def dom_map_of_conv_image_fst)
  then have "map_of m k = None" by blast
  then have "overlay m (store(k := e)) = overlay ((k, e) # m) store"
    by (auto simp: overlay_def fun_eq_iff split: option.splits)
  ultimately show ?case by (simp add: save_entities_def x)
qed

section \<open>The contract of a delta\<close>

text \<open>
  What \<^verbatim>\<open>EntityDelta\<close> asks of its implementors: applying keeps the key, and undoing
  the applied delta restores the entity. \<open>fresh\<close> describes the delta as its constructor
  leaves it and \<open>ok\<close> what an implementation needs of the entity it meets.
\<close>

locale reversible_delta =
  fixes key :: "'d \<Rightarrow> ns_key"
    and apply_d :: "('d, 'e) apply_fn"
    and undo_d :: "('d, 'e) undo_fn"
    and fresh :: "'d \<Rightarrow> bool"
    and ok :: "'d \<Rightarrow> 'e option \<Rightarrow> bool"
  assumes key_apply: "apply_d d e = Some (d', e') \<Longrightarrow> key d' = key d"
    and undo_apply: "fresh d \<Longrightarrow> ok d e \<Longrightarrow> apply_d d e = Some (d', e') \<Longrightarrow> undo_d d' e' = Some e"

text \<open>
  \<^verbatim>\<open>downcast_apply\<close> and \<^verbatim>\<open>downcast_undo\<close> of
  \<^verbatim>\<open>crates/cardano/src/model/mod.rs\<close>: run a delta of one entity type on the sum of
  all of them. An entity of another type is dropped on the way in.
\<close>

definition downcast_apply ::
  "('c \<Rightarrow> 'e option) \<Rightarrow> ('e \<Rightarrow> 'c) \<Rightarrow> ('d, 'e) apply_fn \<Rightarrow> 'd \<Rightarrow> 'c option \<Rightarrow> ('d \<times> 'c option) option" where
  "downcast_apply from_c into_c apply_d d entity = do {
     (d', sub_entity) \<leftarrow> apply_d d (Option.bind entity from_c);
     Some (d', map_option into_c sub_entity)
   }"

definition downcast_undo ::
  "('c \<Rightarrow> 'e option) \<Rightarrow> ('e \<Rightarrow> 'c) \<Rightarrow> ('d, 'e) undo_fn \<Rightarrow> 'd \<Rightarrow> 'c option \<Rightarrow> 'c option option" where
  "downcast_undo from_c into_c undo_d d entity = map_option (map_option into_c) (undo_d d (Option.bind entity from_c))"

context reversible_delta
begin

text \<open>A variant of the sum: the delta stays reversible on entities of its own type.\<close>

lemma downcast_reversible:
  assumes from_into: "\<And>x. from_c (into_c x) = Some x"
    and e: "e = None \<or> (\<exists>x. e = Some (into_c x))"
    and fresh: "fresh d" and ok: "ok d (Option.bind e from_c)"
    and run: "downcast_apply from_c into_c apply_d d e = Some (d', e')"
  shows "downcast_undo from_c into_c undo_d d' e' = Some e"
proof -
  from run obtain s where s: "apply_d d (Option.bind e from_c) = Some (d', s)" and e': "e' = map_option into_c s"
    by (auto simp: downcast_apply_def panic_simps)
  have "Option.bind e' from_c = s" by (cases s) (simp_all add: e' from_into)
  moreover have "undo_d d' s = Some (Option.bind e from_c)" by (rule undo_apply [OF fresh ok s])
  moreover have "map_option into_c (Option.bind e from_c) = e" using e by (auto simp: from_into)
  ultimately show ?thesis by (simp add: downcast_undo_def)
qed

lemma downcast_key:
  "downcast_apply from_c into_c apply_d d e = Some (d', e') \<Longrightarrow> key d' = key d"
  by (auto simp: downcast_apply_def panic_simps dest: key_apply)

lemma downcast_range:
  "downcast_apply from_c into_c apply_d d e = Some (d', e') \<Longrightarrow> e' = None \<or> (\<exists>x. e' = Some (into_c x))"
  by (cases e') (auto simp: downcast_apply_def panic_simps)

end

section \<open>Tracked entities\<close>

lemma overlay_tracked: "map_of m k = Some e \<Longrightarrow> overlay m store k = e"
  by (simp add: overlay_def)

lemma tracked_overlay: "k \<in> dom (map_of m) \<Longrightarrow> map_of m k = Some (overlay m store k)"
  by (auto simp: overlay_def)

lemma undo_deltas_cache_ok: "undo_deltas key undo_d m ds = Some m' \<Longrightarrow> cache_ok m \<Longrightarrow> cache_ok m'"
  by (induction ds arbitrary: m) (auto simp: panic_simps)

lemma apply_deltas_cache_ok: "apply_deltas key apply_d m ds = Some (m', ds') \<Longrightarrow> cache_ok m \<Longrightarrow> cache_ok m'"
  by (induction ds arbitrary: m m' ds') (auto simp: panic_simps)

end
