(* ===== verification/Memory_State.thy ===== *)
theory Memory_State
  imports Chain_Point Ordered_Table Entity_Delta "HOL-Library.Char_ord" "HOL-Library.Product_Lexorder"
begin

text \<open>
  The in-memory state store (\<^verbatim>\<open>crates/core/src/builtin/memory/state.rs\<close>): the tables,
  the log of mutations a writer keeps, and its commit. The value of an entity is opaque to the store
  and a type parameter here. The errors of the source come from poisoned locks only, that is from a
  panic of another thread, and are not part of the model.
\<close>

record 'v tables =
  t_cursor :: "chain_point option"
  t_entities :: "(ns_key, 'v) table"
  t_utxos :: "(txo_ref, era_cbor) table"

definition tables_default :: "'v tables" where
  "tables_default = \<lparr>t_cursor = None, t_entities = [], t_utxos = []\<rparr>"

datatype 'v op =
    SetCursor chain_point
  | WriteEntity namespace entity_key 'v
  | DeleteEntity namespace entity_key
  | PutUtxo txo_ref era_cbor
  | DeleteUtxo txo_ref

text \<open>The hash maps of a UTxO delta as association lists, in the order of iteration.\<close>

record utxo_set_delta =
  produced_utxo :: "(txo_ref \<times> era_cbor) list"
  consumed_utxo :: "(txo_ref \<times> era_cbor) list"
  recovered_stxi :: "(txo_ref \<times> era_cbor) list"
  undone_utxo :: "(txo_ref \<times> era_cbor) list"

definition utxo_set_delta_default :: utxo_set_delta where
  "utxo_set_delta_default = \<lparr>produced_utxo = [], consumed_utxo = [], recovered_stxi = [], undone_utxo = []\<rparr>"

section \<open>The writer\<close>

definition set_cursor :: "chain_point \<Rightarrow> 'v op list \<Rightarrow> 'v op list" where
  "set_cursor cursor ops = ops @ [SetCursor cursor]"

definition write_entity :: "namespace \<Rightarrow> entity_key \<Rightarrow> 'v \<Rightarrow> 'v op list \<Rightarrow> 'v op list" where
  "write_entity ns key v ops = ops @ [WriteEntity ns key v]"

definition delete_entity :: "namespace \<Rightarrow> entity_key \<Rightarrow> 'v op list \<Rightarrow> 'v op list" where
  "delete_entity ns key ops = ops @ [DeleteEntity ns key]"

definition apply_utxoset :: "utxo_set_delta \<Rightarrow> 'v op list \<Rightarrow> 'v op list" where
  "apply_utxoset delta ops =
     ops @ map (\<lambda>(txo, body). PutUtxo txo body) (produced_utxo delta)
         @ map (\<lambda>(txo, body). PutUtxo txo body) (recovered_stxi delta)
         @ map (\<lambda>(txo, _). DeleteUtxo txo) (consumed_utxo delta)
         @ map (\<lambda>(txo, _). DeleteUtxo txo) (undone_utxo delta)"

fun commit_op :: "'v op \<Rightarrow> 'v tables \<Rightarrow> 'v tables" where
  "commit_op (SetCursor cursor) t = t\<lparr>t_cursor := Some cursor\<rparr>"
| "commit_op (WriteEntity ns key v) t = t\<lparr>t_entities := tbl_insert (ns, key) v (t_entities t)\<rparr>"
| "commit_op (DeleteEntity ns key) t = t\<lparr>t_entities := tbl_remove (ns, key) (t_entities t)\<rparr>"
| "commit_op (PutUtxo txo v) t = t\<lparr>t_utxos := tbl_insert txo v (t_utxos t)\<rparr>"
| "commit_op (DeleteUtxo txo) t = t\<lparr>t_utxos := tbl_remove txo (t_utxos t)\<rparr>"

definition commit :: "'v op list \<Rightarrow> 'v tables \<Rightarrow> 'v tables" where
  "commit ops t = fold commit_op ops t"

section \<open>Reads\<close>

definition read_cursor :: "'v tables \<Rightarrow> chain_point option" where
  "read_cursor t = t_cursor t"

definition read_entities :: "'v tables \<Rightarrow> namespace \<Rightarrow> entity_key list \<Rightarrow> 'v option list" where
  "read_entities t ns keys = map (\<lambda>key. tbl_get (t_entities t) (ns, key)) keys"

definition iter_entities :: "'v tables \<Rightarrow> namespace \<Rightarrow> entity_key \<Rightarrow> entity_key \<Rightarrow> (entity_key \<times> 'v) list" where
  "iter_entities t ns start stop =
     (if stop < start then []
      else map (\<lambda>((_, key), v). (key, v))
             (filter (\<lambda>(k, _). (ns, start) \<le> k \<and> k < (ns, stop)) (t_entities t)))"

definition get_utxos :: "'v tables \<Rightarrow> txo_ref list \<Rightarrow> (txo_ref \<times> era_cbor) list" where
  "get_utxos t refs = List.map_filter (\<lambda>txo. map_option (\<lambda>v. (txo, v)) (tbl_get (t_utxos t) txo)) refs"

definition iter_utxos :: "'v tables \<Rightarrow> (txo_ref \<times> era_cbor) list" where
  "iter_utxos t = t_utxos t"

section \<open>The store as maps\<close>

definition tables_ok :: "'v tables \<Rightarrow> bool" where
  "tables_ok t \<longleftrightarrow> tbl_ok (t_entities t) \<and> tbl_ok (t_utxos t)"

definition entity_view :: "'v tables \<Rightarrow> ns_key \<rightharpoonup> 'v" where
  "entity_view t = tbl_get (t_entities t)"

definition utxo_view :: "'v tables \<Rightarrow> txo_ref \<rightharpoonup> era_cbor" where
  "utxo_view t = tbl_get (t_utxos t)"

lemma tbl_get_insert_fun: "tbl_get (tbl_insert k v t) = (tbl_get t)(k \<mapsto> v)"
  by (simp add: fun_eq_iff tbl_get_insert)

lemma tbl_get_remove_fun: "tbl_get (tbl_remove k t) = (tbl_get t)(k := None)"
  for t :: "('k::linorder, 'v) table"
  by (simp add: fun_eq_iff tbl_remove_def tbl.get_retain)

lemma commit_op_ok [simp]: "tables_ok t \<Longrightarrow> tables_ok (commit_op x t)"
  by (cases x) (simp_all add: tables_ok_def tbl_ok_insert tbl_remove_def tbl_ok_retain)

lemma commit_ok: "tables_ok t \<Longrightarrow> tables_ok (commit ops t)"
  unfolding commit_def by (induction ops arbitrary: t) simp_all

lemma commit_append: "commit (xs @ ys) t = commit ys (commit xs t)"
  by (simp add: commit_def)

lemma commit_simps [simp]:
  "commit [] t = t"
  "commit (x # xs) t = commit xs (commit_op x t)"
  by (simp_all add: commit_def)

text \<open>A table holds nothing but its view.\<close>

lemma tables_eqI:
  assumes "tables_ok t" "tables_ok u" "t_cursor t = t_cursor u" "entity_view t = entity_view u" "utxo_view t = utxo_view u"
  shows "t = u"
proof -
  have "t_entities t = t_entities u" "t_utxos t = t_utxos u"
    using assms tbl.entries_eqI [of "t_entities t" "t_entities u"] tbl.entries_eqI [of "t_utxos t" "t_utxos u"]
    by (simp_all add: tables_ok_def entity_view_def utxo_view_def)
  with assms(3) show ?thesis by simp
qed

subsection \<open>What each mutation does to the views\<close>

lemma view_simps [simp]:
  "entity_view (commit_op (SetCursor p) t) = entity_view t"
  "entity_view (commit_op (WriteEntity ns k v) t) = (entity_view t)((ns, k) \<mapsto> v)"
  "entity_view (commit_op (DeleteEntity ns k) t) = (entity_view t)((ns, k) := None)"
  "entity_view (commit_op (PutUtxo r b) t) = entity_view t"
  "entity_view (commit_op (DeleteUtxo r) t) = entity_view t"
  "utxo_view (commit_op (SetCursor p) t) = utxo_view t"
  "utxo_view (commit_op (WriteEntity ns k v) t) = utxo_view t"
  "utxo_view (commit_op (DeleteEntity ns k) t) = utxo_view t"
  "utxo_view (commit_op (PutUtxo r b) t) = (utxo_view t)(r \<mapsto> b)"
  "utxo_view (commit_op (DeleteUtxo r) t) = (utxo_view t)(r := None)"
  "t_cursor (commit_op (SetCursor p) t) = Some p"
  "t_cursor (commit_op (WriteEntity ns k v) t) = t_cursor t"
  "t_cursor (commit_op (DeleteEntity ns k) t) = t_cursor t"
  "t_cursor (commit_op (PutUtxo r b) t) = t_cursor t"
  "t_cursor (commit_op (DeleteUtxo r) t) = t_cursor t"
  by (simp_all add: entity_view_def utxo_view_def tbl_get_insert_fun tbl_get_remove_fun)

declare commit_op.simps [simp del]

text \<open>Produced and recovered outputs are put, then consumed and undone ones are deleted.\<close>

definition utxo_apply :: "utxo_set_delta \<Rightarrow> (txo_ref \<rightharpoonup> era_cbor) \<Rightarrow> (txo_ref \<rightharpoonup> era_cbor)" where
  "utxo_apply delta u =
     (u ++ map_of (rev (produced_utxo delta)) ++ map_of (rev (recovered_stxi delta)))
       |` (- (fst ` set (consumed_utxo delta) \<union> fst ` set (undone_utxo delta)))"

lemma commit_puts:
  "utxo_view (commit (map (\<lambda>(txo, body). PutUtxo txo body) kvs) t) = utxo_view t ++ map_of (rev kvs)"
  "entity_view (commit (map (\<lambda>(txo, body). PutUtxo txo body) kvs) t) = entity_view t"
  "t_cursor (commit (map (\<lambda>(txo, body). PutUtxo txo body) kvs) t) = t_cursor t"
  by (induction kvs arbitrary: t) (auto simp: map_add_upd_left map_add_assoc [symmetric])

lemma commit_deletes:
  "utxo_view (commit (map (\<lambda>(txo, _). DeleteUtxo txo) kvs) t) = utxo_view t |` (- (fst ` set kvs))"
  "entity_view (commit (map (\<lambda>(txo, _). DeleteUtxo txo) kvs) t) = entity_view t"
  "t_cursor (commit (map (\<lambda>(txo, _). DeleteUtxo txo) kvs) t) = t_cursor t"
proof (induction kvs arbitrary: t)
  case (Cons x kvs)
  {
    case 1
    then show ?case using Cons(1) by (cases x) (auto simp: fun_eq_iff restrict_map_def)
  next
    case 2
    then show ?case using Cons(2) by (cases x) simp
  next
    case 3
    then show ?case using Cons(3) by (cases x) simp
  }
qed (simp_all add: restrict_map_def)

lemma commit_apply_utxoset:
  "utxo_view (commit (apply_utxoset delta ops) t) = utxo_apply delta (utxo_view (commit ops t))"
  "entity_view (commit (apply_utxoset delta ops) t) = entity_view (commit ops t)"
  "t_cursor (commit (apply_utxoset delta ops) t) = t_cursor (commit ops t)"
  by (simp_all add: apply_utxoset_def commit_append commit_puts commit_deletes utxo_apply_def)

text \<open>A range scan of a namespace gives its entries between the bounds, in the order of their keys.\<close>

lemma iter_entities_spec:
  assumes "tables_ok t"
  shows "sorted_wrt (<) (map fst (iter_entities t ns start stop))"
    and "(key, v) \<in> set (iter_entities t ns start stop) \<longleftrightarrow> entity_view t (ns, key) = Some v \<and> start \<le> key \<and> key < stop"
proof -
  have sorted: "sorted_wrt (\<lambda>x y. fst x < fst y) (t_entities t)"
    using assms by (simp add: tables_ok_def tbl_ok_def sorted_wrt_map)
  have in_ns: "(ns, start) \<le> k \<and> k < (ns, stop) \<longleftrightarrow> fst k = ns \<and> start \<le> snd k \<and> snd k < stop" for k
    by (cases k) (auto simp: less_prod_def' less_eq_prod_def)
  have "sorted_wrt (\<lambda>x y. snd (fst x) < snd (fst y)) (filter (\<lambda>x. fst (fst x) = ns \<and> P x) (t_entities t))" for P
    by (rule sorted_wrt_mono_rel [OF _ sorted_wrt_filter [OF sorted]]) (auto simp: less_prod_def')
  then show "sorted_wrt (<) (map fst (iter_entities t ns start stop))"
    by (simp add: iter_entities_def sorted_wrt_map case_prod_unfold in_ns)
  have get: "entity_view t k = Some v \<longleftrightarrow> (k, v) \<in> set (t_entities t)" for k v
    using assms tbl.entries_get [of "t_entities t" k v] by (simp add: tables_ok_def entity_view_def)
  show "(key, v) \<in> set (iter_entities t ns start stop) \<longleftrightarrow> entity_view t (ns, key) = Some v \<and> start \<le> key \<and> key < stop"
    unfolding get by (force simp: iter_entities_def case_prod_unfold in_ns)
qed

section \<open>Properties\<close>

text \<open>
  Committing a UTxO delta puts the produced and the recovered outputs and then removes the
  consumed and the undone ones, so an output that the same delta produces and consumes ends up
  absent; entities and the cursor are untouched, and the store stays ordered.
\<close>

theorem commit_utxo_delta:
  assumes "tables_ok t"
  shows "tables_ok (commit (apply_utxoset delta []) t) \<and>
    utxo_view (commit (apply_utxoset delta []) t) = utxo_apply delta (utxo_view t) \<and>
    entity_view (commit (apply_utxoset delta []) t) = entity_view t \<and>
    t_cursor (commit (apply_utxoset delta []) t) = t_cursor t"
  using commit_ok [OF assms] by (simp add: commit_apply_utxoset)

theorem commit_utxo_delta_witness:
  "utxo_view (commit (apply_utxoset (utxo_set_delta_default\<lparr>produced_utxo := [((1, 0), (6, []))],
     consumed_utxo := [((1, 0), (6, []))]\<rparr>) []) (tables_default :: nat tables)) (1, 0) = None"
proof -
  have "tables_ok (tables_default :: nat tables)" by (simp add: tables_ok_def tables_default_def tbl_ok_def)
  then have "utxo_view (commit (apply_utxoset (utxo_set_delta_default\<lparr>produced_utxo := [((1, 0), (6, []))],
      consumed_utxo := [((1, 0), (6, []))]\<rparr>) []) (tables_default :: nat tables))
    = utxo_apply (utxo_set_delta_default\<lparr>produced_utxo := [((1, 0), (6, []))],
      consumed_utxo := [((1, 0), (6, []))]\<rparr>) (utxo_view (tables_default :: nat tables))"
    by (rule commit_utxo_delta [THEN conjunct2, THEN conjunct1])
  then show ?thesis by (simp add: utxo_apply_def)
qed

text \<open>
  A range scan of a namespace gives exactly its entities with keys between the bounds, the
  upper one excluded, in increasing order of the keys; an inverted range gives nothing.
\<close>

theorem iter_entities_is_range:
  assumes "tables_ok t"
  shows "sorted_wrt (<) (map fst (iter_entities t ns start stop)) \<and>
    (\<forall>key v. (key, v) \<in> set (iter_entities t ns start stop) \<longleftrightarrow>
       entity_view t (ns, key) = Some v \<and> start \<le> key \<and> key < stop)"
  using iter_entities_spec [OF assms] by blast

theorem iter_entities_is_range_witness:
  "([2], 7 :: nat) \<in> set (iter_entities (commit [WriteEntity ''a'' [2] 7, WriteEntity ''b'' [1] 9] tables_default) ''a'' [1] [3])"
proof -
  have "tables_ok (commit [WriteEntity ''a'' [2] (7 :: nat), WriteEntity ''b'' [1] 9] tables_default)"
    by (rule commit_ok) (simp add: tables_ok_def tables_default_def tbl_ok_def)
  from iter_entities_is_range [OF this] show ?thesis by simp
qed

end
