(* ===== verification/Consensus.thy ===== *)
theory Consensus
  imports Chain_Point Errors
begin

text \<open>
  The continuity rules of the chain and the fragment of it the pull stage follows
  (\<^verbatim>\<open>crates/cardano/src/consensus.rs\<close>). The locale \<open>extension_rule\<close> states what
  the two users of the rules, the fragment and the batch of blocks, rely on.
\<close>

definition check_continuity :: "block_slot \<Rightarrow> hash32 option \<Rightarrow> chain_point \<Rightarrow> consensus_error + unit" where
  "check_continuity slot prev_hash tip =
     (case (prev_hash, cp_hash tip) of
        (Some prev, Some tip_hash) \<Rightarrow>
          if prev \<noteq> tip_hash then Inl (BrokenContinuity slot tip_hash prev) else Inr ()
      | _ \<Rightarrow> Inr ())"

definition check_slot_increase :: "block_slot \<Rightarrow> chain_point \<Rightarrow> consensus_error + unit" where
  "check_slot_increase slot tip =
     (case tip of
        Origin \<Rightarrow> Inr ()
      | _ \<Rightarrow> if cp_slot tip \<le> slot then Inr () else Inl (SlotNotIncreasing slot (cp_slot tip)))"

definition check_extension :: "chain_point \<Rightarrow> block_slot \<Rightarrow> hash32 option \<Rightarrow> consensus_error + unit" where
  "check_extension tip slot prev_hash =
     (case check_continuity slot prev_hash tip of
        Inl err \<Rightarrow> Inl err
      | Inr _ \<Rightarrow> check_slot_increase slot tip)"

section \<open>The fragment\<close>

record chain_fragment =
  cf_tip :: chain_point
  cf_pending :: "chain_point list"

datatype rollback_result = Handled | OutOfScope chain_point

definition fragment_start :: "chain_point \<Rightarrow> chain_fragment" where
  "fragment_start point = \<lparr>cf_tip = point, cf_pending = []\<rparr>"

definition fragment_roll_forward ::
  "chain_point \<Rightarrow> hash32 option \<Rightarrow> chain_fragment \<Rightarrow> (consensus_error + chain_point) \<times> chain_fragment" where
  "fragment_roll_forward point prev_hash f =
     (case check_extension (cf_tip f) (cp_slot point) prev_hash of
        Inl err \<Rightarrow> (Inl err, f)
      | Inr _ \<Rightarrow> (Inr point, f\<lparr>cf_tip := point, cf_pending := cf_pending f @ [point]\<rparr>))"

text \<open>\<^verbatim>\<open>iter().position(|p| p == point)\<close>: the comparison is the one of points.\<close>

fun position :: "('a \<Rightarrow> bool) \<Rightarrow> 'a list \<Rightarrow> nat option" where
  "position p [] = None"
| "position p (x # xs) = (if p x then Some 0 else map_option Suc (position p xs))"

definition fragment_roll_back :: "chain_point \<Rightarrow> chain_fragment \<Rightarrow> rollback_result \<times> chain_fragment" where
  "fragment_roll_back point f =
     (case position (\<lambda>p. cp_eq p point) (cf_pending f) of
        Some pos \<Rightarrow> (Handled, f\<lparr>cf_pending := take (pos + 1) (cf_pending f), cf_tip := point\<rparr>)
      | None \<Rightarrow> (OutOfScope point, f\<lparr>cf_pending := [], cf_tip := point\<rparr>))"

definition take_pending :: "chain_fragment \<Rightarrow> chain_point list \<times> chain_fragment" where
  "take_pending f = (cf_pending f, f\<lparr>cf_pending := []\<rparr>)"

section \<open>What the rules give their users\<close>

text \<open>A list of points and declared parents, each accepted on top of the one before it.\<close>

fun linked :: "(chain_point \<Rightarrow> block_slot \<Rightarrow> hash32 option \<Rightarrow> bool) \<Rightarrow> chain_point
    \<Rightarrow> (chain_point \<times> hash32 option) list \<Rightarrow> bool" where
  "linked accepts tip [] = True"
| "linked accepts tip ((p, prev) # ps) = (accepts tip (cp_slot p) prev \<and> linked accepts p ps)"

locale extension_rule =
  fixes accepts :: "chain_point \<Rightarrow> block_slot \<Rightarrow> hash32 option \<Rightarrow> bool"
  assumes slot_mono: "accepts tip slot prev \<Longrightarrow> cp_slot tip \<le> slot"
    and parent: "accepts tip slot (Some q) \<Longrightarrow> cp_hash tip = Some h \<Longrightarrow> q = h"
begin

lemma linked_append: "linked accepts tip (ps @ qs) \<longleftrightarrow>
    linked accepts tip ps \<and> linked accepts (if ps = [] then tip else fst (last ps)) qs"
  by (induction ps arbitrary: tip) auto

lemma linked_sorted: "linked accepts tip ps \<Longrightarrow> sorted (map (unat \<circ> cp_slot) (tip # map fst ps))"
proof (induction ps arbitrary: tip)
  case (Cons x ps)
  obtain p prev where x: "x = (p, prev)" by (cases x)
  have "linked accepts p ps" using Cons.prems x by simp
  then have "sorted (map (unat \<circ> cp_slot) (p # map fst ps))" by (rule Cons.IH)
  moreover have "unat (cp_slot tip) \<le> unat (cp_slot p)"
    using Cons.prems slot_mono by (auto simp: x word_le_nat_alt)
  ultimately show ?case by (simp add: x sorted2 comp_def del: sorted_wrt.simps)
qed simp

lemma linked_parent:
  assumes "linked accepts tip ps" and "i < length ps" and "snd (ps ! i) = Some prev"
    and "cp_hash (if i = 0 then tip else fst (ps ! (i - 1))) = Some h"
  shows "prev = h"
  using assms
proof (induction ps arbitrary: tip i)
  case (Cons x ps)
  obtain p q where x: "x = (p, q)" by (cases x)
  show ?case
  proof (cases i)
    case 0
    with Cons.prems x show ?thesis using parent by auto
  next
    case (Suc j)
    with Cons.prems x show ?thesis by (intro Cons.IH [of p j]) (auto split: if_splits)
  qed
qed simp

end

lemma check_extension_Inr:
  "check_extension tip slot prev = Inr () \<longleftrightarrow>
     (\<forall>q h. prev = Some q \<longrightarrow> cp_hash tip = Some h \<longrightarrow> q = h) \<and> (tip \<noteq> Origin \<longrightarrow> cp_slot tip \<le> slot)"
  by (auto simp: check_extension_def check_continuity_def check_slot_increase_def
      split: option.splits chain_point.splits if_splits)

interpretation consensus: extension_rule "\<lambda>tip slot prev. check_extension tip slot prev = Inr ()"
  by unfold_locales (auto simp: check_extension_Inr split: chain_point.splits)

section \<open>The fragment follows a linked chain\<close>

text \<open>
  The pull stage as a state machine: headers that roll the fragment forward, rollbacks, and the
  collection of the points it has gathered. The ghost components are the point the pending batch
  starts from and the parents its headers declared.
\<close>

inductive fragment_reach :: "chain_point \<Rightarrow> hash32 option list \<Rightarrow> chain_fragment \<Rightarrow> bool" where
  start: "fragment_reach point [] (fragment_start point)"
| forward: "fragment_reach b ps f \<Longrightarrow> is_fully_defined point
    \<Longrightarrow> fragment_roll_forward point prev f = (Inr point, f')
    \<Longrightarrow> fragment_reach b (ps @ [prev]) f'"
| rejected: "fragment_reach b ps f \<Longrightarrow> fragment_roll_forward point prev f = (Inl err, f')
    \<Longrightarrow> fragment_reach b ps f'"
| backward: "fragment_reach b ps f \<Longrightarrow> is_fully_defined point \<Longrightarrow> fragment_roll_back point f = (Handled, f')
    \<Longrightarrow> fragment_reach b (take (length (cf_pending f')) ps) f'"
| out_of_scope: "fragment_reach b ps f \<Longrightarrow> fragment_roll_back point f = (OutOfScope p, f')
    \<Longrightarrow> fragment_reach point [] f'"
| collected: "fragment_reach b ps f \<Longrightarrow> take_pending f = (out, f') \<Longrightarrow> fragment_reach (cf_tip f) [] f'"

inductive_cases fragment_reachE: "fragment_reach b ps f"

definition fragment_ok :: "chain_point \<Rightarrow> hash32 option list \<Rightarrow> chain_fragment \<Rightarrow> bool" where
  "fragment_ok b ps f \<longleftrightarrow>
     length ps = length (cf_pending f) \<and>
     linked (\<lambda>tip slot prev. check_extension tip slot prev = Inr ()) b (zip (cf_pending f) ps) \<and>
     cf_tip f = (if cf_pending f = [] then b else last (cf_pending f)) \<and>
     list_all is_fully_defined (cf_pending f)"

lemma position_Some: "position p xs = Some n \<Longrightarrow> n < length xs \<and> p (xs ! n)"
  by (induction xs arbitrary: n) (auto split: if_splits)

lemma linked_take: "linked acc tip ps \<Longrightarrow> linked acc tip (take n ps)"
proof (induction ps arbitrary: tip n)
  case (Cons x ps)
  then show ?case by (cases x; cases n) auto
qed simp

lemma cp_eq_defined: "cp_eq p q \<Longrightarrow> is_fully_defined q \<Longrightarrow> p = q"
  by (cases p; cases q) auto

lemma fragment_ok_forward:
  assumes "fragment_ok b ps f" and "is_fully_defined point" and "fragment_roll_forward point prev f = (Inr point, f')"
  shows "fragment_ok b (ps @ [prev]) f'"
proof -
  have ext: "check_extension (cf_tip f) (cp_slot point) prev = Inr ()"
    and f': "f' = f\<lparr>cf_tip := point, cf_pending := cf_pending f @ [point]\<rparr>"
    using assms(3) by (auto simp: fragment_roll_forward_def split: sum.splits)
  have "linked (\<lambda>tip slot prev. check_extension tip slot prev = Inr ()) b (zip (cf_pending f) ps @ [(point, prev)])"
    using assms(1) ext by (auto simp: consensus.linked_append fragment_ok_def last_zip)
  then show ?thesis using assms(1,2) f' by (simp add: fragment_ok_def)
qed

lemma fragment_ok_back:
  assumes "fragment_ok b ps f" and "is_fully_defined point" and "fragment_roll_back point f = (Handled, f')"
  shows "fragment_ok b (take (length (cf_pending f')) ps) f'"
proof -
  from assms(3) obtain pos where pos: "position (\<lambda>p. cp_eq p point) (cf_pending f) = Some pos"
      and f': "f' = f\<lparr>cf_pending := take (pos + 1) (cf_pending f), cf_tip := point\<rparr>"
    by (auto simp: fragment_roll_back_def split: option.splits)
  have n: "pos < length (cf_pending f)" and at: "cf_pending f ! pos = point"
    using position_Some [OF pos] cp_eq_defined assms(2) by auto
  have "zip (take (pos + 1) (cf_pending f)) (take (pos + 1) ps) = take (pos + 1) (zip (cf_pending f) ps)"
    by (simp add: take_zip)
  moreover have "last (take (pos + 1) (cf_pending f)) = point"
    using n at by (simp add: take_Suc_conv_app_nth)
  moreover have "list_all is_fully_defined (take (pos + 1) (cf_pending f))"
    using assms(1) by (auto simp: fragment_ok_def list_all_iff dest: in_set_takeD)
  moreover have "take (pos + 1) (cf_pending f) \<noteq> []" using n by auto
  ultimately show ?thesis
    using assms(1) n linked_take [of _ b "zip (cf_pending f) ps" "pos + 1"]
    by (simp add: fragment_ok_def f' min_def)
qed

lemma fragment_reach_ok: "fragment_reach b ps f \<Longrightarrow> fragment_ok b ps f"
proof (induction rule: fragment_reach.induct)
  case (start point)
  show ?case by (simp add: fragment_ok_def fragment_start_def)
next
  case (forward b ps f point prev f')
  show ?case by (rule fragment_ok_forward [OF forward.IH forward.hyps(2,3)])
next
  case (rejected b ps f point prev err f')
  then show ?case by (auto simp: fragment_roll_forward_def split: sum.splits)
next
  case (backward b ps f point f')
  show ?case by (rule fragment_ok_back [OF backward.IH backward.hyps(2,3)])
next
  case (out_of_scope b ps f point p f')
  then show ?case by (auto simp: fragment_roll_back_def fragment_ok_def split: option.splits)
next
  case (collected b ps f out f')
  then show ?case by (auto simp: take_pending_def fragment_ok_def)
qed

section \<open>Properties\<close>

text \<open>
  C26. Whatever headers and rollbacks the upstream peer sends, the points the pull stage has gathered
  form a chain on top of the point they start from: slots never go backward, every parent a header
  declared is the hash of the point before it, and the tip is the last of them.
\<close>

theorem fragment_stays_linked:
  assumes "fragment_reach b ps f"
  shows "sorted (map (unat \<circ> cp_slot) (b # cf_pending f)) \<and>
    (\<forall>i prev h. i < length (cf_pending f) \<and> ps ! i = Some prev \<and> cp_hash ((b # cf_pending f) ! i) = Some h \<longrightarrow> prev = h) \<and>
    cf_tip f = last (b # cf_pending f)"
proof -
  have ok: "fragment_ok b ps f" by (rule fragment_reach_ok [OF assms])
  let ?ps = "zip (cf_pending f) ps"
  have len: "length ps = length (cf_pending f)"
    and linked: "linked (\<lambda>tip slot prev. check_extension tip slot prev = Inr ()) b ?ps"
    using ok by (simp_all add: fragment_ok_def)
  have "sorted (map (unat \<circ> cp_slot) (b # cf_pending f))"
    using consensus.linked_sorted [OF linked] len by simp
  moreover have "prev = h" if "i < length (cf_pending f)" "ps ! i = Some prev"
      "cp_hash ((b # cf_pending f) ! i) = Some h" for i prev h
    using consensus.linked_parent [OF linked, of i prev h] that len by (cases i) simp_all
  ultimately show ?thesis using ok by (auto simp: fragment_ok_def)
qed

theorem fragment_stays_linked_witness:
  "\<exists>f. fragment_reach (Specific 10 1) [Some 1, Some 2] f \<and> cf_pending f = [Specific 11 2, Specific 12 3] \<and>
     sorted (map (unat \<circ> cp_slot) (Specific 10 1 # cf_pending f))"
proof -
  let ?f0 = "fragment_start (Specific 10 1)"
  let ?f1 = "\<lparr>cf_tip = Specific 11 2, cf_pending = [Specific 11 2]\<rparr>"
  let ?f2 = "\<lparr>cf_tip = Specific 12 3, cf_pending = [Specific 11 2, Specific 12 3]\<rparr>"
  have "fragment_roll_forward (Specific 11 2) (Some 1) ?f0 = (Inr (Specific 11 2), ?f1)"
    and "fragment_roll_forward (Specific 12 3) (Some 2) ?f1 = (Inr (Specific 12 3), ?f2)"
    by (simp_all add: fragment_roll_forward_def fragment_start_def check_extension_def check_continuity_def
        check_slot_increase_def)
  then have "fragment_reach (Specific 10 1) (([] @ [Some 1]) @ [Some 2]) ?f2"
    by (intro fragment_reach.forward [of _ _ ?f1 "Specific 12 3"] fragment_reach.forward [of _ _ ?f0 "Specific 11 2"]
        fragment_reach.start) simp_all
  then have reach: "fragment_reach (Specific 10 1) [Some 1, Some 2] ?f2" by simp
  from fragment_stays_linked [OF this] reach show ?thesis by (intro exI [of _ ?f2]) simp
qed

end
