(* ===== verification/Utxo_Set.thy ===== *)
theory Utxo_Set
  imports Memory_State Consensus
begin

text \<open>
  The UTxO set (\<^verbatim>\<open>crates/cardano/src/utxoset.rs\<close>): the delta of a block, its inverse, and the
  inputs a block needs. Blocks and outputs are decoded by a library: what the code reads of a decoded
  block is a \<open>block_view\<close>. A hash map is an association list with distinct keys whose order is
  the order of iteration.
\<close>

record tx_view =
  tv_hash :: tx_hash
  tv_produces :: "(u64 \<times> era_cbor) list"
  tv_consumes :: "(tx_hash \<times> u64) list"

record block_view =
  bv_slot :: block_slot
  bv_hash :: hash32
  bv_prev_hash :: "hash32 option"
  bv_txs :: "tx_view list"

definition txs_by_hash :: "block_view \<Rightarrow> (tx_hash \<times> tx_view) list" where
  "txs_by_hash block = fold (\<lambda>tx. AList.update (tv_hash tx) tx) (bv_txs block) []"

text \<open>\<^verbatim>\<open>TxoRef(hash, idx as u32)\<close>, for the outputs and for the inputs of a transaction.\<close>

definition produce_refs :: "tx_hash \<Rightarrow> tx_view \<Rightarrow> (txo_ref \<times> era_cbor) list" where
  "produce_refs tx_hash tx = map (\<lambda>(idx, body). ((tx_hash, ucast idx), body)) (tv_produces tx)"

definition consume_refs :: "tx_view \<Rightarrow> txo_ref list" where
  "consume_refs tx = map (\<lambda>(hash, idx). (hash, ucast idx)) (tv_consumes tx)"

definition insert_all :: "('k \<times> 'v) list \<Rightarrow> ('k \<times> 'v) list \<Rightarrow> ('k \<times> 'v) list" where
  "insert_all kvs m = fold (\<lambda>(k, v). AList.update k v) kvs m"

definition compute_block_dependencies ::
  "block_view \<Rightarrow> (txo_ref \<times> era_cbor) list \<Rightarrow> (txo_ref \<times> era_cbor) list \<times> txo_ref list" where
  "compute_block_dependencies block loaded =
     (let txs = txs_by_hash block;
          loaded = fold (\<lambda>(h, tx). insert_all (produce_refs h tx)) txs loaded;
          consumed = remdups (concat (map (\<lambda>(_, tx). consume_refs tx) txs))
      in (loaded, filter (\<lambda>x. map_of loaded x = None) consumed))"

section \<open>Deltas of a block\<close>

text \<open>The loop over the inputs of a transaction: a missing one ends the computation.\<close>

fun resolve_inputs :: "(txo_ref \<times> era_cbor) list \<Rightarrow> txo_ref list \<Rightarrow> (txo_ref \<times> era_cbor) list
    \<Rightarrow> broken_invariant + (txo_ref \<times> era_cbor) list" where
  "resolve_inputs loaded [] acc = Inr acc"
| "resolve_inputs loaded (r # rs) acc =
     (case map_of loaded r of
        None \<Rightarrow> Inl (MissingUtxo r)
      | Some body \<Rightarrow> resolve_inputs loaded rs (AList.update r body acc))"

fun apply_txs :: "(txo_ref \<times> era_cbor) list \<Rightarrow> (tx_hash \<times> tx_view) list \<Rightarrow> utxo_set_delta
    \<Rightarrow> broken_invariant + utxo_set_delta" where
  "apply_txs loaded [] delta = Inr delta"
| "apply_txs loaded ((h, tx) # txs) delta =
     (let delta = delta\<lparr>produced_utxo := insert_all (produce_refs h tx) (produced_utxo delta)\<rparr> in
      case resolve_inputs loaded (consume_refs tx) (consumed_utxo delta) of
        Inl err \<Rightarrow> Inl err
      | Inr consumed \<Rightarrow> apply_txs loaded txs (delta\<lparr>consumed_utxo := consumed\<rparr>))"

definition compute_apply_delta :: "block_view \<Rightarrow> (txo_ref \<times> era_cbor) list \<Rightarrow> broken_invariant + utxo_set_delta" where
  "compute_apply_delta block loaded = apply_txs loaded (txs_by_hash block) utxo_set_delta_default"

fun recover_txs :: "(txo_ref \<times> era_cbor) list \<Rightarrow> (tx_hash \<times> tx_view) list \<Rightarrow> utxo_set_delta
    \<Rightarrow> broken_invariant + utxo_set_delta" where
  "recover_txs context_map [] delta = Inr delta"
| "recover_txs context_map ((h, tx) # txs) delta =
     (case resolve_inputs context_map (consume_refs tx) (recovered_stxi delta) of
        Inl err \<Rightarrow> Inl err
      | Inr recovered \<Rightarrow> recover_txs context_map txs (delta\<lparr>recovered_stxi := recovered\<rparr>))"

definition compute_undo_delta :: "block_view \<Rightarrow> (txo_ref \<times> era_cbor) list \<Rightarrow> broken_invariant + utxo_set_delta" where
  "compute_undo_delta block context_map =
     (let txs = txs_by_hash block;
          delta = utxo_set_delta_default;
          delta = delta\<lparr>undone_utxo := fold (\<lambda>(h, tx). insert_all (produce_refs h tx)) txs (undone_utxo delta)\<rparr>
      in recover_txs context_map txs delta)"

section \<open>Both deltas from the same two tables\<close>

definition block_produced :: "block_view \<Rightarrow> (txo_ref \<times> era_cbor) list" where
  "block_produced block = fold (\<lambda>(h, tx). insert_all (produce_refs h tx)) (txs_by_hash block) []"

definition block_consumes :: "block_view \<Rightarrow> txo_ref list" where
  "block_consumes block = concat (map (\<lambda>(_, tx). consume_refs tx) (txs_by_hash block))"

lemma resolve_inputs_append:
  "resolve_inputs l (xs @ ys) acc = (case resolve_inputs l xs acc of Inl e \<Rightarrow> Inl e | Inr acc' \<Rightarrow> resolve_inputs l ys acc')"
  by (induction xs arbitrary: acc) (simp_all split: option.splits)

lemma apply_txs_tables:
  "apply_txs l txs delta =
     (case resolve_inputs l (concat (map (\<lambda>(_, tx). consume_refs tx) txs)) (consumed_utxo delta) of
        Inl e \<Rightarrow> Inl e
      | Inr c \<Rightarrow> Inr (delta\<lparr>produced_utxo := fold (\<lambda>(h, tx). insert_all (produce_refs h tx)) txs (produced_utxo delta),
                           consumed_utxo := c\<rparr>))"
proof (induction txs arbitrary: delta)
  case (Cons x txs)
  then show ?case by (cases x) (auto simp: resolve_inputs_append Let_def split: sum.splits)
qed simp

lemma recover_txs_tables:
  "recover_txs l txs delta =
     (case resolve_inputs l (concat (map (\<lambda>(_, tx). consume_refs tx) txs)) (recovered_stxi delta) of
        Inl e \<Rightarrow> Inl e
      | Inr c \<Rightarrow> Inr (delta\<lparr>recovered_stxi := c\<rparr>))"
proof (induction txs arbitrary: delta)
  case (Cons x txs)
  then show ?case by (cases x) (auto simp: resolve_inputs_append split: sum.splits)
qed simp

lemma compute_apply_delta_tables:
  "compute_apply_delta block l =
     (case resolve_inputs l (block_consumes block) [] of
        Inl e \<Rightarrow> Inl e
      | Inr c \<Rightarrow> Inr \<lparr>produced_utxo = block_produced block, consumed_utxo = c, recovered_stxi = [], undone_utxo = []\<rparr>)"
  by (simp add: compute_apply_delta_def apply_txs_tables block_consumes_def block_produced_def
      utxo_set_delta_default_def split: sum.splits)

lemma compute_undo_delta_tables:
  "compute_undo_delta block l =
     (case resolve_inputs l (block_consumes block) [] of
        Inl e \<Rightarrow> Inl e
      | Inr c \<Rightarrow> Inr \<lparr>produced_utxo = [], consumed_utxo = [], recovered_stxi = c, undone_utxo = block_produced block\<rparr>)"
  by (simp add: compute_undo_delta_def recover_txs_tables block_consumes_def block_produced_def
      utxo_set_delta_default_def Let_def split: sum.splits)

lemma resolve_inputs_Inr:
  assumes "resolve_inputs l rs acc = Inr c"
  shows "set rs \<subseteq> dom (map_of l)"
    and "map_of c r = (if r \<in> set rs then map_of l r else map_of acc r)"
    and "fst ` set c = set rs \<union> fst ` set acc"
  using assms by (induction rs arbitrary: acc) (auto simp: dom_update distinct_update split: option.splits)

lemma resolve_inputs_distinct:
  "resolve_inputs l rs acc = Inr c \<Longrightarrow> distinct (map fst acc) \<Longrightarrow> distinct (map fst c)"
  by (induction rs arbitrary: acc) (auto simp: distinct_update split: option.splits)

lemma resolve_inputs_total: "set rs \<subseteq> dom (map_of l) \<Longrightarrow> \<exists>c. resolve_inputs l rs acc = Inr c"
  by (induction rs arbitrary: acc) auto

lemma distinct_insert_all: "distinct (map fst m) \<Longrightarrow> distinct (map fst (insert_all kvs m))"
  by (simp add: insert_all_def distinct_fold_update)

lemma distinct_block_produced: "distinct (map fst (block_produced block))"
proof -
  have "distinct (map fst m) \<Longrightarrow> distinct (map fst (fold (\<lambda>(h, tx). insert_all (produce_refs h tx)) txs m))" for txs m
    by (induction txs arbitrary: m) (auto simp: distinct_insert_all)
  then show ?thesis by (simp add: block_produced_def)
qed

lemma map_of_rev_distinct: "distinct (map fst m) \<Longrightarrow> map_of (rev m) = map_of m"
  by (simp add: map_of_inject_set rev_map [symmetric])

section \<open>Applying and undoing a block\<close>

text \<open>
  What a block needs of the UTxO set it is applied to: its outputs are new, and the inputs it was
  computed with, those it does not produce itself, are in the set.
\<close>

definition extends_utxos :: "block_view \<Rightarrow> (txo_ref \<times> era_cbor) list \<Rightarrow> (txo_ref \<rightharpoonup> era_cbor) \<Rightarrow> bool" where
  "extends_utxos block loaded u \<longleftrightarrow>
     (\<forall>r \<in> fst ` set (block_produced block). u r = None) \<and>
     (\<forall>r \<in> set (block_consumes block). r \<notin> fst ` set (block_produced block) \<longrightarrow> u r = map_of loaded r)"

lemma utxo_apply_block:
  assumes "compute_apply_delta block loaded = Inr d"
  shows "utxo_apply d u r =
    (if r \<in> set (block_consumes block) then None
     else case map_of (block_produced block) r of Some b \<Rightarrow> Some b | None \<Rightarrow> u r)"
proof -
  obtain c where c: "resolve_inputs loaded (block_consumes block) [] = Inr c"
      and d: "d = \<lparr>produced_utxo = block_produced block, consumed_utxo = c, recovered_stxi = [], undone_utxo = []\<rparr>"
    using assms by (auto simp: compute_apply_delta_tables split: sum.splits)
  have "fst ` set c = set (block_consumes block)" using resolve_inputs_Inr(3) [OF c] by simp
  then show ?thesis
    by (simp add: d utxo_apply_def restrict_map_def map_of_rev_distinct [OF distinct_block_produced] map_add_def)
qed

lemma utxo_undo_block:
  assumes "compute_apply_delta block loaded = Inr d" and "extends_utxos block loaded u"
  obtains d' where "compute_undo_delta block loaded = Inr d'" and "utxo_apply d' (utxo_apply d u) = u"
proof -
  obtain c where c: "resolve_inputs loaded (block_consumes block) [] = Inr c"
    using assms(1) by (auto simp: compute_apply_delta_tables split: sum.splits)
  let ?d' = "\<lparr>produced_utxo = [], consumed_utxo = [], recovered_stxi = c, undone_utxo = block_produced block\<rparr>"
  have rev_c: "map_of (rev c) = map_of c"
    by (rule map_of_rev_distinct) (use resolve_inputs_distinct [OF c] in simp)
  have dom_c: "map_of c r = (if r \<in> set (block_consumes block) then map_of loaded r else None)" for r
    using resolve_inputs_Inr(2) [OF c] by simp
  have "utxo_apply ?d' (utxo_apply d u) r = u r" for r
  proof (cases "r \<in> fst ` set (block_produced block)")
    case True
    with assms(2) have "u r = None" unfolding extends_utxos_def by (elim conjE) (rule bspec)
    with True show ?thesis by (simp add: utxo_apply_def restrict_map_def)
  next
    case False
    then have "map_of (block_produced block) r = None" by (simp add: map_of_eq_None_iff)
    then show ?thesis
      using False assms(2) resolve_inputs_Inr(1) [OF c] utxo_apply_block [OF assms(1), of u r]
      by (auto simp: utxo_apply_def [of ?d'] restrict_map_def map_add_def rev_c dom_c extends_utxos_def split: option.splits)
  qed
  then show thesis by (intro that [of ?d']) (simp_all add: compute_undo_delta_tables c fun_eq_iff)
qed

section \<open>Properties\<close>

text \<open>
  C19. Undoing a block restores the UTxO set. When the outputs of a block are new and its inputs are
  the ones of the store (those it does not produce itself), the delta computed from the block and
  those inputs and the inverse delta computed from them again, committed one after the other, leave
  the store exactly as it was, whatever the block spends of its own outputs.
\<close>

theorem block_undo_restores_utxos:
  assumes "tables_ok t" and "compute_apply_delta block inputs = Inr d" and "extends_utxos block inputs (utxo_view t)"
  shows "\<exists>d'. compute_undo_delta block inputs = Inr d' \<and>
    commit (apply_utxoset d' []) (commit (apply_utxoset d []) t) = t"
proof -
  obtain d' where d': "compute_undo_delta block inputs = Inr d'" "utxo_apply d' (utxo_apply d (utxo_view t)) = utxo_view t"
    by (rule utxo_undo_block [OF assms(2,3)])
  have "commit (apply_utxoset d' []) (commit (apply_utxoset d []) t) = t"
    by (rule tables_eqI) (simp_all add: assms(1) commit_ok commit_apply_utxoset d'(2))
  with d'(1) show ?thesis by blast
qed

definition sample_block :: block_view where
  "sample_block = \<lparr>bv_slot = 7, bv_hash = 9, bv_prev_hash = None,
     bv_txs = [\<lparr>tv_hash = 1, tv_produces = [(0, (1, [1])), (1, (1, [2]))], tv_consumes = [(5, 0)]\<rparr>,
               \<lparr>tv_hash = 2, tv_produces = [(0, (1, [3]))], tv_consumes = [(1, 0)]\<rparr>]\<rparr>"

definition sample_inputs :: "(txo_ref \<times> era_cbor) list" where
  "sample_inputs = [((5, 0), (1, [9])), ((1, 0), (1, [1]))]"

definition sample_utxos :: "unit tables" where
  "sample_utxos = \<lparr>t_cursor = None, t_entities = [], t_utxos = [((5, 0), (1, [9]))]\<rparr>"

lemma sample_block_delta:
  "compute_apply_delta sample_block sample_inputs =
     Inr \<lparr>produced_utxo = [((1, 0), (1, [1])), ((1, 1), (1, [2])), ((2, 0), (1, [3]))],
          consumed_utxo = [((5, 0), (1, [9])), ((1, 0), (1, [1]))], recovered_stxi = [], undone_utxo = []\<rparr>"
  by (simp add: compute_apply_delta_tables block_produced_def block_consumes_def txs_by_hash_def sample_block_def
      sample_inputs_def produce_refs_def consume_refs_def insert_all_def)

lemma sample_block_extends: "extends_utxos sample_block sample_inputs (utxo_view sample_utxos)"
  by (simp add: extends_utxos_def block_produced_def block_consumes_def txs_by_hash_def sample_block_def
      sample_inputs_def produce_refs_def consume_refs_def insert_all_def utxo_view_def sample_utxos_def tbl_get_def)

theorem block_undo_restores_utxos_witness:
  "\<exists>d d'. compute_apply_delta sample_block sample_inputs = Inr d \<and> compute_undo_delta sample_block sample_inputs = Inr d' \<and>
     commit (apply_utxoset d' []) (commit (apply_utxoset d []) sample_utxos) = sample_utxos"
  using block_undo_restores_utxos [OF _ sample_block_delta sample_block_extends] sample_block_delta
  by (auto simp: tables_ok_def tbl_ok_def sample_utxos_def)

end
