(* ===== verification/Delta_Views.thy ===== *)
theory Delta_Views
  imports Entity_Delta
begin

text \<open>
  The chunk machinery of \<^verbatim>\<open>crates/core/src/state.rs\<close> against its specification: what a
  reader sees of the entities is a map, applying a chunk runs its deltas one after the other on that
  map, and the cache, the lazy loading and the saving do not show. Undoing a chunk from what the
  write-ahead log stored then inverts applying it, and applying it again repeats it.
\<close>

section \<open>Deltas on the map of entities\<close>

fun run_view :: "('d \<Rightarrow> ns_key) \<Rightarrow> ('d, 'e) apply_fn \<Rightarrow> 'e entity_table \<Rightarrow> 'd list
    \<Rightarrow> ('e entity_table \<times> 'd list) option" where
  "run_view key apply_d V [] = Some (V, [])"
| "run_view key apply_d V (d # ds) = do {
     (d', e) \<leftarrow> apply_d d (V (key d));
     (V', ds') \<leftarrow> run_view key apply_d (V(key d := e)) ds;
     Some (V', d' # ds')
   }"

fun undo_view :: "('d \<Rightarrow> ns_key) \<Rightarrow> ('d, 'e) undo_fn \<Rightarrow> 'e entity_table \<Rightarrow> 'd list \<Rightarrow> 'e entity_table option" where
  "undo_view key undo_d V [] = Some V"
| "undo_view key undo_d V (d # ds) = do {
     e \<leftarrow> undo_d d (V (key d));
     undo_view key undo_d (V(key d := e)) ds
   }"

lemma undo_view_append:
  "undo_view key undo_d V (xs @ ys) = Option.bind (undo_view key undo_d V xs) (\<lambda>V'. undo_view key undo_d V' ys)"
  by (induction xs arbitrary: V) (auto simp: Option.bind_assoc)

lemma run_view_append:
  "run_view key apply_d V (xs @ ys) = do {
     (V', xs') \<leftarrow> run_view key apply_d V xs;
     (V'', ys') \<leftarrow> run_view key apply_d V' ys;
     Some (V'', xs' @ ys')
   }"
proof (induction xs arbitrary: V)
  case Nil
  show ?case by (cases "run_view key apply_d V ys") auto
next
  case (Cons d ds)
  then show ?case by (cases "apply_d d (V (key d))") (auto simp: Option.bind_assoc split_def fun_upd_def)
qed

section \<open>The cache refines the map\<close>

lemma apply_deltas_view:
  assumes "key ` set ds \<subseteq> dom (map_of m)"
  shows "map_option (\<lambda>(m', ds'). (overlay m' store, ds')) (apply_deltas key apply_d m ds)
       = run_view key apply_d (overlay m store) ds"
  using assms
proof (induction ds arbitrary: m)
  case (Cons d ds)
  then obtain e where e: "map_of m (key d) = Some e" by auto
  have sub: "key ` set ds \<subseteq> dom (map_of (AList.update (key d) x m))" for x
    using Cons.prems by (auto simp: dom_map_of_AList_update simp del: map_of_AList_update)
  show ?case
  proof (cases "apply_d d e")
    case None
    then show ?thesis using overlay_tracked [OF e, of store] by (simp add: e)
  next
    case (Some r)
    obtain d' e' where r: "r = (d', e')" by (cases r)
    show ?thesis
      using Cons.IH [OF sub, of e', symmetric] overlay_tracked [OF e, of store] Some
      by (cases "apply_deltas key apply_d (AList.update (key d) e' m) ds") (auto simp: e r fun_upd_def)
  qed
qed simp

lemma undo_deltas_view:
  assumes "key ` set ds \<subseteq> dom (map_of m)"
  shows "map_option (\<lambda>m'. overlay m' store) (undo_deltas key undo_d m ds) = undo_view key undo_d (overlay m store) ds"
  using assms
proof (induction ds arbitrary: m)
  case (Cons d ds)
  then obtain e where e: "map_of m (key d) = Some e" by auto
  have sub: "key ` set ds \<subseteq> dom (map_of (AList.update (key d) x m))" for x
    using Cons.prems by (auto simp: dom_map_of_AList_update simp del: map_of_AList_update)
  show ?case
    using Cons.IH [OF sub] overlay_tracked [OF e, of store]
    by (auto simp: e map_option_bind fun_upd_def split: bind_splits)
qed simp

text \<open>Both chunk operations, with the loading of what the cache misses.\<close>

lemma apply_chunk_view:
  assumes "cache_ok m"
  obtains
    (panic) "apply_delta_chunk key apply_d m (table_reader store) ds = None"
      "run_view key apply_d (overlay m store) ds = None"
  | (finished) m' ds' where "apply_delta_chunk key apply_d m (table_reader store) ds = Some (Inr (m', ds'))"
      "run_view key apply_d (overlay m store) ds = Some (overlay m' store, ds')" "cache_ok m'"
proof -
  obtain m0 where m0: "load_missing_entities key m (table_reader store) ds = Inr m0"
      "overlay m0 store = overlay m store" "cache_ok m0" "dom (map_of m0) = dom (map_of m) \<union> key ` set ds"
    using load_missing_entities_table [OF assms] by blast
  have run: "apply_delta_chunk key apply_d m (table_reader store) ds = map_option Inr (apply_deltas key apply_d m0 ds)"
    by (simp add: apply_delta_chunk_def m0(1))
  have view: "run_view key apply_d (overlay m store) ds
      = map_option (\<lambda>(m', ds'). (overlay m' store, ds')) (apply_deltas key apply_d m0 ds)"
    using apply_deltas_view [of key ds m0 store] m0(2,4) by simp
  show thesis
  proof (cases "apply_deltas key apply_d m0 ds")
    case None
    with run view show thesis by (intro panic) simp_all
  next
    case (Some r)
    then obtain m' ds' where r: "apply_deltas key apply_d m0 ds = Some (m', ds')" by (cases r) auto
    with run view apply_deltas_cache_ok [OF r m0(3)] show thesis by (intro finished [of m' ds']) simp_all
  qed
qed

lemma undo_chunk_view:
  assumes "cache_ok m"
  obtains
    (panic) "undo_delta_chunk key undo_d m (table_reader store) ds = None"
      "undo_view key undo_d (overlay m store) (rev ds) = None"
  | (finished) m' where "undo_delta_chunk key undo_d m (table_reader store) ds = Some (Inr m')"
      "undo_view key undo_d (overlay m store) (rev ds) = Some (overlay m' store)" "cache_ok m'"
proof -
  obtain m0 where m0: "load_missing_entities key m (table_reader store) ds = Inr m0"
      "overlay m0 store = overlay m store" "cache_ok m0" "dom (map_of m0) = dom (map_of m) \<union> key ` set ds"
    using load_missing_entities_table [OF assms] by blast
  have run: "undo_delta_chunk key undo_d m (table_reader store) ds = map_option Inr (undo_deltas key undo_d m0 (rev ds))"
    by (simp add: undo_delta_chunk_def m0(1))
  have view: "undo_view key undo_d (overlay m store) (rev ds)
      = map_option (\<lambda>m'. overlay m' store) (undo_deltas key undo_d m0 (rev ds))"
    using undo_deltas_view [of key "rev ds" m0 store] m0(2,4) by simp
  show thesis
  proof (cases "undo_deltas key undo_d m0 (rev ds)")
    case None
    with run view show thesis by (intro panic) simp_all
  next
    case (Some m')
    with run view undo_deltas_cache_ok [OF Some m0(3)] show thesis by (intro finished [of m']) simp_all
  qed
qed

lemma save_overlay:
  assumes "cache_ok m" and "typed_table ns (overlay m store)"
  shows "save_entities ns m store = overlay m store"
proof (rule save_entities_overlay [OF assms(1)])
  fix k e assume "(k, e) \<in> set m"
  then have "map_of m k = Some e" using assms(1) by (simp add: cache_ok_def)
  with typed_tableD [OF assms(2), of k] show "typed ns (fst k) e" by (simp add: overlay_tracked)
qed

section \<open>The contract of a family of deltas\<close>

text \<open>
  The contract as the chunk machinery needs it: entities live in namespaces, a delta keeps the
  type of the entity at its key, and what the write-ahead log gives back for an applied delta
  (\<open>stored\<close>) undoes like the delta itself.
\<close>

locale delta_system =
  fixes key :: "'d \<Rightarrow> ns_key"
    and apply_d :: "('d, 'e) apply_fn"
    and undo_d :: "('d, 'e) undo_fn"
    and fresh :: "'d \<Rightarrow> bool"
    and ok :: "'d \<Rightarrow> 'e option \<Rightarrow> bool"
    and ns_of :: "'e \<Rightarrow> namespace"
    and stored :: "'d \<Rightarrow> 'd"
  assumes ds_key: "apply_d d e = Some (d', e') \<Longrightarrow> key d' = key d"
    and ds_typed: "typed ns_of (fst (key d)) e \<Longrightarrow> apply_d d e = Some (d', e')
          \<Longrightarrow> typed ns_of (fst (key d)) e'"
    and ds_undo: "fresh d \<Longrightarrow> ok d e \<Longrightarrow> typed ns_of (fst (key d)) e
          \<Longrightarrow> apply_d d e = Some (d', e') \<Longrightarrow> undo_d (stored d') e' = Some e"
    and ds_stored_key: "key (stored d) = key d"

text \<open>The preconditions of a chunk, along its run.\<close>

fun run_ok :: "('d \<Rightarrow> ns_key) \<Rightarrow> ('d, 'e) apply_fn \<Rightarrow> ('d \<Rightarrow> bool) \<Rightarrow> ('d \<Rightarrow> 'e option \<Rightarrow> bool)
    \<Rightarrow> 'e entity_table \<Rightarrow> 'd list \<Rightarrow> bool" where
  "run_ok key apply_d fresh ok view [] = True"
| "run_ok key apply_d fresh ok view (d # ds) =
     (fresh d \<and> ok d (view (key d)) \<and>
      (case apply_d d (view (key d)) of
         None \<Rightarrow> True
       | Some (_, e') \<Rightarrow> run_ok key apply_d fresh ok (view(key d := e')) ds))"

context delta_system
begin

lemma run_view_ConsE:
  assumes "run_view key apply_d V (d # ds) = Some (V', ds')"
  obtains d' e ds1 where "apply_d d (V (key d)) = Some (d', e)"
    and "run_view key apply_d (V(key d := e)) ds = Some (V', ds1)" and "ds' = d' # ds1"
    and "key (stored d') = key d"
  using assms by (auto simp: panic_simps ds_stored_key dest: ds_key)

lemma typed_run_view:
  assumes "run_view key apply_d V ds = Some (V', ds')" and "typed_table ns_of V"
  shows "typed_table ns_of V'"
  using assms
proof (induction ds arbitrary: V ds')
  case (Cons d ds)
  then obtain d' e ds1 where "apply_d d (V (key d)) = Some (d', e)"
      and rest: "run_view key apply_d (V(key d := e)) ds = Some (V', ds1)"
    by (blast elim: run_view_ConsE)
  then have "typed_table ns_of (V(key d := e))"
    using ds_typed typed_tableD [OF Cons.prems(2)] by (intro typed_table_upd [OF Cons.prems(2)]) blast
  with rest show ?case by (rule Cons.IH)
qed simp

lemma run_view_keys: "run_view key apply_d V ds = Some (V', ds') \<Longrightarrow> map key ds' = map key ds"
  by (induction ds arbitrary: V ds') (auto simp: panic_simps dest: ds_key)

text \<open>Undoing what was run, in reverse and from what the log stored, gives the map back.\<close>

lemma undo_run_view:
  assumes "run_view key apply_d V ds = Some (V', ds')" and "run_ok key apply_d fresh ok V ds"
    and "typed_table ns_of V"
  shows "undo_view key undo_d V' (rev (map stored ds')) = Some V"
  using assms
proof (induction ds arbitrary: V ds')
  case (Cons d ds)
  from Cons.prems(1) obtain d' e ds1 where d': "apply_d d (V (key d)) = Some (d', e)"
      and rest: "run_view key apply_d (V(key d := e)) ds = Some (V', ds1)" and ds': "ds' = d' # ds1"
      and kd: "key (stored d') = key d"
    by (rule run_view_ConsE)
  have ok: "fresh d" "ok d (V (key d))" "run_ok key apply_d fresh ok (V(key d := e)) ds"
    using Cons.prems(2) d' by simp_all
  note t = typed_tableD [OF Cons.prems(3), of "key d"]
  have "undo_view key undo_d V' (rev (map stored ds1)) = Some (V(key d := e))"
    by (rule Cons.IH [OF rest ok(3) typed_table_upd [OF Cons.prems(3) ds_typed [OF t d']]])
  moreover have "undo_d (stored d') e = Some (V (key d))" by (rule ds_undo [OF ok(1,2) t d'])
  ultimately show ?case by (simp add: ds' undo_view_append kd)
qed simp

text \<open>A chunk keeps the store typed and its deltas their keys; every entity is saved under its key.\<close>

lemma chunk_keeps_types:
  assumes "typed_table ns_of store"
    and run: "apply_delta_chunk key apply_d [] (table_reader store) ds = Some (Inr (m, ds'))"
  shows "typed_table ns_of (save_entities ns_of m store) \<and> save_entities ns_of m store = overlay m store \<and> map key ds' = map key ds"
proof -
  have view: "run_view key apply_d store ds = Some (overlay m store, ds')" and ok: "cache_ok m"
    using run by (auto intro: apply_chunk_view [of "[]" key apply_d store ds])
  note typed = typed_run_view [OF view assms(1)]
  from typed run_view_keys [OF view] show ?thesis by (simp add: save_overlay [OF ok typed])
qed

text \<open>The round trip through a store: apply and save, undo what the log stored and save.\<close>

lemma chunk_undo_restores:
  assumes "typed_table ns_of store" and "run_ok key apply_d fresh ok store ds"
    and run: "apply_delta_chunk key apply_d [] (table_reader store) ds = Some (Inr (m, ds'))"
  shows "\<exists>m'. undo_delta_chunk key undo_d [] (table_reader (save_entities ns_of m store)) (map stored ds') = Some (Inr m')
    \<and> save_entities ns_of m' (save_entities ns_of m store) = store"
proof -
  have view: "run_view key apply_d store ds = Some (overlay m store, ds')" and ok: "cache_ok m"
    using run by (auto intro: apply_chunk_view [of "[]" key apply_d store ds])
  have saved: "save_entities ns_of m store = overlay m store"
    by (rule save_overlay [OF ok typed_run_view [OF view assms(1)]])
  have undo: "undo_view key undo_d (overlay m store) (rev (map stored ds')) = Some store"
    by (rule undo_run_view [OF view assms(2,1)])
  have "\<exists>m'. undo_delta_chunk key undo_d [] (table_reader (overlay m store)) (map stored ds') = Some (Inr m')
    \<and> save_entities ns_of m' (overlay m store) = store"
  proof (rule undo_chunk_view [of "[]" key undo_d "overlay m store" "map stored ds'"])
    fix m' assume "undo_delta_chunk key undo_d [] (table_reader (overlay m store)) (map stored ds') = Some (Inr m')"
      and "undo_view key undo_d (overlay [] (overlay m store)) (rev (map stored ds')) = Some (overlay m' (overlay m store))"
      and "cache_ok m'"
    moreover from this(2) undo have "overlay m' (overlay m store) = store" by simp
    moreover from this assms(1) calculation(3) have "save_entities ns_of m' (overlay m store) = store"
      by (simp add: save_overlay)
    ultimately show ?thesis by blast
  qed (use undo in simp_all)
  then show ?thesis by (simp only: saved)
qed

end

end
