(* ===== verification/Wal.thy ===== *)
theory Wal
  imports Chain_Point Ordered_Table
begin

text \<open>
  The write-ahead log: the redb store (\<^verbatim>\<open>crates/redb3/src/wal/mod.rs\<close>) and the provided
  methods of its trait (\<^verbatim>\<open>crates/core/src/wal.rs\<close>). The log is a table from the 40 bytes of
  a point to a log value; \<open>stored\<close>, an argument, is the round trip of a delta through the codec.
  The errors of the database are those of its storage and are not part of the model.
\<close>

section \<open>The log\<close>

record 'd log_value =
  lv_block :: bytes
  lv_delta :: "'d list"
  lv_inputs :: "(txo_ref \<times> era_cbor) list"

definition log_value_origin :: "'d log_value" where
  "log_value_origin = \<lparr>lv_block = [], lv_delta = [], lv_inputs = []\<rparr>"

record 'd wal =
  wal_data :: "(bytes, 'd log_value) table"
  wal_version :: "u32 option"

type_synonym 'd log_entry = "chain_point \<times> 'd log_value"

definition current_wal_version :: u32 where
  "current_wal_version = 1"

datatype wal_error =
    WalNotEmpty
  | PointNotFound chain_point
  | SlotNotFound block_slot
  | IncompatibleVersion u32 u32
  | WalInternal string

section \<open>Keys\<close>

definition min_bound :: "block_slot \<Rightarrow> bytes" where
  "min_bound slot = word_bytes slot @ replicate 32 0"

definition max_bound :: "block_slot \<Rightarrow> bytes" where
  "max_bound slot = word_bytes slot @ replicate 32 255"

datatype 'a bound = Included 'a | Excluded 'a | Unbounded

fun slot_range_start :: "block_slot bound \<Rightarrow> bytes bound" where
  "slot_range_start (Included x) = Included (min_bound x)"
| "slot_range_start (Excluded x) = Excluded (max_bound x)"
| "slot_range_start Unbounded = Unbounded"

fun slot_range_end :: "block_slot bound \<Rightarrow> bytes bound" where
  "slot_range_end (Included x) = Included (max_bound x)"
| "slot_range_end (Excluded x) = Excluded (min_bound x)"
| "slot_range_end Unbounded = Unbounded"

fun above :: "'a::linorder bound \<Rightarrow> 'a \<Rightarrow> bool" where
  "above (Included x) k = (x \<le> k)"
| "above (Excluded x) k = (x < k)"
| "above Unbounded k = True"

fun below :: "'a::linorder bound \<Rightarrow> 'a \<Rightarrow> bool" where
  "below (Included x) k = (k \<le> x)"
| "below (Excluded x) k = (k < x)"
| "below Unbounded k = True"

section \<open>Operations of the store\<close>

definition data_table_is_empty :: "'d wal \<Rightarrow> bool" where
  "data_table_is_empty w = (wal_data w = [])"

definition stamp_version :: "u32 \<Rightarrow> 'd wal \<Rightarrow> 'd wal" where
  "stamp_version v w = w\<lparr>wal_version := Some v\<rparr>"

definition wipe_and_stamp :: "u32 \<Rightarrow> 'd wal \<Rightarrow> 'd wal" where
  "wipe_and_stamp v w = w\<lparr>wal_data := [], wal_version := Some v\<rparr>"

definition ensure_version :: "'d wal \<Rightarrow> wal_error + 'd wal" where
  "ensure_version w =
     (case wal_version w of
        Some v \<Rightarrow>
          if v = current_wal_version then Inr w
          else if current_wal_version < v then Inl (IncompatibleVersion v current_wal_version)
          else if data_table_is_empty w then Inr (stamp_version current_wal_version w)
          else Inr (wipe_and_stamp current_wal_version w)
      | None \<Rightarrow>
          if data_table_is_empty w then Inr (stamp_version current_wal_version w)
          else Inr (wipe_and_stamp current_wal_version w))"

definition iter_logs :: "'d wal \<Rightarrow> chain_point option \<Rightarrow> chain_point option \<Rightarrow> 'd log_entry list" where
  "iter_logs w start stop =
     map (\<lambda>(k, v). (from_bytes k, v))
       (filter (\<lambda>(k, _).
            (case start of None \<Rightarrow> True | Some p \<Rightarrow> into_bytes p \<le> k) \<and>
            (case stop of None \<Rightarrow> True | Some p \<Rightarrow> k \<le> into_bytes p))
         (wal_data w))"

definition read_entry :: "'d wal \<Rightarrow> chain_point \<Rightarrow> 'd log_value option" where
  "read_entry w p = tbl_get (wal_data w) (into_bytes p)"

definition logged :: "('d \<Rightarrow> 'd) \<Rightarrow> 'd log_value \<Rightarrow> 'd log_value" where
  "logged stored log = log\<lparr>lv_delta := map stored (lv_delta log)\<rparr>"

definition append_entries :: "('d \<Rightarrow> 'd) \<Rightarrow> 'd log_entry list \<Rightarrow> 'd wal \<Rightarrow> 'd wal" where
  "append_entries stored logs w =
     w\<lparr>wal_data := fold (\<lambda>(k, v). tbl_insert k v)
         (map (\<lambda>(p, log). (into_bytes p, logged stored log)) logs) (wal_data w)\<rparr>"

definition remove_entries :: "chain_point \<Rightarrow> 'd wal \<Rightarrow> 'd wal" where
  "remove_entries after w =
     w\<lparr>wal_data := tbl_retain (\<lambda>k. \<not> (into_bytes after \<le> k \<and> into_bytes after < k)) (wal_data w)\<rparr>"

definition remove_before :: "block_slot \<Rightarrow> 'd wal \<Rightarrow> 'd wal" where
  "remove_before slot w = w\<lparr>wal_data := tbl_retain (\<lambda>k. \<not> k < min_bound slot) (wal_data w)\<rparr>"

definition reset_to :: "('d \<Rightarrow> 'd) \<Rightarrow> chain_point \<Rightarrow> 'd wal \<Rightarrow> 'd wal" where
  "reset_to stored p w = append_entries stored [(p, log_value_origin)] (remove_entries Origin w)"

definition truncate_front :: "chain_point \<Rightarrow> 'd wal \<Rightarrow> 'd wal" where
  "truncate_front after w = remove_entries after w"

definition iter_all :: "'d wal \<Rightarrow> 'd log_entry list" where
  "iter_all w = iter_logs w None None"

definition find_start :: "'d wal \<Rightarrow> 'd log_entry option" where
  "find_start w = (case iter_all w of [] \<Rightarrow> None | e # _ \<Rightarrow> Some e)"

definition find_tip :: "'d wal \<Rightarrow> 'd log_entry option" where
  "find_tip w = (case rev (iter_all w) of [] \<Rightarrow> None | e # _ \<Rightarrow> Some e)"

definition wal_is_empty :: "'d wal \<Rightarrow> bool" where
  "wal_is_empty w = (find_tip w = None)"

definition prune_history :: "build \<Rightarrow> u64 \<Rightarrow> u64 option \<Rightarrow> 'd wal \<Rightarrow> (bool \<times> 'd wal) option" where
  "prune_history b max_slots max_prune w =
     (case find_start w of
        None \<Rightarrow> Some (True, w)
      | Some (start, _) \<Rightarrow>
        (case find_tip w of
           None \<Rightarrow> Some (True, w)
         | Some (last_point, _) \<Rightarrow>
             let start_slot = cp_slot start;
                 last_slot = cp_slot last_point;
                 delta = saturating_sub last_slot start_slot;
                 excess = saturating_sub delta max_slots
             in if excess = 0 then Some (True, w)
                else
                  let (finished, n) = (case max_prune of Some m \<Rightarrow> (excess \<le> m, min excess m) | None \<Rightarrow> (True, excess))
                  in do {
                    prune_before \<leftarrow> raw_add b start_slot n;
                    Some (finished, remove_before prune_before w)
                  }))"

definition abs_diff :: "u64 \<Rightarrow> u64 \<Rightarrow> u64" where
  "abs_diff x y = (if x < y then y - x else x - y)"

text \<open>\<^verbatim>\<open>min_by_key\<close> takes the first of several minima.\<close>

fun min_by_key :: "('a \<Rightarrow> 'b::linorder) \<Rightarrow> 'a list \<Rightarrow> 'a option" where
  "min_by_key f [] = None"
| "min_by_key f (x # xs) =
     (case min_by_key f xs of None \<Rightarrow> Some x | Some y \<Rightarrow> if f y < f x then Some y else Some x)"

definition approximate_slot ::
  "'d wal \<Rightarrow> block_slot \<Rightarrow> block_slot bound \<Rightarrow> block_slot bound \<Rightarrow> chain_point option" where
  "approximate_slot w target lo hi =
     (let points = map (from_bytes \<circ> fst)
            (filter (\<lambda>(k, _). above (slot_range_start lo) k \<and> below (slot_range_end hi) k) (wal_data w));
          deltas = map (\<lambda>p. (abs_diff target (cp_slot p), p)) points
      in map_option snd (min_by_key fst deltas))"

fun first_some :: "('a \<Rightarrow> 'b option) \<Rightarrow> 'a list \<Rightarrow> 'b option" where
  "first_some f [] = None"
| "first_some f (x # xs) = (case f x of Some y \<Rightarrow> Some y | None \<Rightarrow> first_some f xs)"

definition approximate_slot_with_retry ::
  "'d wal \<Rightarrow> block_slot \<Rightarrow> (nat \<Rightarrow> block_slot bound \<times> block_slot bound) \<Rightarrow> chain_point option" where
  "approximate_slot_with_retry w target search_range =
     first_some (\<lambda>i. approximate_slot w target (fst (search_range i)) (snd (search_range i))) [1..<10]"

definition locate_point :: "'d wal \<Rightarrow> block_slot \<Rightarrow> chain_point option" where
  "locate_point w around =
     approximate_slot_with_retry w around (\<lambda>retry.
       let delta = 20 * word_of_nat retry
       in (Included (saturating_sub around delta), Included (saturating_add around delta)))"

section \<open>Provided methods of the trait\<close>

definition contains_point :: "'d wal \<Rightarrow> chain_point \<Rightarrow> bool" where
  "contains_point w p = (read_entry w p \<noteq> None)"

definition assert_point :: "'d wal \<Rightarrow> chain_point \<Rightarrow> wal_error + unit" where
  "assert_point w p = (if contains_point w p then Inr () else Inl (PointNotFound p))"

definition read_sparse :: "'d wal \<Rightarrow> chain_point list \<Rightarrow> 'd log_value option list" where
  "read_sparse w points = map (read_entry w) points"

text \<open>
  The crawl of \<^verbatim>\<open>intersect_candidates\<close> over the points from the tip down. The power of two
  it skips by stays below the length of the log, so it does not overflow.
\<close>

function crawl :: "nat \<Rightarrow> chain_point list \<Rightarrow> chain_point list \<Rightarrow> chain_point list" where
  "crawl max_items out [] = out"
| "crawl max_items out (p # ps) =
     (if \<not> is_fully_defined p then crawl max_items out ps
      else
        let out = out @ [p]
        in if max_items \<le> length out then out
           else crawl max_items out (drop (2 ^ length out - 1) ps))"
  by pat_completeness auto

termination
  by (relation "measure (\<lambda>(_, _, ps). length ps)") auto

definition intersect_candidates :: "'d wal \<Rightarrow> nat \<Rightarrow> chain_point list" where
  "intersect_candidates w max_items = crawl max_items [] (map fst (rev (iter_all w)))"

definition find_intersect :: "'d wal \<Rightarrow> chain_point list \<Rightarrow> 'd log_entry option" where
  "find_intersect w intersect = first_some (\<lambda>p. map_option (\<lambda>v. (p, v)) (read_entry w p)) intersect"

section \<open>Well-formed logs\<close>

text \<open>The table is ordered and its keys are bytes of points.\<close>

definition wal_key :: "bytes \<Rightarrow> bool" where
  "wal_key k \<longleftrightarrow> k = into_bytes (from_bytes k)"

definition wal_ok :: "'d wal \<Rightarrow> bool" where
  "wal_ok w \<longleftrightarrow> tbl_ok (wal_data w) \<and> (\<forall>(k, _) \<in> set (wal_data w). wal_key k)"

lemma into_from_into: "into_bytes (from_bytes (into_bytes p)) = into_bytes p"
  by (simp add: into_bytes_alt [of p] from_bytes_word_bytes)
    (auto simp: into_bytes_alt split: option.splits)

lemma wal_key_into_bytes [simp]: "wal_key (into_bytes p)"
  by (simp add: wal_key_def into_from_into)

lemma wal_ok_key: "wal_ok w \<Longrightarrow> (k, v) \<in> set (wal_data w) \<Longrightarrow> wal_key k"
  by (auto simp: wal_ok_def)

lemma wal_ok_append:
  assumes "wal_ok w"
  shows "wal_ok (append_entries stored logs w)"
proof -
  let ?kvs = "map (\<lambda>(p, log). (into_bytes p, logged stored log)) logs"
  have keys: "fst ` set (fold (\<lambda>(k, v). tbl_insert k v) kvs t) = fst ` set kvs \<union> fst ` set t"
    for kvs :: "(bytes \<times> 'a log_value) list" and t
    by (induction kvs arbitrary: t) (simp_all add: case_prod_unfold tbl_insert_keys)
  have "wal_key k" if "k \<in> fst ` set (fold (\<lambda>(k, v). tbl_insert k v) ?kvs (wal_data w))" for k
    using that assms unfolding keys by (auto simp: wal_ok_def)
  moreover have "tbl_ok (fold (\<lambda>(k, v). tbl_insert k v) ?kvs (wal_data w))"
    using assms by (intro tbl.wf_fold_ins) (simp add: wal_ok_def)
  ultimately show ?thesis unfolding wal_ok_def append_entries_def by force
qed

lemma wal_ok_retain: "wal_ok w \<Longrightarrow> wal_ok (w\<lparr>wal_data := tbl_retain p (wal_data w)\<rparr>)"
  by (auto simp: wal_ok_def tbl_ok_retain) (auto simp: tbl_retain_def)

lemma wal_ok_remove [simp]: "wal_ok w \<Longrightarrow> wal_ok (remove_entries p w)" "wal_ok w \<Longrightarrow> wal_ok (remove_before s w)"
  by (simp_all add: remove_entries_def remove_before_def wal_ok_retain)

lemma wal_ok_reset_to: "wal_ok w \<Longrightarrow> wal_ok (reset_to stored p w)"
  by (simp add: reset_to_def wal_ok_append)

section \<open>Keys order by slot\<close>

lemma word_bytes_max: "word_bytes (- 1 :: hash32) = replicate 32 255"
proof -
  have "be_value (replicate n 255) + 1 = 256 ^ n" for n
    by (induction n) (simp_all add: be_value_Cons)
  from this [of 32] have "be_value (replicate 32 255) = unat (- 1 :: hash32)"
    by (simp add: unsigned_minus_1_eq_mask mask_eq_exp_minus_1)
  then show ?thesis
    by (simp add: be_value_eq_iff be_value_word_bytes)
qed

lemma bounds_into_bytes:
  "min_bound s = into_bytes (Slot s)"
  "max_bound s = into_bytes (Specific s (- 1))"
  by (simp_all add: min_bound_def max_bound_def into_bytes_def word_bytes_max)

definition key_slot :: "bytes \<Rightarrow> block_slot" where
  "key_slot k = cp_slot (from_bytes k)"

lemma below_min_bound: "wal_key k \<Longrightarrow> k < min_bound s \<longleftrightarrow> key_slot k < s"
  unfolding wal_key_def bounds_into_bytes key_slot_def
  by (erule ssubst) (simp add: into_bytes_less_iff into_from_into)

lemma above_min_bound: "wal_key k \<Longrightarrow> min_bound s \<le> k \<longleftrightarrow> s \<le> key_slot k"
  using below_min_bound [of k s] by (metis linorder_not_le)

lemma below_max_bound: "wal_key k \<Longrightarrow> k \<le> max_bound s \<longleftrightarrow> key_slot k \<le> s"
proof -
  assume k: "wal_key k"
  have "max_bound s < k \<longleftrightarrow> s < key_slot k"
    unfolding bounds_into_bytes key_slot_def
    using k [unfolded wal_key_def] into_bytes_less_iff [of "Specific s (- 1)" "from_bytes k"]
    by (auto simp: word_order.extremum_strict)
  then show ?thesis by (metis linorder_not_le)
qed

lemma key_slot_mono: "wal_key k \<Longrightarrow> wal_key k' \<Longrightarrow> k \<le> k' \<Longrightarrow> key_slot k \<le> key_slot k'"
  unfolding wal_key_def key_slot_def by (metis into_bytes_slot_mono)

lemma wal_slots_sorted:
  assumes "wal_ok w"
  shows "sorted (map (key_slot \<circ> fst) (wal_data w))"
proof -
  have "sorted_wrt (\<lambda>x y. key_slot (fst x) \<le> key_slot (fst y)) (wal_data w)"
    using assms unfolding wal_ok_def tbl_ok_def sorted_wrt_map
    by (auto intro!: key_slot_mono elim!: sorted_wrt_mono_rel [rotated])
  then show ?thesis by (simp add: sorted_wrt_map)
qed

lemma iter_all_data: "iter_all w = map (\<lambda>(k, v). (from_bytes k, v)) (wal_data w)"
  by (simp add: iter_all_def iter_logs_def case_prod_unfold)

lemma find_start_data:
  "find_start w = (case wal_data w of [] \<Rightarrow> None | (k, v) # _ \<Rightarrow> Some (from_bytes k, v))"
  by (simp add: find_start_def iter_all_data split: list.splits)

lemma find_tip_data:
  "find_tip w = (if wal_data w = [] then None else Some (map_prod from_bytes id (last (wal_data w))))"
  by (cases "wal_data w" rule: rev_cases) (auto simp: find_tip_def iter_all_data)

section \<open>Pruning\<close>

lemma remove_before_data:
  assumes "wal_ok w"
  shows "wal_data (remove_before s w) = filter (\<lambda>(k, _). s \<le> key_slot k) (wal_data w)"
proof -
  have "\<And>k v. (k, v) \<in> set (wal_data w) \<Longrightarrow> (\<not> k < min_bound s) = (s \<le> key_slot k)"
    using wal_ok_key [OF assms] below_min_bound by (metis linorder_not_le)
  then show ?thesis
    unfolding remove_before_def tbl_retain_def by (auto intro!: filter_cong)
qed

text \<open>The first and the last slot of a log, and by how many slots it exceeds a limit.\<close>

definition first_slot :: "'d wal \<Rightarrow> nat" where
  "first_slot w = unat (key_slot (fst (hd (wal_data w))))"

definition last_slot :: "'d wal \<Rightarrow> nat" where
  "last_slot w = unat (key_slot (fst (last (wal_data w))))"

definition excess :: "u64 \<Rightarrow> 'd wal \<Rightarrow> nat" where
  "excess max_slots w = (if wal_data w = [] then 0 else last_slot w - first_slot w - unat max_slots)"

lemma first_last_slot:
  assumes "wal_ok w" and "(k, v) \<in> set (wal_data w)"
  shows "first_slot w \<le> unat (key_slot k)" and "unat (key_slot k) \<le> last_slot w"
proof -
  note s = wal_slots_sorted [OF assms(1)]
  obtain i where i: "i < length (wal_data w)" "wal_data w ! i = (k, v)"
    using assms(2) by (metis in_set_conv_nth)
  then have "wal_data w \<noteq> []" by auto
  with i sorted_nth_mono [OF s, of 0 i] sorted_nth_mono [OF s, of i "length (wal_data w) - 1"]
  show "first_slot w \<le> unat (key_slot k)" and "unat (key_slot k) \<le> last_slot w"
    by (simp_all add: first_slot_def last_slot_def hd_conv_nth last_conv_nth word_le_nat_alt)
qed

lemma saturating_sub_nat: "unat (saturating_sub x (y :: u64)) = unat x - unat y"
  by (simp add: saturating_sub_def unat_sub_no_underflow word_le_nat_alt)

text \<open>What one call of \<^verbatim>\<open>prune_history\<close> does, in every build.\<close>

definition prune_step :: "u64 option \<Rightarrow> nat \<Rightarrow> nat" where
  "prune_step max_prune n = (case max_prune of Some m \<Rightarrow> min n (unat m) | None \<Rightarrow> n)"

lemma prune_history_run:
  assumes ok: "wal_ok w"
  shows "prune_history b max_slots max_prune w =
    (if excess max_slots w = 0 then Some (True, w)
     else Some (prune_step max_prune (excess max_slots w) = excess max_slots w,
                remove_before (word_of_nat (first_slot w + prune_step max_prune (excess max_slots w))) w))"
proof (cases "wal_data w")
  case Nil
  then show ?thesis by (simp add: prune_history_def find_start_data excess_def)
next
  case (Cons kv t)
  let ?f = "key_slot (fst (hd (wal_data w)))" and ?l = "key_slot (fst (last (wal_data w)))"
  let ?e = "saturating_sub (saturating_sub ?l ?f) max_slots"
  let ?n = "case max_prune of Some m \<Rightarrow> min ?e m | None \<Rightarrow> ?e"
  have ne: "wal_data w \<noteq> []" using Cons by simp
  have e: "unat ?e = excess max_slots w"
    using ne by (simp add: excess_def saturating_sub_nat first_slot_def last_slot_def)
  have n: "unat ?n = prune_step max_prune (excess max_slots w)"
    by (auto simp: prune_step_def min_def e word_le_nat_alt split: option.splits)
  have step: "prune_step max_prune (excess max_slots w) \<le> excess max_slots w"
    by (auto simp: prune_step_def split: option.splits)
  have "first_slot w + excess max_slots w \<le> last_slot w"
    using first_last_slot [OF ok, of "fst kv" "snd kv"] Cons by (auto simp: excess_def)
  then have fits: "unat ?f + unat ?n < 2 ^ 64"
    using step unsigned_less [where 'a = nat, of ?l] by (simp add: n first_slot_def last_slot_def)
  then have add: "raw_add b ?f ?n = Some (?f + ?n)" by (simp add: raw_add_def checked_add_def)
  have "?f + ?n = word_of_nat (first_slot w + prune_step max_prune (excess max_slots w))"
    unfolding first_slot_def n [symmetric] by simp
  moreover have "(case max_prune of Some m \<Rightarrow> ?e \<le> m | None \<Rightarrow> True)
      = (prune_step max_prune (excess max_slots w) = excess max_slots w)"
    by (auto simp: prune_step_def e [symmetric] word_le_nat_alt min_def split: option.splits)
  moreover have "?e = 0 \<longleftrightarrow> excess max_slots w = 0" by (simp add: e [symmetric] unat_eq_0)
  moreover have "find_start w = Some (from_bytes (fst (hd (wal_data w))), snd (hd (wal_data w)))"
    by (simp add: find_start_data Cons split: prod.splits)
  moreover have "find_tip w = Some (from_bytes (fst (last (wal_data w))), snd (last (wal_data w)))"
    using ne by (simp add: find_tip_data map_prod_def case_prod_unfold)
  ultimately show ?thesis
    using add by (cases max_prune) (simp_all add: prune_history_def key_slot_def [symmetric] Let_def)
qed

lemma prune_keeps:
  assumes ok: "wal_ok w" and run: "prune_history b max_slots max_prune w = Some (finished, w')"
  shows "wal_ok w'"
    and "find_tip w' = find_tip w"
    and "wal_data w' = filter (\<lambda>(k, _). first_slot w + prune_step max_prune (excess max_slots w) \<le> unat (key_slot k))
      (wal_data w)"
    and "finished \<longleftrightarrow> prune_step max_prune (excess max_slots w) = excess max_slots w"
proof -
  let ?s = "prune_step max_prune (excess max_slots w)"
  have all: "filter (\<lambda>(k, _). first_slot w \<le> unat (key_slot k)) (wal_data w) = wal_data w"
    using first_last_slot(1) [OF ok] by (auto intro!: filter_True)
  have zero: "?s = 0" if "excess max_slots w = 0"
    using that by (auto simp: prune_step_def split: option.splits)
  show ok': "wal_ok w'"
    using run ok by (auto simp: prune_history_run [OF ok] split: if_splits)
  show fin: "finished \<longleftrightarrow> ?s = excess max_slots w"
    using run zero by (auto simp: prune_history_run [OF ok] split: if_splits)
  show data: "wal_data w' = filter (\<lambda>(k, _). first_slot w + ?s \<le> unat (key_slot k)) (wal_data w)"
  proof (cases "excess max_slots w = 0")
    case True
    with run have "w' = w" by (simp add: prune_history_run [OF ok])
    with zero [OF True] all show ?thesis by simp
  next
    case False
    then have "first_slot w + excess max_slots w \<le> last_slot w" by (auto simp: excess_def split: if_splits)
    moreover have "?s \<le> excess max_slots w" by (auto simp: prune_step_def split: option.splits)
    ultimately have "first_slot w + ?s < 2 ^ 64"
      unfolding last_slot_def using unsigned_less [where 'a = nat, of "key_slot (fst (last (wal_data w)))"] by simp
    then have "unat (word_of_nat (first_slot w + ?s) :: u64) = first_slot w + ?s"
      by (simp add: unat_of_nat del: of_nat_add)
    moreover have "w' = remove_before (word_of_nat (first_slot w + ?s)) w"
      using run False by (simp add: prune_history_run [OF ok])
    ultimately show ?thesis
      using remove_before_data [OF ok, of "word_of_nat (first_slot w + ?s)"]
      by (simp only: word_le_nat_alt)
  qed
  show "find_tip w' = find_tip w"
  proof (cases "excess max_slots w = 0")
    case True
    with run show ?thesis by (simp add: prune_history_run [OF ok])
  next
    case False
    then have le: "first_slot w + ?s \<le> last_slot w" and ne: "wal_data w \<noteq> []"
      by (auto simp: excess_def prune_step_def split: if_splits option.splits)
    obtain us u where us: "wal_data w = us @ [u]" using ne by (cases "wal_data w" rule: rev_cases) auto
    with le have "last (wal_data w') = u" and "wal_data w' \<noteq> []"
      by (auto simp: data last_slot_def case_prod_unfold)
    then show ?thesis by (simp add: find_tip_data us)
  qed
qed

text \<open>Each round that does not finish leaves less to prune.\<close>

lemma prune_progress:
  assumes ok: "wal_ok w" and run: "prune_history b max_slots max_prune w = Some (finished, w')"
  shows "excess max_slots w' \<le> excess max_slots w - prune_step max_prune (excess max_slots w)"
proof (cases "wal_data w' = []")
  case True
  then show ?thesis by (simp add: excess_def)
next
  case False
  note keeps = prune_keeps [OF ok run]
  have "hd (wal_data w') \<in> set (wal_data w')" using False by simp
  then have "first_slot w + prune_step max_prune (excess max_slots w) \<le> first_slot w'"
    unfolding first_slot_def [of w'] using keeps(3) by auto
  moreover have "wal_data w \<noteq> []" using False keeps(3) by auto
  moreover have "last_slot w' = last_slot w"
    using keeps(2) False \<open>wal_data w \<noteq> []\<close>
    by (simp add: find_tip_data last_slot_def key_slot_def map_prod_def case_prod_unfold)
  ultimately show ?thesis using False by (simp add: excess_def)
qed

section \<open>Appending and truncating\<close>

text \<open>Points the log can hold and give back: fully specified, or the origin.\<close>

definition exact :: "chain_point \<Rightarrow> bool" where
  "exact p \<longleftrightarrow> from_bytes (into_bytes p) = p"

lemma exact_iff: "exact p \<longleftrightarrow> (case p of Origin \<Rightarrow> True | Slot _ \<Rightarrow> False | Specific s h \<Rightarrow> s \<noteq> 0 \<or> h \<noteq> 0)"
  by (auto simp: exact_def into_bytes_alt from_bytes_word_bytes split: chain_point.splits)

lemma read_append:
  "read_entry (append_entries stored logs w) p =
     (case map_of (rev (map (\<lambda>(q, log). (into_bytes q, logged stored log)) logs)) (into_bytes p) of
        Some v \<Rightarrow> Some v | None \<Rightarrow> read_entry w p)"
  unfolding read_entry_def append_entries_def by (simp add: tbl.get_fold_ins cong: option.case_cong)

lemma remove_entries_data:
  "wal_data (remove_entries p w) = filter (\<lambda>(k, _). k \<le> into_bytes p) (wal_data w)"
  by (auto simp: remove_entries_def tbl_retain_def intro!: filter_cong)

lemma read_remove:
  "read_entry (remove_entries p w) q = (if into_bytes q \<le> into_bytes p then read_entry w q else None)"
  by (auto simp: read_entry_def remove_entries_def tbl.get_retain)

text \<open>
  The log as its clients see it: entries in the order of their points, appending newer ones, and
  truncating back to a point.
\<close>

locale wal_log =
  fixes entries :: "'w \<Rightarrow> 'd log_entry list"
    and append_w :: "'d log_entry list \<Rightarrow> 'w \<Rightarrow> 'w"
    and truncate_w :: "chain_point \<Rightarrow> 'w \<Rightarrow> 'w"
    and newer :: "chain_point \<Rightarrow> chain_point \<Rightarrow> bool"
    and wf_w :: "'w \<Rightarrow> bool"
  assumes wf_append: "wf_w w \<Longrightarrow> wf_w (append_w logs w)"
    and wf_truncate: "wf_w w \<Longrightarrow> wf_w (truncate_w p w)"
    and truncate_append: "wf_w w \<Longrightarrow> \<forall>(q, _) \<in> set logs. newer p q
        \<Longrightarrow> \<forall>(q, _) \<in> set (entries w). \<not> newer p q
        \<Longrightarrow> entries (truncate_w p (append_w logs w)) = entries w"
begin

text \<open>Several forks in a row, each dropped by truncating to the same point, leave the log as it was.\<close>

lemma truncate_forks:
  assumes "wf_w w" and "\<forall>fork \<in> set forks. \<forall>(q, _) \<in> set fork. newer p q"
    and "\<forall>(q, _) \<in> set (entries w). \<not> newer p q"
  shows "entries (fold (\<lambda>fork w. truncate_w p (append_w fork w)) forks w) = entries w
    \<and> wf_w (fold (\<lambda>fork w. truncate_w p (append_w fork w)) forks w)"
  using assms
proof (induction forks arbitrary: w)
  case Nil
  then show ?case by simp
next
  case (Cons fork forks)
  let ?w = "truncate_w p (append_w fork w)"
  have "entries ?w = entries w" using Cons.prems by (intro truncate_append) auto
  moreover have "wf_w ?w" using Cons.prems(1) by (intro wf_truncate wf_append)
  ultimately show ?case using Cons.IH [of ?w] Cons.prems(2,3) by simp
qed

end

lemma truncate_append_entries:
  assumes "wal_ok w" and "\<forall>(q, _) \<in> set logs. into_bytes p < into_bytes q"
    and "\<forall>(k, _) \<in> set (wal_data w). k \<le> into_bytes p"
  shows "wal_data (truncate_front p (append_entries stored logs w)) = wal_data w"
proof -
  let ?kvs = "map (\<lambda>(q, log). (into_bytes q, logged stored log)) logs"
  have "id (tbl_retain (\<lambda>k. \<not> (into_bytes p \<le> k \<and> into_bytes p < k)) (fold (\<lambda>(k, v). tbl_insert k v) ?kvs (wal_data w)))
      = id (wal_data w)"
  proof (rule tbl.retain_fold_ins)
    show "tbl_ok (wal_data w)" using assms(1) by (simp add: wal_ok_def)
    show "\<forall>k \<in> fst ` set ?kvs. \<not> \<not> (into_bytes p \<le> k \<and> into_bytes p < k)" using assms(2) by force
    show "\<not> (into_bytes p \<le> k \<and> into_bytes p < k)" if "tbl_get (wal_data w) k = Some v" for k v
      using that assms(3) by (auto simp: tbl_get_def dest!: map_of_SomeD)
  qed
  then show ?thesis by (simp add: truncate_front_def remove_entries_def append_entries_def)
qed

lemma iter_all_keys:
  assumes "wal_ok w"
  shows "(\<forall>(q, _) \<in> set (iter_all w). \<not> into_bytes p < into_bytes q) \<longleftrightarrow> (\<forall>(k, _) \<in> set (wal_data w). k \<le> into_bytes p)"
proof -
  have "into_bytes (from_bytes k) = k" if "(k, v) \<in> set (wal_data w)" for k v
    using wal_ok_key [OF assms that] by (simp add: wal_key_def)
  then show ?thesis by (force simp: iter_all_data not_less)
qed

interpretation redb_wal: wal_log iter_all "append_entries stored" truncate_front
  "\<lambda>p q. into_bytes p < into_bytes q" wal_ok
proof
  fix w :: "'a wal" and logs :: "'a log_entry list" and p
  assume w: "wal_ok w" and newer: "\<forall>(q, _) \<in> set logs. into_bytes p < into_bytes q"
    and old: "\<forall>(q, _) \<in> set (iter_all w). \<not> into_bytes p < into_bytes q"
  have "wal_data (truncate_front p (append_entries stored logs w)) = wal_data w"
    using w newer old iter_all_keys [OF w, of p] by (intro truncate_append_entries) auto
  then show "iter_all (truncate_front p (append_entries stored logs w)) = iter_all w"
    by (simp add: iter_all_data)
qed (simp_all add: wal_ok_append truncate_front_def)

section \<open>Searching\<close>

lemma min_by_key_None: "min_by_key f xs = None \<longleftrightarrow> xs = []"
  by (cases xs) (auto split: option.splits)

lemma min_by_key_min:
  "min_by_key f xs = Some x \<Longrightarrow> x \<in> set xs \<and> (\<forall>y \<in> set xs. f x \<le> f y)"
proof (induction xs arbitrary: x)
  case Nil
  then show ?case by simp
next
  case (Cons z zs)
  show ?case
  proof (cases "min_by_key f zs")
    case None
    then show ?thesis using Cons.prems by (simp add: min_by_key_None)
  next
    case (Some y)
    from Cons.IH [OF this] Cons.prems Some show ?thesis
      by (auto split: if_splits)
  qed
qed

lemma first_some_Some:
  "first_some f xs = Some y \<Longrightarrow> \<exists>us x vs. xs = us @ x # vs \<and> f x = Some y \<and> (\<forall>u \<in> set us. f u = None)"
proof (induction xs)
  case Nil
  then show ?case by simp
next
  case (Cons x xs)
  show ?case
  proof (cases "f x")
    case None
    with Cons obtain us z vs where "xs = us @ z # vs" "f z = Some y" "\<forall>u \<in> set us. f u = None" by auto
    with None have "x # xs = (x # us) @ z # vs \<and> f z = Some y \<and> (\<forall>u \<in> set (x # us). f u = None)" by simp
    then show ?thesis by blast
  next
    case (Some z)
    with Cons.prems show ?thesis by (intro exI [of _ "[]"]) auto
  qed
qed

lemma first_some_None: "first_some f xs = None \<longleftrightarrow> (\<forall>x \<in> set xs. f x = None)"
  by (induction xs) (auto split: option.splits)

text \<open>How far apart two slots are.\<close>

definition slot_distance :: "block_slot \<Rightarrow> block_slot \<Rightarrow> nat" where
  "slot_distance x y = max (unat x) (unat y) - min (unat x) (unat y)"

lemma abs_diff_distance: "unat (abs_diff x y) = slot_distance x y"
  by (simp add: abs_diff_def slot_distance_def unat_sub_no_underflow word_le_nat_alt word_less_nat_alt)

lemma window_distance:
  assumes "d \<le> 180"
  shows "saturating_sub t (word_of_nat d) \<le> s \<and> s \<le> saturating_add t (word_of_nat d :: u64) \<longleftrightarrow> slot_distance t s \<le> d"
proof -
  have d: "unat (word_of_nat d :: u64) = d" using assms by (simp add: unat_of_nat)
  have lo: "saturating_sub t (word_of_nat d) \<le> s \<longleftrightarrow> unat t \<le> unat s + d"
    by (auto simp: word_le_nat_alt saturating_sub_nat d)
  have "s \<le> saturating_add t (word_of_nat d) \<longleftrightarrow> unat s \<le> unat t + d"
    using unsigned_less [where 'a = nat, of s]
    by (auto simp: saturating_add_def checked_add_def word_le_nat_alt unat_plus_if' d unsigned_minus_1_eq_mask
        mask_eq_exp_minus_1 split: option.splits if_splits)
  with lo show ?thesis by (auto simp: slot_distance_def)
qed

lemma approximate_window:
  assumes w: "wal_ok w" and d: "d \<le> 180"
    and r: "approximate_slot w t (Included (saturating_sub t (word_of_nat d))) (Included (saturating_add t (word_of_nat d))) = r"
  shows "r = None \<Longrightarrow> \<forall>(p, _) \<in> set (iter_all w). d < slot_distance t (cp_slot p)"
    and "r = Some p \<Longrightarrow> p \<in> fst ` set (iter_all w) \<and> slot_distance t (cp_slot p) \<le> d
      \<and> (\<forall>(q, _) \<in> set (iter_all w). slot_distance t (cp_slot p) \<le> slot_distance t (cp_slot q))"
proof -
  let ?lo = "saturating_sub t (word_of_nat d)" and ?hi = "saturating_add t (word_of_nat d)"
  define inside where "inside = filter (\<lambda>(k, _). min_bound ?lo \<le> k \<and> k \<le> max_bound ?hi) (wal_data w)"
  have inside: "(k, v) \<in> set inside \<longleftrightarrow> (k, v) \<in> set (wal_data w) \<and> slot_distance t (key_slot k) \<le> d" for k v
    using wal_ok_key [OF w, of k v] window_distance [OF d, of t "key_slot k"]
    by (auto simp: inside_def above_min_bound below_max_bound)
  have r': "r = map_option snd (min_by_key fst (map (\<lambda>p. (abs_diff t (cp_slot p), p)) (map (from_bytes \<circ> fst) inside)))"
    using r by (simp add: approximate_slot_def inside_def Let_def)
  show "\<forall>(p, _) \<in> set (iter_all w). d < slot_distance t (cp_slot p)" if "r = None"
    using that inside unfolding r'
    by (auto simp: min_by_key_None iter_all_data key_slot_def [symmetric] simp flip: not_le)
  show "p \<in> fst ` set (iter_all w) \<and> slot_distance t (cp_slot p) \<le> d
      \<and> (\<forall>(q, _) \<in> set (iter_all w). slot_distance t (cp_slot p) \<le> slot_distance t (cp_slot q))" if "r = Some p"
  proof -
    from that obtain x where "min_by_key fst (map (\<lambda>p. (abs_diff t (cp_slot p), p)) (map (from_bytes \<circ> fst) inside)) = Some (x, p)"
      unfolding r' by auto
    from min_by_key_min [OF this] obtain k v where kv: "(k, v) \<in> set inside" "p = from_bytes k"
      and least: "\<forall>y \<in> set inside. slot_distance t (key_slot k) \<le> slot_distance t (key_slot (fst y))"
      by (auto simp: word_le_nat_alt abs_diff_distance key_slot_def)
    have "slot_distance t (key_slot k) \<le> slot_distance t (key_slot k')" if "(k', v') \<in> set (wal_data w)" for k' v'
      using that least kv(1) inside [of k v] inside [of k' v'] by (cases "slot_distance t (key_slot k') \<le> d") auto
    with kv inside [of k v] show ?thesis
      by (force simp: iter_all_data key_slot_def [symmetric])
  qed
qed

text \<open>
  The widening windows do not change the answer: what is found is the nearest entry of the whole
  log, and nothing is found only when no entry is within 180 slots.
\<close>

lemma locate_point_finds:
  assumes w: "wal_ok w"
  shows "locate_point w t = Some p \<Longrightarrow> p \<in> fst ` set (iter_all w) \<and> slot_distance t (cp_slot p) \<le> 180
      \<and> (\<forall>(q, _) \<in> set (iter_all w). slot_distance t (cp_slot p) \<le> slot_distance t (cp_slot q))"
    and "locate_point w t = None \<Longrightarrow> \<forall>(q, _) \<in> set (iter_all w). 180 < slot_distance t (cp_slot q)"
proof -
  let ?f = "\<lambda>d. approximate_slot w t (Included (saturating_sub t (word_of_nat d))) (Included (saturating_add t (word_of_nat d)))"
  have loc: "locate_point w t = first_some (\<lambda>i. ?f (20 * i)) [1..<10]"
    by (simp add: locate_point_def approximate_slot_with_retry_def Let_def)
  show "p \<in> fst ` set (iter_all w) \<and> slot_distance t (cp_slot p) \<le> 180
      \<and> (\<forall>(q, _) \<in> set (iter_all w). slot_distance t (cp_slot p) \<le> slot_distance t (cp_slot q))"
    if "locate_point w t = Some p"
  proof -
    from first_some_Some [OF that [unfolded loc]] obtain us i vs
      where i: "[1..<10] = us @ i # vs" "?f (20 * i) = Some p" by blast
    have "i \<in> set [1..<10]" unfolding i(1) by simp
    then have "20 * i \<le> 180" by simp
    from approximate_window(2) [OF w this i(2)] this show ?thesis by fastforce
  qed
  show "\<forall>(q, _) \<in> set (iter_all w). 180 < slot_distance t (cp_slot q)" if "locate_point w t = None"
  proof -
    have "?f (20 * 9) = None" using that unfolding loc first_some_None by (drule_tac bspec [of _ _ 9]) auto
    from approximate_window(1) [OF w _ this] show ?thesis by simp
  qed
qed

section \<open>Intersection with another log\<close>

lemma crawl_prefix: "\<exists>vs. crawl m out ps = out @ vs"
proof (induction m out ps rule: crawl.induct)
  case (2 m out p ps)
  then show ?case by (cases "is_fully_defined p"; cases "m \<le> length (out @ [p])") (auto simp: Let_def)
qed simp

lemma crawl_set: "set (crawl m out ps) \<subseteq> set out \<union> {p \<in> set ps. is_fully_defined p}"
proof (induction m out ps rule: crawl.induct)
  case (2 m out p ps)
  show ?case
  proof (cases "\<not> is_fully_defined p \<or> m \<le> length (out @ [p])")
    case True
    then show ?thesis using "2.IH"(1) by (auto simp: Let_def)
  next
    case False
    then show ?thesis
      using "2.IH"(2) [of "out @ [p]"] set_drop_subset [of "2 ^ length (out @ [p]) - 1" ps]
      by (auto simp: Let_def dest!: subsetD)
  qed
qed simp

lemma crawl_length: "length out < max 1 m \<Longrightarrow> length (crawl m out ps) \<le> max 1 m"
proof (induction m out ps rule: crawl.induct)
  case (2 m out p ps)
  then show ?case by (auto simp: Let_def)
qed simp

text \<open>With every point defined, the crawl takes the points at depths 0, 2, 6, 14, and so on.\<close>

lemma crawl_nth:
  assumes "\<forall>p \<in> set ps. is_fully_defined p" and "length out + i < max 1 m"
    and "2 ^ (length out + 1 + i) - 2 ^ (length out + 1) < length ps"
  shows "length out + i < length (crawl m out ps)
    \<and> crawl m out ps ! (length out + i) = ps ! (2 ^ (length out + 1 + i) - 2 ^ (length out + 1))"
  using assms
proof (induction i arbitrary: out ps)
  case 0
  then obtain p qs where ps: "ps = p # qs" "is_fully_defined p" by (cases ps) auto
  then obtain vs where "crawl m out ps = (out @ [p]) @ vs"
    using crawl_prefix [of m "out @ [p]"] by (cases "m \<le> Suc (length out)") (auto simp: Let_def)
  with ps show ?case by (simp add: nth_append)
next
  case (Suc i)
  let ?n = "length out + 1"
  let ?k = "2 ^ (?n + 1 + i) - 2 ^ (?n + 1) :: nat"
  from Suc.prems obtain p qs where ps: "ps = p # qs" "is_fully_defined p" by (cases ps) auto
  have le: "(2 :: nat) ^ (?n + 1) \<le> 2 ^ (?n + 1 + i)" by (rule power_increasing) auto
  moreover have "(2 :: nat) ^ (?n + 1) = 2 * 2 ^ ?n" and "(1 :: nat) \<le> 2 ^ ?n" by simp_all
  moreover have "?n + Suc i = ?n + 1 + i" by simp
  ultimately have idx: "2 ^ (?n + Suc i) - 2 ^ ?n = Suc (2 ^ ?n - 1 + ?k)"
    by (simp only:)
  have "2 ^ ?n - 1 + ?k < length qs"
    using Suc.prems(3) unfolding idx ps(1) by simp
  then have "?k < length (drop (2 ^ ?n - 1) qs)" unfolding length_drop by linarith
  moreover have "crawl m out ps = crawl m (out @ [p]) (drop (2 ^ ?n - 1) qs)"
    using Suc.prems(2) ps by (auto simp: Let_def)
  moreover have "\<forall>q \<in> set (drop (2 ^ ?n - 1) qs). is_fully_defined q"
    using Suc.prems(1) ps(1) by (auto dest: in_set_dropD)
  moreover have "ps ! (2 ^ (?n + Suc i) - 2 ^ ?n) = drop (2 ^ ?n - 1) qs ! ?k"
    using \<open>?k < _\<close> unfolding idx ps(1) by simp
  ultimately show ?case using Suc.IH [of "drop (2 ^ ?n - 1) qs" "out @ [p]"] Suc.prems(2) by simp
qed

text \<open>
  When the other side knows every point from depth \<open>d\<close> on, one of the candidates down to depth
  \<open>2 * d\<close> is known to it.
\<close>

lemma candidates_meet:
  assumes def: "\<forall>p \<in> set ps. is_fully_defined p" and known: "\<And>j. d \<le> j \<Longrightarrow> j < length ps \<Longrightarrow> known (ps ! j)"
    and long: "2 * d < length ps" and items: "d + 2 \<le> 2 ^ max_items"
  obtains j where "j \<le> 2 * d" "find known (crawl max_items [] ps) = Some (ps ! j)"
proof -
  define i where "i = (LEAST i. d + 2 \<le> 2 ^ Suc i)"
  have pos: "0 < max_items" using items by (cases max_items) auto
  have i: "d + 2 \<le> 2 ^ Suc i" unfolding i_def
    by (rule LeastI [of _ "max_items - 1"]) (use pos items in simp)
  have "i \<le> max_items - 1" unfolding i_def by (rule Least_le) (use pos items in simp)
  then have im: "i < max 1 max_items" using pos by simp
  have up: "2 ^ Suc i \<le> 2 * d + (2 :: nat)"
  proof (cases i)
    case (Suc i')
    then have "\<not> d + 2 \<le> 2 ^ Suc i'" using not_less_Least [of i' "\<lambda>i. d + 2 \<le> 2 ^ Suc i"] by (simp add: i_def)
    with Suc show ?thesis by simp
  qed simp
  let ?c = "crawl max_items [] ps"
  have nth: "j < length ?c \<and> ?c ! j = ps ! (2 ^ Suc j - 2)" if "j \<le> i" for j
  proof -
    have "(2 :: nat) ^ Suc j \<le> 2 ^ Suc i" using that by (intro power_increasing) auto
    then have "2 ^ Suc j - 2 < length ps" using up long by arith
    then show ?thesis using crawl_nth [OF def, of "[]" j max_items] that im by simp
  qed
  have "known (?c ! i)" using nth [of i] known [of "2 ^ Suc i - 2"] i up long by simp
  with nth [of i] have "find known ?c \<noteq> None" by (auto simp: find_None_iff in_set_conv_nth)
  then obtain x where x: "find known ?c = Some x" by blast
  then obtain j where j: "j < length ?c" "known (?c ! j)" "x = ?c ! j" "\<forall>j' < j. \<not> known (?c ! j')"
    by (auto simp: find_Some_iff)
  have "j \<le> i" using j(4) \<open>known (?c ! i)\<close> by (metis not_le)
  then have "(2 :: nat) ^ Suc j \<le> 2 ^ Suc i" by (intro power_increasing) auto
  then have "2 ^ Suc j - 2 \<le> 2 * d" using up by arith
  with nth [OF \<open>j \<le> i\<close>] x j(3) show thesis by (intro that [of "2 ^ Suc j - 2"]) simp_all
qed

lemma find_intersect_find:
  "find_intersect w ps = (case find (contains_point w) ps of
     None \<Rightarrow> None | Some p \<Rightarrow> map_option (\<lambda>v. (p, v)) (read_entry w p))"
  unfolding find_intersect_def
  by (induction ps) (auto simp: contains_point_def split: option.splits)

section \<open>Opening and resetting\<close>

lemma ensure_version_cases:
  "ensure_version w =
     (if wal_version w = Some current_wal_version then Inr w
      else case wal_version w of
        Some v \<Rightarrow> if current_wal_version < v then Inl (IncompatibleVersion v current_wal_version)
          else Inr (w\<lparr>wal_data := [], wal_version := Some current_wal_version\<rparr>)
      | None \<Rightarrow> Inr (w\<lparr>wal_data := [], wal_version := Some current_wal_version\<rparr>))"
  by (cases w) (auto simp: ensure_version_def stamp_version_def wipe_and_stamp_def data_table_is_empty_def
      split: option.splits)

lemma origin_least: "into_bytes Origin \<le> into_bytes p"
  by (rule leI) (simp add: into_bytes_less_iff)

lemma reset_to_reads:
  "read_entry (reset_to stored p w) q =
     (if into_bytes q = into_bytes p then Some log_value_origin
      else if into_bytes q = into_bytes Origin then read_entry w q else None)"
  using origin_least [of q]
  by (auto simp: reset_to_def read_append read_remove logged_def log_value_origin_def)

section \<open>Properties\<close>


lemma from_into_specific: "h \<noteq> 0 \<Longrightarrow> from_bytes (into_bytes (Specific s h)) = Specific s h"
  by (simp add: into_bytes_alt from_bytes_word_bytes)

lemma into_specific_inject: "into_bytes (Specific s h) = into_bytes (Specific s' h') \<longleftrightarrow> s = s' \<and> h = h'"
  using into_bytes_less_iff [of "Specific s h" "Specific s' h'"] into_bytes_less_iff [of "Specific s' h'" "Specific s h"]
  by (metis cp_hash.simps(1) cp_slot.simps(3) linorder_neqE option.simps(5) order.irrefl)

definition sample_wal :: "nat wal" where
  "sample_wal = append_entries id (map (\<lambda>n. (Specific n 1, log_value_origin)) [5, 10, 30]) \<lparr>wal_data = [], wal_version = None\<rparr>"

lemma sample_wal_ok: "wal_ok sample_wal"
  unfolding sample_wal_def by (rule wal_ok_append) (simp add: wal_ok_def tbl_ok_def)


text \<open>
  C30. Forks leave no trace in the log: appending the entries of a fork after a point and then
  truncating back to the point, any number of times, gives the entries the log had.
\<close>

theorem wal_truncate_undoes_forks:
  assumes "wal_ok w" and "\<forall>fork \<in> set forks. \<forall>(q, _) \<in> set fork. into_bytes p < into_bytes q"
    and "\<forall>(q, _) \<in> set (iter_all w). \<not> into_bytes p < into_bytes q"
  shows "iter_all (fold (\<lambda>fork w. truncate_front p (append_entries stored fork w)) forks w) = iter_all w"
  using redb_wal.truncate_forks [OF assms] by blast

theorem wal_truncate_undoes_forks_witness:
  "iter_all (fold (\<lambda>fork w. truncate_front (Specific 30 1) (append_entries id fork w))
     [[(Specific 31 7, log_value_origin), (Specific 32 7, log_value_origin)], [(Specific 30 2, log_value_origin)]] sample_wal)
   = iter_all sample_wal"
proof (rule wal_truncate_undoes_forks [OF sample_wal_ok])
  show "\<forall>(q, _) \<in> set (iter_all sample_wal). \<not> into_bytes (Specific 30 1) < into_bytes q"
    by (simp add: iter_all_def iter_logs_def sample_wal_def append_entries_def logged_def log_value_origin_def
        into_bytes_less_iff from_into_specific)
qed (simp add: into_bytes_less_iff)

text \<open>
  C36. Locating a point by slot widens its search nine times, but the answer is the nearest entry
  of the whole log; nothing is found exactly when no entry is within 180 slots.
\<close>

theorem wal_locate_nearest:
  assumes "wal_ok w"
  shows "case locate_point w t of
      Some p \<Rightarrow> p \<in> fst ` set (iter_all w) \<and> slot_distance t (cp_slot p) \<le> 180
        \<and> (\<forall>(q, _) \<in> set (iter_all w). slot_distance t (cp_slot p) \<le> slot_distance t (cp_slot q))
    | None \<Rightarrow> \<forall>(q, _) \<in> set (iter_all w). 180 < slot_distance t (cp_slot q)"
  using locate_point_finds [OF assms] by (cases "locate_point w t") simp_all

theorem wal_locate_nearest_witness:
  "case locate_point sample_wal 17 of
      Some p \<Rightarrow> p \<in> fst ` set (iter_all sample_wal) \<and> slot_distance 17 (cp_slot p) \<le> 180
        \<and> (\<forall>(q, _) \<in> set (iter_all sample_wal). slot_distance 17 (cp_slot p) \<le> slot_distance 17 (cp_slot q))
    | None \<Rightarrow> \<forall>(q, _) \<in> set (iter_all sample_wal). 180 < slot_distance 17 (cp_slot q)"
  by (rule wal_locate_nearest [OF sample_wal_ok])

text \<open>
  C35. Finding the intersection with a peer: when the peer's log holds every entry of ours from
  depth \<open>d\<close> below the tip, the exponentially spaced candidates contain one that it holds, at most
  twice as deep; what is found is one of our points with the peer's entry for it.
\<close>

theorem wal_intersection_within_twice:
  fixes w peer :: "'d wal"
  defines "points \<equiv> map fst (rev (iter_all w))"
  assumes "\<forall>p \<in> set points. is_fully_defined p"
    and "\<forall>j. d \<le> j \<and> j < length points \<longrightarrow> contains_point peer (points ! j)"
    and "2 * d < length points" and "d + 2 \<le> 2 ^ max_items"
  shows "\<exists>j v. j \<le> 2 * d \<and> read_entry peer (points ! j) = Some v \<and>
    find_intersect peer (intersect_candidates w max_items) = Some (points ! j, v)"
proof -
  obtain j where j: "j \<le> 2 * d" "find (contains_point peer) (crawl max_items [] points) = Some (points ! j)"
    using candidates_meet [of points d "contains_point peer" max_items] assms(2-5) by blast
  then obtain v where "read_entry peer (points ! j) = Some v"
    by (auto simp: contains_point_def find_Some_iff)
  with j show ?thesis by (auto simp: find_intersect_find intersect_candidates_def assms(1))
qed

theorem wal_intersection_within_twice_witness:
  "\<exists>j v. j \<le> 2 \<and> read_entry sample_wal (map fst (rev (iter_all sample_wal)) ! j) = Some v \<and>
    find_intersect sample_wal (intersect_candidates sample_wal 4) = Some (map fst (rev (iter_all sample_wal)) ! j, v)"
proof -
  have iter: "iter_all sample_wal = [(Specific 5 1, log_value_origin), (Specific 10 1, log_value_origin), (Specific 30 1, log_value_origin)]"
    by (simp add: iter_all_def iter_logs_def sample_wal_def append_entries_def logged_def log_value_origin_def
        into_bytes_less_iff from_into_specific into_specific_inject)
  have has: "contains_point sample_wal (Specific 5 1)" "contains_point sample_wal (Specific 10 1)"
      "contains_point sample_wal (Specific 30 1)"
    by (simp_all add: contains_point_def sample_wal_def read_append into_specific_inject)
  have "j < 3 \<Longrightarrow> contains_point sample_wal (map fst (rev (iter_all sample_wal)) ! j)" for j
    using has by (auto simp: iter less_Suc_eq numeral_3_eq_3)
  then have "\<forall>j. 1 \<le> j \<and> j < length (map fst (rev (iter_all sample_wal)))
      \<longrightarrow> contains_point sample_wal (map fst (rev (iter_all sample_wal)) ! j)"
    by (simp add: iter [THEN arg_cong [where f = length]])
  moreover have "\<forall>p \<in> set (map fst (rev (iter_all sample_wal))). is_fully_defined p"
      "2 * 1 < length (map fst (rev (iter_all sample_wal)))" "1 + 2 \<le> (2 :: nat) ^ 4" unfolding iter by simp_all
  ultimately show ?thesis
    using wal_intersection_within_twice [of sample_wal 1 sample_wal 4] by simp
qed

text \<open>
  Opening a log never destroys newer data and never keeps older data: a log of the current
  version opens as it is, a newer one is refused and left alone, and any other opens empty with the
  current version.
\<close>

theorem wal_open_versions:
  "ensure_version w =
     (if wal_version w = Some current_wal_version then Inr w
      else case wal_version w of
        Some v \<Rightarrow> if current_wal_version < v then Inl (IncompatibleVersion v current_wal_version)
          else Inr \<lparr>wal_data = [], wal_version = Some current_wal_version\<rparr>
      | None \<Rightarrow> Inr \<lparr>wal_data = [], wal_version = Some current_wal_version\<rparr>)"
  by (cases w) (simp add: ensure_version_cases split: option.splits)

text \<open>
  Resetting the log to a point leaves the synthetic entry of that point, and beside it the
  entry at the origin when the log had one: a reset does not empty the log.
\<close>

theorem wal_reset_keeps_origin:
  "read_entry (reset_to stored p w) q =
     (if into_bytes q = into_bytes p then Some log_value_origin
      else if into_bytes q = into_bytes Origin then read_entry w q else None)"
  by (rule reset_to_reads)

end
