(* ===== verification/Roll.thy ===== *)
theory Roll
  imports Utxo_Set Delta_Views Wal
begin

text \<open>
  Rolling the chain forward (\<^verbatim>\<open>crates/cardano/src/roll/batch.rs\<close> and
  \<^verbatim>\<open>crates/cardano/src/roll/work_unit.rs\<close>): the deltas of a block grouped by entity, a batch of
  blocks, and the phases of its work unit. The trait methods of the deltas are arguments, as in the
  chunk machinery; so are the visitors that crawl a block for its deltas (\<open>visit\<close>) and the
  decoding of an output (\<open>decodes\<close>). The store is the in-memory one, over decoded entities.
\<close>

text \<open>Keys are pairs; the proofs treat them as atoms.\<close>

declare split_paired_All [simp del] split_paired_Ex [simp del]

section \<open>Deltas by entity\<close>

text \<open>A hash map from keys to the deltas of the entity, in their order of arrival.\<close>

type_synonym 'd work_deltas = "(ns_key \<times> 'd list) list"

definition add_for_entity :: "('d \<Rightarrow> ns_key) \<Rightarrow> 'd \<Rightarrow> 'd work_deltas \<Rightarrow> 'd work_deltas" where
  "add_for_entity key d ds =
     AList.update (key d) ((case map_of ds (key d) of None \<Rightarrow> [] | Some g \<Rightarrow> g) @ [d]) ds"

fun apply_group :: "('d, 'e) apply_fn \<Rightarrow> 'd list \<Rightarrow> 'e option \<Rightarrow> ('d list \<times> 'e option) option" where
  "apply_group apply_d [] e = Some ([], e)"
| "apply_group apply_d (d # ds) e = do {
     (d', e1) \<leftarrow> apply_d d e;
     (ds', e2) \<leftarrow> apply_group apply_d ds e1;
     Some (d' # ds', e2)
   }"

text \<open>Saving through the writer of the in-memory store.\<close>

fun save_op :: "('e \<Rightarrow> namespace) \<Rightarrow> ns_key \<Rightarrow> 'e option \<Rightarrow> 'e op" where
  "save_op ns_of (ns, k) (Some e) = WriteEntity (ns_of e) k e"
| "save_op ns_of (ns, k) None = DeleteEntity ns k"

definition apply_singleton :: "('d, 'e) apply_fn \<Rightarrow> ('e \<Rightarrow> namespace) \<Rightarrow> 'e tables \<Rightarrow> ns_key \<Rightarrow> 'd work_deltas \<Rightarrow> 'e op list
    \<Rightarrow> ('e option \<times> 'd work_deltas \<times> 'e op list) option" where
  "apply_singleton apply_d ns_of t k ds ops =
     (case map_of ds k of
        None \<Rightarrow> Some (None, ds, ops)
      | Some to_apply \<Rightarrow> do {
          (_, entity) \<leftarrow> apply_group apply_d to_apply (entity_view t k);
          Some (entity, AList.delete k ds, ops @ [save_op ns_of k entity])
        })"

section \<open>Blocks and batches\<close>

record 'd work_block =
  wb_raw :: bytes
  wb_block :: block_view
  wb_deltas :: "'d work_deltas"
  wb_utxo_delta :: "utxo_set_delta option"

definition work_block_new :: "bytes \<Rightarrow> block_view \<Rightarrow> 'd work_block" where
  "work_block_new raw block = \<lparr>wb_raw = raw, wb_block = block, wb_deltas = [], wb_utxo_delta = None\<rparr>"

definition wb_slot :: "'d work_block \<Rightarrow> block_slot" where
  "wb_slot w = bv_slot (wb_block w)"

definition wb_point :: "'d work_block \<Rightarrow> chain_point" where
  "wb_point w = Specific (bv_slot (wb_block w)) (bv_hash (wb_block w))"

record ('d, 'e) work_batch =
  wk_blocks :: "'d work_block list"
  wk_utxos :: "(txo_ref \<times> era_cbor) list"
  wk_utxos_decoded :: "(txo_ref \<times> era_cbor) list"
  wk_entities :: "'e entity_map"
  wk_is_sorted :: bool
  wk_applied :: bool

definition work_batch_default :: "('d, 'e) work_batch" where
  "work_batch_default = \<lparr>wk_blocks = [], wk_utxos = [], wk_utxos_decoded = [], wk_entities = [],
     wk_is_sorted = False, wk_applied = False\<rparr>"

definition add_work :: "'d work_block \<Rightarrow> ('d, 'e) work_batch \<Rightarrow> ('d, 'e) work_batch" where
  "add_work work batch = batch\<lparr>wk_blocks := wk_blocks batch @ [work], wk_is_sorted := False\<rparr>"

definition for_single_block :: "'d work_block \<Rightarrow> ('d, 'e) work_batch" where
  "for_single_block work = (add_work work work_batch_default)\<lparr>wk_is_sorted := True\<rparr>"

definition sort_by_slot :: "('d, 'e) work_batch \<Rightarrow> ('d, 'e) work_batch" where
  "sort_by_slot batch = batch\<lparr>wk_blocks := sort_key wb_slot (wk_blocks batch), wk_is_sorted := True\<rparr>"

definition last_point :: "('d, 'e) work_batch \<Rightarrow> chain_point option" where
  "last_point batch = (if wk_blocks batch = [] then None else Some (wb_point (last (wk_blocks batch))))"

section \<open>Loading\<close>

fun check_links :: "chain_point \<Rightarrow> block_view list \<Rightarrow> consensus_error + unit" where
  "check_links tip [] = Inr ()"
| "check_links tip (view # views) =
     (case check_extension tip (bv_slot view) (bv_prev_hash view) of
        Inl err \<Rightarrow> Inl err
      | Inr _ \<Rightarrow> check_links (Specific (bv_slot view) (bv_hash view)) views)"

text \<open>The debug assertion holds the batch to be sorted in builds that check.\<close>

definition batch_check_continuity :: "build \<Rightarrow> chain_point option \<Rightarrow> ('d, 'e) work_batch \<Rightarrow> (consensus_error + unit) option" where
  "batch_check_continuity b cursor batch = do {
     _ \<leftarrow> assert_that (overflow_checks b \<longrightarrow> wk_is_sorted batch);
     Some (check_links (case cursor of None \<Rightarrow> Origin | Some p \<Rightarrow> p) (map wb_block (wk_blocks batch)))
   }"

fun depends_on_all :: "'d work_block list \<Rightarrow> (txo_ref \<times> era_cbor) list \<Rightarrow> (txo_ref \<times> era_cbor) list \<times> txo_ref list" where
  "depends_on_all [] loaded = (loaded, [])"
| "depends_on_all (w # ws) loaded =
     (let (loaded1, refs1) = compute_block_dependencies (wb_block w) loaded;
          (loaded2, refs2) = depends_on_all ws loaded1
      in (loaded2, refs1 @ refs2))"

definition load_utxos :: "'e tables \<Rightarrow> ('d, 'e) work_batch \<Rightarrow> ('d, 'e) work_batch" where
  "load_utxos t batch =
     (let (utxos, refs) = depends_on_all (wk_blocks batch) (wk_utxos batch);
          inputs = get_utxos t (remdups refs)
      in batch\<lparr>wk_utxos := insert_all inputs utxos\<rparr>)"

definition decode_utxos :: "(era_cbor \<Rightarrow> bool) \<Rightarrow> ('d, 'e) work_batch \<Rightarrow> chain_error + ('d, 'e) work_batch" where
  "decode_utxos decodes batch =
     (if list_all (decodes \<circ> snd) (wk_utxos batch) then Inr (batch\<lparr>wk_utxos_decoded := wk_utxos batch\<rparr>)
      else Inl (DecodingError ''output''))"

text \<open>
  The loop of \<^verbatim>\<open>compute_delta\<close>: the visitors crawl each block, with a context that evolves
  along the batch, and the UTxO delta is computed from the decoded inputs.
\<close>

fun compute_delta :: "('d \<Rightarrow> ns_key) \<Rightarrow> ('c \<Rightarrow> block_view \<Rightarrow> (txo_ref \<times> era_cbor) list \<Rightarrow> chain_error + 'd list \<times> 'c)
    \<Rightarrow> (txo_ref \<times> era_cbor) list \<Rightarrow> 'c \<Rightarrow> 'd work_block list \<Rightarrow> chain_error + 'd work_block list" where
  "compute_delta key visit utxos c [] = Inr []"
| "compute_delta key visit utxos c (w # ws) =
     (case visit c (wb_block w) utxos of
        Inl err \<Rightarrow> Inl err
      | Inr (ds, c') \<Rightarrow>
          (let w = w\<lparr>wb_deltas := fold (add_for_entity key) ds []\<rparr> in
           case compute_apply_delta (wb_block w) utxos of
             Inl err \<Rightarrow> Inl (ChainBrokenInvariant err)
           | Inr delta \<Rightarrow>
               (case compute_delta key visit utxos c' ws of
                  Inl err \<Rightarrow> Inl err
                | Inr ws' \<Rightarrow> Inr (w\<lparr>wb_utxo_delta := Some delta\<rparr> # ws'))))"

definition load_chunk_size :: nat where
  "load_chunk_size = 100"

fun chunks :: "nat \<Rightarrow> 'a list \<Rightarrow> 'a list list" where
  "chunks n [] = []"
| "chunks n (x # xs) = (x # take (n - 1) xs) # chunks n (drop (n - 1) xs)"

fun load_chunks :: "'e reader \<Rightarrow> ns_key list list \<Rightarrow> 'e entity_map \<Rightarrow> state_error + 'e entity_map" where
  "load_chunks read [] acc = Inr acc"
| "load_chunks read (c # cs) acc =
     (case load_entity_chunk read c [] of
        Inl err \<Rightarrow> Inl err
      | Inr m \<Rightarrow> load_chunks read cs (insert_all m acc))"

definition load_entities :: "'e reader \<Rightarrow> ('d, 'e) work_batch \<Rightarrow> state_error + ('d, 'e) work_batch" where
  "load_entities read batch =
     (let keys = sort (remdups (concat (map (\<lambda>w. map fst (wb_deltas w)) (wk_blocks batch)))) in
      case load_chunks read (chunks load_chunk_size keys) [] of
        Inl err \<Rightarrow> Inl err
      | Inr result \<Rightarrow> Inr (batch\<lparr>wk_entities := insert_all result (wk_entities batch)\<rparr>))"

section \<open>Applying and committing\<close>

fun apply_block_entities :: "('d, 'e) apply_fn \<Rightarrow> 'e entity_map \<Rightarrow> 'd work_deltas \<Rightarrow> ('e entity_map \<times> 'd work_deltas) option" where
  "apply_block_entities apply_d [] ds = Some ([], ds)"
| "apply_block_entities apply_d ((k, e) # es) ds =
     (case map_of ds k of
        None \<Rightarrow> do {(es', ds') \<leftarrow> apply_block_entities apply_d es ds; Some ((k, e) # es', ds')}
      | Some to_apply \<Rightarrow> do {
          (g, e') \<leftarrow> apply_group apply_d to_apply e;
          (es', ds') \<leftarrow> apply_block_entities apply_d es (AList.update k g ds);
          Some ((k, e') # es', ds')
        })"

fun apply_blocks :: "('d, 'e) apply_fn \<Rightarrow> 'e entity_map \<Rightarrow> 'd work_block list \<Rightarrow> ('e entity_map \<times> 'd work_block list) option" where
  "apply_blocks apply_d es [] = Some (es, [])"
| "apply_blocks apply_d es (w # ws) = do {
     (es1, ds) \<leftarrow> apply_block_entities apply_d es (wb_deltas w);
     (es2, ws') \<leftarrow> apply_blocks apply_d es1 ws;
     Some (es2, w\<lparr>wb_deltas := ds\<rparr> # ws')
   }"

definition apply_entities :: "('d, 'e) apply_fn \<Rightarrow> ('d, 'e) work_batch \<Rightarrow> ('d, 'e) work_batch option" where
  "apply_entities apply_d batch = do {
     (es, ws) \<leftarrow> apply_blocks apply_d (wk_entities batch) (wk_blocks batch);
     Some (batch\<lparr>wk_entities := es, wk_blocks := ws, wk_applied := True\<rparr>)
   }"

definition block_entry :: "(txo_ref \<times> era_cbor) list \<Rightarrow> 'd work_block \<Rightarrow> 'd log_entry" where
  "block_entry utxos w = (wb_point w, \<lparr>lv_block = wb_raw w, lv_delta = concat (map snd (wb_deltas w)), lv_inputs = utxos\<rparr>)"

definition commit_wal :: "build \<Rightarrow> ('d \<Rightarrow> 'd) \<Rightarrow> ('d, 'e) work_batch \<Rightarrow> 'd wal \<Rightarrow> 'd wal option" where
  "commit_wal b stored batch w = do {
     _ \<leftarrow> assert_that (overflow_checks b \<longrightarrow> wk_is_sorted batch);
     _ \<leftarrow> assert_that (overflow_checks b \<longrightarrow> wk_applied batch);
     Some (append_entries stored (map (block_entry (wk_utxos batch)) (wk_blocks batch)) w)
   }"

definition state_ops :: "('e \<Rightarrow> namespace) \<Rightarrow> ('d, 'e) work_batch \<Rightarrow> 'e op list" where
  "state_ops ns_of batch =
     fold (\<lambda>w ops. case wb_utxo_delta w of None \<Rightarrow> ops | Some delta \<Rightarrow> apply_utxoset delta ops) (wk_blocks batch)
       (map (\<lambda>(k, e). save_op ns_of k e) (wk_entities batch))"

definition commit_state :: "('e \<Rightarrow> namespace) \<Rightarrow> ('d, 'e) work_batch \<Rightarrow> 'e tables \<Rightarrow> 'e tables option" where
  "commit_state ns_of batch t = do {
     tip \<leftarrow> last_point batch;
     Some (commit (set_cursor tip (state_ops ns_of batch)) t)
   }"

section \<open>The work unit\<close>

text \<open>An empty batch panics when \<^verbatim>\<open>compute_delta\<close> asks for its first slot.\<close>

definition roll_load :: "build \<Rightarrow> ('d \<Rightarrow> ns_key) \<Rightarrow> ('c \<Rightarrow> block_view \<Rightarrow> (txo_ref \<times> era_cbor) list \<Rightarrow> chain_error + 'd list \<times> 'c)
    \<Rightarrow> (era_cbor \<Rightarrow> bool) \<Rightarrow> 'c \<Rightarrow> 'e tables \<Rightarrow> ('d, 'e) work_batch \<Rightarrow> (chain_error + ('d, 'e) work_batch) option" where
  "roll_load b key visit decodes c t batch =
     (let batch = sort_by_slot batch in do {
        links \<leftarrow> batch_check_continuity b (read_cursor t) batch;
        (case links of
           Inl err \<Rightarrow> Some (Inl (ConsensusFailure err))
         | Inr _ \<Rightarrow>
             (case decode_utxos decodes (load_utxos t batch) of
                Inl err \<Rightarrow> Some (Inl err)
              | Inr batch \<Rightarrow> do {
                  _ \<leftarrow> last_point batch;
                  (case compute_delta key visit (wk_utxos_decoded batch) c (wk_blocks batch) of
                     Inl err \<Rightarrow> Some (Inl err)
                   | Inr ws \<Rightarrow>
                       (case load_entities (table_reader (entity_view t)) (batch\<lparr>wk_blocks := ws\<rparr>) of
                          Inl err \<Rightarrow> Some (Inl (ChainStateError err))
                        | Inr batch \<Rightarrow> Some (Inr batch)))
                }))
      })"

definition roll_compute :: "('d, 'e) apply_fn \<Rightarrow> ('d, 'e) work_batch \<Rightarrow> ('d, 'e) work_batch option" where
  "roll_compute apply_d batch = apply_entities apply_d (sort_by_slot batch)"

section \<open>Groups of deltas on the map of entities\<close>

text \<open>Groups in the order of their hash map: each is run on the entity of its key.\<close>

fun run_groups :: "('d, 'e) apply_fn \<Rightarrow> 'e entity_table \<Rightarrow> 'd work_deltas \<Rightarrow> ('e entity_table \<times> 'd work_deltas) option" where
  "run_groups apply_d V [] = Some (V, [])"
| "run_groups apply_d V ((k, g) # ds) = do {
     (g', e) \<leftarrow> apply_group apply_d g (V k);
     (V', ds') \<leftarrow> run_groups apply_d (V(k := e)) ds;
     Some (V', (k, g') # ds')
   }"

definition groups_ok :: "('d \<Rightarrow> ns_key) \<Rightarrow> 'd work_deltas \<Rightarrow> bool" where
  "groups_ok key ds \<longleftrightarrow> distinct (map fst ds) \<and> (\<forall>(k, g) \<in> set ds. \<forall>d \<in> set g. key d = k)"

lemma groups_ok_Nil [simp]: "groups_ok key []"
  by (simp add: groups_ok_def)

lemma groups_ok_add: "groups_ok key ds \<Longrightarrow> groups_ok key (add_for_entity key d ds)"
proof -
  assume ok: "groups_ok key ds"
  let ?g = "(case map_of ds (key d) of None \<Rightarrow> [] | Some g \<Rightarrow> g) @ [d]"
  have "\<forall>x \<in> set ?g. key x = key d"
    using ok by (auto simp: groups_ok_def split: option.splits dest!: map_of_SomeD)
  moreover have "distinct (map fst (AList.update (key d) ?g ds))" using ok by (simp add: groups_ok_def distinct_update)
  moreover have "(k, g) \<in> set (AList.update (key d) ?g ds) \<Longrightarrow> (k, g) \<in> set ds \<or> k = key d \<and> g = ?g" for k g
    by (induction ds) (auto split: if_splits)
  ultimately show ?thesis using ok unfolding groups_ok_def add_for_entity_def by blast
qed

lemma groups_ok_fold: "groups_ok key ds \<Longrightarrow> groups_ok key (fold (add_for_entity key) xs ds)"
  by (induction xs arbitrary: ds) (simp_all add: groups_ok_add)

lemma run_view_group:
  assumes "\<forall>d \<in> set g. key d = k"
  shows "run_view key apply_d V g = map_option (\<lambda>(g', e). (V(k := e), g')) (apply_group apply_d g (V k))"
  using assms
proof (induction g arbitrary: V)
  case (Cons d g)
  show ?case
  proof (cases "apply_d d (V k)")
    case (Some r)
    obtain d' e where r: "r = (d', e)" by (cases r)
    have "\<forall>d \<in> set g. key d = k" using Cons.prems by simp
    from Cons.IH [OF this, of "V(k := e)"]
    have IH: "run_view key apply_d (V(k := e)) g = map_option (\<lambda>(g', e'). (V(k := e'), g')) (apply_group apply_d g e)"
      by (simp only: fun_upd_same fun_upd_upd)
    show ?thesis using Cons.prems by (cases "apply_group apply_d g e") (auto simp: Some r IH [unfolded fun_upd_def] fun_upd_def)
  qed (use Cons.prems in simp)
qed simp

text \<open>Running the groups is running the deltas as the log lists them.\<close>

lemma run_view_groups:
  assumes "groups_ok key ds"
  shows "run_view key apply_d V (concat (map snd ds)) =
    map_option (\<lambda>(V', ds'). (V', concat (map snd ds'))) (run_groups apply_d V ds)"
  using assms
proof (induction ds arbitrary: V)
  case (Cons x ds)
  obtain k g where x: "x = (k, g)" by (cases x)
  have g: "\<forall>d \<in> set g. key d = k" and ds: "groups_ok key ds" using Cons.prems by (auto simp: groups_ok_def x)
  show ?case
  proof (cases "apply_group apply_d g (V k)")
    case None
    then show ?thesis by (simp add: x run_view_append run_view_group [OF g])
  next
    case (Some r)
    obtain g' e where r: "r = (g', e)" by (cases r)
    note IH = Cons.IH [OF ds, of "V(k := e)"]
    show ?thesis
      by (cases "run_groups apply_d (V(k := e)) ds") (auto simp: x r Some IH [unfolded fun_upd_def] run_view_append run_view_group [OF g] fun_upd_def)
  qed
qed simp

text \<open>The groups are independent: their results are determined key by key.\<close>

lemma run_groups_pointwise:
  assumes "distinct (map fst ds)" and "\<And>k g. (k, g) \<in> set ds \<Longrightarrow> apply_group apply_d g (V k) = Some (G k, E k)"
  shows "run_groups apply_d V ds = Some (\<lambda>k. if k \<in> fst ` set ds then E k else V k, map (\<lambda>(k, _). (k, G k)) ds)"
  using assms
proof (induction ds arbitrary: V)
  case (Cons x ds)
  obtain k g where x: "x = (k, g)" by (cases x)
  have "run_groups apply_d (V(k := E k)) ds =
      Some (\<lambda>j. if j \<in> fst ` set ds then E j else (V(k := E k)) j, map (\<lambda>(k, _). (k, G k)) ds)"
    using Cons.prems x by (intro Cons.IH) force+
  moreover have "apply_group apply_d g (V k) = Some (G k, E k)" using Cons.prems(2) x by simp
  ultimately show ?case by (auto simp: x fun_eq_iff)
qed (simp add: fun_eq_iff)

text \<open>What the loop over the loaded entities does, key by key, whatever the two orders are.\<close>

fun key_result :: "('d, 'e) apply_fn \<Rightarrow> 'e option option \<Rightarrow> 'd list option \<Rightarrow> 'e option option \<Rightarrow> 'd list option \<Rightarrow> bool" where
  "key_result f None g e' g' = (e' = None \<and> g' = g)"
| "key_result f (Some e) None e' g' = (e' = Some e \<and> g' = None)"
| "key_result f (Some e) (Some g) e' g' = (case apply_group f g e of None \<Rightarrow> False | Some (x, y) \<Rightarrow> e' = Some y \<and> g' = Some x)"

definition block_results :: "('d, 'e) apply_fn \<Rightarrow> 'e entity_map \<Rightarrow> 'd work_deltas \<Rightarrow> 'e entity_map \<Rightarrow> 'd work_deltas \<Rightarrow> bool" where
  "block_results f es ds es' ds' \<longleftrightarrow> map fst es' = map fst es \<and> map fst ds' = map fst ds \<and>
     (\<forall>k. key_result f (map_of es k) (map_of ds k) (map_of es' k) (map_of ds' k))"

lemma block_resultsD:
  assumes "block_results f es ds es' ds'"
  shows "map fst es' = map fst es" and "map fst ds' = map fst ds"
    and "key_result f (map_of es k) (map_of ds k) (map_of es' k) (map_of ds' k)"
  using assms by (simp_all add: block_results_def)

lemma map_of_None_keys: "map fst xs = map fst ys \<Longrightarrow> map_of xs k = None \<longleftrightarrow> map_of ys k = None"
  by (metis map_of_eq_None_iff list.set_map)

lemma block_results_skip:
  assumes "block_results f es ds es1 ds'" and "map_of ds j = None"
  shows "block_results f ((j, a) # es) ds ((j, a) # es1) ds'"
  unfolding block_results_def
proof (intro conjI allI)
  note D = block_resultsD [OF assms(1)]
  show "map fst ((j, a) # es1) = map fst ((j, a) # es)" "map fst ds' = map fst ds" using D(1,2) by simp_all
  fix k
  show "key_result f (map_of ((j, a) # es) k) (map_of ds k) (map_of ((j, a) # es1) k) (map_of ds' k)"
    using D(3) [of k] assms(2) map_of_None_keys [OF D(2), of k] by (cases "k = j") simp_all
qed

lemma block_results_run:
  assumes "block_results f es (AList.update j g1 ds) es1 ds'" and "map_of ds j = Some g" and "map_of es j = None"
    and "apply_group f g a = Some (g1, a1)"
  shows "block_results f ((j, a) # es) ds ((j, a1) # es1) ds'"
  unfolding block_results_def
proof (intro conjI allI)
  note D = block_resultsD [OF assms(1)]
  have "map fst (AList.update j g1 ds) = map fst ds"
    using map_of_SomeD [OF assms(2)] by (force simp: update_keys)
  with D(1,2) show "map fst ((j, a1) # es1) = map fst ((j, a) # es)" "map fst ds' = map fst ds" by simp_all
  fix k
  show "key_result f (map_of ((j, a) # es) k) (map_of ds k) (map_of ((j, a1) # es1) k) (map_of ds' k)"
    using D(3) [of k] assms(2-4) by (cases "k = j") simp_all
qed

lemma apply_block_entities_results:
  assumes "apply_block_entities f es ds = Some (es', ds')" and "distinct (map fst es)"
  shows "block_results f es ds es' ds'"
  using assms
proof (induction es arbitrary: ds es')
  case Nil
  then show ?case by (auto simp: block_results_def)
next
  case (Cons x es)
  obtain j a where x: "x = (j, a)" by (cases x)
  have dist: "distinct (map fst es)" and j: "map_of es j = None"
    using Cons.prems(2) by (auto simp: x map_of_eq_None_iff)
  show ?case
  proof (cases "map_of ds j")
    case None
    with Cons.prems(1) obtain es1 where "apply_block_entities f es ds = Some (es1, ds')" "es' = (j, a) # es1"
      by (auto simp: x panic_simps)
    with Cons.IH [OF _ dist] None show ?thesis by (simp add: x block_results_skip)
  next
    case (Some g)
    with Cons.prems(1) obtain g1 a1 es1 where "apply_group f g a = Some (g1, a1)"
        "apply_block_entities f es (AList.update j g1 ds) = Some (es1, ds')" "es' = (j, a1) # es1"
      by (auto simp: x panic_simps)
    with block_results_run [OF Cons.IH [OF _ dist] Some j] show ?thesis by (simp add: x)
  qed
qed

text \<open>Applying a block to the loaded entities runs its deltas, as the log lists them, on the map.\<close>

lemma apply_block_view:
  assumes "apply_block_entities f es ds = Some (es', ds')" and "cache_ok es" and "groups_ok key ds"
    and "fst ` set ds \<subseteq> dom (map_of es)"
  shows "run_view key f (overlay es store) (concat (map snd ds)) = Some (overlay es' store, concat (map snd ds'))"
    and "cache_ok es'" and "dom (map_of es') = dom (map_of es)" and "map fst ds' = map fst ds"
proof -
  let ?V = "overlay es store"
  have dist: "distinct (map fst es)" using assms(2) by (simp add: cache_ok_def)
  note res = block_resultsD [OF apply_block_entities_results [OF assms(1) dist]]
  define G where "G k = the (map_of ds' k)" for k
  define E where "E k = the (map_of es' k)" for k
  have group: "map_of es' k = Some (E k) \<and> map_of ds' k = Some (G k) \<and> apply_group f g (?V k) = Some (G k, E k)"
    if "(k, g) \<in> set ds" for k g
  proof -
    have ds_k: "map_of ds k = Some g" using that assms(3) by (simp add: groups_ok_def)
    from that assms(4) obtain e where e: "map_of es k = Some e" by force
    with res(3) [of k] ds_k show ?thesis
      using overlay_tracked [OF e, of store] by (auto simp: G_def E_def split: option.splits)
  qed
  show keys: "map fst ds' = map fst ds" by (rule res(2))
  show "cache_ok es'" using res(1) dist by (simp add: cache_ok_def)
  show dom: "dom (map_of es') = dom (map_of es)"
    using res(1) by (metis dom_map_of_conv_image_fst list.set_map)
  have "run_groups f ?V ds = Some (\<lambda>k. if k \<in> fst ` set ds then E k else ?V k, map (\<lambda>(k, _). (k, G k)) ds)"
    using assms(3) group by (intro run_groups_pointwise) (auto simp: groups_ok_def)
  moreover have "(\<lambda>k. if k \<in> fst ` set ds then E k else ?V k) = overlay es' store"
  proof
    fix k
    show "(if k \<in> fst ` set ds then E k else ?V k) = overlay es' store k"
    proof (cases "k \<in> fst ` set ds")
      case True
      then obtain g where "(k, g) \<in> set ds" by auto
      with True group show ?thesis by (simp add: overlay_def)
    next
      case False
      then have "map_of ds k = None" by (simp add: map_of_eq_None_iff)
      then have "map_of es' k = map_of es k" using res(3) [of k] by (cases "map_of es k") simp_all
      with False show ?thesis by (simp add: overlay_def)
    qed
  qed
  moreover have "map (\<lambda>(k, _). (k, G k)) ds = ds'"
  proof (rule nth_equalityI)
    show "length (map (\<lambda>(k, _). (k, G k)) ds) = length ds'" using arg_cong [OF keys, of length] by simp
    fix i assume "i < length (map (\<lambda>(k, _). (k, G k)) ds)"
    then have i: "i < length ds" "i < length ds'" using arg_cong [OF keys, of length] by simp_all
    have fst_eq: "fst (ds' ! i) = fst (ds ! i)" using arg_cong [OF keys, of "\<lambda>l. l ! i"] i by simp
    have "distinct (map fst ds')" using keys assms(3) by (simp add: groups_ok_def)
    then have "map_of ds' (fst (ds' ! i)) = Some (snd (ds' ! i))" using i by (simp add: map_of_is_SomeI)
    then show "map (\<lambda>(k, _). (k, G k)) ds ! i = ds' ! i"
      using i fst_eq by (cases "ds ! i"; cases "ds' ! i") (simp add: G_def)
  qed
  ultimately show "run_view key f ?V (concat (map snd ds)) = Some (overlay es' store, concat (map snd ds'))"
    by (simp add: run_view_groups [OF assms(3)])
qed

section \<open>A batch on the map of entities\<close>

abbreviation listed :: "'d work_block \<Rightarrow> 'd list" where
  "listed w \<equiv> concat (map snd (wb_deltas w))"

fun roll_view :: "('d \<Rightarrow> ns_key) \<Rightarrow> ('d, 'e) apply_fn \<Rightarrow> 'e entity_table \<Rightarrow> 'd list list
    \<Rightarrow> ('e entity_table \<times> 'd list list) option" where
  "roll_view key apply_d V [] = Some (V, [])"
| "roll_view key apply_d V (ds # dss) = do {
     (V1, ds') \<leftarrow> run_view key apply_d V ds;
     (V2, dss') \<leftarrow> roll_view key apply_d V1 dss;
     Some (V2, ds' # dss')
   }"

definition same_blocks :: "'d work_block list \<Rightarrow> 'd work_block list \<Rightarrow> bool" where
  "same_blocks ws ws' \<longleftrightarrow> map wb_raw ws' = map wb_raw ws \<and> map wb_block ws' = map wb_block ws \<and>
     map wb_utxo_delta ws' = map wb_utxo_delta ws"

lemma apply_blocks_view:
  assumes "apply_blocks f es ws = Some (es', ws')" and "cache_ok es"
    and "\<forall>w \<in> set ws. groups_ok key (wb_deltas w) \<and> fst ` set (wb_deltas w) \<subseteq> dom (map_of es)"
  shows "roll_view key f (overlay es store) (map listed ws) = Some (overlay es' store, map listed ws')
    \<and> cache_ok es' \<and> same_blocks ws ws'"
  using assms
proof (induction ws arbitrary: es ws')
  case (Cons w ws)
  from Cons.prems(1) obtain es1 ds ws1 where
      block: "apply_block_entities f es (wb_deltas w) = Some (es1, ds)"
      and rest: "apply_blocks f es1 ws = Some (es', ws1)" and ws': "ws' = w\<lparr>wb_deltas := ds\<rparr> # ws1"
    by (auto simp: panic_simps)
  have w: "groups_ok key (wb_deltas w)" "fst ` set (wb_deltas w) \<subseteq> dom (map_of es)" using Cons.prems(3) by simp_all
  note view = apply_block_view(1) [OF block Cons.prems(2) w, of store] apply_block_view(2-4) [OF block Cons.prems(2) w]
  have "roll_view key f (overlay es1 store) (map listed ws) = Some (overlay es' store, map listed ws1)
      \<and> cache_ok es' \<and> same_blocks ws ws1"
    using Cons.IH [OF rest view(2)] Cons.prems(3) view(3) by simp
  then show ?case using view(1) by (simp add: ws' same_blocks_def)
qed (simp add: same_blocks_def)

lemma concat_chunks: "0 < n \<Longrightarrow> concat (chunks n xs) = xs"
  by (induction n xs rule: chunks.induct) simp_all

lemma load_chunks_table:
  obtains m where "load_chunks (table_reader store) cs acc = Inr m"
    and "\<And>k. map_of m k = (if k \<in> set (concat cs) then Some (store k) else map_of acc k)"
    and "cache_ok acc \<Longrightarrow> cache_ok m"
proof (induction cs arbitrary: acc thesis)
  case Nil
  then show ?case by simp
next
  case (Cons c cs)
  obtain l where l: "load_entity_chunk (table_reader store) c [] = Inr l"
      "\<And>k. map_of l k = (if k \<in> set c then Some (store k) else map_of [] k)" "distinct (map fst l)"
    using load_entity_chunk_table [of store c "[]"] by auto
  have ins: "map_of (insert_all l acc) k = (if k \<in> set c then Some (store k) else map_of acc k)" for k
    unfolding insert_all_def map_of_fold_update map_of_rev_distinct [OF l(3)] l(2) by simp
  obtain m where "load_chunks (table_reader store) cs (insert_all l acc) = Inr m"
      "\<And>k. map_of m k = (if k \<in> set (concat cs) then Some (store k) else map_of (insert_all l acc) k)"
      "cache_ok (insert_all l acc) \<Longrightarrow> cache_ok m"
    using Cons.IH by blast
  then show ?case
    using l(1) ins by (intro Cons.prems [of m]) (auto simp: cache_ok_def distinct_insert_all)
qed

text \<open>Loading into an empty batch: every entity a delta needs is tracked, and nothing else changes.\<close>

lemma load_entities_table:
  assumes "wk_entities batch = []"
  obtains es where "load_entities (table_reader store) batch = Inr (batch\<lparr>wk_entities := es\<rparr>)"
    and "overlay es store = store" and "cache_ok es"
    and "\<And>w. w \<in> set (wk_blocks batch) \<Longrightarrow> fst ` set (wb_deltas w) \<subseteq> dom (map_of es)"
proof -
  let ?keys = "sort (remdups (concat (map (\<lambda>w. map fst (wb_deltas w)) (wk_blocks batch))))"
  obtain m where m: "load_chunks (table_reader store) (chunks load_chunk_size ?keys) [] = Inr m"
      "\<And>k. map_of m k = (if k \<in> set (concat (chunks load_chunk_size ?keys)) then Some (store k) else map_of [] k)"
      "cache_ok m"
    using load_chunks_table [of store "chunks load_chunk_size ?keys" "[]"] by auto
  have keys: "set (concat (chunks load_chunk_size ?keys)) = (\<Union>w \<in> set (wk_blocks batch). fst ` set (wb_deltas w))"
    by (simp add: concat_chunks load_chunk_size_def)
  let ?es = "insert_all m []"
  have es: "map_of ?es = map_of m"
    using m(3) by (auto simp: fun_eq_iff insert_all_def map_of_fold_update map_of_rev_distinct cache_ok_def split: option.splits)
  show thesis
  proof (rule that)
    show "load_entities (table_reader store) batch = Inr (batch\<lparr>wk_entities := ?es\<rparr>)"
      using m(1) assms by (simp add: load_entities_def)
    show "overlay ?es store = store" by (simp add: overlay_def fun_eq_iff es m(2))
    show "cache_ok ?es" by (simp add: cache_ok_def distinct_insert_all)
    show "fst ` set (wb_deltas w) \<subseteq> dom (map_of ?es)" if "w \<in> set (wk_blocks batch)" for w
    proof
      fix k assume "k \<in> fst ` set (wb_deltas w)"
      with that have "k \<in> set (concat (chunks load_chunk_size ?keys))" unfolding keys by (rule UN_I)
      with m(2) [of k] show "k \<in> dom (map_of ?es)" by (simp add: es domIff)
    qed
  qed
qed

section \<open>What a batch commits\<close>

lemma commit_save_ops:
  "entity_view (commit (map (\<lambda>(k, e). save_op ns_of k e) es) t) = save_entities ns_of es (entity_view t)"
  "utxo_view (commit (map (\<lambda>(k, e). save_op ns_of k e) es) t) = utxo_view t"
  "t_cursor (commit (map (\<lambda>(k, e). save_op ns_of k e) es) t) = t_cursor t"
proof -
  have step: "entity_view (commit_op (save_op ns_of k e) t) = save_entity_typed ns_of k e (entity_view t)"
      "utxo_view (commit_op (save_op ns_of k e) t) = utxo_view t" "t_cursor (commit_op (save_op ns_of k e) t) = t_cursor t"
    for k e t
    by (cases k; cases e; simp)+
  show "entity_view (commit (map (\<lambda>(k, e). save_op ns_of k e) es) t) = save_entities ns_of es (entity_view t)"
    "utxo_view (commit (map (\<lambda>(k, e). save_op ns_of k e) es) t) = utxo_view t"
    "t_cursor (commit (map (\<lambda>(k, e). save_op ns_of k e) es) t) = t_cursor t"
    by (induction es arbitrary: t) (auto simp: step save_entities_def)
qed

definition block_utxos :: "'d work_block \<Rightarrow> (txo_ref \<rightharpoonup> era_cbor) \<Rightarrow> (txo_ref \<rightharpoonup> era_cbor)" where
  "block_utxos w u = (case wb_utxo_delta w of None \<Rightarrow> u | Some d \<Rightarrow> utxo_apply d u)"

lemma commit_utxosets:
  "entity_view (commit (fold (\<lambda>w ops. case wb_utxo_delta w of None \<Rightarrow> ops | Some d \<Rightarrow> apply_utxoset d ops) ws ops) t)
     = entity_view (commit ops t)"
  "utxo_view (commit (fold (\<lambda>w ops. case wb_utxo_delta w of None \<Rightarrow> ops | Some d \<Rightarrow> apply_utxoset d ops) ws ops) t)
     = fold block_utxos ws (utxo_view (commit ops t))"
  by (induction ws arbitrary: ops) (simp_all add: commit_apply_utxoset block_utxos_def split: option.splits)

lemma commit_state_views:
  assumes "commit_state ns_of batch t = Some t'" and "cache_ok (wk_entities batch)"
    and "typed_table ns_of (overlay (wk_entities batch) (entity_view t))"
  shows "entity_view t' = overlay (wk_entities batch) (entity_view t)"
    and "utxo_view t' = fold block_utxos (wk_blocks batch) (utxo_view t)"
    and "t_cursor t' = last_point batch"
proof -
  from assms(1) obtain tip where tip: "last_point batch = Some tip"
      and t': "t' = commit (set_cursor tip (state_ops ns_of batch)) t"
    by (auto simp: commit_state_def panic_simps)
  show "entity_view t' = overlay (wk_entities batch) (entity_view t)"
    by (simp add: t' set_cursor_def commit_append state_ops_def commit_utxosets commit_save_ops
        save_overlay [OF assms(2,3)])
  show "utxo_view t' = fold block_utxos (wk_blocks batch) (utxo_view t)"
    by (simp add: t' set_cursor_def commit_append state_ops_def commit_utxosets commit_save_ops)
  show "t_cursor t' = last_point batch" by (simp add: t' set_cursor_def commit_append tip)
qed

lemma sort_key_sorted: "sorted (map f xs) \<Longrightarrow> sort_key f xs = xs"
  by (induction xs) (simp_all add: insort_is_Cons)

lemma compute_delta_blocks:
  assumes "compute_delta key visit utxos c ws = Inr ws'"
  shows "map wb_raw ws' = map wb_raw ws \<and> map wb_block ws' = map wb_block ws \<and>
    (\<forall>w \<in> set ws'. groups_ok key (wb_deltas w) \<and> (\<exists>d. compute_apply_delta (wb_block w) utxos = Inr d \<and> wb_utxo_delta w = Some d))"
  using assms
proof (induction ws arbitrary: c ws')
  case (Cons w ws)
  from Cons.prems(1) obtain ds c1 d ws1 where
      d: "compute_apply_delta (wb_block w) utxos = Inr d" and rest: "compute_delta key visit utxos c1 ws = Inr ws1"
      and ws': "ws' = w\<lparr>wb_deltas := fold (add_for_entity key) ds [], wb_utxo_delta := Some d\<rparr> # ws1"
    by (auto simp: Let_def split: sum.splits prod.splits)
  from Cons.IH [OF rest] d show ?case by (simp add: ws' groups_ok_fold)
qed simp

text \<open>The batch as the loading leaves it, ready to be applied.\<close>

definition loaded_batch :: "('d \<Rightarrow> ns_key) \<Rightarrow> 'e entity_table \<Rightarrow> ('d, 'e) work_batch \<Rightarrow> bool" where
  "loaded_batch key store batch \<longleftrightarrow>
     sorted (map wb_slot (wk_blocks batch)) \<and> cache_ok (wk_entities batch) \<and>
     overlay (wk_entities batch) store = store \<and> wk_utxos_decoded batch = wk_utxos batch \<and>
     (\<forall>w \<in> set (wk_blocks batch). groups_ok key (wb_deltas w) \<and> fst ` set (wb_deltas w) \<subseteq> dom (map_of (wk_entities batch)) \<and>
        (\<exists>d. compute_apply_delta (wb_block w) (wk_utxos batch) = Inr d \<and> wb_utxo_delta w = Some d))"

lemma roll_load_ready:
  assumes "roll_load b key visit decodes c t batch = Some (Inr batch')"
    and "wk_entities batch = []"
  shows "loaded_batch key (entity_view t) batch'"
    and "check_links (case t_cursor t of None \<Rightarrow> Origin | Some p \<Rightarrow> p) (map wb_block (wk_blocks batch')) = Inr ()"
    and "list_all (decodes \<circ> snd) (wk_utxos batch')"
    and "wk_utxos batch' = wk_utxos (load_utxos t (sort_by_slot batch))"
    and "map wb_raw (wk_blocks batch') = map wb_raw (wk_blocks (sort_by_slot batch))"
    and "map wb_block (wk_blocks batch') = map wb_block (wk_blocks (sort_by_slot batch))"
proof -
  define ws where "ws = sort_key wb_slot (wk_blocks batch)"
  define batch1 where "batch1 = load_utxos t (sort_by_slot batch)"
  have batch1: "wk_blocks batch1 = ws" "wk_entities batch1 = []"
    using assms(2) by (simp_all add: batch1_def load_utxos_def sort_by_slot_def ws_def split: prod.splits)
  from assms(1) have links: "check_links (case t_cursor t of None \<Rightarrow> Origin | Some p \<Rightarrow> p) (map wb_block ws) = Inr ()"
    by (auto simp: roll_load_def Let_def batch_check_continuity_def panic_simps sort_by_slot_def read_cursor_def ws_def
        split: sum.splits)
  from assms(1) have dec: "list_all (decodes \<circ> snd) (wk_utxos batch1)"
    using links by (auto simp: roll_load_def Let_def batch_check_continuity_def panic_simps decode_utxos_def batch1_def
        sort_by_slot_def [of batch] read_cursor_def ws_def [symmetric] split: if_splits)
  from assms(1) links dec obtain ws' where
      ws': "compute_delta key visit (wk_utxos batch1) c ws = Inr ws'"
      and load: "load_entities (table_reader (entity_view t))
        (batch1\<lparr>wk_utxos_decoded := wk_utxos batch1, wk_blocks := ws'\<rparr>) = Inr batch'"
    by (auto simp: roll_load_def Let_def panic_simps batch_check_continuity_def decode_utxos_def batch1_def [symmetric] batch1
        split: sum.splits)
  obtain es where es: "batch' = batch1\<lparr>wk_utxos_decoded := wk_utxos batch1, wk_blocks := ws', wk_entities := es\<rparr>"
      "overlay es (entity_view t) = entity_view t" "cache_ok es"
      "\<And>w. w \<in> set ws' \<Longrightarrow> fst ` set (wb_deltas w) \<subseteq> dom (map_of es)"
    using load_entities_table [of "batch1\<lparr>wk_utxos_decoded := wk_utxos batch1, wk_blocks := ws'\<rparr>" "entity_view t"] load batch1
    by auto
  note blocks = compute_delta_blocks [OF ws']
  have "map wb_slot xs = map bv_slot (map wb_block xs)" for xs :: "'a work_block list"
    by (simp add: wb_slot_def)
  then have slots: "map wb_slot ws' = map wb_slot ws" using blocks by metis
  show "loaded_batch key (entity_view t) batch'"
    using es blocks slots by (simp add: loaded_batch_def ws_def)
  show "check_links (case t_cursor t of None \<Rightarrow> Origin | Some p \<Rightarrow> p) (map wb_block (wk_blocks batch')) = Inr ()"
    using links blocks es(1) by simp
  show "list_all (decodes \<circ> snd) (wk_utxos batch')" using dec es(1) by simp
  show "wk_utxos batch' = wk_utxos (load_utxos t (sort_by_slot batch))" by (simp add: es(1) batch1_def)
  show "map wb_raw (wk_blocks batch') = map wb_raw (wk_blocks (sort_by_slot batch))"
    "map wb_block (wk_blocks batch') = map wb_block (wk_blocks (sort_by_slot batch))"
    using blocks by (simp_all add: es(1) sort_by_slot_def ws_def)
qed

end
