(* ===== verification/Memory_Index.thy ===== *)
theory Memory_Index
  imports Chain_Point Ordered_Table "HOL-Library.Char_ord" "HOL-Library.Product_Lexorder"
begin

text \<open>
  The in-memory index store (\<^verbatim>\<open>crates/core/src/builtin/memory/index.rs\<close>) and the deltas it
  takes (\<^verbatim>\<open>crates/core/src/indexes.rs\<close>): the tags of live outputs, the slots a tag occurs in,
  and the exact lookups of blocks and transactions. The hash function of the keys is an argument;
  messages of errors are left out, and those of poisoned locks come from a panic of another thread.
\<close>

section \<open>Deltas and tables\<close>

type_synonym dimension = string

record tag =
  tag_dimension :: dimension
  tag_key :: bytes

record utxo_index_delta =
  uid_produced :: "(txo_ref \<times> tag list) list"
  uid_consumed :: "(txo_ref \<times> tag list) list"

record archive_index_delta =
  aid_slot :: block_slot
  aid_block_hash :: bytes
  aid_block_number :: "u64 option"
  aid_tx_hashes :: "bytes list"
  aid_tags :: "tag list"

record index_delta =
  id_cursor :: chain_point
  id_utxo :: utxo_index_delta
  id_archive :: "archive_index_delta list"

definition index_delta_default :: index_delta where
  "index_delta_default = \<lparr>id_cursor = Origin, id_utxo = \<lparr>uid_produced = [], uid_consumed = []\<rparr>, id_archive = []\<rparr>"

datatype index_error = DbError | CodecError | SchemaError | DimensionNotFound | IndexUnsupported

datatype exact_kind = BlockHash | BlockNumber | TxHash

fun kind_rank :: "exact_kind \<Rightarrow> nat" where
  "kind_rank BlockHash = 0"
| "kind_rank BlockNumber = 1"
| "kind_rank TxHash = 2"

text \<open>The derived order of the enumeration.\<close>

instantiation exact_kind :: linorder
begin

definition less_eq_exact_kind :: "exact_kind \<Rightarrow> exact_kind \<Rightarrow> bool" where
  "k \<le> l \<longleftrightarrow> kind_rank k \<le> kind_rank l"

definition less_exact_kind :: "exact_kind \<Rightarrow> exact_kind \<Rightarrow> bool" where
  "k < l \<longleftrightarrow> kind_rank k < kind_rank l"

instance
proof
  fix k l :: exact_kind
  assume "k \<le> l" "l \<le> k"
  then show "k = l" by (cases k; cases l) (simp_all add: less_eq_exact_kind_def)
qed (auto simp: less_eq_exact_kind_def less_exact_kind_def)

end

fun key_len :: "exact_kind \<Rightarrow> nat" where
  "key_len BlockNumber = 8"
| "key_len _ = 32"

definition max_exact_key_len :: nat where
  "max_exact_key_len = 32"

definition exact_key :: "exact_kind \<Rightarrow> bytes \<Rightarrow> bytes option" where
  "exact_key kind key =
     (if length key \<noteq> key_len kind then None
      else Some (key @ replicate (max_exact_key_len - length key) 0))"

definition verbatim_key_dimension :: dimension where
  "verbatim_key_dimension = ''metadata''"

definition key_hash :: "(bytes \<Rightarrow> u64) \<Rightarrow> dimension \<Rightarrow> bytes \<Rightarrow> bytes option" where
  "key_hash xxh3_64 dim key =
     (if dim = verbatim_key_dimension then (if length key = 8 then Some key else None)
      else Some (word_bytes (xxh3_64 key)))"

type_synonym archive_tag = "dimension \<times> bytes \<times> block_slot"

record index_tables =
  it_cursor :: "chain_point option"
  it_utxo_tags :: "(dimension \<times> bytes, txo_ref set) table"
  it_archive_tags :: "(archive_tag, unit) table"
  it_exact :: "(exact_kind \<times> bytes, block_slot) table"

datatype index_op =
    ISetCursor chain_point
  | InsertUtxoTag dimension bytes txo_ref
  | RemoveUtxoTag dimension bytes txo_ref
  | InsertArchiveTag archive_tag
  | RemoveArchiveTag archive_tag
  | InsertExact exact_kind bytes block_slot
  | RemoveExact exact_kind bytes

section \<open>The writer\<close>

definition archive_tags_of :: "(bytes \<Rightarrow> u64) \<Rightarrow> archive_index_delta \<Rightarrow> archive_tag list" where
  "archive_tags_of xxh3_64 block =
     List.map_filter (\<lambda>tag. map_option (\<lambda>hash. (tag_dimension tag, hash, aid_slot block))
         (key_hash xxh3_64 (tag_dimension tag) (tag_key tag))) (aid_tags block)"

definition exact_keys_of :: "archive_index_delta \<Rightarrow> (index_error + exact_kind \<times> bytes) list" where
  "exact_keys_of block =
     (let hash = (if aid_block_hash block = [] then [] else [(BlockHash, aid_block_hash block)]);
          txs = map (\<lambda>h. (TxHash, h)) (aid_tx_hashes block);
          hashes = map (\<lambda>(kind, key). case exact_key kind key of
              Some k \<Rightarrow> Inr (kind, k) | None \<Rightarrow> Inl CodecError) (hash @ txs);
          number = (case aid_block_number block of
              None \<Rightarrow> []
            | Some n \<Rightarrow> [Inr (BlockNumber, the (exact_key BlockNumber (word_bytes n)))])
      in hashes @ number)"

text \<open>The first malformed key ends the call; the writer is then dropped by the caller.\<close>

fun push_exact :: "(exact_kind \<times> bytes \<Rightarrow> index_op) \<Rightarrow> (index_error + exact_kind \<times> bytes) list
    \<Rightarrow> index_op list \<Rightarrow> index_error + index_op list" where
  "push_exact f [] ops = Inr ops"
| "push_exact f (Inl err # es) ops = Inl err"
| "push_exact f (Inr e # es) ops = push_exact f es (ops @ [f e])"

fun push_blocks :: "(bytes \<Rightarrow> u64) \<Rightarrow> (block_slot \<Rightarrow> exact_kind \<times> bytes \<Rightarrow> index_op) \<Rightarrow> (archive_tag \<Rightarrow> index_op)
    \<Rightarrow> archive_index_delta list \<Rightarrow> index_op list \<Rightarrow> index_error + index_op list" where
  "push_blocks xxh3_64 f g [] ops = Inr ops"
| "push_blocks xxh3_64 f g (block # blocks) ops =
     (case push_exact (f (aid_slot block)) (exact_keys_of block) ops of
        Inl err \<Rightarrow> Inl err
      | Inr ops \<Rightarrow> push_blocks xxh3_64 f g blocks (ops @ map g (archive_tags_of xxh3_64 block)))"

definition tag_ops :: "(dimension \<Rightarrow> bytes \<Rightarrow> txo_ref \<Rightarrow> index_op) \<Rightarrow> (txo_ref \<times> tag list) list \<Rightarrow> index_op list" where
  "tag_ops f entries = concat (map (\<lambda>(txo, tags). map (\<lambda>tag. f (tag_dimension tag) (tag_key tag) txo) tags) entries)"

definition index_apply :: "(bytes \<Rightarrow> u64) \<Rightarrow> index_delta \<Rightarrow> index_op list \<Rightarrow> index_error + index_op list" where
  "index_apply xxh3_64 delta ops =
     (let ops = ops @ tag_ops InsertUtxoTag (uid_produced (id_utxo delta));
          ops = ops @ tag_ops RemoveUtxoTag (uid_consumed (id_utxo delta))
      in case push_blocks xxh3_64 (\<lambda>slot (kind, key). InsertExact kind key slot) InsertArchiveTag (id_archive delta) ops of
           Inl err \<Rightarrow> Inl err
         | Inr ops \<Rightarrow> Inr (ops @ [ISetCursor (id_cursor delta)]))"

definition index_undo :: "(bytes \<Rightarrow> u64) \<Rightarrow> index_delta \<Rightarrow> index_op list \<Rightarrow> index_error + index_op list" where
  "index_undo xxh3_64 delta ops =
     (let ops = ops @ tag_ops RemoveUtxoTag (uid_produced (id_utxo delta));
          ops = ops @ tag_ops InsertUtxoTag (uid_consumed (id_utxo delta))
      in push_blocks xxh3_64 (\<lambda>slot (kind, key). RemoveExact kind key) RemoveArchiveTag (rev (id_archive delta)) ops)"

fun index_commit_op :: "index_op \<Rightarrow> index_tables \<Rightarrow> index_tables" where
  "index_commit_op (ISetCursor cursor) t = t\<lparr>it_cursor := Some cursor\<rparr>"
| "index_commit_op (InsertUtxoTag dim key txo) t =
     t\<lparr>it_utxo_tags := tbl_insert (dim, key)
         (insert txo (case tbl_get (it_utxo_tags t) (dim, key) of None \<Rightarrow> {} | Some s \<Rightarrow> s)) (it_utxo_tags t)\<rparr>"
| "index_commit_op (RemoveUtxoTag dim key txo) t =
     (case tbl_get (it_utxo_tags t) (dim, key) of
        None \<Rightarrow> t
      | Some s \<Rightarrow>
          if s - {txo} = {} then t\<lparr>it_utxo_tags := tbl_remove (dim, key) (it_utxo_tags t)\<rparr>
          else t\<lparr>it_utxo_tags := tbl_insert (dim, key) (s - {txo}) (it_utxo_tags t)\<rparr>)"
| "index_commit_op (InsertArchiveTag tag) t = t\<lparr>it_archive_tags := tbl_insert tag () (it_archive_tags t)\<rparr>"
| "index_commit_op (RemoveArchiveTag tag) t = t\<lparr>it_archive_tags := tbl_remove tag (it_archive_tags t)\<rparr>"
| "index_commit_op (InsertExact kind key slot) t = t\<lparr>it_exact := tbl_insert (kind, key) slot (it_exact t)\<rparr>"
| "index_commit_op (RemoveExact kind key) t = t\<lparr>it_exact := tbl_remove (kind, key) (it_exact t)\<rparr>"

definition index_commit :: "index_op list \<Rightarrow> index_tables \<Rightarrow> index_tables" where
  "index_commit ops t = fold index_commit_op ops t"

section \<open>Reads\<close>

definition index_cursor :: "index_tables \<Rightarrow> chain_point option" where
  "index_cursor t = it_cursor t"

definition utxos_by_tag :: "index_tables \<Rightarrow> dimension \<Rightarrow> bytes \<Rightarrow> txo_ref set" where
  "utxos_by_tag t dim key = (case tbl_get (it_utxo_tags t) (dim, key) of None \<Rightarrow> {} | Some s \<Rightarrow> s)"

definition slot_by_block_hash :: "index_tables \<Rightarrow> bytes \<Rightarrow> block_slot option" where
  "slot_by_block_hash t hash =
     (case exact_key BlockHash hash of None \<Rightarrow> None | Some key \<Rightarrow> tbl_get (it_exact t) (BlockHash, key))"

definition slot_by_block_number :: "index_tables \<Rightarrow> u64 \<Rightarrow> block_slot option" where
  "slot_by_block_number t number = tbl_get (it_exact t) (BlockNumber, the (exact_key BlockNumber (word_bytes number)))"

definition slot_by_tx_hash :: "index_tables \<Rightarrow> bytes \<Rightarrow> block_slot option" where
  "slot_by_tx_hash t hash =
     (case exact_key TxHash hash of None \<Rightarrow> None | Some key \<Rightarrow> tbl_get (it_exact t) (TxHash, key))"

definition slots_by_tag :: "(bytes \<Rightarrow> u64) \<Rightarrow> index_tables \<Rightarrow> dimension \<Rightarrow> bytes \<Rightarrow> block_slot \<Rightarrow> block_slot
    \<Rightarrow> index_error + block_slot list" where
  "slots_by_tag xxh3_64 t dim key start stop =
     (case key_hash xxh3_64 dim key of
        None \<Rightarrow> Inl CodecError
      | Some hash \<Rightarrow>
          if stop < start then Inr []
          else Inr (map (\<lambda>((_, _, slot), _). slot)
                 (filter (\<lambda>(k, _). (dim, hash, start) \<le> k \<and> k \<le> (dim, hash, stop)) (it_archive_tags t))))"

record tag_record =
  tr_dimension :: dimension
  tr_key_hash :: bytes
  tr_slot :: block_slot

record exact_record =
  er_kind :: exact_kind
  er_key :: bytes
  er_slot :: block_slot

datatype index_record = TagRecord tag_record | ExactRecord exact_record

definition iter_archive_tags :: "index_tables \<Rightarrow> dimension list \<Rightarrow> block_slot \<Rightarrow> block_slot \<Rightarrow> tag_record list" where
  "iter_archive_tags t dimensions start stop =
     concat (map (\<lambda>dim.
         map (\<lambda>((_, hash, slot), _). \<lparr>tr_dimension = dim, tr_key_hash = hash, tr_slot = slot\<rparr>)
           (filter (\<lambda>((_, _, slot), _). start \<le> slot \<and> slot < stop)
             (filter (\<lambda>(k, _). (dim, replicate 8 0, 0) \<le> k \<and> k \<le> (dim, replicate 8 255, - 1)) (it_archive_tags t))))
       (remdups_adj (sort dimensions)))"

text \<open>\<^verbatim>\<open>ExactRecord::new\<close> checks the width of the key again, and the key is trimmed to it here.\<close>

definition iter_exact_records :: "index_tables \<Rightarrow> block_slot \<Rightarrow> block_slot \<Rightarrow> exact_record list" where
  "iter_exact_records t start stop =
     map (\<lambda>((kind, key), slot). \<lparr>er_kind = kind, er_key = take (key_len kind) key, er_slot = slot\<rparr>)
       (filter (\<lambda>(_, slot). start \<le> slot \<and> slot < stop) (it_exact t))"

definition append_prehashed :: "index_record list \<Rightarrow> index_op list \<Rightarrow> index_op list" where
  "append_prehashed records ops =
     ops @ map (\<lambda>r. case r of
         TagRecord x \<Rightarrow> InsertArchiveTag (tr_dimension x, tr_key_hash x, tr_slot x)
       | ExactRecord x \<Rightarrow> InsertExact (er_kind x) (the (exact_key (er_kind x) (er_key x))) (er_slot x)) records"

definition index_copy :: "index_tables \<Rightarrow> index_tables \<Rightarrow> index_tables" where
  "index_copy source target =
     target\<lparr>it_cursor := (case it_cursor source of None \<Rightarrow> it_cursor target | Some p \<Rightarrow> Some p),
       it_utxo_tags := fold (\<lambda>(k, txos) m. tbl_insert k ((case tbl_get m k of None \<Rightarrow> {} | Some s \<Rightarrow> s) \<union> txos) m)
         (it_utxo_tags source) (it_utxo_tags target),
       it_archive_tags := fold (\<lambda>(k, v). tbl_insert k v) (it_archive_tags source) (it_archive_tags target),
       it_exact := fold (\<lambda>(k, v). tbl_insert k v) (it_exact source) (it_exact target)\<rparr>"

section \<open>The store as sets and maps\<close>

definition index_ok :: "index_tables \<Rightarrow> bool" where
  "index_ok t \<longleftrightarrow> tbl_ok (it_utxo_tags t) \<and> tbl_ok (it_archive_tags t) \<and> tbl_ok (it_exact t) \<and>
     (\<forall>k. tbl_get (it_utxo_tags t) k \<noteq> Some {})"

definition tag_view :: "index_tables \<Rightarrow> dimension \<times> bytes \<Rightarrow> txo_ref set" where
  "tag_view t k = utxos_by_tag t (fst k) (snd k)"

definition archive_view :: "index_tables \<Rightarrow> archive_tag set" where
  "archive_view t = {k. tbl_get (it_archive_tags t) k = Some ()}"

definition exact_view :: "index_tables \<Rightarrow> exact_kind \<times> bytes \<rightharpoonup> block_slot" where
  "exact_view t = tbl_get (it_exact t)"

lemma tbl_get_remove: "tbl_get (tbl_remove k t) k' = (if k' = k then None else tbl_get t k')"
  for t :: "('k::linorder, 'v) table"
  by (simp add: tbl_remove_def tbl.get_retain)

lemma tbl_ok_remove: "tbl_ok t \<Longrightarrow> tbl_ok (tbl_remove k t)"
  by (simp add: tbl_remove_def tbl_ok_retain)

lemma index_commit_op_ok: "index_ok t \<Longrightarrow> index_ok (index_commit_op x t)"
  by (cases x) (auto simp: index_ok_def tbl_ok_insert tbl_ok_remove tbl_get_insert tbl_get_remove split: option.splits)

lemma index_commit_ok: "index_ok t \<Longrightarrow> index_ok (index_commit ops t)"
  unfolding index_commit_def by (induction ops arbitrary: t) (simp_all add: index_commit_op_ok)

lemma index_view_simps [simp]:
  "tag_view (index_commit_op (ISetCursor p) t) = tag_view t"
  "tag_view (index_commit_op (InsertUtxoTag dim key txo) t) = (tag_view t)((dim, key) := insert txo (tag_view t (dim, key)))"
  "tag_view (index_commit_op (RemoveUtxoTag dim key txo) t) = (tag_view t)((dim, key) := tag_view t (dim, key) - {txo})"
  "tag_view (index_commit_op (InsertArchiveTag a) t) = tag_view t"
  "tag_view (index_commit_op (RemoveArchiveTag a) t) = tag_view t"
  "tag_view (index_commit_op (InsertExact k e s) t) = tag_view t"
  "tag_view (index_commit_op (RemoveExact k e) t) = tag_view t"
  by (auto simp: fun_eq_iff tag_view_def utxos_by_tag_def tbl_get_insert tbl_get_remove split: option.splits if_splits)

lemma index_archive_simps [simp]:
  "archive_view (index_commit_op (ISetCursor p) t) = archive_view t"
  "archive_view (index_commit_op (InsertUtxoTag dim key txo) t) = archive_view t"
  "archive_view (index_commit_op (RemoveUtxoTag dim key txo) t) = archive_view t"
  "archive_view (index_commit_op (InsertArchiveTag a) t) = insert a (archive_view t)"
  "archive_view (index_commit_op (RemoveArchiveTag a) t) = archive_view t - {a}"
  "archive_view (index_commit_op (InsertExact k e s) t) = archive_view t"
  "archive_view (index_commit_op (RemoveExact k e) t) = archive_view t"
  by (auto simp: archive_view_def tbl_get_insert tbl_get_remove split: option.splits if_splits)

lemma index_exact_simps [simp]:
  "exact_view (index_commit_op (ISetCursor p) t) = exact_view t"
  "exact_view (index_commit_op (InsertUtxoTag dim key txo) t) = exact_view t"
  "exact_view (index_commit_op (RemoveUtxoTag dim key txo) t) = exact_view t"
  "exact_view (index_commit_op (InsertArchiveTag a) t) = exact_view t"
  "exact_view (index_commit_op (RemoveArchiveTag a) t) = exact_view t"
  "exact_view (index_commit_op (InsertExact k e s) t) = (exact_view t)((k, e) \<mapsto> s)"
  "exact_view (index_commit_op (RemoveExact k e) t) = (exact_view t)((k, e) := None)"
  by (auto simp: fun_eq_iff exact_view_def tbl_get_insert tbl_get_remove split: option.splits)

lemma index_cursor_simps [simp]:
  "it_cursor (index_commit_op (ISetCursor p) t) = Some p"
  "it_cursor (index_commit_op (InsertUtxoTag dim key txo) t) = it_cursor t"
  "it_cursor (index_commit_op (RemoveUtxoTag dim key txo) t) = it_cursor t"
  "it_cursor (index_commit_op (InsertArchiveTag a) t) = it_cursor t"
  "it_cursor (index_commit_op (RemoveArchiveTag a) t) = it_cursor t"
  "it_cursor (index_commit_op (InsertExact k e s) t) = it_cursor t"
  "it_cursor (index_commit_op (RemoveExact k e) t) = it_cursor t"
  by (auto split: option.splits)

declare index_commit_op.simps [simp del]

text \<open>Tables in order, without empty sets, hold nothing but their views.\<close>

lemma index_tables_eqI:
  assumes "index_ok t" "index_ok u" "it_cursor t = it_cursor u" "tag_view t = tag_view u"
    "archive_view t = archive_view u" "exact_view t = exact_view u"
  shows "t = u"
proof -
  have "tbl_get (it_utxo_tags t) k = tbl_get (it_utxo_tags u) k" for k
    using fun_cong [OF assms(4), of k] assms(1,2)
    by (cases k) (auto simp: tag_view_def utxos_by_tag_def index_ok_def split: option.splits)
  moreover have "tbl_get (it_archive_tags t) k = tbl_get (it_archive_tags u) k" for k
  proof -
    have "k \<in> archive_view t \<longleftrightarrow> k \<in> archive_view u" using assms(5) by simp
    then show ?thesis
      unfolding archive_view_def mem_Collect_eq
      by (cases "tbl_get (it_archive_tags t) k"; cases "tbl_get (it_archive_tags u) k") simp_all
  qed
  ultimately have "it_utxo_tags t = it_utxo_tags u" "it_archive_tags t = it_archive_tags u" "it_exact t = it_exact u"
    using assms(1,2,6) tbl.entries_eqI [of "it_utxo_tags t" "it_utxo_tags u"]
      tbl.entries_eqI [of "it_archive_tags t" "it_archive_tags u"] tbl.entries_eqI [of "it_exact t" "it_exact u"]
    by (simp_all add: index_ok_def exact_view_def)
  with assms(3) show ?thesis by simp
qed

section \<open>What a delta does to the views\<close>

definition tagged :: "(txo_ref \<times> tag list) list \<Rightarrow> dimension \<times> bytes \<Rightarrow> txo_ref set" where
  "tagged entries k = {txo. \<exists>tags. (txo, tags) \<in> set entries \<and> k \<in> (\<lambda>tag. (tag_dimension tag, tag_key tag)) ` set tags}"

definition block_tags :: "(bytes \<Rightarrow> u64) \<Rightarrow> archive_index_delta list \<Rightarrow> archive_tag set" where
  "block_tags xxh3_64 blocks = (\<Union>block \<in> set blocks. set (archive_tags_of xxh3_64 block))"

lemma index_commit_append: "index_commit (xs @ ys) t = index_commit ys (index_commit xs t)"
  by (simp add: index_commit_def)

lemma index_commit_simps [simp]:
  "index_commit [] t = t"
  "index_commit (x # xs) t = index_commit xs (index_commit_op x t)"
  by (simp_all add: index_commit_def)

lemma index_commit_tags:
  "tag_view (index_commit (map (\<lambda>tag. InsertUtxoTag (tag_dimension tag) (tag_key tag) txo) tags) t)
     = (\<lambda>k. tag_view t k \<union> (if k \<in> (\<lambda>tag. (tag_dimension tag, tag_key tag)) ` set tags then {txo} else {}))"
  "tag_view (index_commit (map (\<lambda>tag. RemoveUtxoTag (tag_dimension tag) (tag_key tag) txo) tags) t)
     = (\<lambda>k. tag_view t k - (if k \<in> (\<lambda>tag. (tag_dimension tag, tag_key tag)) ` set tags then {txo} else {}))"
  by (induction tags arbitrary: t) (auto simp: fun_eq_iff)

lemma index_commit_tag_ops:
  "tag_view (index_commit (tag_ops InsertUtxoTag es) t) = (\<lambda>k. tag_view t k \<union> tagged es k)"
  "tag_view (index_commit (tag_ops RemoveUtxoTag es) t) = (\<lambda>k. tag_view t k - tagged es k)"
  by (induction es arbitrary: t)
    (auto simp: tag_ops_def tagged_def index_commit_append index_commit_tags fun_eq_iff split: if_splits)

lemma index_commit_tag_frame:
  "archive_view (index_commit (tag_ops InsertUtxoTag es) t) = archive_view t"
  "exact_view (index_commit (tag_ops InsertUtxoTag es) t) = exact_view t"
  "it_cursor (index_commit (tag_ops InsertUtxoTag es) t) = it_cursor t"
  "archive_view (index_commit (tag_ops RemoveUtxoTag es) t) = archive_view t"
  "exact_view (index_commit (tag_ops RemoveUtxoTag es) t) = exact_view t"
  "it_cursor (index_commit (tag_ops RemoveUtxoTag es) t) = it_cursor t"
proof -
  have frame: "archive_view (index_commit ops t) = archive_view t" "exact_view (index_commit ops t) = exact_view t"
      "it_cursor (index_commit ops t) = it_cursor t"
    if "\<forall>x \<in> set ops. \<exists>d k r. x = InsertUtxoTag d k r \<or> x = RemoveUtxoTag d k r" for ops t
    using that by (induction ops arbitrary: t) auto
  have "\<forall>x \<in> set (tag_ops InsertUtxoTag es). \<exists>d k r. x = InsertUtxoTag d k r \<or> x = RemoveUtxoTag d k r"
    "\<forall>x \<in> set (tag_ops RemoveUtxoTag es). \<exists>d k r. x = InsertUtxoTag d k r \<or> x = RemoveUtxoTag d k r"
    by (auto simp: tag_ops_def)
  from this [THEN frame(1)] this [THEN frame(2)] this [THEN frame(3)] show
    "archive_view (index_commit (tag_ops InsertUtxoTag es) t) = archive_view t"
    "exact_view (index_commit (tag_ops InsertUtxoTag es) t) = exact_view t"
    "it_cursor (index_commit (tag_ops InsertUtxoTag es) t) = it_cursor t"
    "archive_view (index_commit (tag_ops RemoveUtxoTag es) t) = archive_view t"
    "exact_view (index_commit (tag_ops RemoveUtxoTag es) t) = exact_view t"
    "it_cursor (index_commit (tag_ops RemoveUtxoTag es) t) = it_cursor t"
    by simp_all
qed

text \<open>A block whose hashes all have the width of their kind.\<close>

definition well_formed :: "archive_index_delta \<Rightarrow> bool" where
  "well_formed block \<longleftrightarrow> list_all (\<lambda>e. \<not> isl e) (exact_keys_of block)"

definition exact_of :: "archive_index_delta \<Rightarrow> (exact_kind \<times> bytes) list" where
  "exact_of block = map projr (exact_keys_of block)"

lemma push_exact_eq:
  "push_exact f es ops =
     (if list_all (\<lambda>e. \<not> isl e) es then Inr (ops @ map (f \<circ> projr) es) else Inl (projl (the (find isl es))))"
  by (induction f es ops rule: push_exact.induct) simp_all

lemma push_blocks_well:
  assumes "list_all well_formed blocks"
  shows "push_blocks h f g blocks ops =
    Inr (ops @ concat (map (\<lambda>b. map (f (aid_slot b)) (exact_of b) @ map g (archive_tags_of h b)) blocks))"
  using assms by (induction blocks arbitrary: ops) (auto simp: push_exact_eq well_formed_def exact_of_def)

lemma push_blocks_ill:
  assumes "push_blocks h f g blocks ops = Inr ops'"
  shows "list_all well_formed blocks"
  using assms by (induction blocks arbitrary: ops) (auto simp: push_exact_eq well_formed_def split: if_splits)

lemma index_commit_exacts:
  "exact_view (index_commit (map (\<lambda>(kind, key). InsertExact kind key slot) es) t) k
     = (if k \<in> set es then Some slot else exact_view t k)"
  "exact_view (index_commit (map (\<lambda>(kind, key). RemoveExact kind key) es) t) k
     = (if k \<in> set es then None else exact_view t k)"
  by (induction es arbitrary: t) (auto split: if_splits)

lemma index_commit_exact_frame:
  "tag_view (index_commit (map (\<lambda>(kind, key). InsertExact kind key slot) es) t) = tag_view t"
  "archive_view (index_commit (map (\<lambda>(kind, key). InsertExact kind key slot) es) t) = archive_view t"
  "it_cursor (index_commit (map (\<lambda>(kind, key). InsertExact kind key slot) es) t) = it_cursor t"
  "tag_view (index_commit (map (\<lambda>(kind, key). RemoveExact kind key) es) t) = tag_view t"
  "archive_view (index_commit (map (\<lambda>(kind, key). RemoveExact kind key) es) t) = archive_view t"
  "it_cursor (index_commit (map (\<lambda>(kind, key). RemoveExact kind key) es) t) = it_cursor t"
  by (induction es arbitrary: t) auto

lemma index_commit_archives:
  "archive_view (index_commit (map InsertArchiveTag as) t) = archive_view t \<union> set as"
  "archive_view (index_commit (map RemoveArchiveTag as) t) = archive_view t - set as"
  "tag_view (index_commit (map InsertArchiveTag as) t) = tag_view t"
  "tag_view (index_commit (map RemoveArchiveTag as) t) = tag_view t"
  "exact_view (index_commit (map InsertArchiveTag as) t) = exact_view t"
  "exact_view (index_commit (map RemoveArchiveTag as) t) = exact_view t"
  "it_cursor (index_commit (map InsertArchiveTag as) t) = it_cursor t"
  "it_cursor (index_commit (map RemoveArchiveTag as) t) = it_cursor t"
  by (induction as arbitrary: t) auto

lemmas index_commit_views =
  index_commit_append index_commit_tag_ops index_commit_tag_frame index_commit_exacts
  index_commit_exact_frame index_commit_archives

definition archive_ops :: "(bytes \<Rightarrow> u64) \<Rightarrow> (block_slot \<Rightarrow> exact_kind \<times> bytes \<Rightarrow> index_op) \<Rightarrow> (archive_tag \<Rightarrow> index_op)
    \<Rightarrow> archive_index_delta list \<Rightarrow> index_op list" where
  "archive_ops h f g blocks = concat (map (\<lambda>b. map (f (aid_slot b)) (exact_of b) @ map g (archive_tags_of h b)) blocks)"

abbreviation insert_blocks :: "(bytes \<Rightarrow> u64) \<Rightarrow> archive_index_delta list \<Rightarrow> index_op list" where
  "insert_blocks h \<equiv> archive_ops h (\<lambda>slot (kind, key). InsertExact kind key slot) InsertArchiveTag"

abbreviation remove_blocks :: "(bytes \<Rightarrow> u64) \<Rightarrow> archive_index_delta list \<Rightarrow> index_op list" where
  "remove_blocks h \<equiv> archive_ops h (\<lambda>slot (kind, key). RemoveExact kind key) RemoveArchiveTag"

definition keys_of :: "archive_index_delta list \<Rightarrow> (exact_kind \<times> bytes) set" where
  "keys_of blocks = (\<Union>b \<in> set blocks. set (exact_of b))"

lemma archive_ops_simps:
  "archive_ops h f g [] = []"
  "archive_ops h f g (b # bs) = map (f (aid_slot b)) (exact_of b) @ map g (archive_tags_of h b) @ archive_ops h f g bs"
  by (simp_all add: archive_ops_def)

lemma commit_insert_blocks:
  "k \<notin> keys_of bs \<Longrightarrow> exact_view (index_commit (insert_blocks h bs) t) k = exact_view t k"
  "archive_view (index_commit (insert_blocks h bs) t) = archive_view t \<union> block_tags h bs"
  "tag_view (index_commit (insert_blocks h bs) t) = tag_view t"
  "it_cursor (index_commit (insert_blocks h bs) t) = it_cursor t"
  by (induction bs arbitrary: t)
    (auto simp: archive_ops_simps index_commit_views keys_of_def block_tags_def)

lemma commit_remove_blocks:
  "exact_view (index_commit (remove_blocks h bs) t) k = (if k \<in> keys_of bs then None else exact_view t k)"
  "archive_view (index_commit (remove_blocks h bs) t) = archive_view t - block_tags h bs"
  "tag_view (index_commit (remove_blocks h bs) t) = tag_view t"
  "it_cursor (index_commit (remove_blocks h bs) t) = it_cursor t"
  by (induction bs arbitrary: t)
    (auto simp: archive_ops_simps index_commit_views keys_of_def block_tags_def)

lemma keys_tags_rev [simp]: "keys_of (rev bs) = keys_of bs" "block_tags h (rev bs) = block_tags h bs"
  by (simp_all add: keys_of_def block_tags_def)

lemma push_blocks_Inr:
  "push_blocks h f g bs ops = Inr ops' \<longleftrightarrow> list_all well_formed bs \<and> ops' = ops @ archive_ops h f g bs"
proof (cases "list_all well_formed bs")
  case True
  then show ?thesis by (auto simp: push_blocks_well archive_ops_def)
next
  case False
  then show ?thesis using push_blocks_ill [of h f g bs ops] by blast
qed

lemma index_apply_Inr:
  "index_apply h delta [] = Inr ops \<longleftrightarrow> list_all well_formed (id_archive delta) \<and>
     ops = tag_ops InsertUtxoTag (uid_produced (id_utxo delta)) @ tag_ops RemoveUtxoTag (uid_consumed (id_utxo delta))
         @ insert_blocks h (id_archive delta) @ [ISetCursor (id_cursor delta)]"
  by (auto simp: index_apply_def push_blocks_Inr split: sum.splits)
    (metis Inr_Inl_False push_blocks_Inr)

lemma index_undo_Inr:
  "index_undo h delta [] = Inr ops \<longleftrightarrow> list_all well_formed (id_archive delta) \<and>
     ops = tag_ops RemoveUtxoTag (uid_produced (id_utxo delta)) @ tag_ops InsertUtxoTag (uid_consumed (id_utxo delta))
         @ remove_blocks h (rev (id_archive delta))"
  by (simp add: index_undo_def push_blocks_Inr)

lemma index_apply_tags:
  assumes "index_apply h delta [] = Inr ops"
  shows "tag_view (index_commit ops t) k =
    (tag_view t k \<union> tagged (uid_produced (id_utxo delta)) k) - tagged (uid_consumed (id_utxo delta)) k"
  using assms by (simp add: index_apply_Inr index_commit_views commit_insert_blocks)

lemma index_undo_tags:
  assumes "index_undo h delta [] = Inr ops"
  shows "tag_view (index_commit ops t) k =
    (tag_view t k - tagged (uid_produced (id_utxo delta)) k) \<union> tagged (uid_consumed (id_utxo delta)) k"
  using assms by (simp add: index_undo_Inr index_commit_views commit_remove_blocks)

section \<open>Properties\<close>

text \<open>What makes a delta reversible: what it adds is new, and the outputs whose tags it removes are tagged.\<close>

definition index_fresh :: "(bytes \<Rightarrow> u64) \<Rightarrow> index_delta \<Rightarrow> index_tables \<Rightarrow> bool" where
  "index_fresh h delta t \<longleftrightarrow>
     (\<forall>k. tagged (uid_produced (id_utxo delta)) k \<inter> tag_view t k = {}) \<and>
     (\<forall>k. tagged (uid_consumed (id_utxo delta)) k \<subseteq> tag_view t k) \<and>
     (\<forall>k \<in> keys_of (id_archive delta). exact_view t k = None) \<and>
     block_tags h (id_archive delta) \<inter> archive_view t = {}"

text \<open>
  C20. Undoing an index delta inverts applying it. For a delta that adds only new entries and removes
  the tags of outputs that are tagged, committing it and then its undo gives the tables back, but for
  the cursor, which an undo leaves to its caller; and the undo succeeds whenever the application did.
\<close>

theorem index_undo_inverts_apply:
  assumes "index_ok t" and "index_fresh h delta t" and "index_apply h delta [] = Inr ops"
  shows "\<exists>ops'. index_undo h delta [] = Inr ops' \<and>
    index_commit ops' (index_commit ops t) = t\<lparr>it_cursor := Some (id_cursor delta)\<rparr>"
proof -
  let ?bs = "id_archive delta"
  obtain ops' where undo: "index_undo h delta [] = Inr ops'"
    using assms(3) by (simp add: index_apply_Inr index_undo_Inr)
  let ?t' = "index_commit ops' (index_commit ops t)"
  note views = index_undo_Inr [THEN iffD1, OF undo, THEN conjunct2] index_apply_Inr [THEN iffD1, OF assms(3), THEN conjunct2]
    index_commit_views commit_insert_blocks commit_remove_blocks
  have "?t' = t\<lparr>it_cursor := Some (id_cursor delta)\<rparr>"
  proof (rule index_tables_eqI)
    show "index_ok ?t'" using assms(1) by (simp add: index_commit_ok)
    show "index_ok (t\<lparr>it_cursor := Some (id_cursor delta)\<rparr>)" using assms(1) by (simp add: index_ok_def)
    show "it_cursor ?t' = it_cursor (t\<lparr>it_cursor := Some (id_cursor delta)\<rparr>)" by (simp add: views)
    have tags: "tag_view ?t' k = tag_view t k" for k
    proof -
      have "tagged (uid_produced (id_utxo delta)) k \<inter> tag_view t k = {}"
        and "tagged (uid_consumed (id_utxo delta)) k \<subseteq> tag_view t k"
        using assms(2) unfolding index_fresh_def by blast+
      then show ?thesis unfolding index_undo_tags [OF undo] index_apply_tags [OF assms(3)] by blast
    qed
    then show "tag_view ?t' = tag_view (t\<lparr>it_cursor := Some (id_cursor delta)\<rparr>)"
      by (simp add: fun_eq_iff tag_view_def utxos_by_tag_def)
    have "archive_view ?t' = archive_view t" using assms(2) by (auto simp: views index_fresh_def)
    then show "archive_view ?t' = archive_view (t\<lparr>it_cursor := Some (id_cursor delta)\<rparr>)" by (simp add: archive_view_def)
    have "exact_view ?t' k = exact_view t k" for k
      using assms(2) by (cases "k \<in> keys_of ?bs") (simp_all add: views index_fresh_def)
    then show "exact_view ?t' = exact_view (t\<lparr>it_cursor := Some (id_cursor delta)\<rparr>)"
      by (simp add: fun_eq_iff exact_view_def)
  qed
  with undo show ?thesis by blast
qed

definition sample_tag :: tag where
  "sample_tag = \<lparr>tag_dimension = ''address'', tag_key = [1]\<rparr>"

definition sample_index :: index_tables where
  "sample_index = \<lparr>it_cursor = None, it_utxo_tags = [((''address'', [1]), {(5, 0)})], it_archive_tags = [], it_exact = []\<rparr>"

definition sample_index_delta :: index_delta where
  "sample_index_delta = \<lparr>id_cursor = Specific 7 9,
     id_utxo = \<lparr>uid_produced = [((6, 0), [sample_tag])], uid_consumed = [((5, 0), [sample_tag])]\<rparr>,
     id_archive = [\<lparr>aid_slot = 7, aid_block_hash = replicate 32 9, aid_block_number = Some 3, aid_tx_hashes = [],
       aid_tags = [sample_tag]\<rparr>]\<rparr>"

theorem index_undo_inverts_apply_witness:
  "\<exists>ops ops'. index_apply (\<lambda>_. 0) sample_index_delta [] = Inr ops \<and> index_undo (\<lambda>_. 0) sample_index_delta [] = Inr ops' \<and>
     index_commit ops' (index_commit ops sample_index) = sample_index\<lparr>it_cursor := Some (Specific 7 9)\<rparr>"
proof -
  have ok: "index_ok sample_index"
    by (simp add: index_ok_def sample_index_def tbl_ok_def tbl_get_def)
  have fresh: "index_fresh (\<lambda>_. 0) sample_index_delta sample_index"
    by (auto simp: index_fresh_def sample_index_def sample_index_delta_def sample_tag_def tagged_def tag_view_def
        utxos_by_tag_def tbl_get_def exact_view_def archive_view_def)
  have "list_all well_formed (id_archive sample_index_delta)"
    by (simp add: sample_index_delta_def well_formed_def exact_keys_of_def exact_key_def)
  then obtain ops where ops: "index_apply (\<lambda>_. 0) sample_index_delta [] = Inr ops" by (simp add: index_apply_Inr)
  from index_undo_inverts_apply [OF ok fresh ops] ops show ?thesis by (auto simp: sample_index_delta_def)
qed

text \<open>
  An output that one delta both produces and consumes is not handled by the undo: applying the
  delta leaves its tags out of the index, undoing it puts them in, although the output is in no set of
  unspent outputs. The additions of the undo come after its removals, as those of the application do.
\<close>

theorem index_undo_resurrects:
  assumes "txo \<in> tagged (uid_produced (id_utxo delta)) k" and "txo \<in> tagged (uid_consumed (id_utxo delta)) k"
    and "index_apply h delta [] = Inr ops" and "index_undo h delta [] = Inr ops'"
  shows "txo \<notin> utxos_by_tag (index_commit ops t) (fst k) (snd k) \<and>
    txo \<in> utxos_by_tag (index_commit ops' (index_commit ops t)) (fst k) (snd k)"
  using assms(1,2) index_apply_tags [OF assms(3), of t k] index_undo_tags [OF assms(4), of "index_commit ops t" k]
  by (simp add: tag_view_def)

definition own_spending_delta :: index_delta where
  "own_spending_delta = \<lparr>id_cursor = Specific 7 9,
     id_utxo = \<lparr>uid_produced = [((6, 0), [sample_tag])], uid_consumed = [((6, 0), [sample_tag])]\<rparr>, id_archive = []\<rparr>"

theorem index_undo_resurrects_witness:
  "\<exists>ops ops'. index_apply (\<lambda>_. 0) own_spending_delta [] = Inr ops \<and> index_undo (\<lambda>_. 0) own_spending_delta [] = Inr ops' \<and>
     (6, 0) \<notin> utxos_by_tag sample_index ''address'' [1] \<and>
     (6, 0) \<in> utxos_by_tag (index_commit ops' (index_commit ops sample_index)) ''address'' [1]"
proof -
  have "(6, 0) \<in> tagged (uid_produced (id_utxo own_spending_delta)) (''address'', [1])"
    "(6, 0) \<in> tagged (uid_consumed (id_utxo own_spending_delta)) (''address'', [1])"
    by (simp_all add: own_spending_delta_def tagged_def sample_tag_def)
  moreover obtain ops ops' where ops: "index_apply (\<lambda>_. 0) own_spending_delta [] = Inr ops"
      "index_undo (\<lambda>_. 0) own_spending_delta [] = Inr ops'"
    by (simp add: index_apply_Inr index_undo_Inr own_spending_delta_def)
  ultimately have "(6, 0) \<in> utxos_by_tag (index_commit ops' (index_commit ops sample_index)) ''address'' [1]"
    using index_undo_resurrects [of "(6, 0)" own_spending_delta "(''address'', [1])" "\<lambda>_. 0" ops ops' sample_index] by simp
  moreover have "(6, 0) \<notin> utxos_by_tag sample_index ''address'' [1]"
    by (simp add: utxos_by_tag_def sample_index_def tbl_get_def)
  ultimately show ?thesis using ops by blast
qed

end
