(* ===== verification/Chain_Logic.thy ===== *)
theory Chain_Logic
  imports Utxo_Set Memory_Index
begin

text \<open>
  What undoing and replaying a logged block needs (\<^verbatim>\<open>compute_undo\<close> and
  \<^verbatim>\<open>compute_catchup\<close> of \<^verbatim>\<open>crates/cardano/src/lib.rs\<close>), with the part of the index
  builder they use (\<^verbatim>\<open>crates/cardano/src/indexes/delta.rs\<close>). Decoding blocks and outputs, the
  tags of an output and the archive entry of a block are read off decoded values and are arguments.
\<close>

record codec =
  decode_block :: "bytes \<Rightarrow> block_view option"
  decodes_output :: "era_cbor \<Rightarrow> bool"
  extract_tags :: "era_cbor \<Rightarrow> tag list option"
  index_block :: "block_view \<Rightarrow> (txo_ref \<times> era_cbor) list \<Rightarrow> archive_index_delta"

definition block_decode :: "codec \<Rightarrow> bytes \<Rightarrow> chain_error + block_view" where
  "block_decode cd raw = (case decode_block cd raw of None \<Rightarrow> Inl (DecodingError ''block'') | Some v \<Rightarrow> Inr v)"

definition decode_inputs :: "codec \<Rightarrow> (txo_ref \<times> era_cbor) list \<Rightarrow> chain_error + (txo_ref \<times> era_cbor) list" where
  "decode_inputs cd inputs =
     (if list_all (decodes_output cd \<circ> snd) inputs then Inr inputs else Inl (DecodingError ''output''))"

section \<open>Index deltas\<close>

definition builder_new :: "chain_point \<Rightarrow> index_delta" where
  "builder_new cursor = index_delta_default\<lparr>id_cursor := cursor\<rparr>"

definition tag_entries :: "codec \<Rightarrow> (txo_ref \<times> era_cbor) list \<Rightarrow> (txo_ref \<times> tag list) list" where
  "tag_entries cd utxos = List.map_filter (\<lambda>(txo, body). map_option (\<lambda>tags. (txo, tags)) (extract_tags cd body)) utxos"

definition add_produced_utxos_from_delta :: "codec \<Rightarrow> utxo_set_delta \<Rightarrow> index_delta \<Rightarrow> index_delta" where
  "add_produced_utxos_from_delta cd delta b =
     b\<lparr>id_utxo := (id_utxo b)\<lparr>uid_produced := uid_produced (id_utxo b) @ tag_entries cd (produced_utxo delta)\<rparr>\<rparr>"

definition add_consumed_utxos_from_delta :: "codec \<Rightarrow> utxo_set_delta \<Rightarrow> index_delta \<Rightarrow> index_delta" where
  "add_consumed_utxos_from_delta cd delta b =
     b\<lparr>id_utxo := (id_utxo b)\<lparr>uid_consumed := uid_consumed (id_utxo b) @ tag_entries cd (consumed_utxo delta)\<rparr>\<rparr>"

definition index_delta_from_utxo_delta :: "codec \<Rightarrow> chain_point \<Rightarrow> utxo_set_delta \<Rightarrow> index_delta" where
  "index_delta_from_utxo_delta cd cursor delta =
     add_consumed_utxos_from_delta cd delta (add_produced_utxos_from_delta cd delta (builder_new cursor))"

section \<open>Undo and catch-up\<close>

record undo_block_data =
  ub_utxo_delta :: utxo_set_delta
  ub_index_delta :: index_delta
  ub_tx_hashes :: "tx_hash list"

definition compute_undo :: "codec \<Rightarrow> bytes \<Rightarrow> (txo_ref \<times> era_cbor) list \<Rightarrow> chain_point \<Rightarrow> chain_error + undo_block_data" where
  "compute_undo cd block inputs point =
     (case block_decode cd block of
        Inl err \<Rightarrow> Inl err
      | Inr blockv \<Rightarrow>
          (case decode_inputs cd inputs of
             Inl err \<Rightarrow> Inl err
           | Inr decoded_inputs \<Rightarrow>
               (case compute_undo_delta blockv decoded_inputs of
                  Inl err \<Rightarrow> Inl (ChainBrokenInvariant err)
                | Inr utxo_delta \<Rightarrow>
                    Inr \<lparr>ub_utxo_delta = utxo_delta,
                         ub_index_delta = index_delta_from_utxo_delta cd point utxo_delta,
                         ub_tx_hashes = map tv_hash (bv_txs blockv)\<rparr>)))"

record catch_up_block_data =
  cb_utxo_delta :: utxo_set_delta
  cb_index_delta :: index_delta
  cb_tx_hashes :: "tx_hash list"

definition compute_catchup :: "codec \<Rightarrow> bytes \<Rightarrow> (txo_ref \<times> era_cbor) list \<Rightarrow> chain_point \<Rightarrow> chain_error + catch_up_block_data" where
  "compute_catchup cd block inputs point =
     (case block_decode cd block of
        Inl err \<Rightarrow> Inl err
      | Inr blockv \<Rightarrow>
          (case decode_inputs cd inputs of
             Inl err \<Rightarrow> Inl err
           | Inr decoded_inputs \<Rightarrow>
               (case compute_apply_delta blockv decoded_inputs of
                  Inl err \<Rightarrow> Inl (ChainBrokenInvariant err)
                | Inr utxo_delta \<Rightarrow>
                    (let b = add_consumed_utxos_from_delta cd utxo_delta
                               (add_produced_utxos_from_delta cd utxo_delta (builder_new point));
                         b = b\<lparr>id_archive := id_archive b @ [index_block cd blockv decoded_inputs]\<rparr>
                     in Inr \<lparr>cb_utxo_delta = utxo_delta, cb_index_delta = b,
                             cb_tx_hashes = map tv_hash (bv_txs blockv)\<rparr>))))"

section \<open>Properties\<close>

lemma compute_undo_Inr:
  "compute_undo cd block inputs point = Inr u \<longleftrightarrow>
     (\<exists>v d. decode_block cd block = Some v \<and> list_all (decodes_output cd \<circ> snd) inputs \<and>
        compute_undo_delta v inputs = Inr d \<and>
        u = \<lparr>ub_utxo_delta = d, ub_index_delta = index_delta_from_utxo_delta cd point d,
             ub_tx_hashes = map tv_hash (bv_txs v)\<rparr>)"
  by (auto simp: compute_undo_def block_decode_def decode_inputs_def split: option.splits sum.splits if_splits)

lemma compute_catchup_Inr:
  assumes "decode_block cd block = Some v" and "list_all (decodes_output cd \<circ> snd) inputs"
    and "compute_apply_delta v inputs = Inr d"
  shows "\<exists>u. compute_catchup cd block inputs point = Inr u \<and> cb_utxo_delta u = d"
  using assms by (simp add: compute_catchup_def block_decode_def decode_inputs_def Let_def)

lemma compute_undo_index:
  assumes "compute_undo cd block inputs point = Inr u"
  shows "index_undo h (ub_index_delta u) ops = Inr ops"
proof -
  from assms obtain v d where d: "compute_undo_delta v inputs = Inr d"
      and u: "ub_index_delta u = index_delta_from_utxo_delta cd point d"
    by (auto simp: compute_undo_Inr)
  from d have "produced_utxo d = []" "consumed_utxo d = []"
    by (auto simp: compute_undo_delta_tables split: sum.splits)
  then have "ub_index_delta u = index_delta_default\<lparr>id_cursor := point\<rparr>"
    by (simp add: u index_delta_from_utxo_delta_def add_consumed_utxos_from_delta_def add_produced_utxos_from_delta_def
        builder_new_def tag_entries_def index_delta_default_def)
  then show ?thesis by (simp add: index_undo_def index_delta_default_def tag_ops_def)
qed

text \<open>
  Undoing a block never changes the indexes. The index delta of an undo is built from the entries
  the UTxO delta has as produced and consumed, and a UTxO delta that undoes a block has only recovered
  and undone ones: the delta is empty, and the undo of the index writer adds no operation for it,
  whatever the block was. The tags of undone outputs stay, those of recovered outputs do not return.
\<close>

theorem undo_leaves_indexes:
  assumes "compute_undo cd block inputs point = Inr u"
  shows "index_undo h (ub_index_delta u) ops = Inr ops"
  using assms by (rule compute_undo_index)

definition sample_codec :: codec where
  "sample_codec = \<lparr>decode_block = (\<lambda>raw. if raw = [1] then Some sample_block else None), decodes_output = (\<lambda>_. True),
     extract_tags = (\<lambda>_. Some [sample_tag]),
     index_block = (\<lambda>v _. \<lparr>aid_slot = bv_slot v, aid_block_hash = [], aid_block_number = None, aid_tx_hashes = [], aid_tags = []\<rparr>)\<rparr>"

theorem undo_leaves_indexes_witness:
  "\<exists>u c. compute_undo sample_codec [1] sample_inputs (Specific 7 9) = Inr u \<and>
     compute_catchup sample_codec [1] sample_inputs (Specific 7 9) = Inr c \<and>
     uid_produced (id_utxo (cb_index_delta c)) \<noteq> [] \<and> index_undo (\<lambda>_. 0) (ub_index_delta u) [] = Inr []"
proof -
  obtain d' where "compute_undo_delta sample_block sample_inputs = Inr d'"
    by (rule utxo_undo_block [OF sample_block_delta sample_block_extends])
  then obtain u where u: "compute_undo sample_codec [1] sample_inputs (Specific 7 9) = Inr u"
    by (simp add: compute_undo_Inr sample_codec_def list_all_iff)
  have "\<exists>c. compute_catchup sample_codec [1] sample_inputs (Specific 7 9) = Inr c \<and> uid_produced (id_utxo (cb_index_delta c)) \<noteq> []"
    by (simp add: compute_catchup_def block_decode_def decode_inputs_def sample_codec_def sample_block_delta list_all_iff
        add_consumed_utxos_from_delta_def add_produced_utxos_from_delta_def builder_new_def tag_entries_def
        index_delta_default_def map_filter_simps)
  with u undo_leaves_indexes [OF u] show ?thesis by blast
qed

end
