(* ===== verification/Ledger_Path.thy ===== *)
theory Ledger_Path
  imports Roll Chain_Logic
begin

text \<open>
  What rolling the chain forward means for the ledger. A path is a sequence of log entries that leads
  from one pair of entities and UTxOs to another, block by block; the work unit of a batch, with its
  grouped deltas, its cache of entities and its table of inputs loaded ahead, extends the path by
  exactly the entries it logs. Rolling back and recovering after a crash walk the same path.
\<close>

section \<open>The inputs of a batch\<close>

text \<open>The UTxO set after a block, from what the block produces and consumes.\<close>

definition spend_block :: "block_view \<Rightarrow> (txo_ref \<rightharpoonup> era_cbor) \<Rightarrow> (txo_ref \<rightharpoonup> era_cbor)" where
  "spend_block v u = (\<lambda>r. if r \<in> set (block_consumes v) then None
     else case map_of (block_produced v) r of Some b \<Rightarrow> Some b | None \<Rightarrow> u r)"

text \<open>
  What the ledger rules give of a chain of blocks: the references of outputs are never reused, and
  an input is an output of the block itself or of the set it extends.
\<close>

definition new_outputs :: "(txo_ref \<rightharpoonup> era_cbor) \<Rightarrow> block_view list \<Rightarrow> bool" where
  "new_outputs u vs \<longleftrightarrow> distinct (concat (map (map fst \<circ> block_produced) vs)) \<and>
     (\<forall>v \<in> set vs. \<forall>r \<in> fst ` set (block_produced v). u r = None)"

fun inputs_exist :: "(txo_ref \<rightharpoonup> era_cbor) \<Rightarrow> block_view list \<Rightarrow> bool" where
  "inputs_exist u [] = True"
| "inputs_exist u (v # vs) =
     (set (block_consumes v) \<subseteq> dom u \<union> fst ` set (block_produced v) \<and> inputs_exist (spend_block v u) vs)"

definition valid_spends :: "(txo_ref \<rightharpoonup> era_cbor) \<Rightarrow> block_view list \<Rightarrow> bool" where
  "valid_spends u vs \<longleftrightarrow> new_outputs u vs \<and> inputs_exist u vs"

lemma utxo_apply_spend_block: "compute_apply_delta v inputs = Inr d \<Longrightarrow> utxo_apply d u = spend_block v u"
  by (simp add: fun_eq_iff utxo_apply_block spend_block_def)

lemma map_of_produced:
  "map_of (fold (\<lambda>(h, tx). insert_all (produce_refs h tx)) txs m) r =
     (case map_of (fold (\<lambda>(h, tx). insert_all (produce_refs h tx)) txs []) r of Some b \<Rightarrow> Some b | None \<Rightarrow> map_of m r)"
proof -
  have flat: "fold (\<lambda>(h, tx). insert_all (produce_refs h tx)) txs m
      = insert_all (concat (map (\<lambda>(h, tx). produce_refs h tx) txs)) m" for m
    by (induction txs arbitrary: m) (auto simp: insert_all_def)
  show ?thesis unfolding flat by (simp add: insert_all_def map_of_fold_update split: option.splits)
qed

lemma dependencies_tables:
  "compute_block_dependencies v l =
     (let l' = fold (\<lambda>(h, tx). insert_all (produce_refs h tx)) (txs_by_hash v) l
      in (l', filter (\<lambda>x. map_of l' x = None) (remdups (block_consumes v))))"
  by (simp add: compute_block_dependencies_def block_consumes_def Let_def)

lemma map_of_dependencies:
  "map_of (fst (compute_block_dependencies v l)) r =
     (case map_of (block_produced v) r of Some b \<Rightarrow> Some b | None \<Rightarrow> map_of l r)"
  unfolding dependencies_tables Let_def fst_conv block_produced_def by (rule map_of_produced)

text \<open>All the outputs of a batch, and the references left to load.\<close>

fun produced_by :: "block_view list \<Rightarrow> txo_ref \<Rightarrow> era_cbor option" where
  "produced_by [] r = None"
| "produced_by (v # vs) r = (case produced_by vs r of Some b \<Rightarrow> Some b | None \<Rightarrow> map_of (block_produced v) r)"

lemma depends_on_all_ConsE:
  assumes "depends_on_all (x # ws) l = (l', refs)"
  obtains l1 refs1 refs2 where "compute_block_dependencies (wb_block x) l = (l1, refs1)"
    and "depends_on_all ws l1 = (l', refs2)" and "refs = refs1 @ refs2"
    and "\<And>r. map_of l1 r = (case map_of (block_produced (wb_block x)) r of Some b \<Rightarrow> Some b | None \<Rightarrow> map_of l r)"
proof -
  obtain l1 refs1 refs2 where one: "compute_block_dependencies (wb_block x) l = (l1, refs1)"
      and "depends_on_all ws l1 = (l', refs2)" "refs = refs1 @ refs2"
    using assms by (auto simp: Let_def split: prod.splits)
  moreover have "map_of l1 r = (case map_of (block_produced (wb_block x)) r of Some b \<Rightarrow> Some b | None \<Rightarrow> map_of l r)" for r
    using map_of_dependencies [of "wb_block x" l r] by (simp add: one)
  ultimately show thesis by (rule that)
qed

lemma depends_on_all_outputs:
  "depends_on_all ws l = (l', refs) \<Longrightarrow>
    map_of l' r = (case produced_by (map wb_block ws) r of Some b \<Rightarrow> Some b | None \<Rightarrow> map_of l r)"
proof (induction ws arbitrary: l refs)
  case (Cons x ws)
  from Cons.prems obtain l1 refs2 where rest: "depends_on_all ws l1 = (l', refs2)"
      and l1: "\<And>r. map_of l1 r = (case map_of (block_produced (wb_block x)) r of Some b \<Rightarrow> Some b | None \<Rightarrow> map_of l r)"
    by (rule depends_on_all_ConsE) blast
  show ?case unfolding Cons.IH [OF rest] l1 by (simp split: option.splits)
qed simp

lemma depends_on_all_refs:
  assumes "depends_on_all ws l = (l', refs)" and "w \<in> set ws" and "r \<in> set (block_consumes (wb_block w))"
    and "map_of l' r = None"
  shows "r \<in> set refs"
  using assms(1,2)
proof (induction ws arbitrary: l refs)
  case (Cons x ws)
  from Cons.prems(1) obtain l1 refs1 refs2 where one: "compute_block_dependencies (wb_block x) l = (l1, refs1)"
      and rest: "depends_on_all ws l1 = (l', refs2)" and refs: "refs = refs1 @ refs2"
    by (rule depends_on_all_ConsE)
  show ?case
  proof (cases "w = x")
    case True
    have "map_of l1 r = None"
      using depends_on_all_outputs [OF rest, of r] assms(4) by (simp split: option.splits)
    with assms(3) True one have "r \<in> set refs1" by (auto simp: dependencies_tables Let_def)
    then show ?thesis by (simp add: refs)
  next
    case False
    with Cons.prems(2) Cons.IH [OF rest] show ?thesis by (simp add: refs)
  qed
qed simp

lemma map_of_get_utxos:
  "map_of (insert_all (get_utxos t (remdups refs)) l) r =
     (if r \<in> set refs then (case utxo_view t r of Some b \<Rightarrow> Some b | None \<Rightarrow> map_of l r) else map_of l r)"
proof -
  have get: "map_of (get_utxos t rs) r = (if r \<in> set rs then utxo_view t r else None)" for rs
    by (induction rs) (auto simp: get_utxos_def utxo_view_def map_filter_simps split: option.splits)
  have "fst ` set (get_utxos t rs) \<subseteq> set rs" for rs
    by (induction rs) (auto simp: get_utxos_def map_filter_simps split: option.splits)
  moreover have "distinct rs \<Longrightarrow> distinct (map fst (get_utxos t rs))" for rs
  proof (induction rs)
    case (Cons r rs)
    then show ?case using calculation [of rs] by (auto simp: get_utxos_def map_filter_simps split: option.splits)
  qed (simp add: get_utxos_def map_filter_simps)
  ultimately have "distinct (map fst (get_utxos t (remdups refs)))" by simp
  then show ?thesis
    by (simp add: insert_all_def map_of_fold_update map_of_rev_distinct get split: option.splits)
qed

lemma produced_by_Some: "produced_by vs r = Some b \<Longrightarrow> \<exists>v \<in> set vs. r \<in> fst ` set (block_produced v)"
  by (induction vs) (force split: option.splits dest!: map_of_SomeD)+

lemma outputs_apart:
  assumes "distinct (concat (map (map fst \<circ> block_produced) (x # vs)))"
    and "y \<in> set vs" and "r \<in> fst ` set (block_produced y)"
  shows "r \<notin> fst ` set (block_produced x)"
proof -
  have "set (map fst (block_produced x)) \<inter> set (concat (map (map fst \<circ> block_produced) vs)) = {}"
    using assms(1) unfolding list.map concat.simps comp_apply distinct_append by blast
  moreover have "r \<in> set (concat (map (map fst \<circ> block_produced) vs))"
    using assms(2,3) by (simp only: set_concat set_map comp_apply image_image) blast
  ultimately show ?thesis by (simp only: set_map) blast
qed

lemma produced_by_distinct:
  assumes "distinct (concat (map (map fst \<circ> block_produced) vs))"
    and "v \<in> set vs" and "map_of (block_produced v) r = Some b"
  shows "produced_by vs r = Some b"
  using assms(1,2)
proof (induction vs)
  case (Cons x vs)
  show ?case
  proof (cases "v = x")
    case True
    have r: "r \<in> fst ` set (block_produced x)" using assms(3) True by (force dest!: map_of_SomeD)
    have "r \<notin> fst ` set (block_produced y)" if "y \<in> set vs" for y
      using outputs_apart [OF Cons.prems(1) that] r by blast
    then have "produced_by vs r = None" using produced_by_Some [of vs r] by (cases "produced_by vs r") blast+
    with assms(3) True show ?thesis by simp
  next
    case False
    with Cons show ?thesis by simp
  qed
qed simp

fun extends_all :: "(txo_ref \<times> era_cbor) list \<Rightarrow> (txo_ref \<rightharpoonup> era_cbor) \<Rightarrow> block_view list \<Rightarrow> bool" where
  "extends_all l u [] = True"
| "extends_all l u (v # vs) = (extends_utxos v l u \<and> extends_all l (spend_block v u) vs)"

lemma new_outputsD:
  assumes "new_outputs u vs" and "v \<in> set vs" and "r \<in> fst ` set (block_produced v)"
  shows "u r = None"
  using assms(1) unfolding new_outputs_def by (elim conjE) (drule bspec [OF _ assms(2)], erule bspec [OF _ assms(3)])

lemma new_outputs_step:
  assumes "new_outputs u (v # vs)"
  shows "new_outputs (spend_block v u) vs"
proof -
  have "spend_block v u r = None" if "y \<in> set vs" "r \<in> fst ` set (block_produced y)" for y r
  proof -
    have "distinct (concat (map (map fst \<circ> block_produced) (v # vs)))" using assms by (simp only: new_outputs_def)
    moreover have "u r = None" using that by (intro new_outputsD [OF assms, of y]) simp_all
    ultimately have "r \<notin> fst ` set (block_produced v)" using that by (intro outputs_apart)
    then have "map_of (block_produced v) r = None" by (simp add: map_of_eq_None_iff)
    with \<open>u r = None\<close> show ?thesis by (simp add: spend_block_def)
  qed
  with assms show ?thesis by (simp add: new_outputs_def)
qed

lemma extends_allI:
  assumes "new_outputs u vs" and "inputs_exist u vs"
    and "\<And>v r b. v \<in> set vs \<Longrightarrow> r \<in> set (block_consumes v) \<Longrightarrow> u r = Some b \<Longrightarrow> map_of l r = Some b"
    and "\<And>v r b. v \<in> set vs \<Longrightarrow> map_of (block_produced v) r = Some b \<Longrightarrow> map_of l r = Some b"
  shows "extends_all l u vs"
  using assms
proof (induction vs arbitrary: u)
  case (Cons v vs)
  have "u r = map_of l r" if r: "r \<in> set (block_consumes v)" "r \<notin> fst ` set (block_produced v)" for r
  proof -
    have "r \<in> dom u" using Cons.prems(2) r by auto
    then obtain b where "u r = Some b" by auto
    with Cons.prems(3) [of v r b] r(1) show ?thesis by simp
  qed
  with Cons.prems(1) have "extends_utxos v l u" by (simp add: extends_utxos_def new_outputs_def)
  moreover have "extends_all l (spend_block v u) vs"
  proof (rule Cons.IH)
    show "map_of l r = Some b" if "y \<in> set vs" "r \<in> set (block_consumes y)" "spend_block v u r = Some b" for y r b
      using that Cons.prems(3) [of y r b] Cons.prems(4) [of v r b]
      by (auto simp: spend_block_def split: if_splits option.splits)
    show "new_outputs (spend_block v u) vs" by (rule new_outputs_step [OF Cons.prems(1)])
    show "inputs_exist (spend_block v u) vs" using Cons.prems(2) by simp
    show "map_of l r = Some b" if "y \<in> set vs" "map_of (block_produced y) r = Some b" for y r b
      using that by (intro Cons.prems(4) [of y]) simp_all
  qed
  ultimately show ?case by simp
qed simp

text \<open>The inputs loaded ahead for a batch are those each of its blocks needs when its turn comes.\<close>

lemma load_utxos_extends:
  assumes "valid_spends (utxo_view t) (map wb_block (wk_blocks batch))" and "wk_utxos batch = []"
  shows "extends_all (wk_utxos (load_utxos t batch)) (utxo_view t) (map wb_block (wk_blocks batch))"
proof -
  let ?vs = "map wb_block (wk_blocks batch)" and ?u = "utxo_view t"
  obtain l refs where dep: "depends_on_all (wk_blocks batch) [] = (l, refs)" by (cases "depends_on_all (wk_blocks batch) []")
  note outputs = depends_on_all_outputs [OF dep]
  let ?l = "wk_utxos (load_utxos t batch)"
  have l: "?l = insert_all (get_utxos t (remdups refs)) l" by (simp add: load_utxos_def assms(2) dep)
  have fresh: "new_outputs ?u ?vs" and inputs: "inputs_exist ?u ?vs" using assms(1) by (simp_all add: valid_spends_def)
  then have dist: "distinct (concat (map (map fst \<circ> block_produced) ?vs))" by (simp add: new_outputs_def)
  have unproduced: "produced_by ?vs r = None" if "?u r = Some b" for r b
    using produced_by_Some [of ?vs r] fresh that
    by (cases "produced_by ?vs r") (force simp: new_outputs_def)+
  show ?thesis
  proof (rule extends_allI [OF fresh inputs])
    fix v r b assume v: "v \<in> set ?vs" "r \<in> set (block_consumes v)" and b: "?u r = Some b"
    have "map_of l r = None" using outputs [of r] unproduced [OF b] by simp
    with v have "r \<in> set refs" by (auto intro: depends_on_all_refs [OF dep])
    with b show "map_of ?l r = Some b" by (simp add: l map_of_get_utxos)
  next
    fix v r b assume v: "v \<in> set ?vs" "map_of (block_produced v) r = Some b"
    have "map_of l r = Some b" using outputs [of r] produced_by_distinct [OF dist v] by simp
    moreover have "?u r = None" using fresh v by (force simp: new_outputs_def dest!: map_of_SomeD)
    ultimately show "map_of ?l r = Some b" by (simp add: l map_of_get_utxos)
  qed
qed

section \<open>Paths\<close>

text \<open>
  One entry: the deltas of a block run on the entities, its outputs and inputs on the UTxOs, and the
  log holds the block, what it stores of the applied deltas, and the inputs they were resolved with.
\<close>

inductive ledger_path :: "codec \<Rightarrow> ('d \<Rightarrow> ns_key) \<Rightarrow> ('d, 'e) apply_fn \<Rightarrow> ('d \<Rightarrow> bool) \<Rightarrow> ('d \<Rightarrow> 'e option \<Rightarrow> bool)
    \<Rightarrow> ('d \<Rightarrow> 'd) \<Rightarrow> 'e entity_table \<Rightarrow> (txo_ref \<rightharpoonup> era_cbor) \<Rightarrow> 'd log_entry list \<Rightarrow> 'e entity_table
    \<Rightarrow> (txo_ref \<rightharpoonup> era_cbor) \<Rightarrow> bool"
  for cd key apply_d fresh ok stored where
  path_end: "ledger_path cd key apply_d fresh ok stored V u [] V u"
| path_block: "run_view key apply_d V ds = Some (V1, ds1) \<Longrightarrow> run_ok key apply_d fresh ok V ds
    \<Longrightarrow> raw \<noteq> [] \<Longrightarrow> decode_block cd raw = Some v \<Longrightarrow> list_all (decodes_output cd \<circ> snd) inputs
    \<Longrightarrow> compute_apply_delta v inputs = Inr d \<Longrightarrow> extends_utxos v inputs u
    \<Longrightarrow> ledger_path cd key apply_d fresh ok stored V1 (utxo_apply d u) es V2 u2
    \<Longrightarrow> ledger_path cd key apply_d fresh ok stored V u
          ((Specific (bv_slot v) (bv_hash v), \<lparr>lv_block = raw, lv_delta = map stored ds1, lv_inputs = inputs\<rparr>) # es) V2 u2"

inductive_cases ledger_path_NilE: "ledger_path cd key apply_d fresh ok stored V u [] V2 u2"
inductive_cases ledger_path_ConsE: "ledger_path cd key apply_d fresh ok stored V u (e # es) V2 u2"

lemma ledger_path_append:
  "ledger_path cd key apply_d fresh ok stored V u xs V1 u1 \<Longrightarrow> ledger_path cd key apply_d fresh ok stored V1 u1 ys V2 u2
    \<Longrightarrow> ledger_path cd key apply_d fresh ok stored V u (xs @ ys) V2 u2"
  by (induction rule: ledger_path.induct) (auto intro: ledger_path.path_block)

text \<open>The preconditions of the deltas, along the blocks of a batch.\<close>

fun rolls_ok :: "('d \<Rightarrow> ns_key) \<Rightarrow> ('d, 'e) apply_fn \<Rightarrow> ('d \<Rightarrow> bool) \<Rightarrow> ('d \<Rightarrow> 'e option \<Rightarrow> bool)
    \<Rightarrow> 'e entity_table \<Rightarrow> 'd list list \<Rightarrow> bool" where
  "rolls_ok key apply_d fresh ok V [] = True"
| "rolls_ok key apply_d fresh ok V (ds # dss) =
     (run_ok key apply_d fresh ok V ds \<and>
      (case run_view key apply_d V ds of None \<Rightarrow> True | Some (V1, _) \<Rightarrow> rolls_ok key apply_d fresh ok V1 dss))"

lemma blocks_path:
  assumes "roll_view key apply_d V (map listed ws) = Some (V', map listed ws')" and "same_blocks ws ws'"
    and "rolls_ok key apply_d fresh ok V (map listed ws)"
    and "extends_all l u (map wb_block ws)" and "list_all (decodes_output cd \<circ> snd) l"
    and "\<forall>w \<in> set ws. wb_raw w \<noteq> [] \<and> decode_block cd (wb_raw w) = Some (wb_block w) \<and>
      (\<exists>d. compute_apply_delta (wb_block w) l = Inr d \<and> wb_utxo_delta w = Some d)"
  shows "ledger_path cd key apply_d fresh ok stored V u
    (map (\<lambda>(p, log). (p, logged stored log)) (map (block_entry l) ws')) V' (fold block_utxos ws' u)"
  using assms
proof (induction ws arbitrary: ws' V u)
  case Nil
  then show ?case by (simp add: same_blocks_def ledger_path.path_end)
next
  case (Cons w ws)
  from Cons.prems(2) obtain w' ws1 where ws': "ws' = w' # ws1"
    by (cases ws') (auto simp: same_blocks_def)
  have w': "wb_raw w' = wb_raw w" "wb_block w' = wb_block w" "wb_utxo_delta w' = wb_utxo_delta w"
      and same: "same_blocks ws ws1"
    using Cons.prems(2) by (auto simp: same_blocks_def ws')
  from Cons.prems(1) obtain V1 where run: "run_view key apply_d V (listed w) = Some (V1, listed w')"
      and rest: "roll_view key apply_d V1 (map listed ws) = Some (V', map listed ws1)"
    by (auto simp: ws' panic_simps)
  from Cons.prems(6) obtain d where d: "compute_apply_delta (wb_block w) l = Inr d" "wb_utxo_delta w = Some d"
      and raw: "wb_raw w \<noteq> []" "decode_block cd (wb_raw w) = Some (wb_block w)"
    by auto
  have ok: "run_ok key apply_d fresh ok V (listed w)" "rolls_ok key apply_d fresh ok V1 (map listed ws)"
    using Cons.prems(3) run by simp_all
  have ext: "extends_utxos (wb_block w) l u" "extends_all l (utxo_apply d u) (map wb_block ws)"
    using Cons.prems(4) utxo_apply_spend_block [OF d(1), of u] by simp_all
  have "ledger_path cd key apply_d fresh ok stored V1 (utxo_apply d u)
      (map (\<lambda>(p, log). (p, logged stored log)) (map (block_entry l) ws1)) V' (fold block_utxos ws1 (utxo_apply d u))"
    using Cons.prems(6) by (intro Cons.IH [OF rest same ok(2) ext(2) Cons.prems(5)]) simp
  from ledger_path.path_block [OF run ok(1) raw Cons.prems(5) d(1) ext(1) this] show ?case
    by (simp add: ws' block_entry_def [of l w'] logged_def wb_point_def w' block_utxos_def [of w'] d(2))
qed

section \<open>A work unit extends the path\<close>

text \<open>A batch as the chain logic makes it, before its work unit runs.\<close>

definition fresh_batch :: "codec \<Rightarrow> ('d, 'e) work_batch \<Rightarrow> bool" where
  "fresh_batch cd batch \<longleftrightarrow> wk_entities batch = [] \<and> wk_utxos batch = [] \<and>
     (\<forall>w \<in> set (wk_blocks batch). wb_raw w \<noteq> [] \<and> decode_block cd (wb_raw w) = Some (wb_block w))"

text \<open>The phases of the work unit: what it leaves in the log and in the store.\<close>

definition roll_phases :: "build \<Rightarrow> ('d \<Rightarrow> ns_key) \<Rightarrow> ('d, 'e) apply_fn \<Rightarrow> ('e \<Rightarrow> namespace) \<Rightarrow> ('d \<Rightarrow> 'd)
    \<Rightarrow> ('c \<Rightarrow> block_view \<Rightarrow> (txo_ref \<times> era_cbor) list \<Rightarrow> chain_error + 'd list \<times> 'c) \<Rightarrow> (era_cbor \<Rightarrow> bool) \<Rightarrow> 'c
    \<Rightarrow> ('d, 'e) work_batch \<Rightarrow> 'd wal \<times> 'e tables \<Rightarrow> (chain_error + ('d, 'e) work_batch \<times> ('d, 'e) work_batch \<times> 'd wal \<times> 'e tables) option" where
  "roll_phases b key apply_d ns_of stored visit decodes c batch = (\<lambda>(w, t). do {
     loaded \<leftarrow> roll_load b key visit decodes c t batch;
     (case loaded of
        Inl err \<Rightarrow> Some (Inl err)
      | Inr batch1 \<Rightarrow> do {
          batch2 \<leftarrow> roll_compute apply_d batch1;
          w' \<leftarrow> commit_wal b stored batch2 w;
          t' \<leftarrow> commit_state ns_of batch2 t;
          Some (Inr (batch1, batch2, w', t'))
        })
   })"

lemma roll_phases_InrD:
  assumes "roll_phases b key apply_d ns stored visit decodes c batch (w, t) = Some (Inr (batch1, batch2, w', t'))"
  shows "roll_load b key visit decodes c t batch = Some (Inr batch1)" and "roll_compute apply_d batch1 = Some batch2"
    and "commit_wal b stored batch2 w = Some w'" and "commit_state ns batch2 t = Some t'"
proof -
  from assms obtain r where r: "roll_load b key visit decodes c t batch = Some r"
    by (auto simp: roll_phases_def panic_simps)
  show "roll_load b key visit decodes c t batch = Some (Inr batch1)" "roll_compute apply_d batch1 = Some batch2"
    "commit_wal b stored batch2 w = Some w'" "commit_state ns batch2 t = Some t'"
    using assms r by (cases r; auto simp: roll_phases_def panic_simps)+
qed

definition batch_log :: "('d \<Rightarrow> 'd) \<Rightarrow> ('d, 'e) work_batch \<Rightarrow> 'd log_entry list" where
  "batch_log stored batch = map (\<lambda>(p, log). (p, logged stored log)) (map (block_entry (wk_utxos batch)) (wk_blocks batch))"

context delta_system
begin

lemma typed_roll_view:
  "roll_view key apply_d V dss = Some (V', dss') \<Longrightarrow> typed_table ns_of V \<Longrightarrow> typed_table ns_of V'"
  by (induction dss arbitrary: V dss') (auto simp: panic_simps dest: typed_run_view)

text \<open>
  The work unit of a batch against the map of entities: loading in chunks, grouping the deltas and
  walking the cache amount to running the deltas of the blocks one after the other.
\<close>

lemma roll_phases_view:
  assumes "roll_phases b key apply_d ns_of stored visit decodes c batch (w, t) = Some (Inr (batch1, batch2, w', t'))"
    and "wk_entities batch = []" and "typed_table ns_of (entity_view t)"
  shows "roll_view key apply_d (entity_view t) (map listed (wk_blocks batch1)) = Some (entity_view t', map listed (wk_blocks batch2))"
    and "same_blocks (wk_blocks batch1) (wk_blocks batch2)" and "wk_utxos batch2 = wk_utxos batch1"
    and "utxo_view t' = fold block_utxos (wk_blocks batch2) (utxo_view t)"
    and "t_cursor t' = last_point batch2"
    and "w' = append_entries stored (map (block_entry (wk_utxos batch2)) (wk_blocks batch2)) w"
    and "typed_table ns_of (entity_view t')"
proof -
  note phases = roll_phases_InrD [OF assms(1)]
  note ready = roll_load_ready [OF phases(1) assms(2)]
  from ready(1) have sorted: "sort_key wb_slot (wk_blocks batch1) = wk_blocks batch1"
      and cache: "cache_ok (wk_entities batch1)" "overlay (wk_entities batch1) (entity_view t) = entity_view t"
      and groups: "\<forall>w \<in> set (wk_blocks batch1). groups_ok key (wb_deltas w) \<and> fst ` set (wb_deltas w) \<subseteq> dom (map_of (wk_entities batch1))"
    by (auto simp: loaded_batch_def sort_key_sorted)
  from phases(2) sorted obtain es ws where apply_b: "apply_blocks apply_d (wk_entities batch1) (wk_blocks batch1) = Some (es, ws)"
      and batch2: "wk_entities batch2 = es" "wk_blocks batch2 = ws" "wk_utxos batch2 = wk_utxos batch1"
    by (auto simp: roll_compute_def apply_entities_def sort_by_slot_def panic_simps)
  have view: "roll_view key apply_d (entity_view t) (map listed (wk_blocks batch1)) = Some (overlay es (entity_view t), map listed ws)
      \<and> cache_ok es \<and> same_blocks (wk_blocks batch1) ws"
    using apply_blocks_view [OF apply_b cache(1) groups, of "entity_view t"] cache(2) by simp
  have typed: "typed_table ns_of (overlay es (entity_view t))"
    using view assms(3) typed_roll_view by blast
  note views = commit_state_views [OF phases(4), unfolded batch2]
  have ev: "entity_view t' = overlay es (entity_view t)" using views(1) view typed by blast
  show "roll_view key apply_d (entity_view t) (map listed (wk_blocks batch1)) = Some (entity_view t', map listed (wk_blocks batch2))"
    "same_blocks (wk_blocks batch1) (wk_blocks batch2)" "wk_utxos batch2 = wk_utxos batch1"
    "typed_table ns_of (entity_view t')"
    using view typed by (simp_all add: ev batch2)
  show "utxo_view t' = fold block_utxos (wk_blocks batch2) (utxo_view t)" "t_cursor t' = last_point batch2"
    using views(2,3) view typed by (simp_all add: batch2)
  show "w' = append_entries stored (map (block_entry (wk_utxos batch2)) (wk_blocks batch2)) w"
    using phases(3) by (simp add: commit_wal_def panic_simps)
qed

lemma roll_phases_path:
  assumes run: "roll_phases b key apply_d ns_of stored visit (decodes_output cd) c batch (w, t) = Some (Inr (batch1, batch2, w', t'))"
    and fresh: "fresh_batch cd batch"
    and typed: "typed_table ns_of (entity_view t)"
    and spends: "valid_spends (utxo_view t) (map wb_block (wk_blocks batch1))"
    and ok: "rolls_ok key apply_d fresh ok (entity_view t) (map listed (wk_blocks batch1))"
  shows "ledger_path cd key apply_d fresh ok stored (entity_view t) (utxo_view t) (batch_log stored batch2) (entity_view t') (utxo_view t')"
proof -
  have parts: "wk_entities batch = []" "wk_utxos batch = []"
    using fresh by (simp_all add: fresh_batch_def)
  note ready = roll_load_ready [OF roll_phases_InrD(1) [OF run] parts(1)]
  note view = roll_phases_view [OF run parts(1) typed]
  have "wk_utxos (sort_by_slot batch) = []" by (simp add: sort_by_slot_def parts)
  with load_utxos_extends [of t "sort_by_slot batch"] spends
  have ext: "extends_all (wk_utxos batch1) (utxo_view t) (map wb_block (wk_blocks batch1))"
    by (simp add: ready(4,6))
  have blocks: "wb_raw w \<noteq> [] \<and> decode_block cd (wb_raw w) = Some (wb_block w)" if "w \<in> set (wk_blocks batch1)" for w
  proof -
    let ?ws = "wk_blocks (sort_by_slot batch)"
    have len: "length (wk_blocks batch1) = length ?ws" using arg_cong [OF ready(5), of length] by simp
    from that obtain i where i: "i < length (wk_blocks batch1)" "w = wk_blocks batch1 ! i" by (auto simp: in_set_conv_nth)
    have "wb_raw w = wb_raw (?ws ! i)" "wb_block w = wb_block (?ws ! i)"
      using arg_cong [OF ready(5), of "\<lambda>l. l ! i"] arg_cong [OF ready(6), of "\<lambda>l. l ! i"] i len by simp_all
    moreover have "?ws ! i \<in> set (wk_blocks batch)"
      using i len nth_mem [of i ?ws] by (simp add: sort_by_slot_def)
    ultimately show ?thesis using fresh by (simp add: fresh_batch_def)
  qed
  have deltas: "\<forall>w \<in> set (wk_blocks batch1). \<exists>d. compute_apply_delta (wb_block w) (wk_utxos batch1) = Inr d \<and> wb_utxo_delta w = Some d"
    using ready(1) by (simp add: loaded_batch_def)
  show ?thesis
    unfolding batch_log_def view(3,4)
    by (rule blocks_path [OF view(1,2) ok ext ready(3)]) (use blocks deltas in blast)
qed

end

end
