(* ===== verification/Mempool.thy ===== *)
theory Mempool
  imports Chain_Point
begin

text \<open>
  The in-memory mempool (\<^verbatim>\<open>crates/core/src/builtin/mempool.rs\<close>) and its transactions
  (\<^verbatim>\<open>crates/core/src/mempool.rs\<close>). Operations return the new state and the
  transactions they notify subscribers of, in order. The hash map of acknowledged transactions is a
  map; where the source walks it, an argument \<open>order\<close> lists its keys in the order of the
  walk, which the hasher decides. The type \<open>'r\<close> is that of evaluation reports.
\<close>

section \<open>Transactions\<close>

datatype mempool_tx_stage =
  Pending | Propagated | Acknowledged | Confirmed | Finalized | Dropped | RolledBack | Unknown

record 'r mempool_tx =
  mtx_hash :: tx_hash
  mtx_payload :: era_cbor
  mtx_stage :: mempool_tx_stage
  mtx_confirmations :: u32
  mtx_non_confirmations :: u32
  mtx_confirmed_at :: "chain_point option"
  mtx_report :: "'r option"

definition mempool_tx_new :: "tx_hash \<Rightarrow> era_cbor \<Rightarrow> 'r \<Rightarrow> 'r mempool_tx" where
  "mempool_tx_new hash payload report =
     \<lparr>mtx_hash = hash, mtx_payload = payload, mtx_stage = Pending, mtx_confirmations = 0,
      mtx_non_confirmations = 0, mtx_confirmed_at = None, mtx_report = Some report\<rparr>"

definition tx_clone :: "'r mempool_tx \<Rightarrow> 'r mempool_tx" where
  "tx_clone tx = tx\<lparr>mtx_report := None\<rparr>"

definition tx_confirm :: "build \<Rightarrow> chain_point \<Rightarrow> 'r mempool_tx \<Rightarrow> 'r mempool_tx option" where
  "tx_confirm b point tx = do {
     confirmations \<leftarrow> raw_add b (mtx_confirmations tx) 1;
     Some (tx\<lparr>mtx_stage := Confirmed, mtx_confirmations := confirmations, mtx_non_confirmations := 0,
              mtx_confirmed_at := (case mtx_confirmed_at tx of None \<Rightarrow> Some point | Some p \<Rightarrow> Some p)\<rparr>)
   }"

definition tx_retry :: "'r mempool_tx \<Rightarrow> 'r mempool_tx" where
  "tx_retry tx = tx\<lparr>mtx_stage := Pending, mtx_confirmations := 0, mtx_non_confirmations := 0,
                    mtx_confirmed_at := None\<rparr>"

definition tx_mark_stale :: "build \<Rightarrow> 'r mempool_tx \<Rightarrow> 'r mempool_tx option" where
  "tx_mark_stale b tx = do {
     n \<leftarrow> raw_add b (mtx_non_confirmations tx) 1;
     Some (tx\<lparr>mtx_non_confirmations := n\<rparr>)
   }"

section \<open>The store\<close>

record 'r mempool_state =
  ms_pending :: "'r mempool_tx list"
  ms_inflight :: "'r mempool_tx list"
  ms_acknowledged :: "tx_hash \<rightharpoonup> 'r mempool_tx"
  ms_finalized_log :: "'r mempool_tx list"

definition mempool_new :: "'r mempool_state" where
  "mempool_new = \<lparr>ms_pending = [], ms_inflight = [], ms_acknowledged = Map.empty, ms_finalized_log = []\<rparr>"

definition max_finalized_log :: nat where
  "max_finalized_log = 1000"

datatype mempool_error = DuplicateTx

type_synonym 'r events = "'r mempool_tx list"

definition receive ::
  "'r mempool_tx \<Rightarrow> 'r mempool_state \<Rightarrow> mempool_error + 'r mempool_state \<times> 'r events" where
  "receive tx s =
     (if list_ex (\<lambda>p. mtx_hash p = mtx_hash tx) (ms_pending s) then Inl DuplicateTx
      else Inr (s\<lparr>ms_pending := ms_pending s @ [tx_clone tx]\<rparr>, [tx]))"

definition has_pending :: "'r mempool_state \<Rightarrow> bool" where
  "has_pending s = (ms_pending s \<noteq> [])"

definition peek_pending :: "'r mempool_state \<Rightarrow> 'r mempool_tx list" where
  "peek_pending s = map tx_clone (ms_pending s)"

definition mark_inflight :: "tx_hash list \<Rightarrow> 'r mempool_state \<Rightarrow> 'r mempool_state \<times> 'r events" where
  "mark_inflight hashes s =
     (let moved = map tx_clone (filter (\<lambda>tx. mtx_hash tx \<in> set hashes) (ms_pending s));
          sent = map (\<lambda>tx. tx\<lparr>mtx_stage := Propagated\<rparr>) moved
      in (s\<lparr>ms_pending := filter (\<lambda>tx. mtx_hash tx \<notin> set hashes) (ms_pending s),
           ms_inflight := ms_inflight s @ map tx_clone sent\<rparr>, sent))"

definition mark_acknowledged :: "tx_hash list \<Rightarrow> 'r mempool_state \<Rightarrow> 'r mempool_state \<times> 'r events" where
  "mark_acknowledged hashes s =
     (let moved = map tx_clone (filter (\<lambda>tx. mtx_hash tx \<in> set hashes) (ms_inflight s));
          acked = map (\<lambda>tx. tx\<lparr>mtx_stage := Acknowledged\<rparr>) moved
      in (s\<lparr>ms_inflight := filter (\<lambda>tx. mtx_hash tx \<notin> set hashes) (ms_inflight s),
           ms_acknowledged := fold (\<lambda>tx m. m(mtx_hash tx \<mapsto> tx_clone tx)) acked (ms_acknowledged s)\<rparr>, acked))"

definition find_inflight :: "'r mempool_state \<Rightarrow> tx_hash \<Rightarrow> 'r mempool_tx option" where
  "find_inflight s tx_hash =
     (case find (\<lambda>x. mtx_hash x = tx_hash) (ms_inflight s) of
        Some tx \<Rightarrow> Some (tx_clone tx)
      | None \<Rightarrow> map_option tx_clone (ms_acknowledged s tx_hash))"

definition peek_inflight :: "tx_hash list \<Rightarrow> 'r mempool_state \<Rightarrow> 'r mempool_tx list" where
  "peek_inflight order s = map tx_clone (ms_inflight s @ List.map_filter (ms_acknowledged s) order)"

subsection \<open>Confirming a block\<close>

text \<open>The branch that a seen transaction and an already confirmed one share.\<close>

definition confirm_or_finalize ::
  "build \<Rightarrow> chain_point \<Rightarrow> u32 \<Rightarrow> tx_hash \<Rightarrow> 'r mempool_tx \<Rightarrow> 'r mempool_state
    \<Rightarrow> ('r mempool_state \<times> 'r events) option" where
  "confirm_or_finalize b point finalize_threshold tx_hash tx s = do {
     tx \<leftarrow> tx_confirm b point tx;
     if finalize_threshold \<le> mtx_confirmations tx then
       let finalized = (tx_clone tx)\<lparr>mtx_stage := Finalized\<rparr>
       in Some (s\<lparr>ms_finalized_log := ms_finalized_log s @ [tx_clone finalized],
                  ms_acknowledged := (ms_acknowledged s)(tx_hash := None)\<rparr>, [finalized])
     else Some (s\<lparr>ms_acknowledged := (ms_acknowledged s)(tx_hash \<mapsto> tx)\<rparr>, [tx_clone tx])
   }"

definition confirm_hash ::
  "build \<Rightarrow> chain_point \<Rightarrow> tx_hash list \<Rightarrow> tx_hash list \<Rightarrow> u32 \<Rightarrow> u32 \<Rightarrow> tx_hash \<Rightarrow> 'r mempool_state
    \<Rightarrow> ('r mempool_state \<times> 'r events) option" where
  "confirm_hash b point seen_txs unseen_txs finalize_threshold drop_threshold tx_hash s =
     (case ms_acknowledged s tx_hash of
        None \<Rightarrow> None
      | Some tx \<Rightarrow>
          if tx_hash \<in> set seen_txs then confirm_or_finalize b point finalize_threshold tx_hash tx s
          else if tx_hash \<in> set unseen_txs then
            Some (s\<lparr>ms_acknowledged := (ms_acknowledged s)(tx_hash := None),
                    ms_pending := ms_pending s @ [tx_retry tx]\<rparr>, [(tx_clone tx)\<lparr>mtx_stage := RolledBack\<rparr>])
          else if mtx_stage tx = Confirmed then confirm_or_finalize b point finalize_threshold tx_hash tx s
          else do {
            tx \<leftarrow> tx_mark_stale b tx;
            if drop_threshold \<le> mtx_non_confirmations tx then
              let dropped = (tx_clone tx)\<lparr>mtx_stage := Dropped\<rparr>
              in Some (s\<lparr>ms_finalized_log := ms_finalized_log s @ [tx_clone dropped],
                         ms_acknowledged := (ms_acknowledged s)(tx_hash := None)\<rparr>, [dropped])
            else Some (s\<lparr>ms_acknowledged := (ms_acknowledged s)(tx_hash \<mapsto> tx)\<rparr>, [])
          })"

fun confirm_loop ::
  "build \<Rightarrow> chain_point \<Rightarrow> tx_hash list \<Rightarrow> tx_hash list \<Rightarrow> u32 \<Rightarrow> u32 \<Rightarrow> tx_hash list \<Rightarrow> 'r mempool_state
    \<Rightarrow> ('r mempool_state \<times> 'r events) option" where
  "confirm_loop b point seen unseen ft dt [] s = Some (s, [])"
| "confirm_loop b point seen unseen ft dt (h # hs) s = do {
     (s1, ev1) \<leftarrow> confirm_hash b point seen unseen ft dt h s;
     (s2, ev2) \<leftarrow> confirm_loop b point seen unseen ft dt hs s1;
     Some (s2, ev1 @ ev2)
   }"

definition promote_propagated :: "'r mempool_state \<Rightarrow> 'r mempool_state" where
  "promote_propagated s =
     s\<lparr>ms_inflight := [],
       ms_acknowledged := fold (\<lambda>tx m. m(mtx_hash tx \<mapsto> tx)) (ms_inflight s) (ms_acknowledged s)\<rparr>"

definition trim_finalized :: "'r mempool_state \<Rightarrow> 'r mempool_state" where
  "trim_finalized s =
     (if max_finalized_log < length (ms_finalized_log s)
      then let excess = length (ms_finalized_log s) - max_finalized_log
           in s\<lparr>ms_finalized_log := drop excess (ms_finalized_log s)\<rparr>
      else s)"

text \<open>\<open>order\<close>: the keys of the acknowledged transactions once the propagated ones joined them.\<close>

definition confirm ::
  "build \<Rightarrow> tx_hash list \<Rightarrow> chain_point \<Rightarrow> tx_hash list \<Rightarrow> tx_hash list \<Rightarrow> u32 \<Rightarrow> u32 \<Rightarrow> 'r mempool_state
    \<Rightarrow> ('r mempool_state \<times> 'r events) option" where
  "confirm b order point seen unseen ft dt s =
     (let s1 = promote_propagated s
      in if order = [] then Some (s1, [])
         else do {
           (s2, ev) \<leftarrow> confirm_loop b point seen unseen ft dt order s1;
           Some (trim_finalized s2, ev)
         })"

subsection \<open>Queries\<close>

record tx_status =
  st_stage :: mempool_tx_stage
  st_confirmations :: u32
  st_non_confirmations :: u32
  st_confirmed_at :: "chain_point option"

definition check_status :: "'r mempool_state \<Rightarrow> tx_hash \<Rightarrow> tx_status" where
  "check_status s tx_hash =
     (case ms_acknowledged s tx_hash of
        Some tx \<Rightarrow> \<lparr>st_stage = mtx_stage tx, st_confirmations = mtx_confirmations tx,
                    st_non_confirmations = mtx_non_confirmations tx, st_confirmed_at = mtx_confirmed_at tx\<rparr>
      | None \<Rightarrow>
        (case find (\<lambda>x. mtx_hash x = tx_hash) (ms_inflight s) of
           Some tx \<Rightarrow> \<lparr>st_stage = mtx_stage tx, st_confirmations = 0, st_non_confirmations = 0, st_confirmed_at = None\<rparr>
         | None \<Rightarrow>
             if list_ex (\<lambda>x. mtx_hash x = tx_hash) (ms_pending s)
             then \<lparr>st_stage = Pending, st_confirmations = 0, st_non_confirmations = 0, st_confirmed_at = None\<rparr>
             else \<lparr>st_stage = Unknown, st_confirmations = 0, st_non_confirmations = 0, st_confirmed_at = None\<rparr>))"

definition dump_finalized :: "'r mempool_state \<Rightarrow> u64 \<Rightarrow> nat \<Rightarrow> 'r mempool_tx list \<times> u64 option" where
  "dump_finalized s cursor limit =
     (let start = unat cursor;
          items = map tx_clone (take limit (drop start (ms_finalized_log s)));
          stop = start + length items
      in (items, if stop < length (ms_finalized_log s) then Some (word_of_nat stop) else None))"

section \<open>What a block means for one transaction\<close>

text \<open>
  The specification of \<^verbatim>\<open>confirm\<close>: the fate of each tracked transaction depends on
  that transaction and the block alone.
\<close>

datatype 'r fate = Tracked "'r mempool_tx" | Logged "'r mempool_tx" | Requeued "'r mempool_tx"

definition deepened :: "chain_point \<Rightarrow> 'r mempool_tx \<Rightarrow> 'r mempool_tx" where
  "deepened point tx = tx\<lparr>mtx_stage := Confirmed, mtx_confirmations := mtx_confirmations tx + 1,
     mtx_non_confirmations := 0,
     mtx_confirmed_at := (case mtx_confirmed_at tx of None \<Rightarrow> Some point | Some p \<Rightarrow> Some p)\<rparr>"

definition staler :: "'r mempool_tx \<Rightarrow> 'r mempool_tx" where
  "staler tx = tx\<lparr>mtx_non_confirmations := mtx_non_confirmations tx + 1\<rparr>"

definition tx_fate ::
  "chain_point \<Rightarrow> tx_hash list \<Rightarrow> tx_hash list \<Rightarrow> u32 \<Rightarrow> u32 \<Rightarrow> 'r mempool_tx \<Rightarrow> 'r fate" where
  "tx_fate point seen unseen ft dt tx =
     (if mtx_hash tx \<in> set seen \<or> mtx_hash tx \<notin> set unseen \<and> mtx_stage tx = Confirmed then
        if ft \<le> mtx_confirmations tx + 1
        then Logged (tx_clone (deepened point tx)\<lparr>mtx_stage := Finalized\<rparr>)
        else Tracked (deepened point tx)
      else if mtx_hash tx \<in> set unseen then Requeued (tx_retry tx)
      else if dt \<le> mtx_non_confirmations tx + 1
        then Logged (tx_clone (staler tx)\<lparr>mtx_stage := Dropped\<rparr>)
        else Tracked (staler tx))"

fun tracked_of :: "'r fate \<Rightarrow> 'r mempool_tx option" where
  "tracked_of (Tracked tx) = Some tx"
| "tracked_of _ = None"

fun logged_of :: "'r fate \<Rightarrow> 'r mempool_tx option" where
  "logged_of (Logged tx) = Some tx"
| "logged_of _ = None"

fun requeued_of :: "'r fate \<Rightarrow> 'r mempool_tx option" where
  "requeued_of (Requeued tx) = Some tx"
| "requeued_of _ = None"

section \<open>The invariant\<close>

definition pending_ok :: "'r mempool_tx \<Rightarrow> bool" where
  "pending_ok tx \<longleftrightarrow> mtx_stage tx = Pending \<and> mtx_confirmations tx = 0 \<and> mtx_non_confirmations tx = 0
     \<and> mtx_confirmed_at tx = None \<and> mtx_report tx = None"

definition tracked_ok :: "u32 \<Rightarrow> u32 \<Rightarrow> 'r mempool_tx \<Rightarrow> bool" where
  "tracked_ok ft dt tx \<longleftrightarrow> mtx_report tx = None \<and> mtx_confirmations tx < ft \<and> mtx_non_confirmations tx < dt \<and>
     (if mtx_stage tx = Confirmed
      then 0 < mtx_confirmations tx \<and> mtx_non_confirmations tx = 0 \<and> mtx_confirmed_at tx \<noteq> None
      else mtx_stage tx \<in> {Propagated, Acknowledged} \<and> mtx_confirmations tx = 0 \<and> mtx_confirmed_at tx = None)"

definition logged_ok :: "u32 \<Rightarrow> u32 \<Rightarrow> 'r mempool_tx \<Rightarrow> bool" where
  "logged_ok ft dt tx \<longleftrightarrow>
     mtx_stage tx = Finalized \<and> mtx_confirmations tx = ft \<and> mtx_confirmed_at tx \<noteq> None \<or>
     mtx_stage tx = Dropped \<and> mtx_non_confirmations tx = dt \<and> mtx_confirmed_at tx = None"

definition mempool_ok :: "u32 \<Rightarrow> u32 \<Rightarrow> 'r mempool_state \<Rightarrow> bool" where
  "mempool_ok ft dt s \<longleftrightarrow>
     (\<forall>tx \<in> set (ms_pending s). pending_ok tx) \<and>
     (\<forall>tx \<in> set (ms_inflight s). tracked_ok ft dt tx \<and> mtx_stage tx = Propagated) \<and>
     (\<forall>h tx. ms_acknowledged s h = Some tx \<longrightarrow> mtx_hash tx = h \<and> tracked_ok ft dt tx) \<and>
     (\<forall>tx \<in> set (ms_finalized_log s). logged_ok ft dt tx) \<and>
     length (ms_finalized_log s) \<le> max_finalized_log"

definition enumerates :: "'a list \<Rightarrow> ('a \<rightharpoonup> 'b) \<Rightarrow> bool" where
  "enumerates order m \<longleftrightarrow> distinct order \<and> set order = dom m"

lemma find_snoc: "find P (xs @ [x]) = (case find P xs of None \<Rightarrow> if P x then Some x else None | Some y \<Rightarrow> Some y)"
  by (induction xs) auto

lemma fold_insert_map:
  "fold (\<lambda>tx m. m(mtx_hash tx \<mapsto> f tx)) txs m h =
     (case find (\<lambda>tx. mtx_hash tx = h) (rev txs) of Some tx \<Rightarrow> Some (f tx) | None \<Rightarrow> m h)"
proof (induction txs arbitrary: m)
  case Nil
  then show ?case by simp
next
  case (Cons tx txs)
  then show ?case by (simp add: find_snoc split: option.splits)
qed

lemma promoted_ack:
  "ms_acknowledged (promote_propagated s) h =
     (case find (\<lambda>tx. mtx_hash tx = h) (rev (ms_inflight s)) of Some tx \<Rightarrow> Some tx | None \<Rightarrow> ms_acknowledged s h)"
  unfolding promote_propagated_def using fold_insert_map [of "\<lambda>tx. tx"] by simp

lemma find_SomeD: "find P xs = Some x \<Longrightarrow> x \<in> set xs \<and> P x"
  by (auto simp: find_Some_iff)

lemma mempool_ok_promote: "mempool_ok ft dt s \<Longrightarrow> mempool_ok ft dt (promote_propagated s)"
  unfolding mempool_ok_def promoted_ack
  by (auto simp: promote_propagated_def split: option.splits dest!: find_SomeD)

lemma tracked_fits:
  assumes "tracked_ok ft dt tx"
  shows "raw_add b (mtx_confirmations tx) 1 = Some (mtx_confirmations tx + 1)"
    and "raw_add b (mtx_non_confirmations tx) 1 = Some (mtx_non_confirmations tx + 1)"
proof -
  have "raw_add b (x :: u32) 1 = Some (x + 1)" if "x < y" for x y
    using that unsigned_less [where 'a = nat, of y]
    by (simp add: raw_add_def checked_add_def word_less_nat_alt)
  then show "raw_add b (mtx_confirmations tx) 1 = Some (mtx_confirmations tx + 1)"
    and "raw_add b (mtx_non_confirmations tx) 1 = Some (mtx_non_confirmations tx + 1)"
    using assms by (auto simp: tracked_ok_def)
qed

lemma confirm_hash_fate:
  assumes tx: "ms_acknowledged s h = Some tx" and h: "mtx_hash tx = h" and ok: "tracked_ok ft dt tx"
  obtains ev where "confirm_hash b point seen unseen ft dt h s = Some
      (s\<lparr>ms_acknowledged := (ms_acknowledged s)(h := tracked_of (tx_fate point seen unseen ft dt tx)),
         ms_pending := ms_pending s @ (case requeued_of (tx_fate point seen unseen ft dt tx) of Some t \<Rightarrow> [t] | None \<Rightarrow> []),
         ms_finalized_log := ms_finalized_log s @ (case logged_of (tx_fate point seen unseen ft dt tx) of Some t \<Rightarrow> [t] | None \<Rightarrow> [])\<rparr>, ev)"
    and "\<And>t. logged_of (tx_fate point seen unseen ft dt tx) = Some t \<Longrightarrow> t \<in> set ev"
proof -
  note defs = confirm_hash_def confirm_or_finalize_def tx_confirm_def tx_mark_stale_def tx_fate_def deepened_def
    staler_def tx_clone_def
  have "\<exists>ev. confirm_hash b point seen unseen ft dt h s = Some
      (s\<lparr>ms_acknowledged := (ms_acknowledged s)(h := tracked_of (tx_fate point seen unseen ft dt tx)),
         ms_pending := ms_pending s @ (case requeued_of (tx_fate point seen unseen ft dt tx) of Some t \<Rightarrow> [t] | None \<Rightarrow> []),
         ms_finalized_log := ms_finalized_log s @ (case logged_of (tx_fate point seen unseen ft dt tx) of Some t \<Rightarrow> [t] | None \<Rightarrow> [])\<rparr>, ev)
      \<and> (\<forall>t. logged_of (tx_fate point seen unseen ft dt tx) = Some t \<longrightarrow> t \<in> set ev)"
    by (cases "h \<in> set seen"; cases "h \<in> set unseen"; cases "mtx_stage tx = Confirmed";
        cases "ft \<le> mtx_confirmations tx + 1"; cases "dt \<le> mtx_non_confirmations tx + 1")
      (simp_all add: defs tx h tracked_fits [OF ok] Let_def)
  with that show thesis by blast
qed

text \<open>The whole walk: every transaction meets its own fate, whatever the order.\<close>

definition fated :: "('r fate \<Rightarrow> 'r mempool_tx option) \<Rightarrow> chain_point \<Rightarrow> tx_hash list \<Rightarrow> tx_hash list
    \<Rightarrow> u32 \<Rightarrow> u32 \<Rightarrow> (tx_hash \<rightharpoonup> 'r mempool_tx) \<Rightarrow> tx_hash \<Rightarrow> 'r mempool_tx option" where
  "fated part point seen unseen ft dt m h = Option.bind (m h) (\<lambda>tx. part (tx_fate point seen unseen ft dt tx))"

lemma confirm_loop_fates:
  assumes "distinct hs" and "\<forall>h \<in> set hs. \<exists>tx. ms_acknowledged s h = Some tx \<and> mtx_hash tx = h \<and> tracked_ok ft dt tx"
  obtains s' ev where "confirm_loop b point seen unseen ft dt hs s = Some (s', ev)"
    and "ms_acknowledged s' = (\<lambda>h. if h \<in> set hs then fated tracked_of point seen unseen ft dt (ms_acknowledged s) h
                                   else ms_acknowledged s h)"
    and "ms_pending s' = ms_pending s @ List.map_filter (fated requeued_of point seen unseen ft dt (ms_acknowledged s)) hs"
    and "ms_finalized_log s' = ms_finalized_log s @ List.map_filter (fated logged_of point seen unseen ft dt (ms_acknowledged s)) hs"
    and "ms_inflight s' = ms_inflight s"
    and "\<forall>h \<in> set hs. \<forall>t. fated logged_of point seen unseen ft dt (ms_acknowledged s) h = Some t \<longrightarrow> t \<in> set ev"
  using assms
proof (induction hs arbitrary: s thesis)
  case Nil
  then show ?case by (simp add: map_filter_simps)
next
  case (Cons h hs)
  obtain tx where tx: "ms_acknowledged s h = Some tx" "mtx_hash tx = h" "tracked_ok ft dt tx"
    using Cons.prems(3) by auto
  let ?f = "tx_fate point seen unseen ft dt tx"
  let ?s = "s\<lparr>ms_acknowledged := (ms_acknowledged s)(h := tracked_of ?f),
         ms_pending := ms_pending s @ (case requeued_of ?f of Some t \<Rightarrow> [t] | None \<Rightarrow> []),
         ms_finalized_log := ms_finalized_log s @ (case logged_of ?f of Some t \<Rightarrow> [t] | None \<Rightarrow> [])\<rparr>"
  obtain ev1 where one: "confirm_hash b point seen unseen ft dt h s = Some (?s, ev1)"
    and ev1: "\<And>t. logged_of ?f = Some t \<Longrightarrow> t \<in> set ev1"
    using confirm_hash_fate [OF tx] by blast
  have other: "ms_acknowledged ?s g = ms_acknowledged s g" if "g \<in> set hs" for g
    using that Cons.prems(2) by auto
  then have same: "fated part point seen unseen ft dt (ms_acknowledged ?s) g = fated part point seen unseen ft dt (ms_acknowledged s) g"
    if "g \<in> set hs" for g and part :: "'a fate \<Rightarrow> 'a mempool_tx option" using that by (simp add: fated_def)
  have filter: "List.map_filter (fated part point seen unseen ft dt (ms_acknowledged ?s)) hs
      = List.map_filter (fated part point seen unseen ft dt (ms_acknowledged s)) hs" for part :: "'a fate \<Rightarrow> 'a mempool_tx option"
    using same by (simp add: map_filter_def cong: filter_cong map_cong)
  have head: "fated part point seen unseen ft dt (ms_acknowledged s) h = part ?f" for part :: "'a fate \<Rightarrow> 'a mempool_tx option"
    by (simp add: fated_def tx(1))
  have d: "distinct hs" using Cons.prems(2) by simp
  have t: "\<forall>h \<in> set hs. \<exists>tx. ms_acknowledged ?s h = Some tx \<and> mtx_hash tx = h \<and> tracked_ok ft dt tx"
    using Cons.prems(3) other by (intro ballI) (simp only: list.set_intros)
  from Cons.IH [OF _ d t] obtain s' ev2 where
      rest: "confirm_loop b point seen unseen ft dt hs ?s = Some (s', ev2)"
      and ack: "ms_acknowledged s' = (\<lambda>h. if h \<in> set hs then fated tracked_of point seen unseen ft dt (ms_acknowledged ?s) h
                                   else ms_acknowledged ?s h)"
      and pend: "ms_pending s' = ms_pending ?s @ List.map_filter (fated requeued_of point seen unseen ft dt (ms_acknowledged ?s)) hs"
      and log: "ms_finalized_log s' = ms_finalized_log ?s @ List.map_filter (fated logged_of point seen unseen ft dt (ms_acknowledged ?s)) hs"
      and infl: "ms_inflight s' = ms_inflight ?s"
      and ev2: "\<forall>h \<in> set hs. \<forall>t. fated logged_of point seen unseen ft dt (ms_acknowledged ?s) h = Some t \<longrightarrow> t \<in> set ev2"
    by blast
  show ?case
  proof (rule Cons.prems(1))
    show "confirm_loop b point seen unseen ft dt (h # hs) s = Some (s', ev1 @ ev2)"
      by (simp only: confirm_loop.simps one rest Option.bind.simps case_prod_conv)
    show "ms_acknowledged s' = (\<lambda>g. if g \<in> set (h # hs) then fated tracked_of point seen unseen ft dt (ms_acknowledged s) g
                                   else ms_acknowledged s g)"
      using Cons.prems(2) same by (auto simp: ack fun_eq_iff head)
    show "ms_pending s' = ms_pending s @ List.map_filter (fated requeued_of point seen unseen ft dt (ms_acknowledged s)) (h # hs)"
      by (simp add: pend filter [simplified] map_filter_simps head split: option.splits)
    show "ms_finalized_log s' = ms_finalized_log s @ List.map_filter (fated logged_of point seen unseen ft dt (ms_acknowledged s)) (h # hs)"
      by (simp add: log filter [simplified] map_filter_simps head split: option.splits)
    show "ms_inflight s' = ms_inflight s" by (simp add: infl)
    show "\<forall>g \<in> set (h # hs). \<forall>t. fated logged_of point seen unseen ft dt (ms_acknowledged s) g = Some t \<longrightarrow> t \<in> set (ev1 @ ev2)"
      using ev1 ev2 same by (auto simp: head)
  qed
qed

lemma trim_finalized_log: "ms_finalized_log (trim_finalized s) = drop (length (ms_finalized_log s) - max_finalized_log) (ms_finalized_log s)"
  by (simp add: trim_finalized_def Let_def)

lemma trim_finalized_other [simp]:
  "ms_acknowledged (trim_finalized s) = ms_acknowledged s" "ms_pending (trim_finalized s) = ms_pending s"
  "ms_inflight (trim_finalized s) = ms_inflight s"
  by (simp_all add: trim_finalized_def Let_def)

lemma promote_other [simp]:
  "ms_pending (promote_propagated s) = ms_pending s" "ms_finalized_log (promote_propagated s) = ms_finalized_log s"
  "ms_inflight (promote_propagated s) = []"
  by (simp_all add: promote_propagated_def)

lemma confirm_fates:
  assumes ok: "mempool_ok ft dt s" and order: "enumerates order (ms_acknowledged (promote_propagated s))"
  obtains s' ev where "confirm b order point seen unseen ft dt s = Some (s', ev)"
    and "ms_acknowledged s' = fated tracked_of point seen unseen ft dt (ms_acknowledged (promote_propagated s))"
    and "ms_pending s' = ms_pending s
      @ List.map_filter (fated requeued_of point seen unseen ft dt (ms_acknowledged (promote_propagated s))) order"
    and "ms_finalized_log s' = (let log = ms_finalized_log s
           @ List.map_filter (fated logged_of point seen unseen ft dt (ms_acknowledged (promote_propagated s))) order
         in drop (length log - max_finalized_log) log)"
    and "ms_inflight s' = []"
    and "\<forall>h t. fated logged_of point seen unseen ft dt (ms_acknowledged (promote_propagated s)) h = Some t \<longrightarrow> t \<in> set ev"
proof (cases "order = []")
  case True
  then have "ms_acknowledged (promote_propagated s) = Map.empty"
    using order by (metis enumerates_def dom_eq_empty_conv list.set(1))
  moreover have "length (ms_finalized_log s) \<le> max_finalized_log" using ok by (simp add: mempool_ok_def)
  ultimately show thesis using True
    by (intro that [of "promote_propagated s" "[]"]) (simp_all add: confirm_def fated_def map_filter_simps fun_eq_iff)
next
  case False
  let ?m = "ms_acknowledged (promote_propagated s)"
  have "\<forall>h \<in> set order. \<exists>tx. ?m h = Some tx \<and> mtx_hash tx = h \<and> tracked_ok ft dt tx"
    using mempool_ok_promote [OF ok] order by (fastforce simp: mempool_ok_def enumerates_def)
  then obtain s' ev where loop: "confirm_loop b point seen unseen ft dt order (promote_propagated s) = Some (s', ev)"
    and ack: "ms_acknowledged s' = (\<lambda>h. if h \<in> set order then fated tracked_of point seen unseen ft dt ?m h else ?m h)"
    and rest: "ms_pending s' = ms_pending s @ List.map_filter (fated requeued_of point seen unseen ft dt ?m) order"
      "ms_finalized_log s' = ms_finalized_log s @ List.map_filter (fated logged_of point seen unseen ft dt ?m) order"
      "ms_inflight s' = []"
    and ev: "\<forall>h \<in> set order. \<forall>t. fated logged_of point seen unseen ft dt ?m h = Some t \<longrightarrow> t \<in> set ev"
    using confirm_loop_fates [of order "promote_propagated s" ft dt b point seen unseen] order
    unfolding enumerates_def promote_other by blast
  have out: "?m h = None" if "h \<notin> set order" for h using that order by (auto simp: enumerates_def)
  show thesis
  proof (rule that [of "trim_finalized s'" ev])
    show "ms_acknowledged (trim_finalized s') = fated tracked_of point seen unseen ft dt ?m"
      using out by (auto simp: ack fated_def fun_eq_iff)
    show "\<forall>h t. fated logged_of point seen unseen ft dt ?m h = Some t \<longrightarrow> t \<in> set ev"
      using ev out by (fastforce simp: fated_def bind_eq_Some_conv)
  qed (use False loop rest in \<open>simp_all add: confirm_def trim_finalized_log Let_def\<close>)
qed

lemma tx_fate_ok:
  assumes "tracked_ok ft dt tx"
  shows "tracked_of (tx_fate point seen unseen ft dt tx) = Some t \<Longrightarrow> tracked_ok ft dt t \<and> mtx_hash t = mtx_hash tx"
    and "requeued_of (tx_fate point seen unseen ft dt tx) = Some t \<Longrightarrow> pending_ok t \<and> mtx_hash t = mtx_hash tx"
    and "logged_of (tx_fate point seen unseen ft dt tx) = Some t \<Longrightarrow> logged_ok ft dt t \<and> mtx_hash t = mtx_hash tx"
proof -
  have inc: "0 < y \<and> 0 < x + 1 \<and> (x + 1 = y \<or> x + 1 < y)" if "x < y" for x y :: u32
  proof -
    have "unat (x + 1) = unat x + 1"
      using that unsigned_less [where 'a = nat, of y] by (simp add: word_less_nat_alt unat_plus_if')
    with that show ?thesis by (auto simp: word_less_nat_alt word_unat_eq_iff)
  qed
  note c = inc [of "mtx_confirmations tx" ft] and n = inc [of "mtx_non_confirmations tx" dt]
  show "tracked_of (tx_fate point seen unseen ft dt tx) = Some t \<Longrightarrow> tracked_ok ft dt t \<and> mtx_hash t = mtx_hash tx"
    using assms c n by (auto simp: tx_fate_def tracked_ok_def deepened_def staler_def tx_clone_def not_le
        split: if_splits option.splits)
  show "requeued_of (tx_fate point seen unseen ft dt tx) = Some t \<Longrightarrow> pending_ok t \<and> mtx_hash t = mtx_hash tx"
    using assms by (auto simp: tx_fate_def tracked_ok_def pending_ok_def tx_retry_def split: if_splits)
  show "logged_of (tx_fate point seen unseen ft dt tx) = Some t \<Longrightarrow> logged_ok ft dt t \<and> mtx_hash t = mtx_hash tx"
    using assms c n by (auto simp: tx_fate_def tracked_ok_def logged_ok_def deepened_def staler_def tx_clone_def
        split: if_splits option.splits)
qed

lemma fated_SomeD:
  "fated part point seen unseen ft dt m h = Some t \<Longrightarrow> \<exists>tx. m h = Some tx \<and> part (tx_fate point seen unseen ft dt tx) = Some t"
  by (auto simp: fated_def bind_eq_Some_conv)

lemma set_map_filter_Some: "x \<in> set (List.map_filter f xs) \<longleftrightarrow> (\<exists>y \<in> set xs. f y = Some x)"
  by (force simp: map_filter_def)

lemma confirm_ok:
  assumes ok: "mempool_ok ft dt s" and order: "enumerates order (ms_acknowledged (promote_propagated s))"
    and run: "confirm b order point seen unseen ft dt s = Some (s', ev)"
  shows "mempool_ok ft dt s'"
proof -
  let ?m = "ms_acknowledged (promote_propagated s)"
  have m: "\<And>h tx. ?m h = Some tx \<Longrightarrow> mtx_hash tx = h \<and> tracked_ok ft dt tx"
    using mempool_ok_promote [OF ok] by (simp add: mempool_ok_def)
  have fate: "fated requeued_of point seen unseen ft dt ?m h = Some t \<Longrightarrow> pending_ok t"
      "fated tracked_of point seen unseen ft dt ?m h = Some t \<Longrightarrow> mtx_hash t = h \<and> tracked_ok ft dt t"
      "fated logged_of point seen unseen ft dt ?m h = Some t \<Longrightarrow> logged_ok ft dt t" for h t
    by (drule fated_SomeD, elim exE conjE, drule m, elim conjE, drule tx_fate_ok, assumption, simp)+
  have s': "ms_acknowledged s' = fated tracked_of point seen unseen ft dt ?m"
      "ms_pending s' = ms_pending s @ List.map_filter (fated requeued_of point seen unseen ft dt ?m) order"
      "ms_finalized_log s' = (let log = ms_finalized_log s @ List.map_filter (fated logged_of point seen unseen ft dt ?m) order
         in drop (length log - max_finalized_log) log)"
      "ms_inflight s' = []"
    using confirm_fates [OF ok order, of b point seen unseen] run by auto
  show ?thesis
    unfolding mempool_ok_def s' Let_def
  proof (intro conjI allI impI ballI)
    fix tx assume "tx \<in> set (ms_pending s @ List.map_filter (fated requeued_of point seen unseen ft dt ?m) order)"
    then show "pending_ok tx" using ok fate(1) by (auto simp: mempool_ok_def set_map_filter_Some)
  next
    fix h tx assume "fated tracked_of point seen unseen ft dt ?m h = Some tx"
    from fate(2) [OF this] show "mtx_hash tx = h" and "tracked_ok ft dt tx" by simp_all
  next
    fix tx
    let ?log = "ms_finalized_log s @ List.map_filter (fated logged_of point seen unseen ft dt ?m) order"
    assume "tx \<in> set (drop (length ?log - max_finalized_log) ?log)"
    then have "tx \<in> set ?log" by (rule in_set_dropD)
    then show "logged_ok ft dt tx" using ok fate(3) by (auto simp: mempool_ok_def set_map_filter_Some)
  qed simp_all
qed

section \<open>The life cycle as a state machine\<close>

inductive mempool_step :: "build \<Rightarrow> u32 \<Rightarrow> u32 \<Rightarrow> 'r mempool_state \<Rightarrow> 'r mempool_state \<Rightarrow> bool"
  for b ft dt where
  Receive: "receive (mempool_tx_new hash payload report) s = Inr (s', ev) \<Longrightarrow> mempool_step b ft dt s s'"
| MarkInflight: "mark_inflight hashes s = (s', ev) \<Longrightarrow> mempool_step b ft dt s s'"
| MarkAcknowledged: "mark_acknowledged hashes s = (s', ev) \<Longrightarrow> mempool_step b ft dt s s'"
| Confirm: "enumerates order (ms_acknowledged (promote_propagated s))
    \<Longrightarrow> confirm b order point seen unseen ft dt s = Some (s', ev) \<Longrightarrow> mempool_step b ft dt s s'"

inductive mempool_reach :: "build \<Rightarrow> u32 \<Rightarrow> u32 \<Rightarrow> 'r mempool_state \<Rightarrow> bool" for b ft dt where
  Init: "mempool_reach b ft dt mempool_new"
| Step: "mempool_reach b ft dt s \<Longrightarrow> mempool_step b ft dt s s' \<Longrightarrow> mempool_reach b ft dt s'"

lemma receive_ok:
  "mempool_ok ft dt s \<Longrightarrow> receive (mempool_tx_new hash payload report) s = Inr (s', ev) \<Longrightarrow> mempool_ok ft dt s'"
  by (auto simp: receive_def mempool_ok_def mempool_tx_new_def tx_clone_def pending_ok_def split: if_splits)

lemma sent_ok: "pending_ok tx \<Longrightarrow> 0 < ft \<Longrightarrow> 0 < dt \<Longrightarrow> tracked_ok ft dt (tx\<lparr>mtx_stage := Propagated\<rparr>)"
  by (simp add: pending_ok_def tracked_ok_def)

lemma acked_ok: "tracked_ok ft dt tx \<Longrightarrow> mtx_stage tx = Propagated \<Longrightarrow> tracked_ok ft dt (tx\<lparr>mtx_stage := Acknowledged\<rparr>)"
  by (auto simp: tracked_ok_def)

lemma clone_id: "mtx_report tx = None \<Longrightarrow> tx_clone tx = tx"
  by (simp add: tx_clone_def)

lemma mark_inflight_ok:
  assumes ok: "mempool_ok ft dt s" and pos: "0 < ft" "0 < dt"
  shows "mempool_ok ft dt (fst (mark_inflight hashes s))"
proof -
  have p: "\<And>tx. tx \<in> set (ms_pending s) \<Longrightarrow> pending_ok tx" using ok by (simp add: mempool_ok_def)
  then have "tx_clone ((tx_clone tx)\<lparr>mtx_stage := Propagated\<rparr>) = tx\<lparr>mtx_stage := Propagated\<rparr>"
    if "tx \<in> set (ms_pending s)" for tx using that by (auto simp: tx_clone_def pending_ok_def)
  with ok p sent_ok [OF _ pos] show ?thesis
    unfolding mempool_ok_def by (auto simp: mark_inflight_def Let_def)
qed

lemma mark_acknowledged_ok:
  assumes ok: "mempool_ok ft dt s"
  shows "mempool_ok ft dt (fst (mark_acknowledged hashes s))"
proof -
  let ?acked = "map (\<lambda>tx. tx\<lparr>mtx_stage := Acknowledged\<rparr>)
      (map tx_clone (filter (\<lambda>tx. mtx_hash tx \<in> set hashes) (ms_inflight s)))"
  have acked: "tracked_ok ft dt (tx_clone t)" if "t \<in> set ?acked" for t
  proof -
    from that obtain tx where tx: "tx \<in> set (ms_inflight s)" "t = (tx_clone tx)\<lparr>mtx_stage := Acknowledged\<rparr>" by auto
    have "tracked_ok ft dt tx" "mtx_stage tx = Propagated" using ok tx(1) by (simp_all add: mempool_ok_def)
    from acked_ok [OF this] this show ?thesis by (simp add: tx(2) tx_clone_def tracked_ok_def)
  qed
  have ack: "mtx_hash t = h \<and> tracked_ok ft dt t"
    if "fold (\<lambda>tx m. m(mtx_hash tx \<mapsto> tx_clone tx)) ?acked (ms_acknowledged s) h = Some t" for h t
  proof (cases "find (\<lambda>tx. mtx_hash tx = h) (rev ?acked)")
    case None
    then have "ms_acknowledged s h = Some t" using that unfolding fold_insert_map by simp
    then show ?thesis using ok by (simp add: mempool_ok_def)
  next
    case (Some u)
    then have "t = tx_clone u" using that unfolding fold_insert_map by simp
    moreover from find_SomeD [OF Some] have "u \<in> set ?acked" "mtx_hash u = h" by simp_all
    ultimately show ?thesis using acked [of u] by (simp add: tx_clone_def)
  qed
  let ?s = "fst (mark_acknowledged hashes s)"
  have fields: "ms_pending ?s = ms_pending s" "ms_finalized_log ?s = ms_finalized_log s"
      "ms_inflight ?s = filter (\<lambda>tx. mtx_hash tx \<notin> set hashes) (ms_inflight s)"
      "ms_acknowledged ?s = fold (\<lambda>tx m. m(mtx_hash tx \<mapsto> tx_clone tx)) ?acked (ms_acknowledged s)"
    by (simp_all add: mark_acknowledged_def Let_def)
  show ?thesis
    unfolding mempool_ok_def fields
    by (intro conjI allI impI; (drule ack)?) (use ok in \<open>simp_all add: mempool_ok_def\<close>)
qed

lemma mempool_step_ok:
  assumes "mempool_step b ft dt s s'" "mempool_ok ft dt s" "0 < ft" "0 < dt"
  shows "mempool_ok ft dt s'"
  using assms(1)
proof cases
  case (Receive hash payload report ev)
  then show ?thesis by (rule receive_ok [OF assms(2)])
next
  case (MarkInflight hashes ev)
  then show ?thesis using mark_inflight_ok [OF assms(2,3,4), of hashes] by simp
next
  case (MarkAcknowledged hashes ev)
  then show ?thesis using mark_acknowledged_ok [OF assms(2), of hashes] by simp
next
  case (Confirm order point seen unseen ev)
  then show ?thesis by (rule confirm_ok [OF assms(2)])
qed

lemma mempool_reach_ok:
  assumes "mempool_reach b ft dt s" "0 < ft" "0 < dt"
  shows "mempool_ok ft dt s"
  using assms(1)
proof induction
  case Init
  then show ?case by (simp add: mempool_new_def mempool_ok_def)
next
  case (Step s s')
  then show ?case using mempool_step_ok assms(2,3) by blast
qed

section \<open>Runs of blocks\<close>

record block_notice =
  bn_order :: "tx_hash list"
  bn_point :: chain_point
  bn_seen :: "tx_hash list"
  bn_unseen :: "tx_hash list"

fun confirm_run :: "build \<Rightarrow> u32 \<Rightarrow> u32 \<Rightarrow> block_notice list \<Rightarrow> 'r mempool_state \<Rightarrow> ('r mempool_state \<times> 'r events) option" where
  "confirm_run b ft dt [] s = Some (s, [])"
| "confirm_run b ft dt (n # ns) s = do {
     (s1, ev1) \<leftarrow> confirm b (bn_order n) (bn_point n) (bn_seen n) (bn_unseen n) ft dt s;
     (s2, ev2) \<leftarrow> confirm_run b ft dt ns s1;
     Some (s2, ev1 @ ev2)
   }"

text \<open>Every notice walks exactly the transactions tracked at its time.\<close>

fun orders_ok :: "build \<Rightarrow> u32 \<Rightarrow> u32 \<Rightarrow> block_notice list \<Rightarrow> 'r mempool_state \<Rightarrow> bool" where
  "orders_ok b ft dt [] s = True"
| "orders_ok b ft dt (n # ns) s \<longleftrightarrow> enumerates (bn_order n) (ms_acknowledged (promote_propagated s)) \<and>
     (\<forall>s1 ev. confirm b (bn_order n) (bn_point n) (bn_seen n) (bn_unseen n) ft dt s = Some (s1, ev)
        \<longrightarrow> orders_ok b ft dt ns s1)"

lemma promoted_no_inflight: "ms_inflight s = [] \<Longrightarrow> ms_acknowledged (promote_propagated s) = ms_acknowledged s"
  by (simp add: promote_propagated_def)

lemma confirm_returns:
  assumes "mempool_ok ft dt s" "enumerates order (ms_acknowledged (promote_propagated s))"
  shows "\<exists>s' ev. confirm b order point seen unseen ft dt s = Some (s', ev)"
  by (rule confirm_fates [OF assms, of b point seen unseen]) blast

lemma confirm_run_total:
  assumes "mempool_ok ft dt s" "orders_ok b ft dt ns s"
  obtains s' ev where "confirm_run b ft dt ns s = Some (s', ev)" "mempool_ok ft dt s'"
  using assms
proof (induction ns arbitrary: s thesis)
  case Nil
  then show ?case by simp
next
  case (Cons n ns)
  from Cons.prems(3) have order: "enumerates (bn_order n) (ms_acknowledged (promote_propagated s))" by simp
  obtain s1 ev1 where one: "confirm b (bn_order n) (bn_point n) (bn_seen n) (bn_unseen n) ft dt s = Some (s1, ev1)"
    using confirm_returns [OF Cons.prems(2) order] by metis
  then have "orders_ok b ft dt ns s1" using Cons.prems(3) by simp
  from Cons.IH [OF _ confirm_ok [OF Cons.prems(2) order one] this] obtain s2 ev2
    where run: "confirm_run b ft dt ns s1 = Some (s2, ev2)" and ok: "mempool_ok ft dt s2" by blast
  show ?case by (rule Cons.prems(1) [OF _ ok]) (simp add: one run)
qed

text \<open>A transaction a block shows, or that is confirmed already, goes deeper unless it is rolled back.\<close>

lemma confirm_deepens:
  assumes ok: "mempool_ok ft dt s" and order: "enumerates order (ms_acknowledged (promote_propagated s))"
    and run: "confirm b order point seen unseen ft dt s = Some (s', ev)"
    and tx: "ms_acknowledged (promote_propagated s) h = Some tx"
    and here: "h \<in> set seen \<or> h \<notin> set unseen \<and> mtx_stage tx = Confirmed"
  shows "ft \<le> mtx_confirmations tx + 1 \<Longrightarrow> tx_clone (deepened point tx)\<lparr>mtx_stage := Finalized\<rparr> \<in> set ev"
    and "mtx_confirmations tx + 1 < ft \<Longrightarrow> ms_acknowledged (promote_propagated s') h = Some (deepened point tx)"
proof -
  let ?m = "ms_acknowledged (promote_propagated s)"
  have h: "mtx_hash tx = h" using mempool_ok_promote [OF ok] tx by (auto simp: mempool_ok_def)
  have s': "ms_acknowledged s' = fated tracked_of point seen unseen ft dt ?m" "ms_inflight s' = []"
      "\<forall>h t. fated logged_of point seen unseen ft dt ?m h = Some t \<longrightarrow> t \<in> set ev"
    by (rule confirm_fates [OF ok order, of b point seen unseen]; use run in simp)+
  show "tx_clone (deepened point tx)\<lparr>mtx_stage := Finalized\<rparr> \<in> set ev" if "ft \<le> mtx_confirmations tx + 1"
    by (rule s'(3) [rule_format, of h]) (use here that in \<open>auto simp: fated_def tx tx_fate_def h\<close>)
  show "ms_acknowledged (promote_propagated s') h = Some (deepened point tx)" if "mtx_confirmations tx + 1 < ft"
    using here that by (auto simp: promoted_no_inflight [OF s'(2)] s'(1) fated_def tx tx_fate_def h)
qed

text \<open>Enough notices finalize it, with the point of the first one that showed it.\<close>

lemma confirm_run_finalizes:
  assumes "mempool_ok ft dt s" "orders_ok b ft dt ns s" "confirm_run b ft dt ns s = Some (s', ev)"
    and "ms_acknowledged (promote_propagated s) h = Some tx"
    and "ns \<noteq> []" "h \<in> set (bn_seen (hd ns)) \<or> mtx_stage tx = Confirmed"
    and "\<forall>n \<in> set ns. h \<notin> set (bn_unseen n)"
    and "unat (mtx_confirmations tx) + length ns = unat ft"
  shows "\<exists>t \<in> set ev. mtx_hash t = h \<and> mtx_stage t = Finalized \<and> mtx_confirmations t = ft \<and>
    mtx_confirmed_at t = (case mtx_confirmed_at tx of None \<Rightarrow> Some (bn_point (hd ns)) | Some p \<Rightarrow> Some p)"
  using assms
proof (induction ns arbitrary: s tx ev)
  case Nil
  then show ?case by simp
next
  case (Cons n ns)
  have order: "enumerates (bn_order n) (ms_acknowledged (promote_propagated s))" using Cons.prems(2) by simp
  from Cons.prems(3) obtain s1 ev1 ev2
    where one: "confirm b (bn_order n) (bn_point n) (bn_seen n) (bn_unseen n) ft dt s = Some (s1, ev1)"
      and rest: "confirm_run b ft dt ns s1 = Some (s', ev2)" and ev: "ev = ev1 @ ev2"
    by (auto simp: panic_simps)
  have h: "mtx_hash tx = h" using mempool_ok_promote [OF Cons.prems(1)] Cons.prems(4) by (auto simp: mempool_ok_def)
  have here: "h \<in> set (bn_seen n) \<or> h \<notin> set (bn_unseen n) \<and> mtx_stage tx = Confirmed"
    using Cons.prems(6,7) by auto
  note deep = confirm_deepens [OF Cons.prems(1) order one Cons.prems(4) here]
  have conf: "unat (mtx_confirmations tx + 1) = unat (mtx_confirmations tx) + 1"
    using Cons.prems(8) unsigned_less [where 'a = nat, of ft] by (simp add: unat_plus_if')
  show ?case
  proof (cases "ns = []")
    case True
    then have "mtx_confirmations tx + 1 = ft" using Cons.prems(8) conf by (simp add: word_unat_eq_iff)
    with deep(1) show ?thesis
      by (intro bexI [of _ "tx_clone (deepened (bn_point n) tx)\<lparr>mtx_stage := Finalized\<rparr>"])
        (simp_all add: ev deepened_def tx_clone_def h split: option.splits)
  next
    case False
    then have "mtx_confirmations tx + 1 < ft"
      using Cons.prems(8) conf by (cases ns) (simp_all add: word_less_nat_alt)
    note ack = deep(2) [OF this]
    have "\<exists>t \<in> set ev2. mtx_hash t = h \<and> mtx_stage t = Finalized \<and> mtx_confirmations t = ft \<and>
        mtx_confirmed_at t = (case mtx_confirmed_at (deepened (bn_point n) tx) of
          None \<Rightarrow> Some (bn_point (hd ns)) | Some p \<Rightarrow> Some p)"
    proof (rule Cons.IH [OF confirm_ok [OF Cons.prems(1) order one] _ rest ack False])
      show "orders_ok b ft dt ns s1" using Cons.prems(2) one by simp
    qed (use Cons.prems(7,8) conf in \<open>simp_all add: deepened_def\<close>)
    then show ?thesis by (auto simp: ev deepened_def split: option.splits)
  qed
qed

section \<open>Reading the log of finished transactions\<close>

text \<open>Following the cursors from the start of a log that does not change gives all of it.\<close>

fun dump_pages :: "'r mempool_state \<Rightarrow> nat \<Rightarrow> nat \<Rightarrow> u64 \<Rightarrow> 'r mempool_tx list" where
  "dump_pages s limit 0 cursor = []"
| "dump_pages s limit (Suc n) cursor =
     (case dump_finalized s cursor limit of
        (items, None) \<Rightarrow> items
      | (items, Some next) \<Rightarrow> items @ dump_pages s limit n next)"

lemma dump_pages_all:
  assumes "length (ms_finalized_log s) \<le> max_finalized_log" and "0 < limit"
    and "length (ms_finalized_log s) \<le> unat cursor + n"
  shows "dump_pages s limit (Suc n) cursor = map tx_clone (drop (unat cursor) (ms_finalized_log s))"
  using assms(3)
proof (induction n arbitrary: cursor)
  case 0
  then show ?case by (simp add: dump_finalized_def Let_def)
next
  case (Suc n)
  let ?stop = "unat cursor + min limit (length (ms_finalized_log s) - unat cursor)"
  show ?case
  proof (cases "?stop < length (ms_finalized_log s)")
    case True
    then have stop: "?stop = unat cursor + limit" by simp
    have "?stop < 2 ^ 64" using True assms(1) by (simp add: max_finalized_log_def)
    then have u: "unat (word_of_nat (unat cursor + limit) :: u64) = unat cursor + limit"
      unfolding stop by (simp add: unat_of_nat del: of_nat_add)
    have "dump_pages s limit (Suc n) (word_of_nat (unat cursor + limit))
        = map tx_clone (drop (unat cursor + limit) (ms_finalized_log s))"
      using Suc.prems assms(2) by (subst Suc.IH) (simp_all add: u del: of_nat_add dump_pages.simps)
    moreover have "dump_finalized s cursor limit
        = (map tx_clone (take limit (drop (unat cursor) (ms_finalized_log s))), Some (word_of_nat (unat cursor + limit)))"
      using True stop by (simp add: dump_finalized_def Let_def min.commute del: of_nat_add)
    ultimately show ?thesis
      by (simp only: dump_pages.simps(2) [of s limit "Suc n"] prod.case option.case)
        (simp flip: map_append add: add.commute append_take_drop_id flip: drop_drop)
  next
    case False
    then have "\<not> unat cursor + (length (ms_finalized_log s) - unat cursor) < length (ms_finalized_log s)" by simp
    moreover have "take limit (drop (unat cursor) (ms_finalized_log s)) = drop (unat cursor) (ms_finalized_log s)"
      using False by simp
    ultimately show ?thesis by (simp add: dump_finalized_def Let_def)
  qed
qed

section \<open>Properties\<close>

text \<open>
  C28. Whatever the sequence of receptions, propagations, acknowledgements and block notices, and
  whatever order the hash map is walked in, every transaction of the mempool is in the stage its
  container says: pending ones are unconfirmed, tracked ones are below both thresholds and carry a
  confirmation point exactly when they are confirmed, finished ones reached a threshold, and the log
  of finished ones stays within its limit.
\<close>

theorem mempool_stage_invariant:
  assumes "mempool_reach b ft dt s" and "0 < ft" and "0 < dt"
  shows "mempool_ok ft dt s"
  by (rule mempool_reach_ok [OF assms])

definition sample_mempool :: "unit mempool_state" where
  "sample_mempool = mempool_new\<lparr>ms_pending := [(mempool_tx_new 1 (7, [1]) ())\<lparr>mtx_report := None\<rparr>]\<rparr>"

theorem mempool_stage_invariant_witness: "mempool_ok 6 2 sample_mempool"
proof (rule mempool_stage_invariant)
  have "receive (mempool_tx_new 1 (7, [1]) ()) mempool_new = Inr (sample_mempool, [mempool_tx_new 1 (7, [1]) ()])"
    by (simp add: receive_def mempool_new_def sample_mempool_def tx_clone_def)
  from mempool_reach.Step [OF mempool_reach.Init mempool_step.Receive [OF this]]
  show "mempool_reach \<lparr>strict = True, overflow_checks = True\<rparr> 6 2 sample_mempool" .
qed simp_all




definition sent_mempool :: "unit mempool_state" where
  "sent_mempool = fst (mark_inflight [1] sample_mempool)"


text \<open>
  A rollback deepens confirmations. The notice that undoing a block sends confirms every
  confirmed transaction that the undone block does not contain: its count of confirmations grows
  although the chain got shorter.
\<close>

theorem rollback_notice_deepens:
  assumes "mempool_ok ft dt s" and "enumerates order (ms_acknowledged (promote_propagated s))"
    and "ms_acknowledged (promote_propagated s) h = Some tx" and "mtx_stage tx = Confirmed"
    and "h \<notin> set undone" and "mtx_confirmations tx + 1 < ft"
  shows "\<exists>s' ev. confirm b order point [] undone ft dt s = Some (s', ev) \<and>
    (\<exists>t. ms_acknowledged s' h = Some t \<and> mtx_confirmations t = mtx_confirmations tx + 1)"
proof -
  obtain s' ev where run: "confirm b order point [] undone ft dt s = Some (s', ev)" and infl: "ms_inflight s' = []"
    by (rule confirm_fates [OF assms(1,2), of b point "[]" undone]) blast
  from confirm_deepens(2) [OF assms(1,2) run assms(3) _ assms(6)] assms(4,5)
  have "ms_acknowledged s' h = Some (deepened point tx)" by (simp add: promoted_no_inflight [OF infl])
  then show ?thesis using run by (auto simp: deepened_def)
qed

theorem rollback_notice_deepens_witness:
  "\<exists>s :: unit mempool_state. \<exists>s' ev t. ms_acknowledged s 1 \<noteq> None \<and>
     confirm \<lparr>strict = True, overflow_checks = True\<rparr> [1] Origin [] [2] 6 2 s = Some (s', ev) \<and>
     ms_acknowledged s' 1 = Some t \<and> mtx_confirmations t = 2"
proof -
  define tx :: "unit mempool_tx" where "tx = \<lparr>mtx_hash = 1, mtx_payload = (7, [1]), mtx_stage = Confirmed,
    mtx_confirmations = 1, mtx_non_confirmations = 0, mtx_confirmed_at = Some (Specific 9 3), mtx_report = None\<rparr>"
  let ?s = "mempool_new\<lparr>ms_acknowledged := [1 \<mapsto> tx]\<rparr>"
  have ack: "ms_acknowledged (promote_propagated ?s) = [1 \<mapsto> tx]" by (simp add: promote_propagated_def mempool_new_def)
  have ok: "mempool_ok 6 2 ?s" by (simp add: mempool_ok_def mempool_new_def tracked_ok_def tx_def)
  have "\<exists>s' ev. confirm \<lparr>strict = True, overflow_checks = True\<rparr> [1] Origin [] [2] 6 2 ?s = Some (s', ev) \<and>
    (\<exists>t. ms_acknowledged s' 1 = Some t \<and> mtx_confirmations t = mtx_confirmations tx + 1)"
  proof (rule rollback_notice_deepens [OF ok])
    show "enumerates [1] (ms_acknowledged (promote_propagated ?s))" unfolding ack by (simp add: enumerates_def)
    show "ms_acknowledged (promote_propagated ?s) 1 = Some tx" unfolding ack by simp
  qed (simp_all add: tx_def)
  moreover have "ms_acknowledged ?s 1 \<noteq> None" "mtx_confirmations tx + 1 = 2" by (simp_all add: tx_def)
  ultimately show ?thesis by metis
qed

text \<open>
  Following the cursors of \<^verbatim>\<open>dump_finalized\<close> from the start of a log that does not
  change meanwhile lists all of it, in order and once, for every positive page size.
\<close>

theorem dump_finalized_complete:
  assumes "length (ms_finalized_log s) \<le> max_finalized_log" and "0 < limit"
  shows "dump_pages s limit (Suc (length (ms_finalized_log s))) 0 = map tx_clone (ms_finalized_log s)"
  using dump_pages_all [OF assms, of 0 "length (ms_finalized_log s)"] by simp

theorem dump_finalized_complete_witness:
  "dump_pages (mempool_new\<lparr>ms_finalized_log := replicate 3 (mempool_tx_new 1 (7, []) ())\<rparr>) 2 4 0
     = replicate 3 (tx_clone (mempool_tx_new 1 (7, []) ()))"
  using dump_finalized_complete [of "mempool_new\<lparr>ms_finalized_log := replicate 3 (mempool_tx_new 1 (7, []) ())\<rparr>" 2]
  by (simp add: max_finalized_log_def eval_nat_numeral del: dump_pages.simps)

end
