(* ===== verification/Sync.thy ===== *)
theory Sync
  imports Ledger_Path Mempool
begin

text \<open>
  Following the chain (\<^verbatim>\<open>crates/core/src/sync.rs\<close>): the stores of a node, the work unit of a
  batch run through all its phases, and rolling the node back to an earlier point. The stores are the
  write-ahead log, the in-memory state and index stores and the in-memory mempool; the archive is
  whatever implements its operations.
\<close>

section \<open>The node\<close>

datatype tip_event =
    Mark chain_point
  | ApplyTip chain_point bytes
  | UndoTip chain_point bytes

datatype domain_error =
    DomainWalError wal_error
  | DomainChainError chain_error
  | DomainStateError state_error
  | DomainArchiveError string
  | DomainIndexError index_error
  | DomainMempoolError mempool_error
  | InconsistentState "chain_point option" "chain_point option"
  | DomainInternal string
  | WalIsEmpty
  | StopEpochReached

record ('d, 'e, 'r, 'a) domain =
  dm_wal :: "'d wal"
  dm_state :: "'e tables"
  dm_archive :: 'a
  dm_indexes :: index_tables
  dm_mempool :: "'r mempool_state"
  dm_tips :: "tip_event list"

text \<open>
  What the generic code is instantiated with: the deltas and entities of the chain, the decoding of
  blocks, the hash of the index keys, the order a hash map is walked in, and the archive.
\<close>

record ('d, 'e, 'r, 'a) node =
  nd_build :: build
  nd_codec :: codec
  nd_key :: "'d \<Rightarrow> ns_key"
  nd_apply :: "('d, 'e) apply_fn"
  nd_undo :: "('d, 'e) undo_fn"
  nd_ns :: "'e \<Rightarrow> namespace"
  nd_stored :: "'d \<Rightarrow> 'd"
  nd_xxh3_64 :: "bytes \<Rightarrow> u64"
  nd_walk :: "'r mempool_state \<Rightarrow> tx_hash list"
  nd_archive_apply :: "chain_point \<Rightarrow> bytes \<Rightarrow> 'a \<Rightarrow> string + 'a"
  nd_archive_truncate :: "chain_point \<Rightarrow> 'a \<Rightarrow> string + 'a"
  nd_archive_tip :: "'a \<Rightarrow> string + (block_slot \<times> bytes) option"

definition mempool_finalize_threshold :: u32 where
  "mempool_finalize_threshold = 6"

definition mempool_drop_threshold :: u32 where
  "mempool_drop_threshold = 2"

section \<open>Rolling back\<close>

record ('e, 'r) rollback_run =
  rr_entities :: "'e entity_map"
  rr_ops :: "'e op list"
  rr_index_ops :: "index_op list"
  rr_mempool :: "'r mempool_state"
  rr_tips :: "tip_event list"

definition notify_undone :: "('d, 'e, 'r, 'a) node \<Rightarrow> chain_point \<Rightarrow> bytes \<Rightarrow> tx_hash list \<Rightarrow> ('e, 'r) rollback_run
    \<Rightarrow> ('e, 'r) rollback_run option" where
  "notify_undone n point block tx_hashes r = do {
     (mempool, _) \<leftarrow> confirm (nd_build n) (nd_walk n (rr_mempool r)) point [] tx_hashes
        mempool_finalize_threshold mempool_drop_threshold (rr_mempool r);
     Some (r\<lparr>rr_tips := rr_tips r @ [UndoTip point block], rr_mempool := mempool\<rparr>)
   }"

fun rollback_loop :: "('d, 'e, 'r, 'a) node \<Rightarrow> 'e tables \<Rightarrow> chain_point \<Rightarrow> 'd log_entry list \<Rightarrow> ('e, 'r) rollback_run
    \<Rightarrow> ((domain_error + unit) \<times> ('e, 'r) rollback_run) option" where
  "rollback_loop n t to [] r = Some (Inr (), r)"
| "rollback_loop n t to ((point, log) # logs) r =
     (if cp_eq point to then
        (case index_apply (nd_xxh3_64 n) (index_delta_default\<lparr>id_cursor := point\<rparr>) (rr_index_ops r) of
           Inl err \<Rightarrow> Some (Inl (DomainIndexError err), r)
         | Inr iops \<Rightarrow> Some (Inr (), r\<lparr>rr_index_ops := iops, rr_ops := set_cursor point (rr_ops r)\<rparr>))
      else do {
        undone \<leftarrow> undo_delta_chunk (nd_key n) (nd_undo n) (rr_entities r) (table_reader (entity_view t)) (lv_delta log);
        (case undone of
           Inl err \<Rightarrow> Some (Inl (DomainStateError err), r)
         | Inr entities \<Rightarrow>
             (case compute_undo (nd_codec n) (lv_block log) (lv_inputs log) point of
                Inl err \<Rightarrow> Some (Inl (DomainChainError err), r\<lparr>rr_entities := entities\<rparr>)
              | Inr undo_data \<Rightarrow>
                  (let r = r\<lparr>rr_entities := entities, rr_ops := apply_utxoset (ub_utxo_delta undo_data) (rr_ops r)\<rparr> in
                   case index_undo (nd_xxh3_64 n) (ub_index_delta undo_data) (rr_index_ops r) of
                     Inl err \<Rightarrow> Some (Inl (DomainIndexError err), r)
                   | Inr iops \<Rightarrow> do {
                       r \<leftarrow> notify_undone n point (lv_block log) (ub_tx_hashes undo_data) (r\<lparr>rr_index_ops := iops\<rparr>);
                       rollback_loop n t to logs r
                     })))
      })"

definition rollback :: "('d, 'e, 'r, 'a) node \<Rightarrow> chain_point \<Rightarrow> ('d, 'e, 'r, 'a) domain
    \<Rightarrow> ((domain_error + unit) \<times> ('d, 'e, 'r, 'a) domain) option" where
  "rollback n to dm =
     (let undo_blocks = iter_logs (dm_wal dm) (Some to) None;
          start = \<lparr>rr_entities = [], rr_ops = [], rr_index_ops = [], rr_mempool = dm_mempool dm, rr_tips = dm_tips dm\<rparr>
      in do {
        (res, r) \<leftarrow> rollback_loop n (dm_state dm) to (rev undo_blocks) start;
        (let dm = dm\<lparr>dm_mempool := rr_mempool r, dm_tips := rr_tips r\<rparr> in
         case res of
           Inl err \<Rightarrow> Some (Inl err, dm)
         | Inr _ \<Rightarrow>
             (let saves = map (\<lambda>(k, e). save_op (nd_ns n) k e) (rr_entities r);
                  dm = dm\<lparr>dm_state := commit (rr_ops r @ saves) (dm_state dm),
                          dm_indexes := index_commit (rr_index_ops r) (dm_indexes dm)\<rparr>
              in case nd_archive_truncate n to (dm_archive dm) of
                   Inl err \<Rightarrow> Some (Inl (DomainArchiveError err), dm)
                 | Inr archive \<Rightarrow>
                     Some (Inr (), dm\<lparr>dm_archive := archive, dm_wal := truncate_front to (dm_wal dm)\<rparr>)))
      })"

section \<open>Undoing a path\<close>

lemma ledger_path_snocE:
  assumes "ledger_path cd key apply_d fresh ok stored V u (es @ [e]) V2 u2"
  obtains V1 u1 ds ds1 raw v inputs d where "ledger_path cd key apply_d fresh ok stored V u es V1 u1"
    and "run_view key apply_d V1 ds = Some (V2, ds1)" and "run_ok key apply_d fresh ok V1 ds"
    and "raw \<noteq> []" and "decode_block cd raw = Some v" and "list_all (decodes_output cd \<circ> snd) inputs"
    and "compute_apply_delta v inputs = Inr d" and "extends_utxos v inputs u1" and "u2 = utxo_apply d u1"
    and "e = (Specific (bv_slot v) (bv_hash v), \<lparr>lv_block = raw, lv_delta = map stored ds1, lv_inputs = inputs\<rparr>)"
  using assms
proof (induction es arbitrary: V u thesis)
  case Nil
  from Nil(2) show ?case
    by (auto elim!: ledger_path_ConsE ledger_path_NilE intro: Nil(1) ledger_path.path_end)
next
  case (Cons x es)
  from Cons.prems(2) show ?case
    by (auto elim!: ledger_path_ConsE Cons.IH [rotated] intro: Cons.prems(1) ledger_path.path_block)
qed

text \<open>A node whose deltas keep their contract.\<close>

locale node_system =
  delta_system "nd_key n" "nd_apply n" "nd_undo n" fresh ok "nd_ns n" "nd_stored n"
  for n :: "('d, 'e, 'r, 'a) node" and fresh :: "'d \<Rightarrow> bool" and ok :: "'d \<Rightarrow> 'e option \<Rightarrow> bool"

text \<open>Walking the hash map of the mempool reaches every transaction once, in some order.\<close>

definition complete_walk :: "('r mempool_state \<Rightarrow> tx_hash list) \<Rightarrow> bool" where
  "complete_walk walk \<longleftrightarrow> (\<forall>s. enumerates (walk s) (ms_acknowledged (promote_propagated s)))"

abbreviation node_path where
  "node_path n fresh ok \<equiv> ledger_path (nd_codec n) (nd_key n) (nd_apply n) fresh ok (nd_stored n)"

abbreviation mempool_fine :: "'r mempool_state \<Rightarrow> bool" where
  "mempool_fine \<equiv> mempool_ok mempool_finalize_threshold mempool_drop_threshold"

text \<open>What a run of the loop holds: the entities and UTxOs it has unwound to, over the stored state.\<close>

definition unwound :: "'e tables \<Rightarrow> ('e, 'r) rollback_run \<Rightarrow> 'e entity_table \<Rightarrow> (txo_ref \<rightharpoonup> era_cbor) \<Rightarrow> bool" where
  "unwound t r V u \<longleftrightarrow> cache_ok (rr_entities r) \<and> overlay (rr_entities r) (entity_view t) = V \<and>
     utxo_view (commit (rr_ops r) t) = u \<and> entity_view (commit (rr_ops r) t) = entity_view t \<and> mempool_fine (rr_mempool r)"

context node_system
begin

lemma typed_path:
  "node_path n fresh ok V u es V' u' \<Longrightarrow> typed_table (nd_ns n) V \<Longrightarrow> typed_table (nd_ns n) V'"
  by (induction rule: ledger_path.induct) (auto dest: typed_run_view)

lemma notify_undone_runs:
  assumes "complete_walk (nd_walk n)" and "mempool_fine (rr_mempool r)"
  obtains m where "notify_undone n point block hashes r =
      Some (r\<lparr>rr_tips := rr_tips r @ [UndoTip point block], rr_mempool := m\<rparr>)" and "mempool_fine m"
proof -
  let ?s = "rr_mempool r"
  have walk: "enumerates (nd_walk n ?s) (ms_acknowledged (promote_propagated ?s))"
    using assms(1) by (simp add: complete_walk_def)
  obtain m ev where m: "confirm (nd_build n) (nd_walk n ?s) point [] hashes
      mempool_finalize_threshold mempool_drop_threshold ?s = Some (m, ev)"
    using confirm_returns [OF assms(2) walk] by blast
  have "mempool_fine m" by (rule confirm_ok [OF assms(2) walk m])
  with m show thesis by (intro that [of m]) (simp_all add: notify_undone_def)
qed

text \<open>Undoing the last block of a path unwinds to where the path was before it.\<close>

lemma undo_block_step:
  assumes block: "run_view (nd_key n) (nd_apply n) V ds = Some (V', ds')" "run_ok (nd_key n) (nd_apply n) fresh ok V ds"
      "decode_block (nd_codec n) raw = Some v" "list_all (decodes_output (nd_codec n) \<circ> snd) inputs"
      "compute_apply_delta v inputs = Inr d" "extends_utxos v inputs u"
    and typed: "typed_table (nd_ns n) V" and r: "unwound t r V' (utxo_apply d u)" and other: "\<not> cp_eq p to"
    and walk: "complete_walk (nd_walk n)"
  obtains r' where "unwound t r' V u" and "t_cursor (commit (rr_ops r') t) = t_cursor (commit (rr_ops r) t)" and "rr_tips r' = rr_tips r @ [UndoTip p raw]" and "rr_index_ops r' = rr_index_ops r"
    and "\<And>logs. rollback_loop n t to ((p, \<lparr>lv_block = raw, lv_delta = map (nd_stored n) ds', lv_inputs = inputs\<rparr>) # logs) r
      = rollback_loop n t to logs r'"
proof -
  from r have cache: "cache_ok (rr_entities r)" and V': "overlay (rr_entities r) (entity_view t) = V'"
    by (simp_all add: unwound_def)
  have undo: "undo_view (nd_key n) (nd_undo n) V' (rev (map (nd_stored n) ds')) = Some V"
    by (rule undo_run_view [OF block(1,2) typed])
  obtain es where es: "undo_delta_chunk (nd_key n) (nd_undo n) (rr_entities r) (table_reader (entity_view t))
      (map (nd_stored n) ds') = Some (Inr es)" and V: "overlay es (entity_view t) = V" and ok_es: "cache_ok es"
    using undo by (rule_tac undo_chunk_view [OF cache, of "nd_key n" "nd_undo n" "entity_view t" "map (nd_stored n) ds'"])
      (simp_all add: V')
  obtain d' where d': "compute_undo_delta v inputs = Inr d'" "utxo_apply d' (utxo_apply d u) = u"
    by (rule utxo_undo_block [OF block(5,6)])
  obtain data where data: "compute_undo (nd_codec n) raw inputs p = Inr data" "ub_utxo_delta data = d'"
    using block(3,4) d'(1) by (simp add: compute_undo_Inr)
  define r1 where "r1 = r\<lparr>rr_entities := es, rr_ops := apply_utxoset d' (rr_ops r)\<rparr>"
  have fine: "mempool_fine (rr_mempool r1)" using r by (simp add: r1_def unwound_def)
  obtain m where m: "notify_undone n p raw (ub_tx_hashes data) r1
      = Some (r1\<lparr>rr_tips := rr_tips r1 @ [UndoTip p raw], rr_mempool := m\<rparr>)" "mempool_fine m"
    by (rule notify_undone_runs [OF walk fine])
  show thesis
  proof (rule that [of "r1\<lparr>rr_tips := rr_tips r1 @ [UndoTip p raw], rr_mempool := m\<rparr>"])
    show "unwound t (r1\<lparr>rr_tips := rr_tips r1 @ [UndoTip p raw], rr_mempool := m\<rparr>) V u"
      using r V ok_es m(2) d'(2) by (simp add: unwound_def r1_def commit_apply_utxoset)
    have "r1\<lparr>rr_index_ops := rr_index_ops r\<rparr> = r1" by (simp add: r1_def)
    with m(1) show "rollback_loop n t to ((p, \<lparr>lv_block = raw, lv_delta = map (nd_stored n) ds', lv_inputs = inputs\<rparr>) # logs) r
        = rollback_loop n t to logs (r1\<lparr>rr_tips := rr_tips r1 @ [UndoTip p raw], rr_mempool := m\<rparr>)" for logs
      using other es data compute_undo_index [OF data(1), of "nd_xxh3_64 n" "rr_index_ops r"]
      by (simp add: r1_def Let_def)
  qed (simp_all add: r1_def commit_apply_utxoset)
qed

lemma rollback_loop_path:
  assumes "node_path n fresh ok V0 u0 es V u" and "typed_table (nd_ns n) V0" and "unwound t r V u"
    and "\<forall>(p, _) \<in> set es. \<not> cp_eq p to" and "complete_walk (nd_walk n)"
  shows "\<exists>r'. unwound t r' V0 u0 \<and> t_cursor (commit (rr_ops r') t) = t_cursor (commit (rr_ops r) t) \<and> rr_tips r' = rr_tips r @ map (\<lambda>(p, log). UndoTip p (lv_block log)) (rev es) \<and>
    rr_index_ops r' = rr_index_ops r \<and> (\<forall>logs. rollback_loop n t to (rev es @ logs) r = rollback_loop n t to logs r')"
  using assms
proof (induction es arbitrary: V u r rule: rev_induct)
  case Nil
  then show ?case by (auto elim!: ledger_path_NilE)
next
  case (snoc e es)
  from snoc.prems(1) obtain V1 u1 ds ds1 raw v inputs d where path: "node_path n fresh ok V0 u0 es V1 u1"
      and block: "run_view (nd_key n) (nd_apply n) V1 ds = Some (V, ds1)" "run_ok (nd_key n) (nd_apply n) fresh ok V1 ds"
        "decode_block (nd_codec n) raw = Some v" "list_all (decodes_output (nd_codec n) \<circ> snd) inputs"
        "compute_apply_delta v inputs = Inr d" "extends_utxos v inputs u1"
      and u: "u = utxo_apply d u1"
      and e: "e = (Specific (bv_slot v) (bv_hash v), \<lparr>lv_block = raw, lv_delta = map (nd_stored n) ds1, lv_inputs = inputs\<rparr>)"
    by (rule ledger_path_snocE)
  obtain r1 where r1: "unwound t r1 V1 u1" "t_cursor (commit (rr_ops r1) t) = t_cursor (commit (rr_ops r) t)" "rr_tips r1 = rr_tips r @ [UndoTip (Specific (bv_slot v) (bv_hash v)) raw]"
      "rr_index_ops r1 = rr_index_ops r" and step: "\<And>logs. rollback_loop n t to (e # logs) r = rollback_loop n t to logs r1"
    using undo_block_step [OF block typed_path [OF path snoc.prems(2)] snoc.prems(3) [unfolded u], of "Specific (bv_slot v) (bv_hash v)" to]
      snoc.prems(4,5) unfolding e by (auto simp del: rollback_loop.simps)
  from snoc.IH [OF path snoc.prems(2) r1(1)] snoc.prems(4,5) obtain r' where "unwound t r' V0 u0"
      "t_cursor (commit (rr_ops r') t) = t_cursor (commit (rr_ops r1) t)" "rr_tips r' = rr_tips r1 @ map (\<lambda>(p, log). UndoTip p (lv_block log)) (rev es)" "rr_index_ops r' = rr_index_ops r1"
      "\<forall>logs. rollback_loop n t to (rev es @ logs) r1 = rollback_loop n t to logs r'"
    by auto
  then show ?case using step r1(2-4) by (intro exI [of _ r']) (simp add: e)
qed

end

section \<open>Rolling forward\<close>

text \<open>
  Batches of blocks rolled forward one after the other, with the entries they log: each batch comes
  fresh from the chain logic, spends what exists, and its deltas meet their preconditions.
\<close>

inductive rolled :: "('d, 'e, 'r, 'a) node \<Rightarrow> ('d \<Rightarrow> bool) \<Rightarrow> ('d \<Rightarrow> 'e option \<Rightarrow> bool)
    \<Rightarrow> ('c \<Rightarrow> block_view \<Rightarrow> (txo_ref \<times> era_cbor) list \<Rightarrow> chain_error + 'd list \<times> 'c)
    \<Rightarrow> 'd wal \<times> 'e tables \<Rightarrow> 'd log_entry list \<Rightarrow> 'd wal \<times> 'e tables \<Rightarrow> bool"
  for n fresh ok visit s0 where
  rolled_none: "rolled n fresh ok visit s0 [] s0"
| rolled_batch: "rolled n fresh ok visit s0 es (w, t)
    \<Longrightarrow> roll_phases (nd_build n) (nd_key n) (nd_apply n) (nd_ns n) (nd_stored n) visit (decodes_output (nd_codec n)) c batch (w, t)
          = Some (Inr (batch1, batch2, w', t'))
    \<Longrightarrow> fresh_batch (nd_codec n) batch
    \<Longrightarrow> valid_spends (utxo_view t) (map wb_block (wk_blocks batch1))
    \<Longrightarrow> rolls_ok (nd_key n) (nd_apply n) fresh ok (entity_view t) (map listed (wk_blocks batch1))
    \<Longrightarrow> rolled n fresh ok visit s0 (es @ batch_log (nd_stored n) batch2) (w', t')"

abbreviation view_point :: "block_view \<Rightarrow> chain_point" where
  "view_point v \<equiv> Specific (bv_slot v) (bv_hash v)"

lemma links_sorted: "check_links tip vs = Inr () \<Longrightarrow> sorted (map cp_slot (tip # map view_point vs))"
proof (induction vs arbitrary: tip)
  case (Cons v vs)
  from Cons.prems have ext: "check_extension tip (bv_slot v) (bv_prev_hash v) = Inr ()"
      and rest: "check_links (view_point v) vs = Inr ()"
    by (auto split: sum.splits)
  from ext have "cp_slot tip \<le> bv_slot v" by (cases "tip = Origin") (simp_all add: check_extension_Inr)
  moreover have "sorted (map cp_slot (view_point v # map view_point vs))" by (rule Cons.IH [OF rest])
  ultimately show ?case by auto
qed simp

lemma sorted_join:
  "sorted (map f (p # xs)) \<Longrightarrow> sorted (map f (last (p # xs) # ys)) \<Longrightarrow> sorted (map f (p # xs @ ys))"
proof (induction xs arbitrary: p)
  case (Cons x xs)
  then have "f p \<le> f x" and "sorted (map f (x # xs @ ys))" by (simp_all only: list.map sorted2 last.simps list.distinct if_False)
  then show ?case by (simp only: list.map sorted2 append_Cons)
qed simp

lemma batch_log_points:
  "same_blocks ws (wk_blocks batch) \<Longrightarrow> map fst (batch_log stored batch) = map (view_point \<circ> wb_block) ws"
proof -
  assume "same_blocks ws (wk_blocks batch)"
  then have blocks: "map wb_block (wk_blocks batch) = map wb_block ws" by (simp add: same_blocks_def)
  have "map fst (batch_log stored batch) = map view_point (map wb_block (wk_blocks batch))"
    by (simp add: batch_log_def block_entry_def wb_point_def split_def)
  then show ?thesis by (simp add: blocks)
qed

definition log_rows :: "'d log_entry list \<Rightarrow> (bytes \<times> 'd log_value) list" where
  "log_rows es = map (\<lambda>(p, log). (into_bytes p, log)) es"

lemma append_entries_rows:
  "append_entries stored logs w = w\<lparr>wal_data := fold (\<lambda>(k, v). tbl_insert k v)
     (log_rows (map (\<lambda>(p, log). (p, logged stored log)) logs)) (wal_data w)\<rparr>"
proof -
  have "log_rows (map (\<lambda>(p, log). (p, logged stored log)) logs) = map (\<lambda>(p, log). (into_bytes p, logged stored log)) logs"
    by (simp add: log_rows_def split_def)
  then show ?thesis by (simp add: append_entries_def)
qed

context node_system
begin

lemma rolled_path:
  assumes "rolled n fresh ok visit s0 es s" and "typed_table (nd_ns n) (entity_view (snd s0))" and "tables_ok (snd s0)"
    and "t_cursor (snd s0) = Some p0"
  shows "node_path n fresh ok (entity_view (snd s0)) (utxo_view (snd s0)) es (entity_view (snd s)) (utxo_view (snd s)) \<and>
    typed_table (nd_ns n) (entity_view (snd s)) \<and> tables_ok (snd s) \<and>
    fst s = (fst s0)\<lparr>wal_data := fold (\<lambda>(k, v). tbl_insert k v) (log_rows es) (wal_data (fst s0))\<rparr> \<and>
    sorted (map cp_slot (p0 # map fst es)) \<and> t_cursor (snd s) = Some (last (p0 # map fst es))"
  using assms(1)
proof (induction rule: rolled.induct)
  case rolled_none
  show ?case using assms(2-4) by (simp add: ledger_path.path_end log_rows_def)
next
  case (rolled_batch es w t c batch batch1 batch2 w' t')
  have typed: "typed_table (nd_ns n) (entity_view t)" and cursor: "t_cursor t = Some (last (p0 # map fst es))"
      and path: "node_path n fresh ok (entity_view (snd s0)) (utxo_view (snd s0)) es (entity_view t) (utxo_view t)"
      and w: "w = (fst s0)\<lparr>wal_data := fold (\<lambda>(k, v). tbl_insert k v) (log_rows es) (wal_data (fst s0))\<rparr>"
      and sorted: "sorted (map cp_slot (p0 # map fst es))" and tables: "tables_ok t"
    using rolled_batch.IH by simp_all
  note batch = rolled_batch.hyps(2-5)
  have empty: "wk_entities batch = []" using batch(2) by (simp add: fresh_batch_def)
  note view = roll_phases_view [OF batch(1) empty typed]
  note step = roll_phases_path [OF batch(1,2) typed batch(3,4)]
  note phases = roll_phases_InrD [OF batch(1)]
  have pts: "map fst (batch_log (nd_stored n) batch2) = map (view_point \<circ> wb_block) (wk_blocks batch1)"
    by (rule batch_log_points [OF view(2)])
  have "sorted (map cp_slot (last (p0 # map fst es) # map fst (batch_log (nd_stored n) batch2)))"
    using links_sorted [OF roll_load_ready(2) [OF phases(1) empty]] by (simp add: cursor pts)
  then have "sorted (map cp_slot (p0 # map fst (es @ batch_log (nd_stored n) batch2)))"
    unfolding map_append by (rule sorted_join [OF sorted])
  moreover have "t_cursor t' = Some (last (p0 # map fst (es @ batch_log (nd_stored n) batch2)))"
  proof -
    have "wk_blocks batch2 \<noteq> []" using phases(4) by (auto simp: commit_state_def last_point_def panic_simps)
    then have "last_point batch2 = Some (last (map fst (batch_log (nd_stored n) batch2)))"
      by (simp add: last_point_def batch_log_def block_entry_def last_map)
    with view(5) \<open>wk_blocks batch2 \<noteq> []\<close> show ?thesis by (simp add: batch_log_def)
  qed
  moreover have "w' = (fst s0)\<lparr>wal_data := fold (\<lambda>(k, v). tbl_insert k v) (log_rows (es @ batch_log (nd_stored n) batch2))
      (wal_data (fst s0))\<rparr>"
    unfolding view(6) append_entries_rows by (simp add: w log_rows_def batch_log_def)
  moreover have "tables_ok t'" using phases(4) tables by (auto simp: commit_state_def panic_simps commit_ok)
  ultimately show ?case using ledger_path_append [OF path step] view(7) by simp
qed

end

section \<open>Rolling back what was rolled forward\<close>

lemma slot_less_bytes: "cp_slot p < cp_slot q \<Longrightarrow> into_bytes p < into_bytes q"
  by (metis into_bytes_slot_mono linorder_not_le)

lemma append_newer:
  assumes "sorted_wrt (<) (map fst kvs)" and "\<forall>k \<in> fst ` set t. \<forall>k' \<in> fst ` set kvs. k < k'"
  shows "fold (\<lambda>(k, v). tbl_insert k v) kvs t = t @ kvs"
  using assms
proof (induction kvs arbitrary: t)
  case (Cons kv kvs)
  obtain k v where kv: "kv = (k, v)" by (cases kv)
  have "tbl_insert k v t = t @ [(k, v)]" using Cons.prems(2) by (intro tbl_insert_newest) (auto simp: kv)
  moreover have "fold (\<lambda>(k, v). tbl_insert k v) kvs (t @ [(k, v)]) = (t @ [(k, v)]) @ kvs"
    using Cons.prems by (intro Cons.IH) (auto simp: kv)
  ultimately show ?case by (simp add: kv)
qed simp

text \<open>The log after newer entries: it gives them after what it gave before.\<close>

lemma iter_logs_appended:
  assumes "\<forall>k \<in> fst ` set (wal_data w0). k \<le> into_bytes p0"
    and "sorted (map cp_slot (p0 # map fst es))" and "distinct (map cp_slot (p0 # map fst es))"
    and "\<forall>(p, _) \<in> set es. \<exists>s h. p = Specific s h"
  defines "w \<equiv> w0\<lparr>wal_data := fold (\<lambda>(k, v). tbl_insert k v) (log_rows es) (wal_data w0)\<rparr>"
  shows "iter_logs w (Some p0) None = iter_logs w0 (Some p0) None @ es" and "wal_data w = wal_data w0 @ log_rows es"
    and "\<forall>(p, _) \<in> set es. into_bytes p0 < into_bytes p" and "iter_all w = iter_all w0 @ es"
proof -
  have strict: "sorted_wrt (<) (map cp_slot (p0 # map fst es))"
    using assms(2,3) by (simp only: strict_sorted_iff)
  have newer: "\<forall>(p, _) \<in> set es. into_bytes p0 < into_bytes p" using strict by (auto intro!: slot_less_bytes)
  have rows: "sorted_wrt (<) (map fst (log_rows es))"
  proof -
    have "sorted_wrt (\<lambda>x y. cp_slot (fst x) < cp_slot (fst y)) es" using strict by (simp add: sorted_wrt_map)
    then have "sorted_wrt (\<lambda>x y. into_bytes (fst x) < into_bytes (fst y)) es"
      by (rule sorted_wrt_mono_rel [rotated]) (rule slot_less_bytes)
    then show ?thesis by (simp add: log_rows_def sorted_wrt_map split_def)
  qed
  show "\<forall>(p, _) \<in> set es. into_bytes p0 < into_bytes p" by (rule newer)
  show data: "wal_data w = wal_data w0 @ log_rows es"
    unfolding w_def using rows assms(1) newer by (simp, intro append_newer) (force simp: log_rows_def)+
  have newest: "filter (\<lambda>(k, _). into_bytes p0 \<le> k) (log_rows es) = log_rows es"
    using newer by (auto simp: filter_id_conv log_rows_def less_imp_le)
  have entries: "map (\<lambda>(k, v). (from_bytes k, v)) (log_rows es) = es"
  proof (rule map_idI [of es "\<lambda>x. (from_bytes (into_bytes (fst x)), snd x)", unfolded id_apply, THEN trans [rotated]])
    show "map (\<lambda>(k, v). (from_bytes k, v)) (log_rows es) = map (\<lambda>x. (from_bytes (into_bytes (fst x)), snd x)) es"
      by (simp add: log_rows_def split_def)
    fix x assume x: "x \<in> set es"
    then obtain s h where s: "fst x = Specific s h" using assms(4) by (cases x) auto
    have "cp_slot p0 < cp_slot (fst x)" using strict x by auto
    then have "exact (fst x)" by (auto simp: s exact_iff)
    then show "(from_bytes (into_bytes (fst x)), snd x) = x" by (simp add: exact_def)
  qed
  show "iter_logs w (Some p0) None = iter_logs w0 (Some p0) None @ es" using newest entries by (simp add: iter_logs_def data)
  show "iter_all w = iter_all w0 @ es" using entries by (simp add: iter_all_data data)
qed

lemma tip_is_last:
  assumes "wal_ok w0" and "find_tip w0 = Some (p0, log0)"
  shows "iter_logs w0 (Some p0) None = [(p0, log0)]" and "\<forall>k \<in> fst ` set (wal_data w0). k \<le> into_bytes p0"
proof -
  obtain xs k where xs: "wal_data w0 = xs @ [(k, log0)]" and p0: "p0 = from_bytes k"
    using assms(2) by (cases "wal_data w0" rule: rev_cases) (auto simp: find_tip_data)
  have key: "into_bytes p0 = k" using wal_ok_key [OF assms(1), of k log0] by (auto simp: xs p0 wal_key_def)
  have below: "fst x < k" if "x \<in> set xs" for x
    using assms(1) that by (force simp: wal_ok_def tbl_ok_def xs sorted_wrt_append)
  then show "\<forall>k \<in> fst ` set (wal_data w0). k \<le> into_bytes p0" by (auto simp: xs key less_imp_le)
  have "filter (\<lambda>(k, _). into_bytes p0 \<le> k) xs = []" using below by (force simp: filter_empty_conv key)
  then show "iter_logs w0 (Some p0) None = [(p0, log0)]" by (simp add: iter_logs_def xs key p0 [symmetric])
qed

lemma iter_logs_above:
  "\<forall>k \<in> fst ` set (wal_data w0). k < into_bytes p0 \<Longrightarrow> iter_logs w0 (Some p0) None = []"
  by (force simp: iter_logs_def filter_empty_conv)

lemma path_points: "ledger_path cd key f fresh ok stored V u es V' u' \<Longrightarrow> \<forall>(p, _) \<in> set es. \<exists>s h. p = Specific s h"
  by (induction rule: ledger_path.induct) auto

lemma cp_eq_refl: "cp_eq p p"
  by (cases p) simp_all

lemma cp_eq_slot: "cp_eq p q \<Longrightarrow> cp_slot p = cp_slot q"
  by (cases p; cases q) simp_all

context node_system
begin

text \<open>
  The entries after the target are undone; the cursors move to the target only when the log has it.
\<close>

lemma rollback_path:
  assumes "node_path n fresh ok V0 u0 es (entity_view (dm_state dm)) (utxo_view (dm_state dm))"
    and "typed_table (nd_ns n) V0" and "tables_ok (dm_state dm)" and "mempool_fine (dm_mempool dm)"
    and "iter_logs (dm_wal dm) (Some p0) None = at @ es" and "at = [] \<or> (\<exists>log. at = [(p0, log)])"
    and "\<forall>(p, _) \<in> set es. \<not> cp_eq p p0"
    and "nd_archive_truncate n p0 (dm_archive dm) = Inr archive" and "complete_walk (nd_walk n)"
  shows "\<exists>dm'. rollback n p0 dm = Some (Inr (), dm') \<and> tables_ok (dm_state dm') \<and>
    entity_view (dm_state dm') = V0 \<and> utxo_view (dm_state dm') = u0 \<and>
    t_cursor (dm_state dm') = (if at = [] then t_cursor (dm_state dm) else Some p0) \<and>
    dm_wal dm' = truncate_front p0 (dm_wal dm) \<and> dm_archive dm' = archive \<and>
    dm_indexes dm' = (if at = [] then dm_indexes dm else (dm_indexes dm)\<lparr>it_cursor := Some p0\<rparr>) \<and>
    mempool_fine (dm_mempool dm') \<and> dm_tips dm' = dm_tips dm @ map (\<lambda>(p, log). UndoTip p (lv_block log)) (rev es)"
proof -
  let ?t = "dm_state dm"
  let ?r = "\<lparr>rr_entities = [], rr_ops = [], rr_index_ops = [], rr_mempool = dm_mempool dm, rr_tips = dm_tips dm\<rparr>"
  have "unwound ?t ?r (entity_view ?t) (utxo_view ?t)" using assms(4) by (simp add: unwound_def commit_def)
  from rollback_loop_path [OF assms(1,2) this assms(7,9)] obtain r where r: "unwound ?t r V0 u0" "t_cursor (commit (rr_ops r) ?t) = t_cursor ?t"
      "rr_tips r = dm_tips dm @ map (\<lambda>(p, log). UndoTip p (lv_block log)) (rev es)" "rr_index_ops r = []"
      and loop: "\<forall>logs. rollback_loop n ?t p0 (rev es @ logs) ?r = rollback_loop n ?t p0 logs r"
    by (auto simp: commit_def)
  define r' where "r' = (if at = [] then r else r\<lparr>rr_index_ops := [ISetCursor p0], rr_ops := set_cursor p0 (rr_ops r)\<rparr>)"
  have run: "rollback_loop n ?t p0 (rev (at @ es)) ?r = Some (Inr (), r')"
    using loop r(4) assms(6) by (auto simp: cp_eq_refl r'_def index_apply_def index_delta_default_def tag_ops_def)
  let ?saves = "map (\<lambda>(k, e). save_op (nd_ns n) k e) (rr_entities r)"
  define t' where "t' = commit (rr_ops r' @ ?saves) ?t"
  have "save_entities (nd_ns n) (rr_entities r) (entity_view ?t) = V0"
    using r(1) assms(2) save_overlay [of "rr_entities r" "nd_ns n" "entity_view ?t"] by (simp add: unwound_def)
  then have t': "entity_view t' = V0" "utxo_view t' = u0" "t_cursor t' = (if at = [] then t_cursor ?t else Some p0)"
    using r(1,2) by (simp_all add: t'_def r'_def commit_append commit_save_ops set_cursor_def unwound_def)
  have "rollback n p0 dm = Some (Inr (), dm\<lparr>dm_mempool := rr_mempool r, dm_tips := rr_tips r, dm_state := t',
      dm_indexes := (if at = [] then dm_indexes dm else (dm_indexes dm)\<lparr>it_cursor := Some p0\<rparr>), dm_archive := archive,
      dm_wal := truncate_front p0 (dm_wal dm)\<rparr>)"
    using run assms(5,8) r(4)
    by (simp add: rollback_def t'_def r'_def Let_def index_commit_def index_commit_op.simps)
  moreover have "tables_ok t'" using assms(3) by (simp add: t'_def commit_ok)
  ultimately show ?thesis using t' r(1,3) by (simp add: unwound_def)
qed

lemma rolled_rollback:
  assumes rolled: "rolled n fresh ok visit (w0, t0) es (dm_wal dm, dm_state dm)"
    and start: "\<forall>k \<in> fst ` set (wal_data w0). k \<le> into_bytes p0" "tables_ok t0" "t_cursor t0 = Some p0"
      "typed_table (nd_ns n) (entity_view t0)"
    and at: "iter_logs w0 (Some p0) None = at" "at = [] \<or> (\<exists>log. at = [(p0, log)])"
    and slots: "distinct (map cp_slot (p0 # map fst es))"
    and rest: "mempool_fine (dm_mempool dm)" "nd_archive_truncate n p0 (dm_archive dm) = Inr archive" "complete_walk (nd_walk n)"
  shows "\<exists>dm'. rollback n p0 dm = Some (Inr (), dm') \<and> dm_wal dm' = w0 \<and>
    dm_state dm' = t0\<lparr>t_cursor := Some (if at = [] then last (p0 # map fst es) else p0)\<rparr> \<and> dm_archive dm' = archive \<and>
    dm_indexes dm' = (if at = [] then dm_indexes dm else (dm_indexes dm)\<lparr>it_cursor := Some p0\<rparr>) \<and>
    mempool_fine (dm_mempool dm') \<and> dm_tips dm' = dm_tips dm @ map (\<lambda>(p, log). UndoTip p (lv_block log)) (rev es)"
proof -
  have path: "node_path n fresh ok (entity_view t0) (utxo_view t0) es (entity_view (dm_state dm)) (utxo_view (dm_state dm))"
      and ok: "tables_ok (dm_state dm)" and sorted: "sorted (map cp_slot (p0 # map fst es))"
      and cursor: "t_cursor (dm_state dm) = Some (last (p0 # map fst es))"
      and w: "dm_wal dm = w0\<lparr>wal_data := fold (\<lambda>(k, v). tbl_insert k v) (log_rows es) (wal_data w0)\<rparr>"
    using rolled_path [OF rolled] start(2-4) by simp_all
  note log = iter_logs_appended [OF start(1) sorted slots path_points [OF path]]
  have "\<forall>(p, _) \<in> set es. \<not> cp_eq p p0" using slots by (force dest: cp_eq_slot)
  from rollback_path [OF path start(4) ok rest(1) log(1) [folded w, unfolded at(1)] at(2) this rest(2,3)] obtain dm' where
      run: "rollback n p0 dm = Some (Inr (), dm')" and dm': "tables_ok (dm_state dm')"
      "entity_view (dm_state dm') = entity_view t0" "utxo_view (dm_state dm') = utxo_view t0"
      "t_cursor (dm_state dm') = (if at = [] then t_cursor (dm_state dm) else Some p0)"
      "dm_wal dm' = truncate_front p0 (dm_wal dm)" "dm_archive dm' = archive"
      "dm_indexes dm' = (if at = [] then dm_indexes dm else (dm_indexes dm)\<lparr>it_cursor := Some p0\<rparr>)" "mempool_fine (dm_mempool dm')"
      "dm_tips dm' = dm_tips dm @ map (\<lambda>(p, log). UndoTip p (lv_block log)) (rev es)"
    by blast
  have "dm_state dm' = t0\<lparr>t_cursor := Some (if at = [] then last (p0 # map fst es) else p0)\<rparr>"
    using dm' start(2,3) cursor by (intro tables_eqI) (simp_all add: tables_ok_def entity_view_def utxo_view_def)
  moreover have "dm_wal dm' = w0"
  proof -
    have "filter (\<lambda>(k, _). k \<le> into_bytes p0) (wal_data w0) = wal_data w0"
        "filter (\<lambda>(k, _). k \<le> into_bytes p0) (log_rows es) = []"
      using start(1) log(3) by (auto simp: filter_id_conv filter_empty_conv log_rows_def)
    then have "wal_data (truncate_front p0 (dm_wal dm)) = wal_data w0"
      unfolding truncate_front_def remove_entries_data using log(2) [folded w] by simp
    then show ?thesis by (simp add: dm'(5) truncate_front_def remove_entries_def w)
  qed
  ultimately show ?thesis using run dm'(6-9) by blast
qed

end

end
