(* ===== verification/Work_Unit.thy ===== *)
theory Work_Unit
  imports Sync
begin

text \<open>
  Work units (\<^verbatim>\<open>crates/core/src/work_unit.rs\<close>) and their executors for live
  synchronisation (\<^verbatim>\<open>sync.rs\<close>) and bulk import (\<^verbatim>\<open>import.rs\<close>), with
  the work unit of a batch of blocks through all its phases, and the seeding of the log after an import.
  A work unit is the record of its trait methods; a phase takes the unit and the node and returns both.
\<close>

type_synonym ('u, 'm) phase = "'u \<Rightarrow> 'm \<Rightarrow> ((domain_error + unit) \<times> 'u \<times> 'm) option"

record mempool_update =
  mu_point :: chain_point
  mu_seen_txs :: "tx_hash list"

record ('u, 'm) work_unit =
  wu_total_shards :: "'u \<Rightarrow> u32"
  wu_start_shard :: "'u \<Rightarrow> u32"
  wu_initialize :: "('u, 'm) phase"
  wu_load :: "u32 \<Rightarrow> ('u, 'm) phase"
  wu_compute :: "u32 \<Rightarrow> ('u, 'm) phase"
  wu_commit_wal :: "u32 \<Rightarrow> ('u, 'm) phase"
  wu_commit_state :: "u32 \<Rightarrow> ('u, 'm) phase"
  wu_commit_archive :: "u32 \<Rightarrow> ('u, 'm) phase"
  wu_commit_indexes :: "u32 \<Rightarrow> ('u, 'm) phase"
  wu_finalize :: "('u, 'm) phase"
  wu_tip_events :: "'u \<Rightarrow> tip_event list"
  wu_mempool_updates :: "'u \<Rightarrow> mempool_update list"

section \<open>The lifecycle\<close>

text \<open>Phases in a row, up to the first that fails.\<close>

fun run_all :: "('u, 'm) phase list \<Rightarrow> ('u, 'm) phase" where
  "run_all [] u m = Some (Inr (), u, m)"
| "run_all (p # ps) u m = do {
     (res, u, m) \<leftarrow> p u m;
     (case res of Inl err \<Rightarrow> Some (Inl err, u, m) | Inr _ \<Rightarrow> run_all ps u m)
   }"

definition shard_phases :: "('u, 'm) work_unit \<Rightarrow> bool \<Rightarrow> u32 \<Rightarrow> ('u, 'm) phase list" where
  "shard_phases work include_wal shard =
     [wu_load work shard, wu_compute work shard] @
     (if include_wal then [wu_commit_wal work shard] else []) @
     [wu_commit_state work shard, wu_commit_archive work shard, wu_commit_indexes work shard]"

definition shard_range :: "u32 \<Rightarrow> u32 \<Rightarrow> u32 list" where
  "shard_range start total_shards = map word_of_nat [unat start..<unat total_shards]"

definition run_lifecycle :: "build \<Rightarrow> ('u, 'm) work_unit \<Rightarrow> bool \<Rightarrow> ('u, 'm) phase" where
  "run_lifecycle b work include_wal u m = do {
     (res, u, m) \<leftarrow> wu_initialize work u m;
     (case res of
        Inl err \<Rightarrow> Some (Inl err, u, m)
      | Inr _ \<Rightarrow>
          (let total_shards = wu_total_shards work u; start_shard = wu_start_shard work u in do {
             _ \<leftarrow> assert_that (overflow_checks b \<longrightarrow> start_shard \<le> total_shards);
             run_all (concat (map (shard_phases work include_wal) (shard_range start_shard total_shards)) @ [wu_finalize work]) u m
           }))
   }"

fun update_mempool :: "('d, 'e, 'r, 'a) node \<Rightarrow> mempool_update list \<Rightarrow> ('d, 'e, 'r, 'a) domain \<Rightarrow> ('d, 'e, 'r, 'a) domain option" where
  "update_mempool n [] dm = Some dm"
| "update_mempool n (x # xs) dm = do {
     (mempool, _) \<leftarrow> confirm (nd_build n) (nd_walk n (dm_mempool dm)) (mu_point x) (mu_seen_txs x) []
        mempool_finalize_threshold mempool_drop_threshold (dm_mempool dm);
     update_mempool n xs (dm\<lparr>dm_mempool := mempool\<rparr>)
   }"

definition execute_work_unit :: "('d, 'e, 'r, 'a) node \<Rightarrow> ('u, ('d, 'e, 'r, 'a) domain) work_unit \<Rightarrow> ('u, ('d, 'e, 'r, 'a) domain) phase" where
  "execute_work_unit n work u dm = do {
     (res, u, dm) \<leftarrow> run_lifecycle (nd_build n) work True u dm;
     (case res of
        Inl err \<Rightarrow> Some (Inl err, u, dm)
      | Inr _ \<Rightarrow> do {
          dm \<leftarrow> update_mempool n (wu_mempool_updates work u) dm;
          Some (Inr (), u, dm\<lparr>dm_tips := dm_tips dm @ wu_tip_events work u\<rparr>)
        })
   }"

definition import_work_unit :: "('d, 'e, 'r, 'a) node \<Rightarrow> ('u, ('d, 'e, 'r, 'a) domain) work_unit \<Rightarrow> ('u, ('d, 'e, 'r, 'a) domain) phase" where
  "import_work_unit n work u dm = run_lifecycle (nd_build n) work False u dm"

section \<open>The work unit of a batch\<close>

definition commit_archive :: "('d, 'e, 'r, 'a) node \<Rightarrow> ('d, 'e) work_batch \<Rightarrow> 'a \<Rightarrow> domain_error + 'a" where
  "commit_archive n batch archive =
     fold (\<lambda>w res. case res of Inl err \<Rightarrow> Inl err
       | Inr a \<Rightarrow> (case nd_archive_apply n (wb_point w) (wb_raw w) a of Inl err \<Rightarrow> Inl (DomainArchiveError err) | Inr a \<Rightarrow> Inr a))
       (wk_blocks batch) (Inr archive)"

text \<open>The four tables of a UTxO delta, and the archive entry of the block.\<close>

definition index_work_block :: "codec \<Rightarrow> (txo_ref \<times> era_cbor) list \<Rightarrow> 'd work_block \<Rightarrow> index_delta \<Rightarrow> index_delta" where
  "index_work_block cd utxos w b =
     (case decode_block cd (wb_raw w) of
        None \<Rightarrow> b
      | Some block \<Rightarrow>
          (let u = id_utxo b;
               u = (case wb_utxo_delta w of
                      None \<Rightarrow> u
                    | Some d \<Rightarrow>
                        u\<lparr>uid_produced := uid_produced u @ tag_entries cd (produced_utxo d) @ tag_entries cd (recovered_stxi d),
                          uid_consumed := uid_consumed u @ tag_entries cd (consumed_utxo d) @ tag_entries cd (undone_utxo d)\<rparr>)
           in b\<lparr>id_utxo := u, id_archive := id_archive b @ [index_block cd block utxos]\<rparr>))"

definition build_index_delta :: "codec \<Rightarrow> ('d, 'e) work_batch \<Rightarrow> index_delta option" where
  "build_index_delta cd batch = do {
     p \<leftarrow> last_point batch;
     Some (fold (index_work_block cd (wk_utxos_decoded batch)) (wk_blocks batch) (builder_new p))
   }"

definition commit_indexes :: "('d, 'e, 'r, 'a) node \<Rightarrow> ('d, 'e) work_batch \<Rightarrow> index_tables \<Rightarrow> (domain_error + index_tables) option" where
  "commit_indexes n batch t = do {
     delta \<leftarrow> build_index_delta (nd_codec n) batch;
     (case index_apply (nd_xxh3_64 n) delta [] of
        Inl err \<Rightarrow> Some (Inl (DomainIndexError err))
      | Inr ops \<Rightarrow> Some (Inr (index_commit ops t)))
   }"

record ('d, 'e) roll_work_unit =
  ru_batch :: "('d, 'e) work_batch"
  ru_live_mode :: bool

definition roll_tip_events :: "('d, 'e) roll_work_unit \<Rightarrow> tip_event list" where
  "roll_tip_events u =
     (if \<not> ru_live_mode u then [] else map (\<lambda>w. ApplyTip (wb_point w) (wb_raw w)) (wk_blocks (ru_batch u)))"

definition roll_mempool_updates :: "('d, 'e) roll_work_unit \<Rightarrow> mempool_update list" where
  "roll_mempool_updates u =
     (if \<not> ru_live_mode u then []
      else map (\<lambda>w. \<lparr>mu_point = wb_point w, mu_seen_txs = map tv_hash (bv_txs (wb_block w))\<rparr>) (wk_blocks (ru_batch u)))"

definition roll_unit :: "('d, 'e, 'r, 'a) node
    \<Rightarrow> ('c \<Rightarrow> block_view \<Rightarrow> (txo_ref \<times> era_cbor) list \<Rightarrow> chain_error + 'd list \<times> 'c) \<Rightarrow> 'c
    \<Rightarrow> (('d, 'e) roll_work_unit, ('d, 'e, 'r, 'a) domain) work_unit" where
  "roll_unit n visit c = \<lparr>
     wu_total_shards = (\<lambda>_. 1), wu_start_shard = (\<lambda>_. 0),
     wu_initialize = (\<lambda>u dm. Some (Inr (), u, dm)),
     wu_load = (\<lambda>_ u dm. do {
       loaded \<leftarrow> roll_load (nd_build n) (nd_key n) visit (decodes_output (nd_codec n)) c (dm_state dm) (ru_batch u);
       (case loaded of
          Inl err \<Rightarrow> Some (Inl (DomainChainError err), u, dm)
        | Inr batch \<Rightarrow> Some (Inr (), u\<lparr>ru_batch := batch\<rparr>, dm))
     }),
     wu_compute = (\<lambda>_ u dm. do {
       batch \<leftarrow> roll_compute (nd_apply n) (ru_batch u);
       Some (Inr (), u\<lparr>ru_batch := batch\<rparr>, dm)
     }),
     wu_commit_wal = (\<lambda>_ u dm. do {
       w \<leftarrow> commit_wal (nd_build n) (nd_stored n) (ru_batch u) (dm_wal dm);
       Some (Inr (), u, dm\<lparr>dm_wal := w\<rparr>)
     }),
     wu_commit_state = (\<lambda>_ u dm. do {
       t \<leftarrow> commit_state (nd_ns n) (ru_batch u) (dm_state dm);
       Some (Inr (), u, dm\<lparr>dm_state := t\<rparr>)
     }),
     wu_commit_archive = (\<lambda>_ u dm.
       case commit_archive n (ru_batch u) (dm_archive dm) of
         Inl err \<Rightarrow> Some (Inl err, u, dm)
       | Inr archive \<Rightarrow> Some (Inr (), u, dm\<lparr>dm_archive := archive\<rparr>)),
     wu_commit_indexes = (\<lambda>_ u dm. do {
       committed \<leftarrow> commit_indexes n (ru_batch u) (dm_indexes dm);
       (case committed of
          Inl err \<Rightarrow> Some (Inl err, u, dm)
        | Inr indexes \<Rightarrow> Some (Inr (), u, dm\<lparr>dm_indexes := indexes\<rparr>))
     }),
     wu_finalize = (\<lambda>u dm. Some (Inr (), u, dm)),
     wu_tip_events = roll_tip_events,
     wu_mempool_updates = roll_mempool_updates\<rparr>"

section \<open>Seeding the log\<close>

datatype wal_seed = NoCursor | Seeded chain_point

datatype wal_seed_error = SeedReadCursor state_error | SeedUndefined block_slot | SeedReset wal_error

definition seed_wal_from_state :: "('d \<Rightarrow> 'd) \<Rightarrow> 'e tables \<Rightarrow> 'd wal \<Rightarrow> (wal_seed_error + wal_seed) \<times> 'd wal" where
  "seed_wal_from_state stored t w =
     (case read_cursor t of
        None \<Rightarrow> (Inr NoCursor, w)
      | Some cursor \<Rightarrow>
          if \<not> is_fully_defined cursor then (Inl (SeedUndefined (cp_slot cursor)), w)
          else (Inr (Seeded cursor), reset_to stored cursor w))"

section \<open>What executing a batch does\<close>

lemma run_all_InrE:
  assumes "run_all (p # ps) u m = Some (Inr (), u', m')"
  obtains u1 m1 where "p u m = Some (Inr (), u1, m1)" and "run_all ps u1 m1 = Some (Inr (), u', m')"
proof -
  obtain res u1 m1 where one: "p u m = Some (res, u1, m1)" using assms by (auto simp: panic_simps)
  with assms show thesis by (cases res) (auto intro: that)
qed

lemma shard_range_one: "shard_range 0 1 = [0]"
  by (simp add: shard_range_def)

lemma update_mempool_stores:
  "update_mempool n xs dm = Some dm' \<Longrightarrow> dm_wal dm' = dm_wal dm \<and> dm_state dm' = dm_state dm \<and> dm_archive dm' = dm_archive dm \<and>
    dm_indexes dm' = dm_indexes dm \<and> dm_tips dm' = dm_tips dm"
  by (induction xs arbitrary: dm) (fastforce simp: panic_simps)+

lemma roll_unit_other [simp]:
  "wu_total_shards (roll_unit n visit c) u = 1" "wu_start_shard (roll_unit n visit c) u = 0"
  "wu_initialize (roll_unit n visit c) u dm = Some (Inr (), u, dm)" "wu_finalize (roll_unit n visit c) u dm = Some (Inr (), u, dm)"
  "wu_tip_events (roll_unit n visit c) u = roll_tip_events u"
  "wu_mempool_updates (roll_unit n visit c) u = roll_mempool_updates u"
  by (simp_all add: roll_unit_def)

lemma phase_Inr:
  "(case r of Inl err \<Rightarrow> Some (Inl (f err), u, m) | Inr x \<Rightarrow> Some (Inr (), g x, h x)) = Some (Inr (), u', m')
     \<longleftrightarrow> (\<exists>x. r = Inr x \<and> u' = g x \<and> m' = h x)"
  by (cases r) auto

lemma roll_unit_load:
  "wu_load (roll_unit n visit c) s u dm = Some (Inr (), u', dm') \<Longrightarrow>
     roll_load (nd_build n) (nd_key n) visit (decodes_output (nd_codec n)) c (dm_state dm) (ru_batch u) = Some (Inr (ru_batch u')) \<and>
     dm' = dm \<and> ru_live_mode u' = ru_live_mode u"
  by (auto simp: roll_unit_def panic_simps phase_Inr)

lemma roll_unit_compute:
  "wu_compute (roll_unit n visit c) s u dm = Some (Inr (), u', dm') \<Longrightarrow>
     roll_compute (nd_apply n) (ru_batch u) = Some (ru_batch u') \<and> dm' = dm \<and> ru_live_mode u' = ru_live_mode u"
  by (auto simp: roll_unit_def panic_simps)

lemma roll_unit_commit_wal:
  "wu_commit_wal (roll_unit n visit c) s u dm = Some (Inr (), u', dm') \<Longrightarrow>
     commit_wal (nd_build n) (nd_stored n) (ru_batch u) (dm_wal dm) = Some (dm_wal dm') \<and> u' = u \<and>
     dm_state dm' = dm_state dm \<and> dm_tips dm' = dm_tips dm \<and> dm_mempool dm' = dm_mempool dm"
  by (auto simp: roll_unit_def panic_simps)

lemma roll_unit_commit_state:
  "wu_commit_state (roll_unit n visit c) s u dm = Some (Inr (), u', dm') \<Longrightarrow>
     commit_state (nd_ns n) (ru_batch u) (dm_state dm) = Some (dm_state dm') \<and> u' = u \<and>
     dm_wal dm' = dm_wal dm \<and> dm_tips dm' = dm_tips dm \<and> dm_mempool dm' = dm_mempool dm"
  by (auto simp: roll_unit_def panic_simps)

lemma roll_unit_commit_rest:
  "wu_commit_archive (roll_unit n visit c) s u dm = Some (Inr (), u', dm') \<Longrightarrow> u' = u \<and>
     dm_wal dm' = dm_wal dm \<and> dm_state dm' = dm_state dm \<and> dm_tips dm' = dm_tips dm \<and> dm_mempool dm' = dm_mempool dm"
  "wu_commit_indexes (roll_unit n visit c) s u dm = Some (Inr (), u', dm') \<Longrightarrow> u' = u \<and>
     dm_wal dm' = dm_wal dm \<and> dm_state dm' = dm_state dm \<and> dm_tips dm' = dm_tips dm \<and> dm_mempool dm' = dm_mempool dm"
  "wu_finalize (roll_unit n visit c) u dm = Some (Inr (), u', dm') \<Longrightarrow> u' = u \<and> dm' = dm"
  by (auto simp: roll_unit_def panic_simps phase_Inr)

lemma roll_unit_phases:
  assumes "run_lifecycle (nd_build n) (roll_unit n visit c) True u dm = Some (Inr (), u', dm')"
  shows "\<exists>batch1. roll_phases (nd_build n) (nd_key n) (nd_apply n) (nd_ns n) (nd_stored n) visit (decodes_output (nd_codec n)) c
      (ru_batch u) (dm_wal dm, dm_state dm) = Some (Inr (batch1, ru_batch u', dm_wal dm', dm_state dm')) \<and>
    ru_live_mode u' = ru_live_mode u \<and> dm_tips dm' = dm_tips dm \<and> dm_mempool dm' = dm_mempool dm"
proof -
  let ?W = "roll_unit n visit c"
  have "run_all [wu_load ?W 0, wu_compute ?W 0, wu_commit_wal ?W 0, wu_commit_state ?W 0, wu_commit_archive ?W 0,
      wu_commit_indexes ?W 0, wu_finalize ?W] u dm = Some (Inr (), u', dm')"
    using assms by (simp add: run_lifecycle_def roll_unit_def shard_range_one shard_phases_def panic_simps)
  then obtain u1 u2 u3 u4 u5 u6 d1 d2 d3 d4 d5 d6 where
      1: "wu_load ?W 0 u dm = Some (Inr (), u1, d1)" and 2: "wu_compute ?W 0 u1 d1 = Some (Inr (), u2, d2)"
      and 3: "wu_commit_wal ?W 0 u2 d2 = Some (Inr (), u3, d3)" and 4: "wu_commit_state ?W 0 u3 d3 = Some (Inr (), u4, d4)"
      and 5: "wu_commit_archive ?W 0 u4 d4 = Some (Inr (), u5, d5)" and 6: "wu_commit_indexes ?W 0 u5 d5 = Some (Inr (), u6, d6)"
      and 7: "wu_finalize ?W u6 d6 = Some (Inr (), u', dm')"
    by (elim run_all_InrE) (auto simp: panic_simps)
  note load = roll_unit_load [OF 1] and comp = roll_unit_compute [OF 2] and wal = roll_unit_commit_wal [OF 3]
    and state = roll_unit_commit_state [OF 4]
  show ?thesis
    using load comp wal state roll_unit_commit_rest(1) [OF 5] roll_unit_commit_rest(2) [OF 6] roll_unit_commit_rest(3) [OF 7]
    by (intro exI [of _ "ru_batch u1"]) (simp add: roll_phases_def)
qed

text \<open>Executing a batch in live mode: the two stores as its phases leave them, and a notice per block.\<close>

lemma execute_roll:
  assumes "execute_work_unit n (roll_unit n visit c) u dm = Some (Inr (), u', dm')"
  shows "\<exists>batch1. roll_phases (nd_build n) (nd_key n) (nd_apply n) (nd_ns n) (nd_stored n) visit (decodes_output (nd_codec n)) c
      (ru_batch u) (dm_wal dm, dm_state dm) = Some (Inr (batch1, ru_batch u', dm_wal dm', dm_state dm')) \<and>
    dm_tips dm' = dm_tips dm @ roll_tip_events u'"
proof -
  from assms obtain res u1 dm1 where life: "run_lifecycle (nd_build n) (roll_unit n visit c) True u dm = Some (res, u1, dm1)"
      and rest: "(case res of Inl err \<Rightarrow> Some (Inl err, u1, dm1) | Inr _ \<Rightarrow> do {
          dm \<leftarrow> update_mempool n (wu_mempool_updates (roll_unit n visit c) u1) dm1;
          Some (Inr (), u1, dm\<lparr>dm_tips := dm_tips dm @ wu_tip_events (roll_unit n visit c) u1\<rparr>)
        }) = Some (Inr (), u', dm')"
    by (auto simp: execute_work_unit_def panic_simps)
  then have res: "res = Inr ()" by (cases res) simp_all
  with rest obtain dm2 where up: "update_mempool n (roll_mempool_updates u1) dm1 = Some dm2" and u': "u' = u1"
      and dm': "dm' = dm2\<lparr>dm_tips := dm_tips dm2 @ roll_tip_events u1\<rparr>"
    by (auto simp: panic_simps roll_unit_def)
  from roll_unit_phases [OF life [unfolded res]] update_mempool_stores [OF up] show ?thesis
    by (auto simp: u' dm')
qed

end
