(* ===== verification/Bootstrap.thy ===== *)
theory Bootstrap
  imports Sync
begin

text \<open>
  Starting a node (\<^verbatim>\<open>crates/core/src/bootstrap.rs\<close>): the check of the write-ahead log
  against the state, and the replay of logged blocks that brings the state, the archive and the
  indexes up to the tip of the log after a crash. Draining the pending work of the chain logic is an
  argument; a message that is only logged is left out.
\<close>

section \<open>Integrity\<close>

definition check_wal_in_sync_with_state :: "('d, 'e, 'r, 'a) node \<Rightarrow> ('d, 'e, 'r, 'a) domain
    \<Rightarrow> (domain_error + unit) \<times> ('d, 'e, 'r, 'a) domain" where
  "check_wal_in_sync_with_state n dm =
     (case (map_option fst (find_tip (dm_wal dm)), read_cursor (dm_state dm)) of
        (Some wal_tip, Some state) \<Rightarrow>
          if cp_slot state \<le> cp_slot wal_tip then (Inr (), dm)
          else (Inl (InconsistentState (Some wal_tip) (Some state)), dm)
      | (None, Some state) \<Rightarrow>
          if is_fully_defined state then (Inr (), dm\<lparr>dm_wal := reset_to (nd_stored n) state (dm_wal dm)\<rparr>)
          else (Inl (InconsistentState None (Some state)), dm)
      | (Some wal_tip, None) \<Rightarrow>
          if cp_eq wal_tip Origin then (Inr (), dm)
          else (Inl (InconsistentState (Some wal_tip) None), dm)
      | (None, None) \<Rightarrow> (Inr (), dm))"

text \<open>The comparison with the archive only logs; reading its tip can fail.\<close>

definition check_archive_in_sync_with_state :: "('d, 'e, 'r, 'a) node \<Rightarrow> ('d, 'e, 'r, 'a) domain
    \<Rightarrow> domain_error + unit" where
  "check_archive_in_sync_with_state n dm =
     (case nd_archive_tip n (dm_archive dm) of Inl err \<Rightarrow> Inl (DomainArchiveError err) | Inr _ \<Rightarrow> Inr ())"

definition check_integrity :: "('d, 'e, 'r, 'a) node \<Rightarrow> ('d, 'e, 'r, 'a) domain
    \<Rightarrow> (domain_error + unit) \<times> ('d, 'e, 'r, 'a) domain" where
  "check_integrity n dm =
     (case check_wal_in_sync_with_state n dm of
        (Inl err, dm) \<Rightarrow> (Inl err, dm)
      | (Inr _, dm) \<Rightarrow> (check_archive_in_sync_with_state n dm, dm))"

section \<open>Catching up\<close>

datatype catch_up_severity = Fatal | Lenient

definition verify_caught_up :: "chain_point option \<Rightarrow> chain_point \<Rightarrow> catch_up_severity \<Rightarrow> domain_error + unit" where
  "verify_caught_up reached target severity =
     (if (case reached of None \<Rightarrow> False | Some point \<Rightarrow> cp_slot target \<le> cp_slot point) then Inr ()
      else case severity of
        Fatal \<Rightarrow> Inl (InconsistentState (Some target) reached)
      | Lenient \<Rightarrow> Inr ())"

text \<open>\<^verbatim>\<open>Some(point.slot()) <= state_slot\<close> on options, and the equality of an optional point.\<close>

definition at_or_before :: "block_slot option \<Rightarrow> chain_point \<Rightarrow> bool" where
  "at_or_before state_slot point = (case state_slot of None \<Rightarrow> False | Some slot \<Rightarrow> cp_slot point \<le> slot)"

definition is_point :: "chain_point option \<Rightarrow> chain_point \<Rightarrow> bool" where
  "is_point cursor target = (case cursor of None \<Rightarrow> False | Some p \<Rightarrow> cp_eq p target)"

definition start_from :: "'d wal \<Rightarrow> block_slot option \<Rightarrow> chain_point option" where
  "start_from w slot = (case slot of Some s \<Rightarrow> locate_point w s | None \<Rightarrow> None)"

text \<open>Every entry commits on its own, so an error leaves the entries before it applied.\<close>

fun replay_state :: "('d, 'e, 'r, 'a) node \<Rightarrow> block_slot option \<Rightarrow> 'd log_entry list \<Rightarrow> 'e tables
    \<Rightarrow> ((domain_error + unit) \<times> 'e tables) option" where
  "replay_state n state_slot [] t = Some (Inr (), t)"
| "replay_state n state_slot ((point, log) # logs) t =
     (if at_or_before state_slot point then replay_state n state_slot logs t
      else if lv_block log = [] then replay_state n state_slot logs t
      else do {
        applied \<leftarrow> apply_delta_chunk (nd_key n) (nd_apply n) [] (table_reader (entity_view t)) (lv_delta log);
        (case applied of
           Inl err \<Rightarrow> Some (Inl (DomainStateError err), t)
         | Inr (entities, _) \<Rightarrow>
             (let ops = map (\<lambda>(k, e). save_op (nd_ns n) k e) entities in
              case compute_catchup (nd_codec n) (lv_block log) (lv_inputs log) point of
                Inl err \<Rightarrow> Some (Inl (DomainChainError err), t)
              | Inr catchup \<Rightarrow>
                  (let ops = set_cursor point (apply_utxoset (cb_utxo_delta catchup) ops)
                   in replay_state n state_slot logs (commit ops t))))
      })"

definition catch_up_state :: "('d, 'e, 'r, 'a) node \<Rightarrow> chain_point \<Rightarrow> ('d, 'e, 'r, 'a) domain
    \<Rightarrow> ((domain_error + unit) \<times> ('d, 'e, 'r, 'a) domain) option" where
  "catch_up_state n target dm =
     (let state_cursor = read_cursor (dm_state dm) in
      if is_point state_cursor target then Some (Inr (), dm)
      else
        (let state_slot = (case state_cursor of None \<Rightarrow> None | Some Origin \<Rightarrow> None | Some point \<Rightarrow> Some (cp_slot point));
             logs = iter_logs (dm_wal dm) (start_from (dm_wal dm) state_slot) (Some target)
         in do {
           (res, t) \<leftarrow> replay_state n state_slot logs (dm_state dm);
           (let dm = dm\<lparr>dm_state := t\<rparr> in
            case res of
              Inl err \<Rightarrow> Some (Inl err, dm)
            | Inr _ \<Rightarrow> Some (verify_caught_up (read_cursor (dm_state dm)) target Fatal, dm))
         }))"

fun replay_archive :: "('d, 'e, 'r, 'a) node \<Rightarrow> block_slot option \<Rightarrow> 'd log_entry list \<Rightarrow> 'a \<times> nat \<Rightarrow> domain_error + 'a \<times> nat" where
  "replay_archive n archive_tip [] (archive, count) = Inr (archive, count)"
| "replay_archive n archive_tip ((point, log) # logs) (archive, count) =
     (if at_or_before archive_tip point then replay_archive n archive_tip logs (archive, count)
      else if lv_block log = [] then replay_archive n archive_tip logs (archive, count)
      else case nd_archive_apply n point (lv_block log) archive of
        Inl err \<Rightarrow> Inl (DomainArchiveError err)
      | Inr archive \<Rightarrow> replay_archive n archive_tip logs (archive, count + 1))"

definition catch_up_archive :: "('d, 'e, 'r, 'a) node \<Rightarrow> chain_point \<Rightarrow> ('d, 'e, 'r, 'a) domain
    \<Rightarrow> (domain_error + unit) \<times> ('d, 'e, 'r, 'a) domain" where
  "catch_up_archive n target dm =
     (case nd_archive_tip n (dm_archive dm) of
        Inl err \<Rightarrow> (Inl (DomainArchiveError err), dm)
      | Inr tip \<Rightarrow>
          (let archive_tip = map_option fst tip in
           if archive_tip = Some (cp_slot target) then (Inr (), dm)
           else
             (case replay_archive n archive_tip
                (iter_logs (dm_wal dm) (start_from (dm_wal dm) archive_tip) (Some target)) (dm_archive dm, 0) of
                Inl err \<Rightarrow> (Inl err, dm)
              | Inr (archive, count) \<Rightarrow>
                  (let dm = (if 0 < count then dm\<lparr>dm_archive := archive\<rparr> else dm) in
                   case nd_archive_tip n (dm_archive dm) of
                     Inl err \<Rightarrow> (Inl (DomainArchiveError err), dm)
                   | Inr tip \<Rightarrow> (verify_caught_up (map_option (\<lambda>(slot, _). Slot slot) tip) target Lenient, dm)))))"

fun replay_indexes :: "('d, 'e, 'r, 'a) node \<Rightarrow> block_slot option \<Rightarrow> 'd log_entry list \<Rightarrow> index_op list \<times> nat
    \<Rightarrow> domain_error + index_op list \<times> nat" where
  "replay_indexes n index_slot [] (ops, count) = Inr (ops, count)"
| "replay_indexes n index_slot ((point, log) # logs) (ops, count) =
     (if at_or_before index_slot point then replay_indexes n index_slot logs (ops, count)
      else if lv_block log = [] then replay_indexes n index_slot logs (ops, count)
      else case compute_catchup (nd_codec n) (lv_block log) (lv_inputs log) point of
        Inl err \<Rightarrow> Inl (DomainChainError err)
      | Inr catchup \<Rightarrow>
          (case index_apply (nd_xxh3_64 n) (cb_index_delta catchup) ops of
             Inl err \<Rightarrow> Inl (DomainIndexError err)
           | Inr ops \<Rightarrow> replay_indexes n index_slot logs (ops, count + 1)))"

definition catch_up_indexes :: "('d, 'e, 'r, 'a) node \<Rightarrow> chain_point \<Rightarrow> ('d, 'e, 'r, 'a) domain
    \<Rightarrow> (domain_error + unit) \<times> ('d, 'e, 'r, 'a) domain" where
  "catch_up_indexes n target dm =
     (let cursor = index_cursor (dm_indexes dm) in
      if is_point cursor target then (Inr (), dm)
      else
        (let index_slot = map_option cp_slot cursor in
         case replay_indexes n index_slot
                (iter_logs (dm_wal dm) (start_from (dm_wal dm) index_slot) (Some target)) ([], 0) of
           Inl err \<Rightarrow> (Inl err, dm)
         | Inr (ops, count) \<Rightarrow>
             (let dm = (if 0 < count then dm\<lparr>dm_indexes := index_commit ops (dm_indexes dm)\<rparr> else dm)
              in (verify_caught_up (index_cursor (dm_indexes dm)) target Lenient, dm))))"

definition catch_up_stores :: "('d, 'e, 'r, 'a) node \<Rightarrow> ('d, 'e, 'r, 'a) domain
    \<Rightarrow> ((domain_error + unit) \<times> ('d, 'e, 'r, 'a) domain) option" where
  "catch_up_stores n dm =
     (case find_tip (dm_wal dm) of
        None \<Rightarrow> Some (Inr (), dm)
      | Some (Origin, _) \<Rightarrow> Some (Inr (), dm)
      | Some (target, _) \<Rightarrow> do {
          (res, dm) \<leftarrow> catch_up_state n target dm;
          (case res of
             Inl err \<Rightarrow> Some (Inl err, dm)
           | Inr _ \<Rightarrow>
               (case catch_up_archive n target dm of
                  (Inl err, dm) \<Rightarrow> Some (Inl err, dm)
                | (Inr _, dm) \<Rightarrow> Some (catch_up_indexes n target dm)))
        })"

definition bootstrap :: "('d, 'e, 'r, 'a) node \<Rightarrow> (('d, 'e, 'r, 'a) domain \<Rightarrow> ((domain_error + unit) \<times> ('d, 'e, 'r, 'a) domain) option)
    \<Rightarrow> ('d, 'e, 'r, 'a) domain \<Rightarrow> ((domain_error + unit) \<times> ('d, 'e, 'r, 'a) domain) option" where
  "bootstrap n drain_pending_work dm =
     (case check_integrity n dm of
        (Inl err, dm) \<Rightarrow> Some (Inl err, dm)
      | (Inr _, dm) \<Rightarrow> do {
          (res, dm) \<leftarrow> catch_up_stores n dm;
          (case res of Inl err \<Rightarrow> Some (Inl err, dm) | Inr _ \<Rightarrow> drain_pending_work dm)
        })"

section \<open>What success means\<close>

lemma verify_caught_up_Fatal:
  "verify_caught_up reached target Fatal = Inr () \<longleftrightarrow> (\<exists>p. reached = Some p \<and> cp_slot target \<le> cp_slot p)"
  by (cases reached) (simp_all add: verify_caught_up_def)

lemma catch_up_state_reaches:
  assumes "catch_up_state n target dm = Some (Inr (), dm')"
  shows "\<exists>p. read_cursor (dm_state dm') = Some p \<and> cp_slot target \<le> cp_slot p"
proof (cases "is_point (read_cursor (dm_state dm)) target")
  case True
  with assms show ?thesis by (auto simp: catch_up_state_def is_point_def dest!: cp_eq_slot split: option.splits)
next
  case False
  let ?slot = "case read_cursor (dm_state dm) of None \<Rightarrow> None | Some Origin \<Rightarrow> None | Some point \<Rightarrow> Some (cp_slot point)"
  let ?run = "replay_state n ?slot (iter_logs (dm_wal dm) (start_from (dm_wal dm) ?slot) (Some target)) (dm_state dm)"
  obtain res t where run: "?run = Some (res, t)" using assms False by (cases ?run) (auto simp: catch_up_state_def)
  with assms False show ?thesis by (cases res) (auto simp: catch_up_state_def verify_caught_up_Fatal)
qed

lemma catch_up_archive_state: "dm_state (snd (catch_up_archive n target dm)) = dm_state dm"
  by (simp add: catch_up_archive_def Let_def split: sum.splits prod.splits)

lemma catch_up_indexes_state: "dm_state (snd (catch_up_indexes n target dm)) = dm_state dm"
  by (simp add: catch_up_indexes_def Let_def split: sum.splits prod.splits)

lemma catch_up_stores_tip:
  assumes "find_tip (dm_wal dm) = Some (tip, log)" and "tip \<noteq> Origin"
  shows "catch_up_stores n dm = do {
     (res, dm) \<leftarrow> catch_up_state n tip dm;
     (case res of
        Inl err \<Rightarrow> Some (Inl err, dm)
      | Inr _ \<Rightarrow> (case catch_up_archive n tip dm of
           (Inl err, dm) \<Rightarrow> Some (Inl err, dm)
         | (Inr _, dm) \<Rightarrow> Some (catch_up_indexes n tip dm)))
   }"
  using assms by (cases tip) (auto simp: catch_up_stores_def)

lemma catch_up_stores_reaches:
  assumes "catch_up_stores n dm = Some (Inr (), dm')" and "find_tip (dm_wal dm) = Some (tip, log)" and "tip \<noteq> Origin"
  shows "\<exists>p. read_cursor (dm_state dm') = Some p \<and> cp_slot tip \<le> cp_slot p"
proof -
  from assms(1) obtain res dm1 where run: "catch_up_state n tip dm = Some (res, dm1)"
      and rest: "(case res of Inl err \<Rightarrow> Some (Inl err, dm1) | Inr _ \<Rightarrow>
        (case catch_up_archive n tip dm1 of (Inl err, dm2) \<Rightarrow> Some (Inl err, dm2) | (Inr _, dm2) \<Rightarrow> Some (catch_up_indexes n tip dm2)))
        = Some (Inr (), dm')"
    unfolding catch_up_stores_tip [OF assms(2,3)] by (auto simp: panic_simps)
  obtain a dm2 where arch: "catch_up_archive n tip dm1 = (a, dm2)" by (cases "catch_up_archive n tip dm1")
  from rest arch have res: "res = Inr ()" by (cases res) auto
  from rest arch res have "snd (catch_up_indexes n tip dm2) = dm'" by (cases a) auto
  then have "dm_state dm' = dm_state dm1"
    using catch_up_indexes_state [of n tip dm2] catch_up_archive_state [of n tip dm1] arch by simp
  with catch_up_state_reaches [OF run [unfolded res]] show ?thesis by simp
qed

text \<open>The check of the log, case by case: afterwards a log is at or ahead of the state, or both are empty.\<close>

lemma check_wal_ahead:
  assumes "check_wal_in_sync_with_state n dm = (Inr (), dm')" and "read_cursor (dm_state dm) = Some cursor" and "wal_ok (dm_wal dm)"
  shows "\<exists>tip log. find_tip (dm_wal dm') = Some (tip, log) \<and> cp_slot cursor \<le> cp_slot tip"
proof (cases "find_tip (dm_wal dm)")
  case None
  then have empty: "wal_data (dm_wal dm) = []" by (simp add: find_tip_data split: if_splits)
  from None assms(1,2) have def: "is_fully_defined cursor" and dm': "dm' = dm\<lparr>dm_wal := reset_to (nd_stored n) cursor (dm_wal dm)\<rparr>"
    by (auto simp: check_wal_in_sync_with_state_def split: if_splits)
  have "wal_data (dm_wal dm') = [(into_bytes cursor, logged (nd_stored n) log_value_origin)]"
    by (simp add: dm' reset_to_def append_entries_def remove_entries_data empty)
  moreover have "exact cursor" using def by (cases cursor) (auto simp: exact_iff)
  ultimately show ?thesis by (simp add: find_tip_data exact_def)
next
  case (Some x)
  with assms(1,2) show ?thesis by (cases x) (auto simp: check_wal_in_sync_with_state_def split: if_splits)
qed

section \<open>Replaying a path\<close>

text \<open>
  What replaying needs of the deltas beyond their contract: read back from the log, an applied delta
  does to the entity what it did the first time.
\<close>

locale replay_system = node_system n fresh ok
  for n :: "('d, 'e, 'r, 'a) node" and fresh :: "'d \<Rightarrow> bool" and ok :: "'d \<Rightarrow> 'e option \<Rightarrow> bool" +
  fixes replayable :: "'d \<Rightarrow> bool"
  assumes replay: "nd_apply n d e = Some (d', e') \<Longrightarrow> replayable (nd_stored n d') \<Longrightarrow> typed (nd_ns n) (fst (nd_key n d)) e
    \<Longrightarrow> \<exists>d''. nd_apply n (nd_stored n d') e = Some (d'', e')"

definition replayable_log :: "('d \<Rightarrow> bool) \<Rightarrow> 'd log_entry list \<Rightarrow> bool" where
  "replayable_log replayable es \<longleftrightarrow> (\<forall>(_, log) \<in> set es. \<forall>d \<in> set (lv_delta log). replayable d)"

context replay_system
begin

lemma replay_run_view:
  assumes "run_view (nd_key n) (nd_apply n) V ds = Some (V', ds')" and "typed_table (nd_ns n) V"
    and "\<forall>d \<in> set ds'. replayable (nd_stored n d)"
  shows "\<exists>ds''. run_view (nd_key n) (nd_apply n) V (map (nd_stored n) ds') = Some (V', ds'')"
  using assms
proof (induction ds arbitrary: V ds')
  case (Cons d ds)
  from Cons.prems(1) obtain d1 e ds1 where d1: "nd_apply n d (V (nd_key n d)) = Some (d1, e)"
      and rest: "run_view (nd_key n) (nd_apply n) (V(nd_key n d := e)) ds = Some (V', ds1)" and ds': "ds' = d1 # ds1"
      and kd: "nd_key n (nd_stored n d1) = nd_key n d"
    by (rule run_view_ConsE)
  note t = typed_tableD [OF Cons.prems(2), of "nd_key n d"]
  have typed: "typed_table (nd_ns n) (V(nd_key n d := e))"
    by (rule typed_table_upd [OF Cons.prems(2) ds_typed [OF t d1]])
  obtain d'' where "nd_apply n (nd_stored n d1) (V (nd_key n d)) = Some (d'', e)"
    using replay [OF d1 _ t] Cons.prems(3) ds' by auto
  moreover obtain ds'' where "run_view (nd_key n) (nd_apply n) (V(nd_key n d := e)) (map (nd_stored n) ds1) = Some (V', ds'')"
  proof -
    have "\<forall>d \<in> set ds1. replayable (nd_stored n d)" using Cons.prems(3) ds' by simp
    from Cons.IH [OF rest typed this] that show thesis by blast
  qed
  ultimately show ?case by (simp add: ds' kd fun_upd_def)
qed simp

lemma replay_block:
  assumes block: "run_view (nd_key n) (nd_apply n) (entity_view t) ds = Some (V', ds')"
      "decode_block (nd_codec n) raw = Some v" "list_all (decodes_output (nd_codec n) \<circ> snd) inputs"
      "compute_apply_delta v inputs = Inr d"
    and typed: "typed_table (nd_ns n) (entity_view t)" and rep: "\<forall>d \<in> set ds'. replayable (nd_stored n d)"
    and new: "\<not> at_or_before slot p" "raw \<noteq> []"
  obtains t' where "entity_view t' = V'" and "utxo_view t' = utxo_apply d (utxo_view t)" and "t_cursor t' = Some p"
    and "tables_ok t \<Longrightarrow> tables_ok t'"
    and "\<And>logs. replay_state n slot ((p, \<lparr>lv_block = raw, lv_delta = map (nd_stored n) ds', lv_inputs = inputs\<rparr>) # logs) t
      = replay_state n slot logs t'"
proof -
  obtain ds'' where view: "run_view (nd_key n) (nd_apply n) (entity_view t) (map (nd_stored n) ds') = Some (V', ds'')"
    using replay_run_view [OF block(1) typed rep] by blast
  obtain es where es: "apply_delta_chunk (nd_key n) (nd_apply n) [] (table_reader (entity_view t)) (map (nd_stored n) ds')
      = Some (Inr (es, ds''))" and V': "overlay es (entity_view t) = V'" and cache: "cache_ok es"
    using view by (rule_tac apply_chunk_view [of "[]" "nd_key n" "nd_apply n" "entity_view t" "map (nd_stored n) ds'"]) simp_all
  obtain c where c: "compute_catchup (nd_codec n) raw inputs p = Inr c" "cb_utxo_delta c = d"
    using compute_catchup_Inr [OF block(2-4)] by blast
  define t' where "t' = commit (set_cursor p (apply_utxoset d (map (\<lambda>(k, e). save_op (nd_ns n) k e) es))) t"
  have "save_entities (nd_ns n) es (entity_view t) = V'"
    using save_overlay [OF cache, of "nd_ns n" "entity_view t"] V' typed_run_view [OF block(1) typed] by simp
  then have "entity_view t' = V'" "utxo_view t' = utxo_apply d (utxo_view t)" "t_cursor t' = Some p"
    by (simp_all add: t'_def set_cursor_def commit_append commit_apply_utxoset commit_save_ops)
  moreover have "tables_ok t \<Longrightarrow> tables_ok t'" by (simp add: t'_def commit_ok)
  moreover have "replay_state n slot ((p, \<lparr>lv_block = raw, lv_delta = map (nd_stored n) ds', lv_inputs = inputs\<rparr>) # logs) t
      = replay_state n slot logs t'" for logs
    using new by (simp add: es c t'_def Let_def)
  ultimately show thesis by (rule that)
qed

lemma replay_path:
  assumes "node_path n fresh ok V u es V' u'" and "V = entity_view t" and "u = utxo_view t"
    and "typed_table (nd_ns n) V" and "tables_ok t" and "replayable_log replayable es"
    and "\<forall>(p, _) \<in> set es. \<not> at_or_before slot p" and "t_cursor t = Some p0"
  shows "\<exists>t'. replay_state n slot es t = Some (Inr (), t') \<and> tables_ok t' \<and> entity_view t' = V' \<and> utxo_view t' = u' \<and>
    t_cursor t' = Some (last (p0 # map fst es))"
  using assms
proof (induction arbitrary: t p0 rule: ledger_path.induct)
  case (path_end V u)
  then show ?case by simp
next
  case (path_block V ds V1 ds1 raw v inputs d u es V2 u2)
  have rep: "\<forall>d \<in> set ds1. replayable (nd_stored n d)" using path_block.prems(5) by (auto simp: replayable_log_def)
  have new: "\<not> at_or_before slot (Specific (bv_slot v) (bv_hash v))" using path_block.prems(6) by simp
  obtain t1 where t1: "entity_view t1 = V1" "utxo_view t1 = utxo_apply d u"
      "t_cursor t1 = Some (Specific (bv_slot v) (bv_hash v))" "tables_ok t \<Longrightarrow> tables_ok t1"
      and step: "\<And>logs. replay_state n slot ((Specific (bv_slot v) (bv_hash v),
        \<lparr>lv_block = raw, lv_delta = map (nd_stored n) ds1, lv_inputs = inputs\<rparr>) # logs) t = replay_state n slot logs t1"
    using replay_block [of t ds V1 ds1 raw v inputs d slot "Specific (bv_slot v) (bv_hash v)"] path_block.hyps path_block.prems(1-3) rep new
    by metis
  have "typed_table (nd_ns n) V1" using typed_run_view [OF path_block.hyps(1)] path_block.prems(1,3) by simp
  with path_block.IH [of t1 "Specific (bv_slot v) (bv_hash v)"] t1 path_block.prems(4,5,6) obtain t' where
      "replay_state n slot es t1 = Some (Inr (), t')" "tables_ok t'" "entity_view t' = V2" "utxo_view t' = u2"
      "t_cursor t' = Some (last (Specific (bv_slot v) (bv_hash v) # map fst es))"
    by (auto simp: replayable_log_def)
  then show ?case using step by (intro exI [of _ t']) (simp del: replay_state.simps(2))
qed

end

section \<open>The entries to replay\<close>

text \<open>Searching the start of the replay near the cursor skips none of the entries after it.\<close>

lemma iter_logs_located:
  assumes w: "wal_ok w" and tip: "find_tip w = Some (target, log)"
    and slots: "distinct (map (cp_slot \<circ> fst) (filter (\<lambda>(p, _). s < cp_slot p) (iter_all w)))"
  shows "filter (\<lambda>(p, _). s < cp_slot p) (iter_logs w (locate_point w s) (Some target)) = filter (\<lambda>(p, _). s < cp_slot p) (iter_all w)"
proof -
  have in_range: "(case locate_point w s of None \<Rightarrow> True | Some p \<Rightarrow> into_bytes p \<le> k) \<and> k \<le> into_bytes target"
    if k: "(k, v) \<in> set (wal_data w)" "s < cp_slot (from_bytes k)" for k v
  proof -
    have key: "into_bytes (from_bytes k) = k" using wal_ok_key [OF w k(1)] by (simp add: wal_key_def)
    have q: "(from_bytes k, v) \<in> set (iter_all w)" using k(1) by (force simp: iter_all_data)
    have "into_bytes p \<le> k" if p: "locate_point w s = Some p" for p
    proof (cases "cp_slot p < cp_slot (from_bytes k)")
      case True
      then show ?thesis using slot_less_bytes [of p "from_bytes k"] key by simp
    next
      case False
      from locate_point_finds(1) [OF w p] obtain v' where p': "(p, v') \<in> set (iter_all w)"
          and near: "slot_distance s (cp_slot p) \<le> slot_distance s (cp_slot (from_bytes k))"
        using q by fastforce
      from near False k(2) have same: "cp_slot p = cp_slot (from_bytes k)"
        by (auto simp: slot_distance_def word_less_nat_alt word_unat_eq_iff split: if_splits)
      have "inj_on (cp_slot \<circ> fst) (set (filter (\<lambda>(p, _). s < cp_slot p) (iter_all w)))"
        using slots by (simp only: distinct_map)
      then have "(p, v') = (from_bytes k, v)"
        by (rule inj_onD) (use p' q same k(2) in auto)
      then show ?thesis using key by simp
    qed
    moreover have "k \<le> into_bytes target" using tip_is_last(2) [OF w tip] k(1) by force
    ultimately show ?thesis by (auto split: option.splits)
  qed
  show ?thesis
    unfolding iter_logs_def iter_all_data filter_map filter_filter
    by (rule arg_cong [where f = "map _"], rule filter_cong) (use in_range in auto)
qed

lemma last_filter: "xs \<noteq> [] \<Longrightarrow> P (last xs) \<Longrightarrow> last (filter P xs) = last xs"
  by (cases xs rule: rev_cases) simp_all

lemma iter_all_upto_tip:
  assumes "wal_ok w" and "find_tip w = Some (target, log)" and "x \<in> set (iter_all w)"
  shows "cp_slot (fst x) \<le> cp_slot target"
proof -
  from assms(3) obtain kv where kv: "kv \<in> set (wal_data w)" "x = (from_bytes (fst kv), snd kv)"
    unfolding iter_all_data by (auto simp: split_def)
  have "into_bytes (from_bytes (fst kv)) = fst kv"
    using wal_ok_key [OF assms(1), of "fst kv" "snd kv"] kv(1) by (simp add: wal_key_def)
  moreover have "fst kv \<le> into_bytes target" by (rule bspec [OF tip_is_last(2) [OF assms(1,2)] imageI [OF kv(1)]])
  ultimately have "into_bytes (fst x) \<le> into_bytes target" by (simp add: kv(2))
  then show ?thesis by (rule into_bytes_slot_mono)
qed

lemma replay_state_skips:
  "replay_state n (Some s) logs t = replay_state n (Some s) (filter (\<lambda>(p, _). s < cp_slot p) logs) t"
proof (induction logs arbitrary: t)
  case (Cons x logs)
  obtain p log where x: "x = (p, log)" by (cases x)
  have later: "replay_state n (Some s) (filter (\<lambda>(p, _). s < cp_slot p) logs) = replay_state n (Some s) logs"
    using Cons.IH by (intro ext) (rule sym)
  show ?case
  proof (cases "s < cp_slot p")
    case True
    then have "filter (\<lambda>(p, _). s < cp_slot p) (x # logs) = x # filter (\<lambda>(p, _). s < cp_slot p) logs" by (simp add: x)
    then show ?thesis by (simp only:) (unfold x replay_state.simps(2) later, rule refl)
  next
    case False
    then have "at_or_before (Some s) p" by (simp add: at_or_before_def)
    with False show ?thesis by (simp add: x later)
  qed
qed simp

context replay_system
begin

lemma catch_up_state_path:
  assumes path: "node_path n fresh ok (entity_view (dm_state dm)) (utxo_view (dm_state dm)) es V' u'"
    and typed: "typed_table (nd_ns n) (entity_view (dm_state dm))" and tables: "tables_ok (dm_state dm)"
    and rep: "replayable_log replayable es"
    and cursor: "t_cursor (dm_state dm) = Some (Specific s h)"
    and wal: "wal_ok (dm_wal dm)" "find_tip (dm_wal dm) = Some (target, log)"
    and es: "es = filter (\<lambda>(p, _). s < cp_slot p) (iter_all (dm_wal dm))" "es \<noteq> []"
    and slots: "distinct (map (cp_slot \<circ> fst) es)"
  shows "\<exists>t'. catch_up_state n target dm = Some (Inr (), dm\<lparr>dm_state := t'\<rparr>) \<and> tables_ok t' \<and>
    entity_view t' = V' \<and> utxo_view t' = u' \<and> t_cursor t' = Some target"
proof -
  have "\<forall>(p, _) \<in> set es. \<not> at_or_before (Some s) p" by (auto simp: es(1) at_or_before_def)
  from replay_path [OF path refl refl typed tables rep this cursor] obtain t' where
      run: "replay_state n (Some s) es (dm_state dm) = Some (Inr (), t')" and t': "tables_ok t'" "entity_view t' = V'"
      "utxo_view t' = u'" "t_cursor t' = Some (last (Specific s h # map fst es))"
    by blast
  have tip: "iter_all (dm_wal dm) \<noteq> []" "last (iter_all (dm_wal dm)) = (target, log)"
    using wal(2) by (cases "wal_data (dm_wal dm)" rule: rev_cases; force simp: find_tip_data iter_all_data)+
  obtain x where x: "x \<in> set es" using es(2) by (cases es) auto
  then have "s < cp_slot target" using iter_all_upto_tip [OF wal, of x] by (auto simp: es(1) intro: less_le_trans)
  then have last: "last es = (target, log)" and other: "\<not> cp_eq (Specific s h) target"
    using last_filter [OF tip(1), of "\<lambda>(p, _). s < cp_slot p"] cp_eq_slot [of "Specific s h" target]
    by (simp_all add: es(1) tip(2)) fastforce
  have logs: "replay_state n (Some s) (iter_logs (dm_wal dm) (locate_point (dm_wal dm) s) (Some target)) (dm_state dm) = Some (Inr (), t')"
    unfolding replay_state_skips [of n s "iter_logs (dm_wal dm) (locate_point (dm_wal dm) s) (Some target)"]
      iter_logs_located [OF wal slots [unfolded es(1)]] using run by (simp add: es(1))
  have "t_cursor t' = Some target" using t'(4) es(2) last by (simp add: last_map)
  moreover from this have "catch_up_state n target dm = Some (Inr (), dm\<lparr>dm_state := t'\<rparr>)"
    using logs other by (simp add: catch_up_state_def is_point_def read_cursor_def cursor start_from_def verify_caught_up_def)
  ultimately show ?thesis using t' by blast
qed

text \<open>
  Batches the log has and the state lost: replaying them gives the state they had committed.
\<close>

lemma catch_up_rolled:
  assumes rolled: "rolled n fresh ok visit (w0, t0) es (w, t)" and es: "es \<noteq> []" "replayable_log replayable es"
    and start: "wal_ok w0" "find_tip w0 = Some (Specific s h, log0)" "tables_ok t0" "t_cursor t0 = Some (Specific s h)"
      "typed_table (nd_ns n) (entity_view t0)"
    and slots: "distinct (s # map (cp_slot \<circ> fst) es)"
    and dm: "dm_wal dm = w" "dm_state dm = t0"
  shows "find_tip w = Some (last es) \<and> catch_up_state n (fst (last es)) dm = Some (Inr (), dm\<lparr>dm_state := t\<rparr>)"
proof -
  have path: "node_path n fresh ok (entity_view t0) (utxo_view t0) es (entity_view t) (utxo_view t)"
      and ok: "tables_ok t" and sorted: "sorted (map cp_slot (Specific s h # map fst es))"
      and cursor: "t_cursor t = Some (last (Specific s h # map fst es))"
      and w: "w = w0\<lparr>wal_data := fold (\<lambda>(k, v). tbl_insert k v) (log_rows es) (wal_data w0)\<rparr>"
    using rolled_path [OF rolled] start(3-5) by simp_all
  have "distinct (map cp_slot (Specific s h # map fst es))" using slots by simp
  note log = iter_logs_appended [OF tip_is_last(2) [OF start(1,2)] sorted this path_points [OF path], folded w]
  have tip: "find_tip w = Some (last es)" using es(1) by (cases es rule: rev_cases) (simp_all add: find_tip_def log(4))
  have wal: "wal_ok w"
  proof -
    have "tbl_ok (wal_data w)" using start(1) by (simp add: w wal_ok_def tbl.wf_fold_ins)
    moreover have "\<forall>k \<in> fst ` set (wal_data w). wal_key k"
      using start(1) by (auto simp: log(2) log_rows_def dest: wal_ok_key)
    ultimately show ?thesis by (auto simp: wal_ok_def)
  qed
  have "filter (\<lambda>(p, _). s < cp_slot p) (iter_all w0) = []"
    using iter_all_upto_tip [OF start(1,2)] by (force simp: filter_empty_conv)
  moreover have "filter (\<lambda>(p, _). s < cp_slot p) es = es"
    using sorted slots by (force simp: filter_id_conv le_less)
  ultimately have es_w: "es = filter (\<lambda>(p, _). s < cp_slot p) (iter_all w)" by (simp add: log(4))
  obtain target lg where last: "last es = (target, lg)" by (cases "last es")
  from catch_up_state_path [of dm es "entity_view t" "utxo_view t" s h target lg] obtain t' where
      "catch_up_state n target dm = Some (Inr (), dm\<lparr>dm_state := t'\<rparr>)" and t': "tables_ok t'" "entity_view t' = entity_view t"
      "utxo_view t' = utxo_view t" "t_cursor t' = Some target"
    using path start(3-5) es wal tip es_w slots dm last by auto
  moreover have "t' = t" using t' ok cursor es(1) last by (intro tables_eqI) (simp_all add: last_map)
  ultimately show ?thesis using tip last by simp
qed

end

end
