(* ===== verification/Epoch_Value.thy ===== *)
theory Epoch_Value
  imports Errors
begin

text \<open>
  Epoch-versioned values (\<^verbatim>\<open>crates/cardano/src/model/epoch_value.rs\<close>): a value
  with its live version, the version scheduled for the next epoch and the snapshots taken at the
  end of the last three epochs (mark, set, go). Every operation of the source is a definition;
  an operation that asserts or unwraps returns \<^term>\<open>None\<close> where the source panics. The
  assertions of the \<^verbatim>\<open>strict\<close> feature are part of the operations.
\<close>

datatype epoch_position = Genesis | Epoch epoch

record 'a epoch_value =
  ev_epoch :: epoch_position
  ev_next :: "'a option"
  ev_live :: "'a option"
  ev_mark :: "'a option"
  ev_set :: "'a option"
  ev_go :: "'a option"

section \<open>Positions\<close>

fun pos_mark :: "epoch_position \<Rightarrow> epoch option" where
  "pos_mark (Epoch e) = (if 1 \<le> e then Some (e - 1) else None)"
| "pos_mark Genesis = None"

fun pos_set :: "epoch_position \<Rightarrow> epoch option" where
  "pos_set (Epoch e) = (if 2 \<le> e then Some (e - 2) else None)"
| "pos_set Genesis = None"

fun pos_go :: "epoch_position \<Rightarrow> epoch option" where
  "pos_go (Epoch e) = (if 3 \<le> e then Some (e - 3) else None)"
| "pos_go Genesis = None"

text \<open>\<^verbatim>\<open>PartialEq<Epoch>\<close> and \<^verbatim>\<open>Add<Epoch>\<close> for positions.\<close>

fun pos_eq :: "epoch_position \<Rightarrow> epoch \<Rightarrow> bool" where
  "pos_eq Genesis _ = False"
| "pos_eq (Epoch e) other = (e = other)"

fun pos_add :: "build \<Rightarrow> epoch_position \<Rightarrow> epoch \<Rightarrow> epoch_position option" where
  "pos_add b Genesis other = (if other = 0 then Some Genesis else Some (Epoch (other - 1)))"
| "pos_add b (Epoch current) other = map_option Epoch (raw_add b current other)"

section \<open>Constructors and accessors\<close>

definition ev_new :: "epoch \<Rightarrow> 'a epoch_value" where
  "ev_new e = \<lparr>ev_epoch = Epoch e, ev_next = None, ev_live = None, ev_mark = None,
     ev_set = None, ev_go = None\<rparr>"

definition ev_with_live :: "epoch \<Rightarrow> 'a \<Rightarrow> 'a epoch_value" where
  "ev_with_live e live = (ev_new e)\<lparr>ev_live := Some live\<rparr>"

definition ev_with_scheduled :: "epoch \<Rightarrow> 'a \<Rightarrow> 'a epoch_value" where
  "ev_with_scheduled e next = (ev_new e)\<lparr>ev_next := Some next\<rparr>"

definition ev_with_genesis :: "'a \<Rightarrow> 'a epoch_value" where
  "ev_with_genesis live = (ev_new 0)\<lparr>ev_mark := Some live, ev_live := Some live\<rparr>"

definition ev_epoch_of :: "'a epoch_value \<Rightarrow> epoch option" where
  "ev_epoch_of v = (case ev_epoch v of Genesis \<Rightarrow> None | Epoch e \<Rightarrow> Some e)"

definition is_at_epoch :: "'a epoch_value \<Rightarrow> epoch \<Rightarrow> bool" where
  "is_at_epoch v e = (ev_epoch_of v = Some e)"

text \<open>\<^verbatim>\<open>unwrap_live\<close> and \<^verbatim>\<open>unwrap_live_mut\<close>: panic without a live value.\<close>

definition unwrap_live :: "'a epoch_value \<Rightarrow> 'a option" where
  "unwrap_live v = ev_live v"

section \<open>Operations\<close>

text \<open>The assertion the \<^verbatim>\<open>strict\<close> feature adds to several operations.\<close>

definition strict_at :: "build \<Rightarrow> 'a epoch_value \<Rightarrow> epoch \<Rightarrow> unit option" where
  "strict_at b v e = assert_that (strict b \<longrightarrow> pos_eq (ev_epoch v) e)"

definition ev_schedule :: "build \<Rightarrow> 'a epoch_value \<Rightarrow> epoch \<Rightarrow> 'a option \<Rightarrow> 'a epoch_value option" where
  "ev_schedule b v current_epoch next = do {
     _ \<leftarrow> strict_at b v current_epoch;
     Some (v\<lparr>ev_next := next\<rparr>)
   }"

text \<open>
  The source returns a mutable reference to the live slot; here the caller gets the slot and
  writes it back with \<^verbatim>\<open>ev_live_update\<close>.
\<close>

definition ev_live_mut :: "build \<Rightarrow> 'a epoch_value \<Rightarrow> epoch \<Rightarrow> 'a option option" where
  "ev_live_mut b v e = do {
     _ \<leftarrow> strict_at b v e;
     _ \<leftarrow> assert_that (ev_next v = None);
     Some (ev_live v)
   }"

definition ev_reset :: "'a epoch_value \<Rightarrow> 'a option \<Rightarrow> 'a epoch_value" where
  "ev_reset v live = v\<lparr>ev_live := live\<rparr>"

definition ev_replace :: "build \<Rightarrow> 'a epoch_value \<Rightarrow> 'a \<Rightarrow> epoch \<Rightarrow> 'a epoch_value option" where
  "ev_replace b v live e = do {
     _ \<leftarrow> strict_at b v e;
     Some (v\<lparr>ev_live := Some live\<rparr>)
   }"

definition ev_transition :: "build \<Rightarrow> 'a epoch_value \<Rightarrow> epoch \<Rightarrow> 'a epoch_value option" where
  "ev_transition b v next_epoch = do {
     _ \<leftarrow> (if strict b
           then do {p \<leftarrow> pos_add b (ev_epoch v) 1; assert_that (pos_eq p next_epoch)}
           else Some ());
     let v' = v\<lparr>ev_go := ev_set v, ev_set := ev_mark v, ev_mark := ev_live v,
                ev_live := ev_next v, ev_next := None\<rparr>;
     p \<leftarrow> pos_add b (ev_epoch v') 1;
     Some (v'\<lparr>ev_epoch := p\<rparr>)
   }"

definition snapshot_at :: "'a epoch_value \<Rightarrow> epoch \<Rightarrow> 'a option" where
  "snapshot_at v ending_epoch =
     (if pos_eq (ev_epoch v) ending_epoch then ev_live v
      else if pos_mark (ev_epoch v) = Some ending_epoch then ev_mark v
      else if pos_set (ev_epoch v) = Some ending_epoch then ev_set v
      else if pos_go (ev_epoch v) = Some ending_epoch then ev_go v
      else None)"

definition try_snapshot_at :: "'a epoch_value \<Rightarrow> epoch \<Rightarrow> chain_error + 'a" where
  "try_snapshot_at v e =
     (case snapshot_at v e of Some x \<Rightarrow> Inr x | None \<Rightarrow> Inl (EpochValueVersionNotFound e))"

text \<open>
  The trait \<^verbatim>\<open>TransitionDefault\<close> is an argument: its \<^verbatim>\<open>next_value\<close>
  gives the default for the next epoch from the live value, and may panic.
\<close>

type_synonym 'a next_value = "'a option \<Rightarrow> 'a option option"

definition fill_next :: "'a next_value \<Rightarrow> 'a epoch_value \<Rightarrow> 'a epoch_value option" where
  "fill_next nv v =
     (case ev_next v of
        None \<Rightarrow> do {n \<leftarrow> nv (ev_live v); Some (v\<lparr>ev_next := n\<rparr>)}
      | Some _ \<Rightarrow> Some v)"

text \<open>The source returns a mutable reference to the scheduled value; here also its content.\<close>

definition scheduled_or_default :: "'a next_value \<Rightarrow> 'a epoch_value \<Rightarrow> ('a epoch_value \<times> 'a) option" where
  "scheduled_or_default nv v = do {
     v' \<leftarrow> fill_next nv v;
     t \<leftarrow> ev_next v';
     Some (v', t)
   }"

definition default_transition ::
  "build \<Rightarrow> 'a next_value \<Rightarrow> 'a epoch_value \<Rightarrow> epoch \<Rightarrow> 'a epoch_value option" where
  "default_transition b nv v next_epoch = do {
     v' \<leftarrow> fill_next nv v;
     ev_transition b v' next_epoch
   }"

section \<open>Restoring slots\<close>

lemma epoch_value_upd_id [simp]:
  "ev_epoch v = p \<Longrightarrow> v\<lparr>ev_epoch := p\<rparr> = v"
  "ev_next v = x \<Longrightarrow> v\<lparr>ev_next := x\<rparr> = v"
  "ev_live v = x \<Longrightarrow> v\<lparr>ev_live := x\<rparr> = v"
  by (cases v; auto)+

lemma strict_at_Some [panic_simps]: "(strict_at b v e = Some u) = (strict b \<longrightarrow> pos_eq (ev_epoch v) e)"
  by (simp add: strict_at_def assert_that_Some)

text \<open>The \<^verbatim>\<open>strict\<close> assertions leave the other fields alone.\<close>

lemma ev_replace_Some [panic_simps]:
  "(ev_replace b v x e = Some v') \<longleftrightarrow> (strict b \<longrightarrow> pos_eq (ev_epoch v) e) \<and> v' = v\<lparr>ev_live := Some x\<rparr>"
  by (auto simp: ev_replace_def panic_simps)

lemma ev_schedule_Some [panic_simps]:
  "(ev_schedule b v e x = Some v') \<longleftrightarrow> (strict b \<longrightarrow> pos_eq (ev_epoch v) e) \<and> v' = v\<lparr>ev_next := x\<rparr>"
  by (auto simp: ev_schedule_def panic_simps)

section \<open>Specification: a history of values per epoch\<close>

text \<open>
  The abstract view of a value in the ledger: \<open>h k\<close> is its version at the end of epoch
  \<open>k\<close>. A stored value tracks a history when its slots hold the last four entries.
\<close>

definition tracks :: "(nat \<Rightarrow> 'a option) \<Rightarrow> nat \<Rightarrow> 'a epoch_value \<Rightarrow> bool" where
  "tracks h n v \<longleftrightarrow>
     ev_epoch v = Epoch (word_of_nat n) \<and> n < 2 ^ 64 \<and>
     ev_live v = h n \<and>
     (1 \<le> n \<longrightarrow> ev_mark v = h (n - 1)) \<and>
     (2 \<le> n \<longrightarrow> ev_set v = h (n - 2)) \<and>
     (3 \<le> n \<longrightarrow> ev_go v = h (n - 3))"

lemma unat_word_of_nat_u64: "n < 2 ^ 64 \<Longrightarrow> unat (word_of_nat n :: u64) = n"
  by (simp add: unat_of_nat)

lemma pos_mark_nat: "n < 2 ^ 64 \<Longrightarrow>
    pos_mark (Epoch (word_of_nat n)) = (if 1 \<le> n then Some (word_of_nat (n - 1)) else None)"
  by (auto simp: word_le_nat_alt unat_word_of_nat_u64 of_nat_diff)

lemma pos_set_nat: "n < 2 ^ 64 \<Longrightarrow>
    pos_set (Epoch (word_of_nat n)) = (if 2 \<le> n then Some (word_of_nat (n - 2)) else None)"
  by (auto simp: word_le_nat_alt unat_word_of_nat_u64 of_nat_diff)

lemma pos_go_nat: "n < 2 ^ 64 \<Longrightarrow>
    pos_go (Epoch (word_of_nat n)) = (if 3 \<le> n then Some (word_of_nat (n - 3)) else None)"
  by (auto simp: word_le_nat_alt unat_word_of_nat_u64 of_nat_diff)

lemma word_of_nat_u64_eq_iff:
  "m < 2 ^ 64 \<Longrightarrow> n < 2 ^ 64 \<Longrightarrow> (word_of_nat m :: u64) = word_of_nat n \<longleftrightarrow> m = n"
  by (metis unat_word_of_nat_u64)

lemma pos_iff:
  assumes "n < 2 ^ 64" and "k < 2 ^ 64"
  shows "pos_eq (Epoch (word_of_nat n)) (word_of_nat k) \<longleftrightarrow> n = k"
    and "pos_mark (Epoch (word_of_nat n)) = Some (word_of_nat k) \<longleftrightarrow> n = k + 1"
    and "pos_set (Epoch (word_of_nat n)) = Some (word_of_nat k) \<longleftrightarrow> n = k + 2"
    and "pos_go (Epoch (word_of_nat n)) = Some (word_of_nat k) \<longleftrightarrow> n = k + 3"
proof -
  have eq: "(word_of_nat (n - d) :: u64) = word_of_nat k \<longleftrightarrow> n - d = k" for d
    by (rule word_of_nat_u64_eq_iff) (use assms in simp_all)
  show "pos_eq (Epoch (word_of_nat n)) (word_of_nat k) \<longleftrightarrow> n = k"
    using eq [of 0] by simp
  show "pos_mark (Epoch (word_of_nat n)) = Some (word_of_nat k) \<longleftrightarrow> n = k + 1"
    using eq [of 1] unfolding pos_mark_nat [OF assms(1)] by (simp del: of_nat_diff, arith)
  show "pos_set (Epoch (word_of_nat n)) = Some (word_of_nat k) \<longleftrightarrow> n = k + 2"
    using eq [of 2] unfolding pos_set_nat [OF assms(1)] by (simp del: of_nat_diff, arith)
  show "pos_go (Epoch (word_of_nat n)) = Some (word_of_nat k) \<longleftrightarrow> n = k + 3"
    using eq [of 3] unfolding pos_go_nat [OF assms(1)] by (simp del: of_nat_diff, arith)
qed

lemma snapshot_at_tracks:
  assumes "tracks h n v" and "k < 2 ^ 64"
  shows "snapshot_at v (word_of_nat k) = (if k \<le> n \<and> n \<le> k + 3 then h k else None)"
proof -
  have n: "n < 2 ^ 64" and pos: "ev_epoch v = Epoch (word_of_nat n)"
    using assms(1) by (auto simp: tracks_def)
  have slots: "n = k \<Longrightarrow> ev_live v = h k" "n = k + 1 \<Longrightarrow> ev_mark v = h k"
      "n = k + 2 \<Longrightarrow> ev_set v = h k" "n = k + 3 \<Longrightarrow> ev_go v = h k"
    using assms(1) by (auto simp: tracks_def)
  consider "n = k" | "n = k + 1" | "n = k + 2" | "n = k + 3" | "n < k \<or> k + 3 < n" by linarith
  then show ?thesis
    unfolding snapshot_at_def pos pos_iff [OF n assms(2)] by cases (simp_all add: slots)
qed

lemma pos_add_nat:
  assumes "n + 1 < 2 ^ 64"
  shows "pos_add b (Epoch (word_of_nat n)) 1 = Some (Epoch (word_of_nat (Suc n)))"
proof -
  have "unat (word_of_nat n :: u64) + unat (1 :: u64) < 2 ^ LENGTH(64)"
    using assms by (simp add: unat_word_of_nat_u64)
  then have "raw_add b (word_of_nat n) (1 :: u64) = Some (word_of_nat n + 1)"
    unfolding raw_add_def checked_add_def by (simp only: if_True if_cancel)
  then show ?thesis by (simp add: add.commute)
qed

text \<open>A transition appends the version scheduled for the new epoch to the history.\<close>

lemma transition_tracks:
  assumes v: "tracks h n v" and n: "n + 1 < 2 ^ 64"
  obtains v' where "ev_transition b v (word_of_nat (Suc n)) = Some v'"
    and "tracks (h(Suc n := ev_next v)) (Suc n) v'" and "ev_next v' = None"
proof -
  have "ev_epoch v = Epoch (word_of_nat n)" using v by (simp add: tracks_def)
  then have "ev_transition b v (word_of_nat (Suc n)) =
      Some (v\<lparr>ev_go := ev_set v, ev_set := ev_mark v, ev_mark := ev_live v,
              ev_live := ev_next v, ev_next := None, ev_epoch := Epoch (word_of_nat (Suc n))\<rparr>)"
    using pos_add_nat [OF n, of b]
    by (simp add: ev_transition_def del: pos_add.simps of_nat_Suc)
  moreover have "tracks (h(Suc n := ev_next v)) (Suc n)
      (v\<lparr>ev_go := ev_set v, ev_set := ev_mark v, ev_mark := ev_live v,
         ev_live := ev_next v, ev_next := None, ev_epoch := Epoch (word_of_nat (Suc n))\<rparr>)"
    using v n by (auto simp: tracks_def)
  ultimately show thesis using that by simp
qed

text \<open>
  The version a default transition installs: the scheduled one, or the default for the live one.
\<close>

definition next_version :: "'a next_value \<Rightarrow> 'a epoch_value \<Rightarrow> 'a option option" where
  "next_version nv v = (case ev_next v of Some x \<Rightarrow> Some (Some x) | None \<Rightarrow> nv (ev_live v))"

lemma fill_next_Some:
  "fill_next nv v = Some v' \<longleftrightarrow> (\<exists>n. next_version nv v = Some n \<and> v' = v\<lparr>ev_next := n\<rparr>)"
  by (cases v) (auto simp: fill_next_def next_version_def panic_simps split: option.splits)

lemma default_transition_tracks:
  assumes v: "tracks h n v" and n: "n + 1 < 2 ^ 64" and nv: "next_version nv v = Some x"
  obtains v' where "default_transition b nv v (word_of_nat (Suc n)) = Some v'"
    and "tracks (h(Suc n := x)) (Suc n) v'" and "ev_next v' = None"
proof -
  have "tracks h n (v\<lparr>ev_next := x\<rparr>)" using v by (simp add: tracks_def)
  from transition_tracks [OF this n, of b]
  obtain v' where "ev_transition b (v\<lparr>ev_next := x\<rparr>) (word_of_nat (Suc n)) = Some v'"
    and "tracks (h(Suc n := x)) (Suc n) v'" and "ev_next v' = None"
    by auto
  moreover have "fill_next nv v = Some (v\<lparr>ev_next := x\<rparr>)" using nv by (simp add: fill_next_Some)
  ultimately show thesis using that by (simp add: default_transition_def)
qed

section \<open>Properties\<close>

text \<open>
  C16. The rotating slots of a value refine a history of its versions per epoch: after a default
  transition into the next epoch, asking for the snapshot at any epoch gives the version the history
  has there for the last four epochs (live, mark, set, go) and nothing for older ones, where the
  version of the new epoch is the scheduled one or else the type's default for the live one.
\<close>

theorem epoch_value_refines_history:
  assumes "tracks h n v" and "n + 1 < 2 ^ 64" and "next_version nv v = Some x"
  shows "\<exists>v'. default_transition b nv v (word_of_nat (Suc n)) = Some v' \<and> tracks (h(Suc n := x)) (Suc n) v' \<and>
    (\<forall>k \<le> Suc n. snapshot_at v' (word_of_nat k) = (if Suc n \<le> k + 3 then (h(Suc n := x)) k else None))"
proof -
  obtain v' where v': "default_transition b nv v (word_of_nat (Suc n)) = Some v'" "tracks (h(Suc n := x)) (Suc n) v'"
    using default_transition_tracks [OF assms] by blast
  moreover have "snapshot_at v' (word_of_nat k) = (if Suc n \<le> k + 3 then (h(Suc n := x)) k else None)"
    if "k \<le> Suc n" for k
    using snapshot_at_tracks [OF v'(2), of k] that assms(2) by simp
  ultimately show ?thesis by blast
qed

theorem epoch_value_refines_history_witness:
  "\<exists>v'. default_transition \<lparr>strict = True, overflow_checks = True\<rparr> Some (ev_with_live 0 (7 :: nat)) (word_of_nat (Suc 0)) = Some v' \<and>
     tracks (\<lambda>_. Some 7) (Suc 0) v' \<and>
     (\<forall>k \<le> Suc 0. snapshot_at v' (word_of_nat k) = Some 7)"
proof -
  have "tracks (\<lambda>_. Some 7) 0 (ev_with_live 0 (7 :: nat))" and "next_version Some (ev_with_live 0 (7 :: nat)) = Some (Some 7)"
    by (simp_all add: tracks_def ev_with_live_def ev_new_def next_version_def)
  from epoch_value_refines_history [OF this(1) _ this(2)] show ?thesis by (simp add: fun_upd_def)
qed

end
