(* ===== verification/Ledger_Types.thy ===== *)
theory Ledger_Types
  imports Dolos_Prelude
begin

text \<open>
  Ledger types of the \<^verbatim>\<open>pallas\<close> library that the entity models store and match on.
  Credentials, DReps, voters and votes are matched by constructor in the source; relays and pool
  metadata are only stored and copied, so they are carried as their encoded bytes.
\<close>

datatype stake_credential = AddrKeyhash hash28 | ScriptHash hash28

datatype drep = DRepKey hash28 | DRepScript hash28 | DRepAbstain | DRepNoConfidence

type_synonym pool_hash = hash28

record anchor =
  an_url :: string
  an_content_hash :: hash32

record gov_action_id =
  ga_transaction_id :: hash32
  ga_action_index :: u32

datatype vote = VoteNo | VoteYes | VoteAbstain

datatype voter = ConstitutionalCommitteeScript hash28 | ConstitutionalCommitteeKey hash28
  | VoterDRepScript hash28 | VoterDRepKey hash28 | StakePoolKey hash28

type_synonym relay = bytes
type_synonym pool_metadata = bytes

record rational_number =
  numerator :: u64
  denominator :: u64

text \<open>\<^verbatim>\<open>TxOrder\<close> is a \<^verbatim>\<open>usize\<close>, on the 64-bit targets of the program.\<close>

type_synonym tx_order = u64

text \<open>The CBOR encoding of a credential is a function of the codec library: a parameter.\<close>

type_synonym cred_codec = "stake_credential \<Rightarrow> bytes"

end
