(* ===== verification/Accounts.thy ===== *)
theory Accounts
  imports Epoch_Value Entity_Delta Ledger_Types
begin

text \<open>
  Accounts (\<^verbatim>\<open>crates/cardano/src/model/accounts.rs\<close>): the account entity with its
  epoch-versioned stake, pool and DRep delegation, and its fourteen deltas. Every delta has its
  struct as a record, its constructor, key, \<^verbatim>\<open>apply\<close> and \<^verbatim>\<open>undo\<close>; the
  CBOR codec of credentials is the argument \<open>enc\<close> of the keys. The theory proves each delta
  reversible, and the invariants of the registration fields.
\<close>

section \<open>The entity\<close>

record stake =
  utxo_sum :: u64
  rewards_sum :: u64
  withdrawals_sum :: u64
  utxo_sum_at_pointer_addresses :: u64

definition stake_default :: stake where
  "stake_default = \<lparr>utxo_sum = 0, rewards_sum = 0, withdrawals_sum = 0, utxo_sum_at_pointer_addresses = 0\<rparr>"

definition stake_total :: "build \<Rightarrow> stake \<Rightarrow> u64 option" where
  "stake_total b s = do {
     out \<leftarrow> add_m b (utxo_sum s) (rewards_sum s);
     sub_m b out (withdrawals_sum s)
   }"

definition stake_total_pre_conway :: "build \<Rightarrow> stake \<Rightarrow> u64 option" where
  "stake_total_pre_conway b s = do {
     out \<leftarrow> add_m b (utxo_sum s) (utxo_sum_at_pointer_addresses s);
     out \<leftarrow> add_m b out (rewards_sum s);
     sub_m b out (withdrawals_sum s)
   }"

definition stake_total_for_era :: "build \<Rightarrow> stake \<Rightarrow> u16 \<Rightarrow> u64 option" where
  "stake_total_for_era b s era = (if era < 9 then stake_total_pre_conway b s else stake_total b s)"

definition stake_withdrawable :: "build \<Rightarrow> stake \<Rightarrow> u64 option" where
  "stake_withdrawable b s = sub_m b (rewards_sum s) (withdrawals_sum s)"

datatype pool_delegation = Pool pool_hash | PoolNotDelegated

datatype drep_delegation = Delegated drep | DRepNotDelegated

text \<open>The three \<^verbatim>\<open>TransitionDefault\<close> instances copy the live value.\<close>

definition next_value_clone :: "'a next_value" where
  "next_value_clone current = Some current"

record account_state =
  acc_registered_at :: "u64 option"
  acc_stake :: "stake epoch_value"
  acc_pool :: "pool_delegation epoch_value"
  acc_drep :: "drep_delegation epoch_value"
  acc_vote_delegated_at :: "(block_slot \<times> tx_order) option"
  acc_deregistered_at :: "u64 option"
  acc_credential :: stake_credential
  acc_retired_pool :: "pool_hash option"

definition account_ns :: namespace where
  "account_ns = ''accounts''"

definition account_new :: "epoch \<Rightarrow> stake_credential \<Rightarrow> account_state" where
  "account_new e cred = \<lparr>acc_registered_at = None, acc_stake = ev_with_live e stake_default,
     acc_pool = ev_new e, acc_drep = ev_new e, acc_vote_delegated_at = None,
     acc_deregistered_at = None, acc_credential = cred, acc_retired_pool = None\<rparr>"

definition live_stake :: "build \<Rightarrow> account_state \<Rightarrow> u64 option" where
  "live_stake b a = (case ev_live (acc_stake a) of Some s \<Rightarrow> stake_total b s | None \<Rightarrow> Some 0)"

definition active_stake :: "build \<Rightarrow> account_state \<Rightarrow> u64 option" where
  "active_stake b a = (case ev_go (acc_stake a) of Some s \<Rightarrow> stake_total b s | None \<Rightarrow> Some 0)"

definition is_registered :: "account_state \<Rightarrow> bool" where
  "is_registered a =
     (case (acc_registered_at a, acc_deregistered_at a) of
        (Some _, None) \<Rightarrow> True
      | (Some start, Some end_slot) \<Rightarrow> end_slot \<le> start
      | (None, _) \<Rightarrow> False)"

definition is_registered_at :: "account_state \<Rightarrow> u64 \<Rightarrow> bool" where
  "is_registered_at a slot =
     (case (acc_registered_at a, acc_deregistered_at a) of
        (None, None) \<Rightarrow> False
      | (None, Some dereg) \<Rightarrow> slot < dereg
      | (Some reg, None) \<Rightarrow> reg \<le> slot
      | (Some reg, Some dereg) \<Rightarrow> reg \<le> slot \<and> slot < dereg)"

fun pool_of :: "pool_delegation \<Rightarrow> pool_hash option" where
  "pool_of (Pool p) = Some p"
| "pool_of PoolNotDelegated = None"

fun drep_of :: "drep_delegation \<Rightarrow> drep option" where
  "drep_of (Delegated d) = Some d"
| "drep_of DRepNotDelegated = None"

definition delegated_pool_at :: "account_state \<Rightarrow> epoch \<Rightarrow> pool_hash option" where
  "delegated_pool_at a e = Option.bind (snapshot_at (acc_pool a) e) pool_of"

definition delegated_pool_live :: "account_state \<Rightarrow> pool_hash option" where
  "delegated_pool_live a = Option.bind (ev_live (acc_pool a)) pool_of"

definition delegated_drep_at :: "account_state \<Rightarrow> epoch \<Rightarrow> drep option" where
  "delegated_drep_at a e = Option.bind (snapshot_at (acc_drep a) e) drep_of"

definition account_cred_key :: "cred_codec \<Rightarrow> stake_credential \<Rightarrow> ns_key" where
  "account_cred_key enc cred = (account_ns, entity_key_from (enc cred))"

text \<open>\<^verbatim>\<open>*entity.stake.unwrap_live_mut() = s\<close>.\<close>

definition put_live_stake :: "account_state \<Rightarrow> stake \<Rightarrow> account_state" where
  "put_live_stake a s = a\<lparr>acc_stake := (acc_stake a)\<lparr>ev_live := Some s\<rparr>\<rparr>"

text \<open>The undo shared by the deltas that change the live stake of an existing account.\<close>

definition restore_live_stake :: "stake option \<Rightarrow> account_state option \<Rightarrow> account_state option option" where
  "restore_live_stake prev entity = do {
     a \<leftarrow> entity;
     _ \<leftarrow> unwrap_live (acc_stake a);
     s \<leftarrow> prev;
     Some (Some (put_live_stake a s))
   }"

section \<open>Controlled amounts\<close>

record controlled_amount_inc =
  cai_cred :: stake_credential
  cai_is_pointer :: bool
  cai_amount :: u64
  cai_epoch :: epoch
  cai_was_new :: bool
  cai_prev_stake_live :: "stake option"

definition controlled_amount_inc_new ::
  "stake_credential \<Rightarrow> bool \<Rightarrow> u64 \<Rightarrow> epoch \<Rightarrow> controlled_amount_inc" where
  "controlled_amount_inc_new cred is_pointer amount e = \<lparr>cai_cred = cred, cai_is_pointer = is_pointer,
     cai_amount = amount, cai_epoch = e, cai_was_new = False, cai_prev_stake_live = None\<rparr>"

definition controlled_amount_inc_key :: "cred_codec \<Rightarrow> controlled_amount_inc \<Rightarrow> ns_key" where
  "controlled_amount_inc_key enc d = account_cred_key enc (cai_cred d)"

definition controlled_amount_inc_apply :: "build \<Rightarrow> (controlled_amount_inc, account_state) apply_fn" where
  "controlled_amount_inc_apply b d entity = do {
     let d = d\<lparr>cai_was_new := (entity = None)\<rparr>;
     let a = get_or_insert entity (account_new (cai_epoch d) (cai_cred d));
     s \<leftarrow> unwrap_live (acc_stake a);
     let d = d\<lparr>cai_prev_stake_live := Some s\<rparr>;
     s \<leftarrow> (if cai_is_pointer d
           then do {x \<leftarrow> add_m b (utxo_sum_at_pointer_addresses s) (cai_amount d);
                    Some (s\<lparr>utxo_sum_at_pointer_addresses := x\<rparr>)}
           else do {x \<leftarrow> add_m b (utxo_sum s) (cai_amount d); Some (s\<lparr>utxo_sum := x\<rparr>)});
     Some (d, Some (put_live_stake a s))
   }"

definition controlled_amount_inc_undo :: "(controlled_amount_inc, account_state) undo_fn" where
  "controlled_amount_inc_undo d entity =
     (if cai_was_new d then Some None else restore_live_stake (cai_prev_stake_live d) entity)"

record controlled_amount_dec =
  cad_cred :: stake_credential
  cad_is_pointer :: bool
  cad_amount :: u64
  cad_prev_stake_live :: "stake option"

definition controlled_amount_dec_new :: "stake_credential \<Rightarrow> bool \<Rightarrow> u64 \<Rightarrow> controlled_amount_dec" where
  "controlled_amount_dec_new cred is_pointer amount = \<lparr>cad_cred = cred, cad_is_pointer = is_pointer,
     cad_amount = amount, cad_prev_stake_live = None\<rparr>"

definition controlled_amount_dec_key :: "cred_codec \<Rightarrow> controlled_amount_dec \<Rightarrow> ns_key" where
  "controlled_amount_dec_key enc d = account_cred_key enc (cad_cred d)"

definition controlled_amount_dec_apply :: "build \<Rightarrow> (controlled_amount_dec, account_state) apply_fn" where
  "controlled_amount_dec_apply b d entity = do {
     a \<leftarrow> entity;
     s \<leftarrow> unwrap_live (acc_stake a);
     let d = d\<lparr>cad_prev_stake_live := Some s\<rparr>;
     s \<leftarrow> (if cad_is_pointer d
           then do {x \<leftarrow> sub_m b (utxo_sum_at_pointer_addresses s) (cad_amount d);
                    Some (s\<lparr>utxo_sum_at_pointer_addresses := x\<rparr>)}
           else do {x \<leftarrow> sub_m b (utxo_sum s) (cad_amount d); Some (s\<lparr>utxo_sum := x\<rparr>)});
     Some (d, Some (put_live_stake a s))
   }"

definition controlled_amount_dec_undo :: "(controlled_amount_dec, account_state) undo_fn" where
  "controlled_amount_dec_undo d entity = restore_live_stake (cad_prev_stake_live d) entity"

section \<open>Registration and delegation\<close>

record stake_registration =
  sr_cred :: stake_credential
  sr_slot :: u64
  sr_epoch :: epoch
  sr_deposit :: u64
  sr_was_new :: bool
  sr_prev_registered_at :: "u64 option"
  sr_prev_deregistered_at :: "u64 option"

definition stake_registration_new :: "stake_credential \<Rightarrow> u64 \<Rightarrow> epoch \<Rightarrow> u64 \<Rightarrow> stake_registration" where
  "stake_registration_new cred slot e deposit = \<lparr>sr_cred = cred, sr_slot = slot, sr_epoch = e,
     sr_deposit = deposit, sr_was_new = False, sr_prev_registered_at = None,
     sr_prev_deregistered_at = None\<rparr>"

definition stake_registration_key :: "cred_codec \<Rightarrow> stake_registration \<Rightarrow> ns_key" where
  "stake_registration_key enc d = account_cred_key enc (sr_cred d)"

definition stake_registration_apply :: "(stake_registration, account_state) apply_fn" where
  "stake_registration_apply d entity =
     (let d = d\<lparr>sr_was_new := (entity = None)\<rparr>;
          a = get_or_insert entity (account_new (sr_epoch d) (sr_cred d));
          d = d\<lparr>sr_prev_registered_at := acc_registered_at a,
                sr_prev_deregistered_at := acc_deregistered_at a\<rparr>;
          a = a\<lparr>acc_registered_at := Some (sr_slot d), acc_deregistered_at := None\<rparr>
      in Some (d, Some a))"

definition stake_registration_undo :: "(stake_registration, account_state) undo_fn" where
  "stake_registration_undo d entity =
     (if sr_was_new d then Some None
      else do {
        a \<leftarrow> entity;
        Some (Some (a\<lparr>acc_registered_at := sr_prev_registered_at d,
                      acc_deregistered_at := sr_prev_deregistered_at d\<rparr>))
      })"

record stake_delegation =
  sd_cred :: stake_credential
  sd_pool :: hash28
  sd_epoch :: epoch
  sd_prev_pool :: "pool_delegation epoch_value option"
  sd_prev_retired_pool :: "pool_hash option"

definition stake_delegation_new :: "stake_credential \<Rightarrow> hash28 \<Rightarrow> epoch \<Rightarrow> stake_delegation" where
  "stake_delegation_new cred pool e = \<lparr>sd_cred = cred, sd_pool = pool, sd_epoch = e,
     sd_prev_pool = None, sd_prev_retired_pool = None\<rparr>"

definition stake_delegation_key :: "cred_codec \<Rightarrow> stake_delegation \<Rightarrow> ns_key" where
  "stake_delegation_key enc d = account_cred_key enc (sd_cred d)"

definition stake_delegation_apply :: "build \<Rightarrow> (stake_delegation, account_state) apply_fn" where
  "stake_delegation_apply b d entity = do {
     a \<leftarrow> entity;
     let d = d\<lparr>sd_prev_pool := Some (acc_pool a), sd_prev_retired_pool := acc_retired_pool a\<rparr>;
     pool \<leftarrow> ev_replace b (acc_pool a) (Pool (sd_pool d)) (sd_epoch d);
     Some (d, Some (a\<lparr>acc_pool := pool, acc_retired_pool := None\<rparr>))
   }"

definition stake_delegation_undo :: "(stake_delegation, account_state) undo_fn" where
  "stake_delegation_undo d entity = do {
     a \<leftarrow> entity;
     pool \<leftarrow> sd_prev_pool d;
     Some (Some (a\<lparr>acc_pool := pool, acc_retired_pool := sd_prev_retired_pool d\<rparr>))
   }"

record vote_delegation =
  vd_cred :: stake_credential
  vd_drep :: drep
  vd_vote_delegated_at :: "block_slot \<times> tx_order"
  vd_epoch :: epoch
  vd_prev_drep :: "drep_delegation epoch_value option"
  vd_prev_vote_delegated_at :: "(block_slot \<times> tx_order) option"

definition vote_delegation_new ::
  "stake_credential \<Rightarrow> drep \<Rightarrow> block_slot \<Rightarrow> tx_order \<Rightarrow> epoch \<Rightarrow> vote_delegation" where
  "vote_delegation_new cred dr slot order e = \<lparr>vd_cred = cred, vd_drep = dr,
     vd_vote_delegated_at = (slot, order), vd_epoch = e, vd_prev_drep = None,
     vd_prev_vote_delegated_at = None\<rparr>"

definition vote_delegation_key :: "cred_codec \<Rightarrow> vote_delegation \<Rightarrow> ns_key" where
  "vote_delegation_key enc d = account_cred_key enc (vd_cred d)"

definition vote_delegation_apply :: "build \<Rightarrow> (vote_delegation, account_state) apply_fn" where
  "vote_delegation_apply b d entity = do {
     a \<leftarrow> entity;
     let d = d\<lparr>vd_prev_drep := Some (acc_drep a), vd_prev_vote_delegated_at := acc_vote_delegated_at a\<rparr>;
     let a = a\<lparr>acc_vote_delegated_at := Some (vd_vote_delegated_at d)\<rparr>;
     dr \<leftarrow> ev_replace b (acc_drep a) (Delegated (vd_drep d)) (vd_epoch d);
     Some (d, Some (a\<lparr>acc_drep := dr\<rparr>))
   }"

definition vote_delegation_undo :: "(vote_delegation, account_state) undo_fn" where
  "vote_delegation_undo d entity = do {
     a \<leftarrow> entity;
     let a = a\<lparr>acc_vote_delegated_at := vd_prev_vote_delegated_at d\<rparr>;
     dr \<leftarrow> vd_prev_drep d;
     Some (Some (a\<lparr>acc_drep := dr\<rparr>))
   }"

record stake_deregistration =
  sdr_cred :: stake_credential
  sdr_slot :: u64
  sdr_epoch :: epoch
  sdr_prev_registered_at :: "u64 option"
  sdr_prev_deregistered_at :: "u64 option"
  sdr_prev_pool :: "pool_delegation epoch_value option"
  sdr_prev_drep :: "drep_delegation epoch_value option"
  sdr_prev_retired_pool :: "pool_hash option"

definition stake_deregistration_new :: "stake_credential \<Rightarrow> u64 \<Rightarrow> epoch \<Rightarrow> stake_deregistration" where
  "stake_deregistration_new cred slot e = \<lparr>sdr_cred = cred, sdr_slot = slot, sdr_epoch = e,
     sdr_prev_registered_at = None, sdr_prev_deregistered_at = None, sdr_prev_pool = None,
     sdr_prev_drep = None, sdr_prev_retired_pool = None\<rparr>"

definition stake_deregistration_key :: "cred_codec \<Rightarrow> stake_deregistration \<Rightarrow> ns_key" where
  "stake_deregistration_key enc d = account_cred_key enc (sdr_cred d)"

definition stake_deregistration_apply :: "build \<Rightarrow> (stake_deregistration, account_state) apply_fn" where
  "stake_deregistration_apply b d entity = do {
     a \<leftarrow> entity;
     let d = d\<lparr>sdr_prev_registered_at := acc_registered_at a,
               sdr_prev_deregistered_at := acc_deregistered_at a,
               sdr_prev_pool := Some (acc_pool a), sdr_prev_drep := Some (acc_drep a),
               sdr_prev_retired_pool := acc_retired_pool a\<rparr>;
     let a = a\<lparr>acc_registered_at := None, acc_deregistered_at := Some (sdr_slot d)\<rparr>;
     pool \<leftarrow> ev_replace b (acc_pool a) PoolNotDelegated (sdr_epoch d);
     let a = a\<lparr>acc_pool := pool, acc_retired_pool := None\<rparr>;
     dr \<leftarrow> ev_replace b (acc_drep a) DRepNotDelegated (sdr_epoch d);
     Some (d, Some (a\<lparr>acc_drep := dr\<rparr>))
   }"

definition stake_deregistration_undo :: "(stake_deregistration, account_state) undo_fn" where
  "stake_deregistration_undo d entity = do {
     a \<leftarrow> entity;
     let a = a\<lparr>acc_registered_at := sdr_prev_registered_at d,
               acc_deregistered_at := sdr_prev_deregistered_at d\<rparr>;
     pool \<leftarrow> sdr_prev_pool d;
     dr \<leftarrow> sdr_prev_drep d;
     Some (Some (a\<lparr>acc_pool := pool, acc_drep := dr, acc_retired_pool := sdr_prev_retired_pool d\<rparr>))
   }"

section \<open>Withdrawals, refunds and rewards\<close>

record withdrawal_inc =
  wi_cred :: stake_credential
  wi_amount :: u64
  wi_prev_stake_live :: "stake option"

definition withdrawal_inc_new :: "stake_credential \<Rightarrow> u64 \<Rightarrow> withdrawal_inc" where
  "withdrawal_inc_new cred amount = \<lparr>wi_cred = cred, wi_amount = amount, wi_prev_stake_live = None\<rparr>"

definition withdrawal_inc_key :: "cred_codec \<Rightarrow> withdrawal_inc \<Rightarrow> ns_key" where
  "withdrawal_inc_key enc d = account_cred_key enc (wi_cred d)"

definition withdrawal_inc_apply :: "build \<Rightarrow> (withdrawal_inc, account_state) apply_fn" where
  "withdrawal_inc_apply b d entity = do {
     a \<leftarrow> entity;
     s \<leftarrow> unwrap_live (acc_stake a);
     let d = d\<lparr>wi_prev_stake_live := Some s\<rparr>;
     x \<leftarrow> add_m b (withdrawals_sum s) (wi_amount d);
     Some (d, Some (put_live_stake a (s\<lparr>withdrawals_sum := x\<rparr>)))
   }"

definition withdrawal_inc_undo :: "(withdrawal_inc, account_state) undo_fn" where
  "withdrawal_inc_undo d entity = restore_live_stake (wi_prev_stake_live d) entity"

record pool_delegator_retire =
  pdr_delegator :: entity_key
  pdr_epoch :: epoch
  pdr_prev_pool :: "pool_delegation epoch_value option"
  pdr_prev_retired_pool :: "pool_hash option"

definition pool_delegator_retire_new :: "entity_key \<Rightarrow> epoch \<Rightarrow> pool_delegator_retire" where
  "pool_delegator_retire_new delegator e = \<lparr>pdr_delegator = delegator, pdr_epoch = e,
     pdr_prev_pool = None, pdr_prev_retired_pool = None\<rparr>"

definition pool_delegator_retire_key :: "pool_delegator_retire \<Rightarrow> ns_key" where
  "pool_delegator_retire_key d = (account_ns, pdr_delegator d)"

definition pool_delegator_retire_apply :: "build \<Rightarrow> (pool_delegator_retire, account_state) apply_fn" where
  "pool_delegator_retire_apply b d entity = do {
     a \<leftarrow> entity;
     let d = d\<lparr>pdr_prev_pool := Some (acc_pool a), pdr_prev_retired_pool := acc_retired_pool a\<rparr>;
     let prev_pool_live = ev_live (acc_pool a);
     pool \<leftarrow> ev_schedule b (acc_pool a) (pdr_epoch d) (Some PoolNotDelegated);
     let a = a\<lparr>acc_pool := pool\<rparr>;
     p \<leftarrow> Option.bind prev_pool_live pool_of;
     Some (d, Some (a\<lparr>acc_retired_pool := Some p\<rparr>))
   }"

definition pool_delegator_retire_undo :: "(pool_delegator_retire, account_state) undo_fn" where
  "pool_delegator_retire_undo d entity = do {
     a \<leftarrow> entity;
     pool \<leftarrow> pdr_prev_pool d;
     Some (Some (a\<lparr>acc_pool := pool, acc_retired_pool := pdr_prev_retired_pool d\<rparr>))
   }"

record drep_delegator_drop =
  ddd_delegator :: entity_key
  ddd_epoch :: epoch
  ddd_prev_drep :: "drep_delegation epoch_value option"

definition drep_delegator_drop_new :: "entity_key \<Rightarrow> epoch \<Rightarrow> drep_delegator_drop" where
  "drep_delegator_drop_new delegator e = \<lparr>ddd_delegator = delegator, ddd_epoch = e, ddd_prev_drep = None\<rparr>"

definition drep_delegator_drop_key :: "drep_delegator_drop \<Rightarrow> ns_key" where
  "drep_delegator_drop_key d = (account_ns, ddd_delegator d)"

definition drep_delegator_drop_apply :: "build \<Rightarrow> (drep_delegator_drop, account_state) apply_fn" where
  "drep_delegator_drop_apply b d entity = do {
     a \<leftarrow> entity;
     let d = d\<lparr>ddd_prev_drep := Some (acc_drep a)\<rparr>;
     dr \<leftarrow> ev_schedule b (acc_drep a) (ddd_epoch d) (Some DRepNotDelegated);
     Some (d, Some (a\<lparr>acc_drep := dr\<rparr>))
   }"

definition drep_delegator_drop_undo :: "(drep_delegator_drop, account_state) undo_fn" where
  "drep_delegator_drop_undo d entity = do {
     a \<leftarrow> entity;
     dr \<leftarrow> ddd_prev_drep d;
     Some (Some (a\<lparr>acc_drep := dr\<rparr>))
   }"

record treasury_withdrawal =
  tw_account :: stake_credential
  tw_amount :: u64
  tw_prev_stake_live :: "stake option"

definition treasury_withdrawal_new :: "stake_credential \<Rightarrow> u64 \<Rightarrow> treasury_withdrawal" where
  "treasury_withdrawal_new account amount = \<lparr>tw_account = account, tw_amount = amount,
     tw_prev_stake_live = None\<rparr>"

definition treasury_withdrawal_key :: "cred_codec \<Rightarrow> treasury_withdrawal \<Rightarrow> ns_key" where
  "treasury_withdrawal_key enc d = account_cred_key enc (tw_account d)"

definition treasury_withdrawal_apply :: "build \<Rightarrow> (treasury_withdrawal, account_state) apply_fn" where
  "treasury_withdrawal_apply b d entity = do {
     a \<leftarrow> entity;
     s \<leftarrow> unwrap_live (acc_stake a);
     let d = d\<lparr>tw_prev_stake_live := Some s\<rparr>;
     x \<leftarrow> add_m b (rewards_sum s) (tw_amount d);
     Some (d, Some (put_live_stake a (s\<lparr>rewards_sum := x\<rparr>)))
   }"

definition treasury_withdrawal_undo :: "(treasury_withdrawal, account_state) undo_fn" where
  "treasury_withdrawal_undo d entity = restore_live_stake (tw_prev_stake_live d) entity"

text \<open>The two deposit refunds add to the scheduled stake with the plain operator.\<close>

definition refund_scheduled :: "build \<Rightarrow> u64 \<Rightarrow> stake epoch_value \<Rightarrow> stake epoch_value option" where
  "refund_scheduled b amount v = do {
     (v', s) \<leftarrow> scheduled_or_default next_value_clone v;
     x \<leftarrow> raw_add b (rewards_sum s) amount;
     Some (v'\<lparr>ev_next := Some (s\<lparr>rewards_sum := x\<rparr>)\<rparr>)
   }"

record pool_deposit_refund =
  pdf_pool_deposit :: u64
  pdf_account :: stake_credential
  pdf_prev_stake :: "stake epoch_value option"

definition pool_deposit_refund_new :: "u64 \<Rightarrow> stake_credential \<Rightarrow> pool_deposit_refund" where
  "pool_deposit_refund_new deposit account = \<lparr>pdf_pool_deposit = deposit, pdf_account = account,
     pdf_prev_stake = None\<rparr>"

definition pool_deposit_refund_key :: "cred_codec \<Rightarrow> pool_deposit_refund \<Rightarrow> ns_key" where
  "pool_deposit_refund_key enc d = account_cred_key enc (pdf_account d)"

definition pool_deposit_refund_apply :: "build \<Rightarrow> (pool_deposit_refund, account_state) apply_fn" where
  "pool_deposit_refund_apply b d entity = do {
     a \<leftarrow> entity;
     let d = d\<lparr>pdf_prev_stake := Some (acc_stake a)\<rparr>;
     v \<leftarrow> refund_scheduled b (pdf_pool_deposit d) (acc_stake a);
     Some (d, Some (a\<lparr>acc_stake := v\<rparr>))
   }"

definition pool_deposit_refund_undo :: "(pool_deposit_refund, account_state) undo_fn" where
  "pool_deposit_refund_undo d entity = do {
     a \<leftarrow> entity;
     v \<leftarrow> pdf_prev_stake d;
     Some (Some (a\<lparr>acc_stake := v\<rparr>))
   }"

record proposal_deposit_refund =
  prf_proposal_deposit :: u64
  prf_account :: stake_credential
  prf_prev_stake :: "stake epoch_value option"

definition proposal_deposit_refund_new :: "u64 \<Rightarrow> stake_credential \<Rightarrow> proposal_deposit_refund" where
  "proposal_deposit_refund_new deposit account = \<lparr>prf_proposal_deposit = deposit,
     prf_account = account, prf_prev_stake = None\<rparr>"

definition proposal_deposit_refund_key :: "cred_codec \<Rightarrow> proposal_deposit_refund \<Rightarrow> ns_key" where
  "proposal_deposit_refund_key enc d = account_cred_key enc (prf_account d)"

definition proposal_deposit_refund_apply :: "build \<Rightarrow> (proposal_deposit_refund, account_state) apply_fn" where
  "proposal_deposit_refund_apply b d entity = do {
     a \<leftarrow> entity;
     let d = d\<lparr>prf_prev_stake := Some (acc_stake a)\<rparr>;
     v \<leftarrow> refund_scheduled b (prf_proposal_deposit d) (acc_stake a);
     Some (d, Some (a\<lparr>acc_stake := v\<rparr>))
   }"

definition proposal_deposit_refund_undo :: "(proposal_deposit_refund, account_state) undo_fn" where
  "proposal_deposit_refund_undo d entity = do {
     a \<leftarrow> entity;
     v \<leftarrow> prf_prev_stake d;
     Some (Some (a\<lparr>acc_stake := v\<rparr>))
   }"

record assign_rewards =
  ar_account :: entity_key
  ar_reward :: u64
  ar_prev_stake_live :: "stake option"

definition assign_rewards_new :: "entity_key \<Rightarrow> u64 \<Rightarrow> assign_rewards" where
  "assign_rewards_new account reward = \<lparr>ar_account = account, ar_reward = reward,
     ar_prev_stake_live = None\<rparr>"

definition assign_rewards_key :: "assign_rewards \<Rightarrow> ns_key" where
  "assign_rewards_key d = (account_ns, ar_account d)"

definition assign_rewards_apply :: "build \<Rightarrow> (assign_rewards, account_state) apply_fn" where
  "assign_rewards_apply b d entity = do {
     a \<leftarrow> entity;
     s \<leftarrow> unwrap_live (acc_stake a);
     let d = d\<lparr>ar_prev_stake_live := Some s\<rparr>;
     x \<leftarrow> add_m b (rewards_sum s) (ar_reward d);
     Some (d, Some (put_live_stake a (s\<lparr>rewards_sum := x\<rparr>)))
   }"

definition assign_rewards_undo :: "(assign_rewards, account_state) undo_fn" where
  "assign_rewards_undo d entity = restore_live_stake (ar_prev_stake_live d) entity"

section \<open>The epoch transition\<close>

record account_transition =
  atr_account :: entity_key
  atr_next_epoch :: epoch
  atr_prev_stake :: "stake epoch_value option"
  atr_prev_pool :: "pool_delegation epoch_value option"
  atr_prev_drep :: "drep_delegation epoch_value option"

definition account_transition_new :: "entity_key \<Rightarrow> epoch \<Rightarrow> account_transition" where
  "account_transition_new account e = \<lparr>atr_account = account, atr_next_epoch = e,
     atr_prev_stake = None, atr_prev_pool = None, atr_prev_drep = None\<rparr>"

definition account_transition_key :: "account_transition \<Rightarrow> ns_key" where
  "account_transition_key d = (account_ns, atr_account d)"

definition account_transition_apply :: "build \<Rightarrow> (account_transition, account_state) apply_fn" where
  "account_transition_apply b d entity = do {
     a \<leftarrow> entity;
     let d = d\<lparr>atr_prev_stake := Some (acc_stake a), atr_prev_pool := Some (acc_pool a),
               atr_prev_drep := Some (acc_drep a)\<rparr>;
     st \<leftarrow> default_transition b next_value_clone (acc_stake a) (atr_next_epoch d);
     pool \<leftarrow> default_transition b next_value_clone (acc_pool a) (atr_next_epoch d);
     dr \<leftarrow> default_transition b next_value_clone (acc_drep a) (atr_next_epoch d);
     Some (d, Some (a\<lparr>acc_stake := st, acc_pool := pool, acc_drep := dr\<rparr>))
   }"

definition account_transition_undo :: "(account_transition, account_state) undo_fn" where
  "account_transition_undo d entity = do {
     a \<leftarrow> entity;
     st \<leftarrow> atr_prev_stake d;
     pool \<leftarrow> atr_prev_pool d;
     dr \<leftarrow> atr_prev_drep d;
     Some (Some (a\<lparr>acc_stake := st, acc_pool := pool, acc_drep := dr\<rparr>))
   }"

section \<open>Every account delta is reversible\<close>

lemma account_upd_id [simp]:
  "acc_registered_at a = r \<Longrightarrow> a\<lparr>acc_registered_at := r\<rparr> = a"
  "acc_stake a = s \<Longrightarrow> a\<lparr>acc_stake := s\<rparr> = a"
  "acc_pool a = p \<Longrightarrow> a\<lparr>acc_pool := p\<rparr> = a"
  "acc_drep a = dr \<Longrightarrow> a\<lparr>acc_drep := dr\<rparr> = a"
  "acc_vote_delegated_at a = v \<Longrightarrow> a\<lparr>acc_vote_delegated_at := v\<rparr> = a"
  "acc_deregistered_at a = r \<Longrightarrow> a\<lparr>acc_deregistered_at := r\<rparr> = a"
  "acc_retired_pool a = q \<Longrightarrow> a\<lparr>acc_retired_pool := q\<rparr> = a"
  by (cases a; auto)+

lemma restore_put_live_stake:
  "unwrap_live (acc_stake a) = Some s \<Longrightarrow> restore_live_stake (Some s) (Some (put_live_stake a s')) = Some (Some a)"
  by (simp add: restore_live_stake_def put_live_stake_def unwrap_live_def)

lemmas stake_delta_defs =
  controlled_amount_inc_apply_def controlled_amount_inc_undo_def controlled_amount_inc_key_def
  controlled_amount_dec_apply_def controlled_amount_dec_undo_def controlled_amount_dec_key_def
  withdrawal_inc_apply_def withdrawal_inc_undo_def withdrawal_inc_key_def
  treasury_withdrawal_apply_def treasury_withdrawal_undo_def treasury_withdrawal_key_def
  assign_rewards_apply_def assign_rewards_undo_def assign_rewards_key_def

lemmas delegation_delta_defs =
  stake_registration_apply_def stake_registration_undo_def stake_registration_key_def
  stake_delegation_apply_def stake_delegation_undo_def stake_delegation_key_def
  vote_delegation_apply_def vote_delegation_undo_def vote_delegation_key_def
  stake_deregistration_apply_def stake_deregistration_undo_def stake_deregistration_key_def
  pool_delegator_retire_apply_def pool_delegator_retire_undo_def pool_delegator_retire_key_def
  drep_delegator_drop_apply_def drep_delegator_drop_undo_def drep_delegator_drop_key_def
  pool_deposit_refund_apply_def pool_deposit_refund_undo_def pool_deposit_refund_key_def
  proposal_deposit_refund_apply_def proposal_deposit_refund_undo_def proposal_deposit_refund_key_def
  account_transition_apply_def account_transition_undo_def account_transition_key_def

interpretation controlled_amount_inc: reversible_delta "controlled_amount_inc_key enc"
  "controlled_amount_inc_apply b" controlled_amount_inc_undo "\<lambda>_. True" "\<lambda>_ _. True"
  by unfold_locales
    (auto simp: stake_delta_defs panic_simps restore_put_live_stake Let_def get_or_insert_def split: option.splits if_splits)

interpretation controlled_amount_dec: reversible_delta "controlled_amount_dec_key enc"
  "controlled_amount_dec_apply b" controlled_amount_dec_undo "\<lambda>_. True" "\<lambda>_ _. True"
  by unfold_locales
    (auto simp: stake_delta_defs panic_simps restore_put_live_stake Let_def split: if_splits)

interpretation withdrawal_inc: reversible_delta "withdrawal_inc_key enc"
  "withdrawal_inc_apply b" withdrawal_inc_undo "\<lambda>_. True" "\<lambda>_ _. True"
  by unfold_locales (auto simp: stake_delta_defs panic_simps restore_put_live_stake Let_def)

interpretation treasury_withdrawal: reversible_delta "treasury_withdrawal_key enc"
  "treasury_withdrawal_apply b" treasury_withdrawal_undo "\<lambda>_. True" "\<lambda>_ _. True"
  by unfold_locales (auto simp: stake_delta_defs panic_simps restore_put_live_stake Let_def)

interpretation assign_rewards: reversible_delta assign_rewards_key
  "assign_rewards_apply b" assign_rewards_undo "\<lambda>_. True" "\<lambda>_ _. True"
  by unfold_locales (auto simp: stake_delta_defs panic_simps restore_put_live_stake Let_def)

interpretation stake_registration: reversible_delta "stake_registration_key enc"
  stake_registration_apply stake_registration_undo "\<lambda>_. True" "\<lambda>_ _. True"
  by unfold_locales (auto simp: delegation_delta_defs Let_def get_or_insert_def split: option.splits)

interpretation stake_delegation: reversible_delta "stake_delegation_key enc"
  "stake_delegation_apply b" stake_delegation_undo "\<lambda>_. True" "\<lambda>_ _. True"
  by unfold_locales (auto simp: delegation_delta_defs panic_simps Let_def)

interpretation vote_delegation: reversible_delta "vote_delegation_key enc"
  "vote_delegation_apply b" vote_delegation_undo "\<lambda>_. True" "\<lambda>_ _. True"
  by unfold_locales (auto simp: delegation_delta_defs panic_simps Let_def)

interpretation stake_deregistration: reversible_delta "stake_deregistration_key enc"
  "stake_deregistration_apply b" stake_deregistration_undo "\<lambda>_. True" "\<lambda>_ _. True"
  by unfold_locales (auto simp: delegation_delta_defs panic_simps Let_def)

interpretation pool_delegator_retire: reversible_delta pool_delegator_retire_key
  "pool_delegator_retire_apply b" pool_delegator_retire_undo "\<lambda>_. True" "\<lambda>_ _. True"
  by unfold_locales (auto simp: delegation_delta_defs panic_simps Let_def)

interpretation drep_delegator_drop: reversible_delta drep_delegator_drop_key
  "drep_delegator_drop_apply b" drep_delegator_drop_undo "\<lambda>_. True" "\<lambda>_ _. True"
  by unfold_locales (auto simp: delegation_delta_defs panic_simps Let_def)

interpretation pool_deposit_refund: reversible_delta "pool_deposit_refund_key enc"
  "pool_deposit_refund_apply b" pool_deposit_refund_undo "\<lambda>_. True" "\<lambda>_ _. True"
  by unfold_locales (auto simp: delegation_delta_defs panic_simps Let_def)

interpretation proposal_deposit_refund: reversible_delta "proposal_deposit_refund_key enc"
  "proposal_deposit_refund_apply b" proposal_deposit_refund_undo "\<lambda>_. True" "\<lambda>_ _. True"
  by unfold_locales (auto simp: delegation_delta_defs panic_simps Let_def)

interpretation account_transition: reversible_delta account_transition_key
  "account_transition_apply b" account_transition_undo "\<lambda>_. True" "\<lambda>_ _. True"
  by unfold_locales (auto simp: delegation_delta_defs panic_simps Let_def)

end
