(* ===== verification/Pools.thy ===== *)
theory Pools
  imports Epoch_Value Entity_Delta Ledger_Types
begin

text \<open>
  Stake pools (\<^verbatim>\<open>crates/cardano/src/model/pools.rs\<close>): the pool entity with its
  epoch-versioned snapshot and its five deltas. \<^verbatim>\<open>MintedBlocksInc\<close> has a field the
  write-ahead log does not keep (\<^verbatim>\<open>#[serde(skip)]\<close>);
  \<open>minted_blocks_inc_stored\<close> is the delta as it is read back.
\<close>

section \<open>The entity\<close>

record pool_params =
  pp_vrf_keyhash :: hash32
  pp_pledge :: u64
  pp_cost :: u64
  pp_margin :: rational_number
  pp_reward_account :: bytes
  pp_pool_owners :: "hash28 list"
  pp_relays :: "relay list"
  pp_pool_metadata :: "pool_metadata option"

record pool_snapshot =
  ps_is_retired :: bool
  ps_blocks_minted :: u32
  ps_params :: pool_params
  ps_is_new :: bool

record pool_state =
  pool_operator :: pool_hash
  pool_snapshot :: "pool_snapshot epoch_value"
  pool_blocks_minted_total :: u32
  pool_register_slot :: u64
  pool_retiring_epoch :: "u64 option"
  pool_deposit :: u64

definition pool_ns :: namespace where
  "pool_ns = ''pools''"

text \<open>\<^verbatim>\<open>TransitionDefault\<close>: the counters restart, and no prior snapshot panics.\<close>

definition pool_next_value :: "pool_snapshot next_value" where
  "pool_next_value current = do {
     c \<leftarrow> current;
     Some (Some \<lparr>ps_is_retired = ps_is_retired c, ps_blocks_minted = 0, ps_params = ps_params c,
                 ps_is_new = False\<rparr>)
   }"

text \<open>\<^verbatim>\<open>MultiEraPoolRegistration\<close> of \<^verbatim>\<open>pallas_extras.rs\<close>.\<close>

record pool_cert =
  pc_operator :: hash28
  pc_vrf_keyhash :: hash32
  pc_pledge :: u64
  pc_cost :: u64
  pc_margin :: rational_number
  pc_reward_account :: bytes
  pc_pool_owners :: "hash28 list"
  pc_relays :: "relay list"
  pc_pool_metadata :: "pool_metadata option"

definition pool_params_from :: "pool_cert \<Rightarrow> pool_params" where
  "pool_params_from c = \<lparr>pp_vrf_keyhash = pc_vrf_keyhash c, pp_pledge = pc_pledge c,
     pp_cost = pc_cost c, pp_margin = pc_margin c, pp_reward_account = pc_reward_account c,
     pp_pool_owners = pc_pool_owners c, pp_relays = pc_relays c,
     pp_pool_metadata = pc_pool_metadata c\<rparr>"

definition pool_hash_key :: "hash28 \<Rightarrow> ns_key" where
  "pool_hash_key h = (pool_ns, entity_key_from (word_bytes h))"

section \<open>Deltas\<close>

record pool_registration =
  pr_cert :: pool_cert
  pr_slot :: block_slot
  pr_epoch :: epoch
  pr_pool_deposit :: u64
  pr_was_new :: bool
  pr_prev_snapshot :: "pool_snapshot epoch_value option"
  pr_prev_retiring_epoch :: "u64 option"

definition pool_registration_new :: "pool_cert \<Rightarrow> block_slot \<Rightarrow> epoch \<Rightarrow> u64 \<Rightarrow> pool_registration" where
  "pool_registration_new cert slot e deposit = \<lparr>pr_cert = cert, pr_slot = slot, pr_epoch = e,
     pr_pool_deposit = deposit, pr_was_new = False, pr_prev_snapshot = None,
     pr_prev_retiring_epoch = None\<rparr>"

definition pool_registration_key :: "pool_registration \<Rightarrow> ns_key" where
  "pool_registration_key d = pool_hash_key (pc_operator (pr_cert d))"

definition pool_registration_apply :: "build \<Rightarrow> (pool_registration, pool_state) apply_fn" where
  "pool_registration_apply b d entity =
     (case entity of
        Some p \<Rightarrow> do {
          let d = d\<lparr>pr_prev_snapshot := Some (pool_snapshot p),
                    pr_prev_retiring_epoch := pool_retiring_epoch p\<rparr>;
          live \<leftarrow> unwrap_live (pool_snapshot p);
          snapshot \<leftarrow>
            (if ps_is_retired live
             then ev_replace b (pool_snapshot p)
                    \<lparr>ps_is_retired = False, ps_blocks_minted = ps_blocks_minted live,
                     ps_params = pool_params_from (pr_cert d), ps_is_new = True\<rparr> (pr_epoch d)
             else ev_schedule b (pool_snapshot p) (pr_epoch d)
                    (Some \<lparr>ps_is_retired = False, ps_blocks_minted = 0,
                           ps_params = pool_params_from (pr_cert d), ps_is_new = False\<rparr>));
          Some (d, Some (p\<lparr>pool_snapshot := snapshot, pool_retiring_epoch := None\<rparr>))
        }
      | None \<Rightarrow>
          Some (d\<lparr>pr_was_new := True\<rparr>,
                Some \<lparr>pool_operator = pc_operator (pr_cert d),
                      pool_snapshot = ev_with_live (pr_epoch d)
                        \<lparr>ps_is_retired = False, ps_blocks_minted = 0,
                         ps_params = pool_params_from (pr_cert d), ps_is_new = True\<rparr>,
                      pool_blocks_minted_total = 0, pool_register_slot = pr_slot d,
                      pool_retiring_epoch = None, pool_deposit = pr_pool_deposit d\<rparr>))"

definition pool_registration_undo :: "(pool_registration, pool_state) undo_fn" where
  "pool_registration_undo d entity =
     (if pr_was_new d then Some None
      else do {
        p \<leftarrow> entity;
        snapshot \<leftarrow> pr_prev_snapshot d;
        Some (Some (p\<lparr>pool_snapshot := snapshot, pool_retiring_epoch := pr_prev_retiring_epoch d\<rparr>))
      })"

record minted_blocks_inc =
  mbi_operator :: hash28
  mbi_count :: u32
  mbi_epoch :: epoch

definition minted_blocks_inc_key :: "minted_blocks_inc \<Rightarrow> ns_key" where
  "minted_blocks_inc_key d = pool_hash_key (mbi_operator d)"

definition minted_blocks_inc_apply :: "build \<Rightarrow> (minted_blocks_inc, pool_state) apply_fn" where
  "minted_blocks_inc_apply b d entity =
     (case entity of
        None \<Rightarrow> Some (d, None)
      | Some p \<Rightarrow> do {
          _ \<leftarrow> assert_that (is_at_epoch (pool_snapshot p) (mbi_epoch d));
          total \<leftarrow> raw_add b (pool_blocks_minted_total p) (mbi_count d);
          live \<leftarrow> unwrap_live (pool_snapshot p);
          minted \<leftarrow> raw_add b (ps_blocks_minted live) (mbi_count d);
          Some (d, Some (p\<lparr>pool_blocks_minted_total := total,
            pool_snapshot := (pool_snapshot p)\<lparr>ev_live := Some (live\<lparr>ps_blocks_minted := minted\<rparr>)\<rparr>\<rparr>))
        })"

definition minted_blocks_inc_undo :: "build \<Rightarrow> (minted_blocks_inc, pool_state) undo_fn" where
  "minted_blocks_inc_undo b d entity =
     (case entity of
        None \<Rightarrow> Some None
      | Some p \<Rightarrow> do {
          total \<leftarrow> raw_sub b (pool_blocks_minted_total p) (mbi_count d);
          live \<leftarrow> unwrap_live (pool_snapshot p);
          minted \<leftarrow> raw_sub b (ps_blocks_minted live) (mbi_count d);
          Some (Some (p\<lparr>pool_blocks_minted_total := total,
            pool_snapshot := (pool_snapshot p)\<lparr>ev_live := Some (live\<lparr>ps_blocks_minted := minted\<rparr>)\<rparr>\<rparr>))
        })"

text \<open>The delta after a round trip through the log: the skipped field has its default.\<close>

definition minted_blocks_inc_stored :: "minted_blocks_inc \<Rightarrow> minted_blocks_inc" where
  "minted_blocks_inc_stored d = d\<lparr>mbi_epoch := 0\<rparr>"

record pool_deregistration =
  pdg_operator :: hash28
  pdg_epoch :: u64
  pdg_prev_retiring_epoch :: "u64 option"
  pdg_prev_deposit :: "u64 option"

definition pool_deregistration_new :: "hash28 \<Rightarrow> u64 \<Rightarrow> pool_deregistration" where
  "pool_deregistration_new operator e = \<lparr>pdg_operator = operator, pdg_epoch = e,
     pdg_prev_retiring_epoch = None, pdg_prev_deposit = None\<rparr>"

definition pool_deregistration_key :: "pool_deregistration \<Rightarrow> ns_key" where
  "pool_deregistration_key d = pool_hash_key (pdg_operator d)"

definition pool_deregistration_apply :: "(pool_deregistration, pool_state) apply_fn" where
  "pool_deregistration_apply d entity =
     (case entity of
        None \<Rightarrow> Some (d, None)
      | Some p \<Rightarrow>
          let d = d\<lparr>pdg_prev_retiring_epoch := pool_retiring_epoch p, pdg_prev_deposit := Some (pool_deposit p)\<rparr>
          in Some (d, Some (p\<lparr>pool_retiring_epoch := Some (pdg_epoch d), pool_deposit := 0\<rparr>)))"

definition pool_deregistration_undo :: "(pool_deregistration, pool_state) undo_fn" where
  "pool_deregistration_undo d entity =
     Some (map_option (\<lambda>p. p\<lparr>pool_retiring_epoch := pdg_prev_retiring_epoch d,
                             pool_deposit := case_option 0 id (pdg_prev_deposit d)\<rparr>) entity)"

record pool_wrap_up =
  pwu_pool_hash :: pool_hash
  pwu_prev_snapshot :: "pool_snapshot epoch_value option"

definition pool_wrap_up_new :: "pool_hash \<Rightarrow> pool_wrap_up" where
  "pool_wrap_up_new h = \<lparr>pwu_pool_hash = h, pwu_prev_snapshot = None\<rparr>"

definition pool_wrap_up_key :: "pool_wrap_up \<Rightarrow> ns_key" where
  "pool_wrap_up_key d = pool_hash_key (pwu_pool_hash d)"

definition pool_wrap_up_apply :: "(pool_wrap_up, pool_state) apply_fn" where
  "pool_wrap_up_apply d entity = do {
     p \<leftarrow> entity;
     let d = d\<lparr>pwu_prev_snapshot := Some (pool_snapshot p)\<rparr>;
     (v, snapshot) \<leftarrow> scheduled_or_default pool_next_value (pool_snapshot p);
     Some (d, Some (p\<lparr>pool_snapshot := v\<lparr>ev_next := Some (snapshot\<lparr>ps_is_retired := True\<rparr>)\<rparr>\<rparr>))
   }"

definition pool_wrap_up_undo :: "(pool_wrap_up, pool_state) undo_fn" where
  "pool_wrap_up_undo d entity = do {
     p \<leftarrow> entity;
     snapshot \<leftarrow> pwu_prev_snapshot d;
     Some (Some (p\<lparr>pool_snapshot := snapshot\<rparr>))
   }"

record pool_transition =
  ptr_pool :: entity_key
  ptr_next_epoch :: epoch
  ptr_prev_snapshot :: "pool_snapshot epoch_value option"

definition pool_transition_new :: "entity_key \<Rightarrow> epoch \<Rightarrow> pool_transition" where
  "pool_transition_new pool e = \<lparr>ptr_pool = pool, ptr_next_epoch = e, ptr_prev_snapshot = None\<rparr>"

definition pool_transition_key :: "pool_transition \<Rightarrow> ns_key" where
  "pool_transition_key d = (pool_ns, ptr_pool d)"

definition pool_transition_apply :: "build \<Rightarrow> (pool_transition, pool_state) apply_fn" where
  "pool_transition_apply b d entity = do {
     p \<leftarrow> entity;
     let d = d\<lparr>ptr_prev_snapshot := Some (pool_snapshot p)\<rparr>;
     v \<leftarrow> default_transition b pool_next_value (pool_snapshot p) (ptr_next_epoch d);
     Some (d, Some (p\<lparr>pool_snapshot := v\<rparr>))
   }"

definition pool_transition_undo :: "(pool_transition, pool_state) undo_fn" where
  "pool_transition_undo d entity = do {
     p \<leftarrow> entity;
     snapshot \<leftarrow> ptr_prev_snapshot d;
     Some (Some (p\<lparr>pool_snapshot := snapshot\<rparr>))
   }"

section \<open>Every pool delta is reversible\<close>

lemma pool_upd_id [simp]:
  "pool_snapshot p = s \<Longrightarrow> p\<lparr>pool_snapshot := s\<rparr> = p"
  "pool_retiring_epoch p = r \<Longrightarrow> p\<lparr>pool_retiring_epoch := r\<rparr> = p"
  "pool_blocks_minted_total p = n \<Longrightarrow> p\<lparr>pool_blocks_minted_total := n\<rparr> = p"
  "pool_deposit p = x \<Longrightarrow> p\<lparr>pool_deposit := x\<rparr> = p"
  "ps_blocks_minted s' = n \<Longrightarrow> s'\<lparr>ps_blocks_minted := n\<rparr> = s'"
  by (cases p; cases s'; auto)+

lemmas pool_delta_defs =
  pool_registration_apply_def pool_registration_undo_def pool_registration_key_def
  minted_blocks_inc_apply_def minted_blocks_inc_undo_def minted_blocks_inc_key_def
  pool_deregistration_apply_def pool_deregistration_undo_def pool_deregistration_key_def
  pool_wrap_up_apply_def pool_wrap_up_undo_def pool_wrap_up_key_def
  pool_transition_apply_def pool_transition_undo_def pool_transition_key_def

text \<open>
  A registration of a known pool leaves \<^verbatim>\<open>was_new\<close> as it found it, so only a delta
  that its constructor built is reversible.
\<close>

lemma pool_registration_cases:
  assumes "pool_registration_apply b d e = Some (d', e')"
  obtains (added) "e = None" "d' = d\<lparr>pr_was_new := True\<rparr>"
  | (known) p s where "e = Some p"
      "d' = d\<lparr>pr_prev_snapshot := Some (pool_snapshot p), pr_prev_retiring_epoch := pool_retiring_epoch p\<rparr>"
      "e' = Some (p\<lparr>pool_snapshot := s, pool_retiring_epoch := None\<rparr>)"
proof (cases e)
  case None
  with assms added show thesis by (simp add: pool_registration_apply_def)
next
  case (Some p)
  from assms obtain s where
      "d' = d\<lparr>pr_prev_snapshot := Some (pool_snapshot p), pr_prev_retiring_epoch := pool_retiring_epoch p\<rparr>"
      "e' = Some (p\<lparr>pool_snapshot := s, pool_retiring_epoch := None\<rparr>)"
    unfolding pool_registration_apply_def Some option.case Let_def bind_eq_Some_conv by blast
  with Some show thesis by (rule known)
qed

interpretation pool_registration: reversible_delta pool_registration_key
  "pool_registration_apply b" pool_registration_undo "\<lambda>d. \<not> pr_was_new d" "\<lambda>_ _. True"
  by unfold_locales
    (erule pool_registration_cases; simp add: pool_registration_key_def pool_registration_undo_def)+

interpretation minted_blocks_inc: reversible_delta minted_blocks_inc_key
  "minted_blocks_inc_apply b" "minted_blocks_inc_undo b" "\<lambda>_. True" "\<lambda>_ _. True"
  by unfold_locales
    (auto simp: pool_delta_defs panic_simps unwrap_live_def dest!: raw_add_sub_cancel split: option.splits)

interpretation pool_deregistration: reversible_delta pool_deregistration_key
  pool_deregistration_apply pool_deregistration_undo "\<lambda>_. True" "\<lambda>_ _. True"
  by unfold_locales (auto simp: pool_delta_defs Let_def split: option.splits)

interpretation pool_wrap_up: reversible_delta pool_wrap_up_key
  pool_wrap_up_apply pool_wrap_up_undo "\<lambda>_. True" "\<lambda>_ _. True"
  by unfold_locales (auto simp: pool_delta_defs panic_simps Let_def)

interpretation pool_transition: reversible_delta pool_transition_key
  "pool_transition_apply b" pool_transition_undo "\<lambda>_. True" "\<lambda>_ _. True"
  by unfold_locales (auto simp: pool_delta_defs panic_simps Let_def)

lemma minted_blocks_inc_stored_undo:
  "minted_blocks_inc_undo b (minted_blocks_inc_stored d) = minted_blocks_inc_undo b d"
  by (simp add: minted_blocks_inc_undo_def minted_blocks_inc_stored_def fun_eq_iff cong: option.case_cong)

lemma minted_blocks_inc_stored_key:
  "minted_blocks_inc_key (minted_blocks_inc_stored d) = minted_blocks_inc_key d"
  by (simp add: minted_blocks_inc_key_def minted_blocks_inc_stored_def)

section \<open>Properties\<close>

text \<open>
  A block count read back from the log cannot be applied again: its epoch is not stored, so
  the assertion that the pool's snapshot is at the block's epoch fails for every pool past epoch 0,
  and re-applying the entry panics in every build.
\<close>

theorem minted_blocks_replay_panics:
  assumes "ev_epoch (pool_snapshot p) = Epoch e" and "e \<noteq> 0"
  shows "minted_blocks_inc_apply b (minted_blocks_inc_stored d) (Some p) = None"
  using assms by (simp add: minted_blocks_inc_apply_def minted_blocks_inc_stored_def is_at_epoch_def ev_epoch_of_def assert_that_def)

definition sample_pool :: pool_state where
  "sample_pool = \<lparr>pool_operator = 1,
     pool_snapshot = ev_with_live 5 \<lparr>ps_is_retired = False, ps_blocks_minted = 0,
       ps_params = \<lparr>pp_vrf_keyhash = 0, pp_pledge = 0, pp_cost = 0, pp_margin = \<lparr>numerator = 0, denominator = 1\<rparr>,
         pp_reward_account = [], pp_pool_owners = [], pp_relays = [], pp_pool_metadata = None\<rparr>, ps_is_new = False\<rparr>,
     pool_blocks_minted_total = 0, pool_register_slot = 0, pool_retiring_epoch = None, pool_deposit = 0\<rparr>"

theorem minted_blocks_replay_panics_witness:
  "minted_blocks_inc_apply \<lparr>strict = False, overflow_checks = False\<rparr> \<lparr>mbi_operator = 1, mbi_count = 1, mbi_epoch = 5\<rparr>
       (Some sample_pool) \<noteq> None \<and>
   minted_blocks_inc_apply \<lparr>strict = False, overflow_checks = False\<rparr>
     (minted_blocks_inc_stored \<lparr>mbi_operator = 1, mbi_count = 1, mbi_epoch = 5\<rparr>) (Some sample_pool) = None"
proof
  show "minted_blocks_inc_apply \<lparr>strict = False, overflow_checks = False\<rparr> \<lparr>mbi_operator = 1, mbi_count = 1, mbi_epoch = 5\<rparr>
       (Some sample_pool) \<noteq> None"
    by (simp add: minted_blocks_inc_apply_def sample_pool_def ev_with_live_def ev_new_def is_at_epoch_def ev_epoch_of_def
        assert_that_def raw_add_def unwrap_live_def)
  show "minted_blocks_inc_apply \<lparr>strict = False, overflow_checks = False\<rparr>
     (minted_blocks_inc_stored \<lparr>mbi_operator = 1, mbi_count = 1, mbi_epoch = 5\<rparr>) (Some sample_pool) = None"
    using minted_blocks_replay_panics [of sample_pool 5] by (simp add: sample_pool_def ev_with_live_def ev_new_def)
qed

end
