(* ===== verification/DReps.thy ===== *)
theory DReps
  imports Entity_Delta Ledger_Types
begin

text \<open>
  Delegated representatives (\<^verbatim>\<open>crates/cardano/src/model/dreps.rs\<close>): the DRep entity,
  its snapshot-safe expiry epoch and its eight deltas.
\<close>

section \<open>Keys\<close>

text \<open>\<^verbatim>\<open>DREP_KEY_PREFIX\<close> and \<^verbatim>\<open>DREP_SCRIPT_PREFIX\<close> of
  \<^verbatim>\<open>pallas_extras.rs\<close>.\<close>

definition drep_key_prefix :: u8 where
  "drep_key_prefix = 0b00100010"

definition drep_script_prefix :: u8 where
  "drep_script_prefix = 0b00100011"

fun drep_key_bytes :: "drep \<Rightarrow> bytes" where
  "drep_key_bytes (DRepKey h) = drep_key_prefix # word_bytes h"
| "drep_key_bytes (DRepScript h) = drep_script_prefix # word_bytes h"
| "drep_key_bytes DRepAbstain = [0]"
| "drep_key_bytes DRepNoConfidence = [1]"

definition drep_to_entity_key :: "drep \<Rightarrow> entity_key" where
  "drep_to_entity_key value = entity_key_from (drep_key_bytes value)"

section \<open>Expiry\<close>

record drep_expiry =
  de_current :: epoch
  de_updated_in :: epoch
  de_prev :: "epoch option"

definition drep_expiry_new :: "epoch \<Rightarrow> epoch \<Rightarrow> drep_expiry" where
  "drep_expiry_new value e = \<lparr>de_current = value, de_updated_in = e, de_prev = None\<rparr>"

definition drep_expiry_set :: "drep_expiry \<Rightarrow> epoch \<Rightarrow> epoch \<Rightarrow> drep_expiry" where
  "drep_expiry_set x value e =
     (let x = (if de_updated_in x \<noteq> e then x\<lparr>de_prev := Some (de_current x), de_updated_in := e\<rparr> else x)
      in x\<lparr>de_current := value\<rparr>)"

definition drep_expiry_as_of :: "drep_expiry \<Rightarrow> epoch \<Rightarrow> epoch option" where
  "drep_expiry_as_of x e = (if de_updated_in x \<le> e then Some (de_current x) else de_prev x)"

section \<open>The entity\<close>

record drep_state =
  dr_registered_at :: "(block_slot \<times> tx_order) option"
  dr_voting_power :: u64
  dr_last_active_slot :: "u64 option"
  dr_unregistered_at :: "(block_slot \<times> tx_order) option"
  dr_expired :: bool
  dr_deposit :: u64
  dr_identifier :: drep
  dr_anchor :: "anchor option"
  dr_expiry :: "drep_expiry option"

definition drep_ns :: namespace where
  "drep_ns = ''dreps''"

definition drep_state_new :: "drep \<Rightarrow> drep_state" where
  "drep_state_new identifier = \<lparr>dr_registered_at = None, dr_voting_power = 0,
     dr_last_active_slot = None, dr_unregistered_at = None, dr_expired = False, dr_deposit = 0,
     dr_identifier = identifier, dr_anchor = None, dr_expiry = None\<rparr>"

text \<open>The order of pairs that the source compares with \<^verbatim>\<open><\<close>.\<close>

fun slot_order_less :: "block_slot \<times> tx_order \<Rightarrow> block_slot \<times> tx_order \<Rightarrow> bool" where
  "slot_order_less (s, t) (s', t') = (s < s' \<or> s = s' \<and> t < t')"

definition is_unregistered :: "drep_state \<Rightarrow> bool" where
  "is_unregistered x =
     (case (dr_registered_at x, dr_unregistered_at x) of
        (Some r, Some u) \<Rightarrow> slot_order_less r u
      | (_, None) \<Rightarrow> False
      | (None, Some u) \<Rightarrow> False)"

section \<open>Deltas\<close>

record drep_registration =
  dreg_drep :: drep
  dreg_slot :: block_slot
  dreg_txorder :: tx_order
  dreg_deposit :: u64
  dreg_anchor :: "anchor option"
  dreg_was_new :: bool
  dreg_prev_registered_at :: "(block_slot \<times> tx_order) option"
  dreg_prev_voting_power :: u64
  dreg_prev_deposit :: u64

definition drep_registration_new ::
  "drep \<Rightarrow> block_slot \<Rightarrow> tx_order \<Rightarrow> u64 \<Rightarrow> anchor option \<Rightarrow> drep_registration" where
  "drep_registration_new dr slot order deposit anchor = \<lparr>dreg_drep = dr, dreg_slot = slot,
     dreg_txorder = order, dreg_deposit = deposit, dreg_anchor = anchor, dreg_was_new = False,
     dreg_prev_registered_at = None, dreg_prev_voting_power = 0, dreg_prev_deposit = 0\<rparr>"

definition drep_registration_key :: "drep_registration \<Rightarrow> ns_key" where
  "drep_registration_key d = (drep_ns, drep_to_entity_key (dreg_drep d))"

definition drep_registration_apply :: "(drep_registration, drep_state) apply_fn" where
  "drep_registration_apply d entity =
     (let d = d\<lparr>dreg_was_new := (entity = None)\<rparr>;
          x = get_or_insert entity (drep_state_new (dreg_drep d));
          d = d\<lparr>dreg_prev_registered_at := dr_registered_at x,
                dreg_prev_voting_power := dr_voting_power x, dreg_prev_deposit := dr_deposit x\<rparr>;
          x = x\<lparr>dr_registered_at := Some (dreg_slot d, dreg_txorder d),
                dr_voting_power := dreg_deposit d, dr_deposit := dreg_deposit d\<rparr>
      in Some (d, Some x))"

definition drep_registration_undo :: "(drep_registration, drep_state) undo_fn" where
  "drep_registration_undo d entity =
     (if dreg_was_new d then Some None
      else do {
        x \<leftarrow> entity;
        Some (Some (x\<lparr>dr_registered_at := dreg_prev_registered_at d,
                      dr_voting_power := dreg_prev_voting_power d, dr_deposit := dreg_prev_deposit d\<rparr>))
      })"

record drep_unregistration =
  dun_drep :: drep
  dun_slot :: block_slot
  dun_txorder :: tx_order
  dun_prev_voting_power :: "u64 option"
  dun_prev_deposit :: "u64 option"
  dun_prev_unregistered_at :: "(block_slot \<times> tx_order) option"

definition drep_unregistration_new :: "drep \<Rightarrow> block_slot \<Rightarrow> tx_order \<Rightarrow> drep_unregistration" where
  "drep_unregistration_new dr slot order = \<lparr>dun_drep = dr, dun_slot = slot, dun_txorder = order,
     dun_prev_voting_power = None, dun_prev_deposit = None, dun_prev_unregistered_at = None\<rparr>"

definition drep_unregistration_key :: "drep_unregistration \<Rightarrow> ns_key" where
  "drep_unregistration_key d = (drep_ns, drep_to_entity_key (dun_drep d))"

definition drep_unregistration_apply :: "(drep_unregistration, drep_state) apply_fn" where
  "drep_unregistration_apply d entity = do {
     x \<leftarrow> entity;
     let d = d\<lparr>dun_prev_voting_power := Some (dr_voting_power x),
               dun_prev_unregistered_at := dr_unregistered_at x,
               dun_prev_deposit := Some (dr_deposit x)\<rparr>;
     Some (d, Some (x\<lparr>dr_voting_power := 0, dr_unregistered_at := Some (dun_slot d, dun_txorder d),
                      dr_deposit := 0\<rparr>))
   }"

definition drep_unregistration_undo :: "(drep_unregistration, drep_state) undo_fn" where
  "drep_unregistration_undo d entity = do {
     x \<leftarrow> entity;
     Some (Some (x\<lparr>dr_voting_power := case_option 0 id (dun_prev_voting_power d),
                   dr_unregistered_at := dun_prev_unregistered_at d,
                   dr_deposit := case_option 0 id (dun_prev_deposit d)\<rparr>))
   }"

record drep_activity =
  dact_drep :: drep
  dact_slot :: u64
  dact_previous_last_active_slot :: "u64 option"
  dact_was_new :: bool

definition drep_activity_new :: "drep \<Rightarrow> u64 \<Rightarrow> drep_activity" where
  "drep_activity_new dr slot = \<lparr>dact_drep = dr, dact_slot = slot,
     dact_previous_last_active_slot = None, dact_was_new = False\<rparr>"

definition drep_activity_key :: "drep_activity \<Rightarrow> ns_key" where
  "drep_activity_key d = (drep_ns, drep_to_entity_key (dact_drep d))"

definition drep_activity_apply :: "(drep_activity, drep_state) apply_fn" where
  "drep_activity_apply d entity =
     (let d = d\<lparr>dact_was_new := (entity = None)\<rparr>;
          x = get_or_insert entity (drep_state_new (dact_drep d));
          d = d\<lparr>dact_previous_last_active_slot := dr_last_active_slot x\<rparr>
      in Some (d, Some (x\<lparr>dr_last_active_slot := Some (dact_slot d)\<rparr>)))"

definition drep_activity_undo :: "(drep_activity, drep_state) undo_fn" where
  "drep_activity_undo d entity =
     (if dact_was_new d then Some None
      else Some (map_option (\<lambda>x. x\<lparr>dr_last_active_slot := dact_previous_last_active_slot d\<rparr>) entity))"

record drep_anchor_update =
  dau_drep :: drep
  dau_anchor :: "anchor option"
  dau_was_new :: bool
  dau_prev_anchor :: "anchor option"

definition drep_anchor_update_new :: "drep \<Rightarrow> anchor option \<Rightarrow> drep_anchor_update" where
  "drep_anchor_update_new dr anchor = \<lparr>dau_drep = dr, dau_anchor = anchor, dau_was_new = False,
     dau_prev_anchor = None\<rparr>"

definition drep_anchor_update_key :: "drep_anchor_update \<Rightarrow> ns_key" where
  "drep_anchor_update_key d = (drep_ns, drep_to_entity_key (dau_drep d))"

definition drep_anchor_update_apply :: "(drep_anchor_update, drep_state) apply_fn" where
  "drep_anchor_update_apply d entity =
     (let d = d\<lparr>dau_was_new := (entity = None)\<rparr>;
          x = get_or_insert entity (drep_state_new (dau_drep d));
          d = d\<lparr>dau_prev_anchor := dr_anchor x\<rparr>
      in Some (d, Some (x\<lparr>dr_anchor := dau_anchor d\<rparr>)))"

definition drep_anchor_update_undo :: "(drep_anchor_update, drep_state) undo_fn" where
  "drep_anchor_update_undo d entity =
     (if dau_was_new d then Some None
      else Some (map_option (\<lambda>x. x\<lparr>dr_anchor := dau_prev_anchor d\<rparr>) entity))"

record drep_expiration =
  dexp_drep_id :: entity_key
  dexp_prev_expired :: bool

definition drep_expiration_new :: "entity_key \<Rightarrow> drep_expiration" where
  "drep_expiration_new i = \<lparr>dexp_drep_id = i, dexp_prev_expired = False\<rparr>"

definition drep_expiration_key :: "drep_expiration \<Rightarrow> ns_key" where
  "drep_expiration_key d = (drep_ns, dexp_drep_id d)"

definition drep_expiration_apply :: "(drep_expiration, drep_state) apply_fn" where
  "drep_expiration_apply d entity = do {
     x \<leftarrow> entity;
     let d = d\<lparr>dexp_prev_expired := dr_expired x\<rparr>;
     Some (d, Some (x\<lparr>dr_expired := True\<rparr>))
   }"

definition drep_expiration_undo :: "(drep_expiration, drep_state) undo_fn" where
  "drep_expiration_undo d entity =
     Some (map_option (\<lambda>x. x\<lparr>dr_expired := dexp_prev_expired d\<rparr>) entity)"

record drep_expiry_update =
  deu_drep :: drep
  deu_expiry :: epoch
  deu_epoch :: epoch
  deu_only_if_registered :: bool
  deu_applied :: bool
  deu_was_new :: bool
  deu_prev_expiry :: "drep_expiry option"
  deu_prev_expired :: bool

definition drep_expiry_update_new :: "drep \<Rightarrow> epoch \<Rightarrow> epoch \<Rightarrow> bool \<Rightarrow> drep_expiry_update" where
  "drep_expiry_update_new dr expiry e only_if_registered = \<lparr>deu_drep = dr, deu_expiry = expiry,
     deu_epoch = e, deu_only_if_registered = only_if_registered, deu_applied = False,
     deu_was_new = False, deu_prev_expiry = None, deu_prev_expired = False\<rparr>"

definition drep_expiry_update_key :: "drep_expiry_update \<Rightarrow> ns_key" where
  "drep_expiry_update_key d = (drep_ns, drep_to_entity_key (deu_drep d))"

text \<open>The guard of \<^verbatim>\<open>only_if_registered\<close>.\<close>

definition drep_registered :: "drep_state option \<Rightarrow> bool" where
  "drep_registered entity =
     (case entity of None \<Rightarrow> False | Some x \<Rightarrow> dr_registered_at x \<noteq> None \<and> \<not> is_unregistered x)"

definition drep_expiry_update_apply :: "(drep_expiry_update, drep_state) apply_fn" where
  "drep_expiry_update_apply d entity =
     (if deu_only_if_registered d \<and> \<not> drep_registered entity
      then Some (d\<lparr>deu_applied := False, deu_was_new := False\<rparr>, entity)
      else
        let d = d\<lparr>deu_was_new := (entity = None)\<rparr>;
            x = get_or_insert entity (drep_state_new (deu_drep d));
            d = d\<lparr>deu_prev_expiry := dr_expiry x, deu_prev_expired := dr_expired x\<rparr>;
            x = (case dr_expiry x of
                   Some y \<Rightarrow> x\<lparr>dr_expiry := Some (drep_expiry_set y (deu_expiry d) (deu_epoch d))\<rparr>
                 | None \<Rightarrow> x\<lparr>dr_expiry := Some (drep_expiry_new (deu_expiry d) (deu_epoch d))\<rparr>);
            x = x\<lparr>dr_expired := False\<rparr>;
            d = d\<lparr>deu_applied := True\<rparr>
        in Some (d, Some x))"

definition drep_expiry_update_undo :: "(drep_expiry_update, drep_state) undo_fn" where
  "drep_expiry_update_undo d entity =
     (if \<not> deu_applied d then Some entity
      else if deu_was_new d then Some None
      else Some (map_option (\<lambda>x. x\<lparr>dr_expiry := deu_prev_expiry d, dr_expired := deu_prev_expired d\<rparr>) entity))"

record drep_dormancy_release =
  ddr_drep_id :: entity_key
  ddr_dormant_epochs :: u64
  ddr_epoch :: epoch
  ddr_applied :: bool
  ddr_prev_expiry :: "drep_expiry option"

definition drep_dormancy_release_new :: "entity_key \<Rightarrow> u64 \<Rightarrow> epoch \<Rightarrow> drep_dormancy_release" where
  "drep_dormancy_release_new i dormant e = \<lparr>ddr_drep_id = i, ddr_dormant_epochs = dormant,
     ddr_epoch = e, ddr_applied = False, ddr_prev_expiry = None\<rparr>"

definition drep_dormancy_release_key :: "drep_dormancy_release \<Rightarrow> ns_key" where
  "drep_dormancy_release_key d = (drep_ns, ddr_drep_id d)"

definition drep_dormancy_release_apply :: "build \<Rightarrow> (drep_dormancy_release, drep_state) apply_fn" where
  "drep_dormancy_release_apply b d entity =
     (let d = d\<lparr>ddr_applied := False\<rparr>
      in case entity of
           None \<Rightarrow> Some (d, None)
         | Some x \<Rightarrow>
             if is_unregistered x then Some (d, Some x)
             else (case dr_expiry x of
                 None \<Rightarrow> Some (d, Some x)
               | Some expiry \<Rightarrow> do {
                   actual \<leftarrow> raw_add b (de_current expiry) (ddr_dormant_epochs d);
                   if actual < ddr_epoch d then Some (d, Some x)
                   else Some (d\<lparr>ddr_prev_expiry := Some expiry, ddr_applied := True\<rparr>,
                              Some (x\<lparr>dr_expiry := Some (drep_expiry_set expiry actual (ddr_epoch d))\<rparr>))
                 }))"

definition drep_dormancy_release_undo :: "(drep_dormancy_release, drep_state) undo_fn" where
  "drep_dormancy_release_undo d entity =
     (if \<not> ddr_applied d then Some entity
      else Some (map_option (\<lambda>x. x\<lparr>dr_expiry := ddr_prev_expiry d\<rparr>) entity))"

record drep_power_update =
  dpu_drep_id :: entity_key
  dpu_power :: u64
  dpu_prev_power :: u64

definition drep_power_update_new :: "entity_key \<Rightarrow> u64 \<Rightarrow> drep_power_update" where
  "drep_power_update_new i pw = \<lparr>dpu_drep_id = i, dpu_power = pw, dpu_prev_power = 0\<rparr>"

definition drep_power_update_key :: "drep_power_update \<Rightarrow> ns_key" where
  "drep_power_update_key d = (drep_ns, dpu_drep_id d)"

definition drep_power_update_apply :: "(drep_power_update, drep_state) apply_fn" where
  "drep_power_update_apply d entity = do {
     x \<leftarrow> entity;
     let d = d\<lparr>dpu_prev_power := dr_voting_power x\<rparr>;
     Some (d, Some (x\<lparr>dr_voting_power := dpu_power d\<rparr>))
   }"

definition drep_power_update_undo :: "(drep_power_update, drep_state) undo_fn" where
  "drep_power_update_undo d entity = do {
     x \<leftarrow> entity;
     Some (Some (x\<lparr>dr_voting_power := dpu_prev_power d\<rparr>))
   }"

section \<open>Every DRep delta is reversible\<close>

lemma drep_upd_id [simp]:
  "dr_registered_at x = a \<Longrightarrow> x\<lparr>dr_registered_at := a\<rparr> = x"
  "dr_voting_power x = v \<Longrightarrow> x\<lparr>dr_voting_power := v\<rparr> = x"
  "dr_last_active_slot x = l \<Longrightarrow> x\<lparr>dr_last_active_slot := l\<rparr> = x"
  "dr_unregistered_at x = u \<Longrightarrow> x\<lparr>dr_unregistered_at := u\<rparr> = x"
  "dr_expired x = z \<Longrightarrow> x\<lparr>dr_expired := z\<rparr> = x"
  "dr_deposit x = v \<Longrightarrow> x\<lparr>dr_deposit := v\<rparr> = x"
  "dr_anchor x = n \<Longrightarrow> x\<lparr>dr_anchor := n\<rparr> = x"
  "dr_expiry x = y \<Longrightarrow> x\<lparr>dr_expiry := y\<rparr> = x"
  by (cases x; auto)+

lemmas drep_delta_defs =
  drep_registration_apply_def drep_registration_undo_def drep_registration_key_def
  drep_unregistration_apply_def drep_unregistration_undo_def drep_unregistration_key_def
  drep_activity_apply_def drep_activity_undo_def drep_activity_key_def
  drep_anchor_update_apply_def drep_anchor_update_undo_def drep_anchor_update_key_def
  drep_expiration_apply_def drep_expiration_undo_def drep_expiration_key_def
  drep_expiry_update_apply_def drep_expiry_update_undo_def drep_expiry_update_key_def
  drep_dormancy_release_apply_def drep_dormancy_release_undo_def drep_dormancy_release_key_def
  drep_power_update_apply_def drep_power_update_undo_def drep_power_update_key_def

interpretation drep_registration: reversible_delta drep_registration_key
  drep_registration_apply drep_registration_undo "\<lambda>_. True" "\<lambda>_ _. True"
  by unfold_locales (auto simp: drep_delta_defs Let_def get_or_insert_def split: option.splits)

interpretation drep_unregistration: reversible_delta drep_unregistration_key
  drep_unregistration_apply drep_unregistration_undo "\<lambda>_. True" "\<lambda>_ _. True"
  by unfold_locales (auto simp: drep_delta_defs Let_def panic_simps)

interpretation drep_activity: reversible_delta drep_activity_key
  drep_activity_apply drep_activity_undo "\<lambda>_. True" "\<lambda>_ _. True"
  by unfold_locales (auto simp: drep_delta_defs Let_def get_or_insert_def split: option.splits)

interpretation drep_anchor_update: reversible_delta drep_anchor_update_key
  drep_anchor_update_apply drep_anchor_update_undo "\<lambda>_. True" "\<lambda>_ _. True"
  by unfold_locales (auto simp: drep_delta_defs Let_def get_or_insert_def split: option.splits)

interpretation drep_expiration: reversible_delta drep_expiration_key
  drep_expiration_apply drep_expiration_undo "\<lambda>_. True" "\<lambda>_ _. True"
  by unfold_locales (auto simp: drep_delta_defs Let_def panic_simps)

interpretation drep_expiry_update: reversible_delta drep_expiry_update_key
  drep_expiry_update_apply drep_expiry_update_undo "\<lambda>_. True" "\<lambda>_ _. True"
  by unfold_locales
    (auto simp: drep_delta_defs Let_def get_or_insert_def split: option.splits if_splits)

lemma drep_dormancy_release_cases:
  assumes "drep_dormancy_release_apply b d e = Some (d', e')"
  obtains (kept) "d' = d\<lparr>ddr_applied := False\<rparr>" "e' = e"
  | (released) x expiry y where "e = Some x" "dr_expiry x = Some expiry"
      "d' = d\<lparr>ddr_prev_expiry := Some expiry, ddr_applied := True\<rparr>" "e' = Some (x\<lparr>dr_expiry := Some y\<rparr>)"
proof (cases e)
  case None
  with assms kept show thesis by (simp add: drep_dormancy_release_apply_def)
next
  case (Some x)
  note run = assms [unfolded drep_dormancy_release_apply_def Let_def Some option.case]
  show thesis
  proof (cases "is_unregistered x \<or> dr_expiry x = None")
    case True
    with run kept Some show thesis by (cases "dr_expiry x") (simp_all split: if_splits)
  next
    case False
    then obtain expiry where expiry: "dr_expiry x = Some expiry" and reg: "\<not> is_unregistered x" by auto
    from run obtain actual where actual: "raw_add b (de_current expiry) (ddr_dormant_epochs d) = Some actual"
      by (auto simp: reg expiry bind_Some_iff)
    show thesis
    proof (cases "actual < ddr_epoch d")
      case True
      with run kept Some show thesis by (simp add: reg expiry actual)
    next
      case False
      with run have "d' = d\<lparr>ddr_prev_expiry := Some expiry, ddr_applied := True\<rparr>"
          and "e' = Some (x\<lparr>dr_expiry := Some (drep_expiry_set expiry actual (ddr_epoch d))\<rparr>)"
        by (auto simp: reg expiry actual)
      then show thesis by (rule released [OF Some expiry])
    qed
  qed
qed

interpretation drep_dormancy_release: reversible_delta drep_dormancy_release_key
  "drep_dormancy_release_apply b" drep_dormancy_release_undo "\<lambda>_. True" "\<lambda>_ _. True"
  by unfold_locales
    (erule drep_dormancy_release_cases; simp add: drep_dormancy_release_key_def drep_dormancy_release_undo_def)+

interpretation drep_power_update: reversible_delta drep_power_update_key
  drep_power_update_apply drep_power_update_undo "\<lambda>_. True" "\<lambda>_ _. True"
  by unfold_locales (auto simp: drep_delta_defs Let_def panic_simps)

section \<open>The expiry is snapshot-safe\<close>

text \<open>
  A sequence of writes, each with its value and the epoch it is made in. Its meaning: the value
  at the end of epoch \<open>e\<close> is the one of the last write made in an epoch up to \<open>e\<close>.
\<close>

fun expiry_writes :: "drep_expiry \<Rightarrow> (epoch \<times> epoch) list \<Rightarrow> drep_expiry" where
  "expiry_writes x [] = x"
| "expiry_writes x ((value, e) # ws) = expiry_writes (drep_expiry_set x value e) ws"

definition last_value :: "(epoch \<times> epoch) list \<Rightarrow> epoch option" where
  "last_value ws = (if ws = [] then None else Some (fst (last ws)))"

definition expiry_history :: "epoch \<Rightarrow> (epoch \<times> epoch) list \<Rightarrow> epoch option" where
  "expiry_history e ws = last_value (filter (\<lambda>w. snd w \<le> e) ws)"

lemma expiry_writes_snoc:
  "expiry_writes x (ws @ [(v, e)]) = drep_expiry_set (expiry_writes x ws) v e"
  by (induction ws arbitrary: x) auto

lemma expiry_history_snoc:
  "expiry_history e (ws @ [(v, w)]) = (if w \<le> e then Some v else expiry_history e ws)"
  by (simp add: expiry_history_def last_value_def)

text \<open>
  After writes in increasing epochs, the slots hold the last write and the value of the last
  write of an earlier epoch.
\<close>

lemma expiry_writes_slots:
  fixes v0 e0 ws
  defines "all \<equiv> (v0, e0) # ws" and "x \<equiv> expiry_writes (drep_expiry_new v0 e0) ws"
  assumes "sorted (map snd all)"
  shows "de_updated_in x = snd (last all) \<and> de_current x = fst (last all)
    \<and> de_prev x = last_value (filter (\<lambda>w. snd w < snd (last all)) all)"
  using assms(3) unfolding assms(1,2)
proof (induction ws rule: rev_induct)
  case Nil
  show ?case by (simp add: drep_expiry_new_def last_value_def)
next
  case (snoc y ws)
  obtain v e where y: "y = (v, e)" by (cases y)
  define prefix where "prefix = (v0, e0) # ws"
  have whole: "(v0, e0) # ws @ [y] = prefix @ [(v, e)]" and "prefix \<noteq> []"
    by (simp_all add: prefix_def y)
  have s: "sorted (map snd prefix)" and le: "\<forall>w \<in> set prefix. snd w \<le> e"
    using snoc.prems by (auto simp: whole sorted_append)
  note IH = snoc.IH [folded prefix_def, OF s]
  show ?case
  proof (cases "snd (last prefix) = e")
    case True
    with IH \<open>prefix \<noteq> []\<close> show ?thesis
      unfolding whole by (simp add: y expiry_writes_snoc drep_expiry_set_def)
  next
    case False
    have "snd w \<le> snd (last prefix)" if "w \<in> set prefix" for w
    proof -
      obtain us u where us: "prefix = us @ [u]" using \<open>prefix \<noteq> []\<close> by (cases prefix rule: rev_cases) auto
      show ?thesis using s that by (auto simp: us sorted_append)
    qed
    moreover have "snd (last prefix) < e" using False le \<open>prefix \<noteq> []\<close> by (simp add: order.not_eq_order_implies_strict)
    ultimately have "\<forall>w \<in> set prefix. snd w < e" by force
    then have "filter (\<lambda>w. snd w < e) prefix = prefix" by simp
    with False IH \<open>prefix \<noteq> []\<close> show ?thesis
      unfolding whole by (simp add: y expiry_writes_snoc drep_expiry_set_def last_value_def)
  qed
qed

text \<open>Reads that look back at most one epoch from the last write see the history.\<close>

lemma drep_expiry_as_of_history:
  assumes "sorted (map snd ((v0, e0) # ws))"
    and "unat (snd (last ((v0, e0) # ws))) \<le> unat e + 1"
  shows "drep_expiry_as_of (expiry_writes (drep_expiry_new v0 e0) ws) e = expiry_history e ((v0, e0) # ws)"
proof -
  let ?all = "(v0, e0) # ws" and ?x = "expiry_writes (drep_expiry_new v0 e0) ws"
  note slots = expiry_writes_slots [OF assms(1)]
  show ?thesis
  proof (cases "snd (last ?all) \<le> e")
    case True
    have "?all = butlast ?all @ [(fst (last ?all), snd (last ?all))]" by simp
    then have "expiry_history e ?all = Some (fst (last ?all))"
      using True by (metis expiry_history_snoc)
    with True slots show ?thesis by (simp add: drep_expiry_as_of_def)
  next
    case False
    with assms(2) have "unat (snd (last ?all)) = unat e + 1" by (simp add: word_le_nat_alt)
    then have "(w < snd (last ?all)) = (w \<le> e)" for w
      by (simp add: word_less_nat_alt word_le_nat_alt less_Suc_eq_le)
    then have "expiry_history e ?all = de_prev ?x"
      using slots by (simp only: expiry_history_def)
    with False slots show ?thesis by (simp add: drep_expiry_as_of_def)
  qed
qed

section \<open>Properties\<close>

text \<open>
  C34. The expiry of a DRep can be read as of the previous epoch. After writes in non-decreasing
  epochs, reading as of an epoch no earlier than the one before the last write gives the value of the
  last write made up to that epoch, although only two values are stored.
\<close>

theorem drep_expiry_reads_history:
  assumes "sorted (map snd ((v0, e0) # ws))" and "unat (snd (last ((v0, e0) # ws))) \<le> unat e + 1"
  shows "drep_expiry_as_of (expiry_writes (drep_expiry_new v0 e0) ws) e = expiry_history e ((v0, e0) # ws)"
  by (rule drep_expiry_as_of_history [OF assms])

theorem drep_expiry_reads_history_witness:
  "drep_expiry_as_of (expiry_writes (drep_expiry_new 100 5) [(101, 6), (102, 6), (110, 8)]) 7
     = expiry_history 7 [(100, 5), (101, 6), (102, 6), (110, 8)] \<and>
   expiry_history 7 [(100, 5), (101, 6), (102, 6), (110, 8)] = Some 102"
  using drep_expiry_reads_history [of 100 5 "[(101, 6), (102, 6), (110, 8)]" 7]
  by (simp add: expiry_history_def last_value_def)

end
