(* ===== verification/Pending.thy ===== *)
theory Pending
  imports Entity_Delta Ledger_Types
begin

text \<open>
  Pending rewards and MIRs (\<^verbatim>\<open>crates/cardano/src/model/pending.rs\<close>): the two
  queues that wait for the epoch boundary, and the four deltas that fill and drain them.
\<close>

section \<open>The entities\<close>

definition credential_to_key :: "cred_codec \<Rightarrow> stake_credential \<Rightarrow> entity_key" where
  "credential_to_key enc cred = entity_key_from (enc cred)"

record pending_reward_state =
  prs_credential :: stake_credential
  prs_is_spendable :: bool
  prs_as_leader :: "(pool_hash \<times> u64) list"
  prs_as_delegator :: "(pool_hash \<times> u64) list"

definition pending_reward_ns :: namespace where
  "pending_reward_ns = ''pending_rewards''"

text \<open>\<^verbatim>\<open>iter().sum()\<close>: the plain addition from zero.\<close>

fun sum_raw :: "build \<Rightarrow> u64 \<Rightarrow> u64 list \<Rightarrow> u64 option" where
  "sum_raw b acc [] = Some acc"
| "sum_raw b acc (x # xs) = do {acc \<leftarrow> raw_add b acc x; sum_raw b acc xs}"

definition reward_total_value :: "build \<Rightarrow> pending_reward_state \<Rightarrow> u64 option" where
  "reward_total_value b r = do {
     leader \<leftarrow> sum_raw b 0 (map snd (prs_as_leader r));
     delegator \<leftarrow> sum_raw b 0 (map snd (prs_as_delegator r));
     raw_add b leader delegator
   }"

definition into_log_entries :: "pending_reward_state \<Rightarrow> (pool_hash \<times> u64 \<times> bool) list" where
  "into_log_entries r =
     map (\<lambda>(p, v). (p, v, True)) (prs_as_leader r) @ map (\<lambda>(p, v). (p, v, False)) (prs_as_delegator r)"

record pending_mir_state =
  pms_credential :: stake_credential
  pms_from_reserves :: u64
  pms_from_treasury :: u64

definition pending_mir_ns :: namespace where
  "pending_mir_ns = ''pending_mirs''"

definition mir_total_value :: "build \<Rightarrow> pending_mir_state \<Rightarrow> u64 option" where
  "mir_total_value b m = raw_add b (pms_from_reserves m) (pms_from_treasury m)"

section \<open>Deltas\<close>

record enqueue_reward =
  er_credential :: stake_credential
  er_is_spendable :: bool
  er_as_leader :: "(pool_hash \<times> u64) list"
  er_as_delegator :: "(pool_hash \<times> u64) list"
  er_prev :: "pending_reward_state option"

definition enqueue_reward_new :: "stake_credential \<Rightarrow> bool \<Rightarrow> (pool_hash \<times> u64) list
    \<Rightarrow> (pool_hash \<times> u64) list \<Rightarrow> enqueue_reward" where
  "enqueue_reward_new cred spendable leader delegator = \<lparr>er_credential = cred,
     er_is_spendable = spendable, er_as_leader = leader, er_as_delegator = delegator, er_prev = None\<rparr>"

definition enqueue_reward_key :: "cred_codec \<Rightarrow> enqueue_reward \<Rightarrow> ns_key" where
  "enqueue_reward_key enc d = (pending_reward_ns, credential_to_key enc (er_credential d))"

definition enqueue_reward_apply :: "(enqueue_reward, pending_reward_state) apply_fn" where
  "enqueue_reward_apply d entity =
     (let d = d\<lparr>er_prev := entity\<rparr>
      in Some (d, Some \<lparr>prs_credential = er_credential d, prs_is_spendable = er_is_spendable d,
           prs_as_leader = er_as_leader d, prs_as_delegator = er_as_delegator d\<rparr>))"

definition enqueue_reward_undo :: "(enqueue_reward, pending_reward_state) undo_fn" where
  "enqueue_reward_undo d entity = Some (er_prev d)"

record dequeue_reward =
  dqr_credential :: stake_credential
  dqr_prev :: "pending_reward_state option"

definition dequeue_reward_new :: "stake_credential \<Rightarrow> dequeue_reward" where
  "dequeue_reward_new cred = \<lparr>dqr_credential = cred, dqr_prev = None\<rparr>"

definition dequeue_reward_key :: "cred_codec \<Rightarrow> dequeue_reward \<Rightarrow> ns_key" where
  "dequeue_reward_key enc d = (pending_reward_ns, credential_to_key enc (dqr_credential d))"

definition dequeue_reward_apply :: "(dequeue_reward, pending_reward_state) apply_fn" where
  "dequeue_reward_apply d entity = Some (d\<lparr>dqr_prev := entity\<rparr>, None)"

definition dequeue_reward_undo :: "(dequeue_reward, pending_reward_state) undo_fn" where
  "dequeue_reward_undo d entity = Some (dqr_prev d)"

record enqueue_mir =
  em_credential :: stake_credential
  em_from_reserves :: u64
  em_from_treasury :: u64
  em_overwrite :: bool
  em_prev :: "pending_mir_state option"

definition enqueue_mir_new :: "stake_credential \<Rightarrow> u64 \<Rightarrow> u64 \<Rightarrow> bool \<Rightarrow> enqueue_mir" where
  "enqueue_mir_new cred from_reserves from_treasury overwrite = \<lparr>em_credential = cred,
     em_from_reserves = from_reserves, em_from_treasury = from_treasury, em_overwrite = overwrite,
     em_prev = None\<rparr>"

definition enqueue_mir_from_reserves :: "stake_credential \<Rightarrow> u64 \<Rightarrow> bool \<Rightarrow> enqueue_mir" where
  "enqueue_mir_from_reserves cred amount overwrite = enqueue_mir_new cred amount 0 overwrite"

definition enqueue_mir_from_treasury :: "stake_credential \<Rightarrow> u64 \<Rightarrow> bool \<Rightarrow> enqueue_mir" where
  "enqueue_mir_from_treasury cred amount overwrite = enqueue_mir_new cred 0 amount overwrite"

definition enqueue_mir_key :: "cred_codec \<Rightarrow> enqueue_mir \<Rightarrow> ns_key" where
  "enqueue_mir_key enc d = (pending_mir_ns, credential_to_key enc (em_credential d))"

definition enqueue_mir_apply :: "build \<Rightarrow> (enqueue_mir, pending_mir_state) apply_fn" where
  "enqueue_mir_apply b d entity =
     (let d = d\<lparr>em_prev := entity\<rparr>;
          written = \<lparr>pms_credential = em_credential d, pms_from_reserves = em_from_reserves d,
                     pms_from_treasury = em_from_treasury d\<rparr>
      in if em_overwrite d then Some (d, Some written)
         else case entity of
             Some existing \<Rightarrow> do {
               r \<leftarrow> raw_add b (pms_from_reserves existing) (em_from_reserves d);
               t \<leftarrow> raw_add b (pms_from_treasury existing) (em_from_treasury d);
               Some (d, Some (existing\<lparr>pms_from_reserves := r, pms_from_treasury := t\<rparr>))
             }
           | None \<Rightarrow> Some (d, Some written))"

definition enqueue_mir_undo :: "(enqueue_mir, pending_mir_state) undo_fn" where
  "enqueue_mir_undo d entity = Some (em_prev d)"

record dequeue_mir =
  dqm_credential :: stake_credential
  dqm_prev :: "pending_mir_state option"

definition dequeue_mir_new :: "stake_credential \<Rightarrow> dequeue_mir" where
  "dequeue_mir_new cred = \<lparr>dqm_credential = cred, dqm_prev = None\<rparr>"

definition dequeue_mir_key :: "cred_codec \<Rightarrow> dequeue_mir \<Rightarrow> ns_key" where
  "dequeue_mir_key enc d = (pending_mir_ns, credential_to_key enc (dqm_credential d))"

definition dequeue_mir_apply :: "(dequeue_mir, pending_mir_state) apply_fn" where
  "dequeue_mir_apply d entity = Some (d\<lparr>dqm_prev := entity\<rparr>, None)"

definition dequeue_mir_undo :: "(dequeue_mir, pending_mir_state) undo_fn" where
  "dequeue_mir_undo d entity = Some (dqm_prev d)"

section \<open>Every queue delta is reversible\<close>

lemmas pending_delta_defs =
  enqueue_reward_apply_def enqueue_reward_undo_def enqueue_reward_key_def
  dequeue_reward_apply_def dequeue_reward_undo_def dequeue_reward_key_def
  enqueue_mir_apply_def enqueue_mir_undo_def enqueue_mir_key_def
  dequeue_mir_apply_def dequeue_mir_undo_def dequeue_mir_key_def

interpretation enqueue_reward: reversible_delta "enqueue_reward_key enc"
  enqueue_reward_apply enqueue_reward_undo "\<lambda>_. True" "\<lambda>_ _. True"
  by unfold_locales (auto simp: pending_delta_defs Let_def)

interpretation dequeue_reward: reversible_delta "dequeue_reward_key enc"
  dequeue_reward_apply dequeue_reward_undo "\<lambda>_. True" "\<lambda>_ _. True"
  by unfold_locales (auto simp: pending_delta_defs)

interpretation enqueue_mir: reversible_delta "enqueue_mir_key enc"
  "enqueue_mir_apply b" enqueue_mir_undo "\<lambda>_. True" "\<lambda>_ _. True"
  by unfold_locales (auto simp: pending_delta_defs panic_simps Let_def split: if_splits option.splits)

interpretation dequeue_mir: reversible_delta "dequeue_mir_key enc"
  dequeue_mir_apply dequeue_mir_undo "\<lambda>_. True" "\<lambda>_ _. True"
  by unfold_locales (auto simp: pending_delta_defs)

section \<open>Totals\<close>

lemma sum_raw_exact:
  assumes "unat acc + sum_list (map unat xs) < 2 ^ 64"
  shows "\<exists>t. sum_raw b acc xs = Some t \<and> unat t = unat acc + sum_list (map unat xs)"
  using assms
proof (induction xs arbitrary: acc)
  case Nil
  then show ?case by simp
next
  case (Cons x xs)
  have fits: "unat acc + unat x < 2 ^ LENGTH(64)" using Cons.prems by simp
  then have "raw_add b acc x = Some (acc + x)" by (simp add: raw_add_def checked_add_def)
  moreover have "unat (acc + x) = unat acc + unat x" using fits by (rule unat_add_no_overflow)
  ultimately show ?case using Cons.IH [of "acc + x"] Cons.prems by (simp add: add.assoc)
qed

text \<open>
  The logged entries of a pending reward account for its whole value, when the value fits.
\<close>

lemma reward_total_value_log:
  assumes "(\<Sum>(_, v, _) \<leftarrow> into_log_entries r. unat v) < 2 ^ 64"
  shows "\<exists>t. reward_total_value b r = Some t \<and> unat t = (\<Sum>(_, v, _) \<leftarrow> into_log_entries r. unat v)"
proof -
  let ?l = "sum_list (map unat (map snd (prs_as_leader r)))"
  let ?d = "sum_list (map unat (map snd (prs_as_delegator r)))"
  have split: "(\<Sum>(_, v, _) \<leftarrow> into_log_entries r. unat v) = ?l + ?d"
    by (simp add: into_log_entries_def comp_def case_prod_unfold)
  obtain l where l: "sum_raw b 0 (map snd (prs_as_leader r)) = Some l" "unat l = ?l"
    using sum_raw_exact [of 0 "map snd (prs_as_leader r)" b] assms split by auto
  obtain d where d: "sum_raw b 0 (map snd (prs_as_delegator r)) = Some d" "unat d = ?d"
    using sum_raw_exact [of 0 "map snd (prs_as_delegator r)" b] assms split by auto
  have fits: "unat l + unat d < 2 ^ LENGTH(64)" using assms split l(2) d(2) by simp
  then have "raw_add b l d = Some (l + d)" by (simp add: raw_add_def checked_add_def)
  with l d split unat_add_no_overflow [OF fits] show ?thesis by (simp add: reward_total_value_def)
qed

section \<open>Properties\<close>

text \<open>
  The entries a pending reward is logged with account for its whole value: the total the
  boundary pays is, in every build, the sum of the logged amounts, when that sum fits 64 bits.
\<close>

theorem pending_reward_log_complete:
  assumes "(\<Sum>(_, v, _) \<leftarrow> into_log_entries r. unat v) < 2 ^ 64"
  shows "\<exists>t. reward_total_value b r = Some t \<and> unat t = (\<Sum>(_, v, _) \<leftarrow> into_log_entries r. unat v)"
  by (rule reward_total_value_log [OF assms])

definition sample_reward :: pending_reward_state where
  "sample_reward = \<lparr>prs_credential = AddrKeyhash 1, prs_is_spendable = True,
     prs_as_leader = [(2, 30)], prs_as_delegator = [(2, 12), (3, 5)]\<rparr>"

theorem pending_reward_log_complete_witness:
  "\<exists>t. reward_total_value \<lparr>strict = True, overflow_checks = True\<rparr> sample_reward = Some t \<and> unat t = 47"
  using pending_reward_log_complete [of sample_reward "\<lparr>strict = True, overflow_checks = True\<rparr>"]
  by (simp add: sample_reward_def into_log_entries_def)

end
