(* ===== verification/Datums.thy ===== *)
theory Datums
  imports Entity_Delta
begin

text \<open>
  Witness datums (\<^verbatim>\<open>crates/cardano/src/model/datums.rs\<close>): reference-counted datums
  and the two deltas that count references up and down.
\<close>

section \<open>The entity\<close>

record datum_state =
  dt_refcount :: u64
  dt_bytes :: bytes

definition datum_ns :: namespace where
  "datum_ns = ''datums''"

definition datum_state_new :: "bytes \<Rightarrow> datum_state" where
  "datum_state_new bs = \<lparr>dt_refcount = 1, dt_bytes = bs\<rparr>"

definition datum_hash_key :: "hash32 \<Rightarrow> ns_key" where
  "datum_hash_key h = (datum_ns, entity_key_from (word_bytes h))"

section \<open>Deltas\<close>

record datum_ref_increment =
  dri_datum_hash :: hash32
  dri_datum_bytes :: bytes
  dri_was_new :: bool

definition datum_ref_increment_new :: "hash32 \<Rightarrow> bytes \<Rightarrow> datum_ref_increment" where
  "datum_ref_increment_new h bs = \<lparr>dri_datum_hash = h, dri_datum_bytes = bs, dri_was_new = False\<rparr>"

definition datum_ref_increment_key :: "datum_ref_increment \<Rightarrow> ns_key" where
  "datum_ref_increment_key d = datum_hash_key (dri_datum_hash d)"

definition datum_ref_increment_apply :: "(datum_ref_increment, datum_state) apply_fn" where
  "datum_ref_increment_apply d entity =
     (case entity of
        Some s \<Rightarrow> Some (d\<lparr>dri_was_new := False\<rparr>,
                        Some (s\<lparr>dt_refcount := saturating_add (dt_refcount s) 1\<rparr>))
      | None \<Rightarrow> Some (d\<lparr>dri_was_new := True\<rparr>, Some (datum_state_new (dri_datum_bytes d))))"

definition datum_ref_increment_undo :: "(datum_ref_increment, datum_state) undo_fn" where
  "datum_ref_increment_undo d entity =
     (if dri_was_new d then Some None
      else Some (map_option (\<lambda>s. s\<lparr>dt_refcount := saturating_sub (dt_refcount s) 1\<rparr>) entity))"

record datum_ref_decrement =
  drd_datum_hash :: hash32
  drd_prev_state :: "datum_state option"

definition datum_ref_decrement_new :: "hash32 \<Rightarrow> datum_ref_decrement" where
  "datum_ref_decrement_new h = \<lparr>drd_datum_hash = h, drd_prev_state = None\<rparr>"

definition datum_ref_decrement_key :: "datum_ref_decrement \<Rightarrow> ns_key" where
  "datum_ref_decrement_key d = datum_hash_key (drd_datum_hash d)"

definition datum_ref_decrement_apply :: "(datum_ref_decrement, datum_state) apply_fn" where
  "datum_ref_decrement_apply d entity =
     (case entity of
        None \<Rightarrow> Some (d, None)
      | Some s \<Rightarrow>
          let d = d\<lparr>drd_prev_state := Some s\<rparr>
          in if dt_refcount s \<le> 1 then Some (d, None)
             else Some (d, Some (s\<lparr>dt_refcount := dt_refcount s - 1\<rparr>)))"

definition datum_ref_decrement_undo :: "(datum_ref_decrement, datum_state) undo_fn" where
  "datum_ref_decrement_undo d entity = Some (drd_prev_state d)"

section \<open>Reversibility\<close>

lemma datum_upd_id [simp]: "dt_refcount s = n \<Longrightarrow> s\<lparr>dt_refcount := n\<rparr> = s"
  by (cases s) auto

lemma saturating_add_sub_1:
  fixes x :: "'a::len word"
  assumes "x \<noteq> - 1"
  shows "saturating_sub (saturating_add x 1) 1 = x"
proof -
  have "unat x + 1 < 2 ^ LENGTH('a)"
  proof (rule ccontr)
    assume "\<not> unat x + 1 < 2 ^ LENGTH('a)"
    with unsigned_less [where 'a = nat, of x] have "unat x + 1 = 2 ^ LENGTH('a)" by linarith
    then have "unat (x + 1) = 0" by (simp add: unat_word_ariths)
    then have "x + 1 = 0" by (simp only: unat_eq_0)
    then have "x = - 1" by (simp only: eq_neg_iff_add_eq_0)
    with assms show False by simp
  qed
  moreover have "unat (1 :: 'a word) = 1" by simp
  ultimately have "saturating_add x 1 = x + 1" and "unat (x + 1) = unat x + 1"
    by (simp_all add: saturating_add_def unat_add_no_overflow)
  then show ?thesis by (simp add: saturating_sub_def word_le_nat_alt)
qed

lemmas datum_delta_defs =
  datum_ref_increment_apply_def datum_ref_increment_undo_def datum_ref_increment_key_def
  datum_ref_decrement_apply_def datum_ref_decrement_undo_def datum_ref_decrement_key_def

text \<open>
  The count saturates at the largest word, where an increment is lost; and a decrement keeps its
  \<^verbatim>\<open>prev_state\<close> when there is no datum, so its constructor's value is needed.
\<close>

definition count_not_full :: "datum_ref_increment \<Rightarrow> datum_state option \<Rightarrow> bool" where
  "count_not_full d e = (case e of None \<Rightarrow> True | Some s \<Rightarrow> dt_refcount s \<noteq> - 1)"

interpretation datum_ref_increment: reversible_delta datum_ref_increment_key
  datum_ref_increment_apply datum_ref_increment_undo "\<lambda>_. True" count_not_full
  by unfold_locales
    (auto simp: datum_delta_defs count_not_full_def saturating_add_sub_1 split: option.splits)

interpretation datum_ref_decrement: reversible_delta datum_ref_decrement_key
  datum_ref_decrement_apply datum_ref_decrement_undo "\<lambda>d. drd_prev_state d = None" "\<lambda>_ _. True"
  by unfold_locales (auto simp: datum_delta_defs Let_def split: option.splits if_splits)

section \<open>Counting references\<close>

text \<open>
  The specification: a count of live references, the datum present exactly when it is positive.
\<close>

definition counts :: "bytes \<Rightarrow> nat \<Rightarrow> datum_state option \<Rightarrow> bool" where
  "counts bs n e = (if n = 0 then e = None
     else \<exists>s. e = Some s \<and> unat (dt_refcount s) = n \<and> dt_bytes s = bs)"

datatype ref_change = RefUp | RefDown

text \<open>A sequence of changes to one datum, each made by its delta.\<close>

fun run_refs :: "hash32 \<Rightarrow> bytes \<Rightarrow> ref_change list \<Rightarrow> datum_state option \<Rightarrow> datum_state option option" where
  "run_refs h bs [] e = Some e"
| "run_refs h bs (RefUp # cs) e = do {
     (_, e') \<leftarrow> datum_ref_increment_apply (datum_ref_increment_new h bs) e;
     run_refs h bs cs e'
   }"
| "run_refs h bs (RefDown # cs) e = do {
     (_, e') \<leftarrow> datum_ref_decrement_apply (datum_ref_decrement_new h) e;
     run_refs h bs cs e'
   }"

fun net_refs :: "nat \<Rightarrow> ref_change list \<Rightarrow> nat" where
  "net_refs n [] = n"
| "net_refs n (RefUp # cs) = net_refs (n + 1) cs"
| "net_refs n (RefDown # cs) = net_refs (n - 1) cs"

lemma counts_up:
  assumes "counts bs n e" and "n + 1 < 2 ^ 64"
  shows "\<exists>d e'. datum_ref_increment_apply (datum_ref_increment_new h bs) e = Some (d, e') \<and> counts bs (n + 1) e'"
  using assms
  by (auto simp: counts_def datum_ref_increment_apply_def datum_ref_increment_new_def datum_state_new_def
      saturating_add_exact split: if_splits)

lemma counts_down:
  assumes "counts bs n e"
  shows "\<exists>d e'. datum_ref_decrement_apply (datum_ref_decrement_new h) e = Some (d, e') \<and> counts bs (n - 1) e'"
proof (cases e)
  case None
  with assms show ?thesis by (auto simp: counts_def datum_ref_decrement_apply_def split: if_splits)
next
  case (Some s)
  with assms have n: "n = unat (dt_refcount s)" "0 < n" "dt_bytes s = bs"
    by (auto simp: counts_def split: if_splits)
  show ?thesis
  proof (cases "dt_refcount s \<le> 1")
    case True
    with n have "n = 1" by (simp add: word_le_nat_alt)
    with True show ?thesis by (simp add: Some counts_def datum_ref_decrement_apply_def)
  next
    case False
    with n show ?thesis
      by (simp add: Some counts_def datum_ref_decrement_apply_def unat_sub_no_underflow word_le_nat_alt)
  qed
qed

lemma run_refs_counts:
  assumes "counts bs n e" and "n + length (filter ((=) RefUp) cs) < 2 ^ 64"
  shows "\<exists>e'. run_refs h bs cs e = Some e' \<and> counts bs (net_refs n cs) e'"
  using assms
proof (induction cs arbitrary: n e)
  case Nil
  then show ?case by simp
next
  case (Cons c cs)
  show ?case
  proof (cases c)
    case RefUp
    with Cons.prems counts_up [of bs n e h] obtain d e1 where
      "datum_ref_increment_apply (datum_ref_increment_new h bs) e = Some (d, e1)" "counts bs (n + 1) e1"
      by auto
    with Cons.IH [of "n + 1" e1] Cons.prems RefUp show ?thesis by simp
  next
    case RefDown
    obtain d e1 where
      "datum_ref_decrement_apply (datum_ref_decrement_new h) e = Some (d, e1)" "counts bs (n - 1) e1"
      using counts_down [OF Cons.prems(1)] by blast
    with Cons.IH [of "n - 1" e1] Cons.prems RefDown show ?thesis by simp
  qed
qed

section \<open>Properties\<close>

text \<open>
  Reference counting of datums: after any sequence of increments and decrements of one datum
  (fewer than \<open>2 ^ 64\<close> in all), none of which panics, the datum is stored exactly when the
  count of references is positive, with its bytes and that count; a decrement without a reference
  leaves it absent.
\<close>

theorem datum_refcount_refines_count:
  assumes "counts bs n e" and "n + length (filter ((=) RefUp) cs) < 2 ^ 64"
  shows "\<exists>e'. run_refs h bs cs e = Some e' \<and> counts bs (net_refs n cs) e'"
  by (rule run_refs_counts [OF assms])

theorem datum_refcount_refines_count_witness:
  "\<exists>e'. run_refs 1 [7] [RefDown, RefUp, RefUp, RefDown] None = Some e' \<and> counts [7] 1 e'"
  using datum_refcount_refines_count [of "[7]" 0 None "[RefDown, RefUp, RefUp, RefDown]" 1]
  by (simp add: counts_def)

text \<open>
  At the largest count an increment saturates and leaves the count where it is, but its undo
  decrements: one increment and its undo lose a reference.
\<close>

theorem datum_increment_saturates:
  "\<exists>d. datum_ref_increment_apply (datum_ref_increment_new h bs) (Some \<lparr>dt_refcount = - 1, dt_bytes = bs\<rparr>)
        = Some (d, Some \<lparr>dt_refcount = - 1, dt_bytes = bs\<rparr>) \<and>
     datum_ref_increment_undo d (Some \<lparr>dt_refcount = - 1, dt_bytes = bs\<rparr>)
        = Some (Some \<lparr>dt_refcount = - 2, dt_bytes = bs\<rparr>)"
  by (simp add: datum_ref_increment_apply_def datum_ref_increment_undo_def datum_ref_increment_new_def
      saturating_add_def checked_add_def saturating_sub_def word_le_nat_alt unsigned_minus_1_eq_mask mask_eq_exp_minus_1)

end
