(* ===== verification/Assets.thy ===== *)
theory Assets
  imports Entity_Delta
begin

text \<open>
  Native assets (\<^verbatim>\<open>crates/cardano/src/model/assets.rs\<close>): the asset entity with its
  signed quantity kept as sixteen bytes, and its two deltas. The 256-bit hash of the key is a
  library function, the argument \<open>hash256\<close>.
\<close>

section \<open>The entity\<close>

type_synonym i128 = "128 word"

record asset_state =
  as_quantity_bytes :: bytes
  as_initial_tx :: "hash32 option"
  as_initial_slot :: "u64 option"
  as_mint_tx_count :: u64
  as_metadata_tx :: "hash32 option"

definition asset_ns :: namespace where
  "asset_ns = ''assets''"

definition asset_state_default :: asset_state where
  "asset_state_default = \<lparr>as_quantity_bytes = replicate 16 0, as_initial_tx = None,
     as_initial_slot = None, as_mint_tx_count = 0, as_metadata_tx = None\<rparr>"

text \<open>\<^verbatim>\<open>i128::saturating_add\<close>: the exact sum, clamped to the range of the type.\<close>

definition i128_min :: int where
  "i128_min = - (2 ^ 127)"

definition i128_max :: int where
  "i128_max = 2 ^ 127 - 1"

definition i128_saturating_add :: "i128 \<Rightarrow> i128 \<Rightarrow> i128" where
  "i128_saturating_add x y = word_of_int (max i128_min (min i128_max (sint x + sint y)))"

definition asset_quantity :: "asset_state \<Rightarrow> i128" where
  "asset_quantity s = bytes_word (as_quantity_bytes s)"

definition asset_add_quantity :: "asset_state \<Rightarrow> i128 \<Rightarrow> asset_state" where
  "asset_add_quantity s value =
     (let old = bytes_word (as_quantity_bytes s);
          new = word_bytes (i128_saturating_add old value)
      in s\<lparr>as_quantity_bytes := new\<rparr>)"

definition asset_key :: "(bytes \<Rightarrow> hash32) \<Rightarrow> hash28 \<Rightarrow> bytes \<Rightarrow> ns_key" where
  "asset_key hash256 policy asset =
     (asset_ns, entity_key_from (word_bytes (hash256 (word_bytes policy @ asset))))"

section \<open>Deltas\<close>

record mint_stats_update =
  msu_policy :: hash28
  msu_asset :: bytes
  msu_quantity :: i128
  msu_seen_in_tx :: hash32
  msu_seen_in_slot :: u64
  msu_was_new :: bool
  msu_prev_quantity_bytes :: bytes
  msu_prev_initial_slot :: "u64 option"
  msu_prev_initial_tx :: "hash32 option"

definition mint_stats_update_new :: "hash28 \<Rightarrow> bytes \<Rightarrow> i128 \<Rightarrow> hash32 \<Rightarrow> u64 \<Rightarrow> mint_stats_update" where
  "mint_stats_update_new policy asset quantity tx slot = \<lparr>msu_policy = policy, msu_asset = asset,
     msu_quantity = quantity, msu_seen_in_tx = tx, msu_seen_in_slot = slot, msu_was_new = False,
     msu_prev_quantity_bytes = replicate 16 0, msu_prev_initial_slot = None,
     msu_prev_initial_tx = None\<rparr>"

definition mint_stats_update_key :: "(bytes \<Rightarrow> hash32) \<Rightarrow> mint_stats_update \<Rightarrow> ns_key" where
  "mint_stats_update_key hash256 d = asset_key hash256 (msu_policy d) (msu_asset d)"

definition mint_stats_update_apply :: "build \<Rightarrow> (mint_stats_update, asset_state) apply_fn" where
  "mint_stats_update_apply b d entity = do {
     let d = d\<lparr>msu_was_new := (entity = None)\<rparr>;
     let s = get_or_insert entity asset_state_default;
     let d = d\<lparr>msu_prev_quantity_bytes := as_quantity_bytes s,
               msu_prev_initial_slot := as_initial_slot s, msu_prev_initial_tx := as_initial_tx s\<rparr>;
     let s = asset_add_quantity s (msu_quantity d);
     n \<leftarrow> raw_add b (as_mint_tx_count s) 1;
     let s = s\<lparr>as_mint_tx_count := n\<rparr>;
     let s = (if msu_seen_in_slot d < case_option (- 1) id (as_initial_slot s)
              then s\<lparr>as_initial_slot := Some (msu_seen_in_slot d), as_initial_tx := Some (msu_seen_in_tx d)\<rparr>
              else s);
     Some (d, Some s)
   }"

definition mint_stats_update_undo :: "build \<Rightarrow> (mint_stats_update, asset_state) undo_fn" where
  "mint_stats_update_undo b d entity =
     (if msu_was_new d then Some None
      else do {
        s \<leftarrow> entity;
        let s = s\<lparr>as_quantity_bytes := msu_prev_quantity_bytes d\<rparr>;
        n \<leftarrow> raw_sub b (as_mint_tx_count s) 1;
        Some (Some (s\<lparr>as_mint_tx_count := n, as_initial_slot := msu_prev_initial_slot d,
                      as_initial_tx := msu_prev_initial_tx d\<rparr>))
      })"

record metadata_tx_update =
  mtu_policy :: hash28
  mtu_asset :: bytes
  mtu_metadata_tx :: hash32
  mtu_was_new :: bool
  mtu_prev_metadata_tx :: "hash32 option"

definition metadata_tx_update_new :: "hash28 \<Rightarrow> bytes \<Rightarrow> hash32 \<Rightarrow> metadata_tx_update" where
  "metadata_tx_update_new policy asset tx = \<lparr>mtu_policy = policy, mtu_asset = asset,
     mtu_metadata_tx = tx, mtu_was_new = False, mtu_prev_metadata_tx = None\<rparr>"

definition metadata_tx_update_key :: "(bytes \<Rightarrow> hash32) \<Rightarrow> metadata_tx_update \<Rightarrow> ns_key" where
  "metadata_tx_update_key hash256 d = asset_key hash256 (mtu_policy d) (mtu_asset d)"

definition metadata_tx_update_apply :: "(metadata_tx_update, asset_state) apply_fn" where
  "metadata_tx_update_apply d entity =
     (let d = d\<lparr>mtu_was_new := (entity = None)\<rparr>;
          s = get_or_insert entity asset_state_default;
          d = d\<lparr>mtu_prev_metadata_tx := as_metadata_tx s\<rparr>
      in Some (d, Some (s\<lparr>as_metadata_tx := Some (mtu_metadata_tx d)\<rparr>)))"

definition metadata_tx_update_undo :: "(metadata_tx_update, asset_state) undo_fn" where
  "metadata_tx_update_undo d entity =
     (if mtu_was_new d then Some None
      else do {
        s \<leftarrow> entity;
        Some (Some (s\<lparr>as_metadata_tx := mtu_prev_metadata_tx d\<rparr>))
      })"

section \<open>Reversibility\<close>

lemma asset_upd_id [simp]:
  "as_quantity_bytes s = q \<Longrightarrow> s\<lparr>as_quantity_bytes := q\<rparr> = s"
  "as_initial_tx s = t \<Longrightarrow> s\<lparr>as_initial_tx := t\<rparr> = s"
  "as_initial_slot s = l \<Longrightarrow> s\<lparr>as_initial_slot := l\<rparr> = s"
  "as_mint_tx_count s = n \<Longrightarrow> s\<lparr>as_mint_tx_count := n\<rparr> = s"
  "as_metadata_tx s = t \<Longrightarrow> s\<lparr>as_metadata_tx := t\<rparr> = s"
  by (cases s; auto)+

lemmas asset_delta_defs =
  mint_stats_update_apply_def mint_stats_update_undo_def mint_stats_update_key_def
  metadata_tx_update_apply_def metadata_tx_update_undo_def metadata_tx_update_key_def

interpretation mint_stats_update: reversible_delta "mint_stats_update_key hash256"
  "mint_stats_update_apply b" "mint_stats_update_undo b" "\<lambda>_. True" "\<lambda>_ _. True"
  by unfold_locales
    (auto simp: asset_delta_defs asset_add_quantity_def get_or_insert_def panic_simps Let_def
      dest!: raw_add_sub_cancel split: option.splits if_splits)

interpretation metadata_tx_update: reversible_delta "metadata_tx_update_key hash256"
  metadata_tx_update_apply metadata_tx_update_undo "\<lambda>_. True" "\<lambda>_ _. True"
  by unfold_locales (auto simp: asset_delta_defs get_or_insert_def Let_def panic_simps split: option.splits)

section \<open>Quantities\<close>

text \<open>Adding within the signed range is exact, through the byte encoding.\<close>

lemma asset_add_quantity_exact:
  assumes "i128_min \<le> sint (asset_quantity s) + sint v" and "sint (asset_quantity s) + sint v \<le> i128_max"
  shows "sint (asset_quantity (asset_add_quantity s v)) = sint (asset_quantity s) + sint v"
proof -
  let ?i = "sint (asset_quantity s) + sint v"
  have "asset_quantity (asset_add_quantity s v) = i128_saturating_add (asset_quantity s) v"
    by (simp add: asset_quantity_def asset_add_quantity_def Let_def bytes_word_word_bytes)
  also have "\<dots> = word_of_int ?i"
    unfolding i128_saturating_add_def using assms by (simp only: max_absorb2 min_absorb2)
  finally have "sint (asset_quantity (asset_add_quantity s v)) = sint (word_of_int ?i :: i128)"
    by (rule arg_cong)
  moreover have "sint (word_of_int i :: i128) = i" if "i128_min \<le> i" "i \<le> i128_max" for i
    using that by (simp add: signed_of_int signed_take_bit_int_eq_self_iff i128_min_def i128_max_def)
  ultimately show ?thesis using assms by metis
qed

section \<open>Properties\<close>

text \<open>
  The quantity of an asset is kept as 16 big-endian bytes of a signed 128-bit integer. Adding
  an amount to it is exact whenever the sum is in the signed range, and otherwise stays within it.
\<close>

theorem asset_quantity_exact:
  assumes "i128_min \<le> sint (asset_quantity s) + sint v" and "sint (asset_quantity s) + sint v \<le> i128_max"
  shows "sint (asset_quantity (asset_add_quantity s v)) = sint (asset_quantity s) + sint v"
  by (rule asset_add_quantity_exact [OF assms])

theorem asset_quantity_exact_witness:
  "sint (asset_quantity (asset_add_quantity asset_state_default (- 5))) = - 5"
proof -
  have "sint (asset_quantity asset_state_default) = 0" and "sint (- 5 :: i128) = - 5" by code_simp+
  then show ?thesis
    using asset_quantity_exact [of asset_state_default "- 5"] by (simp add: i128_min_def i128_max_def)
qed

end
