(* ===== verification/PParams.thy ===== *)
theory PParams
  imports Epoch_Value Ledger_Types
begin

text \<open>
  Protocol parameters (\<^verbatim>\<open>crates/cardano/src/model/pparams.rs\<close>), eras
  (\<^verbatim>\<open>model/eras.rs\<close>) and the migration of the parameters from one protocol version
  to the next (\<^verbatim>\<open>crates/cardano/src/forks.rs\<close>). Genesis files are records with the
  fields the migration reads; the parsers of dates and hexadecimal strings and the approximation
  of a float by a fraction are library functions, fields of the record \<open>genesis_lib\<close>.
\<close>

section \<open>Parameter values\<close>

type_synonym protocol_version = "u64 \<times> u64"
type_synonym cost_model = "u64 list"

datatype nonce_variant = NeutralNonce | Nonce

record nonce =
  nonce_variant :: nonce_variant
  nonce_hash :: "hash32 option"

record ex_units =
  ex_mem :: u64
  ex_steps :: u64

record ex_unit_prices =
  mem_price :: rational_number
  step_price :: rational_number

record pool_voting_thresholds =
  pvt_motion_no_confidence :: rational_number
  pvt_committee_normal :: rational_number
  pvt_committee_no_confidence :: rational_number
  pvt_hard_fork_initiation :: rational_number
  pvt_security_voting_threshold :: rational_number

record drep_voting_thresholds =
  dvt_motion_no_confidence :: rational_number
  dvt_committee_normal :: rational_number
  dvt_committee_no_confidence :: rational_number
  dvt_update_constitution :: rational_number
  dvt_hard_fork_initiation :: rational_number
  dvt_pp_network_group :: rational_number
  dvt_pp_economic_group :: rational_number
  dvt_pp_technical_group :: rational_number
  dvt_pp_governance_group :: rational_number
  dvt_treasury_withdrawal :: rational_number

text \<open>The defaults of \<^verbatim>\<open>pallas_extras.rs\<close>.\<close>

definition default_rational_number :: rational_number where
  "default_rational_number = \<lparr>numerator = 0, denominator = 1\<rparr>"

definition default_pool_voting_thresholds :: pool_voting_thresholds where
  "default_pool_voting_thresholds = (let r = default_rational_number in
     \<lparr>pvt_motion_no_confidence = r, pvt_committee_normal = r, pvt_committee_no_confidence = r,
      pvt_hard_fork_initiation = r, pvt_security_voting_threshold = r\<rparr>)"

definition default_drep_voting_thresholds :: drep_voting_thresholds where
  "default_drep_voting_thresholds = (let r = default_rational_number in
     \<lparr>dvt_motion_no_confidence = r, dvt_committee_normal = r, dvt_committee_no_confidence = r,
      dvt_update_constitution = r, dvt_hard_fork_initiation = r, dvt_pp_network_group = r,
      dvt_pp_economic_group = r, dvt_pp_technical_group = r, dvt_pp_governance_group = r,
      dvt_treasury_withdrawal = r\<rparr>)"

definition default_nonce :: nonce where
  "default_nonce = \<lparr>nonce_variant = NeutralNonce, nonce_hash = None\<rparr>"

definition default_ex_units :: ex_units where
  "default_ex_units = \<lparr>ex_mem = 0, ex_steps = 0\<rparr>"

definition default_ex_unit_prices :: ex_unit_prices where
  "default_ex_unit_prices = \<lparr>mem_price = default_rational_number, step_price = default_rational_number\<rparr>"

datatype pparam_kind =
    KSystemStart | KEpochLength | KSlotLength | KMinFeeA | KMinFeeB | KMaxBlockBodySize
    | KMaxTransactionSize | KMaxBlockHeaderSize | KKeyDeposit | KPoolDeposit
    | KDesiredNumberOfStakePools | KProtocolVersion | KMinUtxoValue | KMinPoolCost
    | KExpansionRate | KTreasuryGrowthRate | KMaximumEpoch | KPoolPledgeInfluence
    | KDecentralizationConstant | KExtraEntropy | KAdaPerUtxoByte | KExecutionCosts
    | KMaxTxExUnits | KMaxBlockExUnits | KMaxValueSize | KCollateralPercentage
    | KMaxCollateralInputs | KPoolVotingThresholds | KDrepVotingThresholds | KMinCommitteeSize
    | KCommitteeTermLimit | KGovernanceActionValidityPeriod | KGovernanceActionDeposit
    | KDrepDeposit | KDrepInactivityPeriod | KMinFeeRefScriptCostPerByte | KCostModelsPlutusV1
    | KCostModelsPlutusV2 | KCostModelsPlutusV3 | KCostModelsUnknown

datatype pparam_value =
    SystemStart u64 | EpochLength u64 | SlotLength u64 | MinFeeA u64 | MinFeeB u64
    | MaxBlockBodySize u64 | MaxTransactionSize u64 | MaxBlockHeaderSize u64 | KeyDeposit u64
    | PoolDeposit u64 | DesiredNumberOfStakePools u32 | ProtocolVersion protocol_version
    | MinUtxoValue u64 | MinPoolCost u64 | ExpansionRate rational_number
    | TreasuryGrowthRate rational_number | MaximumEpoch u64 | PoolPledgeInfluence rational_number
    | DecentralizationConstant rational_number | ExtraEntropy nonce | AdaPerUtxoByte u64
    | ExecutionCosts ex_unit_prices | MaxTxExUnits ex_units | MaxBlockExUnits ex_units
    | MaxValueSize u32 | CollateralPercentage u32 | MaxCollateralInputs u32
    | PoolVotingThresholds pool_voting_thresholds | DrepVotingThresholds drep_voting_thresholds
    | MinCommitteeSize u64 | CommitteeTermLimit u64 | GovernanceActionValidityPeriod u64
    | GovernanceActionDeposit u64 | DrepDeposit u64 | DrepInactivityPeriod u64
    | MinFeeRefScriptCostPerByte rational_number | CostModelsPlutusV1 cost_model
    | CostModelsPlutusV2 cost_model | CostModelsPlutusV3 cost_model
    | CostModelsUnknown "(u64 \<times> cost_model) list"

fun default_value :: "pparam_kind \<Rightarrow> pparam_value" where
  "default_value KSystemStart = SystemStart 0"
| "default_value KEpochLength = EpochLength 0"
| "default_value KSlotLength = SlotLength 0"
| "default_value KMinFeeA = MinFeeA 0"
| "default_value KMinFeeB = MinFeeB 0"
| "default_value KMaxBlockBodySize = MaxBlockBodySize 0"
| "default_value KMaxTransactionSize = MaxTransactionSize 0"
| "default_value KMaxBlockHeaderSize = MaxBlockHeaderSize 0"
| "default_value KKeyDeposit = KeyDeposit 0"
| "default_value KPoolDeposit = PoolDeposit 0"
| "default_value KDesiredNumberOfStakePools = DesiredNumberOfStakePools 0"
| "default_value KProtocolVersion = ProtocolVersion (0, 0)"
| "default_value KMinUtxoValue = MinUtxoValue 0"
| "default_value KMinPoolCost = MinPoolCost 0"
| "default_value KExpansionRate = ExpansionRate default_rational_number"
| "default_value KTreasuryGrowthRate = TreasuryGrowthRate default_rational_number"
| "default_value KMaximumEpoch = MaximumEpoch 0"
| "default_value KPoolPledgeInfluence = PoolPledgeInfluence default_rational_number"
| "default_value KDecentralizationConstant = DecentralizationConstant default_rational_number"
| "default_value KExtraEntropy = ExtraEntropy default_nonce"
| "default_value KAdaPerUtxoByte = AdaPerUtxoByte 0"
| "default_value KExecutionCosts = ExecutionCosts default_ex_unit_prices"
| "default_value KMaxTxExUnits = MaxTxExUnits default_ex_units"
| "default_value KMaxBlockExUnits = MaxBlockExUnits default_ex_units"
| "default_value KMaxValueSize = MaxValueSize 0"
| "default_value KCollateralPercentage = CollateralPercentage 0"
| "default_value KMaxCollateralInputs = MaxCollateralInputs 0"
| "default_value KPoolVotingThresholds = PoolVotingThresholds default_pool_voting_thresholds"
| "default_value KDrepVotingThresholds = DrepVotingThresholds default_drep_voting_thresholds"
| "default_value KMinCommitteeSize = MinCommitteeSize 0"
| "default_value KCommitteeTermLimit = CommitteeTermLimit 0"
| "default_value KGovernanceActionValidityPeriod = GovernanceActionValidityPeriod 0"
| "default_value KGovernanceActionDeposit = GovernanceActionDeposit 0"
| "default_value KDrepDeposit = DrepDeposit 0"
| "default_value KDrepInactivityPeriod = DrepInactivityPeriod 0"
| "default_value KMinFeeRefScriptCostPerByte = MinFeeRefScriptCostPerByte default_rational_number"
| "default_value KCostModelsPlutusV1 = CostModelsPlutusV1 []"
| "default_value KCostModelsPlutusV2 = CostModelsPlutusV2 []"
| "default_value KCostModelsPlutusV3 = CostModelsPlutusV3 []"
| "default_value KCostModelsUnknown = CostModelsUnknown []"

fun kind_of :: "pparam_value \<Rightarrow> pparam_kind" where
  "kind_of (SystemStart _) = KSystemStart"
| "kind_of (EpochLength _) = KEpochLength"
| "kind_of (SlotLength _) = KSlotLength"
| "kind_of (MinFeeA _) = KMinFeeA"
| "kind_of (MinFeeB _) = KMinFeeB"
| "kind_of (MaxBlockBodySize _) = KMaxBlockBodySize"
| "kind_of (MaxTransactionSize _) = KMaxTransactionSize"
| "kind_of (MaxBlockHeaderSize _) = KMaxBlockHeaderSize"
| "kind_of (KeyDeposit _) = KKeyDeposit"
| "kind_of (PoolDeposit _) = KPoolDeposit"
| "kind_of (DesiredNumberOfStakePools _) = KDesiredNumberOfStakePools"
| "kind_of (ProtocolVersion _) = KProtocolVersion"
| "kind_of (MinUtxoValue _) = KMinUtxoValue"
| "kind_of (MinPoolCost _) = KMinPoolCost"
| "kind_of (ExpansionRate _) = KExpansionRate"
| "kind_of (TreasuryGrowthRate _) = KTreasuryGrowthRate"
| "kind_of (MaximumEpoch _) = KMaximumEpoch"
| "kind_of (PoolPledgeInfluence _) = KPoolPledgeInfluence"
| "kind_of (DecentralizationConstant _) = KDecentralizationConstant"
| "kind_of (ExtraEntropy _) = KExtraEntropy"
| "kind_of (AdaPerUtxoByte _) = KAdaPerUtxoByte"
| "kind_of (ExecutionCosts _) = KExecutionCosts"
| "kind_of (MaxTxExUnits _) = KMaxTxExUnits"
| "kind_of (MaxBlockExUnits _) = KMaxBlockExUnits"
| "kind_of (MaxValueSize _) = KMaxValueSize"
| "kind_of (CollateralPercentage _) = KCollateralPercentage"
| "kind_of (MaxCollateralInputs _) = KMaxCollateralInputs"
| "kind_of (PoolVotingThresholds _) = KPoolVotingThresholds"
| "kind_of (DrepVotingThresholds _) = KDrepVotingThresholds"
| "kind_of (MinCommitteeSize _) = KMinCommitteeSize"
| "kind_of (CommitteeTermLimit _) = KCommitteeTermLimit"
| "kind_of (GovernanceActionValidityPeriod _) = KGovernanceActionValidityPeriod"
| "kind_of (GovernanceActionDeposit _) = KGovernanceActionDeposit"
| "kind_of (DrepDeposit _) = KDrepDeposit"
| "kind_of (DrepInactivityPeriod _) = KDrepInactivityPeriod"
| "kind_of (MinFeeRefScriptCostPerByte _) = KMinFeeRefScriptCostPerByte"
| "kind_of (CostModelsPlutusV1 _) = KCostModelsPlutusV1"
| "kind_of (CostModelsPlutusV2 _) = KCostModelsPlutusV2"
| "kind_of (CostModelsPlutusV3 _) = KCostModelsPlutusV3"
| "kind_of (CostModelsUnknown _) = KCostModelsUnknown"

section \<open>Parameter sets\<close>

type_synonym pparams_set = "pparam_value list"

definition pp_get :: "pparams_set \<Rightarrow> pparam_kind \<Rightarrow> pparam_value option" where
  "pp_get s k = find (\<lambda>v. kind_of v = k) s"

text \<open>\<^verbatim>\<open>set\<close>: overwrite the first value of the kind, or append.\<close>

fun pp_set :: "pparams_set \<Rightarrow> pparam_value \<Rightarrow> pparams_set" where
  "pp_set [] v = [v]"
| "pp_set (x # s) v = (if kind_of x = kind_of v then v # s else x # pp_set s v)"

definition pp_clear :: "pparams_set \<Rightarrow> pparam_kind \<Rightarrow> pparams_set" where
  "pp_clear s k = filter (\<lambda>v. kind_of v \<noteq> k) s"

definition pp_with :: "pparams_set \<Rightarrow> pparam_value \<Rightarrow> pparams_set" where
  "pp_with s v = pp_set s v"

definition pp_merge :: "pparams_set \<Rightarrow> pparams_set \<Rightarrow> pparams_set" where
  "pp_merge s other = foldl pp_set s other"

definition pp_get_or_default :: "pparams_set \<Rightarrow> pparam_kind \<Rightarrow> pparam_value" where
  "pp_get_or_default s k = (case pp_get s k of Some v \<Rightarrow> v | None \<Rightarrow> default_value k)"

definition pparams_next_value :: "pparams_set next_value" where
  "pparams_next_value current = Some current"

text \<open>
  The getter macro \<^verbatim>\<open>pgetter!\<close>: look the kind up and project its constructor, panicking on
  another one.
\<close>

definition pgetter :: "pparam_kind \<Rightarrow> (pparam_value \<Rightarrow> 'a option) \<Rightarrow> pparams_set \<Rightarrow> 'a option option" where
  "pgetter k proj s =
     (case pp_get s k of
        None \<Rightarrow> Some None
      | Some v \<Rightarrow> (case proj v of Some x \<Rightarrow> Some (Some x) | None \<Rightarrow> None))"

fun proj_protocol_version :: "pparam_value \<Rightarrow> protocol_version option" where
  "proj_protocol_version (ProtocolVersion x) = Some x"
| "proj_protocol_version _ = None"

fun proj_ada_per_utxo_byte :: "pparam_value \<Rightarrow> u64 option" where
  "proj_ada_per_utxo_byte (AdaPerUtxoByte x) = Some x"
| "proj_ada_per_utxo_byte _ = None"

definition pp_protocol_version :: "pparams_set \<Rightarrow> protocol_version option option" where
  "pp_protocol_version = pgetter KProtocolVersion proj_protocol_version"

definition pp_ada_per_utxo_byte :: "pparams_set \<Rightarrow> u64 option option" where
  "pp_ada_per_utxo_byte = pgetter KAdaPerUtxoByte proj_ada_per_utxo_byte"

definition protocol_major :: "pparams_set \<Rightarrow> u16 option option" where
  "protocol_major s = map_option (map_option (\<lambda>(major, _). ucast major)) (pp_protocol_version s)"

definition protocol_major_or_default :: "pparams_set \<Rightarrow> u16 option" where
  "protocol_major_or_default s = map_option (case_option 0 id) (protocol_major s)"

definition shelley_protocol :: u16 where
  "shelley_protocol = 2"

definition is_byron :: "pparams_set \<Rightarrow> bool option" where
  "is_byron s = map_option (\<lambda>m. m < shelley_protocol) (protocol_major_or_default s)"

section \<open>Eras\<close>

text \<open>\<^verbatim>\<open>EraProtocol\<close> is a newtype of \<^verbatim>\<open>u16\<close>.\<close>

type_synonym era_protocol = u16

record era_transition =
  et_prev_version :: era_protocol
  et_new_version :: era_protocol

definition entering_shelley :: "era_transition \<Rightarrow> bool" where
  "entering_shelley t = (et_prev_version t < 2 \<and> et_new_version t = 2)"

definition entering_allegra :: "era_transition \<Rightarrow> bool" where
  "entering_allegra t = (et_prev_version t = 2 \<and> et_new_version t = 3)"

definition entering_conway :: "era_transition \<Rightarrow> bool" where
  "entering_conway t = (et_prev_version t < 9 \<and> 9 \<le> et_new_version t)"

definition ev_era_transition :: "pparams_set epoch_value \<Rightarrow> era_transition option option" where
  "ev_era_transition v = do {
     live \<leftarrow> unwrap_live v;
     original \<leftarrow> protocol_major_or_default live;
     update \<leftarrow> (case ev_next v of None \<Rightarrow> Some None | Some p \<Rightarrow> protocol_major p);
     Some (case update of
         None \<Rightarrow> None
       | Some u \<Rightarrow> if original = u then None else Some \<lparr>et_prev_version = original, et_new_version = u\<rparr>)
   }"

section \<open>Genesis files\<close>

type_synonym f32 = u32

record genesis_lib =
  parse_rfc3339 :: "string \<Rightarrow> u64 option"
  hex_decode :: "string \<Rightarrow> bytes option"
  approximate_float :: "f32 \<Rightarrow> (int \<times> int) option"

record byron_genesis =
  bg_start_time :: u64
  bg_slot_duration :: u64
  bg_multiplier :: u64
  bg_summand :: u64
  bg_max_block_size :: u64
  bg_max_tx_size :: u64
  bg_max_header_size :: u64

record shelley_genesis =
  sg_system_start :: "string option"
  sg_epoch_length :: "u32 option"
  sg_slot_length :: "u32 option"
  sg_protocol_version :: protocol_version
  sg_max_block_body_size :: u32
  sg_max_tx_size :: u32
  sg_max_block_header_size :: u32
  sg_key_deposit :: u64
  sg_min_utxo_value :: u64
  sg_min_fee_a :: u32
  sg_min_fee_b :: u32
  sg_pool_deposit :: u64
  sg_n_opt :: u32
  sg_min_pool_cost :: u64
  sg_rho :: rational_number
  sg_tau :: rational_number
  sg_e_max :: u64
  sg_a0 :: rational_number
  sg_decentralisation_param :: rational_number
  sg_entropy_tag :: nonce_variant
  sg_entropy_hash :: "string option"

datatype language = PlutusV1 | PlutusV2

record alonzo_genesis =
  ag_lovelace_per_utxo_word :: u64
  ag_execution_prices :: ex_unit_prices
  ag_max_tx_ex_units :: ex_units
  ag_max_block_ex_units :: ex_units
  ag_max_value_size :: u32
  ag_collateral_percentage :: u32
  ag_max_collateral_inputs :: u32
  ag_cost_models :: "(language \<times> cost_model) list"

record pool_thresholds_config =
  ptc_motion_no_confidence :: f32
  ptc_committee_normal :: f32
  ptc_committee_no_confidence :: f32
  ptc_hard_fork_initiation :: f32
  ptc_pp_security_group :: f32

record drep_thresholds_config =
  dtc_motion_no_confidence :: f32
  dtc_committee_normal :: f32
  dtc_committee_no_confidence :: f32
  dtc_update_to_constitution :: f32
  dtc_hard_fork_initiation :: f32
  dtc_pp_network_group :: f32
  dtc_pp_economic_group :: f32
  dtc_pp_technical_group :: f32
  dtc_pp_gov_group :: f32
  dtc_treasury_withdrawal :: f32

record conway_genesis =
  cg_plutus_v3_cost_model :: cost_model
  cg_pool_voting_thresholds :: pool_thresholds_config
  cg_d_rep_voting_thresholds :: drep_thresholds_config
  cg_committee_min_size :: u64
  cg_committee_max_term_length :: u32
  cg_gov_action_lifetime :: u32
  cg_gov_action_deposit :: u64
  cg_d_rep_deposit :: u64
  cg_d_rep_activity :: u32
  cg_min_fee_ref_script_cost_per_byte :: u64

record genesis =
  gen_byron :: byron_genesis
  gen_shelley :: shelley_genesis
  gen_alonzo :: alonzo_genesis
  gen_conway :: conway_genesis

section \<open>Migration\<close>

text \<open>\<^verbatim>\<open>float_to_rational\<close> of \<^verbatim>\<open>utils.rs\<close>.\<close>

definition float_to_rational :: "genesis_lib \<Rightarrow> f32 \<Rightarrow> rational_number option" where
  "float_to_rational lib x = do {
     (n, d) \<leftarrow> approximate_float lib x;
     Some \<lparr>numerator = word_of_int n, denominator = word_of_int d\<rparr>
   }"

definition from_config_nonce :: "genesis_lib \<Rightarrow> shelley_genesis \<Rightarrow> nonce option" where
  "from_config_nonce lib g =
     (case sg_entropy_hash g of
        None \<Rightarrow> Some \<lparr>nonce_variant = sg_entropy_tag g, nonce_hash = None\<rparr>
      | Some x \<Rightarrow> do {
          bs \<leftarrow> hex_decode lib x;
          _ \<leftarrow> assert_that (length bs = 32);
          Some \<lparr>nonce_variant = sg_entropy_tag g, nonce_hash = Some (bytes_word bs)\<rparr>
        })"

definition from_alonzo_cost_models_map :: "(language \<times> cost_model) list \<Rightarrow> language \<Rightarrow> cost_model option" where
  "from_alonzo_cost_models_map config l =
     (case filter (\<lambda>(k, _). k = l) config of [] \<Rightarrow> None | (_, v) # _ \<Rightarrow> Some v)"

definition from_conway_pool_voting_thresholds ::
  "genesis_lib \<Rightarrow> pool_thresholds_config \<Rightarrow> pool_voting_thresholds option" where
  "from_conway_pool_voting_thresholds lib c = do {
     a \<leftarrow> float_to_rational lib (ptc_motion_no_confidence c);
     b \<leftarrow> float_to_rational lib (ptc_committee_normal c);
     n \<leftarrow> float_to_rational lib (ptc_committee_no_confidence c);
     h \<leftarrow> float_to_rational lib (ptc_hard_fork_initiation c);
     s \<leftarrow> float_to_rational lib (ptc_pp_security_group c);
     Some \<lparr>pvt_motion_no_confidence = a, pvt_committee_normal = b, pvt_committee_no_confidence = n,
           pvt_hard_fork_initiation = h, pvt_security_voting_threshold = s\<rparr>
   }"

definition from_conway_drep_voting_thresholds ::
  "genesis_lib \<Rightarrow> drep_thresholds_config \<Rightarrow> drep_voting_thresholds option" where
  "from_conway_drep_voting_thresholds lib c = do {
     a \<leftarrow> float_to_rational lib (dtc_motion_no_confidence c);
     b \<leftarrow> float_to_rational lib (dtc_committee_normal c);
     n \<leftarrow> float_to_rational lib (dtc_committee_no_confidence c);
     u \<leftarrow> float_to_rational lib (dtc_update_to_constitution c);
     h \<leftarrow> float_to_rational lib (dtc_hard_fork_initiation c);
     pn \<leftarrow> float_to_rational lib (dtc_pp_network_group c);
     pe \<leftarrow> float_to_rational lib (dtc_pp_economic_group c);
     pt \<leftarrow> float_to_rational lib (dtc_pp_technical_group c);
     pg \<leftarrow> float_to_rational lib (dtc_pp_gov_group c);
     w \<leftarrow> float_to_rational lib (dtc_treasury_withdrawal c);
     Some \<lparr>dvt_motion_no_confidence = a, dvt_committee_normal = b, dvt_committee_no_confidence = n,
           dvt_update_constitution = u, dvt_hard_fork_initiation = h, dvt_pp_network_group = pn,
           dvt_pp_economic_group = pe, dvt_pp_technical_group = pt, dvt_pp_governance_group = pg,
           dvt_treasury_withdrawal = w\<rparr>
   }"

definition five_days_in_seconds :: u64 where
  "five_days_in_seconds = 5 * 24 * 60 * 60"

text \<open>Dividing by zero panics.\<close>

definition from_byron_genesis :: "byron_genesis \<Rightarrow> pparams_set option" where
  "from_byron_genesis g = do {
     let slot_length_in_secs = bg_slot_duration g div 1000;
     epoch_length \<leftarrow> checked_div five_days_in_seconds slot_length_in_secs;
     Some (foldl pp_with []
       [ProtocolVersion (0, 0), SystemStart (bg_start_time g), SlotLength slot_length_in_secs,
        EpochLength epoch_length, MinFeeA (bg_multiplier g), MinFeeB (bg_summand g),
        MaxBlockBodySize (bg_max_block_size g), MaxTransactionSize (bg_max_tx_size g),
        MaxBlockHeaderSize (bg_max_header_size g)])
   }"

definition from_shelley_genesis :: "genesis_lib \<Rightarrow> shelley_genesis \<Rightarrow> pparams_set option" where
  "from_shelley_genesis lib g = do {
     start \<leftarrow> sg_system_start g;
     timestamp \<leftarrow> parse_rfc3339 lib start;
     entropy \<leftarrow> from_config_nonce lib g;
     Some (foldl pp_with []
       [SystemStart timestamp, ProtocolVersion (sg_protocol_version g),
        EpochLength (ucast (case_option 0 id (sg_epoch_length g))),
        SlotLength (ucast (case_option 0 id (sg_slot_length g))),
        MaxBlockBodySize (ucast (sg_max_block_body_size g)),
        MaxTransactionSize (ucast (sg_max_tx_size g)),
        MaxBlockHeaderSize (ucast (sg_max_block_header_size g)),
        KeyDeposit (sg_key_deposit g), MinUtxoValue (sg_min_utxo_value g),
        MinFeeA (ucast (sg_min_fee_a g)), MinFeeB (ucast (sg_min_fee_b g)),
        PoolDeposit (sg_pool_deposit g), DesiredNumberOfStakePools (sg_n_opt g),
        MinPoolCost (sg_min_pool_cost g), ExpansionRate (sg_rho g), TreasuryGrowthRate (sg_tau g),
        MaximumEpoch (sg_e_max g), PoolPledgeInfluence (sg_a0 g),
        DecentralizationConstant (sg_decentralisation_param g), ExtraEntropy entropy])
   }"

definition into_alonzo :: "pparams_set \<Rightarrow> alonzo_genesis \<Rightarrow> pparams_set" where
  "into_alonzo previous g =
     (let s = foldl pp_with previous
        [ProtocolVersion (5, 0), AdaPerUtxoByte (ag_lovelace_per_utxo_word g),
         ExecutionCosts (ag_execution_prices g), MaxTxExUnits (ag_max_tx_ex_units g),
         MaxBlockExUnits (ag_max_block_ex_units g), MaxValueSize (ag_max_value_size g),
         CollateralPercentage (ag_collateral_percentage g),
         MaxCollateralInputs (ag_max_collateral_inputs g)]
      in case from_alonzo_cost_models_map (ag_cost_models g) PlutusV1 of
           Some v1 \<Rightarrow> pp_with s (CostModelsPlutusV1 v1)
         | None \<Rightarrow> s)"

definition into_babbage :: "pparams_set \<Rightarrow> alonzo_genesis \<Rightarrow> pparams_set option" where
  "into_babbage previous g = do {
     ada \<leftarrow> pp_ada_per_utxo_byte previous;
     let ada_per_utxo_byte = case_option 0 id ada div 8;
     let s = foldl pp_with previous [ProtocolVersion (7, 0), AdaPerUtxoByte ada_per_utxo_byte];
     Some (case from_alonzo_cost_models_map (ag_cost_models g) PlutusV2 of
         Some v2 \<Rightarrow> pp_with s (CostModelsPlutusV2 v2)
       | None \<Rightarrow> s)
   }"

definition into_conway :: "genesis_lib \<Rightarrow> pparams_set \<Rightarrow> conway_genesis \<Rightarrow> pparams_set option" where
  "into_conway lib previous g = do {
     pvt \<leftarrow> from_conway_pool_voting_thresholds lib (cg_pool_voting_thresholds g);
     dvt \<leftarrow> from_conway_drep_voting_thresholds lib (cg_d_rep_voting_thresholds g);
     Some (foldl pp_with previous
       [ProtocolVersion (9, 0), CostModelsPlutusV3 (cg_plutus_v3_cost_model g),
        PoolVotingThresholds pvt, DrepVotingThresholds dvt,
        MinCommitteeSize (cg_committee_min_size g),
        CommitteeTermLimit (ucast (cg_committee_max_term_length g)),
        GovernanceActionValidityPeriod (ucast (cg_gov_action_lifetime g)),
        GovernanceActionDeposit (cg_gov_action_deposit g), DrepDeposit (cg_d_rep_deposit g),
        DrepInactivityPeriod (ucast (cg_d_rep_activity g)),
        MinFeeRefScriptCostPerByte
          \<lparr>numerator = cg_min_fee_ref_script_cost_per_byte g, denominator = 1\<rparr>])
   }"

definition intra_era_hardfork :: "pparams_set \<Rightarrow> u16 \<Rightarrow> pparams_set" where
  "intra_era_hardfork current target = pp_with current (ProtocolVersion (ucast target, 0))"

definition migrate_pparams_version ::
  "genesis_lib \<Rightarrow> u16 \<Rightarrow> u16 \<Rightarrow> pparams_set \<Rightarrow> genesis \<Rightarrow> pparams_set option" where
  "migrate_pparams_version lib from to current g =
     (if from = 0 \<and> to = 1 then Some (intra_era_hardfork current to)
      else if from = 1 \<and> to = 2 then from_shelley_genesis lib (gen_shelley g)
      else if from = 2 \<and> to = 3 then Some (intra_era_hardfork current to)
      else if from = 3 \<and> to = 4 then Some (intra_era_hardfork current to)
      else if from = 4 \<and> to = 5 then Some (into_alonzo current (gen_alonzo g))
      else if from = 5 \<and> to = 6 then Some (intra_era_hardfork current to)
      else if from = 6 \<and> to = 7 then into_babbage current (gen_alonzo g)
      else if from = 7 \<and> to = 8 then Some (intra_era_hardfork current to)
      else if from = 8 \<and> to = 9 then into_conway lib current (gen_conway g)
      else if from = 9 \<and> to = 10 then Some (intra_era_hardfork current to)
      else if from = 10 \<and> to = 11 then Some (intra_era_hardfork current to)
      else None)"

text \<open>
  \<^verbatim>\<open>for from in from..to\<close>: the range ends before \<^verbatim>\<open>to\<close>, so the increment
  does not overflow.
\<close>

function force_pparams_version ::
  "genesis_lib \<Rightarrow> pparams_set \<Rightarrow> genesis \<Rightarrow> u16 \<Rightarrow> u16 \<Rightarrow> pparams_set option" where
  "force_pparams_version lib pparams g from to =
     (if from < to
      then do {
        pparams \<leftarrow> migrate_pparams_version lib from (from + 1) pparams g;
        force_pparams_version lib pparams g (from + 1) to
      }
      else Some pparams)"
  by pat_completeness auto

termination
proof (relation "measure (\<lambda>(_, _, _, from, to). unat to - unat from)")
  show "wf (measure (\<lambda>(_ :: genesis_lib, _ :: pparams_set, _ :: genesis, from :: u16, to). unat to - unat from))"
    by simp
next
  fix lib :: genesis_lib and pparams g v and v' :: u16 and x :: pparams_set
  assume less: "v < v'"
  then have "unat v + unat (1 :: u16) < 2 ^ LENGTH(16)"
    using unsigned_less [where 'a = nat, of v'] by (simp add: word_less_nat_alt)
  then have "unat (v + 1) = unat v + 1" by (simp add: unat_add_no_overflow)
  with less show "((lib, x, g, v + 1, v'), lib, pparams, g, v, v')
      \<in> measure (\<lambda>(_, _, _, from, to). unat to - unat from)"
    by (simp add: word_less_nat_alt diff_less_mono2)
qed

declare force_pparams_version.simps [simp del]

section \<open>Sets behave as maps from kinds to values\<close>

lemma pp_get_Nil [simp]: "pp_get [] k = None"
  by (simp add: pp_get_def)

lemma pp_get_Cons: "pp_get (v # s) k = (if kind_of v = k then Some v else pp_get s k)"
  by (simp add: pp_get_def)

lemma pp_get_set [simp]: "pp_get (pp_set s v) k = (if k = kind_of v then Some v else pp_get s k)"
  by (induction s) (auto simp: pp_get_Cons)

lemma pp_get_with [simp]: "pp_get (pp_with s v) k = (if k = kind_of v then Some v else pp_get s k)"
  by (simp add: pp_with_def)

lemma pp_get_kind: "pp_get s k = Some v \<Longrightarrow> kind_of v = k"
  by (induction s) (auto simp: pp_get_Cons split: if_splits)

lemma pp_get_clear [simp]: "pp_get (pp_clear s k) k' = (if k' = k then None else pp_get s k')"
  by (induction s) (auto simp: pp_get_Cons pp_clear_def)

lemma pp_set_kinds: "map kind_of (pp_set s v) = (if kind_of v \<in> kind_of ` set s then map kind_of s else map kind_of s @ [kind_of v])"
  by (induction s) auto

lemma pp_set_distinct: "distinct (map kind_of s) \<Longrightarrow> distinct (map kind_of (pp_set s v))"
  by (auto simp: pp_set_kinds)

lemma pp_merge_distinct: "distinct (map kind_of s) \<Longrightarrow> distinct (map kind_of (pp_merge s other))"
  unfolding pp_merge_def by (induction other arbitrary: s) (auto simp: pp_set_distinct)

text \<open>Merging: the last value of a kind in the update wins, the others stay.\<close>

lemma pp_merge_get: "pp_get (pp_merge s other) k = (case pp_get (rev other) k of Some v \<Rightarrow> Some v | None \<Rightarrow> pp_get s k)"
proof (induction other rule: rev_induct)
  case Nil
  show ?case by (simp add: pp_merge_def)
next
  case (snoc v other)
  then show ?case by (simp add: pp_merge_def pp_get_Cons)
qed

text \<open>A getter whose projection matches its kind never panics.\<close>

lemma pp_protocol_version_get:
  "pp_protocol_version s \<noteq> None"
  "pp_get s KProtocolVersion = Some (ProtocolVersion x) \<Longrightarrow> pp_protocol_version s = Some (Some x)"
  by (auto simp: pp_protocol_version_def pgetter_def dest!: pp_get_kind elim: kind_of.elims split: option.splits)

lemma pp_ada_per_utxo_byte_get: "pp_ada_per_utxo_byte s \<noteq> None"
  by (auto simp: pp_ada_per_utxo_byte_def pgetter_def dest!: pp_get_kind elim: kind_of.elims split: option.splits)

lemma protocol_major_get:
  "pp_get s KProtocolVersion = Some (ProtocolVersion (m, n)) \<Longrightarrow> protocol_major s = Some (Some (ucast m))"
  by (simp add: protocol_major_def pp_protocol_version_get(2))

section \<open>Migrating to a version sets that version\<close>

lemma migrate_sets_version:
  assumes "migrate_pparams_version lib v v' s g = Some s'" and "v' \<noteq> 2"
  shows "protocol_major s' = Some (Some v')"
proof -
  have "\<exists>m n. pp_get s' KProtocolVersion = Some (ProtocolVersion (m, n)) \<and> ucast m = v'"
    using assms
    by (auto simp: migrate_pparams_version_def intra_era_hardfork_def into_alonzo_def into_babbage_def
        into_conway_def Let_def panic_simps split: if_splits option.splits)
  then show ?thesis using protocol_major_get by blast
qed

lemma migrate_to_shelley:
  assumes "migrate_pparams_version lib 1 2 s g = Some s'"
  shows "protocol_major s' = Some (Some (ucast (fst (sg_protocol_version (gen_shelley g)))))"
proof -
  have "pp_get s' KProtocolVersion = Some (ProtocolVersion (sg_protocol_version (gen_shelley g)))"
    using assms by (auto simp: migrate_pparams_version_def from_shelley_genesis_def panic_simps)
  then show ?thesis using protocol_major_get [of s'] by (metis prod.collapse)
qed

text \<open>The genesis files the migration can read.\<close>

definition genesis_readable :: "genesis_lib \<Rightarrow> genesis \<Rightarrow> bool" where
  "genesis_readable lib g \<longleftrightarrow>
     from_shelley_genesis lib (gen_shelley g) \<noteq> None \<and>
     from_conway_pool_voting_thresholds lib (cg_pool_voting_thresholds (gen_conway g)) \<noteq> None \<and>
     from_conway_drep_voting_thresholds lib (cg_d_rep_voting_thresholds (gen_conway g)) \<noteq> None"

lemma migrate_next_total:
  assumes "genesis_readable lib g" and "unat v < 11"
  shows "\<exists>s'. migrate_pparams_version lib v (v + 1) s g = Some s'"
proof -
  have "v = 0 \<or> v = 1 \<or> v = 2 \<or> v = 3 \<or> v = 4 \<or> v = 5 \<or> v = 6 \<or> v = 7 \<or> v = 8 \<or> v = 9 \<or> v = 10"
  proof -
    have "unat v \<in> {0, 1, 2, 3, 4, 5, 6, 7, 8, 9, 10}"
      using assms(2) unfolding insert_iff empty_iff by presburger
    then show ?thesis by (simp add: word_unat_eq_iff)
  qed
  with assms(1) show ?thesis
    using pp_ada_per_utxo_byte_get [of s]
    by (auto simp: migrate_pparams_version_def genesis_readable_def into_babbage_def into_conway_def Let_def)
qed

text \<open>
  Forcing a set from one version up to a later one, at most the last the program knows, returns,
  and the result has that version; the Shelley one is read from its genesis file.
\<close>

lemma force_pparams_version_reaches:
  assumes "genesis_readable lib g" and "v < v'" and "unat v' \<le> 11"
    and "ucast (fst (sg_protocol_version (gen_shelley g))) = (2 :: u16)"
  shows "\<exists>s'. force_pparams_version lib s g v v' = Some s' \<and> protocol_major s' = Some (Some v')"
  using assms
proof (induction "unat v' - unat v" arbitrary: v s)
  case 0
  then show ?case by (simp add: word_less_nat_alt)
next
  case (Suc n)
  have lt: "unat v < unat v'" using Suc.prems(2) by (simp add: word_less_nat_alt)
  then have "unat v + unat (1 :: u16) < 2 ^ LENGTH(16)"
    using unsigned_less [where 'a = nat, of v'] by simp
  then have succ: "unat (v + 1) = unat v + 1" by (simp add: unat_add_no_overflow)
  obtain s1 where s1: "migrate_pparams_version lib v (v + 1) s g = Some s1"
    using migrate_next_total [OF Suc.prems(1), of v s] lt Suc.prems(3) by auto
  show ?case
  proof (cases "v + 1 < v'")
    case True
    moreover have "n = unat v' - unat (v + 1)" using Suc.hyps(2) succ by simp
    ultimately show ?thesis
      using Suc.hyps(1) [of "v + 1" s1] Suc.prems s1
      by (subst force_pparams_version.simps) simp
  next
    case False
    then have v': "v' = v + 1" using lt succ by (simp add: word_less_nat_alt word_unat_eq_iff)
    have "protocol_major s1 = Some (Some v')"
    proof (cases "v' = 2")
      case True
      then have "v = 1" using v' by (simp add: word_unat_eq_iff succ)
      then show ?thesis using migrate_to_shelley [of lib s g s1] s1 Suc.prems(4) True by simp
    next
      case False
      with migrate_sets_version [OF s1] v' show ?thesis by simp
    qed
    moreover have "force_pparams_version lib s1 g v' v' = Some s1"
      by (subst force_pparams_version.simps) simp
    ultimately show ?thesis
      using s1 Suc.prems(2) v' by (subst force_pparams_version.simps) simp
  qed
qed

section \<open>Properties\<close>


definition sample_lib :: genesis_lib where
  "sample_lib = \<lparr>parse_rfc3339 = (\<lambda>_. Some 0), hex_decode = (\<lambda>_. None), approximate_float = (\<lambda>_. Some (1, 2))\<rparr>"

definition sample_genesis :: genesis where
  "sample_genesis =
     \<lparr>gen_byron = \<lparr>bg_start_time = 0, bg_slot_duration = 20000, bg_multiplier = 1, bg_summand = 1,
        bg_max_block_size = 1, bg_max_tx_size = 1, bg_max_header_size = 1\<rparr>,
      gen_shelley = \<lparr>sg_system_start = Some [], sg_epoch_length = None, sg_slot_length = None,
        sg_protocol_version = (2, 0), sg_max_block_body_size = 1, sg_max_tx_size = 1,
        sg_max_block_header_size = 1, sg_key_deposit = 1, sg_min_utxo_value = 1, sg_min_fee_a = 1,
        sg_min_fee_b = 1, sg_pool_deposit = 1, sg_n_opt = 1, sg_min_pool_cost = 1,
        sg_rho = default_rational_number, sg_tau = default_rational_number, sg_e_max = 1,
        sg_a0 = default_rational_number, sg_decentralisation_param = default_rational_number,
        sg_entropy_tag = NeutralNonce, sg_entropy_hash = None\<rparr>,
      gen_alonzo = \<lparr>ag_lovelace_per_utxo_word = 8, ag_execution_prices = default_ex_unit_prices,
        ag_max_tx_ex_units = default_ex_units, ag_max_block_ex_units = default_ex_units,
        ag_max_value_size = 1, ag_collateral_percentage = 1, ag_max_collateral_inputs = 1, ag_cost_models = []\<rparr>,
      gen_conway = \<lparr>cg_plutus_v3_cost_model = [],
        cg_pool_voting_thresholds = \<lparr>ptc_motion_no_confidence = 0, ptc_committee_normal = 0,
          ptc_committee_no_confidence = 0, ptc_hard_fork_initiation = 0, ptc_pp_security_group = 0\<rparr>,
        cg_d_rep_voting_thresholds = \<lparr>dtc_motion_no_confidence = 0, dtc_committee_normal = 0,
          dtc_committee_no_confidence = 0, dtc_update_to_constitution = 0, dtc_hard_fork_initiation = 0,
          dtc_pp_network_group = 0, dtc_pp_economic_group = 0, dtc_pp_technical_group = 0,
          dtc_pp_gov_group = 0, dtc_treasury_withdrawal = 0\<rparr>,
        cg_committee_min_size = 1, cg_committee_max_term_length = 1, cg_gov_action_lifetime = 1,
        cg_gov_action_deposit = 1, cg_d_rep_deposit = 1, cg_d_rep_activity = 1,
        cg_min_fee_ref_script_cost_per_byte = 1\<rparr>\<rparr>"


text \<open>
  A set of protocol parameters is a map from kinds to values: it never holds a kind twice,
  and merging an update into it gives, for each kind, the last value the update has for it and
  otherwise the value of the set.
\<close>

theorem pparams_merge_is_override:
  assumes "distinct (map kind_of s)"
  shows "distinct (map kind_of (pp_merge s other)) \<and>
    (\<forall>k. pp_get (pp_merge s other) k = (case pp_get (rev other) k of Some v \<Rightarrow> Some v | None \<Rightarrow> pp_get s k))"
  using pp_merge_distinct [OF assms] pp_merge_get by blast

theorem pparams_merge_is_override_witness:
  "pp_get (pp_merge [KeyDeposit 1, PoolDeposit 2] [PoolDeposit 5, PoolDeposit 6]) KPoolDeposit = Some (PoolDeposit 6)"
  using pparams_merge_is_override [of "[KeyDeposit 1, PoolDeposit 2]" "[PoolDeposit 5, PoolDeposit 6]"]
  by (simp add: pp_get_Cons)

end
