(* ===== verification/Pots.thy ===== *)
theory Pots
  imports Complex_Main Dolos_Prelude
begin

text \<open>
  The ledger's pots of lovelace (\<^verbatim>\<open>crates/cardano/src/pots.rs\<close>): the pots, the
  epoch's incentives and the update of the pots at an epoch boundary, in the arithmetic of each
  build. The theory proves the conservation of the supply. \<^verbatim>\<open>BigRational\<close> is the type
  of rationals; dividing by zero panics. The approximation of a float by a fraction is a library
  function, the argument \<open>approximate_float\<close>.
\<close>

section \<open>Pots\<close>

record pots =
  pot_reserves :: lovelace
  pot_treasury :: lovelace
  pot_utxos :: lovelace
  pot_rewards :: lovelace
  pot_fees :: lovelace
  pot_pool_count :: u64
  pot_account_count :: u64
  pot_deposit_per_pool :: u64
  pot_deposit_per_account :: u64
  pot_nominal_deposits :: u64
  pot_drep_deposits :: lovelace
  pot_proposal_deposits :: lovelace

definition pots_default :: pots where
  "pots_default = \<lparr>pot_reserves = 0, pot_treasury = 0, pot_utxos = 0, pot_rewards = 0, pot_fees = 0,
     pot_pool_count = 0, pot_account_count = 0, pot_deposit_per_pool = 0, pot_deposit_per_account = 0,
     pot_nominal_deposits = 0, pot_drep_deposits = 0, pot_proposal_deposits = 0\<rparr>"

definition stake_deposits :: "build \<Rightarrow> pots \<Rightarrow> lovelace option" where
  "stake_deposits b p = do {
     pool_deposits \<leftarrow> raw_mul b (pot_deposit_per_pool p) (pot_pool_count p);
     account_deposits \<leftarrow> raw_mul b (pot_deposit_per_account p) (pot_account_count p);
     raw_add b pool_deposits account_deposits
   }"

definition obligations :: "build \<Rightarrow> pots \<Rightarrow> lovelace option" where
  "obligations b p = do {
     s \<leftarrow> stake_deposits b p;
     x \<leftarrow> raw_add b (pot_nominal_deposits p) s;
     x \<leftarrow> raw_add b x (pot_drep_deposits p);
     raw_add b x (pot_proposal_deposits p)
   }"

definition max_supply :: "build \<Rightarrow> pots \<Rightarrow> lovelace option" where
  "max_supply b p = do {
     x \<leftarrow> raw_add b (pot_reserves p) (pot_treasury p);
     x \<leftarrow> raw_add b x (pot_utxos p);
     x \<leftarrow> raw_add b x (pot_rewards p);
     x \<leftarrow> raw_add b x (pot_fees p);
     owed \<leftarrow> obligations b p;
     raw_add b x owed
   }"

definition circulating :: "build \<Rightarrow> pots \<Rightarrow> lovelace option" where
  "circulating b p = do {m \<leftarrow> max_supply b p; raw_sub b m (pot_reserves p)}"

definition is_consistent :: "build \<Rightarrow> pots \<Rightarrow> lovelace \<Rightarrow> bool option" where
  "is_consistent b p expected_max_supply = do {m \<leftarrow> max_supply b p; Some (m = expected_max_supply)}"

record epoch_incentives =
  inc_total :: u64
  inc_treasury_tax :: u64
  inc_available_rewards :: u64
  inc_used_fees :: u64

definition epoch_incentives_default :: epoch_incentives where
  "epoch_incentives_default =
     \<lparr>inc_total = 0, inc_treasury_tax = 0, inc_available_rewards = 0, inc_used_fees = 0\<rparr>"

record pot_delta =
  pd_produced_utxos :: lovelace
  pd_consumed_utxos :: lovelace
  pd_gathered_fees :: lovelace
  pd_new_accounts :: u64
  pd_removed_accounts :: u64
  pd_pool_deposit_count :: u64
  pd_pool_refund_count :: u64
  pd_pool_invalid_refund_count :: u64
  pd_withdrawals :: lovelace
  pd_effective_rewards :: lovelace
  pd_unspendable_to_treasury :: lovelace
  pd_unspendable_to_reserves :: lovelace
  pd_drep_deposits :: lovelace
  pd_proposal_deposits :: lovelace
  pd_drep_refunds :: lovelace
  pd_proposal_refunds :: lovelace
  pd_treasury_donations :: lovelace
  pd_proposal_invalid_refunds :: lovelace
  pd_deposit_per_account :: "lovelace option"
  pd_deposit_per_pool :: "lovelace option"
  pd_protocol_version :: u16
  pd_reserve_mirs :: lovelace
  pd_mark_protocol_version :: u16
  pd_avvm_reclamation :: lovelace
  pd_treasury_mirs :: lovelace
  pd_treasury_withdrawals :: lovelace

definition pot_delta_neutral :: "u16 \<Rightarrow> u16 \<Rightarrow> pot_delta" where
  "pot_delta_neutral protocol_version mark_protocol_version = \<lparr>
     pd_produced_utxos = 0, pd_consumed_utxos = 0, pd_gathered_fees = 0, pd_new_accounts = 0,
     pd_removed_accounts = 0, pd_pool_deposit_count = 0, pd_pool_refund_count = 0,
     pd_pool_invalid_refund_count = 0, pd_withdrawals = 0, pd_effective_rewards = 0,
     pd_unspendable_to_treasury = 0, pd_unspendable_to_reserves = 0, pd_drep_deposits = 0,
     pd_proposal_deposits = 0, pd_drep_refunds = 0, pd_proposal_refunds = 0,
     pd_treasury_donations = 0, pd_proposal_invalid_refunds = 0, pd_deposit_per_account = None,
     pd_deposit_per_pool = None, pd_protocol_version = protocol_version, pd_reserve_mirs = 0,
     pd_mark_protocol_version = mark_protocol_version, pd_avvm_reclamation = 0,
     pd_treasury_mirs = 0, pd_treasury_withdrawals = 0\<rparr>"

definition consumed_incentives :: "build \<Rightarrow> pot_delta \<Rightarrow> lovelace option" where
  "consumed_incentives b d = raw_add b (pd_effective_rewards d) (pd_unspendable_to_treasury d)"

definition incentives_back_to_treasury :: "pot_delta \<Rightarrow> lovelace" where
  "incentives_back_to_treasury d = pd_unspendable_to_treasury d"

definition total_unspendable :: "build \<Rightarrow> pot_delta \<Rightarrow> lovelace option" where
  "total_unspendable b d = raw_add b (pd_unspendable_to_treasury d) (pd_unspendable_to_reserves d)"

section \<open>Incentives\<close>

text \<open>\<^verbatim>\<open>floor_int!(x, u64)\<close>: the floor, when it is a \<^verbatim>\<open>u64\<close>.\<close>

definition floor_u64 :: "rat \<Rightarrow> u64 option" where
  "floor_u64 x = (if 0 \<le> \<lfloor>x\<rfloor> \<and> \<lfloor>x\<rfloor> < 2 ^ 64 then Some (word_of_int \<lfloor>x\<rfloor>) else None)"

definition ratio_u64 :: "u64 \<Rightarrow> rat" where
  "ratio_u64 x = of_nat (unat x)"

definition calculate_eta :: "('f \<Rightarrow> (int \<times> int) option) \<Rightarrow> u64 \<Rightarrow> rat \<Rightarrow> 'f \<Rightarrow> u64 \<Rightarrow> rat option" where
  "calculate_eta approximate_float minted_blocks d f epoch_length =
     (if 8 / 10 \<le> d then Some 1
      else do {
        (numer, denom) \<leftarrow> approximate_float f;
        _ \<leftarrow> assert_that (denom \<noteq> 0);
        let f = (of_int numer :: rat) / of_int denom;
        let expected_blocks = f * ratio_u64 epoch_length;
        let expected_non_obft_blocks = expected_blocks * (1 - d);
        _ \<leftarrow> assert_that (expected_non_obft_blocks \<noteq> 0);
        let eta = ratio_u64 minted_blocks / expected_non_obft_blocks;
        Some (min 1 eta)
      })"

definition epoch_incentives_of ::
  "build \<Rightarrow> u64 \<Rightarrow> u64 \<Rightarrow> rat \<Rightarrow> rat \<Rightarrow> rat \<Rightarrow> epoch_incentives option" where
  "epoch_incentives_of b reserves fee_ss rho tau eta = do {
     let incentives_q = eta * rho * ratio_u64 reserves;
     delta_r1 \<leftarrow> floor_u64 incentives_q;
     reward_pot \<leftarrow> raw_add b fee_ss delta_r1;
     treasury_tax \<leftarrow> floor_u64 (tau * ratio_u64 reward_pot);
     available_rewards \<leftarrow> raw_sub b reward_pot treasury_tax;
     Some \<lparr>inc_total = delta_r1, inc_treasury_tax = treasury_tax,
           inc_available_rewards = available_rewards, inc_used_fees = fee_ss\<rparr>
   }"

section \<open>The update at an epoch boundary\<close>

definition apply_byron_delta :: "build \<Rightarrow> pots \<Rightarrow> epoch_incentives \<Rightarrow> pot_delta \<Rightarrow> pots option" where
  "apply_byron_delta b p i d = do {
     let p = p\<lparr>pot_deposit_per_pool := 0, pot_deposit_per_account := 0, pot_treasury := 0,
               pot_fees := 0, pot_rewards := 0, pot_pool_count := 0, pot_account_count := 0,
               pot_drep_deposits := 0, pot_proposal_deposits := 0\<rparr>;
     utxos \<leftarrow> add_m b (pot_utxos p) (pd_produced_utxos d);
     utxos \<leftarrow> sub_m b utxos (pd_consumed_utxos d);
     reserves \<leftarrow> sub_m b (pot_reserves p) (pd_produced_utxos d);
     reserves \<leftarrow> add_m b reserves (pd_consumed_utxos d);
     Some (p\<lparr>pot_utxos := utxos, pot_reserves := reserves\<rparr>)
   }"

definition apply_shelley_delta :: "build \<Rightarrow> pots \<Rightarrow> epoch_incentives \<Rightarrow> pot_delta \<Rightarrow> pots option" where
  "apply_shelley_delta b p i d = do {
     used_rewards \<leftarrow> consumed_incentives b d;
     returned_rewards \<leftarrow> sub_m b (inc_available_rewards i) used_rewards;
     let deposit_per_pool = case_option (pot_deposit_per_pool p) id (pd_deposit_per_pool d);
     let deposit_per_account = case_option (pot_deposit_per_account p) id (pd_deposit_per_account d);
     reserves \<leftarrow> sub_m b (pot_reserves p) (inc_total i);
     reserves \<leftarrow> sub_m b reserves (pd_reserve_mirs d);
     reserves \<leftarrow> add_m b reserves returned_rewards;
     treasury \<leftarrow> add_m b (pot_treasury p) (inc_treasury_tax i);
     treasury \<leftarrow> add_m b treasury (incentives_back_to_treasury d);
     invalid_refunds \<leftarrow> raw_mul b (pd_pool_invalid_refund_count d) deposit_per_pool;
     treasury \<leftarrow> add_m b treasury invalid_refunds;
     treasury \<leftarrow> add_m b treasury (pd_proposal_invalid_refunds d);
     treasury \<leftarrow> add_m b treasury (pd_treasury_donations d);
     treasury \<leftarrow> sub_m b treasury (pd_treasury_mirs d);
     treasury \<leftarrow> sub_m b treasury (pd_treasury_withdrawals d);
     fees \<leftarrow> sub_m b (pot_fees p) (inc_used_fees i);
     fees \<leftarrow> add_m b fees (pd_gathered_fees d);
     rewards \<leftarrow> add_m b (pot_rewards p) (pd_effective_rewards d);
     rewards \<leftarrow> sub_m b rewards (pd_withdrawals d);
     refunds \<leftarrow> raw_mul b (pd_pool_refund_count d) deposit_per_pool;
     rewards \<leftarrow> add_m b rewards refunds;
     rewards \<leftarrow> add_m b rewards (pd_proposal_refunds d);
     rewards \<leftarrow> add_m b rewards (pd_reserve_mirs d);
     rewards \<leftarrow> add_m b rewards (pd_treasury_mirs d);
     rewards \<leftarrow> add_m b rewards (pd_treasury_withdrawals d);
     utxos \<leftarrow> add_m b (pot_utxos p) (pd_produced_utxos d);
     utxos \<leftarrow> sub_m b utxos (pd_consumed_utxos d);
     utxos \<leftarrow> sub_m b utxos (pd_avvm_reclamation d);
     reserves \<leftarrow> add_m b reserves (pd_avvm_reclamation d);
     pool_count \<leftarrow> add_m b (pot_pool_count p) (pd_pool_deposit_count d);
     pool_count \<leftarrow> sub_m b pool_count (pd_pool_refund_count d);
     pool_count \<leftarrow> sub_m b pool_count (pd_pool_invalid_refund_count d);
     account_count \<leftarrow> add_m b (pot_account_count p) (pd_new_accounts d);
     account_count \<leftarrow> sub_m b account_count (pd_removed_accounts d);
     drep_deposits \<leftarrow> add_m b (pot_drep_deposits p) (pd_drep_deposits d);
     drep_deposits \<leftarrow> sub_m b drep_deposits (pd_drep_refunds d);
     proposal_deposits \<leftarrow> add_m b (pot_proposal_deposits p) (pd_proposal_deposits d);
     proposal_deposits \<leftarrow> sub_m b proposal_deposits (pd_proposal_refunds d);
     proposal_deposits \<leftarrow> sub_m b proposal_deposits (pd_proposal_invalid_refunds d);
     Some (p\<lparr>pot_deposit_per_pool := deposit_per_pool, pot_deposit_per_account := deposit_per_account,
             pot_reserves := reserves, pot_treasury := treasury, pot_fees := fees,
             pot_rewards := rewards, pot_utxos := utxos, pot_pool_count := pool_count,
             pot_account_count := account_count, pot_drep_deposits := drep_deposits,
             pot_proposal_deposits := proposal_deposits\<rparr>)
   }"

definition apply_delta :: "build \<Rightarrow> pots \<Rightarrow> epoch_incentives \<Rightarrow> pot_delta \<Rightarrow> pots option" where
  "apply_delta b p i d =
     (if pd_protocol_version d = 0 \<or> pd_protocol_version d = 1
      then apply_byron_delta b p i d else apply_shelley_delta b p i d)"

section \<open>The checked build is exact\<close>

text \<open>The build in which every operation is checked, and its readings as natural numbers.\<close>

definition checked :: build where
  "checked = \<lparr>strict = True, overflow_checks = True\<rparr>"

lemma add_m_checked [panic_simps]:
  fixes x y :: u64
  shows "(add_m checked x y = Some z) \<longleftrightarrow> unat x + unat y < 2 ^ 64 \<and> z = x + y \<and> unat z = unat x + unat y"
  by (simp add: add_m_def checked_def checked_add_Some)

lemma sub_m_checked [panic_simps]:
  fixes x y :: u64
  shows "(sub_m checked x y = Some z) \<longleftrightarrow> y \<le> x \<and> z = x - y \<and> unat z + unat y = unat x"
  by (simp add: sub_m_def checked_def checked_sub_Some)

lemma raw_add_checked [panic_simps]:
  fixes x y :: u64
  shows "(raw_add checked x y = Some z) \<longleftrightarrow> unat x + unat y < 2 ^ 64 \<and> z = x + y \<and> unat z = unat x + unat y"
  by (simp add: raw_add_def checked_def checked_add_Some)

lemma raw_sub_checked [panic_simps]:
  fixes x y :: u64
  shows "(raw_sub checked x y = Some z) \<longleftrightarrow> y \<le> x \<and> z = x - y \<and> unat z + unat y = unat x"
  by (simp add: raw_sub_def checked_def checked_sub_Some)

lemma raw_mul_checked [panic_simps]:
  fixes x y :: u64
  shows "(raw_mul checked x y = Some z) \<longleftrightarrow> unat x * unat y < 2 ^ 64 \<and> z = x * y \<and> unat z = unat x * unat y"
  by (simp add: raw_mul_def checked_def checked_mul_Some)

text \<open>Every build agrees with the checked one where the checked one does not panic.\<close>

lemma add_m_checkedD: "add_m checked x y = Some z \<Longrightarrow> add_m b x (y :: u64) = Some z"
  by (cases "strict b") (auto simp: add_m_def checked_def checked_add_def saturating_add_def split: if_splits)

lemma sub_m_checkedD: "sub_m checked x y = Some z \<Longrightarrow> sub_m b x (y :: u64) = Some z"
  by (cases "strict b") (auto simp: sub_m_def checked_def checked_sub_def saturating_sub_def split: if_splits)

lemma raw_add_checkedD: "raw_add checked x y = Some z \<Longrightarrow> raw_add b x (y :: u64) = Some z"
  by (auto simp: raw_add_def checked_def checked_add_def split: if_splits)

lemma raw_sub_checkedD: "raw_sub checked x y = Some z \<Longrightarrow> raw_sub b x (y :: u64) = Some z"
  by (auto simp: raw_sub_def checked_def checked_sub_def split: if_splits)

lemma raw_mul_checkedD: "raw_mul checked x y = Some z \<Longrightarrow> raw_mul b x (y :: u64) = Some z"
  by (auto simp: raw_mul_def checked_def checked_mul_def split: if_splits)

lemmas checkedD = add_m_checkedD sub_m_checkedD raw_add_checkedD raw_sub_checkedD raw_mul_checkedD

lemma bind_refine:
  "Option.bind x f = Some z \<Longrightarrow> (\<And>y. x = Some y \<Longrightarrow> x' = Some y) \<Longrightarrow> (\<And>y. f y = Some z \<Longrightarrow> f' y = Some z)
    \<Longrightarrow> Option.bind x' f' = Some z"
  by (cases x) auto

lemma apply_shelley_delta_checkedD:
  "apply_shelley_delta checked p i d = Some p' \<Longrightarrow> apply_shelley_delta b p i d = Some p'"
  unfolding apply_shelley_delta_def consumed_incentives_def Let_def
  by ((erule bind_refine, erule checkedD)+, assumption)

lemma apply_byron_delta_checkedD:
  "apply_byron_delta checked p i d = Some p' \<Longrightarrow> apply_byron_delta b p i d = Some p'"
  unfolding apply_byron_delta_def Let_def
  by ((erule bind_refine, erule checkedD)+, assumption)

lemma apply_delta_checkedD:
  "apply_delta checked p i d = Some p' \<Longrightarrow> apply_delta b p i d = Some p'"
  by (auto simp: apply_delta_def intro: apply_shelley_delta_checkedD apply_byron_delta_checkedD split: if_splits)

section \<open>Conservation of the supply\<close>

text \<open>The supply as a natural number, and what the build's sum says of it.\<close>

definition total_supply :: "pots \<Rightarrow> nat" where
  "total_supply p = unat (pot_reserves p) + unat (pot_treasury p) + unat (pot_utxos p)
     + unat (pot_rewards p) + unat (pot_fees p) + unat (pot_nominal_deposits p)
     + unat (pot_deposit_per_pool p) * unat (pot_pool_count p)
     + unat (pot_deposit_per_account p) * unat (pot_account_count p)
     + unat (pot_drep_deposits p) + unat (pot_proposal_deposits p)"

lemma max_supply_checked: "max_supply checked p = Some m \<Longrightarrow> unat m = total_supply p"
  unfolding max_supply_def obligations_def stake_deposits_def total_supply_def
  by (auto simp: panic_simps)

lemma raw_add_fits: "unat x + unat y < 2 ^ 64 \<Longrightarrow> raw_add b x (y :: u64) = Some (x + y) \<and> unat (x + y) = unat x + unat y"
  by (simp add: raw_add_def checked_add_def unat_add_no_overflow)

lemma raw_mul_fits: "unat x * unat y < 2 ^ 64 \<Longrightarrow> raw_mul b x (y :: u64) = Some (x * y) \<and> unat (x * y) = unat x * unat y"
  by (simp add: raw_mul_def checked_mul_def unat_mul_no_overflow)

lemma max_supply_fits:
  assumes "total_supply p < 2 ^ 64"
  shows "max_supply b p = Some (word_of_nat (total_supply p))"
proof -
  have fits: "unat (pot_deposit_per_pool p) * unat (pot_pool_count p) < 2 ^ 64"
      "unat (pot_deposit_per_account p) * unat (pot_account_count p) < 2 ^ 64"
    using assms by (auto simp: total_supply_def)
  have "\<exists>m. max_supply b p = Some m \<and> unat m = total_supply p"
    using assms unfolding max_supply_def obligations_def stake_deposits_def total_supply_def
    by (simp add: raw_mul_fits [OF fits(1)] raw_mul_fits [OF fits(2)] raw_add_fits)
  then show ?thesis by (metis of_nat_unat ucast_id)
qed

lemma bindE: "Option.bind x f = Some z \<Longrightarrow> (\<And>y. x = Some y \<Longrightarrow> f y = Some z \<Longrightarrow> P) \<Longrightarrow> P"
  by (cases x) auto

lemma checked_unat:
  "add_m checked x y = Some z \<Longrightarrow> unat (z :: u64) = unat x + unat y"
  "sub_m checked x y = Some z \<Longrightarrow> unat z + unat y = unat x"
  "raw_add checked x y = Some z \<Longrightarrow> unat z = unat x + unat y"
  "raw_mul checked x y = Some z \<Longrightarrow> unat z = unat x * unat y"
  by (auto simp: panic_simps)

lemma shelley_params:
  assumes "apply_shelley_delta b p i d = Some p'"
  shows "pot_nominal_deposits p' = pot_nominal_deposits p"
    and "pot_deposit_per_pool p' = case_option (pot_deposit_per_pool p) id (pd_deposit_per_pool d)"
    and "pot_deposit_per_account p' = case_option (pot_deposit_per_account p) id (pd_deposit_per_account d)"
  using assms unfolding apply_shelley_delta_def Let_def by - (elim bindE, clarsimp)+

text \<open>The flows in and out of each pot.\<close>

lemma shelley_flows:
  assumes "apply_shelley_delta checked p i d = Some p'"
  defines "dpp \<equiv> unat (pot_deposit_per_pool p')"
  shows "unat (pot_reserves p') + unat (inc_total i) + unat (pd_reserve_mirs d)
      + unat (pd_effective_rewards d) + unat (pd_unspendable_to_treasury d)
      = unat (pot_reserves p) + unat (inc_available_rewards i) + unat (pd_avvm_reclamation d)"
    and "unat (pot_treasury p') + unat (pd_treasury_mirs d) + unat (pd_treasury_withdrawals d)
      = unat (pot_treasury p) + unat (inc_treasury_tax i) + unat (pd_unspendable_to_treasury d)
      + unat (pd_pool_invalid_refund_count d) * dpp + unat (pd_proposal_invalid_refunds d)
      + unat (pd_treasury_donations d)"
    and "unat (pot_fees p') + unat (inc_used_fees i) = unat (pot_fees p) + unat (pd_gathered_fees d)"
    and "unat (pot_rewards p') + unat (pd_withdrawals d)
      = unat (pot_rewards p) + unat (pd_effective_rewards d) + unat (pd_pool_refund_count d) * dpp
      + unat (pd_proposal_refunds d) + unat (pd_reserve_mirs d) + unat (pd_treasury_mirs d)
      + unat (pd_treasury_withdrawals d)"
    and "unat (pot_utxos p') + unat (pd_consumed_utxos d) + unat (pd_avvm_reclamation d)
      = unat (pot_utxos p) + unat (pd_produced_utxos d)"
    and "unat (pot_pool_count p') + unat (pd_pool_refund_count d) + unat (pd_pool_invalid_refund_count d)
      = unat (pot_pool_count p) + unat (pd_pool_deposit_count d)"
    and "unat (pot_account_count p') + unat (pd_removed_accounts d)
      = unat (pot_account_count p) + unat (pd_new_accounts d)"
    and "unat (pot_drep_deposits p') + unat (pd_drep_refunds d)
      = unat (pot_drep_deposits p) + unat (pd_drep_deposits d)"
    and "unat (pot_proposal_deposits p') + unat (pd_proposal_refunds d) + unat (pd_proposal_invalid_refunds d)
      = unat (pot_proposal_deposits p) + unat (pd_proposal_deposits d)"
proof -
  from assms(1) obtain used ret r1 r2 r3 t1 t2 inv t3 t4 t5 t6 f1 w1 w2 ref w3 w4 w5 w6 u1 u2
      c1 c2 a1 e1 q1 q2 where
    reserves: "raw_add checked (pd_effective_rewards d) (pd_unspendable_to_treasury d) = Some used"
      "sub_m checked (inc_available_rewards i) used = Some ret"
      "sub_m checked (pot_reserves p) (inc_total i) = Some r1"
      "sub_m checked r1 (pd_reserve_mirs d) = Some r2" "add_m checked r2 ret = Some r3"
      "add_m checked r3 (pd_avvm_reclamation d) = Some (pot_reserves p')"
    and treasury: "add_m checked (pot_treasury p) (inc_treasury_tax i) = Some t1"
      "add_m checked t1 (pd_unspendable_to_treasury d) = Some t2"
      "raw_mul checked (pd_pool_invalid_refund_count d) (pot_deposit_per_pool p') = Some inv"
      "add_m checked t2 inv = Some t3" "add_m checked t3 (pd_proposal_invalid_refunds d) = Some t4"
      "add_m checked t4 (pd_treasury_donations d) = Some t5"
      "sub_m checked t5 (pd_treasury_mirs d) = Some t6"
      "sub_m checked t6 (pd_treasury_withdrawals d) = Some (pot_treasury p')"
    and fees: "sub_m checked (pot_fees p) (inc_used_fees i) = Some f1"
      "add_m checked f1 (pd_gathered_fees d) = Some (pot_fees p')"
    and rewards: "add_m checked (pot_rewards p) (pd_effective_rewards d) = Some w1"
      "sub_m checked w1 (pd_withdrawals d) = Some w2"
      "raw_mul checked (pd_pool_refund_count d) (pot_deposit_per_pool p') = Some ref"
      "add_m checked w2 ref = Some w3" "add_m checked w3 (pd_proposal_refunds d) = Some w4"
      "add_m checked w4 (pd_reserve_mirs d) = Some w5" "add_m checked w5 (pd_treasury_mirs d) = Some w6"
      "add_m checked w6 (pd_treasury_withdrawals d) = Some (pot_rewards p')"
    and utxos: "add_m checked (pot_utxos p) (pd_produced_utxos d) = Some u1"
      "sub_m checked u1 (pd_consumed_utxos d) = Some u2"
      "sub_m checked u2 (pd_avvm_reclamation d) = Some (pot_utxos p')"
    and pools: "add_m checked (pot_pool_count p) (pd_pool_deposit_count d) = Some c1"
      "sub_m checked c1 (pd_pool_refund_count d) = Some c2"
      "sub_m checked c2 (pd_pool_invalid_refund_count d) = Some (pot_pool_count p')"
    and accounts: "add_m checked (pot_account_count p) (pd_new_accounts d) = Some a1"
      "sub_m checked a1 (pd_removed_accounts d) = Some (pot_account_count p')"
    and dreps: "add_m checked (pot_drep_deposits p) (pd_drep_deposits d) = Some e1"
      "sub_m checked e1 (pd_drep_refunds d) = Some (pot_drep_deposits p')"
    and proposals: "add_m checked (pot_proposal_deposits p) (pd_proposal_deposits d) = Some q1"
      "sub_m checked q1 (pd_proposal_refunds d) = Some q2"
      "sub_m checked q2 (pd_proposal_invalid_refunds d) = Some (pot_proposal_deposits p')"
    unfolding apply_shelley_delta_def consumed_incentives_def Let_def incentives_back_to_treasury_def
    by (elim bindE) (drule option.inject [THEN iffD1], drule sym, rule that;
      (assumption | simp (no_asm_simp) del: id_apply))
  show "unat (pot_reserves p') + unat (inc_total i) + unat (pd_reserve_mirs d)
      + unat (pd_effective_rewards d) + unat (pd_unspendable_to_treasury d)
      = unat (pot_reserves p) + unat (inc_available_rewards i) + unat (pd_avvm_reclamation d)"
    using reserves by - ((drule checked_unat)+, linarith)
  show "unat (pot_treasury p') + unat (pd_treasury_mirs d) + unat (pd_treasury_withdrawals d)
      = unat (pot_treasury p) + unat (inc_treasury_tax i) + unat (pd_unspendable_to_treasury d)
      + unat (pd_pool_invalid_refund_count d) * dpp + unat (pd_proposal_invalid_refunds d)
      + unat (pd_treasury_donations d)"
    using treasury unfolding dpp_def by - ((drule checked_unat)+, linarith)
  show "unat (pot_fees p') + unat (inc_used_fees i) = unat (pot_fees p) + unat (pd_gathered_fees d)"
    using fees by - ((drule checked_unat)+, linarith)
  show "unat (pot_rewards p') + unat (pd_withdrawals d)
      = unat (pot_rewards p) + unat (pd_effective_rewards d) + unat (pd_pool_refund_count d) * dpp
      + unat (pd_proposal_refunds d) + unat (pd_reserve_mirs d) + unat (pd_treasury_mirs d)
      + unat (pd_treasury_withdrawals d)"
    using rewards unfolding dpp_def by - ((drule checked_unat)+, linarith)
  show "unat (pot_utxos p') + unat (pd_consumed_utxos d) + unat (pd_avvm_reclamation d)
      = unat (pot_utxos p) + unat (pd_produced_utxos d)"
    using utxos by - ((drule checked_unat)+, linarith)
  show "unat (pot_pool_count p') + unat (pd_pool_refund_count d) + unat (pd_pool_invalid_refund_count d)
      = unat (pot_pool_count p) + unat (pd_pool_deposit_count d)"
    using pools by - ((drule checked_unat)+, linarith)
  show "unat (pot_account_count p') + unat (pd_removed_accounts d)
      = unat (pot_account_count p) + unat (pd_new_accounts d)"
    using accounts by - ((drule checked_unat)+, linarith)
  show "unat (pot_drep_deposits p') + unat (pd_drep_refunds d)
      = unat (pot_drep_deposits p) + unat (pd_drep_deposits d)"
    using dreps by - ((drule checked_unat)+, linarith)
  show "unat (pot_proposal_deposits p') + unat (pd_proposal_refunds d) + unat (pd_proposal_invalid_refunds d)
      = unat (pot_proposal_deposits p) + unat (pd_proposal_deposits d)"
    using proposals by - ((drule checked_unat)+, linarith)
qed

text \<open>
  The balance of the blocks of the epoch: what transactions consume and withdraw is what they
  produce, pay and deposit, with the deposit of an account or a pool at its current price.
\<close>

definition balanced :: "pots \<Rightarrow> pot_delta \<Rightarrow> bool" where
  "balanced p d \<longleftrightarrow>
     unat (pd_consumed_utxos d) + unat (pd_withdrawals d) + unat (pd_drep_refunds d)
       + unat (pot_deposit_per_account p) * unat (pd_removed_accounts d)
     = unat (pd_produced_utxos d) + unat (pd_gathered_fees d) + unat (pd_treasury_donations d)
       + unat (pot_deposit_per_pool p) * unat (pd_pool_deposit_count d)
       + unat (pot_deposit_per_account p) * unat (pd_new_accounts d)
       + unat (pd_drep_deposits d) + unat (pd_proposal_deposits d)"

text \<open>What is minted from the reserves and taken from the fees is taxed or made available.\<close>

definition incentives_balanced :: "epoch_incentives \<Rightarrow> bool" where
  "incentives_balanced i \<longleftrightarrow>
     unat (inc_total i) + unat (inc_used_fees i) = unat (inc_treasury_tax i) + unat (inc_available_rewards i)"

definition same_deposits :: "pots \<Rightarrow> pot_delta \<Rightarrow> bool" where
  "same_deposits p d \<longleftrightarrow>
     case_option (pot_deposit_per_pool p) id (pd_deposit_per_pool d) = pot_deposit_per_pool p \<and>
     case_option (pot_deposit_per_account p) id (pd_deposit_per_account d) = pot_deposit_per_account p"

lemma shelley_supply:
  assumes run: "apply_shelley_delta checked p i d = Some p'"
    and "balanced p d" and "incentives_balanced i" and "same_deposits p d"
  shows "total_supply p' = total_supply p"
proof -
  note params = shelley_params [OF run]
  have dep: "pot_deposit_per_pool p' = pot_deposit_per_pool p"
      "pot_deposit_per_account p' = pot_deposit_per_account p"
    using params(2,3) assms(4) by (simp_all add: same_deposits_def)
  note flows = shelley_flows [OF run]
  let ?k = "unat (pot_deposit_per_pool p)" and ?a = "unat (pot_deposit_per_account p)"
  have pools: "?k * unat (pot_pool_count p') + unat (pd_pool_refund_count d) * ?k
      + unat (pd_pool_invalid_refund_count d) * ?k
      = ?k * unat (pot_pool_count p) + ?k * unat (pd_pool_deposit_count d)"
    using arg_cong [OF flows(6), of "\<lambda>n. ?k * n"] by (simp add: algebra_simps)
  have accounts: "?a * unat (pot_account_count p') + ?a * unat (pd_removed_accounts d)
      = ?a * unat (pot_account_count p) + ?a * unat (pd_new_accounts d)"
    using arg_cong [OF flows(7), of "\<lambda>n. ?a * n"] by (simp add: algebra_simps)
  show ?thesis
    using flows(1-5,8,9) pools accounts assms(2,3)
    unfolding total_supply_def balanced_def incentives_balanced_def params(1) dep by linarith
qed

text \<open>Byron pots: only the UTxO set and the reserves exist.\<close>

definition byron_pots :: "pots \<Rightarrow> bool" where
  "byron_pots p \<longleftrightarrow> pot_deposit_per_pool p = 0 \<and> pot_deposit_per_account p = 0 \<and> pot_treasury p = 0
     \<and> pot_fees p = 0 \<and> pot_rewards p = 0 \<and> pot_drep_deposits p = 0 \<and> pot_proposal_deposits p = 0"

lemma byron_supply:
  assumes "apply_byron_delta checked p i d = Some p'" and "byron_pots p"
  shows "total_supply p' = total_supply p" and "byron_pots p'"
  using assms unfolding apply_byron_delta_def Let_def
  by - (elim bindE, (drule checked_unat)+, auto simp: total_supply_def byron_pots_def)+

section \<open>Incentives are balanced and bounded\<close>

lemma ratio_u64_nonneg [simp]: "0 \<le> ratio_u64 x"
  unfolding ratio_u64_def by (rule of_nat_0_le_iff)

lemma ratio_u64_pos [simp]: "0 < ratio_u64 x \<longleftrightarrow> 0 < x"
  unfolding ratio_u64_def of_nat_0_less_iff by (simp add: word_less_nat_alt)

lemma ratio_u64_int: "ratio_u64 x = of_int (uint x)"
  unfolding ratio_u64_def by simp

lemma floor_u64_fits:
  assumes "0 \<le> x" and "x \<le> ratio_u64 n"
  obtains z where "floor_u64 x = Some z" and "unat z \<le> unat n"
proof -
  have n: "\<lfloor>x\<rfloor> \<le> uint n" using assms(2) unfolding ratio_u64_int by linarith
  moreover have "uint n < 2 ^ 64" using uint_lt2p [of n] by simp
  ultimately have range: "0 \<le> \<lfloor>x\<rfloor>" "\<lfloor>x\<rfloor> < 2 ^ 64" using assms(1) by linarith+
  then have "floor_u64 x = Some (word_of_int \<lfloor>x\<rfloor>)" unfolding floor_u64_def by (simp only: simp_thms if_True)
  moreover have "uint (word_of_int \<lfloor>x\<rfloor> :: u64) = \<lfloor>x\<rfloor>"
    using take_bit_int_eq_self [OF range] by (simp add: uint_word_of_int_eq)
  ultimately show thesis
    using n by (intro that [of "word_of_int \<lfloor>x\<rfloor>"]) (simp_all add: word_le_nat_alt [symmetric] word_le_def)
qed

lemma epoch_incentives_of_balanced:
  assumes "0 \<le> eta" "eta \<le> 1" "0 \<le> rho" "rho \<le> 1" "0 \<le> tau" "tau \<le> 1"
    and "unat reserves + unat fee_ss < 2 ^ 64"
  obtains i where "epoch_incentives_of b reserves fee_ss rho tau eta = Some i"
    and "incentives_balanced i" and "unat (inc_total i) \<le> unat reserves" and "inc_used_fees i = fee_ss"
proof -
  have frac: "0 \<le> eta * rho" "eta * rho \<le> 1" using assms(1-4) by (simp_all add: mult_le_one)
  from frac have "0 \<le> eta * rho * ratio_u64 reserves" "eta * rho * ratio_u64 reserves \<le> ratio_u64 reserves"
    by (simp_all add: mult_left_le_one_le)
  then obtain m where m: "floor_u64 (eta * rho * ratio_u64 reserves) = Some m" "unat m \<le> unat reserves"
    by (rule floor_u64_fits)
  then have fits: "unat fee_ss + unat m < 2 ^ 64" using assms(7) by simp
  note pot = raw_add_fits [OF fits]
  have "0 \<le> tau * ratio_u64 (fee_ss + m)" "tau * ratio_u64 (fee_ss + m) \<le> ratio_u64 (fee_ss + m)"
    using assms(5,6) by (simp_all add: mult_left_le_one_le)
  then obtain t where t: "floor_u64 (tau * ratio_u64 (fee_ss + m)) = Some t" "unat t \<le> unat (fee_ss + m)"
    by (rule floor_u64_fits)
  then have "raw_sub b (fee_ss + m) t = Some (fee_ss + m - t)"
    and "unat (fee_ss + m - t) + unat t = unat (fee_ss + m)"
    by (simp_all add: raw_sub_def checked_sub_def word_le_nat_alt unat_sub_no_underflow)
  with m t pot show thesis
    by (intro that [of "\<lparr>inc_total = m, inc_treasury_tax = t, inc_available_rewards = fee_ss + m - t,
          inc_used_fees = fee_ss\<rparr>"])
      (simp_all add: epoch_incentives_of_def incentives_balanced_def)
qed

text \<open>Eta is a fraction, when the float of the genesis approximates to a positive one.\<close>

lemma calculate_eta_bounds:
  assumes "approximate_float f = Some (n, m)" and "0 < n" and "0 < m" and "0 < epoch_length"
  obtains eta where "calculate_eta approximate_float minted d f epoch_length = Some eta"
    and "0 \<le> eta" and "eta \<le> 1"
proof (cases "8 / 10 \<le> d")
  case True
  with that [of 1] show thesis by (simp add: calculate_eta_def)
next
  case False
  let ?e = "(of_int n :: rat) / of_int m * ratio_u64 epoch_length * (1 - d)"
  have pos: "0 < ?e" using False assms(2-4) by simp
  have "ratio_u64 epoch_length \<noteq> 0" using assms(4) ratio_u64_pos [of epoch_length] by linarith
  with False assms(1-3) have "calculate_eta approximate_float minted d f epoch_length =
      Some (min 1 (ratio_u64 minted / ?e))"
    by (simp add: calculate_eta_def Let_def)
  moreover have "0 \<le> ratio_u64 minted / ?e" by (rule divide_nonneg_pos [OF ratio_u64_nonneg pos])
  ultimately show thesis by (intro that [of "min 1 (ratio_u64 minted / ?e)"]) simp_all
qed

section \<open>Properties\<close>

text \<open>
  C11. No ada appears or disappears at an epoch boundary. When the flows of the epoch are balanced
  (what transactions consume, withdraw and reclaim is what they produce, pay and deposit), the
  incentives are taken from the reserves and the fees, and the deposits keep their price, every build
  of the program computes the same pots as the fully checked one, they hold the same total supply,
  and the consistency check the boundary makes on them succeeds.
\<close>

theorem pots_supply_conserved:
  assumes "apply_delta checked p i d = Some p'"
    and "if pd_protocol_version d \<in> {0, 1} then byron_pots p
         else balanced p d \<and> incentives_balanced i \<and> same_deposits p d"
    and "total_supply p < 2 ^ 64"
  shows "apply_delta b p i d = Some p' \<and> total_supply p' = total_supply p \<and>
    is_consistent b p' (word_of_nat (total_supply p)) = Some True"
proof -
  have same: "total_supply p' = total_supply p"
    using assms(1,2) byron_supply(1) shelley_supply by (auto simp: apply_delta_def split: if_splits)
  with max_supply_fits [of p' b] assms(3) have "is_consistent b p' (word_of_nat (total_supply p)) = Some True"
    by (simp add: is_consistent_def)
  with same apply_delta_checkedD [OF assms(1)] show ?thesis by blast
qed

text \<open>An epoch of a Shelley chain: one account opened, fees paid, part of the reserves distributed.\<close>

definition sample_pots :: pots where
  "sample_pots = pots_default\<lparr>pot_reserves := 1000, pot_utxos := 500, pot_fees := 10, pot_deposit_per_account := 2\<rparr>"

definition sample_incentives :: epoch_incentives where
  "sample_incentives = \<lparr>inc_total = 90, inc_treasury_tax = 20, inc_available_rewards = 80, inc_used_fees = 10\<rparr>"

definition sample_delta :: pot_delta where
  "sample_delta = (pot_delta_neutral 5 5)\<lparr>pd_consumed_utxos := 50, pd_produced_utxos := 45, pd_gathered_fees := 3,
     pd_new_accounts := 1, pd_effective_rewards := 60\<rparr>"

theorem pots_supply_conserved_witness:
  "\<exists>p'. apply_delta checked sample_pots sample_incentives sample_delta = Some p' \<and> total_supply p' = 1510 \<and>
     is_consistent checked p' 1510 = Some True"
proof -
  have "\<exists>p'. apply_delta checked sample_pots sample_incentives sample_delta = Some p'"
    by (simp add: apply_delta_def apply_shelley_delta_def sample_pots_def sample_incentives_def sample_delta_def
        pots_default_def pot_delta_neutral_def consumed_incentives_def incentives_back_to_treasury_def Let_def checked_def
        add_m_def sub_m_def raw_add_def raw_sub_def raw_mul_def checked_add_def checked_sub_def checked_mul_def)
  then obtain p' where run: "apply_delta checked sample_pots sample_incentives sample_delta = Some p'" by blast
  have "total_supply sample_pots = 1510" by (simp add: total_supply_def sample_pots_def pots_default_def)
  moreover have "if pd_protocol_version sample_delta \<in> {0, 1} then byron_pots sample_pots
      else balanced sample_pots sample_delta \<and> incentives_balanced sample_incentives \<and> same_deposits sample_pots sample_delta"
    by (simp add: sample_delta_def sample_pots_def sample_incentives_def pots_default_def pot_delta_neutral_def
        balanced_def incentives_balanced_def same_deposits_def)
  ultimately show ?thesis using pots_supply_conserved [OF run, of checked] by simp
qed

text \<open>
  C39. The incentives of an epoch. With a positive share of active slots in the genesis, the
  performance factor eta is a fraction between 0 and 1, and with fractions for the monetary expansion
  and the treasury cut the incentives exist in every build, use all the fees, take at most the
  reserves, and split what they take into the treasury's tax and the rewards without remainder.
\<close>

theorem incentives_bounded:
  assumes "approximate_float f = Some (n, m)" and "0 < n" and "0 < m" and "0 < epoch_length"
    and "0 \<le> rho" "rho \<le> 1" "0 \<le> tau" "tau \<le> 1"
    and "unat reserves + unat fee_ss < 2 ^ 64"
  shows "\<exists>eta i. calculate_eta approximate_float minted d f epoch_length = Some eta \<and> 0 \<le> eta \<and> eta \<le> 1 \<and>
    epoch_incentives_of b reserves fee_ss rho tau eta = Some i \<and> incentives_balanced i \<and>
    unat (inc_total i) \<le> unat reserves \<and> inc_used_fees i = fee_ss"
proof -
  obtain eta where eta: "calculate_eta approximate_float minted d f epoch_length = Some eta" "0 \<le> eta" "eta \<le> 1"
    by (rule calculate_eta_bounds [where approximate_float = approximate_float, OF assms(1-4), of minted d]) blast
  from epoch_incentives_of_balanced [OF this(2,3) assms(5-9), of b] eta show ?thesis by blast
qed

theorem incentives_bounded_witness:
  "\<exists>eta i. calculate_eta (\<lambda>_. Some (1, 20)) 12 0 () 100 = Some eta \<and> 0 \<le> eta \<and> eta \<le> 1 \<and>
    epoch_incentives_of checked 1000 10 (3 / 1000) (1 / 5) eta = Some i \<and> incentives_balanced i \<and>
    unat (inc_total i) \<le> unat (1000 :: u64) \<and> inc_used_fees i = 10"
  using incentives_bounded [of "\<lambda>_. Some (1, 20)" "()" 1 20 100 "3 / 1000" "1 / 5" 1000 10 12 0 checked] by simp

end
