(* ===== verification/Epochs.thy ===== *)
theory Epochs
  imports Epoch_Value Entity_Delta PParams Pots
begin

text \<open>
  The epoch singleton (\<^verbatim>\<open>crates/cardano/src/model/epochs.rs\<close>): the rolling and the
  closing statistics, the nonces, the cursors of the sharded boundary work, and the deltas that
  change them. The nonce functions are library functions, the arguments \<open>rolling_nonce\<close> and
  \<open>epoch_nonce\<close>. The \<^verbatim>\<open>debug_assert!\<close> of the epoch transition runs in the builds
  with overflow checks: the debug profile has both.
\<close>

section \<open>The entity\<close>

type_synonym u128 = "128 word"

record nonces =
  nc_active :: hash32
  nc_evolving :: hash32
  nc_candidate :: hash32
  nc_tail :: "hash32 option"

definition nonces_bootstrap :: "hash32 \<Rightarrow> nonces" where
  "nonces_bootstrap h = \<lparr>nc_active = h, nc_evolving = h, nc_candidate = h, nc_tail = None\<rparr>"

definition nonces_roll ::
  "(hash32 \<Rightarrow> bytes \<Rightarrow> hash32) \<Rightarrow> nonces \<Rightarrow> bool \<Rightarrow> bytes \<Rightarrow> hash32 option \<Rightarrow> nonces" where
  "nonces_roll rolling_nonce n update_candidate vrf tail =
     (let evolving = rolling_nonce (nc_evolving n) vrf
      in \<lparr>nc_active = nc_active n, nc_evolving = evolving,
          nc_candidate = (if update_candidate then evolving else nc_candidate n), nc_tail = tail\<rparr>)"

definition nonces_sweep ::
  "(hash32 \<Rightarrow> hash32 \<Rightarrow> bytes option \<Rightarrow> hash32) \<Rightarrow> nonces \<Rightarrow> hash32 option \<Rightarrow> bytes option \<Rightarrow> nonces" where
  "nonces_sweep epoch_nonce n previous_tail extra_entropy =
     \<lparr>nc_active = (case previous_tail of
         Some tail \<Rightarrow> epoch_nonce (nc_candidate n) tail extra_entropy
       | None \<Rightarrow> nc_candidate n),
      nc_evolving = nc_evolving n, nc_candidate = nc_evolving n, nc_tail = nc_tail n\<rparr>"

record rolling_stats =
  rs_produced_utxos :: u64
  rs_consumed_utxos :: u64
  rs_gathered_fees :: u64
  rs_new_accounts :: u64
  rs_removed_accounts :: u64
  rs_withdrawals :: u64
  rs_registered_pools :: "pool_hash set"
  rs_blocks_minted :: u32
  rs_drep_deposits :: u64
  rs_proposal_deposits :: u64
  rs_drep_refunds :: u64
  rs_proposal_refunds :: u64
  rs_treasury_donations :: u64
  rs_reserve_mirs :: u64
  rs_non_overlay_blocks_minted :: u32
  rs_treasury_mirs :: u64
  rs_tx_count :: u64
  rs_output :: u128
  rs_first_block_slot :: u64
  rs_last_block_slot :: u64

definition rolling_stats_default :: rolling_stats where
  "rolling_stats_default = \<lparr>rs_produced_utxos = 0, rs_consumed_utxos = 0, rs_gathered_fees = 0, rs_new_accounts = 0,
     rs_removed_accounts = 0, rs_withdrawals = 0, rs_registered_pools = {},
     rs_blocks_minted = 0, rs_drep_deposits = 0, rs_proposal_deposits = 0, rs_drep_refunds = 0,
     rs_proposal_refunds = 0, rs_treasury_donations = 0, rs_reserve_mirs = 0,
     rs_non_overlay_blocks_minted = 0, rs_treasury_mirs = 0, rs_tx_count = 0, rs_output = 0,
     rs_first_block_slot = 0, rs_last_block_slot = 0\<rparr>"

definition rolling_next_value :: "rolling_stats next_value" where
  "rolling_next_value current = Some (Some rolling_stats_default)"

record end_stats =
  es_pool_deposit_count :: u64
  es_pool_refund_count :: u64
  es_pool_invalid_refund_count :: u64
  es_epoch_incentives :: epoch_incentives
  es_effective_rewards :: u64
  es_unspendable_to_treasury :: u64
  es_unspendable_to_reserves :: u64
  es_treasury_mirs :: u64
  es_reserve_mirs :: u64
  es_invalid_treasury_mirs :: u64
  es_invalid_reserve_mirs :: u64
  es_treasury_withdrawals :: u64
  es_invalid_treasury_withdrawals :: u64
  es_proposal_invalid_refunds :: u64
  es_proposal_refunds :: u64
  es_drep_deposits :: u64
  es_drep_refunds :: u64

definition end_stats_default :: end_stats where
  "end_stats_default = \<lparr>es_pool_deposit_count = 0, es_pool_refund_count = 0, es_pool_invalid_refund_count = 0,
     es_epoch_incentives = epoch_incentives_default, es_effective_rewards = 0,
     es_unspendable_to_treasury = 0, es_unspendable_to_reserves = 0, es_treasury_mirs = 0,
     es_reserve_mirs = 0, es_invalid_treasury_mirs = 0, es_invalid_reserve_mirs = 0,
     es_treasury_withdrawals = 0, es_invalid_treasury_withdrawals = 0,
     es_proposal_invalid_refunds = 0, es_proposal_refunds = 0, es_drep_deposits = 0,
     es_drep_refunds = 0\<rparr>"

record shard_progress =
  sp_committed :: u32
  sp_total :: u32

record epoch_state =
  ep_number :: epoch
  ep_initial_pots :: pots
  ep_rolling :: "rolling_stats epoch_value"
  ep_pparams :: "pparams_set epoch_value"
  ep_largest_stable_slot :: block_slot
  ep_previous_nonce_tail :: "hash32 option"
  ep_nonces :: "nonces option"
  ep_end :: "end_stats option"
  ep_incentives :: "epoch_incentives option"
  ep_ewrap_progress :: "shard_progress option"
  ep_estart_progress :: "shard_progress option"
  ep_rupd_progress :: "shard_progress option"

definition epoch_state_default :: epoch_state where
  "epoch_state_default = \<lparr>ep_number = 0, ep_initial_pots = pots_default, ep_rolling = ev_new 0,
     ep_pparams = ev_new 0, ep_largest_stable_slot = 0, ep_previous_nonce_tail = None,
     ep_nonces = None, ep_end = None, ep_incentives = None, ep_ewrap_progress = None,
     ep_estart_progress = None, ep_rupd_progress = None\<rparr>"

definition epoch_ns :: namespace where
  "epoch_ns = ''epochs''"

text \<open>\<^verbatim>\<open>CURRENT_EPOCH_KEY\<close> is the one byte of the character \<^verbatim>\<open>0\<close>.\<close>

definition epoch_singleton_key :: ns_key where
  "epoch_singleton_key = (epoch_ns, entity_key_from [0x30])"

section \<open>Statistics of a block\<close>

record epoch_stats_update =
  esu_epoch :: epoch
  esu_block_fees :: u64
  esu_utxo_delta :: u64
  esu_new_accounts :: u64
  esu_removed_accounts :: u64
  esu_withdrawals :: u64
  esu_registered_pools :: "pool_hash set"
  esu_drep_deposits :: u64
  esu_proposal_deposits :: u64
  esu_drep_refunds :: u64
  esu_treasury_donations :: u64
  esu_reserve_mirs :: u64
  esu_treasury_mirs :: u64
  esu_non_overlay_blocks_minted :: u32
  esu_tx_count :: u64
  esu_output :: u128
  esu_block_slot :: u64
  esu_was_new :: bool
  esu_prev_registered_pools :: "pool_hash set"
  esu_prev_first_block_slot :: u64
  esu_prev_last_block_slot :: u64

definition epoch_stats_update_key :: "epoch_stats_update \<Rightarrow> ns_key" where
  "epoch_stats_update_key d = epoch_singleton_key"

text \<open>\<^verbatim>\<open>i64::unsigned_abs\<close> of the signed \<^verbatim>\<open>utxo_delta\<close>.\<close>

definition unsigned_abs :: "u64 \<Rightarrow> u64" where
  "unsigned_abs x = word_of_int \<bar>sint x\<bar>"

text \<open>The counters, one plain addition (or subtraction, on undo) after another.\<close>

definition add_counters :: "build \<Rightarrow> epoch_stats_update \<Rightarrow> rolling_stats \<Rightarrow> rolling_stats option" where
  "add_counters b d s = do {
     blocks_minted \<leftarrow> raw_add b (rs_blocks_minted s) 1;
     (produced_utxos, consumed_utxos) \<leftarrow>
       (if 0 < sint (esu_utxo_delta d)
        then do {x \<leftarrow> raw_add b (rs_produced_utxos s) (unsigned_abs (esu_utxo_delta d));
                 Some (x, rs_consumed_utxos s)}
        else do {x \<leftarrow> raw_add b (rs_consumed_utxos s) (unsigned_abs (esu_utxo_delta d));
                 Some (rs_produced_utxos s, x)});
     gathered_fees \<leftarrow> raw_add b (rs_gathered_fees s) (esu_block_fees d);
     new_accounts \<leftarrow> raw_add b (rs_new_accounts s) (esu_new_accounts d);
     removed_accounts \<leftarrow> raw_add b (rs_removed_accounts s) (esu_removed_accounts d);
     withdrawals \<leftarrow> raw_add b (rs_withdrawals s) (esu_withdrawals d);
     proposal_deposits \<leftarrow> raw_add b (rs_proposal_deposits s) (esu_proposal_deposits d);
     drep_deposits \<leftarrow> raw_add b (rs_drep_deposits s) (esu_drep_deposits d);
     drep_refunds \<leftarrow> raw_add b (rs_drep_refunds s) (esu_drep_refunds d);
     treasury_donations \<leftarrow> raw_add b (rs_treasury_donations s) (esu_treasury_donations d);
     reserve_mirs \<leftarrow> raw_add b (rs_reserve_mirs s) (esu_reserve_mirs d);
     treasury_mirs \<leftarrow> raw_add b (rs_treasury_mirs s) (esu_treasury_mirs d);
     non_overlay_blocks_minted \<leftarrow> raw_add b (rs_non_overlay_blocks_minted s) (esu_non_overlay_blocks_minted d);
     tx_count \<leftarrow> raw_add b (rs_tx_count s) (esu_tx_count d);
     output \<leftarrow> raw_add b (rs_output s) (esu_output d);
     Some (s\<lparr>rs_blocks_minted := blocks_minted, rs_produced_utxos := produced_utxos,
             rs_consumed_utxos := consumed_utxos, rs_gathered_fees := gathered_fees,
             rs_new_accounts := new_accounts, rs_removed_accounts := removed_accounts,
             rs_withdrawals := withdrawals, rs_proposal_deposits := proposal_deposits,
             rs_drep_deposits := drep_deposits, rs_drep_refunds := drep_refunds,
             rs_treasury_donations := treasury_donations, rs_reserve_mirs := reserve_mirs,
             rs_treasury_mirs := treasury_mirs,
             rs_non_overlay_blocks_minted := non_overlay_blocks_minted, rs_tx_count := tx_count,
             rs_output := output\<rparr>)
   }"

definition sub_counters :: "build \<Rightarrow> epoch_stats_update \<Rightarrow> rolling_stats \<Rightarrow> rolling_stats option" where
  "sub_counters b d s = do {
     blocks_minted \<leftarrow> raw_sub b (rs_blocks_minted s) 1;
     (produced_utxos, consumed_utxos) \<leftarrow>
       (if 0 < sint (esu_utxo_delta d)
        then do {x \<leftarrow> raw_sub b (rs_produced_utxos s) (unsigned_abs (esu_utxo_delta d));
                 Some (x, rs_consumed_utxos s)}
        else do {x \<leftarrow> raw_sub b (rs_consumed_utxos s) (unsigned_abs (esu_utxo_delta d));
                 Some (rs_produced_utxos s, x)});
     gathered_fees \<leftarrow> raw_sub b (rs_gathered_fees s) (esu_block_fees d);
     new_accounts \<leftarrow> raw_sub b (rs_new_accounts s) (esu_new_accounts d);
     removed_accounts \<leftarrow> raw_sub b (rs_removed_accounts s) (esu_removed_accounts d);
     withdrawals \<leftarrow> raw_sub b (rs_withdrawals s) (esu_withdrawals d);
     proposal_deposits \<leftarrow> raw_sub b (rs_proposal_deposits s) (esu_proposal_deposits d);
     drep_deposits \<leftarrow> raw_sub b (rs_drep_deposits s) (esu_drep_deposits d);
     drep_refunds \<leftarrow> raw_sub b (rs_drep_refunds s) (esu_drep_refunds d);
     treasury_donations \<leftarrow> raw_sub b (rs_treasury_donations s) (esu_treasury_donations d);
     reserve_mirs \<leftarrow> raw_sub b (rs_reserve_mirs s) (esu_reserve_mirs d);
     treasury_mirs \<leftarrow> raw_sub b (rs_treasury_mirs s) (esu_treasury_mirs d);
     non_overlay_blocks_minted \<leftarrow> raw_sub b (rs_non_overlay_blocks_minted s) (esu_non_overlay_blocks_minted d);
     tx_count \<leftarrow> raw_sub b (rs_tx_count s) (esu_tx_count d);
     output \<leftarrow> raw_sub b (rs_output s) (esu_output d);
     Some (s\<lparr>rs_blocks_minted := blocks_minted, rs_produced_utxos := produced_utxos,
             rs_consumed_utxos := consumed_utxos, rs_gathered_fees := gathered_fees,
             rs_new_accounts := new_accounts, rs_removed_accounts := removed_accounts,
             rs_withdrawals := withdrawals, rs_proposal_deposits := proposal_deposits,
             rs_drep_deposits := drep_deposits, rs_drep_refunds := drep_refunds,
             rs_treasury_donations := treasury_donations, rs_reserve_mirs := reserve_mirs,
             rs_treasury_mirs := treasury_mirs,
             rs_non_overlay_blocks_minted := non_overlay_blocks_minted, rs_tx_count := tx_count,
             rs_output := output\<rparr>)
   }"

definition epoch_stats_update_apply :: "build \<Rightarrow> (epoch_stats_update, epoch_state) apply_fn" where
  "epoch_stats_update_apply b d entity = do {
     e \<leftarrow> entity;
     live_slot \<leftarrow> ev_live_mut b (ep_rolling e) (esu_epoch d);
     let d = d\<lparr>esu_was_new := (live_slot = None)\<rparr>;
     let s = get_or_insert live_slot rolling_stats_default;
     let d = d\<lparr>esu_prev_registered_pools := rs_registered_pools s\<rparr>;
     s \<leftarrow> add_counters b d s;
     let d = d\<lparr>esu_prev_first_block_slot := rs_first_block_slot s,
               esu_prev_last_block_slot := rs_last_block_slot s\<rparr>;
     let s = (if rs_first_block_slot s = 0 then s\<lparr>rs_first_block_slot := esu_block_slot d\<rparr> else s);
     let s = s\<lparr>rs_last_block_slot := esu_block_slot d,
               rs_registered_pools := rs_registered_pools s \<union> esu_registered_pools d\<rparr>;
     Some (d, Some (e\<lparr>ep_rolling := (ep_rolling e)\<lparr>ev_live := Some s\<rparr>\<rparr>))
   }"

definition epoch_stats_update_undo :: "build \<Rightarrow> (epoch_stats_update, epoch_state) undo_fn" where
  "epoch_stats_update_undo b d entity = do {
     e \<leftarrow> entity;
     live_slot \<leftarrow> ev_live_mut b (ep_rolling e) (esu_epoch d);
     if esu_was_new d then Some (Some (e\<lparr>ep_rolling := (ep_rolling e)\<lparr>ev_live := None\<rparr>\<rparr>))
     else do {
       s \<leftarrow> live_slot;
       s \<leftarrow> sub_counters b d s;
       let s = s\<lparr>rs_first_block_slot := esu_prev_first_block_slot d,
                 rs_last_block_slot := esu_prev_last_block_slot d,
                 rs_registered_pools := esu_prev_registered_pools d\<rparr>;
       Some (Some (e\<lparr>ep_rolling := (ep_rolling e)\<lparr>ev_live := Some s\<rparr>\<rparr>))
     }
   }"

section \<open>Nonces and parameters\<close>

record nonces_update =
  nu_slot :: u64
  nu_tail :: "hash32 option"
  nu_nonce_vrf_output :: bytes
  nu_previous :: "nonces option"

definition nonces_update_new :: "u64 \<Rightarrow> hash32 option \<Rightarrow> bytes \<Rightarrow> nonces_update" where
  "nonces_update_new slot tail vrf = \<lparr>nu_slot = slot, nu_tail = tail, nu_nonce_vrf_output = vrf,
     nu_previous = None\<rparr>"

definition nonces_update_key :: "nonces_update \<Rightarrow> ns_key" where
  "nonces_update_key d = epoch_singleton_key"

definition nonces_update_apply :: "(hash32 \<Rightarrow> bytes \<Rightarrow> hash32) \<Rightarrow> (nonces_update, epoch_state) apply_fn" where
  "nonces_update_apply rolling_nonce d entity =
     (case entity of
        None \<Rightarrow> Some (d, None)
      | Some e \<Rightarrow> (case ep_nonces e of
            None \<Rightarrow> Some (d, Some e)
          | Some n \<Rightarrow> Some (d\<lparr>nu_previous := Some n\<rparr>,
              Some (e\<lparr>ep_nonces := Some (nonces_roll rolling_nonce n
                (nu_slot d < ep_largest_stable_slot e) (nu_nonce_vrf_output d) (nu_tail d))\<rparr>))))"

definition nonces_update_undo :: "(nonces_update, epoch_state) undo_fn" where
  "nonces_update_undo d entity =
     Some (map_option (\<lambda>e. if nu_previous d \<noteq> None then e\<lparr>ep_nonces := nu_previous d\<rparr> else e) entity)"

record pparams_update =
  pu_to_update :: pparams_set
  pu_prev_pparams :: "pparams_set epoch_value option"

definition pparams_update_new :: "pparams_set \<Rightarrow> pparams_update" where
  "pparams_update_new to_update = \<lparr>pu_to_update = to_update, pu_prev_pparams = None\<rparr>"

definition pparams_update_key :: "pparams_update \<Rightarrow> ns_key" where
  "pparams_update_key d = epoch_singleton_key"

definition pparams_update_apply :: "(pparams_update, epoch_state) apply_fn" where
  "pparams_update_apply d entity = do {
     e \<leftarrow> entity;
     let d = d\<lparr>pu_prev_pparams := Some (ep_pparams e)\<rparr>;
     (v, next) \<leftarrow> scheduled_or_default pparams_next_value (ep_pparams e);
     Some (d, Some (e\<lparr>ep_pparams := v\<lparr>ev_next := Some (pp_merge next (pu_to_update d))\<rparr>\<rparr>))
   }"

definition pparams_update_undo :: "(pparams_update, epoch_state) undo_fn" where
  "pparams_update_undo d entity = do {
     e \<leftarrow> entity;
     v \<leftarrow> pu_prev_pparams d;
     Some (Some (e\<lparr>ep_pparams := v\<rparr>))
   }"

section \<open>Closing an epoch\<close>

record epoch_wrap_up =
  ewu_stats :: end_stats
  ewu_prev_rolling :: "rolling_stats epoch_value option"
  ewu_prev_pparams :: "pparams_set epoch_value option"
  ewu_prev_end :: "end_stats option"

definition epoch_wrap_up_new :: "end_stats \<Rightarrow> epoch_wrap_up" where
  "epoch_wrap_up_new stats = \<lparr>ewu_stats = stats, ewu_prev_rolling = None, ewu_prev_pparams = None,
     ewu_prev_end = None\<rparr>"

definition epoch_wrap_up_key :: "epoch_wrap_up \<Rightarrow> ns_key" where
  "epoch_wrap_up_key d = epoch_singleton_key"

definition epoch_wrap_up_apply :: "(epoch_wrap_up, epoch_state) apply_fn" where
  "epoch_wrap_up_apply d entity = do {
     e \<leftarrow> entity;
     let d = d\<lparr>ewu_prev_rolling := Some (ep_rolling e), ewu_prev_pparams := Some (ep_pparams e),
               ewu_prev_end := ep_end e\<rparr>;
     (r, _) \<leftarrow> scheduled_or_default rolling_next_value (ep_rolling e);
     (p, _) \<leftarrow> scheduled_or_default pparams_next_value (ep_pparams e);
     Some (d, Some (e\<lparr>ep_rolling := r, ep_pparams := p, ep_end := Some (ewu_stats d)\<rparr>))
   }"

definition epoch_wrap_up_undo :: "(epoch_wrap_up, epoch_state) undo_fn" where
  "epoch_wrap_up_undo d entity = do {
     e \<leftarrow> entity;
     r \<leftarrow> ewu_prev_rolling d;
     p \<leftarrow> ewu_prev_pparams d;
     Some (Some (e\<lparr>ep_rolling := r, ep_pparams := p, ep_end := ewu_prev_end d\<rparr>))
   }"

record epoch_wrap_up_v2 =
  ewu2_stats :: end_stats
  ewu2_prev_rolling :: "rolling_stats epoch_value option"
  ewu2_prev_pparams :: "pparams_set epoch_value option"
  ewu2_prev_end :: "end_stats option"
  ewu2_prev_ewrap_progress :: "shard_progress option"

definition epoch_wrap_up_v2_new :: "end_stats \<Rightarrow> epoch_wrap_up_v2" where
  "epoch_wrap_up_v2_new stats = \<lparr>ewu2_stats = stats, ewu2_prev_rolling = None,
     ewu2_prev_pparams = None, ewu2_prev_end = None, ewu2_prev_ewrap_progress = None\<rparr>"

definition epoch_wrap_up_v2_key :: "epoch_wrap_up_v2 \<Rightarrow> ns_key" where
  "epoch_wrap_up_v2_key d = epoch_singleton_key"

definition epoch_wrap_up_v2_apply :: "(epoch_wrap_up_v2, epoch_state) apply_fn" where
  "epoch_wrap_up_v2_apply d entity = do {
     e \<leftarrow> entity;
     let d = d\<lparr>ewu2_prev_rolling := Some (ep_rolling e), ewu2_prev_pparams := Some (ep_pparams e),
               ewu2_prev_end := ep_end e, ewu2_prev_ewrap_progress := ep_ewrap_progress e\<rparr>;
     (r, _) \<leftarrow> scheduled_or_default rolling_next_value (ep_rolling e);
     (p, _) \<leftarrow> scheduled_or_default pparams_next_value (ep_pparams e);
     Some (d, Some (e\<lparr>ep_rolling := r, ep_pparams := p, ep_end := Some (ewu2_stats d),
                      ep_ewrap_progress := None\<rparr>))
   }"

definition epoch_wrap_up_v2_undo :: "(epoch_wrap_up_v2, epoch_state) undo_fn" where
  "epoch_wrap_up_v2_undo d entity = do {
     e \<leftarrow> entity;
     r \<leftarrow> ewu2_prev_rolling d;
     p \<leftarrow> ewu2_prev_pparams d;
     Some (Some (e\<lparr>ep_rolling := r, ep_pparams := p, ep_end := ewu2_prev_end d,
                   ep_ewrap_progress := ewu2_prev_ewrap_progress d\<rparr>))
   }"

record epoch_wrap_up_v3 =
  ewu3_stats :: end_stats
  ewu3_prev_rolling :: "rolling_stats epoch_value option"
  ewu3_prev_pparams :: "pparams_set epoch_value option"
  ewu3_prev_end :: "end_stats option"

definition epoch_wrap_up_v3_new :: "end_stats \<Rightarrow> epoch_wrap_up_v3" where
  "epoch_wrap_up_v3_new stats = \<lparr>ewu3_stats = stats, ewu3_prev_rolling = None,
     ewu3_prev_pparams = None, ewu3_prev_end = None\<rparr>"

definition epoch_wrap_up_v3_key :: "epoch_wrap_up_v3 \<Rightarrow> ns_key" where
  "epoch_wrap_up_v3_key d = epoch_singleton_key"

definition epoch_wrap_up_v3_apply :: "(epoch_wrap_up_v3, epoch_state) apply_fn" where
  "epoch_wrap_up_v3_apply d entity = do {
     e \<leftarrow> entity;
     let d = d\<lparr>ewu3_prev_rolling := Some (ep_rolling e), ewu3_prev_pparams := Some (ep_pparams e),
               ewu3_prev_end := ep_end e\<rparr>;
     (r, _) \<leftarrow> scheduled_or_default rolling_next_value (ep_rolling e);
     (p, _) \<leftarrow> scheduled_or_default pparams_next_value (ep_pparams e);
     Some (d, Some (e\<lparr>ep_rolling := r, ep_pparams := p, ep_end := Some (ewu3_stats d)\<rparr>))
   }"

definition epoch_wrap_up_v3_undo :: "(epoch_wrap_up_v3, epoch_state) undo_fn" where
  "epoch_wrap_up_v3_undo d entity = do {
     e \<leftarrow> entity;
     r \<leftarrow> ewu3_prev_rolling d;
     p \<leftarrow> ewu3_prev_pparams d;
     Some (Some (e\<lparr>ep_rolling := r, ep_pparams := p, ep_end := ewu3_prev_end d\<rparr>))
   }"

section \<open>Sharded work\<close>

text \<open>
  The three guards of a progress delta: not yet committed, in order, and with the total that the
  first shard of the boundary stored.
\<close>

definition shard_expected :: "shard_progress option \<Rightarrow> u32" where
  "shard_expected stored = (case stored of Some p \<Rightarrow> sp_committed p | None \<Rightarrow> 0)"

definition shard_accepts :: "shard_progress option \<Rightarrow> u32 \<Rightarrow> u32 \<Rightarrow> bool" where
  "shard_accepts stored completed n_shards =
     (if completed < shard_expected stored then False
      else if shard_expected stored < completed then False
      else (case stored of Some p \<Rightarrow> sp_total p = n_shards | None \<Rightarrow> True))"

record ewrap_progress =
  ewp_effective_delta :: u64
  ewp_unspendable_to_treasury_delta :: u64
  ewp_unspendable_to_reserves_delta :: u64
  ewp_completed_shard_index :: u32
  ewp_total_shards :: u32
  ewp_applied :: bool
  ewp_prev_ewrap_progress :: "shard_progress option"

definition ewrap_progress_new :: "u64 \<Rightarrow> u64 \<Rightarrow> u64 \<Rightarrow> u32 \<Rightarrow> u32 \<Rightarrow> ewrap_progress" where
  "ewrap_progress_new effective treasury reserves completed n_shards = \<lparr>ewp_effective_delta = effective,
     ewp_unspendable_to_treasury_delta = treasury, ewp_unspendable_to_reserves_delta = reserves,
     ewp_completed_shard_index = completed, ewp_total_shards = n_shards, ewp_applied = False,
     ewp_prev_ewrap_progress = None\<rparr>"

definition ewrap_progress_key :: "ewrap_progress \<Rightarrow> ns_key" where
  "ewrap_progress_key d = epoch_singleton_key"

definition ewrap_progress_apply :: "build \<Rightarrow> (ewrap_progress, epoch_state) apply_fn" where
  "ewrap_progress_apply b d entity = do {
     e \<leftarrow> entity;
     if \<not> shard_accepts (ep_ewrap_progress e) (ewp_completed_shard_index d) (ewp_total_shards d)
     then Some (d, Some e)
     else do {
       s \<leftarrow> ep_end e;
       let d = d\<lparr>ewp_prev_ewrap_progress := ep_ewrap_progress e\<rparr>;
       x \<leftarrow> raw_add b (es_effective_rewards s) (ewp_effective_delta d);
       y \<leftarrow> raw_add b (es_unspendable_to_treasury s) (ewp_unspendable_to_treasury_delta d);
       z \<leftarrow> raw_add b (es_unspendable_to_reserves s) (ewp_unspendable_to_reserves_delta d);
       let s = s\<lparr>es_effective_rewards := x, es_unspendable_to_treasury := y,
                 es_unspendable_to_reserves := z\<rparr>;
       n \<leftarrow> raw_add b (ewp_completed_shard_index d) 1;
       Some (d\<lparr>ewp_applied := True\<rparr>,
             Some (e\<lparr>ep_end := Some s,
                     ep_ewrap_progress := Some \<lparr>sp_committed = n, sp_total = ewp_total_shards d\<rparr>\<rparr>))
     }
   }"

definition ewrap_progress_undo :: "build \<Rightarrow> (ewrap_progress, epoch_state) undo_fn" where
  "ewrap_progress_undo b d entity =
     (if \<not> ewp_applied d then Some entity
      else do {
        e \<leftarrow> entity;
        s \<leftarrow> ep_end e;
        x \<leftarrow> raw_sub b (es_effective_rewards s) (ewp_effective_delta d);
        y \<leftarrow> raw_sub b (es_unspendable_to_treasury s) (ewp_unspendable_to_treasury_delta d);
        z \<leftarrow> raw_sub b (es_unspendable_to_reserves s) (ewp_unspendable_to_reserves_delta d);
        let s = s\<lparr>es_effective_rewards := x, es_unspendable_to_treasury := y,
                  es_unspendable_to_reserves := z\<rparr>;
        Some (Some (e\<lparr>ep_end := Some s, ep_ewrap_progress := ewp_prev_ewrap_progress d\<rparr>))
      })"

record estart_progress =
  esp_completed_shard_index :: u32
  esp_total_shards :: u32
  esp_applied :: bool
  esp_prev_estart_progress :: "shard_progress option"

definition estart_progress_new :: "u32 \<Rightarrow> u32 \<Rightarrow> estart_progress" where
  "estart_progress_new completed n_shards = \<lparr>esp_completed_shard_index = completed,
     esp_total_shards = n_shards, esp_applied = False, esp_prev_estart_progress = None\<rparr>"

definition estart_progress_key :: "estart_progress \<Rightarrow> ns_key" where
  "estart_progress_key d = epoch_singleton_key"

definition estart_progress_apply :: "build \<Rightarrow> (estart_progress, epoch_state) apply_fn" where
  "estart_progress_apply b d entity = do {
     e \<leftarrow> entity;
     if \<not> shard_accepts (ep_estart_progress e) (esp_completed_shard_index d) (esp_total_shards d)
     then Some (d, Some e)
     else do {
       let d = d\<lparr>esp_prev_estart_progress := ep_estart_progress e\<rparr>;
       n \<leftarrow> raw_add b (esp_completed_shard_index d) 1;
       Some (d\<lparr>esp_applied := True\<rparr>,
             Some (e\<lparr>ep_estart_progress := Some \<lparr>sp_committed = n, sp_total = esp_total_shards d\<rparr>\<rparr>))
     }
   }"

definition estart_progress_undo :: "(estart_progress, epoch_state) undo_fn" where
  "estart_progress_undo d entity =
     (if \<not> esp_applied d then Some entity
      else do {
        e \<leftarrow> entity;
        Some (Some (e\<lparr>ep_estart_progress := esp_prev_estart_progress d\<rparr>))
      })"

record rupd_progress =
  rup_completed_shard_index :: u32
  rup_total_shards :: u32
  rup_applied :: bool
  rup_prev_rupd_progress :: "shard_progress option"

definition rupd_progress_new :: "u32 \<Rightarrow> u32 \<Rightarrow> rupd_progress" where
  "rupd_progress_new completed n_shards = \<lparr>rup_completed_shard_index = completed,
     rup_total_shards = n_shards, rup_applied = False, rup_prev_rupd_progress = None\<rparr>"

definition rupd_progress_key :: "rupd_progress \<Rightarrow> ns_key" where
  "rupd_progress_key d = epoch_singleton_key"

definition rupd_progress_apply :: "build \<Rightarrow> (rupd_progress, epoch_state) apply_fn" where
  "rupd_progress_apply b d entity = do {
     e \<leftarrow> entity;
     if \<not> shard_accepts (ep_rupd_progress e) (rup_completed_shard_index d) (rup_total_shards d)
     then Some (d, Some e)
     else do {
       let d = d\<lparr>rup_prev_rupd_progress := ep_rupd_progress e\<rparr>;
       n \<leftarrow> raw_add b (rup_completed_shard_index d) 1;
       Some (d\<lparr>rup_applied := True\<rparr>,
             Some (e\<lparr>ep_rupd_progress := Some \<lparr>sp_committed = n, sp_total = rup_total_shards d\<rparr>\<rparr>))
     }
   }"

definition rupd_progress_undo :: "(rupd_progress, epoch_state) undo_fn" where
  "rupd_progress_undo d entity =
     (if \<not> rup_applied d then Some entity
      else do {
        e \<leftarrow> entity;
        Some (Some (e\<lparr>ep_rupd_progress := rup_prev_rupd_progress d\<rparr>))
      })"

section \<open>Opening an epoch\<close>

record nonce_transition =
  nt_next_nonce :: "nonces option"
  nt_next_slot :: block_slot
  nt_prev_previous_nonce_tail :: "hash32 option"
  nt_prev_nonces :: "nonces option"
  nt_prev_largest_stable_slot :: block_slot

definition nonce_transition_new :: "nonces option \<Rightarrow> block_slot \<Rightarrow> nonce_transition" where
  "nonce_transition_new next slot = \<lparr>nt_next_nonce = next, nt_next_slot = slot,
     nt_prev_previous_nonce_tail = None, nt_prev_nonces = None, nt_prev_largest_stable_slot = 0\<rparr>"

definition nonce_transition_key :: "nonce_transition \<Rightarrow> ns_key" where
  "nonce_transition_key d = epoch_singleton_key"

definition nonce_transition_apply :: "(nonce_transition, epoch_state) apply_fn" where
  "nonce_transition_apply d entity = do {
     e \<leftarrow> entity;
     let d = d\<lparr>nt_prev_previous_nonce_tail := ep_previous_nonce_tail e, nt_prev_nonces := ep_nonces e,
               nt_prev_largest_stable_slot := ep_largest_stable_slot e\<rparr>;
     Some (d, Some (e\<lparr>ep_previous_nonce_tail := Option.bind (ep_nonces e) nc_tail,
                      ep_nonces := nt_next_nonce d, ep_largest_stable_slot := nt_next_slot d\<rparr>))
   }"

definition nonce_transition_undo :: "(nonce_transition, epoch_state) undo_fn" where
  "nonce_transition_undo d entity = do {
     e \<leftarrow> entity;
     Some (Some (e\<lparr>ep_previous_nonce_tail := nt_prev_previous_nonce_tail d,
                   ep_nonces := nt_prev_nonces d,
                   ep_largest_stable_slot := nt_prev_largest_stable_slot d\<rparr>))
   }"

text \<open>The shared checks and steps of the two versions of the transition.\<close>

definition assert_pots_consistent :: "build \<Rightarrow> epoch_state \<Rightarrow> pots \<Rightarrow> unit option" where
  "assert_pots_consistent b e new_pots =
     (if overflow_checks b
      then do {
        m \<leftarrow> max_supply b (ep_initial_pots e);
        c \<leftarrow> is_consistent b new_pots m;
        assert_that c
      }
      else Some ())"

definition migrate_live ::
  "genesis_lib \<Rightarrow> era_transition option \<Rightarrow> genesis option \<Rightarrow> pparams_set epoch_value \<Rightarrow> pparams_set epoch_value option" where
  "migrate_live lib era g v =
     (case era of
        None \<Rightarrow> Some v
      | Some t \<Rightarrow> do {
          current \<leftarrow> unwrap_live v;
          g \<leftarrow> g;
          new \<leftarrow> migrate_pparams_version lib (et_prev_version t) (et_new_version t) current g;
          Some (v\<lparr>ev_live := Some new\<rparr>)
        })"

record epoch_transition =
  etr_new_epoch :: epoch
  etr_new_pots :: pots
  etr_era_transition :: "era_transition option"
  etr_genesis :: "genesis option"
  etr_prev_number :: epoch
  etr_prev_initial_pots :: "pots option"
  etr_prev_rolling :: "rolling_stats epoch_value option"
  etr_prev_pparams :: "pparams_set epoch_value option"

definition epoch_transition_new ::
  "epoch \<Rightarrow> pots \<Rightarrow> era_transition option \<Rightarrow> genesis option \<Rightarrow> epoch_transition" where
  "epoch_transition_new new_epoch new_pots era g = \<lparr>etr_new_epoch = new_epoch, etr_new_pots = new_pots,
     etr_era_transition = era, etr_genesis = g, etr_prev_number = 0, etr_prev_initial_pots = None,
     etr_prev_rolling = None, etr_prev_pparams = None\<rparr>"

definition epoch_transition_key :: "epoch_transition \<Rightarrow> ns_key" where
  "epoch_transition_key d = epoch_singleton_key"

definition epoch_transition_apply :: "build \<Rightarrow> genesis_lib \<Rightarrow> (epoch_transition, epoch_state) apply_fn" where
  "epoch_transition_apply b lib d entity = do {
     e \<leftarrow> entity;
     _ \<leftarrow> assert_pots_consistent b e (etr_new_pots d);
     let d = d\<lparr>etr_prev_number := ep_number e, etr_prev_initial_pots := Some (ep_initial_pots e),
               etr_prev_rolling := Some (ep_rolling e), etr_prev_pparams := Some (ep_pparams e)\<rparr>;
     r \<leftarrow> default_transition b rolling_next_value (ep_rolling e) (etr_new_epoch d);
     p \<leftarrow> default_transition b pparams_next_value (ep_pparams e) (etr_new_epoch d);
     p \<leftarrow> migrate_live lib (etr_era_transition d) (etr_genesis d) p;
     Some (d, Some (e\<lparr>ep_number := etr_new_epoch d, ep_initial_pots := etr_new_pots d,
                      ep_rolling := r, ep_pparams := p\<rparr>))
   }"

definition epoch_transition_undo :: "(epoch_transition, epoch_state) undo_fn" where
  "epoch_transition_undo d entity = do {
     e \<leftarrow> entity;
     r \<leftarrow> etr_prev_rolling d;
     p \<leftarrow> etr_prev_pparams d;
     pots \<leftarrow> etr_prev_initial_pots d;
     Some (Some (e\<lparr>ep_rolling := r, ep_pparams := p, ep_number := etr_prev_number d,
                   ep_initial_pots := pots\<rparr>))
   }"

record epoch_transition_v2 =
  etr2_new_epoch :: epoch
  etr2_new_pots :: pots
  etr2_era_transition :: "era_transition option"
  etr2_genesis :: "genesis option"
  etr2_prev_number :: epoch
  etr2_prev_initial_pots :: "pots option"
  etr2_prev_rolling :: "rolling_stats epoch_value option"
  etr2_prev_pparams :: "pparams_set epoch_value option"
  etr2_prev_end :: "end_stats option"
  etr2_prev_ewrap_progress :: "shard_progress option"
  etr2_prev_estart_progress :: "shard_progress option"
  etr2_prev_rupd_progress :: "shard_progress option"

definition epoch_transition_v2_new ::
  "epoch \<Rightarrow> pots \<Rightarrow> era_transition option \<Rightarrow> genesis option \<Rightarrow> epoch_transition_v2" where
  "epoch_transition_v2_new new_epoch new_pots era g = \<lparr>etr2_new_epoch = new_epoch,
     etr2_new_pots = new_pots, etr2_era_transition = era, etr2_genesis = g, etr2_prev_number = 0,
     etr2_prev_initial_pots = None, etr2_prev_rolling = None, etr2_prev_pparams = None,
     etr2_prev_end = None, etr2_prev_ewrap_progress = None, etr2_prev_estart_progress = None,
     etr2_prev_rupd_progress = None\<rparr>"

definition epoch_transition_v2_key :: "epoch_transition_v2 \<Rightarrow> ns_key" where
  "epoch_transition_v2_key d = epoch_singleton_key"

definition epoch_transition_v2_apply :: "build \<Rightarrow> genesis_lib \<Rightarrow> (epoch_transition_v2, epoch_state) apply_fn" where
  "epoch_transition_v2_apply b lib d entity = do {
     e \<leftarrow> entity;
     _ \<leftarrow> assert_pots_consistent b e (etr2_new_pots d);
     let d = d\<lparr>etr2_prev_number := ep_number e, etr2_prev_initial_pots := Some (ep_initial_pots e),
               etr2_prev_rolling := Some (ep_rolling e), etr2_prev_pparams := Some (ep_pparams e),
               etr2_prev_end := ep_end e, etr2_prev_ewrap_progress := ep_ewrap_progress e,
               etr2_prev_estart_progress := ep_estart_progress e,
               etr2_prev_rupd_progress := ep_rupd_progress e\<rparr>;
     r \<leftarrow> default_transition b rolling_next_value (ep_rolling e) (etr2_new_epoch d);
     p \<leftarrow> default_transition b pparams_next_value (ep_pparams e) (etr2_new_epoch d);
     p \<leftarrow> migrate_live lib (etr2_era_transition d) (etr2_genesis d) p;
     Some (d, Some (e\<lparr>ep_number := etr2_new_epoch d, ep_initial_pots := etr2_new_pots d,
                      ep_rolling := r, ep_pparams := p, ep_end := Some end_stats_default,
                      ep_ewrap_progress := None, ep_estart_progress := None,
                      ep_rupd_progress := None\<rparr>))
   }"

definition epoch_transition_v2_undo :: "(epoch_transition_v2, epoch_state) undo_fn" where
  "epoch_transition_v2_undo d entity = do {
     e \<leftarrow> entity;
     r \<leftarrow> etr2_prev_rolling d;
     p \<leftarrow> etr2_prev_pparams d;
     pots \<leftarrow> etr2_prev_initial_pots d;
     Some (Some (e\<lparr>ep_rolling := r, ep_pparams := p, ep_number := etr2_prev_number d,
                   ep_initial_pots := pots, ep_end := etr2_prev_end d,
                   ep_ewrap_progress := etr2_prev_ewrap_progress d,
                   ep_estart_progress := etr2_prev_estart_progress d,
                   ep_rupd_progress := etr2_prev_rupd_progress d\<rparr>))
   }"

text \<open>The transitions as the log gives them back: the genesis is not stored.\<close>

definition epoch_transition_stored :: "epoch_transition \<Rightarrow> epoch_transition" where
  "epoch_transition_stored d = d\<lparr>etr_genesis := None\<rparr>"

definition epoch_transition_v2_stored :: "epoch_transition_v2 \<Rightarrow> epoch_transition_v2" where
  "epoch_transition_v2_stored d = d\<lparr>etr2_genesis := None\<rparr>"

record set_epoch_incentives =
  sei_incentives :: epoch_incentives
  sei_prev_incentives :: "epoch_incentives option"

definition set_epoch_incentives_new :: "epoch_incentives \<Rightarrow> set_epoch_incentives" where
  "set_epoch_incentives_new i = \<lparr>sei_incentives = i, sei_prev_incentives = None\<rparr>"

definition set_epoch_incentives_key :: "set_epoch_incentives \<Rightarrow> ns_key" where
  "set_epoch_incentives_key d = epoch_singleton_key"

definition set_epoch_incentives_apply :: "(set_epoch_incentives, epoch_state) apply_fn" where
  "set_epoch_incentives_apply d entity = do {
     e \<leftarrow> entity;
     let d = d\<lparr>sei_prev_incentives := ep_incentives e\<rparr>;
     Some (d, Some (e\<lparr>ep_incentives := Some (sei_incentives d)\<rparr>))
   }"

definition set_epoch_incentives_undo :: "(set_epoch_incentives, epoch_state) undo_fn" where
  "set_epoch_incentives_undo d entity = do {
     e \<leftarrow> entity;
     Some (Some (e\<lparr>ep_incentives := sei_prev_incentives d\<rparr>))
   }"

section \<open>Every epoch delta is reversible\<close>

lemmas epoch_key_defs =
  epoch_stats_update_key_def nonces_update_key_def pparams_update_key_def epoch_wrap_up_key_def
  epoch_wrap_up_v2_key_def epoch_wrap_up_v3_key_def ewrap_progress_key_def estart_progress_key_def
  rupd_progress_key_def nonce_transition_key_def epoch_transition_key_def
  epoch_transition_v2_key_def set_epoch_incentives_key_def

lemmas epoch_delta_defs =
  nonces_update_apply_def nonces_update_undo_def pparams_update_apply_def pparams_update_undo_def
  epoch_wrap_up_apply_def epoch_wrap_up_undo_def epoch_wrap_up_v2_apply_def epoch_wrap_up_v2_undo_def
  epoch_wrap_up_v3_apply_def epoch_wrap_up_v3_undo_def ewrap_progress_apply_def ewrap_progress_undo_def
  estart_progress_apply_def estart_progress_undo_def rupd_progress_apply_def rupd_progress_undo_def
  nonce_transition_apply_def nonce_transition_undo_def epoch_transition_apply_def
  epoch_transition_undo_def epoch_transition_v2_apply_def epoch_transition_v2_undo_def
  set_epoch_incentives_apply_def set_epoch_incentives_undo_def

text \<open>Subtracting takes the counters back, whatever the fields it does not touch hold.\<close>

lemma sub_add_counters:
  assumes "add_counters b d s = Some s'"
  shows "sub_counters b (d\<lparr>esu_prev_first_block_slot := i, esu_prev_last_block_slot := j\<rparr>)
      (s'\<lparr>rs_first_block_slot := f, rs_last_block_slot := l, rs_registered_pools := r\<rparr>) =
    Some (s\<lparr>rs_first_block_slot := f, rs_last_block_slot := l, rs_registered_pools := r\<rparr>)"
  using assms unfolding add_counters_def sub_counters_def
  by - (cases "0 < sint (esu_utxo_delta d)",
      (clarsimp simp: panic_simps, (drule raw_add_sub_cancel)+, simp)+)

lemma add_counters_frame:
  assumes "add_counters b d s = Some s'"
  shows "rs_first_block_slot s' = rs_first_block_slot s" and "rs_last_block_slot s' = rs_last_block_slot s"
    and "rs_registered_pools s' = rs_registered_pools s"
  using assms unfolding add_counters_def by (clarsimp simp: panic_simps)+

lemma epoch_stats_update_undo_apply:
  assumes run: "epoch_stats_update_apply b d entity = Some (d', entity')"
  shows "epoch_stats_update_undo b d' entity' = Some entity"
proof -
  obtain e where e: "entity = Some e" using run by (cases entity) (auto simp: epoch_stats_update_apply_def)
  have live: "ev_live_mut b (ep_rolling e) (esu_epoch d) = Some (ev_live (ep_rolling e))"
    using run by (auto simp: e epoch_stats_update_apply_def ev_live_mut_def panic_simps Let_def)
  define s where "s = get_or_insert (ev_live (ep_rolling e)) rolling_stats_default"
  define d1 where "d1 = d\<lparr>esu_was_new := (ev_live (ep_rolling e) = None), esu_prev_registered_pools := rs_registered_pools s\<rparr>"
  obtain s1 where s1: "add_counters b d1 s = Some s1"
    using run live by (auto simp: e epoch_stats_update_apply_def panic_simps Let_def s_def d1_def)
  obtain f l r where run': "entity' = Some (e\<lparr>ep_rolling := (ep_rolling e)\<lparr>ev_live := Some (s1\<lparr>rs_first_block_slot := f,
        rs_last_block_slot := l, rs_registered_pools := r\<rparr>)\<rparr>\<rparr>)"
    and d': "d' = d1\<lparr>esu_prev_first_block_slot := rs_first_block_slot s1, esu_prev_last_block_slot := rs_last_block_slot s1\<rparr>"
  proof
    let ?f = "if rs_first_block_slot s1 = 0 then esu_block_slot d else rs_first_block_slot s1"
    show "entity' = Some (e\<lparr>ep_rolling := (ep_rolling e)\<lparr>ev_live := Some (s1\<lparr>rs_first_block_slot := ?f,
        rs_last_block_slot := esu_block_slot d,
        rs_registered_pools := rs_registered_pools s1 \<union> esu_registered_pools d\<rparr>)\<rparr>\<rparr>)"
      using run live s1
      by (cases "rs_first_block_slot s1 = 0")
        (auto simp: e epoch_stats_update_apply_def panic_simps Let_def s_def d1_def)
    show "d' = d1\<lparr>esu_prev_first_block_slot := rs_first_block_slot s1, esu_prev_last_block_slot := rs_last_block_slot s1\<rparr>"
      using run live s1 by (auto simp: e epoch_stats_update_apply_def panic_simps Let_def s_def d1_def)
  qed
  have live': "ev_live_mut b (ep_rolling e\<lparr>ev_live := x\<rparr>) (esu_epoch d) = Some x" for x
    using live by (auto simp: ev_live_mut_def panic_simps strict_at_def)
  show ?thesis
  proof (cases "ev_live (ep_rolling e)")
    case None
    then show ?thesis by (simp add: epoch_stats_update_undo_def run' d' d1_def live' e)
  next
    case (Some s0)
    then have "s = s0" and "rs_registered_pools s0 = esu_prev_registered_pools d1" by (simp_all add: s_def d1_def)
    then show ?thesis
      using sub_add_counters [OF s1] add_counters_frame [OF s1]
      by (simp add: epoch_stats_update_undo_def run' d' d1_def live' e Some)
  qed
qed

interpretation epoch_stats_update: reversible_delta epoch_stats_update_key
  "epoch_stats_update_apply b" "epoch_stats_update_undo b" "\<lambda>_. True" "\<lambda>_ _. True"
  by unfold_locales (simp add: epoch_stats_update_key_def, rule epoch_stats_update_undo_apply)

interpretation nonces_update: reversible_delta nonces_update_key
  "nonces_update_apply rolling_nonce" nonces_update_undo "\<lambda>d. nu_previous d = None" "\<lambda>_ _. True"
  by unfold_locales (auto simp: epoch_delta_defs epoch_key_defs panic_simps split: option.splits)

interpretation pparams_update: reversible_delta pparams_update_key
  pparams_update_apply pparams_update_undo "\<lambda>_. True" "\<lambda>_ _. True"
  by unfold_locales (auto simp: epoch_delta_defs epoch_key_defs panic_simps)

interpretation epoch_wrap_up: reversible_delta epoch_wrap_up_key
  epoch_wrap_up_apply epoch_wrap_up_undo "\<lambda>_. True" "\<lambda>_ _. True"
  by unfold_locales (auto simp: epoch_delta_defs epoch_key_defs panic_simps)

interpretation epoch_wrap_up_v2: reversible_delta epoch_wrap_up_v2_key
  epoch_wrap_up_v2_apply epoch_wrap_up_v2_undo "\<lambda>_. True" "\<lambda>_ _. True"
  by unfold_locales (auto simp: epoch_delta_defs epoch_key_defs panic_simps)

interpretation epoch_wrap_up_v3: reversible_delta epoch_wrap_up_v3_key
  epoch_wrap_up_v3_apply epoch_wrap_up_v3_undo "\<lambda>_. True" "\<lambda>_ _. True"
  by unfold_locales (auto simp: epoch_delta_defs epoch_key_defs panic_simps)

lemma ewrap_progress_cases:
  assumes "ewrap_progress_apply b d e = Some (d', e')"
  obtains (kept) "d' = d" "e' = e"
  | (counted) x s eff tre res n where "e = Some x" "ep_end x = Some s"
      "raw_add b (es_effective_rewards s) (ewp_effective_delta d) = Some eff"
      "raw_add b (es_unspendable_to_treasury s) (ewp_unspendable_to_treasury_delta d) = Some tre"
      "raw_add b (es_unspendable_to_reserves s) (ewp_unspendable_to_reserves_delta d) = Some res"
      "d' = d\<lparr>ewp_prev_ewrap_progress := ep_ewrap_progress x, ewp_applied := True\<rparr>"
      "e' = Some (x\<lparr>ep_end := Some (s\<lparr>es_effective_rewards := eff, es_unspendable_to_treasury := tre,
           es_unspendable_to_reserves := res\<rparr>),
         ep_ewrap_progress := Some \<lparr>sp_committed = n, sp_total = ewp_total_shards d\<rparr>\<rparr>)"
proof -
  obtain x where x: "e = Some x" using assms by (cases e) (simp_all add: ewrap_progress_apply_def)
  note run = assms [unfolded ewrap_progress_apply_def Let_def x bind.bind_lunit]
  show thesis
  proof (cases "shard_accepts (ep_ewrap_progress x) (ewp_completed_shard_index d) (ewp_total_shards d)")
    case False
    with run kept x show thesis by simp
  next
    case True
    from run True obtain s eff tre res n where r: "ep_end x = Some s"
      "raw_add b (es_effective_rewards s) (ewp_effective_delta d) = Some eff"
      "raw_add b (es_unspendable_to_treasury s) (ewp_unspendable_to_treasury_delta d) = Some tre"
      "raw_add b (es_unspendable_to_reserves s) (ewp_unspendable_to_reserves_delta d) = Some res"
      "raw_add b (ewp_completed_shard_index d) 1 = Some n"
      by (simp add: bind_Some_iff) blast
    with run True have "d' = d\<lparr>ewp_prev_ewrap_progress := ep_ewrap_progress x, ewp_applied := True\<rparr>"
      "e' = Some (x\<lparr>ep_end := Some (s\<lparr>es_effective_rewards := eff, es_unspendable_to_treasury := tre,
           es_unspendable_to_reserves := res\<rparr>),
         ep_ewrap_progress := Some \<lparr>sp_committed = n, sp_total = ewp_total_shards d\<rparr>\<rparr>)"
      by simp_all
    with x r(1-4) show thesis by (rule counted)
  qed
qed

interpretation ewrap_progress: reversible_delta ewrap_progress_key
  "ewrap_progress_apply b" "ewrap_progress_undo b" "\<lambda>d. \<not> ewp_applied d" "\<lambda>_ _. True"
  by unfold_locales
    (erule ewrap_progress_cases; simp add: epoch_key_defs ewrap_progress_undo_def raw_add_sub_cancel)+

interpretation estart_progress: reversible_delta estart_progress_key
  "estart_progress_apply b" estart_progress_undo "\<lambda>d. \<not> esp_applied d" "\<lambda>_ _. True"
  by unfold_locales (auto simp: epoch_delta_defs epoch_key_defs panic_simps Let_def split: if_splits)

interpretation rupd_progress: reversible_delta rupd_progress_key
  "rupd_progress_apply b" rupd_progress_undo "\<lambda>d. \<not> rup_applied d" "\<lambda>_ _. True"
  by unfold_locales (auto simp: epoch_delta_defs epoch_key_defs panic_simps Let_def split: if_splits)

interpretation nonce_transition: reversible_delta nonce_transition_key
  nonce_transition_apply nonce_transition_undo "\<lambda>_. True" "\<lambda>_ _. True"
  by unfold_locales (auto simp: epoch_delta_defs epoch_key_defs panic_simps)

interpretation epoch_transition: reversible_delta epoch_transition_key
  "epoch_transition_apply b lib" epoch_transition_undo "\<lambda>_. True" "\<lambda>_ _. True"
  by unfold_locales (auto simp: epoch_delta_defs epoch_key_defs panic_simps)

interpretation epoch_transition_v2: reversible_delta epoch_transition_v2_key
  "epoch_transition_v2_apply b lib" epoch_transition_v2_undo "\<lambda>_. True" "\<lambda>_ _. True"
  by unfold_locales (auto simp: epoch_delta_defs epoch_key_defs panic_simps)

interpretation set_epoch_incentives: reversible_delta set_epoch_incentives_key
  set_epoch_incentives_apply set_epoch_incentives_undo "\<lambda>_. True" "\<lambda>_ _. True"
  by unfold_locales (auto simp: epoch_delta_defs epoch_key_defs panic_simps)

text \<open>The transitions undo the same from the log, which keeps everything their undo reads.\<close>

lemma epoch_transition_stored_undo:
  "epoch_transition_undo (epoch_transition_stored d) = epoch_transition_undo d"
  "epoch_transition_v2_undo (epoch_transition_v2_stored d') = epoch_transition_v2_undo d'"
  by (simp_all add: epoch_transition_undo_def epoch_transition_stored_def epoch_transition_v2_undo_def
      epoch_transition_v2_stored_def fun_eq_iff)

section \<open>Sharded work lands once per shard\<close>

text \<open>
  A run of the closing work: progress deltas as the executor emits them, with repetitions (a
  restart repeats a shard) and, between them, deltas of shards whose turn has not come.
\<close>

fun run_ewrap :: "build \<Rightarrow> ewrap_progress list \<Rightarrow> epoch_state \<Rightarrow> epoch_state option" where
  "run_ewrap b [] e = Some e"
| "run_ewrap b (d # ds) e = do {
     (_, e') \<leftarrow> ewrap_progress_apply b d (Some e);
     e' \<leftarrow> e';
     run_ewrap b ds e'
   }"

text \<open>The specification: the shards accepted in order, each the first time it comes.\<close>

fun accepted :: "nat \<Rightarrow> u32 \<Rightarrow> ewrap_progress list \<Rightarrow> ewrap_progress list" where
  "accepted n m [] = []"
| "accepted n m (d # ds) =
     (if unat (ewp_completed_shard_index d) = n \<and> ewp_total_shards d = m
      then d # accepted (Suc n) m ds else accepted n m ds)"

definition progress_at :: "nat \<Rightarrow> u32 \<Rightarrow> shard_progress option \<Rightarrow> bool" where
  "progress_at n m p \<longleftrightarrow>
     (case p of None \<Rightarrow> n = 0 | Some q \<Rightarrow> unat (sp_committed q) = n \<and> sp_total q = m)"

lemma progress_at_accepts:
  assumes "progress_at n m p" and "p = None \<Longrightarrow> total_shards = m"
  shows "shard_accepts p i total_shards \<longleftrightarrow> unat i = n \<and> total_shards = m"
  using assms
  by (cases p) (auto simp: progress_at_def shard_accepts_def shard_expected_def word_less_nat_alt word_unat_eq_iff)

lemma ewrap_skip:
  "\<not> shard_accepts (ep_ewrap_progress e) (ewp_completed_shard_index d) (ewp_total_shards d)
    \<Longrightarrow> ewrap_progress_apply b d (Some e) = Some (d, Some e)"
  by (simp add: ewrap_progress_apply_def)

lemma ewrap_accept:
  assumes "shard_accepts (ep_ewrap_progress e) (ewp_completed_shard_index d) (ewp_total_shards d)"
    and "ep_end e = Some s"
    and "unat (es_effective_rewards s) + unat (ewp_effective_delta d) < 2 ^ 64"
    and "unat (es_unspendable_to_treasury s) + unat (ewp_unspendable_to_treasury_delta d) < 2 ^ 64"
    and "unat (es_unspendable_to_reserves s) + unat (ewp_unspendable_to_reserves_delta d) < 2 ^ 64"
    and "unat (ewp_completed_shard_index d) + 1 < 2 ^ 32"
  obtains d' e' s' where "ewrap_progress_apply b d (Some e) = Some (d', Some e')"
    and "ep_end e' = Some s'"
    and "unat (es_effective_rewards s') = unat (es_effective_rewards s) + unat (ewp_effective_delta d)"
    and "unat (es_unspendable_to_treasury s')
      = unat (es_unspendable_to_treasury s) + unat (ewp_unspendable_to_treasury_delta d)"
    and "unat (es_unspendable_to_reserves s')
      = unat (es_unspendable_to_reserves s) + unat (ewp_unspendable_to_reserves_delta d)"
    and "progress_at (Suc (unat (ewp_completed_shard_index d))) (ewp_total_shards d) (ep_ewrap_progress e')"
proof -
  note fits = raw_add_fits [OF assms(3)] raw_add_fits [OF assms(4)] raw_add_fits [OF assms(5)]
  have "unat (ewp_completed_shard_index d) + unat (1 :: u32) < 2 ^ LENGTH(32)" using assms(6) by simp
  then have "raw_add b (ewp_completed_shard_index d) 1 = Some (ewp_completed_shard_index d + 1)"
    and "unat (ewp_completed_shard_index d + 1) = Suc (unat (ewp_completed_shard_index d))"
    by (simp_all add: raw_add_def checked_add_def unat_add_no_overflow)
  note index = this
  let ?s = "s\<lparr>es_effective_rewards := es_effective_rewards s + ewp_effective_delta d,
      es_unspendable_to_treasury := es_unspendable_to_treasury s + ewp_unspendable_to_treasury_delta d,
      es_unspendable_to_reserves := es_unspendable_to_reserves s + ewp_unspendable_to_reserves_delta d\<rparr>"
  have run: "ewrap_progress_apply b d (Some e) =
      Some (d\<lparr>ewp_prev_ewrap_progress := ep_ewrap_progress e, ewp_applied := True\<rparr>,
        Some (e\<lparr>ep_end := Some ?s, ep_ewrap_progress :=
          Some \<lparr>sp_committed = ewp_completed_shard_index d + 1, sp_total = ewp_total_shards d\<rparr>\<rparr>))"
    using fits index(1) assms(1,2) by (simp add: ewrap_progress_apply_def Let_def)
  show thesis by (rule that [OF run, of ?s]) (simp_all add: fits index(2) progress_at_def)
qed

text \<open>
  In every build, whatever the repetitions and the strays, the totals grow by what each accepted
  shard contributes, once, and the cursor by their number.
\<close>

lemma run_ewrap_accumulates:
  assumes "progress_at n m (ep_ewrap_progress e)" and "ep_end e = Some s"
    and "ep_ewrap_progress e = None \<Longrightarrow> \<forall>d \<in> set ds. ewp_total_shards d = m"
    and "n + length ds < 2 ^ 32"
    and "unat (es_effective_rewards s) + (\<Sum>d \<leftarrow> accepted n m ds. unat (ewp_effective_delta d)) < 2 ^ 64"
    and "unat (es_unspendable_to_treasury s)
      + (\<Sum>d \<leftarrow> accepted n m ds. unat (ewp_unspendable_to_treasury_delta d)) < 2 ^ 64"
    and "unat (es_unspendable_to_reserves s)
      + (\<Sum>d \<leftarrow> accepted n m ds. unat (ewp_unspendable_to_reserves_delta d)) < 2 ^ 64"
  shows "\<exists>e' s'. run_ewrap b ds e = Some e' \<and> ep_end e' = Some s'
    \<and> unat (es_effective_rewards s') = unat (es_effective_rewards s)
        + (\<Sum>d \<leftarrow> accepted n m ds. unat (ewp_effective_delta d))
    \<and> unat (es_unspendable_to_treasury s') = unat (es_unspendable_to_treasury s)
        + (\<Sum>d \<leftarrow> accepted n m ds. unat (ewp_unspendable_to_treasury_delta d))
    \<and> unat (es_unspendable_to_reserves s') = unat (es_unspendable_to_reserves s)
        + (\<Sum>d \<leftarrow> accepted n m ds. unat (ewp_unspendable_to_reserves_delta d))
    \<and> progress_at (n + length (accepted n m ds)) m (ep_ewrap_progress e')"
  using assms
proof (induction ds arbitrary: n e s)
  case Nil
  then show ?case by simp
next
  case (Cons d ds)
  have acc: "shard_accepts (ep_ewrap_progress e) (ewp_completed_shard_index d) (ewp_total_shards d)
      \<longleftrightarrow> unat (ewp_completed_shard_index d) = n \<and> ewp_total_shards d = m"
    using Cons.prems(1,3) by (intro progress_at_accepts) auto
  show ?case
  proof (cases "unat (ewp_completed_shard_index d) = n \<and> ewp_total_shards d = m")
    case False
    then have skip: "ewrap_progress_apply b d (Some e) = Some (d, Some e)"
      using acc by (intro ewrap_skip) simp
    have "accepted n m (d # ds) = accepted n m ds" using False by auto
    moreover have "run_ewrap b (d # ds) e = run_ewrap b ds e" by (simp add: skip)
    ultimately show ?thesis using Cons.IH [of n e s] Cons.prems by (simp del: accepted.simps run_ewrap.simps)
  next
    case True
    have eq: "accepted n m (d # ds) = d # accepted (Suc n) m ds" using True by simp
    note prems = Cons.prems [unfolded eq list.map sum_list.Cons]
    obtain d' e1 s1 where step: "ewrap_progress_apply b d (Some e) = Some (d', Some e1)"
      and e1: "ep_end e1 = Some s1"
      and sums: "unat (es_effective_rewards s1) = unat (es_effective_rewards s) + unat (ewp_effective_delta d)"
        "unat (es_unspendable_to_treasury s1)
          = unat (es_unspendable_to_treasury s) + unat (ewp_unspendable_to_treasury_delta d)"
        "unat (es_unspendable_to_reserves s1)
          = unat (es_unspendable_to_reserves s) + unat (ewp_unspendable_to_reserves_delta d)"
      and p1: "progress_at (Suc n) m (ep_ewrap_progress e1)"
      by (rule ewrap_accept [where b = b and e = e and d = d and s = s])
        (use True acc prems(2,4-7) in auto)
    have "ep_ewrap_progress e1 \<noteq> None" using p1 by (cases "ep_ewrap_progress e1") (auto simp: progress_at_def)
    then have "\<exists>e' s'. run_ewrap b ds e1 = Some e' \<and> ep_end e' = Some s'
      \<and> unat (es_effective_rewards s') = unat (es_effective_rewards s1)
          + (\<Sum>d \<leftarrow> accepted (Suc n) m ds. unat (ewp_effective_delta d))
      \<and> unat (es_unspendable_to_treasury s') = unat (es_unspendable_to_treasury s1)
          + (\<Sum>d \<leftarrow> accepted (Suc n) m ds. unat (ewp_unspendable_to_treasury_delta d))
      \<and> unat (es_unspendable_to_reserves s') = unat (es_unspendable_to_reserves s1)
          + (\<Sum>d \<leftarrow> accepted (Suc n) m ds. unat (ewp_unspendable_to_reserves_delta d))
      \<and> progress_at (Suc n + length (accepted (Suc n) m ds)) m (ep_ewrap_progress e')"
      using p1 e1 prems(4-7) sums by (intro Cons.IH) (auto simp: add.assoc)
    moreover have "run_ewrap b (d # ds) e = run_ewrap b ds e1" by (simp add: step)
    ultimately show ?thesis unfolding eq using sums by (simp add: add.assoc)
  qed
qed

section \<open>Properties\<close>

text \<open>
  C29. The sharded closing of an epoch counts every shard once. Whatever shards are repeated (a
  restart runs a shard again) or come out of turn, the rewards and the unspendable amounts of the
  epoch grow exactly by the contributions of the shards accepted in order, each the first time, in
  every build and without panic, and the progress cursor stands behind the last of them.
\<close>

theorem ewrap_shards_counted_once:
  assumes "progress_at n m (ep_ewrap_progress e)" and "ep_end e = Some s"
    and "ep_ewrap_progress e = None \<Longrightarrow> \<forall>d \<in> set ds. ewp_total_shards d = m"
    and "n + length ds < 2 ^ 32"
    and "unat (es_effective_rewards s) + (\<Sum>d \<leftarrow> accepted n m ds. unat (ewp_effective_delta d)) < 2 ^ 64"
    and "unat (es_unspendable_to_treasury s)
      + (\<Sum>d \<leftarrow> accepted n m ds. unat (ewp_unspendable_to_treasury_delta d)) < 2 ^ 64"
    and "unat (es_unspendable_to_reserves s)
      + (\<Sum>d \<leftarrow> accepted n m ds. unat (ewp_unspendable_to_reserves_delta d)) < 2 ^ 64"
  shows "\<exists>e' s'. run_ewrap b ds e = Some e' \<and> ep_end e' = Some s'
    \<and> unat (es_effective_rewards s') = unat (es_effective_rewards s)
        + (\<Sum>d \<leftarrow> accepted n m ds. unat (ewp_effective_delta d))
    \<and> unat (es_unspendable_to_treasury s') = unat (es_unspendable_to_treasury s)
        + (\<Sum>d \<leftarrow> accepted n m ds. unat (ewp_unspendable_to_treasury_delta d))
    \<and> unat (es_unspendable_to_reserves s') = unat (es_unspendable_to_reserves s)
        + (\<Sum>d \<leftarrow> accepted n m ds. unat (ewp_unspendable_to_reserves_delta d))
    \<and> progress_at (n + length (accepted n m ds)) m (ep_ewrap_progress e')"
  by (rule run_ewrap_accumulates [OF assms])

definition sample_shards :: "ewrap_progress list" where
  "sample_shards = [ewrap_progress_new 5 1 0 0 2, ewrap_progress_new 5 1 0 0 2, ewrap_progress_new 7 0 2 1 2]"

theorem ewrap_shards_counted_once_witness:
  "\<exists>e' s'. run_ewrap checked sample_shards (epoch_state_default\<lparr>ep_end := Some end_stats_default\<rparr>) = Some e' \<and>
     ep_end e' = Some s' \<and> unat (es_effective_rewards s') = 12 \<and> unat (es_unspendable_to_treasury s') = 1 \<and>
     unat (es_unspendable_to_reserves s') = 2 \<and> progress_at 2 2 (ep_ewrap_progress e')"
proof -
  let ?e = "epoch_state_default\<lparr>ep_end := Some end_stats_default\<rparr>"
  have acc: "accepted 0 2 sample_shards = [ewrap_progress_new 5 1 0 0 2, ewrap_progress_new 7 0 2 1 2]"
    by (simp add: sample_shards_def ewrap_progress_new_def)
  have sums: "(\<Sum>d \<leftarrow> accepted 0 2 sample_shards. unat (ewp_effective_delta d)) = 12"
      "(\<Sum>d \<leftarrow> accepted 0 2 sample_shards. unat (ewp_unspendable_to_treasury_delta d)) = 1"
      "(\<Sum>d \<leftarrow> accepted 0 2 sample_shards. unat (ewp_unspendable_to_reserves_delta d)) = 2"
    unfolding acc by (simp_all add: ewrap_progress_new_def)
  have start: "progress_at 0 2 (ep_ewrap_progress ?e)" "ep_end ?e = Some end_stats_default"
      "\<forall>d \<in> set sample_shards. ewp_total_shards d = 2" "0 + length sample_shards < 2 ^ 32"
    by (simp_all add: progress_at_def epoch_state_default_def sample_shards_def ewrap_progress_new_def)
  have zero: "unat (es_effective_rewards end_stats_default) = 0" "unat (es_unspendable_to_treasury end_stats_default) = 0"
      "unat (es_unspendable_to_reserves end_stats_default) = 0" by (simp_all add: end_stats_default_def)
  have len: "0 + length (accepted 0 2 sample_shards) = 2" unfolding acc by simp
  have fits: "(0 :: nat) + 12 < 2 ^ 64" "(0 :: nat) + 1 < 2 ^ 64" "(0 :: nat) + 2 < 2 ^ 64" by simp_all
  show ?thesis
    using ewrap_shards_counted_once [OF start(1,2,3,4), of checked, unfolded sums zero len, OF fits] unfolding add_0 .
qed

end
