(* ===== verification/Slot_History.thy ===== *)
theory Slot_History
  imports Dolos_Prelude
begin

text \<open>
  Slot-stamped, append-only histories, as the votes on a proposal and the authorisations of the
  constitutional committee keep them (\<^verbatim>\<open>VoteHistory\<close> and \<^verbatim>\<open>AuthHistory\<close> of
  \<^verbatim>\<open>crates/cardano/src/model/proposals.rs\<close> and \<^verbatim>\<open>gov.rs\<close>): a new event is pushed
  at the end, undoing pops it, and a read as of a slot takes the last event at or before it.
\<close>

type_synonym 'a history = "(block_slot \<times> 'a) list"

text \<open>
  \<^verbatim>\<open>history_or_default\<close> followed by the push of its callers: whether the entry had to be
  created, and the map with the new event.
\<close>

definition history_push :: "'k \<Rightarrow> block_slot \<times> 'a \<Rightarrow> ('k \<rightharpoonup> 'a history) \<Rightarrow> bool \<times> ('k \<rightharpoonup> 'a history)" where
  "history_push key event m = (m key = None, m(key \<mapsto> case_option [] id (m key) @ [event]))"

definition history_pop :: "'k \<Rightarrow> bool \<Rightarrow> ('k \<rightharpoonup> 'a history) \<Rightarrow> ('k \<rightharpoonup> 'a history)" where
  "history_pop key created m =
     (let m = (case m key of Some history \<Rightarrow> m(key \<mapsto> butlast history) | None \<Rightarrow> m)
      in if created then m(key := None) else m)"

definition event_as_of :: "block_slot \<Rightarrow> 'a history \<Rightarrow> 'a option" where
  "event_as_of slot history = map_option snd (find (\<lambda>(at_slot, _). at_slot \<le> slot) (rev history))"

section \<open>Popping inverts pushing\<close>

lemma history_pop_push:
  assumes "history_push key event m = (created, m')"
  shows "history_pop key created m' = m"
proof -
  from assms have "created = (m key = None)" and "m' = m(key \<mapsto> case_option [] id (m key) @ [event])"
    by (auto simp: history_push_def)
  then show ?thesis by (cases "m key") (simp_all add: history_pop_def)
qed

section \<open>Reading as of a slot\<close>

lemma event_as_of_Nil [simp]: "event_as_of slot [] = None"
  by (simp add: event_as_of_def)

lemma event_as_of_snoc:
  "event_as_of slot (history @ [(at_slot, x)]) = (if at_slot \<le> slot then Some x else event_as_of slot history)"
  by (simp add: event_as_of_def)

text \<open>What a run of events makes the reader see: per key, the last of them at or before the slot.\<close>

definition latest :: "block_slot \<Rightarrow> (block_slot \<times> 'k \<times> 'a) list \<Rightarrow> 'k \<Rightarrow> 'a option" where
  "latest slot evs k = map_option (snd \<circ> snd) (find (\<lambda>(at_slot, k', _). at_slot \<le> slot \<and> k' = k) (rev evs))"

definition push_event :: "block_slot \<times> 'k \<times> 'a \<Rightarrow> ('k \<rightharpoonup> 'a history) \<Rightarrow> ('k \<rightharpoonup> 'a history)" where
  "push_event ev m = (case ev of (at_slot, k, x) \<Rightarrow> snd (history_push k (at_slot, x) m))"

lemma latest_Nil [simp]: "latest slot [] k = None"
  by (simp add: latest_def)

lemma latest_snoc:
  "latest slot (evs @ [(at_slot, k', x)]) k = (if at_slot \<le> slot \<and> k' = k then Some x else latest slot evs k)"
  by (simp add: latest_def)

lemma reads_latest:
  "Option.bind (fold push_event evs m k) (event_as_of slot) =
     (case latest slot evs k of Some x \<Rightarrow> Some x | None \<Rightarrow> Option.bind (m k) (event_as_of slot))"
proof (induction evs rule: rev_induct)
  case (snoc ev evs)
  obtain at_slot k' x where ev: "ev = (at_slot, k', x)" by (cases ev)
  have "Option.bind (push_event ev (fold push_event evs m) k) (event_as_of slot) =
      (if k' = k \<and> at_slot \<le> slot then Some x else Option.bind (fold push_event evs m k) (event_as_of slot))"
    by (auto simp: ev push_event_def history_push_def event_as_of_snoc split: option.splits)
  with snoc show ?case by (auto simp: ev latest_snoc)
qed simp

end
