(* ===== verification/Proposals.thy ===== *)
theory Proposals
  imports Entity_Delta Ledger_Types PParams Slot_History
begin

text \<open>
  Governance proposals (\<^verbatim>\<open>crates/cardano/src/model/proposals.rs\<close>): the action of a
  proposal and its lineage, the entity with the histories of its votes, how a proposal ends, and its
  four deltas.
\<close>

section \<open>Actions\<close>

datatype gov_purpose = PurposePParamUpdate | PurposeHardFork | PurposeCommittee | PurposeConstitution

datatype proposal_action =
    ActParamChange pparams_set
  | ActHardFork protocol_version
  | ActTreasuryWithdrawal "(stake_credential \<times> u64) list"
  | ActOther
  | ActNoConfidence
  | ActUpdateCommittee "stake_credential list" "(stake_credential \<times> epoch) list" rational_number
  | ActNewConstitution anchor "hash28 option"
  | ActInfo

fun action_purpose :: "proposal_action \<Rightarrow> gov_purpose option" where
  "action_purpose (ActParamChange _) = Some PurposePParamUpdate"
| "action_purpose (ActHardFork _) = Some PurposeHardFork"
| "action_purpose ActNoConfidence = Some PurposeCommittee"
| "action_purpose (ActUpdateCommittee _ _ _) = Some PurposeCommittee"
| "action_purpose (ActNewConstitution _ _) = Some PurposeConstitution"
| "action_purpose (ActTreasuryWithdrawal _) = None"
| "action_purpose ActInfo = None"
| "action_purpose ActOther = None"

section \<open>The entity\<close>

type_synonym vote_history = "vote history"

record proposal_state =
  ps_slot :: block_slot
  ps_tx :: hash32
  ps_idx :: u32
  ps_action :: proposal_action
  ps_max_epoch :: "epoch option"
  ps_ratified_epoch :: "epoch option"
  ps_canceled_epoch :: "epoch option"
  ps_deposit :: "lovelace option"
  ps_reward_account :: "stake_credential option"
  ps_proposed_in :: "epoch option"
  ps_parent :: "gov_action_id option"
  ps_purpose :: "gov_purpose option"
  ps_anchor :: "anchor option"
  ps_cc_votes :: "stake_credential \<rightharpoonup> vote_history"
  ps_drep_votes :: "stake_credential \<rightharpoonup> vote_history"
  ps_spo_votes :: "pool_hash \<rightharpoonup> vote_history"

definition proposal_ns :: namespace where
  "proposal_ns = ''proposals''"

definition votes_as_of :: "('k \<rightharpoonup> vote_history) \<Rightarrow> block_slot \<Rightarrow> 'k \<rightharpoonup> vote" where
  "votes_as_of votes slot k = Option.bind (votes k) (event_as_of slot)"

text \<open>The key takes the first 32 of its 36 bytes: the index and 28 bytes of the hash.\<close>

definition build_entity_key :: "hash32 \<Rightarrow> u32 \<Rightarrow> entity_key" where
  "build_entity_key tx i = entity_key_from (word_bytes i @ word_bytes tx)"

definition proposal_key :: "proposal_state \<Rightarrow> entity_key" where
  "proposal_key p = build_entity_key (ps_tx p) (ps_idx p)"

definition proposal_action_id :: "proposal_state \<Rightarrow> gov_action_id" where
  "proposal_action_id p = \<lparr>ga_transaction_id = ps_tx p, ga_action_index = ps_idx p\<rparr>"

text \<open>The mutable access and the push of its only caller; whether the entry was created.\<close>

fun vote_history_push :: "voter \<Rightarrow> block_slot \<times> vote \<Rightarrow> proposal_state \<Rightarrow> bool \<times> proposal_state" where
  "vote_history_push (ConstitutionalCommitteeKey h) ev p =
     (let (created, m) = history_push (AddrKeyhash h) ev (ps_cc_votes p) in (created, p\<lparr>ps_cc_votes := m\<rparr>))"
| "vote_history_push (ConstitutionalCommitteeScript h) ev p =
     (let (created, m) = history_push (ScriptHash h) ev (ps_cc_votes p) in (created, p\<lparr>ps_cc_votes := m\<rparr>))"
| "vote_history_push (VoterDRepKey h) ev p =
     (let (created, m) = history_push (AddrKeyhash h) ev (ps_drep_votes p) in (created, p\<lparr>ps_drep_votes := m\<rparr>))"
| "vote_history_push (VoterDRepScript h) ev p =
     (let (created, m) = history_push (ScriptHash h) ev (ps_drep_votes p) in (created, p\<lparr>ps_drep_votes := m\<rparr>))"
| "vote_history_push (StakePoolKey h) ev p =
     (let (created, m) = history_push h ev (ps_spo_votes p) in (created, p\<lparr>ps_spo_votes := m\<rparr>))"

fun vote_history_pop :: "voter \<Rightarrow> bool \<Rightarrow> proposal_state \<Rightarrow> proposal_state" where
  "vote_history_pop (ConstitutionalCommitteeKey h) created p =
     p\<lparr>ps_cc_votes := history_pop (AddrKeyhash h) created (ps_cc_votes p)\<rparr>"
| "vote_history_pop (ConstitutionalCommitteeScript h) created p =
     p\<lparr>ps_cc_votes := history_pop (ScriptHash h) created (ps_cc_votes p)\<rparr>"
| "vote_history_pop (VoterDRepKey h) created p =
     p\<lparr>ps_drep_votes := history_pop (AddrKeyhash h) created (ps_drep_votes p)\<rparr>"
| "vote_history_pop (VoterDRepScript h) created p =
     p\<lparr>ps_drep_votes := history_pop (ScriptHash h) created (ps_drep_votes p)\<rparr>"
| "vote_history_pop (StakePoolKey h) created p =
     p\<lparr>ps_spo_votes := history_pop h created (ps_spo_votes p)\<rparr>"

definition cc_votes_as_of :: "proposal_state \<Rightarrow> block_slot \<Rightarrow> stake_credential \<rightharpoonup> vote" where
  "cc_votes_as_of p slot = votes_as_of (ps_cc_votes p) slot"

definition drep_votes_as_of :: "proposal_state \<Rightarrow> block_slot \<Rightarrow> stake_credential \<rightharpoonup> vote" where
  "drep_votes_as_of p slot = votes_as_of (ps_drep_votes p) slot"

definition spo_votes_as_of :: "proposal_state \<Rightarrow> block_slot \<Rightarrow> pool_hash \<rightharpoonup> vote" where
  "spo_votes_as_of p slot = votes_as_of (ps_spo_votes p) slot"

section \<open>How a proposal ends\<close>

definition is_unresolved_at_close :: "build \<Rightarrow> proposal_state \<Rightarrow> epoch \<Rightarrow> bool option" where
  "is_unresolved_at_close b p e =
     (if (case ps_ratified_epoch p of Some ratified \<Rightarrow> ratified < e | None \<Rightarrow> False) then Some False
      else if (case ps_canceled_epoch p of Some canceled \<Rightarrow> canceled \<le> e | None \<Rightarrow> False) then Some False
      else case ps_max_epoch p of
          Some m \<Rightarrow> do { x \<leftarrow> raw_add b m 1; Some (\<not> x < e) }
        | None \<Rightarrow> Some True)"

definition expires_at :: "build \<Rightarrow> proposal_state \<Rightarrow> epoch option option" where
  "expires_at b p =
     (case ps_max_epoch p of
        None \<Rightarrow> Some None
      | Some x \<Rightarrow> do { y \<leftarrow> raw_add b x 1; Some (Some y) })"

definition has_expired :: "build \<Rightarrow> proposal_state \<Rightarrow> epoch \<Rightarrow> bool option" where
  "has_expired b p current_epoch = do {
     expires \<leftarrow> expires_at b p;
     Some (case expires of Some x \<Rightarrow> x \<le> current_epoch | None \<Rightarrow> False)
   }"

definition was_enacted :: "build \<Rightarrow> proposal_state \<Rightarrow> epoch \<Rightarrow> bool option" where
  "was_enacted b p current_epoch =
     (case ps_ratified_epoch p of
        Some ratified \<Rightarrow> do { x \<leftarrow> raw_add b ratified 1; Some (current_epoch > x) }
      | None \<Rightarrow> Some False)"

definition was_canceled :: "proposal_state \<Rightarrow> epoch \<Rightarrow> bool" where
  "was_canceled p current_epoch =
     (case ps_canceled_epoch p of Some canceled \<Rightarrow> current_epoch > canceled | None \<Rightarrow> False)"

definition proposal_is_active :: "build \<Rightarrow> proposal_state \<Rightarrow> epoch \<Rightarrow> bool option" where
  "proposal_is_active b p current_epoch = do {
     enacted \<leftarrow> was_enacted b p current_epoch;
     (if enacted then Some False
      else if was_canceled p current_epoch then Some False
      else do {
        expires \<leftarrow> expires_at b p;
        (case expires of
           Some x \<Rightarrow> do { y \<leftarrow> raw_add b x 1; Some (current_epoch \<le> y) }
         | None \<Rightarrow> Some True)
      })
   }"

section \<open>Deltas\<close>

record new_proposal =
  np_slot :: block_slot
  np_tx :: hash32
  np_idx :: u32
  np_action :: proposal_action
  np_deposit :: "lovelace option"
  np_reward_account :: "stake_credential option"
  np_validity_period :: "u64 option"
  np_current_epoch :: epoch
  np_network_magic :: u32
  np_protocol :: u16
  np_prev :: "proposal_state option"

definition new_proposal_new :: "block_slot \<Rightarrow> hash32 \<Rightarrow> u32 \<Rightarrow> proposal_action \<Rightarrow> lovelace option
    \<Rightarrow> stake_credential option \<Rightarrow> u64 option \<Rightarrow> epoch \<Rightarrow> u32 \<Rightarrow> u16 \<Rightarrow> new_proposal" where
  "new_proposal_new slot tx i action deposit account validity e magic protocol =
     \<lparr>np_slot = slot, np_tx = tx, np_idx = i, np_action = action, np_deposit = deposit,
      np_reward_account = account, np_validity_period = validity, np_current_epoch = e,
      np_network_magic = magic, np_protocol = protocol, np_prev = None\<rparr>"

definition new_proposal_key :: "new_proposal \<Rightarrow> ns_key" where
  "new_proposal_key d = (proposal_ns, build_entity_key (np_tx d) (np_idx d))"

text \<open>\<^verbatim>\<open>validity_period.map(|x| self.current_epoch + x)\<close>.\<close>

definition last_valid_epoch :: "build \<Rightarrow> u64 option \<Rightarrow> epoch \<Rightarrow> epoch option option" where
  "last_valid_epoch b validity e =
     (case validity of None \<Rightarrow> Some None | Some x \<Rightarrow> map_option Some (raw_add b e x))"

definition new_proposal_apply :: "build \<Rightarrow> (new_proposal, proposal_state) apply_fn" where
  "new_proposal_apply b d entity = do {
     let d = d\<lparr>np_prev := entity\<rparr>;
     max_epoch \<leftarrow> last_valid_epoch b (np_validity_period d) (np_current_epoch d);
     Some (d, Some \<lparr>ps_slot = np_slot d, ps_tx = np_tx d, ps_idx = np_idx d, ps_action = np_action d,
       ps_max_epoch = max_epoch, ps_ratified_epoch = None, ps_canceled_epoch = None,
       ps_deposit = np_deposit d, ps_reward_account = np_reward_account d,
       ps_proposed_in = Some (np_current_epoch d), ps_parent = None, ps_purpose = None, ps_anchor = None,
       ps_cc_votes = Map.empty, ps_drep_votes = Map.empty, ps_spo_votes = Map.empty\<rparr>)
   }"

definition new_proposal_undo :: "(new_proposal, proposal_state) undo_fn" where
  "new_proposal_undo d entity = Some (np_prev d)"

record new_proposal_v2 =
  np2_slot :: block_slot
  np2_tx :: hash32
  np2_idx :: u32
  np2_action :: proposal_action
  np2_deposit :: "lovelace option"
  np2_reward_account :: "stake_credential option"
  np2_validity_period :: "u64 option"
  np2_current_epoch :: epoch
  np2_network_magic :: u32
  np2_protocol :: u16
  np2_parent :: "gov_action_id option"
  np2_purpose :: "gov_purpose option"
  np2_anchor :: "anchor option"
  np2_prev :: "proposal_state option"

definition new_proposal_v2_new :: "block_slot \<Rightarrow> hash32 \<Rightarrow> u32 \<Rightarrow> proposal_action \<Rightarrow> lovelace option
    \<Rightarrow> stake_credential option \<Rightarrow> u64 option \<Rightarrow> epoch \<Rightarrow> u32 \<Rightarrow> u16 \<Rightarrow> gov_action_id option
    \<Rightarrow> gov_purpose option \<Rightarrow> anchor option \<Rightarrow> new_proposal_v2" where
  "new_proposal_v2_new slot tx i action deposit account validity e magic protocol parent purpose anchor =
     \<lparr>np2_slot = slot, np2_tx = tx, np2_idx = i, np2_action = action, np2_deposit = deposit,
      np2_reward_account = account, np2_validity_period = validity, np2_current_epoch = e,
      np2_network_magic = magic, np2_protocol = protocol, np2_parent = parent, np2_purpose = purpose,
      np2_anchor = anchor, np2_prev = None\<rparr>"

definition new_proposal_v2_key :: "new_proposal_v2 \<Rightarrow> ns_key" where
  "new_proposal_v2_key d = (proposal_ns, build_entity_key (np2_tx d) (np2_idx d))"

definition new_proposal_v2_apply :: "build \<Rightarrow> (new_proposal_v2, proposal_state) apply_fn" where
  "new_proposal_v2_apply b d entity = do {
     let d = d\<lparr>np2_prev := entity\<rparr>;
     max_epoch \<leftarrow> last_valid_epoch b (np2_validity_period d) (np2_current_epoch d);
     Some (d, Some \<lparr>ps_slot = np2_slot d, ps_tx = np2_tx d, ps_idx = np2_idx d, ps_action = np2_action d,
       ps_max_epoch = max_epoch, ps_ratified_epoch = None, ps_canceled_epoch = None,
       ps_deposit = np2_deposit d, ps_reward_account = np2_reward_account d,
       ps_proposed_in = Some (np2_current_epoch d), ps_parent = np2_parent d, ps_purpose = np2_purpose d,
       ps_anchor = np2_anchor d,
       ps_cc_votes = Map.empty, ps_drep_votes = Map.empty, ps_spo_votes = Map.empty\<rparr>)
   }"

definition new_proposal_v2_undo :: "(new_proposal_v2, proposal_state) undo_fn" where
  "new_proposal_v2_undo d entity = Some (np2_prev d)"

record vote_cast =
  vc_proposal_tx :: hash32
  vc_proposal_idx :: u32
  vc_voter :: voter
  vc_vote :: vote
  vc_slot :: block_slot
  vc_applied :: bool
  vc_created_entry :: bool

definition vote_cast_new :: "hash32 \<Rightarrow> u32 \<Rightarrow> voter \<Rightarrow> vote \<Rightarrow> block_slot \<Rightarrow> vote_cast" where
  "vote_cast_new tx i voter vote slot =
     \<lparr>vc_proposal_tx = tx, vc_proposal_idx = i, vc_voter = voter, vc_vote = vote, vc_slot = slot,
      vc_applied = False, vc_created_entry = False\<rparr>"

definition vote_cast_key :: "vote_cast \<Rightarrow> ns_key" where
  "vote_cast_key d = (proposal_ns, build_entity_key (vc_proposal_tx d) (vc_proposal_idx d))"

definition vote_cast_apply :: "(vote_cast, proposal_state) apply_fn" where
  "vote_cast_apply d entity =
     (case entity of
        None \<Rightarrow> Some (d\<lparr>vc_applied := False, vc_created_entry := False\<rparr>, None)
      | Some p \<Rightarrow>
          let (created, p) = vote_history_push (vc_voter d) (vc_slot d, vc_vote d) p
          in Some (d\<lparr>vc_applied := True, vc_created_entry := created\<rparr>, Some p))"

definition vote_cast_undo :: "(vote_cast, proposal_state) undo_fn" where
  "vote_cast_undo d entity =
     (if \<not> vc_applied d then Some entity
      else Some (map_option (vote_history_pop (vc_voter d) (vc_created_entry d)) entity))"

datatype proposal_outcome = Enacted | Expired | PrunedSibling

record proposal_resolved =
  pres_tx :: hash32
  pres_idx :: u32
  pres_outcome :: proposal_outcome
  pres_closing_epoch :: epoch
  pres_prev :: "(epoch option \<times> epoch option) option"

definition proposal_resolved_new :: "hash32 \<Rightarrow> u32 \<Rightarrow> proposal_outcome \<Rightarrow> epoch \<Rightarrow> proposal_resolved" where
  "proposal_resolved_new tx i outcome e =
     \<lparr>pres_tx = tx, pres_idx = i, pres_outcome = outcome, pres_closing_epoch = e, pres_prev = None\<rparr>"

definition proposal_resolved_key :: "proposal_resolved \<Rightarrow> ns_key" where
  "proposal_resolved_key d = (proposal_ns, build_entity_key (pres_tx d) (pres_idx d))"

definition proposal_resolved_apply :: "build \<Rightarrow> (proposal_resolved, proposal_state) apply_fn" where
  "proposal_resolved_apply b d entity =
     (case entity of
        None \<Rightarrow> Some (d, None)
      | Some p \<Rightarrow> do {
          let d = d\<lparr>pres_prev := Some (ps_ratified_epoch p, ps_canceled_epoch p)\<rparr>;
          (case pres_outcome d of
             Enacted \<Rightarrow> Some (d, Some (p\<lparr>ps_ratified_epoch := Some (pres_closing_epoch d)\<rparr>))
           | _ \<Rightarrow> do {
               x \<leftarrow> raw_add b (pres_closing_epoch d) 1;
               Some (d, Some (p\<lparr>ps_canceled_epoch := Some x\<rparr>))
             })
        })"

definition proposal_resolved_undo :: "(proposal_resolved, proposal_state) undo_fn" where
  "proposal_resolved_undo d entity =
     (case (entity, pres_prev d) of
        (Some p, Some (ratified, canceled)) \<Rightarrow>
          Some (Some (p\<lparr>ps_ratified_epoch := ratified, ps_canceled_epoch := canceled\<rparr>))
      | _ \<Rightarrow> Some entity)"

section \<open>Every delta can be undone\<close>

lemmas proposal_key_defs =
  new_proposal_key_def new_proposal_v2_key_def vote_cast_key_def proposal_resolved_key_def

interpretation new_proposal: reversible_delta new_proposal_key
  "new_proposal_apply b" new_proposal_undo "\<lambda>_. True" "\<lambda>_ _. True"
  by unfold_locales (auto simp: new_proposal_key_def new_proposal_apply_def new_proposal_undo_def Let_def panic_simps)

interpretation new_proposal_v2: reversible_delta new_proposal_v2_key
  "new_proposal_v2_apply b" new_proposal_v2_undo "\<lambda>_. True" "\<lambda>_ _. True"
  by unfold_locales
    (auto simp: new_proposal_v2_key_def new_proposal_v2_apply_def new_proposal_v2_undo_def Let_def panic_simps)

lemma vote_history_pop_push:
  "vote_history_push voter ev p = (created, p') \<Longrightarrow> vote_history_pop voter created p' = p"
  by (cases voter) (auto simp: history_pop_push split: prod.splits)

lemma vote_cast_cases:
  assumes "vote_cast_apply d e = Some (d', e')"
  obtains (unknown) "e = None" "e' = None" "d' = d\<lparr>vc_applied := False, vc_created_entry := False\<rparr>"
  | (recorded) p p' created where "e = Some p" "vote_history_push (vc_voter d) (vc_slot d, vc_vote d) p = (created, p')"
      "e' = Some p'" "d' = d\<lparr>vc_applied := True, vc_created_entry := created\<rparr>"
  using assms by (cases e) (auto simp: vote_cast_apply_def split: prod.splits)

interpretation vote_cast: reversible_delta vote_cast_key vote_cast_apply vote_cast_undo "\<lambda>_. True" "\<lambda>_ _. True"
  by unfold_locales (erule vote_cast_cases; simp add: vote_cast_key_def vote_cast_undo_def vote_history_pop_push)+

interpretation proposal_resolved: reversible_delta proposal_resolved_key
  "proposal_resolved_apply b" proposal_resolved_undo "\<lambda>_. True" "\<lambda>_ _. True"
  by unfold_locales
    (auto simp: proposal_resolved_key_def proposal_resolved_apply_def proposal_resolved_undo_def Let_def panic_simps
      split: option.splits proposal_outcome.splits)

section \<open>Votes\<close>

text \<open>The map a voter's votes go to, as an event of that map.\<close>

fun cc_voter :: "voter \<Rightarrow> stake_credential option" where
  "cc_voter (ConstitutionalCommitteeKey h) = Some (AddrKeyhash h)"
| "cc_voter (ConstitutionalCommitteeScript h) = Some (ScriptHash h)"
| "cc_voter _ = None"

fun drep_voter :: "voter \<Rightarrow> stake_credential option" where
  "drep_voter (VoterDRepKey h) = Some (AddrKeyhash h)"
| "drep_voter (VoterDRepScript h) = Some (ScriptHash h)"
| "drep_voter _ = None"

fun spo_voter :: "voter \<Rightarrow> pool_hash option" where
  "spo_voter (StakePoolKey h) = Some h"
| "spo_voter _ = None"

definition cast_events :: "(voter \<Rightarrow> 'k option) \<Rightarrow> vote_cast list \<Rightarrow> (block_slot \<times> 'k \<times> vote) list" where
  "cast_events who ds = List.map_filter (\<lambda>d. map_option (\<lambda>k. (vc_slot d, k, vc_vote d)) (who (vc_voter d))) ds"

fun run_votes :: "vote_cast list \<Rightarrow> proposal_state option \<Rightarrow> proposal_state option" where
  "run_votes [] e = e"
| "run_votes (d # ds) e = (case vote_cast_apply d e of Some (_, e') \<Rightarrow> run_votes ds e' | None \<Rightarrow> None)"

lemma cast_events_Nil [simp]: "cast_events who [] = []"
  by (simp add: cast_events_def)

lemma cast_events_Cons [simp]:
  "cast_events who (d # ds) = (case who (vc_voter d) of Some k \<Rightarrow> [(vc_slot d, k, vc_vote d)] | None \<Rightarrow> []) @ cast_events who ds"
  by (simp add: cast_events_def map_filter_simps split: option.split)

lemma vote_history_push_maps:
  assumes "vote_history_push voter ev p = (created, p')"
  shows "ps_cc_votes p' = (case cc_voter voter of Some k \<Rightarrow> snd (history_push k ev (ps_cc_votes p)) | None \<Rightarrow> ps_cc_votes p)"
    and "ps_drep_votes p' = (case drep_voter voter of Some k \<Rightarrow> snd (history_push k ev (ps_drep_votes p)) | None \<Rightarrow> ps_drep_votes p)"
    and "ps_spo_votes p' = (case spo_voter voter of Some k \<Rightarrow> snd (history_push k ev (ps_spo_votes p)) | None \<Rightarrow> ps_spo_votes p)"
  using assms by (cases voter; auto split: prod.splits)+

lemma run_votes_maps:
  "\<exists>p'. run_votes ds (Some p) = Some p' \<and>
     ps_cc_votes p' = fold push_event (cast_events cc_voter ds) (ps_cc_votes p) \<and>
     ps_drep_votes p' = fold push_event (cast_events drep_voter ds) (ps_drep_votes p) \<and>
     ps_spo_votes p' = fold push_event (cast_events spo_voter ds) (ps_spo_votes p)"
proof (induction ds arbitrary: p)
  case (Cons d ds)
  obtain created p1 where push: "vote_history_push (vc_voter d) (vc_slot d, vc_vote d) p = (created, p1)" by fastforce
  then have "run_votes (d # ds) (Some p) = run_votes ds (Some p1)" by (simp add: vote_cast_apply_def)
  with Cons.IH [of p1] vote_history_push_maps [OF push] show ?case
    by (auto simp: push_event_def split: option.splits)
qed simp

section \<open>The end of a proposal\<close>

lemma unresolved_cases:
  assumes "is_unresolved_at_close b p e = Some True"
  shows "\<And>r. ps_ratified_epoch p = Some r \<Longrightarrow> e \<le> r" and "\<And>c. ps_canceled_epoch p = Some c \<Longrightarrow> e < c"
    and "\<And>m. ps_max_epoch p = Some m \<Longrightarrow> \<exists>x. raw_add b m 1 = Some x \<and> e \<le> x"
  using assms by (auto simp: is_unresolved_at_close_def panic_simps not_less split: if_splits option.splits)

lemma resolved_fields:
  assumes "proposal_resolved_apply b d (Some p) = Some (d', Some p')" and "unat (pres_closing_epoch d) + 1 < 2 ^ 64"
  shows "ps_max_epoch p' = ps_max_epoch p"
    and "pres_outcome d = Enacted \<and> ps_ratified_epoch p' = Some (pres_closing_epoch d) \<and> ps_canceled_epoch p' = ps_canceled_epoch p \<or>
      pres_outcome d \<noteq> Enacted \<and> ps_ratified_epoch p' = ps_ratified_epoch p \<and> ps_canceled_epoch p' = Some (pres_closing_epoch d + 1)"
proof -
  have "raw_add b (pres_closing_epoch d) 1 = Some (pres_closing_epoch d + 1)"
    using assms(2) by (simp add: raw_add_def checked_add_def)
  then show "ps_max_epoch p' = ps_max_epoch p"
    and "pres_outcome d = Enacted \<and> ps_ratified_epoch p' = Some (pres_closing_epoch d) \<and> ps_canceled_epoch p' = ps_canceled_epoch p \<or>
      pres_outcome d \<noteq> Enacted \<and> ps_ratified_epoch p' = ps_ratified_epoch p \<and> ps_canceled_epoch p' = Some (pres_closing_epoch d + 1)"
    using assms(1) by (auto simp: proposal_resolved_apply_def Let_def split: proposal_outcome.splits)
qed

lemma less_Suc_word: "unat (e :: u64) + 1 < 2 ^ 64 \<Longrightarrow> e + 1 \<le> e' \<longleftrightarrow> e < e'"
  using unat_add_no_overflow [of e 1] by (auto simp: word_le_nat_alt word_less_nat_alt)

text \<open>Out of the forest at every later close, in it at every earlier one.\<close>

lemma resolved_forest:
  assumes "is_unresolved_at_close b p (pres_closing_epoch d) = Some True"
    and "proposal_resolved_apply b d (Some p) = Some (d', Some p')" and "unat (pres_closing_epoch d) + 1 < 2 ^ 64"
  shows "is_unresolved_at_close b p' e = Some (e \<le> pres_closing_epoch d)"
proof (cases "e \<le> pres_closing_epoch d")
  case True
  note before = unresolved_cases [OF assms(1)]
  have "\<not> r < e" if "ps_ratified_epoch p' = Some r" for r
    using that resolved_fields(2) [OF assms(2,3)] before(1) True by fastforce
  moreover have "\<not> c \<le> e" if "ps_canceled_epoch p' = Some c" for c
    using that resolved_fields(2) [OF assms(2,3)] before(2) True less_Suc_word [OF assms(3)] by fastforce
  moreover have "\<exists>x. raw_add b m 1 = Some x \<and> \<not> x < e" if "ps_max_epoch p' = Some m" for m
    using that resolved_fields(1) [OF assms(2,3)] before(3) True by fastforce
  ultimately show ?thesis using True by (fastforce simp: is_unresolved_at_close_def split: option.splits)
next
  case False
  with resolved_fields(2) [OF assms(2,3)] less_Suc_word [OF assms(3), of e] show ?thesis
    by (auto simp: is_unresolved_at_close_def split: option.splits)
qed

text \<open>Visible as active for one more epoch, the one in which its drop is processed.\<close>

lemma resolved_active:
  assumes "is_unresolved_at_close b p (pres_closing_epoch d) = Some True"
    and live: "ps_ratified_epoch p = None" "ps_canceled_epoch p = None" and m: "\<And>m. ps_max_epoch p = Some m \<Longrightarrow> unat m + 2 < 2 ^ 64"
    and "proposal_resolved_apply b d (Some p) = Some (d', Some p')" and e: "unat (pres_closing_epoch d) + 1 < 2 ^ 64"
  shows "proposal_is_active b p' (pres_closing_epoch d + 1) = Some True"
    and "pres_closing_epoch d + 1 < e' \<Longrightarrow> proposal_is_active b p' e' = Some False"
proof -
  note fields = resolved_fields [OF assms(5) e]
  have e1: "raw_add b (pres_closing_epoch d) 1 = Some (pres_closing_epoch d + 1)"
    using e by (simp add: raw_add_def checked_add_def)
  have ended: "was_enacted b p' e' = Some (pres_outcome d = Enacted \<and> pres_closing_epoch d + 1 < e')"
      "was_canceled p' e' \<longleftrightarrow> pres_outcome d \<noteq> Enacted \<and> pres_closing_epoch d + 1 < e'" for e'
    using fields(2) live by (auto simp: was_enacted_def was_canceled_def e1)
  show "pres_closing_epoch d + 1 < e' \<Longrightarrow> proposal_is_active b p' e' = Some False"
    by (auto simp: proposal_is_active_def ended)
  have "\<exists>x. raw_add b m 1 = Some x \<and> raw_add b x 1 = Some (x + 1) \<and> pres_closing_epoch d + 1 \<le> x + 1"
    if "ps_max_epoch p = Some m" for m
  proof -
    have sum: "unat (m + 1) = unat m + 1" using m [OF that] unat_add_no_overflow [of m 1] by simp
    then have "raw_add b m 1 = Some (m + 1)" using m [OF that] by (simp add: raw_add_def checked_add_def)
    moreover have "raw_add b (m + 1) 1 = Some (m + 1 + 1)" using m [OF that] sum by (simp add: raw_add_def checked_add_def)
    moreover have "pres_closing_epoch d \<le> m + 1" using unresolved_cases(3) [OF assms(1) that] calculation(1) by auto
    then have "pres_closing_epoch d + 1 \<le> m + 1 + 1"
      using e m [OF that] sum unat_add_no_overflow [of "m + 1" 1] unat_add_no_overflow [of "pres_closing_epoch d" 1]
      by (simp add: word_le_nat_alt)
    ultimately show ?thesis by blast
  qed
  then show "proposal_is_active b p' (pres_closing_epoch d + 1) = Some True"
    using fields(1) by (cases "ps_max_epoch p") (fastforce simp: proposal_is_active_def ended expires_at_def)+
qed

section \<open>Properties\<close>

text \<open>
  C31. A tally as of a slot reads the right votes. After a proposal was created and any votes were cast on
  it, by whoever and however often, the votes of the committee, of the DReps and of the pools as of a slot are,
  for each voter, the last vote cast at or before that slot, and no vote for a voter without one: later
  votes do not show, and a vote of one body never shows in another's.
\<close>

theorem votes_read_as_of:
  assumes "new_proposal_v2_apply b d e = Some (d', e')"
  shows "\<exists>p. run_votes ds e' = Some p \<and>
    cc_votes_as_of p slot = latest slot (cast_events cc_voter ds) \<and>
    drep_votes_as_of p slot = latest slot (cast_events drep_voter ds) \<and>
    spo_votes_as_of p slot = latest slot (cast_events spo_voter ds)"
proof -
  from assms obtain p0 where e': "e' = Some p0" and none: "ps_cc_votes p0 = Map.empty" "ps_drep_votes p0 = Map.empty"
      "ps_spo_votes p0 = Map.empty" by (auto simp: new_proposal_v2_apply_def Let_def panic_simps)
  have read: "votes_as_of (fold push_event evs Map.empty) slot = latest slot evs" for evs :: "(block_slot \<times> 'k \<times> vote) list"
    by (simp add: fun_eq_iff votes_as_of_def reads_latest split: option.split)
  from run_votes_maps [of ds p0] none show ?thesis
    by (auto simp: e' cc_votes_as_of_def drep_votes_as_of_def spo_votes_as_of_def read)
qed

definition sample_proposal :: new_proposal_v2 where
  "sample_proposal = new_proposal_v2_new 10 1 0 ActInfo None None (Some 6) 3 1 9 None None None"

theorem votes_read_as_of_witness:
  "\<exists>d' e' p. new_proposal_v2_apply \<lparr>strict = True, overflow_checks = True\<rparr> sample_proposal None = Some (d', e') \<and>
     run_votes [vote_cast_new 1 0 (VoterDRepKey 7) VoteYes 20, vote_cast_new 1 0 (VoterDRepKey 7) VoteNo 40] e' = Some p \<and>
     drep_votes_as_of p 30 (AddrKeyhash 7) = Some VoteYes \<and> drep_votes_as_of p 50 (AddrKeyhash 7) = Some VoteNo"
proof -
  let ?b = "\<lparr>strict = True, overflow_checks = True\<rparr>"
  let ?ds = "[vote_cast_new 1 0 (VoterDRepKey 7) VoteYes 20, vote_cast_new 1 0 (VoterDRepKey 7) VoteNo 40]"
  obtain d' e' where run: "new_proposal_v2_apply ?b sample_proposal None = Some (d', e')"
    by (simp add: new_proposal_v2_apply_def sample_proposal_def new_proposal_v2_new_def last_valid_epoch_def raw_add_def
        checked_add_def panic_simps)
  have "latest 30 (cast_events drep_voter ?ds) (AddrKeyhash 7) = Some VoteYes"
      "latest 50 (cast_events drep_voter ?ds) (AddrKeyhash 7) = Some VoteNo"
    by (simp_all add: vote_cast_new_def latest_def)
  with run votes_read_as_of [OF run, of ?ds 30] votes_read_as_of [OF run, of ?ds 50] show ?thesis by fastforce
qed

text \<open>
  C32. A ruling takes a proposal out for good and at the right time. When a boundary that closes an epoch
  rules on a proposal that is still in the forest (enacting it, or dropping it as expired or pruned), the
  proposal is in the forest at exactly the closes up to that one, and it stays active for exactly one more
  epoch, in which its drop is processed.
\<close>

theorem ruling_ends_proposal:
  assumes "is_unresolved_at_close b p (pres_closing_epoch d) = Some True"
    and "ps_ratified_epoch p = None" and "ps_canceled_epoch p = None"
    and "\<forall>m. ps_max_epoch p = Some m \<longrightarrow> unat m + 2 < 2 ^ 64" and "unat (pres_closing_epoch d) + 1 < 2 ^ 64"
    and "proposal_resolved_apply b d (Some p) = Some (d', Some p')"
  shows "(\<forall>e. is_unresolved_at_close b p' e = Some (e \<le> pres_closing_epoch d)) \<and>
    proposal_is_active b p' (pres_closing_epoch d + 1) = Some True \<and>
    (\<forall>e > pres_closing_epoch d + 1. proposal_is_active b p' e = Some False)"
  using resolved_forest [OF assms(1,6,5)] resolved_active [OF assms(1-3) _ assms(6,5)] assms(4) by blast

theorem ruling_ends_proposal_witness:
  "\<exists>d' p p' d1. new_proposal_v2_apply \<lparr>strict = True, overflow_checks = True\<rparr> sample_proposal None = Some (d1, Some p) \<and>
     proposal_resolved_apply \<lparr>strict = True, overflow_checks = True\<rparr> (proposal_resolved_new 1 0 Expired 10) (Some p) = Some (d', Some p') \<and>
     is_unresolved_at_close \<lparr>strict = True, overflow_checks = True\<rparr> p' 10 = Some True \<and>
     is_unresolved_at_close \<lparr>strict = True, overflow_checks = True\<rparr> p' 11 = Some False \<and>
     proposal_is_active \<lparr>strict = True, overflow_checks = True\<rparr> p' 11 = Some True"
proof -
  let ?b = "\<lparr>strict = True, overflow_checks = True\<rparr>" and ?d = "proposal_resolved_new 1 0 Expired 10"
  obtain d1 p where p: "new_proposal_v2_apply ?b sample_proposal None = Some (d1, Some p)"
      "ps_ratified_epoch p = None" "ps_canceled_epoch p = None" "ps_max_epoch p = Some 9"
    by (simp add: new_proposal_v2_apply_def sample_proposal_def new_proposal_v2_new_def last_valid_epoch_def raw_add_def
        checked_add_def panic_simps)
  have d: "pres_closing_epoch ?d = 10" by (simp add: proposal_resolved_new_def)
  obtain d' p' where run: "proposal_resolved_apply ?b ?d (Some p) = Some (d', Some p')"
    by (simp add: proposal_resolved_apply_def proposal_resolved_new_def raw_add_def checked_add_def Let_def)
  have "is_unresolved_at_close ?b p (pres_closing_epoch ?d) = Some True"
    using p by (simp add: is_unresolved_at_close_def d raw_add_def checked_add_def)
  with ruling_ends_proposal [of ?b p ?d d' p'] p run d show ?thesis by auto
qed

end
