(* ===== verification/Ledger_Order.thy ===== *)
theory Ledger_Order
  imports Ledger_Types
begin

text \<open>
  The derived orders of credentials and DReps, which the source uses as keys of ordered maps. The
  order of the variants is the library's; it decides only the order of iteration.
\<close>

instantiation stake_credential :: linorder
begin

fun less_eq_stake_credential :: "stake_credential \<Rightarrow> stake_credential \<Rightarrow> bool" where
  "less_eq_stake_credential (ScriptHash x) (ScriptHash y) = (x \<le> y)"
| "less_eq_stake_credential (ScriptHash x) (AddrKeyhash y) = True"
| "less_eq_stake_credential (AddrKeyhash x) (ScriptHash y) = False"
| "less_eq_stake_credential (AddrKeyhash x) (AddrKeyhash y) = (x \<le> y)"

definition less_stake_credential :: "stake_credential \<Rightarrow> stake_credential \<Rightarrow> bool" where
  "less_stake_credential x y \<longleftrightarrow> x \<le> y \<and> \<not> y \<le> x"

instance
proof
  fix x y z :: stake_credential
  show "x \<le> x" by (cases x) auto
  show "x \<le> y \<Longrightarrow> y \<le> z \<Longrightarrow> x \<le> z" by (cases x; cases y; cases z) auto
  show "x \<le> y \<Longrightarrow> y \<le> x \<Longrightarrow> x = y" by (cases x; cases y) auto
  show "x \<le> y \<or> y \<le> x" by (cases x; cases y) auto
qed (rule less_stake_credential_def)

end

instantiation drep :: linorder
begin

fun less_eq_drep :: "drep \<Rightarrow> drep \<Rightarrow> bool" where
  "less_eq_drep (DRepKey x) d = (case d of DRepKey y \<Rightarrow> x \<le> y | _ \<Rightarrow> True)"
| "less_eq_drep (DRepScript x) d = (case d of DRepKey _ \<Rightarrow> False | DRepScript y \<Rightarrow> x \<le> y | _ \<Rightarrow> True)"
| "less_eq_drep DRepAbstain d = (d = DRepAbstain \<or> d = DRepNoConfidence)"
| "less_eq_drep DRepNoConfidence d = (d = DRepNoConfidence)"

definition less_drep :: "drep \<Rightarrow> drep \<Rightarrow> bool" where
  "less_drep x y \<longleftrightarrow> x \<le> y \<and> \<not> y \<le> x"

instance
proof
  fix x y z :: drep
  show "x \<le> x" by (cases x) auto
  show "x \<le> y \<Longrightarrow> y \<le> z \<Longrightarrow> x \<le> z" by (cases x; cases y; cases z) auto
  show "x \<le> y \<Longrightarrow> y \<le> x \<Longrightarrow> x = y" by (cases x; cases y) auto
  show "x \<le> y \<or> y \<le> x" by (cases x; cases y) auto
qed (rule less_drep_def)

end

end
