(* ===== verification/Gov.thy ===== *)
theory Gov
  imports Proposals Ordered_Table Ledger_Order
begin

text \<open>
  The governance singleton (\<^verbatim>\<open>crates/cardano/src/model/gov.rs\<close>): constitution, committee
  and its authorisations, the roots of the lineage trees, the dormancy counter, and the stake
  distributions that the closing of an epoch accumulates shard by shard; with its twelve deltas.
\<close>

section \<open>The state\<close>

record constitution =
  cn_anchor :: anchor
  cn_guardrail_script :: "hash28 option"

record committee =
  cm_members :: "(stake_credential, epoch) table"
  cm_threshold :: rational_number

datatype committee_authorization = HotCredential stake_credential | Resigned "anchor option"

type_synonym auth_history = "committee_authorization history"

record gov_distr =
  gd_closing_epoch :: epoch
  gd_committed_shards :: u32
  gd_total_shards :: u32
  gd_drep_distr :: "(drep, u64) table"
  gd_pool_distr :: "(pool_hash, u64) table"
  gd_pool_total :: u64

definition gov_distr_new :: "epoch \<Rightarrow> u32 \<Rightarrow> gov_distr" where
  "gov_distr_new closing_epoch total_shards =
     \<lparr>gd_closing_epoch = closing_epoch, gd_committed_shards = 0, gd_total_shards = total_shards,
      gd_drep_distr = [], gd_pool_distr = [], gd_pool_total = 0\<rparr>"

definition is_complete_for :: "gov_distr \<Rightarrow> epoch \<Rightarrow> bool" where
  "is_complete_for distr e \<longleftrightarrow> gd_closing_epoch distr = e \<and> gd_committed_shards distr = gd_total_shards distr"

record gov_roots =
  gr_pparam_update :: "gov_action_id option"
  gr_hard_fork :: "gov_action_id option"
  gr_committee :: "gov_action_id option"
  gr_constitution :: "gov_action_id option"

definition gov_roots_default :: gov_roots where
  "gov_roots_default = \<lparr>gr_pparam_update = None, gr_hard_fork = None, gr_committee = None, gr_constitution = None\<rparr>"

fun gov_root :: "gov_purpose \<Rightarrow> gov_roots \<Rightarrow> gov_action_id option" where
  "gov_root PurposePParamUpdate r = gr_pparam_update r"
| "gov_root PurposeHardFork r = gr_hard_fork r"
| "gov_root PurposeCommittee r = gr_committee r"
| "gov_root PurposeConstitution r = gr_constitution r"

text \<open>Writing through \<^verbatim>\<open>root_mut\<close>.\<close>

fun set_gov_root :: "gov_purpose \<Rightarrow> gov_action_id option \<Rightarrow> gov_roots \<Rightarrow> gov_roots" where
  "set_gov_root PurposePParamUpdate x r = r\<lparr>gr_pparam_update := x\<rparr>"
| "set_gov_root PurposeHardFork x r = r\<lparr>gr_hard_fork := x\<rparr>"
| "set_gov_root PurposeCommittee x r = r\<lparr>gr_committee := x\<rparr>"
| "set_gov_root PurposeConstitution x r = r\<lparr>gr_constitution := x\<rparr>"

record gov_state =
  gs_constitution :: "constitution option"
  gs_committee :: "committee option"
  gs_committee_auths :: "stake_credential \<rightharpoonup> auth_history"
  gs_prev_gov_action_ids :: gov_roots
  gs_num_dormant_epochs :: u64
  gs_active_since :: "epoch option"
  gs_distr :: "gov_distr option"
  gs_prev_distr :: "gov_distr option"

definition gov_state_default :: gov_state where
  "gov_state_default = \<lparr>gs_constitution = None, gs_committee = None, gs_committee_auths = Map.empty,
     gs_prev_gov_action_ids = gov_roots_default, gs_num_dormant_epochs = 0, gs_active_since = None,
     gs_distr = None, gs_prev_distr = None\<rparr>"

definition gov_ns :: namespace where
  "gov_ns = ''gov''"

text \<open>The singleton lives under \<^verbatim>\<open>GOV_STATE_KEY\<close>, the byte string \<^verbatim>\<open>b"0"\<close>.\<close>

definition gov_singleton_key :: ns_key where
  "gov_singleton_key = (gov_ns, entity_key_from [0x30])"

definition seed_genesis :: "constitution \<Rightarrow> committee \<Rightarrow> epoch \<Rightarrow> gov_state \<Rightarrow> gov_state" where
  "seed_genesis cn cm active_since g =
     g\<lparr>gs_constitution := Some cn, gs_committee := Some cm, gs_active_since := Some active_since\<rparr>"

definition committee_auth :: "gov_state \<Rightarrow> stake_credential \<Rightarrow> committee_authorization option" where
  "committee_auth g cold =
     (case gs_committee_auths g cold of
        None \<Rightarrow> None
      | Some history \<Rightarrow> if history = [] then None else Some (snd (last history)))"

definition committee_auth_as_of :: "gov_state \<Rightarrow> stake_credential \<Rightarrow> block_slot \<Rightarrow> committee_authorization option" where
  "committee_auth_as_of g cold slot = Option.bind (gs_committee_auths g cold) (event_as_of slot)"

section \<open>Genesis\<close>

text \<open>The part of the Conway genesis file that the constitution and the committee come from.\<close>

record conway_gov_genesis =
  cgg_anchor_url :: string
  cgg_anchor_data_hash :: string
  cgg_script :: "string option"
  cgg_members :: "(string \<times> epoch) list"
  cgg_threshold :: rational_number

fun split_dash :: "string \<Rightarrow> (string \<times> string) option" where
  "split_dash [] = None"
| "split_dash (c # cs) = (if c = CHR ''-'' then Some ([], cs) else map_option (\<lambda>(x, y). (c # x, y)) (split_dash cs))"

definition hex_array :: "genesis_lib \<Rightarrow> nat \<Rightarrow> string \<Rightarrow> bytes option" where
  "hex_array lib n raw = do {
     bs \<leftarrow> hex_decode lib raw;
     (if length bs = n then Some bs else None)
   }"

definition parse_genesis_committee_member :: "genesis_lib \<Rightarrow> string \<Rightarrow> stake_credential option" where
  "parse_genesis_committee_member lib raw = do {
     (kind, hex_part) \<leftarrow> split_dash raw;
     hash \<leftarrow> hex_array lib 28 hex_part;
     (if kind = ''scriptHash'' then Some (ScriptHash (bytes_word hash))
      else if kind = ''keyHash'' then Some (AddrKeyhash (bytes_word hash))
      else None)
   }"

fun genesis_members :: "genesis_lib \<Rightarrow> (string \<times> epoch) list \<Rightarrow> (stake_credential, epoch) table \<Rightarrow> (stake_credential, epoch) table option" where
  "genesis_members lib [] members = Some members"
| "genesis_members lib ((raw, term) # rest) members = do {
     cred \<leftarrow> parse_genesis_committee_member lib raw;
     genesis_members lib rest (tbl_insert cred term members)
   }"

definition gov_from_conway_genesis :: "genesis_lib \<Rightarrow> conway_gov_genesis \<Rightarrow> chain_error + constitution \<times> committee" where
  "gov_from_conway_genesis lib g =
     (case hex_array lib 32 (cgg_anchor_data_hash g) of
        None \<Rightarrow> Inl (GenesisFieldMissing ''conway constitution.anchor.dataHash'')
      | Some content_hash \<Rightarrow>
          (case (case cgg_script g of None \<Rightarrow> Some None | Some script \<Rightarrow> map_option (Some \<circ> bytes_word) (hex_array lib 28 script)) of
             None \<Rightarrow> Inl (GenesisFieldMissing ''conway constitution.script'')
           | Some guardrail_script \<Rightarrow>
               (case genesis_members lib (cgg_members g) [] of
                  None \<Rightarrow> Inl (GenesisFieldMissing ''conway committee.members'')
                | Some members \<Rightarrow>
                    Inr (\<lparr>cn_anchor = \<lparr>an_url = cgg_anchor_url g, an_content_hash = bytes_word content_hash\<rparr>,
                          cn_guardrail_script = guardrail_script\<rparr>,
                         \<lparr>cm_members = members, cm_threshold = cgg_threshold g\<rparr>))))"

section \<open>Deltas\<close>

record gov_genesis_init =
  ggi_constitution :: constitution
  ggi_committee :: committee
  ggi_epoch :: epoch
  ggi_prev_constitution :: "constitution option"
  ggi_prev_committee :: "committee option"
  ggi_prev_active_since :: "epoch option"

definition gov_genesis_init_new :: "constitution \<Rightarrow> committee \<Rightarrow> epoch \<Rightarrow> gov_genesis_init" where
  "gov_genesis_init_new cn cm e = \<lparr>ggi_constitution = cn, ggi_committee = cm, ggi_epoch = e,
     ggi_prev_constitution = None, ggi_prev_committee = None, ggi_prev_active_since = None\<rparr>"

definition gov_genesis_init_key :: "gov_genesis_init \<Rightarrow> ns_key" where
  "gov_genesis_init_key d = gov_singleton_key"

definition gov_genesis_init_apply :: "(gov_genesis_init, gov_state) apply_fn" where
  "gov_genesis_init_apply d entity = do {
     g \<leftarrow> entity;
     let d = d\<lparr>ggi_prev_constitution := gs_constitution g, ggi_prev_committee := gs_committee g,
               ggi_prev_active_since := gs_active_since g\<rparr>;
     Some (d, Some (seed_genesis (ggi_constitution d) (ggi_committee d) (ggi_epoch d) g))
   }"

definition gov_genesis_init_undo :: "(gov_genesis_init, gov_state) undo_fn" where
  "gov_genesis_init_undo d entity = do {
     g \<leftarrow> entity;
     Some (Some (g\<lparr>gs_constitution := ggi_prev_constitution d, gs_committee := ggi_prev_committee d,
                   gs_active_since := ggi_prev_active_since d\<rparr>))
   }"

definition push_auth :: "stake_credential \<Rightarrow> block_slot \<Rightarrow> committee_authorization \<Rightarrow> gov_state option \<Rightarrow> (bool \<times> gov_state option) option" where
  "push_auth cold slot auth entity = do {
     g \<leftarrow> entity;
     let (created_entry, auths) = history_push cold (slot, auth) (gs_committee_auths g);
     Some (created_entry, Some (g\<lparr>gs_committee_auths := auths\<rparr>))
   }"

definition pop_auth :: "stake_credential \<Rightarrow> bool \<Rightarrow> gov_state option \<Rightarrow> gov_state option option" where
  "pop_auth cold created entity = do {
     g \<leftarrow> entity;
     Some (Some (g\<lparr>gs_committee_auths := history_pop cold created (gs_committee_auths g)\<rparr>))
   }"

record committee_auth_delta =
  cau_cold :: stake_credential
  cau_hot :: stake_credential
  cau_slot :: block_slot
  cau_created_entry :: bool

definition committee_auth_new :: "stake_credential \<Rightarrow> stake_credential \<Rightarrow> block_slot \<Rightarrow> committee_auth_delta" where
  "committee_auth_new cold hot slot = \<lparr>cau_cold = cold, cau_hot = hot, cau_slot = slot, cau_created_entry = False\<rparr>"

definition committee_auth_key :: "committee_auth_delta \<Rightarrow> ns_key" where
  "committee_auth_key d = gov_singleton_key"

definition committee_auth_apply :: "(committee_auth_delta, gov_state) apply_fn" where
  "committee_auth_apply d entity = do {
     (created, entity) \<leftarrow> push_auth (cau_cold d) (cau_slot d) (HotCredential (cau_hot d)) entity;
     Some (d\<lparr>cau_created_entry := created\<rparr>, entity)
   }"

definition committee_auth_undo :: "(committee_auth_delta, gov_state) undo_fn" where
  "committee_auth_undo d entity = pop_auth (cau_cold d) (cau_created_entry d) entity"

record committee_resign =
  crs_cold :: stake_credential
  crs_anchor :: "anchor option"
  crs_slot :: block_slot
  crs_created_entry :: bool

definition committee_resign_new :: "stake_credential \<Rightarrow> anchor option \<Rightarrow> block_slot \<Rightarrow> committee_resign" where
  "committee_resign_new cold anchor slot = \<lparr>crs_cold = cold, crs_anchor = anchor, crs_slot = slot, crs_created_entry = False\<rparr>"

definition committee_resign_key :: "committee_resign \<Rightarrow> ns_key" where
  "committee_resign_key d = gov_singleton_key"

definition committee_resign_apply :: "(committee_resign, gov_state) apply_fn" where
  "committee_resign_apply d entity = do {
     (created, entity) \<leftarrow> push_auth (crs_cold d) (crs_slot d) (Resigned (crs_anchor d)) entity;
     Some (d\<lparr>crs_created_entry := created\<rparr>, entity)
   }"

definition committee_resign_undo :: "(committee_resign, gov_state) undo_fn" where
  "committee_resign_undo d entity = pop_auth (crs_cold d) (crs_created_entry d) entity"

datatype committee_change =
    ChangeNoConfidence
  | ChangeUpdate "stake_credential list" "(stake_credential \<times> epoch) list" rational_number

record committee_update =
  cup_change :: committee_change
  cup_prev :: "committee option"

definition committee_update_no_confidence :: committee_update where
  "committee_update_no_confidence = \<lparr>cup_change = ChangeNoConfidence, cup_prev = None\<rparr>"

definition committee_update_update ::
  "stake_credential list \<Rightarrow> (stake_credential \<times> epoch) list \<Rightarrow> rational_number \<Rightarrow> committee_update" where
  "committee_update_update to_remove to_add threshold =
     \<lparr>cup_change = ChangeUpdate to_remove to_add threshold, cup_prev = None\<rparr>"

definition committee_update_key :: "committee_update \<Rightarrow> ns_key" where
  "committee_update_key d = gov_singleton_key"

text \<open>The arms of the match in \<^verbatim>\<open>apply\<close>.\<close>

fun committee_after :: "committee_change \<Rightarrow> committee option \<Rightarrow> committee option" where
  "committee_after ChangeNoConfidence cm = None"
| "committee_after (ChangeUpdate to_remove to_add threshold) cm =
     (let members = (case cm of Some c \<Rightarrow> cm_members c | None \<Rightarrow> []);
          members = fold tbl_remove to_remove members;
          members = fold (\<lambda>(cold, term). tbl_insert cold term) to_add members
      in Some \<lparr>cm_members = members, cm_threshold = threshold\<rparr>)"

definition committee_update_apply :: "(committee_update, gov_state) apply_fn" where
  "committee_update_apply d entity = do {
     g \<leftarrow> entity;
     Some (d\<lparr>cup_prev := gs_committee g\<rparr>,
           Some (g\<lparr>gs_committee := committee_after (cup_change d) (gs_committee g)\<rparr>))
   }"

definition committee_update_undo :: "(committee_update, gov_state) undo_fn" where
  "committee_update_undo d entity = do {
     g \<leftarrow> entity;
     Some (Some (g\<lparr>gs_committee := cup_prev d\<rparr>))
   }"

record constitution_update =
  cnu_constitution :: constitution
  cnu_prev :: "constitution option"

definition constitution_update_new :: "constitution \<Rightarrow> constitution_update" where
  "constitution_update_new cn = \<lparr>cnu_constitution = cn, cnu_prev = None\<rparr>"

definition constitution_update_key :: "constitution_update \<Rightarrow> ns_key" where
  "constitution_update_key d = gov_singleton_key"

definition constitution_update_apply :: "(constitution_update, gov_state) apply_fn" where
  "constitution_update_apply d entity = do {
     g \<leftarrow> entity;
     Some (d\<lparr>cnu_prev := gs_constitution g\<rparr>, Some (g\<lparr>gs_constitution := Some (cnu_constitution d)\<rparr>))
   }"

definition constitution_update_undo :: "(constitution_update, gov_state) undo_fn" where
  "constitution_update_undo d entity = do {
     g \<leftarrow> entity;
     Some (Some (g\<lparr>gs_constitution := cnu_prev d\<rparr>))
   }"

record gov_roots_update =
  gru_purpose :: gov_purpose
  gru_action :: gov_action_id
  gru_prev :: "gov_action_id option"

definition gov_roots_update_new :: "gov_purpose \<Rightarrow> gov_action_id \<Rightarrow> gov_roots_update" where
  "gov_roots_update_new purpose action = \<lparr>gru_purpose = purpose, gru_action = action, gru_prev = None\<rparr>"

definition gov_roots_update_key :: "gov_roots_update \<Rightarrow> ns_key" where
  "gov_roots_update_key d = gov_singleton_key"

definition gov_roots_update_apply :: "(gov_roots_update, gov_state) apply_fn" where
  "gov_roots_update_apply d entity = do {
     g \<leftarrow> entity;
     Some (d\<lparr>gru_prev := gov_root (gru_purpose d) (gs_prev_gov_action_ids g)\<rparr>,
           Some (g\<lparr>gs_prev_gov_action_ids :=
             set_gov_root (gru_purpose d) (Some (gru_action d)) (gs_prev_gov_action_ids g)\<rparr>))
   }"

definition gov_roots_update_undo :: "(gov_roots_update, gov_state) undo_fn" where
  "gov_roots_update_undo d entity = do {
     g \<leftarrow> entity;
     Some (Some (g\<lparr>gs_prev_gov_action_ids := set_gov_root (gru_purpose d) (gru_prev d) (gs_prev_gov_action_ids g)\<rparr>))
   }"

record gov_dormancy_reset =
  gdr_prev :: u64

definition gov_dormancy_reset_new :: gov_dormancy_reset where
  "gov_dormancy_reset_new = \<lparr>gdr_prev = 0\<rparr>"

definition gov_dormancy_reset_key :: "gov_dormancy_reset \<Rightarrow> ns_key" where
  "gov_dormancy_reset_key d = gov_singleton_key"

definition gov_dormancy_reset_apply :: "(gov_dormancy_reset, gov_state) apply_fn" where
  "gov_dormancy_reset_apply d entity = do {
     g \<leftarrow> entity;
     Some (d\<lparr>gdr_prev := gs_num_dormant_epochs g\<rparr>, Some (g\<lparr>gs_num_dormant_epochs := 0\<rparr>))
   }"

definition gov_dormancy_reset_undo :: "(gov_dormancy_reset, gov_state) undo_fn" where
  "gov_dormancy_reset_undo d entity = do {
     g \<leftarrow> entity;
     Some (Some (g\<lparr>gs_num_dormant_epochs := gdr_prev d\<rparr>))
   }"

text \<open>
  A shard's contribution. \<^verbatim>\<open>merge_weights\<close> is the loop
  \<^verbatim>\<open>*distr.entry(key).or_default() += weight\<close>.
\<close>

record gov_distr_accumulate =
  gda_closing_epoch :: epoch
  gda_shard :: u32
  gda_total_shards :: u32
  gda_drep_distr :: "(drep, u64) table"
  gda_pool_distr :: "(pool_hash, u64) table"
  gda_pool_total :: u64
  gda_applied :: bool
  gda_prev :: "gov_distr option"

definition gov_distr_accumulate_new :: "epoch \<Rightarrow> u32 \<Rightarrow> u32 \<Rightarrow> (drep, u64) table \<Rightarrow> (pool_hash, u64) table \<Rightarrow> u64 \<Rightarrow> gov_distr_accumulate" where
  "gov_distr_accumulate_new e shard n dreps pools pool_total =
     \<lparr>gda_closing_epoch = e, gda_shard = shard, gda_total_shards = n, gda_drep_distr = dreps,
      gda_pool_distr = pools, gda_pool_total = pool_total, gda_applied = False, gda_prev = None\<rparr>"

definition gov_distr_accumulate_key :: "gov_distr_accumulate \<Rightarrow> ns_key" where
  "gov_distr_accumulate_key d = gov_singleton_key"

fun merge_weights :: "build \<Rightarrow> ('k::linorder, u64) table \<Rightarrow> ('k, u64) table \<Rightarrow> ('k, u64) table option" where
  "merge_weights b [] m = Some m"
| "merge_weights b ((k, weight) # kws) m = do {
     x \<leftarrow> raw_add b (case_option 0 id (tbl_get m k)) weight;
     merge_weights b kws (tbl_insert k x m)
   }"

text \<open>The guards of \<^verbatim>\<open>apply\<close>: whether the shard is the next one of its boundary.\<close>

definition accumulate_accepts :: "gov_distr option \<Rightarrow> gov_distr_accumulate \<Rightarrow> bool" where
  "accumulate_accepts stored d =
     (case stored of
        Some distr \<Rightarrow>
          if gd_closing_epoch distr = gda_closing_epoch d then
            (if gd_committed_shards distr > gda_shard d then False
             else if gd_committed_shards distr < gda_shard d then False
             else gd_total_shards distr = gda_total_shards d)
          else if gd_closing_epoch distr > gda_closing_epoch d then False
          else gda_shard d = 0
      | None \<Rightarrow> gda_shard d = 0)"

text \<open>The accumulator a shard goes on with: its own accumulator, or a new one that replaces an older one.\<close>

definition open_distr :: "gov_distr option \<Rightarrow> gov_distr_accumulate \<Rightarrow> gov_distr" where
  "open_distr stored d =
     (case stored of
        Some distr \<Rightarrow> if gd_closing_epoch distr = gda_closing_epoch d then distr
          else gov_distr_new (gda_closing_epoch d) (gda_total_shards d)
      | None \<Rightarrow> gov_distr_new (gda_closing_epoch d) (gda_total_shards d))"

definition gov_distr_accumulate_apply :: "build \<Rightarrow> (gov_distr_accumulate, gov_state) apply_fn" where
  "gov_distr_accumulate_apply b d entity = do {
     g \<leftarrow> entity;
     (if \<not> accumulate_accepts (gs_distr g) d then Some (d, Some g)
      else do {
        let d = d\<lparr>gda_prev := gs_distr g\<rparr>;
        let distr = open_distr (gs_distr g) d;
        dreps \<leftarrow> merge_weights b (gda_drep_distr d) (gd_drep_distr distr);
        pools \<leftarrow> merge_weights b (gda_pool_distr d) (gd_pool_distr distr);
        pool_total \<leftarrow> raw_add b (gd_pool_total distr) (gda_pool_total d);
        committed \<leftarrow> raw_add b (gda_shard d) 1;
        Some (d\<lparr>gda_applied := True\<rparr>,
          Some (g\<lparr>gs_distr := Some (distr\<lparr>gd_drep_distr := dreps, gd_pool_distr := pools,
            gd_pool_total := pool_total, gd_committed_shards := committed\<rparr>)\<rparr>))
      })
   }"

definition gov_distr_accumulate_undo :: "(gov_distr_accumulate, gov_state) undo_fn" where
  "gov_distr_accumulate_undo d entity =
     (if \<not> gda_applied d then Some entity
      else do {
        g \<leftarrow> entity;
        Some (Some (g\<lparr>gs_distr := gda_prev d\<rparr>))
      })"

record gov_dormancy_tick =
  gdt_prev :: u64

definition gov_dormancy_tick_new :: gov_dormancy_tick where
  "gov_dormancy_tick_new = \<lparr>gdt_prev = 0\<rparr>"

definition gov_dormancy_tick_key :: "gov_dormancy_tick \<Rightarrow> ns_key" where
  "gov_dormancy_tick_key d = gov_singleton_key"

definition gov_dormancy_tick_apply :: "build \<Rightarrow> (gov_dormancy_tick, gov_state) apply_fn" where
  "gov_dormancy_tick_apply b d entity = do {
     g \<leftarrow> entity;
     n \<leftarrow> raw_add b (gs_num_dormant_epochs g) 1;
     Some (d\<lparr>gdt_prev := gs_num_dormant_epochs g\<rparr>, Some (g\<lparr>gs_num_dormant_epochs := n\<rparr>))
   }"

definition gov_dormancy_tick_undo :: "(gov_dormancy_tick, gov_state) undo_fn" where
  "gov_dormancy_tick_undo d entity = do {
     g \<leftarrow> entity;
     Some (Some (g\<lparr>gs_num_dormant_epochs := gdt_prev d\<rparr>))
   }"

record committee_gc =
  cgc_removed :: "stake_credential \<rightharpoonup> auth_history"

definition committee_gc_new :: committee_gc where
  "committee_gc_new = \<lparr>cgc_removed = Map.empty\<rparr>"

definition committee_gc_key :: "committee_gc \<Rightarrow> ns_key" where
  "committee_gc_key d = gov_singleton_key"

definition committee_gc_apply :: "(committee_gc, gov_state) apply_fn" where
  "committee_gc_apply d entity = do {
     g \<leftarrow> entity;
     let auths = gs_committee_auths g;
     let (kept, removed) = (case gs_committee g of
           Some cm \<Rightarrow> (\<lambda>cold. if tbl_get (cm_members cm) cold \<noteq> None then auths cold else None,
                       \<lambda>cold. if tbl_get (cm_members cm) cold \<noteq> None then None else auths cold)
         | None \<Rightarrow> (Map.empty, auths));
     Some (d\<lparr>cgc_removed := removed\<rparr>, Some (g\<lparr>gs_committee_auths := kept\<rparr>))
   }"

definition committee_gc_undo :: "(committee_gc, gov_state) undo_fn" where
  "committee_gc_undo d entity = do {
     g \<leftarrow> entity;
     Some (Some (g\<lparr>gs_committee_auths := gs_committee_auths g ++ cgc_removed d\<rparr>))
   }"

record gov_distr_rotate =
  gdo_closing_epoch :: epoch
  gdo_prev :: "gov_distr option"

definition gov_distr_rotate_new :: "epoch \<Rightarrow> gov_distr_rotate" where
  "gov_distr_rotate_new e = \<lparr>gdo_closing_epoch = e, gdo_prev = None\<rparr>"

definition gov_distr_rotate_key :: "gov_distr_rotate \<Rightarrow> ns_key" where
  "gov_distr_rotate_key d = gov_singleton_key"

definition completed_distr :: "epoch \<Rightarrow> gov_distr option \<Rightarrow> gov_distr option" where
  "completed_distr e stored =
     (case stored of Some distr \<Rightarrow> if is_complete_for distr e then Some distr else None | None \<Rightarrow> None)"

definition gov_distr_rotate_apply :: "(gov_distr_rotate, gov_state) apply_fn" where
  "gov_distr_rotate_apply d entity = do {
     g \<leftarrow> entity;
     Some (d\<lparr>gdo_prev := gs_prev_distr g\<rparr>,
           Some (g\<lparr>gs_prev_distr := completed_distr (gdo_closing_epoch d) (gs_distr g)\<rparr>))
   }"

definition gov_distr_rotate_undo :: "(gov_distr_rotate, gov_state) undo_fn" where
  "gov_distr_rotate_undo d entity = do {
     g \<leftarrow> entity;
     Some (Some (g\<lparr>gs_prev_distr := gdo_prev d\<rparr>))
   }"

record gov_distr_boundary_credit =
  gbc_closing_epoch :: epoch
  gbc_credits :: "(drep, u64) table"
  gbc_applied :: bool
  gbc_prev :: "gov_distr option"

definition gov_distr_boundary_credit_new :: "epoch \<Rightarrow> (drep, u64) table \<Rightarrow> gov_distr_boundary_credit" where
  "gov_distr_boundary_credit_new e credits =
     \<lparr>gbc_closing_epoch = e, gbc_credits = credits, gbc_applied = False, gbc_prev = None\<rparr>"

definition gov_distr_boundary_credit_key :: "gov_distr_boundary_credit \<Rightarrow> ns_key" where
  "gov_distr_boundary_credit_key d = gov_singleton_key"

definition gov_distr_boundary_credit_apply :: "build \<Rightarrow> (gov_distr_boundary_credit, gov_state) apply_fn" where
  "gov_distr_boundary_credit_apply b d entity = do {
     g \<leftarrow> entity;
     (case completed_distr (gbc_closing_epoch d) (gs_distr g) of
        None \<Rightarrow> Some (d, Some g)
      | Some distr \<Rightarrow> do {
          dreps \<leftarrow> merge_weights b (gbc_credits d) (gd_drep_distr distr);
          Some (d\<lparr>gbc_prev := gs_distr g, gbc_applied := True\<rparr>,
                Some (g\<lparr>gs_distr := Some (distr\<lparr>gd_drep_distr := dreps\<rparr>)\<rparr>))
        })
   }"

definition gov_distr_boundary_credit_undo :: "(gov_distr_boundary_credit, gov_state) undo_fn" where
  "gov_distr_boundary_credit_undo d entity =
     (if \<not> gbc_applied d then Some entity
      else do {
        g \<leftarrow> entity;
        Some (Some (g\<lparr>gs_distr := gbc_prev d\<rparr>))
      })"

section \<open>Every delta can be undone\<close>

lemmas gov_key_defs =
  gov_genesis_init_key_def committee_auth_key_def committee_resign_key_def committee_update_key_def
  constitution_update_key_def gov_roots_update_key_def gov_dormancy_reset_key_def gov_distr_accumulate_key_def
  gov_dormancy_tick_key_def committee_gc_key_def gov_distr_rotate_key_def gov_distr_boundary_credit_key_def

lemma gov_state_upd_same [simp]:
  "g\<lparr>gs_constitution := gs_constitution g\<rparr> = g" "g\<lparr>gs_committee := gs_committee g\<rparr> = g"
  "g\<lparr>gs_committee_auths := gs_committee_auths g\<rparr> = g" "g\<lparr>gs_prev_gov_action_ids := gs_prev_gov_action_ids g\<rparr> = g"
  "g\<lparr>gs_num_dormant_epochs := gs_num_dormant_epochs g\<rparr> = g" "g\<lparr>gs_distr := gs_distr g\<rparr> = g"
  "g\<lparr>gs_prev_distr := gs_prev_distr g\<rparr> = g"
  by simp_all

lemma set_gov_root_same [simp]: "set_gov_root k (gov_root k r) (set_gov_root k x r) = r"
  by (cases k) simp_all

lemma pop_push_auth: "push_auth cold slot auth e = Some (created, e') \<Longrightarrow> pop_auth cold created e' = Some e"
  by (cases e; cases "history_push cold (slot, auth) (gs_committee_auths (the e))")
    (auto simp: push_auth_def pop_auth_def history_pop_push)

interpretation gov_genesis_init: reversible_delta gov_genesis_init_key
  gov_genesis_init_apply gov_genesis_init_undo "\<lambda>_. True" "\<lambda>_ _. True"
  by unfold_locales
    (auto simp: gov_genesis_init_key_def gov_genesis_init_apply_def gov_genesis_init_undo_def seed_genesis_def Let_def panic_simps)

interpretation committee_auth: reversible_delta committee_auth_key
  committee_auth_apply committee_auth_undo "\<lambda>_. True" "\<lambda>_ _. True"
  by unfold_locales
    (auto simp: committee_auth_key_def committee_auth_apply_def committee_auth_undo_def panic_simps pop_push_auth)

interpretation committee_resign: reversible_delta committee_resign_key
  committee_resign_apply committee_resign_undo "\<lambda>_. True" "\<lambda>_ _. True"
  by unfold_locales
    (auto simp: committee_resign_key_def committee_resign_apply_def committee_resign_undo_def panic_simps pop_push_auth)

interpretation committee_update: reversible_delta committee_update_key
  committee_update_apply committee_update_undo "\<lambda>_. True" "\<lambda>_ _. True"
  by unfold_locales (auto simp: committee_update_key_def committee_update_apply_def committee_update_undo_def panic_simps)

interpretation constitution_update: reversible_delta constitution_update_key
  constitution_update_apply constitution_update_undo "\<lambda>_. True" "\<lambda>_ _. True"
  by unfold_locales (auto simp: constitution_update_key_def constitution_update_apply_def constitution_update_undo_def panic_simps)

interpretation gov_roots_update: reversible_delta gov_roots_update_key
  gov_roots_update_apply gov_roots_update_undo "\<lambda>_. True" "\<lambda>_ _. True"
  by unfold_locales (auto simp: gov_roots_update_key_def gov_roots_update_apply_def gov_roots_update_undo_def panic_simps)

interpretation gov_dormancy_reset: reversible_delta gov_dormancy_reset_key
  gov_dormancy_reset_apply gov_dormancy_reset_undo "\<lambda>_. True" "\<lambda>_ _. True"
  by unfold_locales (auto simp: gov_dormancy_reset_key_def gov_dormancy_reset_apply_def gov_dormancy_reset_undo_def panic_simps)

interpretation gov_dormancy_tick: reversible_delta gov_dormancy_tick_key
  "gov_dormancy_tick_apply b" gov_dormancy_tick_undo "\<lambda>_. True" "\<lambda>_ _. True"
  by unfold_locales (auto simp: gov_dormancy_tick_key_def gov_dormancy_tick_apply_def gov_dormancy_tick_undo_def panic_simps)

lemma restrict_add_back:
  "(\<lambda>k. if p k then m k else None) ++ (\<lambda>k. if p k then None else m k) = m"
  by (auto simp: fun_eq_iff map_add_def split: option.splits)

interpretation committee_gc: reversible_delta committee_gc_key
  committee_gc_apply committee_gc_undo "\<lambda>_. True" "\<lambda>_ _. True"
  by unfold_locales
    (auto simp: committee_gc_key_def committee_gc_apply_def committee_gc_undo_def Let_def panic_simps restrict_add_back [simplified]
      split: option.splits)

interpretation gov_distr_rotate: reversible_delta gov_distr_rotate_key
  gov_distr_rotate_apply gov_distr_rotate_undo "\<lambda>_. True" "\<lambda>_ _. True"
  by unfold_locales (auto simp: gov_distr_rotate_key_def gov_distr_rotate_apply_def gov_distr_rotate_undo_def panic_simps)

lemma gov_distr_accumulate_cases:
  assumes "gov_distr_accumulate_apply b d e = Some (d', e')"
  obtains (skipped) g where "e = Some g" "\<not> accumulate_accepts (gs_distr g) d" "d' = d" "e' = Some g"
  | (merged) g distr dreps pools pool_total committed where "e = Some g" "accumulate_accepts (gs_distr g) d"
      "distr = open_distr (gs_distr g) d"
      "merge_weights b (gda_drep_distr d) (gd_drep_distr distr) = Some dreps"
      "merge_weights b (gda_pool_distr d) (gd_pool_distr distr) = Some pools"
      "raw_add b (gd_pool_total distr) (gda_pool_total d) = Some pool_total" "raw_add b (gda_shard d) 1 = Some committed"
      "d' = d\<lparr>gda_prev := gs_distr g, gda_applied := True\<rparr>"
      "e' = Some (g\<lparr>gs_distr := Some (distr\<lparr>gd_drep_distr := dreps, gd_pool_distr := pools,
         gd_pool_total := pool_total, gd_committed_shards := committed\<rparr>)\<rparr>)"
proof -
  obtain g where g: "e = Some g" using assms by (cases e) (simp_all add: gov_distr_accumulate_apply_def)
  note run = assms [unfolded gov_distr_accumulate_apply_def Let_def g bind.bind_lunit]
  show thesis
  proof (cases "accumulate_accepts (gs_distr g) d")
    case False
    with run g show thesis by (intro skipped) auto
  next
    case True
    have eq: "open_distr (gs_distr g) (d\<lparr>gda_prev := gs_distr g\<rparr>) = open_distr (gs_distr g) d"
      by (simp add: open_distr_def split: option.split)
    from run True obtain dreps pools pool_total committed where
        "merge_weights b (gda_drep_distr d) (gd_drep_distr (open_distr (gs_distr g) d)) = Some dreps"
        "merge_weights b (gda_pool_distr d) (gd_pool_distr (open_distr (gs_distr g) d)) = Some pools"
        "raw_add b (gd_pool_total (open_distr (gs_distr g) d)) (gda_pool_total d) = Some pool_total"
        "raw_add b (gda_shard d) 1 = Some committed" "d' = d\<lparr>gda_prev := gs_distr g, gda_applied := True\<rparr>"
        "e' = Some (g\<lparr>gs_distr := Some (open_distr (gs_distr g) d\<lparr>gd_drep_distr := dreps, gd_pool_distr := pools,
         gd_pool_total := pool_total, gd_committed_shards := committed\<rparr>)\<rparr>)"
      by (auto simp: panic_simps eq)
    with g True show thesis by (intro merged [OF g True refl])
  qed
qed

interpretation gov_distr_accumulate: reversible_delta gov_distr_accumulate_key
  "gov_distr_accumulate_apply b" gov_distr_accumulate_undo "\<lambda>d. \<not> gda_applied d" "\<lambda>_ _. True"
  by unfold_locales
    (erule gov_distr_accumulate_cases; simp add: gov_distr_accumulate_key_def gov_distr_accumulate_undo_def)+

interpretation gov_distr_boundary_credit: reversible_delta gov_distr_boundary_credit_key
  "gov_distr_boundary_credit_apply b" gov_distr_boundary_credit_undo "\<lambda>d. \<not> gbc_applied d" "\<lambda>_ _. True"
  by unfold_locales
    (auto simp: gov_distr_boundary_credit_key_def gov_distr_boundary_credit_apply_def gov_distr_boundary_credit_undo_def
      panic_simps split: option.splits)

section \<open>The distributions of a boundary\<close>

definition weight :: "('k, u64) table \<Rightarrow> 'k \<Rightarrow> nat" where
  "weight t k = (case tbl_get t k of Some w \<Rightarrow> unat w | None \<Rightarrow> 0)"

lemma weight_insert [simp]: "weight (tbl_insert k w t) k' = (if k' = k then unat w else weight t k')"
  by (simp add: weight_def tbl_get_insert)

lemma weight_Nil [simp]: "weight [] k = 0"
  by (simp add: weight_def tbl_get_def)

lemma weight_Cons: "weight ((k, w) # t) k' = (if k' = k then unat w else weight t k')"
  by (simp add: weight_def tbl_get_def)

lemma weight_absent: "k \<notin> fst ` set t \<Longrightarrow> weight t k = 0"
  by (auto simp: weight_def tbl_get_def map_of_eq_None_iff [symmetric] split: option.split)

lemma merge_weights_exact:
  assumes "distinct (map fst kws)" and "\<And>k. weight m k + weight kws k < 2 ^ 64"
  shows "\<exists>m'. merge_weights b kws m = Some m' \<and> (\<forall>k. weight m' k = weight m k + weight kws k)"
  using assms
proof (induction kws arbitrary: m)
  case (Cons kw kws)
  obtain k w where kw: "kw = (k, w)" by (cases kw)
  let ?old = "case_option 0 id (tbl_get m k)"
  have old: "unat ?old = weight m k" by (simp add: weight_def split: option.split)
  have fits: "unat ?old + unat w < 2 ^ 64" using Cons.prems(2) [of k] old by (simp add: kw weight_Cons)
  have absent: "weight kws k = 0" using Cons.prems(1) by (intro weight_absent) (auto simp: kw)
  have "raw_add b ?old w = Some (?old + w)" using fits by (simp add: raw_add_def checked_add_def)
  moreover have sum: "unat (?old + w) = weight m k + unat w" using fits old unat_add_no_overflow [of ?old w] by simp
  moreover have "\<exists>m'. merge_weights b kws (tbl_insert k (?old + w) m) = Some m' \<and>
      (\<forall>k'. weight m' k' = weight (tbl_insert k (?old + w) m) k' + weight kws k')"
  proof (rule Cons.IH)
    show "distinct (map fst kws)" using Cons.prems(1) by simp
    show "weight (tbl_insert k (?old + w) m) k' + weight kws k' < 2 ^ 64" for k'
      using Cons.prems(2) [of k'] fits sum absent old by (auto simp: kw weight_Cons)
  qed
  ultimately show ?case using absent by (auto simp: kw weight_Cons)
qed simp

text \<open>The shards in turn: of a run of contributions, those that come when their number is due.\<close>

fun in_turn :: "nat \<Rightarrow> gov_distr_accumulate list \<Rightarrow> gov_distr_accumulate list" where
  "in_turn n [] = []"
| "in_turn n (d # ds) = (if unat (gda_shard d) = n then d # in_turn (n + 1) ds else in_turn n ds)"

fun run_accumulate :: "build \<Rightarrow> gov_distr_accumulate list \<Rightarrow> gov_state \<Rightarrow> gov_state option" where
  "run_accumulate b [] g = Some g"
| "run_accumulate b (d # ds) g =
     (case gov_distr_accumulate_apply b d (Some g) of Some (_, Some g') \<Rightarrow> run_accumulate b ds g' | _ \<Rightarrow> None)"

text \<open>
  Where a boundary stands: not opened yet over nothing or an older epoch's accumulator, or with the first
  \<open>n\<close> of \<open>m\<close> shards merged; and what its accumulator holds.
\<close>

definition boundary_at :: "epoch \<Rightarrow> nat \<Rightarrow> u32 \<Rightarrow> gov_distr option \<Rightarrow> bool" where
  "boundary_at e n m stored =
     (case stored of
        None \<Rightarrow> n = 0
      | Some distr \<Rightarrow> n = 0 \<and> gd_closing_epoch distr < e \<or>
          0 < n \<and> gd_closing_epoch distr = e \<and> unat (gd_committed_shards distr) = n \<and> gd_total_shards distr = m)"

definition held :: "epoch \<Rightarrow> gov_distr option \<Rightarrow> (gov_distr \<Rightarrow> nat) \<Rightarrow> nat" where
  "held e stored f = (case stored of Some distr \<Rightarrow> if gd_closing_epoch distr = e then f distr else 0 | None \<Rightarrow> 0)"

lemma open_distr_held:
  assumes "boundary_at e n m stored" and "gda_closing_epoch d = e" and "gda_total_shards d = m"
  shows "gd_closing_epoch (open_distr stored d) = e" and "gd_total_shards (open_distr stored d) = m"
    and "weight (gd_drep_distr (open_distr stored d)) k = held e stored (\<lambda>x. weight (gd_drep_distr x) k)"
    and "weight (gd_pool_distr (open_distr stored d)) h = held e stored (\<lambda>x. weight (gd_pool_distr x) h)"
    and "unat (gd_pool_total (open_distr stored d)) = held e stored (\<lambda>x. unat (gd_pool_total x))"
  using assms by (auto simp: boundary_at_def open_distr_def held_def gov_distr_new_def split: option.splits)

lemma accumulate_accepts_iff:
  assumes "boundary_at e n m stored" and "gda_closing_epoch d = e" and "gda_total_shards d = m"
  shows "accumulate_accepts stored d \<longleftrightarrow> unat (gda_shard d) = n"
  using assms by (auto simp: boundary_at_def accumulate_accepts_def unat_eq_0 word_less_nat_alt split: option.splits)

text \<open>What is counted: the stake of a DRep, of a pool, and of all pools, in the accumulator and in a shard.\<close>

inductive gauge :: "(gov_distr \<Rightarrow> nat) \<Rightarrow> (gov_distr_accumulate \<Rightarrow> nat) \<Rightarrow> bool" where
  "gauge (\<lambda>x. weight (gd_drep_distr x) k) (\<lambda>d. weight (gda_drep_distr d) k)"
| "gauge (\<lambda>x. weight (gd_pool_distr x) h) (\<lambda>d. weight (gda_pool_distr d) h)"
| "gauge (\<lambda>x. unat (gd_pool_total x)) (\<lambda>d. unat (gda_pool_total d))"

definition shard_ok :: "epoch \<Rightarrow> u32 \<Rightarrow> gov_distr_accumulate \<Rightarrow> bool" where
  "shard_ok e m d \<longleftrightarrow> gda_closing_epoch d = e \<and> gda_total_shards d = m \<and> tbl_ok (gda_drep_distr d) \<and> tbl_ok (gda_pool_distr d)"

lemma accumulate_step:
  assumes at: "boundary_at e n m (gs_distr g)" and d: "shard_ok e m d" and due: "unat (gda_shard d) = n" "n + 1 < 2 ^ 32"
    and fits: "\<And>f c. gauge f c \<Longrightarrow> held e (gs_distr g) f + c d < 2 ^ 64"
  shows "\<exists>d' g'. gov_distr_accumulate_apply b d (Some g) = Some (d', Some g') \<and> boundary_at e (n + 1) m (gs_distr g') \<and>
    (\<forall>f c. gauge f c \<longrightarrow> held e (gs_distr g') f = held e (gs_distr g) f + c d)"
proof -
  let ?x = "open_distr (gs_distr g) d"
  have de: "gda_closing_epoch d = e" "gda_total_shards d = m" and ok: "tbl_ok (gda_drep_distr d)" "tbl_ok (gda_pool_distr d)"
    using d by (simp_all add: shard_ok_def)
  note open_x = open_distr_held [OF at de]
  have dreps: "\<exists>t. merge_weights b (gda_drep_distr d) (gd_drep_distr ?x) = Some t \<and>
      (\<forall>k. weight t k = weight (gd_drep_distr ?x) k + weight (gda_drep_distr d) k)"
    using fits [OF gauge.intros(1)] open_x(3) by (intro merge_weights_exact tbl_ok_distinct ok(1)) simp
  then obtain t where t: "merge_weights b (gda_drep_distr d) (gd_drep_distr ?x) = Some t"
      "\<And>k. weight t k = weight (gd_drep_distr ?x) k + weight (gda_drep_distr d) k" by blast
  have pools: "\<exists>u. merge_weights b (gda_pool_distr d) (gd_pool_distr ?x) = Some u \<and>
      (\<forall>h. weight u h = weight (gd_pool_distr ?x) h + weight (gda_pool_distr d) h)"
    using fits [OF gauge.intros(2)] open_x(4) by (intro merge_weights_exact tbl_ok_distinct ok(2)) simp
  then obtain u where u: "merge_weights b (gda_pool_distr d) (gd_pool_distr ?x) = Some u"
      "\<And>h. weight u h = weight (gd_pool_distr ?x) h + weight (gda_pool_distr d) h" by blast
  have sum: "unat (gd_pool_total ?x) + unat (gda_pool_total d) < 2 ^ 64" using fits [OF gauge.intros(3)] open_x(5) by simp
  let ?g = "g\<lparr>gs_distr := Some (?x\<lparr>gd_drep_distr := t, gd_pool_distr := u, gd_pool_total := gd_pool_total ?x + gda_pool_total d,
     gd_committed_shards := gda_shard d + 1\<rparr>)\<rparr>"
  have adds: "raw_add b (gd_pool_total ?x) (gda_pool_total d) = Some (gd_pool_total ?x + gda_pool_total d)"
      "raw_add b (gda_shard d) 1 = Some (gda_shard d + 1)"
      "unat (gd_pool_total ?x + gda_pool_total d) = unat (gd_pool_total ?x) + unat (gda_pool_total d)"
      "unat (gda_shard d + 1) = n + 1"
    using sum due unat_add_no_overflow [of "gd_pool_total ?x" "gda_pool_total d"] unat_add_no_overflow [of "gda_shard d" 1]
    by (simp_all add: raw_add_def checked_add_def)
  have prev: "open_distr (gs_distr g) (d\<lparr>gda_prev := gs_distr g\<rparr>) = ?x" by (simp add: open_distr_def split: option.split)
  have "accumulate_accepts (gs_distr g) d" using accumulate_accepts_iff [OF at de] due by simp
  then have "gov_distr_accumulate_apply b d (Some g) = Some (d\<lparr>gda_prev := gs_distr g, gda_applied := True\<rparr>, Some ?g)"
    by (simp add: gov_distr_accumulate_apply_def Let_def prev t(1) u(1) adds(1,2))
  moreover have "boundary_at e (n + 1) m (gs_distr ?g)" by (simp add: boundary_at_def open_x(1,2) adds(4))
  moreover have "held e (gs_distr ?g) f = held e (gs_distr g) f + c d" if "gauge f c" for f c
    using that open_x t(2) u(2) adds(3) by cases (simp_all add: held_def)
  ultimately show ?thesis by blast
qed

lemma accumulate_skip:
  assumes "boundary_at e n m (gs_distr g)" and "shard_ok e m d" and "unat (gda_shard d) \<noteq> n"
  shows "gov_distr_accumulate_apply b d (Some g) = Some (d, Some g)"
  using assms accumulate_accepts_iff [of e n m "gs_distr g" d] by (simp add: shard_ok_def gov_distr_accumulate_apply_def)

lemma run_accumulate_exact:
  assumes "boundary_at e n m (gs_distr g)" and "\<forall>d \<in> set ds. shard_ok e m d" and "n + length ds < 2 ^ 32"
    and "\<And>f c. gauge f c \<Longrightarrow> held e (gs_distr g) f + (\<Sum>d \<leftarrow> in_turn n ds. c d) < 2 ^ 64"
  shows "\<exists>g'. run_accumulate b ds g = Some g' \<and> boundary_at e (n + length (in_turn n ds)) m (gs_distr g') \<and>
    (\<forall>f c. gauge f c \<longrightarrow> held e (gs_distr g') f = held e (gs_distr g) f + (\<Sum>d \<leftarrow> in_turn n ds. c d))"
  using assms
proof (induction ds arbitrary: n g)
  case (Cons d ds)
  show ?case
  proof (cases "unat (gda_shard d) = n")
    case False
    with Cons.prems have "gov_distr_accumulate_apply b d (Some g) = Some (d, Some g)" by (intro accumulate_skip) auto
    then have "run_accumulate b (d # ds) g = run_accumulate b ds g" by simp
    with Cons.IH [of n g] Cons.prems False show ?thesis by auto
  next
    case True
    have one: "held e (gs_distr g) f + c d < 2 ^ 64" if "gauge f c" for f c
      using Cons.prems(4) [OF that] True by simp
    have len: "n + 1 < 2 ^ 32" and d: "shard_ok e m d" and ds: "\<forall>d \<in> set ds. shard_ok e m d" using Cons.prems(2,3) by simp_all
    have "\<exists>d' g1. gov_distr_accumulate_apply b d (Some g) = Some (d', Some g1) \<and> boundary_at e (n + 1) m (gs_distr g1) \<and>
        (\<forall>f c. gauge f c \<longrightarrow> held e (gs_distr g1) f = held e (gs_distr g) f + c d)"
      by (rule accumulate_step [OF Cons.prems(1) d True len]) (rule one)
    then obtain d' g1 where
        step: "gov_distr_accumulate_apply b d (Some g) = Some (d', Some g1)" and at: "boundary_at e (n + 1) m (gs_distr g1)"
        and sums: "\<forall>f c. gauge f c \<longrightarrow> held e (gs_distr g1) f = held e (gs_distr g) f + c d" by blast
    have "\<exists>g'. run_accumulate b ds g1 = Some g' \<and> boundary_at e (n + 1 + length (in_turn (n + 1) ds)) m (gs_distr g') \<and>
      (\<forall>f c. gauge f c \<longrightarrow> held e (gs_distr g') f = held e (gs_distr g1) f + (\<Sum>d \<leftarrow> in_turn (n + 1) ds. c d))"
    proof (rule Cons.IH [OF at ds])
      show "n + 1 + length ds < 2 ^ 32" using Cons.prems(3) by simp
      show "held e (gs_distr g1) f + (\<Sum>d \<leftarrow> in_turn (n + 1) ds. c d) < 2 ^ 64" if "gauge f c" for f c
        using Cons.prems(4) [OF that] sums that True by (simp add: add.assoc)
    qed
    with sums step True show ?thesis by (auto simp: add.assoc)
  qed
qed simp

text \<open>A committee after an update: the added members override, the removed ones are gone.\<close>

lemma tbl_get_fold_remove:
  fixes t :: "('k::linorder, 'v) table"
  shows "tbl_get (fold tbl_remove ks t) k = (if k \<in> set ks then None else tbl_get t k)"
  by (induction ks arbitrary: t) (auto simp: tbl_remove_def tbl.get_retain)

lemma tbl_ok_fold_remove: "tbl_ok t \<Longrightarrow> tbl_ok (fold tbl_remove ks t)"
  by (induction ks arbitrary: t) (auto simp: tbl_remove_def tbl_ok_retain)

lemma committee_after_members:
  assumes "committee_after (ChangeUpdate to_remove to_add threshold) cm = Some cm'"
  shows "tbl_get (cm_members cm') cold =
    (case map_of (rev to_add) cold of
       Some term \<Rightarrow> Some term
     | None \<Rightarrow> if cold \<in> set to_remove then None else Option.bind cm (\<lambda>c. tbl_get (cm_members c) cold))"
  using assms by (auto simp: Let_def tbl.get_fold_ins tbl_get_fold_remove split: option.splits) (simp add: tbl_get_def)

section \<open>Properties\<close>

text \<open>
  C12. The distribution a boundary publishes is exact. However the contributions of the shards are repeated or
  come out of turn, once every shard was merged in its turn, folding in the boundary's credits and rotating gives
  the next boundary a completed distribution of the closed epoch in which every DRep has the sum of what the
  shards counted for it, each shard once, plus its credits, every pool the sum for it, and the pools their
  total; whatever an older epoch left behind is gone. No step panics as long as the sums fit.
\<close>

theorem boundary_distribution_exact:
  assumes "boundary_at e 0 m (gs_distr g)" and "\<forall>d \<in> set ds. shard_ok e m d" and "length ds < 2 ^ 32"
    and "length (in_turn 0 ds) = unat m" and "0 < m" and "tbl_ok credits"
    and "\<forall>k. (\<Sum>d \<leftarrow> in_turn 0 ds. weight (gda_drep_distr d) k) + weight credits k < 2 ^ 64"
    and "\<forall>h. (\<Sum>d \<leftarrow> in_turn 0 ds. weight (gda_pool_distr d) h) < 2 ^ 64"
    and "(\<Sum>d \<leftarrow> in_turn 0 ds. unat (gda_pool_total d)) < 2 ^ 64"
  shows "\<exists>g1 d2 g2 d3 g3 distr. run_accumulate b ds g = Some g1 \<and>
    gov_distr_boundary_credit_apply b (gov_distr_boundary_credit_new e credits) (Some g1) = Some (d2, Some g2) \<and>
    gov_distr_rotate_apply (gov_distr_rotate_new e) (Some g2) = Some (d3, Some g3) \<and>
    gs_prev_distr g3 = Some distr \<and> is_complete_for distr e \<and>
    (\<forall>k. weight (gd_drep_distr distr) k = (\<Sum>d \<leftarrow> in_turn 0 ds. weight (gda_drep_distr d) k) + weight credits k) \<and>
    (\<forall>h. weight (gd_pool_distr distr) h = (\<Sum>d \<leftarrow> in_turn 0 ds. weight (gda_pool_distr d) h)) \<and>
    unat (gd_pool_total distr) = (\<Sum>d \<leftarrow> in_turn 0 ds. unat (gda_pool_total d))"
proof -
  have start: "held e (gs_distr g) f = 0" for f
    using assms(1) by (auto simp: boundary_at_def held_def split: option.splits)
  have fits: "held e (gs_distr g) f + (\<Sum>d \<leftarrow> in_turn 0 ds. c d) < 2 ^ 64" if "gauge f c" for f c
    using that by cases (use assms(7-9) in \<open>auto simp: start intro: add_lessD1\<close>)
  have "\<exists>g1. run_accumulate b ds g = Some g1 \<and> boundary_at e (0 + length (in_turn 0 ds)) m (gs_distr g1) \<and>
    (\<forall>f c. gauge f c \<longrightarrow> held e (gs_distr g1) f = held e (gs_distr g) f + (\<Sum>d \<leftarrow> in_turn 0 ds. c d))"
    using assms(3) by (intro run_accumulate_exact assms(1,2) fits) simp_all
  then obtain g1 where run: "run_accumulate b ds g = Some g1" and at: "boundary_at e (unat m) m (gs_distr g1)"
      and sums: "\<And>f c. gauge f c \<Longrightarrow> held e (gs_distr g1) f = (\<Sum>d \<leftarrow> in_turn 0 ds. c d)" using assms(4) start by auto
  have m: "0 < unat m" using assms(5) by (simp add: word_less_nat_alt)
  from at m obtain x where x: "gs_distr g1 = Some x" and complete: "is_complete_for x e"
    by (auto simp: boundary_at_def is_complete_for_def word_unat_eq_iff split: option.splits)
  have held: "held e (gs_distr g1) f = f x" for f using x complete by (simp add: held_def is_complete_for_def)
  have "\<exists>t. merge_weights b credits (gd_drep_distr x) = Some t \<and> (\<forall>k. weight t k = weight (gd_drep_distr x) k + weight credits k)"
    using assms(6,7) sums [OF gauge.intros(1)] held by (intro merge_weights_exact tbl_ok_distinct) simp_all
  then obtain t where t: "merge_weights b credits (gd_drep_distr x) = Some t"
      "\<And>k. weight t k = weight (gd_drep_distr x) k + weight credits k" by blast
  let ?x = "x\<lparr>gd_drep_distr := t\<rparr>"
  have "is_complete_for ?x e" using complete by (simp add: is_complete_for_def)
  then show ?thesis
    using run x complete t sums [OF gauge.intros(1), unfolded held] sums [OF gauge.intros(2), unfolded held]
      sums [OF gauge.intros(3), unfolded held]
    by (simp add: gov_distr_boundary_credit_apply_def gov_distr_boundary_credit_new_def gov_distr_rotate_apply_def
        gov_distr_rotate_new_def completed_distr_def)
qed

definition sample_distr :: "gov_distr_accumulate list" where
  "sample_distr = [gov_distr_accumulate_new 7 0 2 [(DRepKey 1, 5)] [(9, 4)] 4,
     gov_distr_accumulate_new 7 0 2 [(DRepKey 1, 5)] [(9, 4)] 4,
     gov_distr_accumulate_new 7 1 2 [(DRepKey 1, 10), (DRepAbstain, 3)] [] 0]"

theorem boundary_distribution_exact_witness:
  "\<exists>g1 d2 g2 d3 g3 distr. run_accumulate \<lparr>strict = True, overflow_checks = True\<rparr> sample_distr gov_state_default = Some g1 \<and>
    gov_distr_boundary_credit_apply \<lparr>strict = True, overflow_checks = True\<rparr>
      (gov_distr_boundary_credit_new 7 [(DRepKey 1, 100)]) (Some g1) = Some (d2, Some g2) \<and>
    gov_distr_rotate_apply (gov_distr_rotate_new 7) (Some g2) = Some (d3, Some g3) \<and>
    gs_prev_distr g3 = Some distr \<and> weight (gd_drep_distr distr) (DRepKey 1) = 115 \<and> weight (gd_drep_distr distr) DRepAbstain = 3 \<and>
    weight (gd_pool_distr distr) 9 = 4 \<and> unat (gd_pool_total distr) = 4"
proof -
  have turn: "in_turn 0 sample_distr = [gov_distr_accumulate_new 7 0 2 [(DRepKey 1, 5)] [(9, 4)] 4,
      gov_distr_accumulate_new 7 1 2 [(DRepKey 1, 10), (DRepAbstain, 3)] [] 0]"
    by (simp add: sample_distr_def gov_distr_accumulate_new_def)
  have ok: "\<forall>d \<in> set sample_distr. shard_ok 7 2 d" "boundary_at 7 0 2 (gs_distr gov_state_default)" "length sample_distr < 2 ^ 32"
      "tbl_ok [(DRepKey 1, 100 :: u64)]"
    by (simp_all add: sample_distr_def gov_distr_accumulate_new_def shard_ok_def tbl_ok_def less_drep_def boundary_at_def gov_state_default_def)
  have sums: "\<forall>k. (\<Sum>d \<leftarrow> in_turn 0 sample_distr. weight (gda_drep_distr d) k) + weight [(DRepKey 1, 100)] k < 2 ^ 64"
      "\<forall>h. (\<Sum>d \<leftarrow> in_turn 0 sample_distr. weight (gda_pool_distr d) h) < 2 ^ 64"
      "(\<Sum>d \<leftarrow> in_turn 0 sample_distr. unat (gda_pool_total d)) < 2 ^ 64"
    by (simp_all add: turn gov_distr_accumulate_new_def weight_Cons)
  have len: "length (in_turn 0 sample_distr) = unat (2 :: u32)" "(0 :: u32) < 2" by (simp_all add: turn)
  from boundary_distribution_exact [OF ok(2,1,3) len ok(4) sums, of "\<lparr>strict = True, overflow_checks = True\<rparr>"] show ?thesis
    by (fastforce simp: turn gov_distr_accumulate_new_def weight_Cons)
qed

text \<open>
  An enacted change of the committee and the collection after it. The members are those of the change over
  what the committee was (an empty one out of the no-confidence state), the authorisations of everybody else are
  dropped while those of the members are untouched, as of every slot, and undoing the collection gives all of
  them back.
\<close>

theorem committee_change_collected:
  assumes "committee_update_apply (committee_update_update to_remove to_add threshold) (Some g) = Some (d1, Some g1)"
    and "committee_gc_apply committee_gc_new (Some g1) = Some (d2, Some g2)"
  shows "\<exists>cm. gs_committee g2 = Some cm \<and> cm_threshold cm = threshold \<and>
    (\<forall>cold. tbl_get (cm_members cm) cold =
      (case map_of (rev to_add) cold of
         Some term \<Rightarrow> Some term
       | None \<Rightarrow> if cold \<in> set to_remove then None else Option.bind (gs_committee g) (\<lambda>c. tbl_get (cm_members c) cold))) \<and>
    (\<forall>cold slot. committee_auth_as_of g2 cold slot =
      (if tbl_get (cm_members cm) cold = None then None else committee_auth_as_of g cold slot)) \<and>
    committee_gc_undo d2 (Some g2) = Some (Some g1)"
proof -
  let ?change = "ChangeUpdate to_remove to_add threshold"
  from assms(1) have g1: "g1 = g\<lparr>gs_committee := committee_after ?change (gs_committee g)\<rparr>"
    by (auto simp: committee_update_apply_def committee_update_update_def simp del: committee_after.simps)
  obtain cm where cm: "committee_after ?change (gs_committee g) = Some cm" "cm_threshold cm = threshold"
    by (auto simp: Let_def)
  from assms(2) have "gs_committee g2 = Some cm"
      "gs_committee_auths g2 = (\<lambda>cold. if tbl_get (cm_members cm) cold \<noteq> None then gs_committee_auths g cold else None)"
    using g1 cm(1) by (auto simp: committee_gc_apply_def Let_def simp del: committee_after.simps)
  moreover have "committee_gc_undo d2 (Some g2) = Some (Some g1)" by (rule committee_gc.undo_apply [OF _ _ assms(2)]) simp_all
  moreover from calculation(2) have "committee_auth_as_of g2 cold slot =
      (if tbl_get (cm_members cm) cold = None then None else committee_auth_as_of g cold slot)" for cold slot
    by (simp add: committee_auth_as_of_def)
  moreover note committee_after_members [OF cm(1)]
  ultimately show ?thesis using cm(2) by blast
qed

definition sample_committee :: gov_state where
  "sample_committee = gov_state_default\<lparr>gs_committee := Some \<lparr>cm_members = [(AddrKeyhash 1, 50), (AddrKeyhash 2, 60)],
     cm_threshold = \<lparr>numerator = 2, denominator = 3\<rparr>\<rparr>,
     gs_committee_auths := [AddrKeyhash 1 \<mapsto> [(10, HotCredential (AddrKeyhash 11))], AddrKeyhash 2 \<mapsto> [(20, HotCredential (AddrKeyhash 12))]]\<rparr>"

theorem committee_change_collected_witness:
  "\<exists>d1 g1 d2 g2. committee_update_apply
      (committee_update_update [AddrKeyhash 1] [(AddrKeyhash 3, 70)] \<lparr>numerator = 1, denominator = 2\<rparr>) (Some sample_committee) = Some (d1, Some g1) \<and>
    committee_gc_apply committee_gc_new (Some g1) = Some (d2, Some g2) \<and>
    committee_auth_as_of g2 (AddrKeyhash 1) 30 = None \<and> committee_auth_as_of g2 (AddrKeyhash 2) 30 = Some (HotCredential (AddrKeyhash 12)) \<and>
    committee_gc_undo d2 (Some g2) = Some (Some g1)"
proof -
  let ?u = "committee_update_update [AddrKeyhash 1] [(AddrKeyhash 3, 70)] \<lparr>numerator = 1, denominator = 2\<rparr>"
  obtain d1 g1 where u: "committee_update_apply ?u (Some sample_committee) = Some (d1, Some g1)"
    by (simp add: committee_update_apply_def)
  obtain d2 g2 where gc: "committee_gc_apply committee_gc_new (Some g1) = Some (d2, Some g2)"
    by (cases "gs_committee g1") (simp_all add: committee_gc_apply_def Let_def)
  have before: "committee_auth_as_of sample_committee (AddrKeyhash 2) 30 = Some (HotCredential (AddrKeyhash 12))"
      "Option.bind (gs_committee sample_committee) (\<lambda>c. tbl_get (cm_members c) (AddrKeyhash 2)) = Some 60"
    by (simp_all add: sample_committee_def committee_auth_as_of_def event_as_of_def tbl_get_def)
  from committee_change_collected [OF u gc] show ?thesis
    by (elim exE conjE) (intro exI conjI, rule u, rule gc, simp_all add: before)
qed

end
