(* ===== verification/Eras.thy ===== *)
theory Eras
  imports PParams Entity_Delta Ordered_Table Errors
begin

text \<open>
  Slots, epochs and eras (\<^verbatim>\<open>crates/cardano/src/eras.rs\<close>,
  \<^verbatim>\<open>crates/cardano/src/model/eras.rs\<close> and the boundaries of
  \<^verbatim>\<open>crates/cardano/src/pallas_extras.rs\<close>). An era fixes the length of its epochs and
  slots from its first slot on; the summary of the chain lists the past eras, each with its end, and
  the edge era that is still open. The lemmas show that the summary is a partition: every slot from
  the first era on is in exactly one epoch of one era, and closing an era and opening the next one
  never moves a slot that was already in the past.
\<close>

section \<open>Eras\<close>

definition is_shelley_or_later :: "era_protocol \<Rightarrow> bool" where
  "is_shelley_or_later v \<longleftrightarrow> 2 \<le> v"

definition era_ns :: namespace where
  "era_ns = ''eras''"

definition protocol_key :: "era_protocol \<Rightarrow> entity_key" where
  "protocol_key v = entity_key_from (word_bytes v)"

definition protocol_from_key :: "entity_key \<Rightarrow> era_protocol" where
  "protocol_from_key k = bytes_word (take 2 k)"

record era_boundary =
  eb_epoch :: u64
  eb_slot :: u64
  eb_timestamp :: u64

record era_summary =
  er_start :: era_boundary
  er_end :: "era_boundary option"
  er_epoch_length :: u64
  er_slot_length :: u64
  er_protocol :: u16

text \<open>The slot inside the epoch is cast to 32 bits.\<close>

definition era_slot_epoch :: "build \<Rightarrow> era_summary \<Rightarrow> u64 \<Rightarrow> (epoch \<times> u32) option" where
  "era_slot_epoch b era slot = do {
     _ \<leftarrow> assert_that (\<not> slot < eb_slot (er_start era));
     era_slot \<leftarrow> raw_sub b slot (eb_slot (er_start era));
     era_epoch \<leftarrow> checked_div era_slot (er_epoch_length era);
     epoch \<leftarrow> raw_add b (eb_epoch (er_start era)) era_epoch;
     m \<leftarrow> raw_mul b era_epoch (er_epoch_length era);
     epoch_slot \<leftarrow> raw_sub b era_slot m;
     Some (epoch, ucast epoch_slot)
   }"

definition era_slot_time :: "build \<Rightarrow> era_summary \<Rightarrow> u64 \<Rightarrow> u64 option" where
  "era_slot_time b era slot = do {
     d \<leftarrow> raw_sub b slot (eb_slot (er_start era));
     m \<leftarrow> raw_mul b d (er_slot_length era);
     raw_add b (eb_timestamp (er_start era)) m
   }"

definition era_epoch_start :: "build \<Rightarrow> era_summary \<Rightarrow> u64 \<Rightarrow> block_slot option" where
  "era_epoch_start b era epoch = do {
     d \<leftarrow> raw_sub b epoch (eb_epoch (er_start era));
     m \<leftarrow> raw_mul b d (er_epoch_length era);
     raw_add b (eb_slot (er_start era)) m
   }"

definition define_end :: "build \<Rightarrow> u64 \<Rightarrow> era_summary \<Rightarrow> era_summary option" where
  "define_end b at_epoch era = do {
     epoch_delta \<leftarrow> raw_sub b at_epoch (eb_epoch (er_start era));
     slot_delta \<leftarrow> raw_mul b epoch_delta (er_epoch_length era);
     end_slot \<leftarrow> raw_add b (eb_slot (er_start era)) slot_delta;
     second_delta \<leftarrow> raw_mul b slot_delta (er_slot_length era);
     end_timestamp \<leftarrow> raw_add b (eb_timestamp (er_start era)) second_delta;
     Some (era\<lparr>er_end := Some \<lparr>eb_epoch = at_epoch, eb_slot = end_slot, eb_timestamp = end_timestamp\<rparr>\<rparr>)
   }"

section \<open>The summary of the chain\<close>

record chain_summary =
  cs_past :: "era_summary list"
  cs_protocols :: "u16 list"
  cs_edge :: "era_summary option"

definition chain_summary_default :: chain_summary where
  "chain_summary_default = \<lparr>cs_past = [], cs_protocols = [], cs_edge = None\<rparr>"

definition append_era :: "u16 \<Rightarrow> era_summary \<Rightarrow> chain_summary \<Rightarrow> chain_summary" where
  "append_era protocol era cs =
     cs\<lparr>cs_past := (case cs_edge cs of None \<Rightarrow> cs_past cs | Some edge \<Rightarrow> cs_past cs @ [edge]),
        cs_protocols := cs_protocols cs @ [protocol], cs_edge := Some era\<rparr>"

text \<open>\<^verbatim>\<open>edge()\<close> unwraps: a summary without eras panics.\<close>

definition first_era :: "chain_summary \<Rightarrow> era_summary option" where
  "first_era cs = (case cs_past cs of era # _ \<Rightarrow> Some era | [] \<Rightarrow> cs_edge cs)"

text \<open>
  \<^verbatim>\<open>iter().find\<close> with a condition that unwraps the end of an era: scanning past an
  era without an end panics, and so does an unsuccessful search.
\<close>

fun find_past :: "(era_boundary \<Rightarrow> u64) \<Rightarrow> u64 \<Rightarrow> ('a \<times> era_summary) list \<Rightarrow> ('a \<times> era_summary) option" where
  "find_past coord x [] = None"
| "find_past coord x ((v, era) # eras) =
     (if coord (er_start era) \<le> x
      then case er_end era of
             None \<Rightarrow> None
           | Some e \<Rightarrow> if x < coord e then Some (v, era) else find_past coord x eras
      else find_past coord x eras)"

definition protocol_and_era_for_epoch :: "chain_summary \<Rightarrow> u64 \<Rightarrow> (u16 \<times> era_summary) option" where
  "protocol_and_era_for_epoch cs epoch = do {
     edge \<leftarrow> cs_edge cs;
     (if eb_epoch (er_start edge) \<le> epoch
      then if cs_protocols cs = [] then None else Some (last (cs_protocols cs), edge)
      else find_past eb_epoch epoch (zip (cs_protocols cs) (cs_past cs)))
   }"

definition era_for_epoch :: "chain_summary \<Rightarrow> u64 \<Rightarrow> era_summary option" where
  "era_for_epoch cs epoch = map_option snd (protocol_and_era_for_epoch cs epoch)"

definition era_for_slot :: "chain_summary \<Rightarrow> u64 \<Rightarrow> era_summary option" where
  "era_for_slot cs slot = do {
     edge \<leftarrow> cs_edge cs;
     (if eb_slot (er_start edge) \<le> slot then Some edge
      else map_option snd (find_past eb_slot slot (map (Pair ()) (cs_past cs))))
   }"

definition chain_slot_epoch :: "build \<Rightarrow> chain_summary \<Rightarrow> u64 \<Rightarrow> (epoch \<times> u32) option" where
  "chain_slot_epoch b cs slot = do { era \<leftarrow> era_for_slot cs slot; era_slot_epoch b era slot }"

definition chain_epoch_start :: "build \<Rightarrow> chain_summary \<Rightarrow> u64 \<Rightarrow> block_slot option" where
  "chain_epoch_start b cs epoch = do { era \<leftarrow> era_for_epoch cs epoch; era_epoch_start b era epoch }"

definition chain_slot_time :: "build \<Rightarrow> chain_summary \<Rightarrow> u64 \<Rightarrow> u64 option" where
  "chain_slot_time b cs slot = do { era \<leftarrow> era_for_slot cs slot; era_slot_time b era slot }"

text \<open>The slot configuration scripts see, in milliseconds: length, first slot and its time.\<close>

definition ms_per_second :: u64 where
  "ms_per_second = 1000"

definition to_pallas_slot_config :: "build \<Rightarrow> chain_summary \<Rightarrow> (u64 \<times> u64 \<times> u64) option" where
  "to_pallas_slot_config b cs = do {
     edge \<leftarrow> cs_edge cs;
     slot_length \<leftarrow> raw_mul b (er_slot_length edge) ms_per_second;
     zero_time \<leftarrow> raw_mul b (eb_timestamp (er_start edge)) ms_per_second;
     Some (slot_length, eb_slot (er_start edge), zero_time)
   }"

fun first_of :: "(u16 \<Rightarrow> bool) \<Rightarrow> (u16 \<times> era_summary) list \<Rightarrow> era_summary option" where
  "first_of p [] = None"
| "first_of p ((v, era) # eras) = (if p v then Some era else first_of p eras)"

definition first_shelley_epoch :: "chain_summary \<Rightarrow> u64 option" where
  "first_shelley_epoch cs =
     (case first_of (\<lambda>v. v = 2) (zip (cs_protocols cs) (cs_past cs)) of
        Some era \<Rightarrow> Some (eb_epoch (er_start era))
      | None \<Rightarrow>
          if cs_protocols cs \<noteq> [] \<and> last (cs_protocols cs) = 2
          then map_option (\<lambda>era. eb_epoch (er_start era)) (cs_edge cs) else Some 0)"

definition first_epoch_with_protocol :: "u16 \<Rightarrow> chain_summary \<Rightarrow> u64 option option" where
  "first_epoch_with_protocol protocol cs =
     (case first_of (\<lambda>v. protocol \<le> v) (zip (cs_protocols cs) (cs_past cs)) of
        Some era \<Rightarrow> Some (Some (eb_epoch (er_start era)))
      | None \<Rightarrow>
          if cs_protocols cs \<noteq> [] \<and> protocol \<le> last (cs_protocols cs)
          then map_option (\<lambda>era. Some (eb_epoch (er_start era))) (cs_edge cs) else Some None)"

definition first_conway_epoch :: "chain_summary \<Rightarrow> u64 option option" where
  "first_conway_epoch cs = first_epoch_with_protocol 9 cs"

definition first_mary_epoch :: "chain_summary \<Rightarrow> u64 option option" where
  "first_mary_epoch cs = first_epoch_with_protocol 4 cs"

text \<open>
  \<^verbatim>\<open>load_era_summary\<close>, on the rows of the namespace in the order of their keys; a row
  that does not decode is an error of the store.
\<close>

fun load_eras :: "(entity_key \<times> era_summary option) list \<Rightarrow> chain_summary \<Rightarrow> chain_summary option" where
  "load_eras [] cs = Some cs"
| "load_eras ((key, row) # rows) cs =
     (case row of
        None \<Rightarrow> None
      | Some era \<Rightarrow> load_eras rows (append_era (protocol_from_key key) era cs))"

definition load_era_summary :: "(entity_key \<times> era_summary option) list \<Rightarrow> chain_summary option" where
  "load_era_summary rows = load_eras rows chain_summary_default"

section \<open>Opening an era\<close>

record protocol_consts =
  pc_epoch_length :: u64
  pc_slot_length :: u64

definition protocol_constants :: "u16 \<Rightarrow> genesis \<Rightarrow> protocol_consts option" where
  "protocol_constants version g =
     (if version < 2 then
        (let slot_length_in_secs = bg_slot_duration (gen_byron g) div 1000 in do {
           epoch_length \<leftarrow> checked_div five_days_in_seconds slot_length_in_secs;
           Some \<lparr>pc_epoch_length = epoch_length, pc_slot_length = slot_length_in_secs\<rparr>
         })
      else Some \<lparr>pc_epoch_length = ucast (case_option 0 id (sg_epoch_length (gen_shelley g))),
             pc_slot_length = ucast (case_option 0 id (sg_slot_length (gen_shelley g)))\<rparr>)"

record era_transition_data =
  etd_prev_key :: entity_key
  etd_prev_summary :: era_summary
  etd_new_key :: entity_key
  etd_new_summary :: era_summary

text \<open>
  \<^verbatim>\<open>collect_era_transition\<close> reads the row of the ending era, closes it at the starting epoch
  and opens the next one where it ends; the rows are the namespace of eras in the order of the keys.
\<close>

definition collect_era_transition ::
  "build \<Rightarrow> genesis \<Rightarrow> epoch \<Rightarrow> era_transition option \<Rightarrow> (entity_key, era_summary) table
    \<Rightarrow> (chain_error + era_transition_data option) option" where
  "collect_era_transition b g starting_epoch_no transition rows =
     (case transition of
        None \<Rightarrow> Some (Inr None)
      | Some tr \<Rightarrow>
          (case tbl_get rows (protocol_key (et_prev_version tr)) of
             None \<Rightarrow> Some (Inl (ChainBrokenInvariant BadBootstrap))
           | Some previous \<Rightarrow> do {
               previous \<leftarrow> define_end b starting_epoch_no previous;
               consts \<leftarrow> protocol_constants (et_new_version tr) g;
               start \<leftarrow> er_end previous;
               Some (Inr (Some \<lparr>etd_prev_key = protocol_key (et_prev_version tr), etd_prev_summary = previous,
                 etd_new_key = protocol_key (et_new_version tr),
                 etd_new_summary = \<lparr>er_start = start, er_end = None, er_epoch_length = pc_epoch_length consts,
                   er_slot_length = pc_slot_length consts, er_protocol = et_new_version tr\<rparr>\<rparr>))
             }))"

text \<open>The two writes of the commit.\<close>

definition write_era_transition :: "era_transition_data \<Rightarrow> (entity_key, era_summary) table \<Rightarrow> (entity_key, era_summary) table" where
  "write_era_transition d rows =
     tbl_insert (etd_new_key d) (etd_new_summary d) (tbl_insert (etd_prev_key d) (etd_prev_summary d) rows)"

section \<open>Boundaries between two blocks\<close>

definition epoch_boundary :: "build \<Rightarrow> chain_summary \<Rightarrow> block_slot \<Rightarrow> block_slot \<Rightarrow> (epoch \<times> block_slot \<times> epoch) option option" where
  "epoch_boundary b cs prev_slot next_slot = do {
     (prev_epoch, _) \<leftarrow> chain_slot_epoch b cs prev_slot;
     (next_epoch, _) \<leftarrow> chain_slot_epoch b cs next_slot;
     (if prev_epoch \<noteq> next_epoch then do {
        boundary \<leftarrow> chain_epoch_start b cs next_epoch;
        Some (Some (prev_epoch, boundary, next_epoch))
      } else Some None)
   }"

definition rupd_boundary :: "build \<Rightarrow> u64 \<Rightarrow> chain_summary \<Rightarrow> block_slot \<Rightarrow> block_slot \<Rightarrow> block_slot option option" where
  "rupd_boundary b stability_window cs prev_slot next_slot = do {
     (prev_epoch, _) \<leftarrow> chain_slot_epoch b cs prev_slot;
     epoch_start \<leftarrow> chain_epoch_start b cs prev_epoch;
     boundary \<leftarrow> raw_add b epoch_start stability_window;
     Some (if prev_slot \<le> boundary \<and> boundary < next_slot then Some boundary else None)
   }"

section \<open>Contiguous eras\<close>

text \<open>
  The shape the summaries have: epochs have a positive length that fits the 32 bits of a slot inside
  an epoch, an era starts no earlier than the slot that has its epoch's number (epochs have at least one
  slot, and the first era starts at zero), and each past era ends where the next one starts.
\<close>

definition era_ok :: "era_summary \<Rightarrow> bool" where
  "era_ok era \<longleftrightarrow> 0 < er_epoch_length era \<and> unat (er_epoch_length era) \<le> 2 ^ 32 \<and>
     eb_epoch (er_start era) \<le> eb_slot (er_start era)"

definition closes :: "era_summary \<Rightarrow> era_boundary \<Rightarrow> bool" where
  "closes era e \<longleftrightarrow> eb_epoch (er_start era) \<le> eb_epoch e \<and>
     unat (eb_slot e) = unat (eb_slot (er_start era)) +
       (unat (eb_epoch e) - unat (eb_epoch (er_start era))) * unat (er_epoch_length era)"

fun eras_linked :: "era_summary list \<Rightarrow> era_summary \<Rightarrow> bool" where
  "eras_linked [] edge = era_ok edge"
| "eras_linked (era # eras) edge =
     (era_ok era \<and> (case er_end era of
        None \<Rightarrow> False
      | Some e \<Rightarrow> closes era e \<and> e = er_start (hd (eras @ [edge]))) \<and> eras_linked eras edge)"

definition chain_ok :: "chain_summary \<Rightarrow> bool" where
  "chain_ok cs \<longleftrightarrow> (case cs_edge cs of
      None \<Rightarrow> False
    | Some edge \<Rightarrow> eras_linked (cs_past cs) edge \<and> length (cs_protocols cs) = Suc (length (cs_past cs)))"

text \<open>The first slot the summary knows.\<close>

definition chain_start :: "chain_summary \<Rightarrow> block_slot" where
  "chain_start cs = (case first_era cs of None \<Rightarrow> 0 | Some era \<Rightarrow> eb_slot (er_start era))"

lemma era_slot_epoch_exact:
  assumes "era_ok era" and "eb_slot (er_start era) \<le> slot"
  obtains e k where "era_slot_epoch b era slot = Some (e, k)"
    and "unat e = unat (eb_epoch (er_start era)) + (unat slot - unat (eb_slot (er_start era))) div unat (er_epoch_length era)"
    and "unat k = (unat slot - unat (eb_slot (er_start era))) mod unat (er_epoch_length era)"
proof -
  let ?l = "er_epoch_length era" and ?s = "eb_slot (er_start era)" and ?f = "eb_epoch (er_start era)"
  define d where "d = slot - ?s"
  have l: "0 < unat ?l" "unat ?l \<le> 2 ^ 32" and f: "unat ?f \<le> unat ?s"
    using assms(1) by (simp_all add: era_ok_def word_less_nat_alt word_le_nat_alt)
  have d: "unat d = unat slot - unat ?s" using assms(2) by (simp add: d_def unat_sub_no_underflow)
  have dd: "unat d div unat ?l \<le> unat d" by simp
  have bound: "unat slot < 2 ^ 64" using unsigned_less [where 'a = nat and w = slot] by simp
  have le: "unat ?s \<le> unat slot" using assms(2) by (simp add: word_le_nat_alt)
  have q: "unat (d div ?l) = unat d div unat ?l" by (simp add: unat_div)
  have add: "unat ?f + unat (d div ?l) < 2 ^ 64" using q dd d f le bound by linarith
  have mul: "unat (d div ?l) * unat ?l \<le> unat d" by (simp add: q)
  have mul': "unat (d div ?l * ?l) = unat (d div ?l) * unat ?l"
    by (rule unat_mul_no_overflow) (use mul unsigned_less [where 'a = nat and w = d] in simp)
  have sub: "d div ?l * ?l \<le> d" using mul mul' by (simp add: word_le_nat_alt)
  have k: "d - d div ?l * ?l = d mod ?l" "unat (d mod ?l) = unat d mod unat ?l"
    by (simp_all add: minus_div_mult_eq_mod unat_mod)
  have "unat d mod unat ?l < 2 ^ 32" using l mod_less_divisor [of "unat ?l" "unat d"] by linarith
  then have "unat (ucast (d mod ?l) :: u32) = unat d mod unat ?l"
    by (simp add: unsigned_ucast_eq k(2) take_bit_nat_eq_self)
  moreover have "era_slot_epoch b era slot = Some (?f + d div ?l, ucast (d mod ?l))"
    using assms l add mul unsigned_less [where 'a = nat and w = d] sub k(1)
    by (simp add: era_slot_epoch_def raw_exact checked_div_def d_def [symmetric] not_less unat_gt_0)
  moreover have "unat (?f + d div ?l) = unat ?f + unat d div unat ?l"
    using add by (simp add: unat_add_no_overflow q)
  ultimately show thesis using that d by simp
qed

lemma era_epoch_start_exact:
  assumes "eb_epoch (er_start era) \<le> e"
    and "unat (eb_slot (er_start era)) + (unat e - unat (eb_epoch (er_start era))) * unat (er_epoch_length era) < 2 ^ 64"
  obtains s where "era_epoch_start b era e = Some s"
    and "unat s = unat (eb_slot (er_start era)) + (unat e - unat (eb_epoch (er_start era))) * unat (er_epoch_length era)"
proof -
  let ?l = "er_epoch_length era" and ?s = "eb_slot (er_start era)" and ?d = "e - eb_epoch (er_start era)"
  have d: "unat ?d = unat e - unat (eb_epoch (er_start era))" using assms(1) by (simp add: unat_sub_no_underflow)
  have mul: "unat ?d * unat ?l < 2 ^ 64" using assms(2) d by simp
  have m: "unat (?d * ?l) = unat ?d * unat ?l" using mul by (simp add: unat_mul_no_overflow)
  have add: "unat ?s + unat (?d * ?l) < 2 ^ 64" using assms(2) d m by simp
  have "era_epoch_start b era e = Some (?s + ?d * ?l)"
    using assms(1) mul add by (simp add: era_epoch_start_def raw_exact)
  moreover have "unat (?s + ?d * ?l) = unat ?s + unat ?d * unat ?l" using add m by (simp add: unat_add_no_overflow)
  ultimately show thesis using that d by simp
qed

lemma closes_mono: "closes era e \<Longrightarrow> eb_slot (er_start era) \<le> eb_slot e"
  by (simp add: closes_def word_le_nat_alt)

lemma linked_mono:
  assumes "eras_linked (era # eras) edge" and "er_end era = Some e" and "x \<in> set (eras @ [edge])"
  shows "eb_epoch e \<le> eb_epoch (er_start x)" and "eb_slot e \<le> eb_slot (er_start x)"
proof -
  have "eb_epoch e \<le> eb_epoch (er_start x) \<and> eb_slot e \<le> eb_slot (er_start x)"
    using assms
  proof (induction eras arbitrary: era e)
    case (Cons era' eras)
    then obtain e' where e': "er_end era' = Some e'" "closes era' e'" by (auto split: option.splits)
    from Cons.prems have e: "e = er_start era'" and rest: "eras_linked (era' # eras) edge" by auto
    show ?case
    proof (cases "x = era'")
      case False
      with Cons.prems(3) have "x \<in> set (eras @ [edge])" by auto
      then have "eb_epoch e' \<le> eb_epoch (er_start x) \<and> eb_slot e' \<le> eb_slot (er_start x)"
        using Cons.IH [OF rest e'(1)] by simp
      with closes_mono [OF e'(2)] e'(2) show ?thesis by (auto simp: e closes_def)
    qed (simp add: e)
  qed (auto simp: split: option.splits)
  then show "eb_epoch e \<le> eb_epoch (er_start x)" and "eb_slot e \<le> eb_slot (er_start x)" by simp_all
qed

text \<open>A slot of an era that has an end is in an epoch before that end.\<close>

lemma slot_epoch_before_end:
  assumes "era_ok era" and "closes era e" and "eb_slot (er_start era) \<le> s" and "s < eb_slot e"
    and "era_slot_epoch b era s = Some (n, k)"
  shows "eb_epoch (er_start era) \<le> n" and "n < eb_epoch e"
proof -
  let ?l = "unat (er_epoch_length era)" and ?s = "unat (eb_slot (er_start era))" and ?f = "unat (eb_epoch (er_start era))"
  have n: "unat n = ?f + (unat s - ?s) div ?l"
    using era_slot_epoch_exact [OF assms(1,3), of b] assms(5) by (metis option.inject prod.inject)
  then show "eb_epoch (er_start era) \<le> n" by (simp add: word_le_nat_alt)
  have l: "0 < ?l" using assms(1) by (simp add: era_ok_def word_less_nat_alt)
  have "unat s < ?s + (unat (eb_epoch e) - ?f) * ?l"
    using assms(2,4) by (simp add: closes_def word_less_nat_alt)
  then have "unat s - ?s < (unat (eb_epoch e) - ?f) * ?l" using assms(3) by (simp add: word_le_nat_alt)
  then have "(unat s - ?s) div ?l < unat (eb_epoch e) - ?f" using l by (simp add: div_less_iff_less_mult)
  with n show "n < eb_epoch e" by (simp add: word_less_nat_alt)
qed

text \<open>Searching by the epoch of a slot finds the era that searching by the slot finds.\<close>

lemma find_past_epoch:
  assumes "eras_linked past edge" and "length past \<le> length vs"
    and "find_past eb_slot s (map (Pair ()) past) = Some ((), era)" and "era_slot_epoch b era s = Some (n, k)"
  shows "\<exists>v. find_past eb_epoch n (zip vs past) = Some (v, era)"
  using assms
proof (induction past arbitrary: vs)
  case (Cons era0 past)
  then obtain v vs' where vs: "vs = v # vs'" by (cases vs) auto
  from Cons.prems(1) obtain e where e: "er_end era0 = Some e" "closes era0 e" "era_ok era0" by (auto split: option.splits)
  show ?case
  proof (cases "eb_slot (er_start era0) \<le> s \<and> s < eb_slot e")
    case True
    with Cons.prems(3) e have "era = era0" by (auto split: if_splits)
    with slot_epoch_before_end [OF e(3,2)] True Cons.prems(4) show ?thesis by (auto simp: vs e)
  next
    case False
    with Cons.prems(3) e have found: "find_past eb_slot s (map (Pair ()) past) = Some ((), era)"
      by (auto split: if_splits)
    have "\<exists>era'. (v', era') \<in> set eras \<and> era = era' \<and> eb_slot (er_start era') \<le> s" if "find_past eb_slot s eras = Some (v', era)" for v' :: unit and eras
      using that by (induction eras) (auto split: if_splits option.splits)
    from this [OF found] have mem: "era \<in> set past" and at_s: "eb_slot (er_start era) \<le> s" by auto
    have "era_ok era" if "eras_linked past edge" "era \<in> set past" for past
      using that by (induction past) auto
    with mem Cons.prems(1) have "era_ok era" by auto
    then have "eb_epoch (er_start era) \<le> n"
      using era_slot_epoch_exact [OF _ at_s, of b] Cons.prems(4) by (metis le_add1 option.inject prod.inject word_le_nat_alt)
    then have "\<not> n < eb_epoch e" using linked_mono(1) [OF Cons.prems(1) e(1), of era] mem by auto
    moreover have "\<exists>v. find_past eb_epoch n (zip vs' past) = Some (v, era)"
      using Cons.IH [of vs'] Cons.prems found by (simp add: vs)
    ultimately show ?thesis by (auto simp: vs e)
  qed
qed simp

text \<open>The era of a slot, by a single scan.\<close>

fun era_at :: "era_summary list \<Rightarrow> era_summary \<Rightarrow> u64 \<Rightarrow> era_summary" where
  "era_at [] edge s = edge"
| "era_at (era # eras) edge s =
     (case er_end era of None \<Rightarrow> era | Some e \<Rightarrow> if s < eb_slot e then era else era_at eras edge s)"

lemma era_at_mem: "era_at past edge s \<in> set (past @ [edge])"
  by (induction past) (auto split: option.splits)

lemma linked_ok: "eras_linked past edge \<Longrightarrow> era \<in> set (past @ [edge]) \<Longrightarrow> era_ok era"
  by (induction past) auto

lemma era_at_edge: "eras_linked past edge \<Longrightarrow> eb_slot (er_start edge) \<le> s \<Longrightarrow> era_at past edge s = edge"
proof (induction past)
  case (Cons era past)
  then obtain e where e: "er_end era = Some e" by (auto split: option.splits)
  have "eb_slot e \<le> s" using linked_mono(2) [OF Cons.prems(1) e, of edge] Cons.prems(2) by simp
  with Cons e show ?case by auto
qed simp

lemma era_at_start:
  "eras_linked past edge \<Longrightarrow> eb_slot (er_start (hd (past @ [edge]))) \<le> s \<Longrightarrow> eb_slot (er_start (era_at past edge s)) \<le> s"
  by (induction past) (auto split: option.splits)

lemma era_at_found:
  assumes "eras_linked past edge" and "eb_slot (er_start (hd (past @ [edge]))) \<le> s" and "s < eb_slot (er_start edge)"
  shows "find_past eb_slot s (map (Pair ()) past) = Some ((), era_at past edge s)"
  using assms by (induction past) (auto split: option.splits)

lemma era_at_later:
  assumes "eras_linked past edge" and "s \<le> s'" and "era_at past edge s \<noteq> era_at past edge s'"
  obtains e where "er_end (era_at past edge s) = Some e" and "closes (era_at past edge s) e" and "s < eb_slot e"
    and "eb_epoch e \<le> eb_epoch (er_start (era_at past edge s'))"
proof -
  have "\<exists>e. er_end (era_at past edge s) = Some e \<and> closes (era_at past edge s) e \<and> s < eb_slot e \<and>
      eb_epoch e \<le> eb_epoch (er_start (era_at past edge s'))"
    using assms
  proof (induction past)
    case (Cons era past)
    then obtain e where e: "er_end era = Some e" "closes era e" by (auto split: option.splits)
    show ?case
    proof (cases "s < eb_slot e")
      case True
      with Cons.prems(3) e have "era_at (era # past) edge s' = era_at past edge s'" by (auto split: if_splits)
      with True e linked_mono(1) [OF Cons.prems(1) e(1) era_at_mem] show ?thesis by auto
    next
      case False
      with Cons.prems(2) have "\<not> s' < eb_slot e" by auto
      with False Cons e show ?thesis by auto
    qed
  qed simp
  with that show thesis by blast
qed

lemma chain_okE:
  assumes "chain_ok cs"
  obtains edge where "cs_edge cs = Some edge" and "eras_linked (cs_past cs) edge"
    and "length (cs_protocols cs) = Suc (length (cs_past cs))"
    and "chain_start cs = eb_slot (er_start (hd (cs_past cs @ [edge])))"
  using assms by (auto simp: chain_ok_def chain_start_def first_era_def split: option.splits list.splits)

lemma era_for_slot_at:
  assumes "chain_ok cs" and "chain_start cs \<le> s" and "cs_edge cs = Some edge"
  shows "era_for_slot cs s = Some (era_at (cs_past cs) edge s)"
  using assms by (auto simp: era_for_slot_def era_at_edge era_at_found not_le elim!: chain_okE)

lemma chain_slot_epoch_exact:
  assumes "chain_ok cs" and "chain_start cs \<le> s"
  obtains era e k where "era_for_slot cs s = Some era" and "era_ok era" and "eb_slot (er_start era) \<le> s"
    and "era_slot_epoch b era s = Some (e, k)" and "chain_slot_epoch b cs s = Some (e, k)"
    and "unat e = unat (eb_epoch (er_start era)) + (unat s - unat (eb_slot (er_start era))) div unat (er_epoch_length era)"
    and "unat k = (unat s - unat (eb_slot (er_start era))) mod unat (er_epoch_length era)"
proof -
  from assms(1) obtain edge where edge: "cs_edge cs = Some edge" "eras_linked (cs_past cs) edge"
      "chain_start cs = eb_slot (er_start (hd (cs_past cs @ [edge])))"
    by (rule chain_okE)
  let ?era = "era_at (cs_past cs) edge s"
  have "era_ok ?era" "eb_slot (er_start ?era) \<le> s"
    using edge assms(2) linked_ok [OF _ era_at_mem] by (auto intro: era_at_start)
  with era_slot_epoch_exact [of ?era s b] era_for_slot_at [OF assms edge(1)] that show thesis
    by (fastforce simp: chain_slot_epoch_def)
qed

lemma era_for_epoch_slot:
  assumes "chain_ok cs" and "chain_start cs \<le> s" and "era_for_slot cs s = Some era" and "era_slot_epoch b era s = Some (n, k)"
  shows "era_for_epoch cs n = Some era"
proof -
  from assms(1) obtain edge where edge: "cs_edge cs = Some edge" "eras_linked (cs_past cs) edge"
      "length (cs_protocols cs) = Suc (length (cs_past cs))" "chain_start cs = eb_slot (er_start (hd (cs_past cs @ [edge])))"
    by (rule chain_okE)
  have era: "era = era_at (cs_past cs) edge s" using era_for_slot_at [OF assms(1,2) edge(1)] assms(3) by simp
  have ok: "era_ok era" using linked_ok [OF edge(2) era_at_mem] era by simp
  have at_s: "eb_slot (er_start era) \<le> s" using era_at_start edge assms(2) era by auto
  from era_slot_epoch_exact [OF ok at_s, of b] assms(4)
  have n: "eb_epoch (er_start era) \<le> n" by (metis le_add1 option.inject prod.inject word_le_nat_alt)
  show ?thesis
  proof (cases "eb_slot (er_start edge) \<le> s")
    case True
    then have "era = edge" using era_at_edge [OF edge(2)] era by simp
    then show ?thesis using n edge by (auto simp: era_for_epoch_def protocol_and_era_for_epoch_def)
  next
    case False
    then have found: "find_past eb_slot s (map (Pair ()) (cs_past cs)) = Some ((), era)"
      using era_at_found edge assms(2) era by (auto simp: not_le)
    from find_past_epoch [OF edge(2) _ this assms(4), of "cs_protocols cs"] edge(3)
    obtain v where v: "find_past eb_epoch n (zip (cs_protocols cs) (cs_past cs)) = Some (v, era)" by auto
    have "era_at (cs_past cs) edge (eb_slot (er_start edge)) = edge" using era_at_edge edge(2) by blast
    moreover have "era \<noteq> edge" using False at_s by auto
    moreover have "s \<le> eb_slot (er_start edge)" using False by simp
    ultimately obtain e where "closes era e" "s < eb_slot e" "eb_epoch e \<le> eb_epoch (er_start edge)"
      using era_at_later [OF edge(2), of s "eb_slot (er_start edge)"] era by metis
    with slot_epoch_before_end(2) [OF ok _ at_s _ assms(4)] have "n < eb_epoch (er_start edge)" by (metis less_le_trans)
    then show ?thesis using v edge(1) by (simp add: era_for_epoch_def protocol_and_era_for_epoch_def not_le)
  qed
qed

section \<open>The calendar its users rely on\<close>

text \<open>
  The interface of the summary for the code that compares the slots of two blocks: from the first slot
  on, every slot has an epoch, an epoch has a first slot, and epochs grow with slots.
\<close>

locale epoch_calendar =
  fixes ok :: "'c \<Rightarrow> bool" and starts :: "'c \<Rightarrow> block_slot"
    and epoch_of :: "'c \<Rightarrow> block_slot \<Rightarrow> (epoch \<times> u32) option" and start_of :: "'c \<Rightarrow> epoch \<Rightarrow> block_slot option"
  assumes epoch_total: "ok c \<Longrightarrow> starts c \<le> s \<Longrightarrow> \<exists>e k. epoch_of c s = Some (e, k)"
    and start_round: "ok c \<Longrightarrow> starts c \<le> s \<Longrightarrow> epoch_of c s = Some (e, k)
      \<Longrightarrow> \<exists>f. start_of c e = Some f \<and> starts c \<le> f \<and> unat f + unat k = unat s \<and> epoch_of c f = Some (e, 0)"
    and epoch_mono: "ok c \<Longrightarrow> starts c \<le> s \<Longrightarrow> s \<le> s' \<Longrightarrow> epoch_of c s = Some (e, k) \<Longrightarrow> epoch_of c s' = Some (e', k')
      \<Longrightarrow> e \<le> e'"
begin

lemma crossing:
  assumes "ok c" and "starts c \<le> s" and "s \<le> s'" and "epoch_of c s = Some (e, k)" and "epoch_of c s' = Some (e', k')"
    and "e \<noteq> e'" and "start_of c e' = Some f"
  shows "e < e'" and "s < f" and "f \<le> s'" and "epoch_of c f = Some (e', 0)"
proof -
  from assms(2,3) have s': "starts c \<le> s'" by simp
  from start_round [OF assms(1) s' assms(5)] assms(7)
  have f: "starts c \<le> f" "unat f + unat k' = unat s'" "epoch_of c f = Some (e', 0)" by auto
  from epoch_mono [OF assms(1-5)] assms(6) show less: "e < e'" by simp
  show "f \<le> s'" using f(2) by (simp add: word_le_nat_alt)
  show "epoch_of c f = Some (e', 0)" by (fact f(3))
  show "s < f"
  proof (rule ccontr)
    assume "\<not> s < f"
    then have "f \<le> s" by simp
    from epoch_mono [OF assms(1) f(1) this f(3) assms(4)] less show False by simp
  qed
qed

lemma same_epoch_between:
  assumes "ok c" and "starts c \<le> s" and "s \<le> x" and "x \<le> s'"
    and "epoch_of c s = Some (e, k)" and "epoch_of c s' = Some (e, k')"
  shows "\<exists>k''. epoch_of c x = Some (e, k'')"
proof -
  from assms(2,3) have x: "starts c \<le> x" by simp
  obtain d j where d: "epoch_of c x = Some (d, j)" using epoch_total [OF assms(1) x] by auto
  from epoch_mono [OF assms(1-3,5) d] epoch_mono [OF assms(1) x assms(4) d assms(6)] have "d = e" by simp
  with d show ?thesis by simp
qed

end

lemma linked_first:
  assumes "eras_linked past edge" and "x \<in> set (past @ [edge])"
  shows "eb_slot (er_start (hd (past @ [edge]))) \<le> eb_slot (er_start x)"
proof (cases past)
  case (Cons era eras)
  with assms(1) obtain e where e: "er_end era = Some e" "closes era e" by (auto split: option.splits)
  show ?thesis
  proof (cases "x = era")
    case False
    with assms(2) Cons have "x \<in> set (eras @ [edge])" by auto
    with linked_mono(2) [OF _ e(1)] assms(1) Cons have "eb_slot e \<le> eb_slot (er_start x)" by auto
    with closes_mono [OF e(2)] Cons show ?thesis by auto
  qed (simp add: Cons)
qed (use assms(2) in simp)

lemma era_at_stays:
  assumes "eras_linked past edge" and "eb_slot (er_start (era_at past edge s)) \<le> f" and "f \<le> s"
  shows "era_at past edge f = era_at past edge s"
  using assms
proof (induction past)
  case (Cons era past)
  then obtain e where e: "er_end era = Some e" by (auto split: option.splits)
  show ?case
  proof (cases "s < eb_slot e")
    case True
    with Cons.prems(3) e show ?thesis by auto
  next
    case False
    then have "eb_slot e \<le> f" using linked_mono(2) [OF Cons.prems(1) e era_at_mem [of past edge s]] Cons.prems(2) e by auto
    with False Cons e show ?thesis by auto
  qed
qed simp

lemma chain_epoch_start_slot:
  assumes "chain_ok cs" and "chain_start cs \<le> s" and "chain_slot_epoch b cs s = Some (e, k)"
  obtains f where "chain_epoch_start b cs e = Some f" and "chain_start cs \<le> f" and "unat f + unat k = unat s"
    and "chain_slot_epoch b cs f = Some (e, 0)"
proof -
  obtain era where era: "era_for_slot cs s = Some era" "era_ok era" "eb_slot (er_start era) \<le> s"
      "era_slot_epoch b era s = Some (e, k)"
      "unat e = unat (eb_epoch (er_start era)) + (unat s - unat (eb_slot (er_start era))) div unat (er_epoch_length era)"
      "unat k = (unat s - unat (eb_slot (er_start era))) mod unat (er_epoch_length era)"
    using chain_slot_epoch_exact [OF assms(1,2), of b] assms(3) by (metis option.inject prod.inject)
  let ?l = "unat (er_epoch_length era)" and ?s = "unat (eb_slot (er_start era))" and ?f = "unat (eb_epoch (er_start era))"
  from assms(1) obtain edge where edge: "cs_edge cs = Some edge" "eras_linked (cs_past cs) edge"
      "chain_start cs = eb_slot (er_start (hd (cs_past cs @ [edge])))"
    by (rule chain_okE)
  have l: "0 < ?l" using era(2) by (simp add: era_ok_def word_less_nat_alt)
  have s: "?s \<le> unat s" using era(3) by (simp add: word_le_nat_alt)
  have val: "?s + (unat e - ?f) * ?l + unat k = unat s" using s by (simp add: era(5,6))
  have "eb_epoch (er_start era) \<le> e" by (simp add: word_le_nat_alt era(5))
  moreover have "?s + (unat e - ?f) * ?l < 2 ^ 64"
    using val unsigned_less [where 'a = nat and w = s] by simp
  ultimately obtain f where f: "era_epoch_start b era e = Some f" "unat f = ?s + (unat e - ?f) * ?l"
    by (rule era_epoch_start_exact)
  have at_s: "era = era_at (cs_past cs) edge s" using era_for_slot_at [OF assms(1,2) edge(1)] era(1) by simp
  have le: "f \<le> s" "eb_slot (er_start era) \<le> f" using val f by (simp_all add: word_le_nat_alt)
  have f0: "chain_start cs \<le> f" using linked_first [OF edge(2) era_at_mem] le(2) edge(3) at_s by (metis order_trans)
  have "era_for_slot cs f = Some era"
    using era_for_slot_at [OF assms(1) f0 edge(1)] era_at_stays [OF edge(2) _ le(1)] le(2) at_s by simp
  then obtain e' k' where ek: "chain_slot_epoch b cs f = Some (e', k')" "unat e' = ?f + (unat f - ?s) div ?l" "unat k' = (unat f - ?s) mod ?l"
    using chain_slot_epoch_exact [OF assms(1) f0, of b] by (metis option.inject)
  have "e' = e" "k' = 0" using ek(2,3) l f(2) era(5) by (simp_all add: word_unat_eq_iff)
  moreover have "chain_epoch_start b cs e = Some f"
    by (simp add: chain_epoch_start_def era_for_epoch_slot [OF assms(1,2) era(1,4)] f)
  ultimately show thesis using ek(1) f0 val f(2) by (intro that) simp_all
qed

lemma chain_slot_epochD:
  assumes "chain_ok cs" and "chain_start cs \<le> s" and "chain_slot_epoch b cs s = Some (e, k)" and "cs_edge cs = Some edge"
    and "era = era_at (cs_past cs) edge s"
  shows "era_slot_epoch b era s = Some (e, k)" and "era_ok era" and "eb_slot (er_start era) \<le> s"
    and "unat e = unat (eb_epoch (er_start era)) + (unat s - unat (eb_slot (er_start era))) div unat (er_epoch_length era)"
proof -
  have at_s: "era_for_slot cs s = Some era" using era_for_slot_at [OF assms(1,2,4)] assms(5) by simp
  show "era_slot_epoch b era s = Some (e, k)" using assms(3) by (simp add: chain_slot_epoch_def at_s)
  show "era_ok era" "eb_slot (er_start era) \<le> s"
      "unat e = unat (eb_epoch (er_start era)) + (unat s - unat (eb_slot (er_start era))) div unat (er_epoch_length era)"
    by (rule chain_slot_epoch_exact [OF assms(1,2), of b]; use at_s assms(3) in simp)+
qed

lemma chain_slot_epoch_mono:
  assumes "chain_ok cs" and "chain_start cs \<le> s" and "s \<le> s'"
    and "chain_slot_epoch b cs s = Some (e, k)" and "chain_slot_epoch b cs s' = Some (e', k')"
  shows "e \<le> e'"
proof -
  from assms(1) obtain edge where edge: "cs_edge cs = Some edge" "eras_linked (cs_past cs) edge"
    by (rule chain_okE)
  let ?at = "era_at (cs_past cs) edge"
  have s': "chain_start cs \<le> s'" using assms(2,3) by simp
  note e = chain_slot_epochD [OF assms(1,2,4) edge(1) refl] and e' = chain_slot_epochD(4) [OF assms(1) s' assms(5) edge(1) refl]
  show ?thesis
  proof (cases "?at s = ?at s'")
    case True
    have "unat s \<le> unat s'" using assms(3) by (simp add: word_le_nat_alt)
    then have "unat e \<le> unat e'" using e(4) e' True by (simp add: div_le_mono diff_le_mono)
    then show ?thesis by (simp add: word_le_nat_alt)
  next
    case False
    then obtain x where "closes (?at s) x" "s < eb_slot x" "eb_epoch x \<le> eb_epoch (er_start (?at s'))"
      using era_at_later [OF edge(2) assms(3)] by metis
    with slot_epoch_before_end(2) [OF e(2) _ e(3) _ e(1)] have "e < eb_epoch (er_start (?at s'))" by (metis less_le_trans)
    with e' show ?thesis by (simp add: word_le_nat_alt word_less_nat_alt)
  qed
qed

interpretation chain: epoch_calendar chain_ok chain_start "chain_slot_epoch b" "chain_epoch_start b" for b
proof
  show "\<exists>e k. chain_slot_epoch b cs s = Some (e, k)" if "chain_ok cs" "chain_start cs \<le> s" for cs s
    using chain_slot_epoch_exact [OF that, of b] by metis
qed (metis chain_epoch_start_slot, rule chain_slot_epoch_mono)

section \<open>Closing an era keeps the past\<close>

lemma define_end_closes:
  assumes "define_end b n era = Some era'" and "eb_epoch (er_start era) \<le> n"
    and "unat (eb_slot (er_start era)) + (unat n - unat (eb_epoch (er_start era))) * unat (er_epoch_length era) < 2 ^ 64"
  obtains e where "era' = era\<lparr>er_end := Some e\<rparr>" and "closes era e" and "eb_epoch e = n"
proof -
  let ?s = "eb_slot (er_start era)" and ?l = "er_epoch_length era" and ?d = "n - eb_epoch (er_start era)"
  have d: "unat ?d = unat n - unat (eb_epoch (er_start era))" using assms(2) by (simp add: unat_sub_no_underflow)
  have mul: "unat ?d * unat ?l < 2 ^ 64" using assms(3) d by simp
  have m: "unat (?d * ?l) = unat ?d * unat ?l" using mul by (simp add: unat_mul_no_overflow)
  have add: "unat ?s + unat (?d * ?l) < 2 ^ 64" using assms(3) d m by simp
  from assms(1) obtain ts where "era' = era\<lparr>er_end := Some \<lparr>eb_epoch = n, eb_slot = ?s + ?d * ?l, eb_timestamp = ts\<rparr>\<rparr>"
    using assms(2) mul add by (auto simp: define_end_def raw_exact panic_simps)
  moreover have "unat (?s + ?d * ?l) = unat ?s + (unat n - unat (eb_epoch (er_start era))) * unat ?l"
    using add m d by (simp add: unat_add_no_overflow)
  ultimately show thesis using assms(2) by (intro that) (auto simp: closes_def)
qed

text \<open>Closing the edge and linking a new one, for the slots before the new start.\<close>

lemma eras_linked_snoc:
  assumes "eras_linked past edge" and "closes edge e" and "edge' = edge\<lparr>er_end := Some e\<rparr>" and "er_start new = e" and "era_ok new"
  shows "eras_linked (past @ [edge']) new"
  using assms
proof (induction past)
  case Nil
  then show ?case by (simp add: era_ok_def closes_def)
next
  case (Cons era past)
  then show ?case by (cases past) (auto split: option.splits)
qed

lemma era_at_snoc:
  fixes new :: era_summary
  assumes "eras_linked past edge" and "s < eb_slot e"
  defines "x \<equiv> era_at (past @ [edge\<lparr>er_end := Some e\<rparr>]) new s" and "y \<equiv> era_at past edge s"
  shows "er_start x = er_start y \<and> er_epoch_length x = er_epoch_length y \<and> er_slot_length x = er_slot_length y"
  using assms(1,2) unfolding x_def y_def by (induction past) (auto split: option.splits)

lemma load_era_summary_rows:
  "load_era_summary (map (apsnd Some) (rows @ [(k, era)])) =
     Some \<lparr>cs_past = map snd rows, cs_protocols = map (protocol_from_key \<circ> fst) (rows @ [(k, era)]), cs_edge = Some era\<rparr>"
proof -
  have load: "load_eras (map (apsnd Some) xs) cs = Some (fold (\<lambda>(k, era). append_era (protocol_from_key k) era) xs cs)" for xs cs
    by (induction xs arbitrary: cs) auto
  have fold_eq: "fold (\<lambda>(k, era). append_era (protocol_from_key k) era) xs chain_summary_default =
      \<lparr>cs_past = butlast (map snd xs), cs_protocols = map (protocol_from_key \<circ> fst) xs,
        cs_edge = (if xs = [] then None else Some (snd (last xs)))\<rparr>" for xs
  proof (induction xs rule: rev_induct)
    case (snoc x xs)
    have "butlast (map snd xs) @ [snd (last xs)] = map snd xs" if "xs \<noteq> []"
      using that by (metis append_butlast_last_id last_map list.map_disc_iff)
    with snoc show ?case by (auto simp: append_era_def split: prod.splits)
  qed (simp add: chain_summary_default_def)
  show ?thesis unfolding load_era_summary_def load fold_eq by simp
qed

lemma protocol_key_less: "protocol_key v < protocol_key w \<longleftrightarrow> v < w"
proof -
  have "length xs = length ys \<Longrightarrow> xs @ zs < ys @ zs \<longleftrightarrow> xs < ys" for xs ys zs :: bytes
    by (induction xs ys rule: list_induct2) auto
  then show ?thesis
    by (simp add: protocol_key_def entity_key_from_def key_size_def be_value_less_iff be_value_word_bytes word_less_nat_alt)
qed

lemma protocol_constants_length: "protocol_constants v g = Some c \<Longrightarrow> unat (pc_epoch_length c) \<le> 2 ^ 32"
proof -
  have "unat (ucast (x :: u32) :: u64) \<le> 2 ^ 32" for x
    using unsigned_less [where 'a = nat and w = x] by (simp add: unsigned_ucast_eq take_bit_nat_eq_self)
  moreover have "unat (five_days_in_seconds div x) \<le> 2 ^ 32" for x
    by (rule order_trans [of _ 432000]) (simp_all add: unat_div five_days_in_seconds_def)
  moreover assume "protocol_constants v g = Some c"
  ultimately show ?thesis
    by (auto simp: protocol_constants_def checked_div_def Let_def panic_simps split: if_splits)
qed

lemma collect_era_transitionE:
  assumes "collect_era_transition b g n (Some tr) (rows @ [(protocol_key (et_prev_version tr), edge)]) = Some (Inr (Some d))"
    and "tbl_ok (rows @ [(protocol_key (et_prev_version tr), edge)])" and "era_ok edge"
    and "eb_epoch (er_start edge) \<le> n" and "et_prev_version tr < et_new_version tr"
    and "unat (eb_slot (er_start edge)) + (unat n - unat (eb_epoch (er_start edge))) * unat (er_epoch_length edge) < 2 ^ 64"
    and "er_epoch_length (etd_new_summary d) \<noteq> 0"
  obtains e where "closes edge e" and "eb_epoch e = n" and "er_start (etd_new_summary d) = e" and "era_ok (etd_new_summary d)"
    and "write_era_transition d (rows @ [(protocol_key (et_prev_version tr), edge)]) =
      rows @ [(protocol_key (et_prev_version tr), edge\<lparr>er_end := Some e\<rparr>), (protocol_key (et_new_version tr), etd_new_summary d)]"
proof -
  let ?k = "protocol_key (et_prev_version tr)"
  have keys: "\<forall>k' \<in> fst ` set rows. k' < ?k" using assms(2) by (auto simp: tbl_ok_def sorted_wrt_append)
  then have "tbl_get (rows @ [(?k, edge)]) ?k = Some edge"
    by (auto simp: tbl_get_def map_add_def map_of_eq_None_iff split: option.splits) (metis less_irrefl fst_conv image_eqI map_of_SomeD)
  with assms(1) obtain prev c e where prev: "define_end b n edge = Some prev" and c: "protocol_constants (et_new_version tr) g = Some c"
      and e: "er_end prev = Some e" and d: "d = \<lparr>etd_prev_key = ?k, etd_prev_summary = prev, etd_new_key = protocol_key (et_new_version tr),
        etd_new_summary = \<lparr>er_start = e, er_end = None, er_epoch_length = pc_epoch_length c, er_slot_length = pc_slot_length c,
          er_protocol = et_new_version tr\<rparr>\<rparr>"
    by (auto simp: collect_era_transition_def panic_simps)
  from prev assms(4,6) obtain e' where e': "prev = edge\<lparr>er_end := Some e'\<rparr>" "closes edge e'" "eb_epoch e' = n"
    by (rule define_end_closes)
  with e have ee: "e' = e" by simp
  have "unat (eb_epoch (er_start edge)) \<le> unat (eb_slot (er_start edge))" "1 \<le> unat (er_epoch_length edge)"
    using assms(3) by (simp_all add: era_ok_def word_le_nat_alt word_less_nat_alt)
  moreover from this(2) have "unat n - unat (eb_epoch (er_start edge)) \<le> (unat n - unat (eb_epoch (er_start edge))) * unat (er_epoch_length edge)"
    by simp
  moreover have "unat (eb_slot e) = unat (eb_slot (er_start edge)) +
      (unat n - unat (eb_epoch (er_start edge))) * unat (er_epoch_length edge)"
    using e'(2,3) ee by (auto simp: closes_def)
  ultimately have "unat n \<le> unat (eb_slot e)" by linarith
  then have "era_ok (etd_new_summary d)"
    using protocol_constants_length [OF c] assms(7) e' ee by (simp add: era_ok_def d word_le_nat_alt word_gt_0)
  moreover have "write_era_transition d (rows @ [(?k, edge)]) =
      rows @ [(?k, edge\<lparr>er_end := Some e\<rparr>), (protocol_key (et_new_version tr), etd_new_summary d)]"
  proof -
    have new: "?k < protocol_key (et_new_version tr)" using assms(5) by (simp add: protocol_key_less)
    then have "\<forall>k' \<in> fst ` set (rows @ [(?k, prev)]). k' < protocol_key (et_new_version tr)" using keys by auto
    from tbl_insert_newest [OF this] tbl_insert_last [OF keys] show ?thesis
      by (simp add: write_era_transition_def d e'(1) ee)
  qed
  ultimately show thesis using that [of e] e' ee by (simp add: d)
qed

text \<open>
  C21. A hard fork keeps the past. When an era is closed at the starting epoch and the next one is
  opened where it ends, and the summary is read again from the rows the commit wrote, the summary is
  again contiguous, every slot before the boundary keeps its epoch, its place in the epoch and its
  time, and the boundary is the first slot of the starting epoch.
\<close>

theorem era_transition_keeps_past:
  assumes "rows = old @ [(protocol_key (et_prev_version tr), edge)]" and "tbl_ok rows"
    and "load_era_summary (map (apsnd Some) rows) = Some cs" and "chain_ok cs"
    and "collect_era_transition b g n (Some tr) rows = Some (Inr (Some d))"
    and "load_era_summary (map (apsnd Some) (write_era_transition d rows)) = Some cs'"
    and "et_prev_version tr < et_new_version tr" and "eb_epoch (er_start edge) \<le> n"
    and "unat (eb_slot (er_start edge)) + (unat n - unat (eb_epoch (er_start edge))) * unat (er_epoch_length edge) < 2 ^ 64"
    and "er_epoch_length (etd_new_summary d) \<noteq> 0"
  defines "boundary \<equiv> eb_slot (er_start (etd_new_summary d))"
  shows "chain_ok cs' \<and> chain_slot_epoch b cs' boundary = Some (n, 0) \<and>
    (\<forall>s. chain_start cs \<le> s \<and> s < boundary \<longrightarrow>
       chain_slot_epoch b cs' s = chain_slot_epoch b cs s \<and> chain_slot_time b cs' s = chain_slot_time b cs s)"
proof -
  let ?k = "protocol_key (et_prev_version tr)"
  have cs: "cs = \<lparr>cs_past = map snd old, cs_protocols = map (protocol_from_key \<circ> fst) (old @ [(?k, edge)]), cs_edge = Some edge\<rparr>"
    using assms(3) unfolding assms(1) load_era_summary_rows by simp
  with assms(4) have linked: "eras_linked (map snd old) edge" by (simp add: chain_ok_def)
  then have ok: "era_ok edge" using linked_ok by fastforce
  obtain e where e: "closes edge e" "eb_epoch e = n" "er_start (etd_new_summary d) = e" "era_ok (etd_new_summary d)"
      and rows': "write_era_transition d rows =
        (old @ [(?k, edge\<lparr>er_end := Some e\<rparr>)]) @ [(protocol_key (et_new_version tr), etd_new_summary d)]"
    by (rule collect_era_transitionE [OF assms(5)[unfolded assms(1)] assms(2)[unfolded assms(1)] ok assms(8,7,9,10)]) (simp add: assms(1))
  have cs': "cs_past cs' = map snd old @ [edge\<lparr>er_end := Some e\<rparr>]" "cs_edge cs' = Some (etd_new_summary d)"
      "length (cs_protocols cs') = Suc (length (cs_past cs'))"
    using assms(6) unfolding rows' load_era_summary_rows by auto
  have linked': "eras_linked (cs_past cs') (etd_new_summary d)"
    unfolding cs'(1) by (rule eras_linked_snoc [OF linked e(1) refl e(3,4)])
  with cs' have ok': "chain_ok cs'" by (simp add: chain_ok_def)
  have start: "chain_start cs' = chain_start cs"
    by (cases old) (simp_all add: chain_start_def first_era_def cs cs'(1))
  have "chain_start cs' \<le> boundary"
    using linked_first [OF linked', of "etd_new_summary d"] ok' cs'(2) by (auto simp: boundary_def elim!: chain_okE)
  from era_for_slot_at [OF ok' this cs'(2)] have "era_for_slot cs' boundary = Some (etd_new_summary d)"
    using era_at_edge [OF linked'] by (simp add: boundary_def)
  moreover have "era_slot_epoch b (etd_new_summary d) boundary = Some (n, 0)"
    by (rule era_slot_epoch_exact [OF e(4), of boundary b]) (auto simp: boundary_def e(2,3) word_unat_eq_iff)
  ultimately have first: "chain_slot_epoch b cs' boundary = Some (n, 0)" by (simp add: chain_slot_epoch_def)
  have "chain_slot_epoch b cs' s = chain_slot_epoch b cs s \<and> chain_slot_time b cs' s = chain_slot_time b cs s"
    if "chain_start cs \<le> s" "s < boundary" for s
  proof -
    have "era_for_slot cs' s = Some (era_at (map snd old @ [edge\<lparr>er_end := Some e\<rparr>]) (etd_new_summary d) s)"
      using era_for_slot_at [OF ok' _ cs'(2), of s] that start cs'(1) by simp
    moreover have "era_for_slot cs s = Some (era_at (map snd old) edge s)"
      using era_for_slot_at [OF assms(4) that(1)] by (simp add: cs)
    moreover have "s < eb_slot e" using that(2) e(3) by (simp add: boundary_def)
    ultimately show ?thesis
      using era_at_snoc [OF linked, of s e "etd_new_summary d"]
      by (simp add: chain_slot_epoch_def chain_slot_time_def era_slot_epoch_def era_slot_time_def)
  qed
  with ok' first show ?thesis by blast
qed

definition sample_byron_era :: era_summary where
  "sample_byron_era = \<lparr>er_start = \<lparr>eb_epoch = 0, eb_slot = 0, eb_timestamp = 7\<rparr>, er_end = None, er_epoch_length = 100,
     er_slot_length = 20, er_protocol = 1\<rparr>"

definition sample_shelley :: genesis where
  "sample_shelley = sample_genesis\<lparr>gen_shelley := (gen_shelley sample_genesis)\<lparr>sg_epoch_length := Some 50, sg_slot_length := Some 1\<rparr>\<rparr>"

definition sample_fork :: era_transition_data where
  "sample_fork = \<lparr>etd_prev_key = protocol_key 1,
     etd_prev_summary = sample_byron_era\<lparr>er_end := Some \<lparr>eb_epoch = 3, eb_slot = 300, eb_timestamp = 6007\<rparr>\<rparr>,
     etd_new_key = protocol_key 2,
     etd_new_summary = \<lparr>er_start = \<lparr>eb_epoch = 3, eb_slot = 300, eb_timestamp = 6007\<rparr>, er_end = None, er_epoch_length = 50,
       er_slot_length = 1, er_protocol = 2\<rparr>\<rparr>"

theorem era_transition_keeps_past_witness:
  "\<exists>cs'. collect_era_transition \<lparr>strict = True, overflow_checks = True\<rparr> sample_shelley 3 (Some \<lparr>et_prev_version = 1, et_new_version = 2\<rparr>)
      [(protocol_key 1, sample_byron_era)] = Some (Inr (Some sample_fork)) \<and>
    load_era_summary (map (apsnd Some) (write_era_transition sample_fork [(protocol_key 1, sample_byron_era)])) = Some cs' \<and>
    chain_ok cs' \<and> chain_slot_epoch \<lparr>strict = True, overflow_checks = True\<rparr> cs' 300 = Some (3, 0)"
proof -
  let ?b = "\<lparr>strict = True, overflow_checks = True\<rparr>" and ?tr = "\<lparr>et_prev_version = 1, et_new_version = 2\<rparr>"
  let ?rows = "[(protocol_key 1, sample_byron_era)]"
  have collect: "collect_era_transition ?b sample_shelley 3 (Some ?tr) ?rows = Some (Inr (Some sample_fork))"
    by (simp add: collect_era_transition_def tbl_get_def define_end_def sample_byron_era_def sample_fork_def protocol_constants_def
        sample_shelley_def raw_sub_def raw_mul_def raw_add_def checked_sub_def checked_mul_def checked_add_def)
  obtain cs where cs: "load_era_summary (map (apsnd Some) ?rows) = Some cs" "chain_ok cs"
    using load_era_summary_rows [of "[]" "protocol_key 1" sample_byron_era]
    by (simp add: chain_ok_def era_ok_def sample_byron_era_def)
  have less: "protocol_key 1 < protocol_key 2" by (simp add: protocol_key_less)
  then have rows: "write_era_transition sample_fork ?rows = [(protocol_key 1, etd_prev_summary sample_fork)] @ [(protocol_key 2, etd_new_summary sample_fork)]"
    by (auto simp: write_era_transition_def sample_fork_def)
  obtain cs' where cs': "load_era_summary (map (apsnd Some) (write_era_transition sample_fork ?rows)) = Some cs'"
    unfolding rows load_era_summary_rows by blast
  have "chain_ok cs' \<and> chain_slot_epoch ?b cs' (eb_slot (er_start (etd_new_summary sample_fork))) = Some (3, 0)"
    using era_transition_keeps_past [where old = "[]" and edge = sample_byron_era, OF _ _ cs collect cs']
    by (simp add: tbl_ok_def sample_byron_era_def sample_fork_def)
  with collect cs' show ?thesis by (auto simp: sample_fork_def)
qed

text \<open>
  C22. Slots and epochs convert back and forth. In a contiguous summary every slot from the first era
  on has an epoch and a place in it, with no panic and no overflow; the epoch's first slot plus that place
  is the slot again, the place is inside the epoch's length, and looking the era up by the slot or by its epoch
  gives the same era.
\<close>

theorem slot_epoch_roundtrip:
  assumes "chain_ok cs" and "chain_start cs \<le> slot"
  shows "\<exists>e k first era. chain_slot_epoch b cs slot = Some (e, k) \<and> chain_epoch_start b cs e = Some first \<and>
    unat first + unat k = unat slot \<and> chain_slot_epoch b cs first = Some (e, 0) \<and>
    era_for_slot cs slot = Some era \<and> era_for_epoch cs e = Some era \<and> unat k < unat (er_epoch_length era)"
proof -
  obtain era e k where era: "era_for_slot cs slot = Some era" "era_ok era" "era_slot_epoch b era slot = Some (e, k)"
      "chain_slot_epoch b cs slot = Some (e, k)"
      and k: "unat k = (unat slot - unat (eb_slot (er_start era))) mod unat (er_epoch_length era)"
    by (rule chain_slot_epoch_exact [OF assms])
  have "0 < unat (er_epoch_length era)" using era(2) by (simp add: era_ok_def word_less_nat_alt)
  then have "unat k < unat (er_epoch_length era)" by (simp add: k)
  with chain.start_round [OF assms era(4)] era_for_epoch_slot [OF assms era(1,3)] era show ?thesis by blast
qed

definition sample_two_eras :: chain_summary where
  "sample_two_eras = append_era 2 (etd_new_summary sample_fork) (append_era 1 (etd_prev_summary sample_fork) chain_summary_default)"

lemma sample_two_eras_ok: "chain_ok sample_two_eras" "chain_start sample_two_eras = 0"
  by (simp_all add: sample_two_eras_def chain_ok_def append_era_def chain_summary_default_def sample_fork_def sample_byron_era_def
      era_ok_def closes_def chain_start_def first_era_def)

theorem slot_epoch_roundtrip_witness:
  "\<exists>e k first era. chain_slot_epoch \<lparr>strict = True, overflow_checks = True\<rparr> sample_two_eras 370 = Some (e, k) \<and>
    chain_epoch_start \<lparr>strict = True, overflow_checks = True\<rparr> sample_two_eras e = Some first \<and>
    unat first + unat k = 370 \<and> era_for_slot sample_two_eras 370 = Some era \<and> unat k < unat (er_epoch_length era)"
proof -
  have "chain_start sample_two_eras \<le> 370" by (simp add: sample_two_eras_ok(2))
  from slot_epoch_roundtrip [OF sample_two_eras_ok(1) this] show ?thesis by fastforce
qed

text \<open>
  A boundary is reported exactly when two blocks are in different epochs. For two slots in order,
  no boundary is reported when their epochs are equal; otherwise it is the first slot of the later
  epoch, after the first slot and not after the second one.
\<close>

theorem epoch_boundary_exact:
  assumes "chain_ok cs" and "chain_start cs \<le> prev_slot" and "prev_slot \<le> next_slot"
  shows "\<exists>e k e' k'. chain_slot_epoch b cs prev_slot = Some (e, k) \<and> chain_slot_epoch b cs next_slot = Some (e', k') \<and>
    (if e = e' then epoch_boundary b cs prev_slot next_slot = Some None
     else \<exists>first. epoch_boundary b cs prev_slot next_slot = Some (Some (e, first, e')) \<and> e < e' \<and>
       prev_slot < first \<and> first \<le> next_slot \<and> chain_slot_epoch b cs first = Some (e', 0))"
proof -
  from assms(2,3) have next_ok: "chain_start cs \<le> next_slot" by simp
  obtain e k e' k' where e: "chain_slot_epoch b cs prev_slot = Some (e, k)" and e': "chain_slot_epoch b cs next_slot = Some (e', k')"
    using chain.epoch_total [OF assms(1,2), of b] chain.epoch_total [OF assms(1) next_ok, of b] by blast
  obtain first where first: "chain_epoch_start b cs e' = Some first" using chain.start_round [OF assms(1) next_ok e'] by blast
  show ?thesis
    using chain.crossing [OF assms e e' _ first] e e' first by (auto simp: epoch_boundary_def)
qed

theorem epoch_boundary_exact_witness:
  "\<exists>e k e' k'. chain_slot_epoch \<lparr>strict = True, overflow_checks = True\<rparr> sample_two_eras 120 = Some (e, k) \<and>
    chain_slot_epoch \<lparr>strict = True, overflow_checks = True\<rparr> sample_two_eras 370 = Some (e', k') \<and>
    (if e = e' then epoch_boundary \<lparr>strict = True, overflow_checks = True\<rparr> sample_two_eras 120 370 = Some None
     else \<exists>first. epoch_boundary \<lparr>strict = True, overflow_checks = True\<rparr> sample_two_eras 120 370 = Some (Some (e, first, e')) \<and> 120 < first)"
proof -
  have "chain_start sample_two_eras \<le> 120" by (simp add: sample_two_eras_ok(2))
  from epoch_boundary_exact [OF sample_two_eras_ok(1) this, of 370 "\<lparr>strict = True, overflow_checks = True\<rparr>"] show ?thesis
    by (auto split: if_splits)
qed

end
