(* ===== verification/Logs.thy ===== *)
theory Logs
  imports Ledger_Types Entity_Delta "HOL-Library.Product_Lexorder"
begin

text \<open>
  The two log rows the epoch boundary writes to the archive
  (\<^verbatim>\<open>crates/cardano/src/model/logs.rs\<close>). The only float of the ledger model,
  \<^verbatim>\<open>relative_size\<close>, is kept as the pair of integers that are divided, or as nothing
  where the code writes zero.
\<close>

record account_epoch_log =
  ael_active_stake :: "u64 option"
  ael_pool_id :: "pool_hash option"
  ael_member_reward :: "u64 option"
  ael_leader_rewards :: "(pool_hash \<times> u64) list"
  ael_deposit_refunds :: "(pool_hash \<times> u64) list"

definition account_epoch_log_default :: account_epoch_log where
  "account_epoch_log_default = \<lparr>ael_active_stake = None, ael_pool_id = None, ael_member_reward = None,
     ael_leader_rewards = [], ael_deposit_refunds = []\<rparr>"

definition account_epoch_log_ns :: namespace where
  "account_epoch_log_ns = ''account-epochs''"

definition log_is_empty :: "account_epoch_log \<Rightarrow> bool" where
  "log_is_empty row \<longleftrightarrow> ael_active_stake row = None \<and> ael_member_reward row = None \<and>
     ael_leader_rewards row = [] \<and> ael_deposit_refunds row = []"

definition log_sort :: "account_epoch_log \<Rightarrow> account_epoch_log" where
  "log_sort row = row\<lparr>ael_leader_rewards := sort (ael_leader_rewards row),
     ael_deposit_refunds := sort (ael_deposit_refunds row)\<rparr>"

record stake_log =
  sl_blocks_minted :: u64
  sl_total_stake :: u64
  sl_relative_size :: "(u64 \<times> u64) option"
  sl_delegators_count :: u64
  sl_live_pledge :: u64
  sl_declared_pledge :: u64
  sl_total_rewards :: u64
  sl_operator_share :: u64
  sl_fixed_cost :: u64
  sl_margin_cost :: "rational_number option"

definition stake_log_ns :: namespace where
  "stake_log_ns = ''stakes''"

end
