(* ===== verification/Cardano_Delta.thy ===== *)
theory Cardano_Delta
  imports Delta_Views Accounts Pools DReps Pending Datums Assets Epochs Gov Eras Logs
begin

text \<open>
  The sums of the entities and of the deltas (\<^verbatim>\<open>crates/cardano/src/model/mod.rs\<close>) and
  the dispatch of \<^verbatim>\<open>key\<close>, \<^verbatim>\<open>apply\<close> and \<^verbatim>\<open>undo\<close> over them: every
  variant of the deltas and of the entities. The theory shows that the sum keeps the contract of the
  chunk machinery.
\<close>

section \<open>The sums\<close>

datatype (plugins del: quickcheck_random quickcheck_exhaustive quickcheck_bounded_forall quickcheck_full_exhaustive quickcheck_narrowing lifting transfer) cardano_entity =
    AccountState account_state | PoolState pool_state | AssetState asset_state
    | EpochState epoch_state | DRepState drep_state | PendingMirState pending_mir_state
    | PendingRewardState pending_reward_state | DatumState datum_state
    | ProposalState proposal_state | GovState gov_state | EraSummary era_summary
    | StakeLog stake_log | AccountEpochLog account_epoch_log

fun ns_of :: "cardano_entity \<Rightarrow> namespace" where
  "ns_of (AccountState _) = account_ns"
| "ns_of (PoolState _) = pool_ns"
| "ns_of (AssetState _) = asset_ns"
| "ns_of (EpochState _) = epoch_ns"
| "ns_of (DRepState _) = drep_ns"
| "ns_of (PendingMirState _) = pending_mir_ns"
| "ns_of (PendingRewardState _) = pending_reward_ns"
| "ns_of (DatumState _) = datum_ns"
| "ns_of (ProposalState _) = proposal_ns"
| "ns_of (GovState _) = gov_ns"
| "ns_of (EraSummary _) = era_ns"
| "ns_of (StakeLog _) = stake_log_ns"
| "ns_of (AccountEpochLog _) = account_epoch_log_ns"

text \<open>The projections of \<^verbatim>\<open>variant_boilerplate!\<close>.\<close>

fun from_account :: "cardano_entity \<Rightarrow> account_state option" where
  "from_account (AccountState x) = Some x"
| "from_account _ = None"

fun from_pool :: "cardano_entity \<Rightarrow> pool_state option" where
  "from_pool (PoolState x) = Some x"
| "from_pool _ = None"

fun from_asset :: "cardano_entity \<Rightarrow> asset_state option" where
  "from_asset (AssetState x) = Some x"
| "from_asset _ = None"

fun from_epoch :: "cardano_entity \<Rightarrow> epoch_state option" where
  "from_epoch (EpochState x) = Some x"
| "from_epoch _ = None"

fun from_drep :: "cardano_entity \<Rightarrow> drep_state option" where
  "from_drep (DRepState x) = Some x"
| "from_drep _ = None"

fun from_pending_mir :: "cardano_entity \<Rightarrow> pending_mir_state option" where
  "from_pending_mir (PendingMirState x) = Some x"
| "from_pending_mir _ = None"

fun from_pending_reward :: "cardano_entity \<Rightarrow> pending_reward_state option" where
  "from_pending_reward (PendingRewardState x) = Some x"
| "from_pending_reward _ = None"

fun from_datum :: "cardano_entity \<Rightarrow> datum_state option" where
  "from_datum (DatumState x) = Some x"
| "from_datum _ = None"

fun from_proposal :: "cardano_entity \<Rightarrow> proposal_state option" where
  "from_proposal (ProposalState x) = Some x"
| "from_proposal _ = None"

fun from_gov :: "cardano_entity \<Rightarrow> gov_state option" where
  "from_gov (GovState x) = Some x"
| "from_gov _ = None"

fun from_era :: "cardano_entity \<Rightarrow> era_summary option" where
  "from_era (EraSummary x) = Some x"
| "from_era _ = None"

datatype (plugins del: quickcheck_random quickcheck_exhaustive quickcheck_bounded_forall quickcheck_full_exhaustive quickcheck_narrowing lifting transfer) cardano_delta =
    ControlledAmountInc controlled_amount_inc | ControlledAmountDec controlled_amount_dec
    | StakeRegistration stake_registration | StakeDelegation stake_delegation
    | StakeDeregistration stake_deregistration | PoolRegistration pool_registration
    | PoolDeRegistration pool_deregistration | MintedBlocksInc minted_blocks_inc
    | MintStatsUpdate mint_stats_update | MetadataTxUpdate metadata_tx_update
    | EpochStatsUpdate epoch_stats_update | DRepRegistration drep_registration
    | DRepUnRegistration drep_unregistration | DRepActivity drep_activity
    | DRepExpiration drep_expiration | WithdrawalInc withdrawal_inc
    | VoteDelegation vote_delegation | PParamsUpdate pparams_update | NoncesUpdate nonces_update
    | AssignRewards assign_rewards | NonceTransition nonce_transition
    | PoolTransition pool_transition | AccountTransition account_transition
    | PoolDepositRefund pool_deposit_refund | EpochTransition epoch_transition
    | EpochWrapUp epoch_wrap_up | DRepDelegatorDrop drep_delegator_drop
    | PoolDelegatorRetire pool_delegator_retire | PoolWrapUp pool_wrap_up
    | ProposalDepositRefund proposal_deposit_refund | TreasuryWithdrawal treasury_withdrawal
    | EnqueueMir enqueue_mir | DequeueMir dequeue_mir | DatumRefIncrement datum_ref_increment
    | DatumRefDecrement datum_ref_decrement | EnqueueReward enqueue_reward
    | SetEpochIncentives set_epoch_incentives | DequeueReward dequeue_reward
    | EWrapProgress ewrap_progress | EStartProgress estart_progress | RupdProgress rupd_progress
    | EpochWrapUpV2 epoch_wrap_up_v2 | EpochTransitionV2 epoch_transition_v2
    | EpochWrapUpV3 epoch_wrap_up_v3 | DRepAnchorUpdate drep_anchor_update
    | DRepExpiryUpdate drep_expiry_update | DRepDormancyRelease drep_dormancy_release
    | DRepPowerUpdate drep_power_update
    | NewProposal new_proposal | NewProposalV2 new_proposal_v2 | VoteCast vote_cast
    | GovGenesisInit gov_genesis_init | CommitteeAuth committee_auth_delta
    | CommitteeResign committee_resign | GovDormancyReset gov_dormancy_reset
    | CommitteeUpdate committee_update | ConstitutionUpdate constitution_update
    | GovRootsUpdate gov_roots_update | GovDistrAccumulate gov_distr_accumulate
    | GovDormancyTick gov_dormancy_tick | CommitteeGc committee_gc
    | GovDistrRotate gov_distr_rotate | ProposalResolved proposal_resolved
    | GovDistrBoundaryCredit gov_distr_boundary_credit

text \<open>What the dispatch takes from outside the crate.\<close>

record ledger_env =
  env_build :: build
  env_cred_codec :: cred_codec
  env_hash256 :: "bytes \<Rightarrow> hash32"
  env_rolling_nonce :: "hash32 \<Rightarrow> bytes \<Rightarrow> hash32"
  env_genesis_lib :: genesis_lib

fun cardano_key :: "ledger_env \<Rightarrow> cardano_delta \<Rightarrow> ns_key" where
  "cardano_key env (ControlledAmountInc x) = controlled_amount_inc_key (env_cred_codec env) x"
| "cardano_key env (ControlledAmountDec x) = controlled_amount_dec_key (env_cred_codec env) x"
| "cardano_key env (StakeRegistration x) = stake_registration_key (env_cred_codec env) x"
| "cardano_key env (StakeDelegation x) = stake_delegation_key (env_cred_codec env) x"
| "cardano_key env (StakeDeregistration x) = stake_deregistration_key (env_cred_codec env) x"
| "cardano_key env (PoolRegistration x) = pool_registration_key x"
| "cardano_key env (PoolDeRegistration x) = pool_deregistration_key x"
| "cardano_key env (MintedBlocksInc x) = minted_blocks_inc_key x"
| "cardano_key env (MintStatsUpdate x) = mint_stats_update_key (env_hash256 env) x"
| "cardano_key env (MetadataTxUpdate x) = metadata_tx_update_key (env_hash256 env) x"
| "cardano_key env (EpochStatsUpdate x) = epoch_stats_update_key x"
| "cardano_key env (DRepRegistration x) = drep_registration_key x"
| "cardano_key env (DRepUnRegistration x) = drep_unregistration_key x"
| "cardano_key env (DRepActivity x) = drep_activity_key x"
| "cardano_key env (DRepExpiration x) = drep_expiration_key x"
| "cardano_key env (WithdrawalInc x) = withdrawal_inc_key (env_cred_codec env) x"
| "cardano_key env (VoteDelegation x) = vote_delegation_key (env_cred_codec env) x"
| "cardano_key env (PParamsUpdate x) = pparams_update_key x"
| "cardano_key env (NoncesUpdate x) = nonces_update_key x"
| "cardano_key env (AssignRewards x) = assign_rewards_key x"
| "cardano_key env (NonceTransition x) = nonce_transition_key x"
| "cardano_key env (PoolTransition x) = pool_transition_key x"
| "cardano_key env (AccountTransition x) = account_transition_key x"
| "cardano_key env (PoolDepositRefund x) = pool_deposit_refund_key (env_cred_codec env) x"
| "cardano_key env (EpochTransition x) = epoch_transition_key x"
| "cardano_key env (EpochWrapUp x) = epoch_wrap_up_key x"
| "cardano_key env (DRepDelegatorDrop x) = drep_delegator_drop_key x"
| "cardano_key env (PoolDelegatorRetire x) = pool_delegator_retire_key x"
| "cardano_key env (PoolWrapUp x) = pool_wrap_up_key x"
| "cardano_key env (ProposalDepositRefund x) = proposal_deposit_refund_key (env_cred_codec env) x"
| "cardano_key env (TreasuryWithdrawal x) = treasury_withdrawal_key (env_cred_codec env) x"
| "cardano_key env (EnqueueMir x) = enqueue_mir_key (env_cred_codec env) x"
| "cardano_key env (DequeueMir x) = dequeue_mir_key (env_cred_codec env) x"
| "cardano_key env (DatumRefIncrement x) = datum_ref_increment_key x"
| "cardano_key env (DatumRefDecrement x) = datum_ref_decrement_key x"
| "cardano_key env (EnqueueReward x) = enqueue_reward_key (env_cred_codec env) x"
| "cardano_key env (SetEpochIncentives x) = set_epoch_incentives_key x"
| "cardano_key env (DequeueReward x) = dequeue_reward_key (env_cred_codec env) x"
| "cardano_key env (EWrapProgress x) = ewrap_progress_key x"
| "cardano_key env (EStartProgress x) = estart_progress_key x"
| "cardano_key env (RupdProgress x) = rupd_progress_key x"
| "cardano_key env (EpochWrapUpV2 x) = epoch_wrap_up_v2_key x"
| "cardano_key env (EpochTransitionV2 x) = epoch_transition_v2_key x"
| "cardano_key env (EpochWrapUpV3 x) = epoch_wrap_up_v3_key x"
| "cardano_key env (DRepAnchorUpdate x) = drep_anchor_update_key x"
| "cardano_key env (DRepExpiryUpdate x) = drep_expiry_update_key x"
| "cardano_key env (DRepDormancyRelease x) = drep_dormancy_release_key x"
| "cardano_key env (DRepPowerUpdate x) = drep_power_update_key x"
| "cardano_key env (NewProposal x) = new_proposal_key x"
| "cardano_key env (NewProposalV2 x) = new_proposal_v2_key x"
| "cardano_key env (VoteCast x) = vote_cast_key x"
| "cardano_key env (GovGenesisInit x) = gov_genesis_init_key x"
| "cardano_key env (CommitteeAuth x) = committee_auth_key x"
| "cardano_key env (CommitteeResign x) = committee_resign_key x"
| "cardano_key env (GovDormancyReset x) = gov_dormancy_reset_key x"
| "cardano_key env (CommitteeUpdate x) = committee_update_key x"
| "cardano_key env (ConstitutionUpdate x) = constitution_update_key x"
| "cardano_key env (GovRootsUpdate x) = gov_roots_update_key x"
| "cardano_key env (GovDistrAccumulate x) = gov_distr_accumulate_key x"
| "cardano_key env (GovDormancyTick x) = gov_dormancy_tick_key x"
| "cardano_key env (CommitteeGc x) = committee_gc_key x"
| "cardano_key env (GovDistrRotate x) = gov_distr_rotate_key x"
| "cardano_key env (ProposalResolved x) = proposal_resolved_key x"
| "cardano_key env (GovDistrBoundaryCredit x) = gov_distr_boundary_credit_key x"

definition retag :: "('d \<Rightarrow> 'c) \<Rightarrow> ('d \<times> 'e) option \<Rightarrow> ('c \<times> 'e) option" where
  "retag c r = map_option (\<lambda>(d, e). (c d, e)) r"

fun cardano_apply :: "ledger_env \<Rightarrow> (cardano_delta, cardano_entity) apply_fn" where
  "cardano_apply env (ControlledAmountInc x) e =
     retag ControlledAmountInc (downcast_apply from_account AccountState (controlled_amount_inc_apply (env_build env)) x e)"
| "cardano_apply env (ControlledAmountDec x) e =
     retag ControlledAmountDec (downcast_apply from_account AccountState (controlled_amount_dec_apply (env_build env)) x e)"
| "cardano_apply env (StakeRegistration x) e =
     retag StakeRegistration (downcast_apply from_account AccountState stake_registration_apply x e)"
| "cardano_apply env (StakeDelegation x) e =
     retag StakeDelegation (downcast_apply from_account AccountState (stake_delegation_apply (env_build env)) x e)"
| "cardano_apply env (StakeDeregistration x) e =
     retag StakeDeregistration (downcast_apply from_account AccountState (stake_deregistration_apply (env_build env)) x e)"
| "cardano_apply env (PoolRegistration x) e =
     retag PoolRegistration (downcast_apply from_pool PoolState (pool_registration_apply (env_build env)) x e)"
| "cardano_apply env (PoolDeRegistration x) e =
     retag PoolDeRegistration (downcast_apply from_pool PoolState pool_deregistration_apply x e)"
| "cardano_apply env (MintedBlocksInc x) e =
     retag MintedBlocksInc (downcast_apply from_pool PoolState (minted_blocks_inc_apply (env_build env)) x e)"
| "cardano_apply env (MintStatsUpdate x) e =
     retag MintStatsUpdate (downcast_apply from_asset AssetState (mint_stats_update_apply (env_build env)) x e)"
| "cardano_apply env (MetadataTxUpdate x) e =
     retag MetadataTxUpdate (downcast_apply from_asset AssetState metadata_tx_update_apply x e)"
| "cardano_apply env (EpochStatsUpdate x) e =
     retag EpochStatsUpdate (downcast_apply from_epoch EpochState (epoch_stats_update_apply (env_build env)) x e)"
| "cardano_apply env (DRepRegistration x) e =
     retag DRepRegistration (downcast_apply from_drep DRepState drep_registration_apply x e)"
| "cardano_apply env (DRepUnRegistration x) e =
     retag DRepUnRegistration (downcast_apply from_drep DRepState drep_unregistration_apply x e)"
| "cardano_apply env (DRepActivity x) e =
     retag DRepActivity (downcast_apply from_drep DRepState drep_activity_apply x e)"
| "cardano_apply env (DRepExpiration x) e =
     retag DRepExpiration (downcast_apply from_drep DRepState drep_expiration_apply x e)"
| "cardano_apply env (WithdrawalInc x) e =
     retag WithdrawalInc (downcast_apply from_account AccountState (withdrawal_inc_apply (env_build env)) x e)"
| "cardano_apply env (VoteDelegation x) e =
     retag VoteDelegation (downcast_apply from_account AccountState (vote_delegation_apply (env_build env)) x e)"
| "cardano_apply env (PParamsUpdate x) e =
     retag PParamsUpdate (downcast_apply from_epoch EpochState pparams_update_apply x e)"
| "cardano_apply env (NoncesUpdate x) e =
     retag NoncesUpdate (downcast_apply from_epoch EpochState (nonces_update_apply (env_rolling_nonce env)) x e)"
| "cardano_apply env (AssignRewards x) e =
     retag AssignRewards (downcast_apply from_account AccountState (assign_rewards_apply (env_build env)) x e)"
| "cardano_apply env (NonceTransition x) e =
     retag NonceTransition (downcast_apply from_epoch EpochState nonce_transition_apply x e)"
| "cardano_apply env (PoolTransition x) e =
     retag PoolTransition (downcast_apply from_pool PoolState (pool_transition_apply (env_build env)) x e)"
| "cardano_apply env (AccountTransition x) e =
     retag AccountTransition (downcast_apply from_account AccountState (account_transition_apply (env_build env)) x e)"
| "cardano_apply env (PoolDepositRefund x) e =
     retag PoolDepositRefund (downcast_apply from_account AccountState (pool_deposit_refund_apply (env_build env)) x e)"
| "cardano_apply env (EpochTransition x) e =
     retag EpochTransition (downcast_apply from_epoch EpochState (epoch_transition_apply (env_build env) (env_genesis_lib env)) x e)"
| "cardano_apply env (EpochWrapUp x) e =
     retag EpochWrapUp (downcast_apply from_epoch EpochState epoch_wrap_up_apply x e)"
| "cardano_apply env (DRepDelegatorDrop x) e =
     retag DRepDelegatorDrop (downcast_apply from_account AccountState (drep_delegator_drop_apply (env_build env)) x e)"
| "cardano_apply env (PoolDelegatorRetire x) e =
     retag PoolDelegatorRetire (downcast_apply from_account AccountState (pool_delegator_retire_apply (env_build env)) x e)"
| "cardano_apply env (PoolWrapUp x) e =
     retag PoolWrapUp (downcast_apply from_pool PoolState pool_wrap_up_apply x e)"
| "cardano_apply env (ProposalDepositRefund x) e =
     retag ProposalDepositRefund (downcast_apply from_account AccountState (proposal_deposit_refund_apply (env_build env)) x e)"
| "cardano_apply env (TreasuryWithdrawal x) e =
     retag TreasuryWithdrawal (downcast_apply from_account AccountState (treasury_withdrawal_apply (env_build env)) x e)"
| "cardano_apply env (EnqueueMir x) e =
     retag EnqueueMir (downcast_apply from_pending_mir PendingMirState (enqueue_mir_apply (env_build env)) x e)"
| "cardano_apply env (DequeueMir x) e =
     retag DequeueMir (downcast_apply from_pending_mir PendingMirState dequeue_mir_apply x e)"
| "cardano_apply env (DatumRefIncrement x) e =
     retag DatumRefIncrement (downcast_apply from_datum DatumState datum_ref_increment_apply x e)"
| "cardano_apply env (DatumRefDecrement x) e =
     retag DatumRefDecrement (downcast_apply from_datum DatumState datum_ref_decrement_apply x e)"
| "cardano_apply env (EnqueueReward x) e =
     retag EnqueueReward (downcast_apply from_pending_reward PendingRewardState enqueue_reward_apply x e)"
| "cardano_apply env (SetEpochIncentives x) e =
     retag SetEpochIncentives (downcast_apply from_epoch EpochState set_epoch_incentives_apply x e)"
| "cardano_apply env (DequeueReward x) e =
     retag DequeueReward (downcast_apply from_pending_reward PendingRewardState dequeue_reward_apply x e)"
| "cardano_apply env (EWrapProgress x) e =
     retag EWrapProgress (downcast_apply from_epoch EpochState (ewrap_progress_apply (env_build env)) x e)"
| "cardano_apply env (EStartProgress x) e =
     retag EStartProgress (downcast_apply from_epoch EpochState (estart_progress_apply (env_build env)) x e)"
| "cardano_apply env (RupdProgress x) e =
     retag RupdProgress (downcast_apply from_epoch EpochState (rupd_progress_apply (env_build env)) x e)"
| "cardano_apply env (EpochWrapUpV2 x) e =
     retag EpochWrapUpV2 (downcast_apply from_epoch EpochState epoch_wrap_up_v2_apply x e)"
| "cardano_apply env (EpochTransitionV2 x) e =
     retag EpochTransitionV2 (downcast_apply from_epoch EpochState (epoch_transition_v2_apply (env_build env) (env_genesis_lib env)) x e)"
| "cardano_apply env (EpochWrapUpV3 x) e =
     retag EpochWrapUpV3 (downcast_apply from_epoch EpochState epoch_wrap_up_v3_apply x e)"
| "cardano_apply env (DRepAnchorUpdate x) e =
     retag DRepAnchorUpdate (downcast_apply from_drep DRepState drep_anchor_update_apply x e)"
| "cardano_apply env (DRepExpiryUpdate x) e =
     retag DRepExpiryUpdate (downcast_apply from_drep DRepState drep_expiry_update_apply x e)"
| "cardano_apply env (DRepDormancyRelease x) e =
     retag DRepDormancyRelease (downcast_apply from_drep DRepState (drep_dormancy_release_apply (env_build env)) x e)"
| "cardano_apply env (DRepPowerUpdate x) e =
     retag DRepPowerUpdate (downcast_apply from_drep DRepState drep_power_update_apply x e)"
| "cardano_apply env (NewProposal x) e =
     retag NewProposal (downcast_apply from_proposal ProposalState (new_proposal_apply (env_build env)) x e)"
| "cardano_apply env (NewProposalV2 x) e =
     retag NewProposalV2 (downcast_apply from_proposal ProposalState (new_proposal_v2_apply (env_build env)) x e)"
| "cardano_apply env (VoteCast x) e =
     retag VoteCast (downcast_apply from_proposal ProposalState vote_cast_apply x e)"
| "cardano_apply env (GovGenesisInit x) e =
     retag GovGenesisInit (downcast_apply from_gov GovState gov_genesis_init_apply x e)"
| "cardano_apply env (CommitteeAuth x) e =
     retag CommitteeAuth (downcast_apply from_gov GovState committee_auth_apply x e)"
| "cardano_apply env (CommitteeResign x) e =
     retag CommitteeResign (downcast_apply from_gov GovState committee_resign_apply x e)"
| "cardano_apply env (GovDormancyReset x) e =
     retag GovDormancyReset (downcast_apply from_gov GovState gov_dormancy_reset_apply x e)"
| "cardano_apply env (CommitteeUpdate x) e =
     retag CommitteeUpdate (downcast_apply from_gov GovState committee_update_apply x e)"
| "cardano_apply env (ConstitutionUpdate x) e =
     retag ConstitutionUpdate (downcast_apply from_gov GovState constitution_update_apply x e)"
| "cardano_apply env (GovRootsUpdate x) e =
     retag GovRootsUpdate (downcast_apply from_gov GovState gov_roots_update_apply x e)"
| "cardano_apply env (GovDistrAccumulate x) e =
     retag GovDistrAccumulate (downcast_apply from_gov GovState (gov_distr_accumulate_apply (env_build env)) x e)"
| "cardano_apply env (GovDormancyTick x) e =
     retag GovDormancyTick (downcast_apply from_gov GovState (gov_dormancy_tick_apply (env_build env)) x e)"
| "cardano_apply env (CommitteeGc x) e =
     retag CommitteeGc (downcast_apply from_gov GovState committee_gc_apply x e)"
| "cardano_apply env (GovDistrRotate x) e =
     retag GovDistrRotate (downcast_apply from_gov GovState gov_distr_rotate_apply x e)"
| "cardano_apply env (ProposalResolved x) e =
     retag ProposalResolved (downcast_apply from_proposal ProposalState (proposal_resolved_apply (env_build env)) x e)"
| "cardano_apply env (GovDistrBoundaryCredit x) e =
     retag GovDistrBoundaryCredit (downcast_apply from_gov GovState (gov_distr_boundary_credit_apply (env_build env)) x e)"

fun cardano_undo :: "ledger_env \<Rightarrow> (cardano_delta, cardano_entity) undo_fn" where
  "cardano_undo env (ControlledAmountInc x) e =
     downcast_undo from_account AccountState controlled_amount_inc_undo x e"
| "cardano_undo env (ControlledAmountDec x) e =
     downcast_undo from_account AccountState controlled_amount_dec_undo x e"
| "cardano_undo env (StakeRegistration x) e =
     downcast_undo from_account AccountState stake_registration_undo x e"
| "cardano_undo env (StakeDelegation x) e =
     downcast_undo from_account AccountState stake_delegation_undo x e"
| "cardano_undo env (StakeDeregistration x) e =
     downcast_undo from_account AccountState stake_deregistration_undo x e"
| "cardano_undo env (PoolRegistration x) e =
     downcast_undo from_pool PoolState pool_registration_undo x e"
| "cardano_undo env (PoolDeRegistration x) e =
     downcast_undo from_pool PoolState pool_deregistration_undo x e"
| "cardano_undo env (MintedBlocksInc x) e =
     downcast_undo from_pool PoolState (minted_blocks_inc_undo (env_build env)) x e"
| "cardano_undo env (MintStatsUpdate x) e =
     downcast_undo from_asset AssetState (mint_stats_update_undo (env_build env)) x e"
| "cardano_undo env (MetadataTxUpdate x) e =
     downcast_undo from_asset AssetState metadata_tx_update_undo x e"
| "cardano_undo env (EpochStatsUpdate x) e =
     downcast_undo from_epoch EpochState (epoch_stats_update_undo (env_build env)) x e"
| "cardano_undo env (DRepRegistration x) e =
     downcast_undo from_drep DRepState drep_registration_undo x e"
| "cardano_undo env (DRepUnRegistration x) e =
     downcast_undo from_drep DRepState drep_unregistration_undo x e"
| "cardano_undo env (DRepActivity x) e =
     downcast_undo from_drep DRepState drep_activity_undo x e"
| "cardano_undo env (DRepExpiration x) e =
     downcast_undo from_drep DRepState drep_expiration_undo x e"
| "cardano_undo env (WithdrawalInc x) e =
     downcast_undo from_account AccountState withdrawal_inc_undo x e"
| "cardano_undo env (VoteDelegation x) e =
     downcast_undo from_account AccountState vote_delegation_undo x e"
| "cardano_undo env (PParamsUpdate x) e =
     downcast_undo from_epoch EpochState pparams_update_undo x e"
| "cardano_undo env (NoncesUpdate x) e =
     downcast_undo from_epoch EpochState nonces_update_undo x e"
| "cardano_undo env (AssignRewards x) e =
     downcast_undo from_account AccountState assign_rewards_undo x e"
| "cardano_undo env (NonceTransition x) e =
     downcast_undo from_epoch EpochState nonce_transition_undo x e"
| "cardano_undo env (PoolTransition x) e =
     downcast_undo from_pool PoolState pool_transition_undo x e"
| "cardano_undo env (AccountTransition x) e =
     downcast_undo from_account AccountState account_transition_undo x e"
| "cardano_undo env (PoolDepositRefund x) e =
     downcast_undo from_account AccountState pool_deposit_refund_undo x e"
| "cardano_undo env (EpochTransition x) e =
     downcast_undo from_epoch EpochState epoch_transition_undo x e"
| "cardano_undo env (EpochWrapUp x) e =
     downcast_undo from_epoch EpochState epoch_wrap_up_undo x e"
| "cardano_undo env (DRepDelegatorDrop x) e =
     downcast_undo from_account AccountState drep_delegator_drop_undo x e"
| "cardano_undo env (PoolDelegatorRetire x) e =
     downcast_undo from_account AccountState pool_delegator_retire_undo x e"
| "cardano_undo env (PoolWrapUp x) e =
     downcast_undo from_pool PoolState pool_wrap_up_undo x e"
| "cardano_undo env (ProposalDepositRefund x) e =
     downcast_undo from_account AccountState proposal_deposit_refund_undo x e"
| "cardano_undo env (TreasuryWithdrawal x) e =
     downcast_undo from_account AccountState treasury_withdrawal_undo x e"
| "cardano_undo env (EnqueueMir x) e =
     downcast_undo from_pending_mir PendingMirState enqueue_mir_undo x e"
| "cardano_undo env (DequeueMir x) e =
     downcast_undo from_pending_mir PendingMirState dequeue_mir_undo x e"
| "cardano_undo env (DatumRefIncrement x) e =
     downcast_undo from_datum DatumState datum_ref_increment_undo x e"
| "cardano_undo env (DatumRefDecrement x) e =
     downcast_undo from_datum DatumState datum_ref_decrement_undo x e"
| "cardano_undo env (EnqueueReward x) e =
     downcast_undo from_pending_reward PendingRewardState enqueue_reward_undo x e"
| "cardano_undo env (SetEpochIncentives x) e =
     downcast_undo from_epoch EpochState set_epoch_incentives_undo x e"
| "cardano_undo env (DequeueReward x) e =
     downcast_undo from_pending_reward PendingRewardState dequeue_reward_undo x e"
| "cardano_undo env (EWrapProgress x) e =
     downcast_undo from_epoch EpochState (ewrap_progress_undo (env_build env)) x e"
| "cardano_undo env (EStartProgress x) e =
     downcast_undo from_epoch EpochState estart_progress_undo x e"
| "cardano_undo env (RupdProgress x) e =
     downcast_undo from_epoch EpochState rupd_progress_undo x e"
| "cardano_undo env (EpochWrapUpV2 x) e =
     downcast_undo from_epoch EpochState epoch_wrap_up_v2_undo x e"
| "cardano_undo env (EpochTransitionV2 x) e =
     downcast_undo from_epoch EpochState epoch_transition_v2_undo x e"
| "cardano_undo env (EpochWrapUpV3 x) e =
     downcast_undo from_epoch EpochState epoch_wrap_up_v3_undo x e"
| "cardano_undo env (DRepAnchorUpdate x) e =
     downcast_undo from_drep DRepState drep_anchor_update_undo x e"
| "cardano_undo env (DRepExpiryUpdate x) e =
     downcast_undo from_drep DRepState drep_expiry_update_undo x e"
| "cardano_undo env (DRepDormancyRelease x) e =
     downcast_undo from_drep DRepState drep_dormancy_release_undo x e"
| "cardano_undo env (DRepPowerUpdate x) e =
     downcast_undo from_drep DRepState drep_power_update_undo x e"
| "cardano_undo env (NewProposal x) e =
     downcast_undo from_proposal ProposalState new_proposal_undo x e"
| "cardano_undo env (NewProposalV2 x) e =
     downcast_undo from_proposal ProposalState new_proposal_v2_undo x e"
| "cardano_undo env (VoteCast x) e =
     downcast_undo from_proposal ProposalState vote_cast_undo x e"
| "cardano_undo env (GovGenesisInit x) e =
     downcast_undo from_gov GovState gov_genesis_init_undo x e"
| "cardano_undo env (CommitteeAuth x) e =
     downcast_undo from_gov GovState committee_auth_undo x e"
| "cardano_undo env (CommitteeResign x) e =
     downcast_undo from_gov GovState committee_resign_undo x e"
| "cardano_undo env (GovDormancyReset x) e =
     downcast_undo from_gov GovState gov_dormancy_reset_undo x e"
| "cardano_undo env (CommitteeUpdate x) e =
     downcast_undo from_gov GovState committee_update_undo x e"
| "cardano_undo env (ConstitutionUpdate x) e =
     downcast_undo from_gov GovState constitution_update_undo x e"
| "cardano_undo env (GovRootsUpdate x) e =
     downcast_undo from_gov GovState gov_roots_update_undo x e"
| "cardano_undo env (GovDistrAccumulate x) e =
     downcast_undo from_gov GovState gov_distr_accumulate_undo x e"
| "cardano_undo env (GovDormancyTick x) e =
     downcast_undo from_gov GovState gov_dormancy_tick_undo x e"
| "cardano_undo env (CommitteeGc x) e =
     downcast_undo from_gov GovState committee_gc_undo x e"
| "cardano_undo env (GovDistrRotate x) e =
     downcast_undo from_gov GovState gov_distr_rotate_undo x e"
| "cardano_undo env (ProposalResolved x) e =
     downcast_undo from_proposal ProposalState proposal_resolved_undo x e"
| "cardano_undo env (GovDistrBoundaryCredit x) e =
     downcast_undo from_gov GovState gov_distr_boundary_credit_undo x e"

text \<open>
  A delta as the write-ahead log gives it back: \<^verbatim>\<open>#[serde(skip)]\<close> fields have their
  default.
\<close>

fun cardano_stored :: "cardano_delta \<Rightarrow> cardano_delta" where
  "cardano_stored (MintedBlocksInc x) = MintedBlocksInc (minted_blocks_inc_stored x)"
| "cardano_stored (EpochTransition x) = EpochTransition (epoch_transition_stored x)"
| "cardano_stored (EpochTransitionV2 x) = EpochTransitionV2 (epoch_transition_v2_stored x)"
| "cardano_stored d = d"

text \<open>
  What reversing needs of a delta when it is applied (its constructor's values in the undo fields
  that \<^verbatim>\<open>apply\<close> does not always write) and of the entity it meets.
\<close>

fun cardano_fresh :: "cardano_delta \<Rightarrow> bool" where
  "cardano_fresh (PoolRegistration x) = (\<not> pr_was_new x)"
| "cardano_fresh (DatumRefDecrement x) = (drd_prev_state x = None)"
| "cardano_fresh (NoncesUpdate x) = (nu_previous x = None)"
| "cardano_fresh (EWrapProgress x) = (\<not> ewp_applied x)"
| "cardano_fresh (EStartProgress x) = (\<not> esp_applied x)"
| "cardano_fresh (RupdProgress x) = (\<not> rup_applied x)"
| "cardano_fresh (GovDistrAccumulate x) = (\<not> gda_applied x)"
| "cardano_fresh (GovDistrBoundaryCredit x) = (\<not> gbc_applied x)"
| "cardano_fresh _ = True"

fun cardano_ok :: "cardano_delta \<Rightarrow> cardano_entity option \<Rightarrow> bool" where
  "cardano_ok (DatumRefIncrement x) e = count_not_full x (Option.bind e from_datum)"
| "cardano_ok _ _ = True"

section \<open>The sum keeps the contract\<close>

lemma retag_Some [panic_simps]: "(retag c r = Some (d, e)) \<longleftrightarrow> (\<exists>d'. r = Some (d', e) \<and> d = c d')"
  by (auto simp: retag_def)

lemmas cardano_key_defs =
  account_cred_key_def pool_hash_key_def datum_hash_key_def asset_key_def epoch_singleton_key_def
  epoch_key_defs proposal_key_defs gov_key_defs gov_singleton_key_def
  controlled_amount_inc_key_def controlled_amount_dec_key_def stake_registration_key_def
  stake_delegation_key_def stake_deregistration_key_def pool_registration_key_def
  pool_deregistration_key_def minted_blocks_inc_key_def mint_stats_update_key_def
  metadata_tx_update_key_def drep_registration_key_def drep_unregistration_key_def
  drep_activity_key_def drep_expiration_key_def withdrawal_inc_key_def vote_delegation_key_def
  assign_rewards_key_def pool_transition_key_def account_transition_key_def
  pool_deposit_refund_key_def drep_delegator_drop_key_def pool_delegator_retire_key_def
  pool_wrap_up_key_def proposal_deposit_refund_key_def treasury_withdrawal_key_def
  enqueue_mir_key_def dequeue_mir_key_def datum_ref_increment_key_def
  datum_ref_decrement_key_def enqueue_reward_key_def dequeue_reward_key_def
  drep_anchor_update_key_def drep_expiry_update_key_def drep_dormancy_release_key_def
  drep_power_update_key_def

lemma typed_cases:
  "typed ns_of account_ns e \<Longrightarrow> e = None \<or> (\<exists>x. e = Some (AccountState x))"
  "typed ns_of pool_ns e \<Longrightarrow> e = None \<or> (\<exists>x. e = Some (PoolState x))"
  "typed ns_of asset_ns e \<Longrightarrow> e = None \<or> (\<exists>x. e = Some (AssetState x))"
  "typed ns_of epoch_ns e \<Longrightarrow> e = None \<or> (\<exists>x. e = Some (EpochState x))"
  "typed ns_of drep_ns e \<Longrightarrow> e = None \<or> (\<exists>x. e = Some (DRepState x))"
  "typed ns_of pending_mir_ns e \<Longrightarrow> e = None \<or> (\<exists>x. e = Some (PendingMirState x))"
  "typed ns_of pending_reward_ns e \<Longrightarrow> e = None \<or> (\<exists>x. e = Some (PendingRewardState x))"
  "typed ns_of datum_ns e \<Longrightarrow> e = None \<or> (\<exists>x. e = Some (DatumState x))"
  "typed ns_of proposal_ns e \<Longrightarrow> e = None \<or> (\<exists>x. e = Some (ProposalState x))"
  "typed ns_of gov_ns e \<Longrightarrow> e = None \<or> (\<exists>x. e = Some (GovState x))"
  "typed ns_of era_ns e \<Longrightarrow> e = None \<or> (\<exists>x. e = Some (EraSummary x))"
  by (cases e; auto simp: typed_def account_ns_def pool_ns_def asset_ns_def epoch_ns_def drep_ns_def pending_mir_ns_def pending_reward_ns_def datum_ns_def proposal_ns_def gov_ns_def
    era_ns_def stake_log_ns_def account_epoch_log_ns_def elim!: ns_of.elims)+

lemmas downcast_keys =
  controlled_amount_inc.downcast_key controlled_amount_dec.downcast_key
  stake_registration.downcast_key stake_delegation.downcast_key
  stake_deregistration.downcast_key pool_registration.downcast_key
  pool_deregistration.downcast_key minted_blocks_inc.downcast_key
  mint_stats_update.downcast_key metadata_tx_update.downcast_key
  epoch_stats_update.downcast_key drep_registration.downcast_key
  drep_unregistration.downcast_key drep_activity.downcast_key drep_expiration.downcast_key
  withdrawal_inc.downcast_key vote_delegation.downcast_key pparams_update.downcast_key
  nonces_update.downcast_key assign_rewards.downcast_key nonce_transition.downcast_key
  pool_transition.downcast_key account_transition.downcast_key
  pool_deposit_refund.downcast_key epoch_transition.downcast_key epoch_wrap_up.downcast_key
  drep_delegator_drop.downcast_key pool_delegator_retire.downcast_key
  pool_wrap_up.downcast_key proposal_deposit_refund.downcast_key
  treasury_withdrawal.downcast_key enqueue_mir.downcast_key dequeue_mir.downcast_key
  datum_ref_increment.downcast_key datum_ref_decrement.downcast_key
  enqueue_reward.downcast_key set_epoch_incentives.downcast_key dequeue_reward.downcast_key
  ewrap_progress.downcast_key estart_progress.downcast_key rupd_progress.downcast_key
  epoch_wrap_up_v2.downcast_key epoch_transition_v2.downcast_key epoch_wrap_up_v3.downcast_key
  drep_anchor_update.downcast_key drep_expiry_update.downcast_key
  drep_dormancy_release.downcast_key drep_power_update.downcast_key
  new_proposal.downcast_key new_proposal_v2.downcast_key vote_cast.downcast_key gov_genesis_init.downcast_key
  committee_auth.downcast_key committee_resign.downcast_key gov_dormancy_reset.downcast_key
  committee_update.downcast_key constitution_update.downcast_key gov_roots_update.downcast_key
  gov_distr_accumulate.downcast_key gov_dormancy_tick.downcast_key committee_gc.downcast_key
  gov_distr_rotate.downcast_key proposal_resolved.downcast_key gov_distr_boundary_credit.downcast_key

lemmas downcast_ranges =
  controlled_amount_inc.downcast_range controlled_amount_dec.downcast_range
  stake_registration.downcast_range stake_delegation.downcast_range
  stake_deregistration.downcast_range pool_registration.downcast_range
  pool_deregistration.downcast_range minted_blocks_inc.downcast_range
  mint_stats_update.downcast_range metadata_tx_update.downcast_range
  epoch_stats_update.downcast_range drep_registration.downcast_range
  drep_unregistration.downcast_range drep_activity.downcast_range
  drep_expiration.downcast_range withdrawal_inc.downcast_range vote_delegation.downcast_range
  pparams_update.downcast_range nonces_update.downcast_range assign_rewards.downcast_range
  nonce_transition.downcast_range pool_transition.downcast_range
  account_transition.downcast_range pool_deposit_refund.downcast_range
  epoch_transition.downcast_range epoch_wrap_up.downcast_range
  drep_delegator_drop.downcast_range pool_delegator_retire.downcast_range
  pool_wrap_up.downcast_range proposal_deposit_refund.downcast_range
  treasury_withdrawal.downcast_range enqueue_mir.downcast_range dequeue_mir.downcast_range
  datum_ref_increment.downcast_range datum_ref_decrement.downcast_range
  enqueue_reward.downcast_range set_epoch_incentives.downcast_range
  dequeue_reward.downcast_range ewrap_progress.downcast_range estart_progress.downcast_range
  rupd_progress.downcast_range epoch_wrap_up_v2.downcast_range
  epoch_transition_v2.downcast_range epoch_wrap_up_v3.downcast_range
  drep_anchor_update.downcast_range drep_expiry_update.downcast_range
  drep_dormancy_release.downcast_range drep_power_update.downcast_range
  new_proposal.downcast_range new_proposal_v2.downcast_range vote_cast.downcast_range
  gov_genesis_init.downcast_range committee_auth.downcast_range committee_resign.downcast_range
  gov_dormancy_reset.downcast_range committee_update.downcast_range constitution_update.downcast_range
  gov_roots_update.downcast_range gov_distr_accumulate.downcast_range gov_dormancy_tick.downcast_range
  committee_gc.downcast_range gov_distr_rotate.downcast_range proposal_resolved.downcast_range
  gov_distr_boundary_credit.downcast_range

lemma cardano_key_apply:
  "cardano_apply env d e = Some (d', e') \<Longrightarrow> cardano_key env d' = cardano_key env d"
  by (cases d) (auto simp: panic_simps dest: downcast_keys)

lemmas downcast_undos =
  controlled_amount_inc.downcast_reversible controlled_amount_dec.downcast_reversible
  stake_registration.downcast_reversible stake_delegation.downcast_reversible
  stake_deregistration.downcast_reversible pool_registration.downcast_reversible
  pool_deregistration.downcast_reversible minted_blocks_inc.downcast_reversible
  mint_stats_update.downcast_reversible metadata_tx_update.downcast_reversible
  epoch_stats_update.downcast_reversible drep_registration.downcast_reversible
  drep_unregistration.downcast_reversible drep_activity.downcast_reversible
  drep_expiration.downcast_reversible withdrawal_inc.downcast_reversible
  vote_delegation.downcast_reversible pparams_update.downcast_reversible
  nonces_update.downcast_reversible assign_rewards.downcast_reversible
  nonce_transition.downcast_reversible pool_transition.downcast_reversible
  account_transition.downcast_reversible pool_deposit_refund.downcast_reversible
  epoch_transition.downcast_reversible epoch_wrap_up.downcast_reversible
  drep_delegator_drop.downcast_reversible pool_delegator_retire.downcast_reversible
  pool_wrap_up.downcast_reversible proposal_deposit_refund.downcast_reversible
  treasury_withdrawal.downcast_reversible enqueue_mir.downcast_reversible
  dequeue_mir.downcast_reversible datum_ref_increment.downcast_reversible
  datum_ref_decrement.downcast_reversible enqueue_reward.downcast_reversible
  set_epoch_incentives.downcast_reversible dequeue_reward.downcast_reversible
  ewrap_progress.downcast_reversible estart_progress.downcast_reversible
  rupd_progress.downcast_reversible epoch_wrap_up_v2.downcast_reversible
  epoch_transition_v2.downcast_reversible epoch_wrap_up_v3.downcast_reversible
  drep_anchor_update.downcast_reversible drep_expiry_update.downcast_reversible
  drep_dormancy_release.downcast_reversible drep_power_update.downcast_reversible
  new_proposal.downcast_reversible new_proposal_v2.downcast_reversible vote_cast.downcast_reversible
  gov_genesis_init.downcast_reversible committee_auth.downcast_reversible
  committee_resign.downcast_reversible gov_dormancy_reset.downcast_reversible
  committee_update.downcast_reversible constitution_update.downcast_reversible
  gov_roots_update.downcast_reversible gov_distr_accumulate.downcast_reversible
  gov_dormancy_tick.downcast_reversible committee_gc.downcast_reversible gov_distr_rotate.downcast_reversible
  proposal_resolved.downcast_reversible gov_distr_boundary_credit.downcast_reversible

lemma cardano_typed_apply:
  "typed ns_of (fst (cardano_key env d)) e \<Longrightarrow> cardano_apply env d e = Some (d', e')
    \<Longrightarrow> typed ns_of (fst (cardano_key env d)) e'"
  by (cases d) (auto simp: panic_simps typed_def cardano_key_defs dest!: downcast_ranges)

lemma downcast_stored_undo:
  "downcast_undo f i (minted_blocks_inc_undo b) (minted_blocks_inc_stored x) = downcast_undo f i (minted_blocks_inc_undo b) x"
  "downcast_undo f' i' epoch_transition_undo (epoch_transition_stored y) = downcast_undo f' i' epoch_transition_undo y"
  "downcast_undo f' i' epoch_transition_v2_undo (epoch_transition_v2_stored z) = downcast_undo f' i' epoch_transition_v2_undo z"
  by (simp_all add: fun_eq_iff downcast_undo_def minted_blocks_inc_stored_undo epoch_transition_stored_undo)

lemma cardano_stored_undo: "cardano_undo env (cardano_stored d) e = cardano_undo env d e"
  by (cases d) (simp_all add: downcast_stored_undo)

lemma cardano_stored_key: "cardano_key env (cardano_stored d) = cardano_key env d"
  by (cases d) (simp_all add: minted_blocks_inc_stored_key epoch_key_defs)

lemma cardano_undo_apply:
  assumes "cardano_fresh d" and "cardano_ok d e" and "typed ns_of (fst (cardano_key env d)) e"
    and "cardano_apply env d e = Some (d', e')"
  shows "cardano_undo env d' e' = Some e"
  using assms
  by (cases d)
    (auto simp: panic_simps cardano_key_defs dest!: typed_cases intro!: downcast_undos)

interpretation cardano: delta_system "cardano_key env" "cardano_apply env" "cardano_undo env"
  cardano_fresh cardano_ok ns_of cardano_stored
  by unfold_locales
    (simp_all add: cardano_key_apply cardano_typed_apply cardano_stored_undo cardano_stored_key cardano_undo_apply)

section \<open>Properties\<close>

text \<open>
  C4. A chunk of ledger deltas can be undone from the log. When the deltas of a chunk, as their
  constructors made them, are applied to the entities of a well-typed store and saved, and the log
  gives the applied deltas back (without the fields it does not store), undoing the chunk in reverse
  over the saved store and saving again restores the store, for all the modelled variants together.
\<close>

theorem cardano_chunk_undo_restores:
  fixes env :: ledger_env
  assumes "typed_table ns_of store"
    and "run_ok (cardano_key env) (cardano_apply env) cardano_fresh cardano_ok store ds"
    and "apply_delta_chunk (cardano_key env) (cardano_apply env) [] (table_reader store) ds = Some (Inr (m, ds'))"
  shows "\<exists>m'. undo_delta_chunk (cardano_key env) (cardano_undo env) [] (table_reader (save_entities ns_of m store))
      (map cardano_stored ds') = Some (Inr m') \<and> save_entities ns_of m' (save_entities ns_of m store) = store"
  using assms by (rule cardano.chunk_undo_restores)

definition sample_env :: ledger_env where
  "sample_env = \<lparr>env_build = \<lparr>strict = True, overflow_checks = True\<rparr>, env_cred_codec = (\<lambda>_. []), env_hash256 = (\<lambda>_. 0),
     env_rolling_nonce = (\<lambda>_ _. 0),
     env_genesis_lib = \<lparr>parse_rfc3339 = (\<lambda>_. None), hex_decode = (\<lambda>_. None), approximate_float = (\<lambda>_. None)\<rparr>\<rparr>"

definition sample_chunk :: "cardano_delta list" where
  "sample_chunk = [DatumRefIncrement (datum_ref_increment_new 1 [7]), DatumRefIncrement (datum_ref_increment_new 1 [7])]"

lemma sample_chunk_run:
  "apply_delta_chunk (cardano_key sample_env) (cardano_apply sample_env) [] (table_reader Map.empty) sample_chunk
     = Some (Inr ([(datum_hash_key 1, Some (DatumState \<lparr>dt_refcount = 2, dt_bytes = [7]\<rparr>))],
         [DatumRefIncrement \<lparr>dri_datum_hash = 1, dri_datum_bytes = [7], dri_was_new = True\<rparr>,
          DatumRefIncrement \<lparr>dri_datum_hash = 1, dri_datum_bytes = [7], dri_was_new = False\<rparr>]))"
  by (simp add: apply_delta_chunk_def load_missing_entities_def sample_chunk_def datum_ref_increment_key_def
      table_reader_def datum_ref_increment_apply_def datum_ref_increment_new_def downcast_apply_def retag_def
      datum_state_new_def saturating_add_def checked_add_def)

lemma empty_typed: "typed_table ns_of Map.empty"
  by (simp add: typed_table_def typed_def)

theorem cardano_chunk_undo_restores_witness:
  "\<exists>m ds' m'. apply_delta_chunk (cardano_key sample_env) (cardano_apply sample_env) [] (table_reader Map.empty) sample_chunk
       = Some (Inr (m, ds')) \<and>
     map_of m (datum_hash_key 1) = Some (Some (DatumState \<lparr>dt_refcount = 2, dt_bytes = [7]\<rparr>)) \<and>
     undo_delta_chunk (cardano_key sample_env) (cardano_undo sample_env) [] (table_reader (save_entities ns_of m Map.empty))
       (map cardano_stored ds') = Some (Inr m') \<and>
     save_entities ns_of m' (save_entities ns_of m Map.empty) = Map.empty"
proof -
  have "run_ok (cardano_key sample_env) (cardano_apply sample_env) cardano_fresh cardano_ok Map.empty sample_chunk"
    by (simp add: sample_chunk_def datum_ref_increment_key_def datum_ref_increment_apply_def
        datum_ref_increment_new_def downcast_apply_def retag_def datum_state_new_def count_not_full_def)
  with cardano_chunk_undo_restores [OF empty_typed _ sample_chunk_run] sample_chunk_run show ?thesis by fastforce
qed

text \<open>
  C33. Deltas respect the types of the store. Applying any chunk of ledger deltas to a store in which every
  namespace holds entities of its own type and saving the result leaves such a store; every entity a delta wrote,
  which the saving puts under the namespace of its type, is found under the key of the delta, and the applied deltas
  have the keys they had before.
\<close>

theorem chunk_respects_namespaces:
  fixes env :: ledger_env
  assumes "typed_table ns_of store"
    and "apply_delta_chunk (cardano_key env) (cardano_apply env) [] (table_reader store) ds = Some (Inr (m, ds'))"
  shows "typed_table ns_of (save_entities ns_of m store) \<and> save_entities ns_of m store = overlay m store \<and>
    map (cardano_key env) ds' = map (cardano_key env) ds"
  using assms by (rule cardano.chunk_keeps_types)

theorem chunk_respects_namespaces_witness:
  "\<exists>m ds'. apply_delta_chunk (cardano_key sample_env) (cardano_apply sample_env) [] (table_reader Map.empty) sample_chunk
       = Some (Inr (m, ds')) \<and> save_entities ns_of m Map.empty (datum_hash_key 1) \<noteq> None \<and>
     typed_table ns_of (save_entities ns_of m Map.empty)"
proof -
  let ?m = "[(datum_hash_key 1, Some (DatumState \<lparr>dt_refcount = 2, dt_bytes = [7]\<rparr>))]"
  from sample_chunk_run obtain ds' where run: "apply_delta_chunk (cardano_key sample_env) (cardano_apply sample_env) []
      (table_reader Map.empty) sample_chunk = Some (Inr (?m, ds'))" by simp
  have "overlay ?m Map.empty (datum_hash_key 1) \<noteq> None" by (simp add: overlay_def)
  with chunk_respects_namespaces [OF empty_typed run] run show ?thesis by metis
qed

end
