(* ===== verification/Replay.thy ===== *)
theory Replay
  imports Cardano_Delta
begin

text \<open>
  Which ledger deltas can be applied again. What \<^verbatim>\<open>apply\<close> records for the undo of a delta
  does not change what it does to the entity, so the delta the log gives back repeats it: for the
  deltas the roll visitors emit, except the count of minted blocks, which loses its epoch in the log.
\<close>

definition replays :: "('d, 'e) apply_fn \<Rightarrow> bool" where
  "replays f \<longleftrightarrow> (\<forall>d e d' e'. f d e = Some (d', e') \<longrightarrow> (\<exists>d''. f d' e = Some (d'', e')))"

lemma replaysI: "(\<And>d e d' e'. f d e = Some (d', e') \<Longrightarrow> \<exists>d''. f d' e = Some (d'', e')) \<Longrightarrow> replays f"
  by (simp add: replays_def)

lemma downcast_replays: "replays f \<Longrightarrow> replays (downcast_apply from_c into_c f)"
  by (fastforce simp: replays_def downcast_apply_def panic_simps)

lemma replays_effect:
  "(\<And>d e d' e'. f d e = Some (d', e') \<Longrightarrow> map_option snd (f d' e) = map_option snd (f d e)) \<Longrightarrow> replays f"
  by (rule replaysI) fastforce

lemma replays_drep_expiry_update: "replays drep_expiry_update_apply"
  by (rule replaysI) (auto simp: drep_expiry_update_apply_def Let_def split: option.splits if_splits)

lemma replays_controlled_amount_inc: "replays (controlled_amount_inc_apply b)"
proof (rule replaysI)
  fix d e d' e' assume run: "controlled_amount_inc_apply b d e = Some (d', e')"
  then show "\<exists>d''. controlled_amount_inc_apply b d' e = Some (d'', e')"
    by (cases "cai_is_pointer d") (auto simp: controlled_amount_inc_apply_def Let_def panic_simps)
qed

lemma replays_controlled_amount_dec: "replays (controlled_amount_dec_apply b)"
proof (rule replaysI)
  fix d e d' e' assume run: "controlled_amount_dec_apply b d e = Some (d', e')"
  then show "\<exists>d''. controlled_amount_dec_apply b d' e = Some (d'', e')"
    by (cases "cad_is_pointer d") (auto simp: controlled_amount_dec_apply_def Let_def panic_simps split: option.splits)
qed

lemma replays_pool_registration: "replays (pool_registration_apply b)"
proof (rule replays_effect)
  fix d e d' e' assume "pool_registration_apply b d e = Some (d', e')"
  then show "map_option snd (pool_registration_apply b d' e) = map_option snd (pool_registration_apply b d e)"
    by (rule pool_registration_cases) (simp_all add: pool_registration_apply_def map_option_bind comp_def)
qed

lemma replays_drep_dormancy_release: "replays (drep_dormancy_release_apply b)"
proof (rule replays_effect)
  fix d e d' e' assume "drep_dormancy_release_apply b d e = Some (d', e')"
  then show "map_option snd (drep_dormancy_release_apply b d' e) = map_option snd (drep_dormancy_release_apply b d e)"
    by (rule drep_dormancy_release_cases)
      (simp_all add: drep_dormancy_release_apply_def Let_def map_option_bind comp_def if_distrib [where f = "map_option snd"]
        split: option.splits cong: if_cong)
qed

lemma replays_enqueue_mir: "replays (enqueue_mir_apply b)"
  by (rule replays_effect) (auto simp: enqueue_mir_apply_def Let_def map_option_bind comp_def panic_simps split: option.splits if_splits)

lemma replays_epoch_stats_update: "replays (epoch_stats_update_apply b)"
proof (rule replays_effect)
  fix d e d' e' assume "epoch_stats_update_apply b d e = Some (d', e')"
  then obtain w x y z where d': "d' = d\<lparr>esu_was_new := w, esu_prev_registered_pools := x, esu_prev_first_block_slot := y, esu_prev_last_block_slot := z\<rparr>"
    by (auto simp: epoch_stats_update_apply_def Let_def panic_simps)
  have counters: "add_counters b (d\<lparr>esu_was_new := w\<rparr>) s = add_counters b d s"
      "add_counters b (d\<lparr>esu_prev_registered_pools := x\<rparr>) s = add_counters b d s"
      "add_counters b (d\<lparr>esu_prev_first_block_slot := y\<rparr>) s = add_counters b d s"
      "add_counters b (d\<lparr>esu_prev_last_block_slot := y\<rparr>) s = add_counters b d s" for w x y s d
    by (simp_all add: add_counters_def)
  show "map_option snd (epoch_stats_update_apply b d' e) = map_option snd (epoch_stats_update_apply b d e)"
    by (simp add: d' epoch_stats_update_apply_def Let_def map_option_bind comp_def counters cong: if_cong)
qed

lemma replays_stake_registration: "replays stake_registration_apply"
  by (rule replaysI) (auto simp: stake_registration_apply_def panic_simps Let_def split: option.splits)

lemma replays_stake_delegation: "replays (stake_delegation_apply b)"
  by (rule replaysI) (auto simp: stake_delegation_apply_def panic_simps Let_def split: option.splits)

lemma replays_stake_deregistration: "replays (stake_deregistration_apply b)"
  by (rule replaysI) (auto simp: stake_deregistration_apply_def panic_simps Let_def split: option.splits)

lemma replays_pool_deregistration: "replays pool_deregistration_apply"
  by (rule replaysI) (auto simp: pool_deregistration_apply_def panic_simps Let_def split: option.splits)

lemma replays_mint_stats_update: "replays (mint_stats_update_apply b)"
  by (rule replaysI) (auto simp: mint_stats_update_apply_def panic_simps Let_def split: option.splits)

lemma replays_metadata_tx_update: "replays metadata_tx_update_apply"
  by (rule replaysI) (auto simp: metadata_tx_update_apply_def panic_simps Let_def split: option.splits)

lemma replays_drep_registration: "replays drep_registration_apply"
  by (rule replaysI) (auto simp: drep_registration_apply_def panic_simps Let_def split: option.splits)

lemma replays_drep_unregistration: "replays drep_unregistration_apply"
  by (rule replaysI) (auto simp: drep_unregistration_apply_def panic_simps Let_def split: option.splits)

lemma replays_drep_activity: "replays drep_activity_apply"
  by (rule replaysI) (auto simp: drep_activity_apply_def panic_simps Let_def split: option.splits)

lemma replays_withdrawal_inc: "replays (withdrawal_inc_apply b)"
  by (rule replaysI) (auto simp: withdrawal_inc_apply_def panic_simps Let_def split: option.splits)

lemma replays_vote_delegation: "replays (vote_delegation_apply b)"
  by (rule replaysI) (auto simp: vote_delegation_apply_def panic_simps Let_def split: option.splits)

lemma replays_pparams_update: "replays pparams_update_apply"
  by (rule replaysI) (auto simp: pparams_update_apply_def panic_simps Let_def split: option.splits)

lemma replays_nonces_update: "replays (nonces_update_apply g)"
  by (rule replaysI) (auto simp: nonces_update_apply_def panic_simps Let_def split: option.splits)

lemma replays_datum_ref_increment: "replays datum_ref_increment_apply"
  by (rule replaysI) (auto simp: datum_ref_increment_apply_def panic_simps Let_def split: option.splits)

lemma replays_datum_ref_decrement: "replays datum_ref_decrement_apply"
  by (rule replaysI) (auto simp: datum_ref_decrement_apply_def panic_simps Let_def split: option.splits)

lemma replays_drep_anchor_update: "replays drep_anchor_update_apply"
  by (rule replaysI) (auto simp: drep_anchor_update_apply_def panic_simps Let_def split: option.splits)

lemma replays_new_proposal: "replays (new_proposal_apply b)"
  by (rule replaysI) (auto simp: new_proposal_apply_def panic_simps Let_def split: option.splits)

lemma replays_new_proposal_v2: "replays (new_proposal_v2_apply b)"
  by (rule replaysI) (auto simp: new_proposal_v2_apply_def panic_simps Let_def split: option.splits)

lemma replays_vote_cast: "replays vote_cast_apply"
  by (rule replaysI) (erule vote_cast_cases; auto simp: vote_cast_apply_def)

lemma replays_committee_auth: "replays committee_auth_apply"
  by (rule replaysI) (auto simp: committee_auth_apply_def panic_simps)

lemma replays_committee_resign: "replays committee_resign_apply"
  by (rule replaysI) (auto simp: committee_resign_apply_def panic_simps)

lemma replays_gov_dormancy_reset: "replays gov_dormancy_reset_apply"
  by (rule replaysI) (auto simp: gov_dormancy_reset_apply_def panic_simps Let_def split: option.splits)

text \<open>The deltas of the roll visitors that survive the log whole.\<close>

fun cardano_replayable :: "cardano_delta \<Rightarrow> bool" where
  "cardano_replayable (ControlledAmountInc _) = True"
| "cardano_replayable (ControlledAmountDec _) = True"
| "cardano_replayable (StakeRegistration _) = True"
| "cardano_replayable (StakeDelegation _) = True"
| "cardano_replayable (StakeDeregistration _) = True"
| "cardano_replayable (PoolRegistration _) = True"
| "cardano_replayable (PoolDeRegistration _) = True"
| "cardano_replayable (MintStatsUpdate _) = True"
| "cardano_replayable (MetadataTxUpdate _) = True"
| "cardano_replayable (EpochStatsUpdate _) = True"
| "cardano_replayable (DRepRegistration _) = True"
| "cardano_replayable (DRepUnRegistration _) = True"
| "cardano_replayable (DRepActivity _) = True"
| "cardano_replayable (WithdrawalInc _) = True"
| "cardano_replayable (VoteDelegation _) = True"
| "cardano_replayable (PParamsUpdate _) = True"
| "cardano_replayable (NoncesUpdate _) = True"
| "cardano_replayable (EnqueueMir _) = True"
| "cardano_replayable (DatumRefIncrement _) = True"
| "cardano_replayable (DatumRefDecrement _) = True"
| "cardano_replayable (DRepAnchorUpdate _) = True"
| "cardano_replayable (DRepExpiryUpdate _) = True"
| "cardano_replayable (DRepDormancyRelease _) = True"
| "cardano_replayable (NewProposal _) = True"
| "cardano_replayable (NewProposalV2 _) = True"
| "cardano_replayable (VoteCast _) = True"
| "cardano_replayable (CommitteeAuth _) = True"
| "cardano_replayable (CommitteeResign _) = True"
| "cardano_replayable (GovDormancyReset _) = True"
| "cardano_replayable _ = False"

lemmas roll_replays =
  replays_controlled_amount_inc replays_controlled_amount_dec replays_stake_registration replays_stake_delegation
  replays_stake_deregistration replays_pool_registration replays_pool_deregistration replays_mint_stats_update
  replays_metadata_tx_update replays_epoch_stats_update replays_drep_registration replays_drep_unregistration
  replays_drep_activity replays_withdrawal_inc replays_vote_delegation replays_pparams_update replays_nonces_update
  replays_enqueue_mir replays_datum_ref_increment replays_datum_ref_decrement replays_drep_anchor_update
  replays_drep_expiry_update replays_drep_dormancy_release
  replays_new_proposal replays_new_proposal_v2 replays_vote_cast replays_committee_auth replays_committee_resign replays_gov_dormancy_reset

lemma tag_replays:
  assumes "replays f" and "retag C (downcast_apply from_c into_c f x e) = Some (d', e')"
  obtains x' x'' where "d' = C x'" and "retag C (downcast_apply from_c into_c f x' e) = Some (C x'', e')"
proof -
  from assms(2) obtain x' where "downcast_apply from_c into_c f x e = Some (x', e')" and d': "d' = C x'"
    by (auto simp: retag_def)
  with downcast_replays [OF assms(1), of from_c into_c] obtain x'' where "downcast_apply from_c into_c f x' e = Some (x'', e')"
    unfolding replays_def by blast
  with d' show thesis by (intro that [of x' x'']) (simp_all add: retag_def)
qed

lemmas roll_tag_replays = roll_replays [THEN tag_replays]

lemma cardano_replay:
  assumes "cardano_apply env d e = Some (d', e')" and "cardano_replayable (cardano_stored d')"
  shows "\<exists>d''. cardano_apply env (cardano_stored d') e = Some (d'', e')"
  using assms
  by (cases d) (simp_all, ((erule roll_tag_replays, simp) | (fastforce simp: retag_def))+)

end
