(* ===== verification/Cardano_Node.thy ===== *)
theory Cardano_Node
  imports Work_Unit Bootstrap Replay
begin

text \<open>
  The node on the ledger's deltas: the generic code of the previous theories with the Cardano deltas
  and entities, and what it gives for rolling batches forward and back. The decoding of blocks, the
  visitors, the hash of the index keys, the walk of the mempool and the archive stay arguments.
\<close>

definition cardano_node :: "ledger_env \<Rightarrow> codec \<Rightarrow> (bytes \<Rightarrow> u64) \<Rightarrow> ('r mempool_state \<Rightarrow> tx_hash list)
    \<Rightarrow> (chain_point \<Rightarrow> bytes \<Rightarrow> 'a \<Rightarrow> string + 'a) \<Rightarrow> (chain_point \<Rightarrow> 'a \<Rightarrow> string + 'a)
    \<Rightarrow> ('a \<Rightarrow> string + (block_slot \<times> bytes) option) \<Rightarrow> (cardano_delta, cardano_entity, 'r, 'a) node" where
  "cardano_node env cd xxh3_64 walk archive_apply archive_truncate archive_tip =
     \<lparr>nd_build = env_build env, nd_codec = cd, nd_key = cardano_key env, nd_apply = cardano_apply env,
      nd_undo = cardano_undo env, nd_ns = ns_of, nd_stored = cardano_stored, nd_xxh3_64 = xxh3_64, nd_walk = walk,
      nd_archive_apply = archive_apply, nd_archive_truncate = archive_truncate,
      nd_archive_tip = archive_tip\<rparr>"

lemma cardano_node_simps [simp]:
  "nd_codec (cardano_node env cd h walk arch_app arch_cut arch_tip) = cd" "nd_key (cardano_node env cd h walk arch_app arch_cut arch_tip) = cardano_key env"
  "nd_apply (cardano_node env cd h walk arch_app arch_cut arch_tip) = cardano_apply env" "nd_ns (cardano_node env cd h walk arch_app arch_cut arch_tip) = ns_of"
  "nd_stored (cardano_node env cd h walk arch_app arch_cut arch_tip) = cardano_stored" "nd_walk (cardano_node env cd h walk arch_app arch_cut arch_tip) = walk"
  "nd_archive_truncate (cardano_node env cd h walk arch_app arch_cut arch_tip) = arch_cut" "nd_build (cardano_node env cd h walk arch_app arch_cut arch_tip) = env_build env"
  "nd_undo (cardano_node env cd h walk arch_app arch_cut arch_tip) = cardano_undo env" "nd_xxh3_64 (cardano_node env cd h walk arch_app arch_cut arch_tip) = h"
  "nd_archive_apply (cardano_node env cd h walk arch_app arch_cut arch_tip) = arch_app"
  "nd_archive_tip (cardano_node env cd h walk arch_app arch_cut arch_tip) = arch_tip"
  by (simp_all add: cardano_node_def)

interpretation cardano_node: node_system "cardano_node env cd h walk arch_app arch_cut arch_tip" cardano_fresh cardano_ok
  unfolding node_system_def cardano_node_simps by (rule cardano.delta_system_axioms)

interpretation cardano_replay: replay_system "cardano_node env cd h walk arch_app arch_cut arch_tip" cardano_fresh cardano_ok cardano_replayable
  by unfold_locales (simp add: cardano_replay)

section \<open>A sample batch\<close>

definition sample_start :: "cardano_entity tables" where
  "sample_start = \<lparr>t_cursor = Some (Specific 5 3), t_entities = [], t_utxos = [((5, 0), (1, [9]))]\<rparr>"

definition sample_log :: "cardano_delta wal" where
  "sample_log = \<lparr>wal_data = [(into_bytes (Specific 5 3), log_value_origin)], wal_version = None\<rparr>"

definition sample_batch :: "(cardano_delta, cardano_entity) work_batch" where
  "sample_batch = for_single_block (work_block_new [1] sample_block)"

definition sample_visit :: "unit \<Rightarrow> block_view \<Rightarrow> (txo_ref \<times> era_cbor) list \<Rightarrow> chain_error + cardano_delta list \<times> unit" where
  "sample_visit c v utxos = Inr (sample_chunk, ())"

definition sample_walk :: "unit mempool_state \<Rightarrow> tx_hash list" where
  "sample_walk s = sorted_list_of_set (dom (ms_acknowledged (promote_propagated s)))"

lemma complete_sample_walk: "complete_walk sample_walk"
  by (simp add: complete_walk_def sample_walk_def enumerates_def)

lemma sample_chunk_groups:
  "fold (add_for_entity (cardano_key sample_env)) sample_chunk []
     = [(datum_hash_key 1, sample_chunk)]"
  by (simp add: sample_chunk_def add_for_entity_def datum_ref_increment_key_def datum_ref_increment_new_def)

definition sample_utxo_table :: "(txo_ref \<times> era_cbor) list" where
  "sample_utxo_table = [((1, 0), (1, [1])), ((1, 1), (1, [2])), ((2, 0), (1, [3])), ((5, 0), (1, [9]))]"

lemma sample_utxos_loaded:
  "load_utxos sample_start sample_batch = sample_batch\<lparr>wk_utxos := sample_utxo_table\<rparr>"
  by (simp add: load_utxos_def sample_batch_def for_single_block_def add_work_def work_batch_default_def work_block_new_def
      compute_block_dependencies_def txs_by_hash_def sample_block_def produce_refs_def consume_refs_def insert_all_def
      get_utxos_def sample_start_def sample_utxo_table_def tbl_get_def map_filter_simps)

lemma sample_utxo_delta:
  "compute_apply_delta sample_block sample_utxo_table =
     Inr \<lparr>produced_utxo = [((1, 0), (1, [1])), ((1, 1), (1, [2])), ((2, 0), (1, [3]))],
          consumed_utxo = [((5, 0), (1, [9])), ((1, 0), (1, [1]))], recovered_stxi = [], undone_utxo = []\<rparr>"
  by (simp add: compute_apply_delta_tables block_produced_def block_consumes_def txs_by_hash_def sample_block_def
      sample_utxo_table_def produce_refs_def consume_refs_def insert_all_def)

definition sample_block_done :: "cardano_delta work_block" where
  "sample_block_done = \<lparr>wb_raw = [1], wb_block = sample_block, wb_deltas = [(datum_hash_key 1, sample_chunk)],
     wb_utxo_delta = Some \<lparr>produced_utxo = [((1, 0), (1, [1])), ((1, 1), (1, [2])), ((2, 0), (1, [3]))],
          consumed_utxo = [((5, 0), (1, [9])), ((1, 0), (1, [1]))], recovered_stxi = [], undone_utxo = []\<rparr>\<rparr>"

definition sample_loaded :: "(cardano_delta, cardano_entity) work_batch" where
  "sample_loaded = \<lparr>wk_blocks = [sample_block_done], wk_utxos = sample_utxo_table, wk_utxos_decoded = sample_utxo_table,
     wk_entities = [(datum_hash_key 1, None)], wk_is_sorted = True, wk_applied = False\<rparr>"

lemma sample_sorted: "sort_by_slot sample_batch = sample_batch"
  by (simp add: sort_by_slot_def sample_batch_def for_single_block_def add_work_def work_batch_default_def)

lemma sample_load:
  "roll_load (env_build sample_env) (cardano_key sample_env) sample_visit (decodes_output sample_codec) () sample_start sample_batch
     = Some (Inr sample_loaded)"
proof -
  have links: "batch_check_continuity (env_build sample_env) (read_cursor sample_start) sample_batch = Some (Inr ())"
    by (simp add: batch_check_continuity_def sample_batch_def for_single_block_def add_work_def work_batch_default_def
        work_block_new_def sample_env_def read_cursor_def sample_start_def sample_block_def check_extension_def
        check_continuity_def check_slot_increase_def)
  have decoded: "decode_utxos (decodes_output sample_codec) (sample_batch\<lparr>wk_utxos := sample_utxo_table\<rparr>)
      = Inr (sample_batch\<lparr>wk_utxos := sample_utxo_table, wk_utxos_decoded := sample_utxo_table\<rparr>)"
    by (simp add: decode_utxos_def sample_codec_def list_all_iff)
  have blocks: "wk_blocks sample_batch = [work_block_new [1] sample_block]"
    by (simp add: sample_batch_def for_single_block_def add_work_def work_batch_default_def)
  have delta: "compute_delta (cardano_key sample_env) sample_visit sample_utxo_table () (wk_blocks sample_batch) = Inr [sample_block_done]"
    by (simp add: blocks work_block_new_def sample_visit_def sample_chunk_groups sample_utxo_delta sample_block_done_def)
  have chunk: "chunks load_chunk_size [datum_hash_key 1] = [[datum_hash_key 1]]" by simp
  have "load_entities (table_reader (entity_view sample_start))
      (sample_batch\<lparr>wk_utxos := sample_utxo_table, wk_utxos_decoded := sample_utxo_table, wk_blocks := [sample_block_done]\<rparr>)
      = Inr sample_loaded"
    by (simp add: load_entities_def sample_block_done_def chunk table_reader_def entity_view_def sample_start_def tbl_get_def
        insert_all_def sample_loaded_def sample_batch_def for_single_block_def add_work_def work_batch_default_def)
  then show ?thesis
    by (simp add: roll_load_def sample_sorted links sample_utxos_loaded decoded delta [unfolded blocks] last_point_def blocks
        del: compute_delta.simps)
qed

definition sample_node :: "(cardano_delta, cardano_entity, unit, unit) node" where
  "sample_node = cardano_node sample_env sample_codec (\<lambda>_. 0) sample_walk (\<lambda>_ _ _. Inr ()) (\<lambda>_ _. Inr ()) (\<lambda>_. Inr None)"

definition sample_applied :: "cardano_delta list" where
  "sample_applied = [DatumRefIncrement \<lparr>dri_datum_hash = 1, dri_datum_bytes = [7], dri_was_new = True\<rparr>,
     DatumRefIncrement \<lparr>dri_datum_hash = 1, dri_datum_bytes = [7], dri_was_new = False\<rparr>]"

definition sample_computed :: "(cardano_delta, cardano_entity) work_batch" where
  "sample_computed = sample_loaded\<lparr>wk_blocks := [sample_block_done\<lparr>wb_deltas := [(datum_hash_key 1, sample_applied)]\<rparr>],
     wk_entities := [(datum_hash_key 1, Some (DatumState \<lparr>dt_refcount = 2, dt_bytes = [7]\<rparr>))], wk_applied := True\<rparr>"

definition sample_entry :: "cardano_delta log_entry" where
  "sample_entry = (Specific 7 9, \<lparr>lv_block = [1], lv_delta = sample_applied, lv_inputs = sample_utxo_table\<rparr>)"

lemma sample_compute: "roll_compute (cardano_apply sample_env) sample_loaded = Some sample_computed"
proof -
  have "sort_by_slot sample_loaded = sample_loaded" by (simp add: sort_by_slot_def sample_loaded_def)
  then show ?thesis
    by (simp add: roll_compute_def apply_entities_def sample_loaded_def sample_block_done_def sample_chunk_def
        datum_ref_increment_apply_def datum_ref_increment_new_def downcast_apply_def retag_def datum_state_new_def
        saturating_add_def checked_add_def sample_computed_def sample_applied_def)
qed

lemma sample_batch_log: "batch_log cardano_stored sample_computed = [sample_entry]"
  by (simp add: batch_log_def sample_computed_def sample_loaded_def block_entry_def wb_point_def sample_block_done_def
      sample_block_def logged_def sample_applied_def sample_entry_def)

lemma sample_spends: "valid_spends (utxo_view sample_start) [sample_block]"
  by (simp add: valid_spends_def new_outputs_def block_produced_def block_consumes_def txs_by_hash_def sample_block_def
      produce_refs_def consume_refs_def insert_all_def utxo_view_def sample_start_def tbl_get_def)

lemma sample_ok: "rolls_ok (cardano_key sample_env) (cardano_apply sample_env) cardano_fresh cardano_ok (entity_view sample_start) [sample_chunk]"
  by (simp add: sample_chunk_def datum_ref_increment_key_def datum_ref_increment_apply_def datum_ref_increment_new_def
      downcast_apply_def retag_def datum_state_new_def count_not_full_def entity_view_def sample_start_def tbl_get_def
      split: option.splits)

text \<open>One block, from a log and a state at an earlier point.\<close>

lemma sample_phases:
  fixes w0 :: "cardano_delta wal"
  obtains w t where "roll_phases (env_build sample_env) (cardano_key sample_env) (cardano_apply sample_env) ns_of cardano_stored
      sample_visit (decodes_output sample_codec) () sample_batch (w0, sample_start)
      = Some (Inr (sample_loaded, sample_computed, w, t))"
    and "utxo_view t (1, 1) = Some (1, [2])"
proof -
  obtain w where w: "commit_wal (env_build sample_env) cardano_stored sample_computed w0 = Some w"
    by (simp add: commit_wal_def sample_computed_def sample_loaded_def)
  obtain t where t: "commit_state ns_of sample_computed sample_start = Some t"
    by (simp add: commit_state_def last_point_def sample_computed_def)
  have "utxo_view t (1, 1) = Some (1, [2])"
    using t by (auto simp: commit_state_def last_point_def sample_computed_def sample_loaded_def set_cursor_def commit_append
        state_ops_def sample_block_done_def commit_apply_utxoset utxo_apply_def restrict_map_def)
  moreover have "roll_phases (env_build sample_env) (cardano_key sample_env) (cardano_apply sample_env) ns_of cardano_stored
      sample_visit (decodes_output sample_codec) () sample_batch (w0, sample_start)
      = Some (Inr (sample_loaded, sample_computed, w, t))"
    by (simp add: roll_phases_def sample_load sample_compute w t)
  ultimately show thesis by (rule that [rotated])
qed

lemma sample_fresh: "fresh_batch sample_codec sample_batch"
  by (simp add: fresh_batch_def sample_codec_def sample_batch_def for_single_block_def add_work_def
      work_batch_default_def work_block_new_def)

lemma sample_loaded_spends: "valid_spends (utxo_view sample_start) (map wb_block (wk_blocks sample_loaded))"
  using sample_spends by (simp add: sample_loaded_def sample_block_done_def)

lemma sample_loaded_ok:
  "rolls_ok (cardano_key sample_env) (cardano_apply sample_env) cardano_fresh cardano_ok (entity_view sample_start)
     (map listed (wk_blocks sample_loaded))"
  using sample_ok by (simp add: sample_loaded_def sample_block_done_def)

lemma sample_rolled:
  fixes w0 :: "cardano_delta wal"
  obtains w t where "rolled sample_node cardano_fresh cardano_ok sample_visit (w0, sample_start) [sample_entry] (w, t)"
    and "t \<noteq> sample_start"
proof -
  obtain w t where run: "roll_phases (env_build sample_env) (cardano_key sample_env) (cardano_apply sample_env) ns_of cardano_stored
      sample_visit (decodes_output sample_codec) () sample_batch (w0, sample_start)
      = Some (Inr (sample_loaded, sample_computed, w, t))" and u: "utxo_view t (1, 1) = Some (1, [2])"
    by (rule sample_phases)
  have "rolled sample_node cardano_fresh cardano_ok sample_visit (w0, sample_start)
      ([] @ batch_log (nd_stored sample_node) sample_computed) (w, t)"
    by (rule rolled.rolled_batch [OF rolled.rolled_none])
      (use run sample_fresh sample_loaded_spends sample_loaded_ok in \<open>simp_all add: sample_node_def\<close>)
  moreover have "t \<noteq> sample_start" using u by (auto simp: utxo_view_def sample_start_def tbl_get_def)
  ultimately show thesis by (intro that [of w t]) (simp_all add: sample_batch_log sample_node_def)
qed

definition sample_domain :: "cardano_delta wal \<Rightarrow> cardano_entity tables \<Rightarrow> (cardano_delta, cardano_entity, unit, unit) domain" where
  "sample_domain w t = \<lparr>dm_wal = w, dm_state = t, dm_archive = (),
     dm_indexes = \<lparr>it_cursor = None, it_utxo_tags = [], it_archive_tags = [], it_exact = []\<rparr>, dm_mempool = mempool_new, dm_tips = []\<rparr>"

text \<open>The whole work unit of the sample batch, with its archive and index phases.\<close>

lemma sample_executes:
  obtains u dm where "execute_work_unit sample_node (roll_unit sample_node sample_visit ()) \<lparr>ru_batch = sample_batch, ru_live_mode = True\<rparr>
      (sample_domain sample_log sample_start) = Some (Inr (), u, dm)"
    and "ru_batch u = sample_computed"
proof -
  let ?dm = "sample_domain sample_log sample_start" and ?W = "roll_unit sample_node sample_visit ()"
  obtain w where w: "commit_wal (env_build sample_env) cardano_stored sample_computed sample_log = Some w"
    by (simp add: commit_wal_def sample_computed_def sample_loaded_def)
  obtain t where t: "commit_state ns_of sample_computed sample_start = Some t"
    by (simp add: commit_state_def last_point_def sample_computed_def)
  have arch: "commit_archive sample_node sample_computed () = Inr ()"
    by (simp add: commit_archive_def sample_computed_def sample_node_def)
  obtain i where i: "commit_indexes sample_node sample_computed (dm_indexes ?dm) = Some (Inr i)"
    by (simp add: commit_indexes_def build_index_delta_def last_point_def sample_computed_def sample_node_def sample_loaded_def
        index_work_block_def sample_block_done_def sample_codec_def builder_new_def index_delta_default_def index_apply_def
        exact_keys_of_def)
  have load: "wu_load ?W 0 \<lparr>ru_batch = sample_batch, ru_live_mode = True\<rparr> ?dm
      = Some (Inr (), \<lparr>ru_batch = sample_loaded, ru_live_mode = True\<rparr>, ?dm)"
    by (simp add: roll_unit_def sample_node_def sample_domain_def sample_load)
  have rest: "wu_compute ?W 0 \<lparr>ru_batch = sample_loaded, ru_live_mode = True\<rparr> d
        = Some (Inr (), \<lparr>ru_batch = sample_computed, ru_live_mode = True\<rparr>, d)"
      "wu_commit_wal ?W 0 \<lparr>ru_batch = sample_computed, ru_live_mode = True\<rparr> ?dm
        = Some (Inr (), \<lparr>ru_batch = sample_computed, ru_live_mode = True\<rparr>, ?dm\<lparr>dm_wal := w\<rparr>)"
      "wu_commit_state ?W 0 \<lparr>ru_batch = sample_computed, ru_live_mode = True\<rparr> (?dm\<lparr>dm_wal := w\<rparr>)
        = Some (Inr (), \<lparr>ru_batch = sample_computed, ru_live_mode = True\<rparr>, ?dm\<lparr>dm_wal := w, dm_state := t\<rparr>)"
      "wu_commit_archive ?W 0 \<lparr>ru_batch = sample_computed, ru_live_mode = True\<rparr> (?dm\<lparr>dm_wal := w, dm_state := t\<rparr>)
        = Some (Inr (), \<lparr>ru_batch = sample_computed, ru_live_mode = True\<rparr>, ?dm\<lparr>dm_wal := w, dm_state := t\<rparr>)"
      "wu_commit_indexes ?W 0 \<lparr>ru_batch = sample_computed, ru_live_mode = True\<rparr> (?dm\<lparr>dm_wal := w, dm_state := t\<rparr>)
        = Some (Inr (), \<lparr>ru_batch = sample_computed, ru_live_mode = True\<rparr>, ?dm\<lparr>dm_wal := w, dm_state := t, dm_indexes := i\<rparr>)" for d
    using arch i w t by (simp_all add: roll_unit_def sample_node_def sample_compute sample_domain_def)
  have "run_lifecycle (nd_build sample_node) ?W True \<lparr>ru_batch = sample_batch, ru_live_mode = True\<rparr> ?dm
      = Some (Inr (), \<lparr>ru_batch = sample_computed, ru_live_mode = True\<rparr>, ?dm\<lparr>dm_wal := w, dm_state := t, dm_indexes := i\<rparr>)"
    using load rest by (simp add: run_lifecycle_def shard_range_one shard_phases_def)
  moreover obtain dm2 where "update_mempool sample_node (roll_mempool_updates \<lparr>ru_batch = sample_computed, ru_live_mode = True\<rparr>)
      (?dm\<lparr>dm_wal := w, dm_state := t, dm_indexes := i\<rparr>) = Some dm2"
    by (simp add: roll_mempool_updates_def sample_computed_def sample_node_def sample_domain_def confirm_def sample_walk_def
        mempool_new_def promote_propagated_def)
  ultimately show thesis
    by (intro that [of "\<lparr>ru_batch = sample_computed, ru_live_mode = True\<rparr>"]) (simp_all add: execute_work_unit_def)
qed

lemma sample_mempool_fine: "mempool_fine (dm_mempool (sample_domain w t))"
  by (simp add: sample_domain_def mempool_ok_def mempool_new_def max_finalized_log_def)

text \<open>The start is well formed, and has the tip of the log as its cursor.\<close>

lemma sample_start_ok:
  "tables_ok sample_start" "t_cursor sample_start = Some (Specific 5 3)" "typed_table ns_of (entity_view sample_start)"
  "wal_ok sample_log" "find_tip sample_log = Some (Specific 5 3, log_value_origin)"
  by (simp_all add: tables_ok_def tbl_ok_def sample_start_def typed_table_def typed_def entity_view_def tbl_get_def
      wal_ok_def sample_log_def find_tip_data from_into_specific)

end
