(* ===== verification/Work_Buffer.thy ===== *)
theory Work_Buffer
  imports Eras Roll
begin

text \<open>
  The buffer between the blocks that arrive and the work units that run
  (\<^verbatim>\<open>crates/cardano/src/work.rs\<close>): a state machine that collects blocks into batches
  and cuts them where an epoch ends or where rewards become due. The schedule of a sequence of blocks
  is what has to happen, in order: a genesis, each block once, the closing and the opening of an epoch
  before its first block, and the rewards update before the first block past the stability window.
  The refinement is that whatever the interleaving of arrivals and pops, the units popped so far and
  what is still in the buffer are exactly the schedule.
\<close>

section \<open>The state machine\<close>

text \<open>A decoded block: its bytes and what the node reads of it.\<close>

type_synonym owned_block = "bytes \<times> block_view"

definition block_point :: "owned_block \<Rightarrow> chain_point" where
  "block_point blk = Specific (bv_slot (snd blk)) (bv_hash (snd blk))"

definition slot_of :: "owned_block \<Rightarrow> block_slot" where
  "slot_of blk = bv_slot (snd blk)"

definition work_of :: "owned_block \<Rightarrow> 'd work_block" where
  "work_of blk = work_block_new (fst blk) (snd blk)"

datatype ('d, 'e) internal_work_unit =
    UnitGenesis
  | UnitBlocks "('d, 'e) work_batch"
  | UnitEwrap block_slot
  | UnitEstart block_slot
  | UnitRupd block_slot
  | UnitForcedStop

datatype ('d, 'e) work_buffer =
    Empty
  | Restart chain_point
  | Genesis owned_block
  | OpenBatch "('d, 'e) work_batch"
  | PreRupdBoundary "('d, 'e) work_batch" owned_block
  | RupdBoundary owned_block
  | PreEwrapBoundary "('d, 'e) work_batch" owned_block epoch
  | EwrapBoundary owned_block epoch
  | EstartBoundary owned_block epoch
  | PreForcedStop owned_block
  | ForcedStop

definition new_from_cursor :: "chain_point \<Rightarrow> ('d, 'e) work_buffer" where
  "new_from_cursor cursor = Restart cursor"

text \<open>Panics after a forced stop, and on a batch without blocks.\<close>

fun last_point_seen :: "('d, 'e) work_buffer \<Rightarrow> chain_point option" where
  "last_point_seen Empty = Some Origin"
| "last_point_seen (Restart x) = Some x"
| "last_point_seen (Genesis blk) = Some (block_point blk)"
| "last_point_seen (OpenBatch batch) = last_point batch"
| "last_point_seen (PreRupdBoundary _ blk) = Some (block_point blk)"
| "last_point_seen (RupdBoundary blk) = Some (block_point blk)"
| "last_point_seen (PreEwrapBoundary _ blk _) = Some (block_point blk)"
| "last_point_seen (EwrapBoundary blk _) = Some (block_point blk)"
| "last_point_seen (EstartBoundary blk _) = Some (block_point blk)"
| "last_point_seen (PreForcedStop blk) = Some (block_point blk)"
| "last_point_seen ForcedStop = None"

fun buffer_can_receive :: "('d, 'e) work_buffer \<Rightarrow> bool" where
  "buffer_can_receive Empty = True"
| "buffer_can_receive (Restart _) = True"
| "buffer_can_receive (OpenBatch _) = True"
| "buffer_can_receive _ = False"

fun extend_batch :: "owned_block \<Rightarrow> ('d, 'e) work_buffer \<Rightarrow> ('d, 'e) work_buffer option" where
  "extend_batch next_block Empty = Some (OpenBatch (for_single_block (work_of next_block)))"
| "extend_batch next_block (Restart _) = Some (OpenBatch (for_single_block (work_of next_block)))"
| "extend_batch next_block (OpenBatch batch) = Some (OpenBatch (add_work (work_of next_block) batch))"
| "extend_batch next_block _ = None"

fun on_genesis_boundary :: "owned_block \<Rightarrow> ('d, 'e) work_buffer \<Rightarrow> ('d, 'e) work_buffer option" where
  "on_genesis_boundary next_block Empty = Some (Genesis next_block)"
| "on_genesis_boundary next_block _ = None"

fun on_rupd_boundary :: "owned_block \<Rightarrow> ('d, 'e) work_buffer \<Rightarrow> ('d, 'e) work_buffer option" where
  "on_rupd_boundary next_block (Restart _) = Some (RupdBoundary next_block)"
| "on_rupd_boundary next_block (OpenBatch batch) = Some (PreRupdBoundary batch next_block)"
| "on_rupd_boundary next_block _ = None"

fun on_ewrap_boundary :: "owned_block \<Rightarrow> epoch \<Rightarrow> ('d, 'e) work_buffer \<Rightarrow> ('d, 'e) work_buffer option" where
  "on_ewrap_boundary next_block epoch (Restart _) = Some (EwrapBoundary next_block epoch)"
| "on_ewrap_boundary next_block epoch (OpenBatch batch) = Some (PreEwrapBoundary batch next_block epoch)"
| "on_ewrap_boundary next_block epoch _ = None"

definition buffer_receive :: "build \<Rightarrow> owned_block \<Rightarrow> chain_summary \<Rightarrow> u64 \<Rightarrow> ('d, 'e) work_buffer \<Rightarrow> ('d, 'e) work_buffer option" where
  "buffer_receive b blk eras stability_window buf = do {
     _ \<leftarrow> assert_that (buffer_can_receive buf);
     (if buf = Empty then on_genesis_boundary blk buf
      else do {
        prev \<leftarrow> last_point_seen buf;
        boundary \<leftarrow> epoch_boundary b eras (cp_slot prev) (slot_of blk);
        (case boundary of
           Some (epoch, _, _) \<Rightarrow> on_ewrap_boundary blk epoch buf
         | None \<Rightarrow> do {
             rupd \<leftarrow> rupd_boundary b stability_window eras (cp_slot prev) (slot_of blk);
             (if rupd \<noteq> None then on_rupd_boundary blk buf else extend_batch blk buf)
           })
      })
   }"

fun buffer_pop :: "build \<Rightarrow> epoch option \<Rightarrow> ('d, 'e) work_buffer
    \<Rightarrow> (('d, 'e) internal_work_unit option \<times> ('d, 'e) work_buffer) option" where
  "buffer_pop b stop_epoch Empty = Some (None, Empty)"
| "buffer_pop b stop_epoch (Restart p) = Some (None, Restart p)"
| "buffer_pop b stop_epoch (Genesis blk) = Some (Some UnitGenesis, OpenBatch (for_single_block (work_of blk)))"
| "buffer_pop b stop_epoch (OpenBatch batch) = do {
     p \<leftarrow> last_point batch;
     Some (Some (UnitBlocks batch), Restart p)
   }"
| "buffer_pop b stop_epoch (PreRupdBoundary batch blk) = Some (Some (UnitBlocks batch), RupdBoundary blk)"
| "buffer_pop b stop_epoch (RupdBoundary blk) =
     Some (Some (UnitRupd (slot_of blk)), OpenBatch (for_single_block (work_of blk)))"
| "buffer_pop b stop_epoch (PreEwrapBoundary batch blk epoch) = Some (Some (UnitBlocks batch), EwrapBoundary blk epoch)"
| "buffer_pop b stop_epoch (EwrapBoundary blk epoch) = do {
     next_epoch \<leftarrow> raw_add b epoch 1;
     Some (Some (UnitEwrap (slot_of blk)), EstartBoundary blk next_epoch)
   }"
| "buffer_pop b stop_epoch (EstartBoundary blk epoch) =
     Some (Some (UnitEstart (slot_of blk)),
       if stop_epoch = Some epoch then PreForcedStop blk else OpenBatch (for_single_block (work_of blk)))"
| "buffer_pop b stop_epoch (PreForcedStop blk) = Some (Some (UnitBlocks (for_single_block (work_of blk))), ForcedStop)"
| "buffer_pop b stop_epoch ForcedStop = Some (Some UnitForcedStop, ForcedStop)"

section \<open>The schedule\<close>

datatype chain_event = EvGenesis | EvBlock owned_block | EvRupd block_slot | EvEwrap block_slot | EvEstart block_slot

text \<open>What is due when a block arrives after a point; before the first block of all, the genesis.\<close>

definition block_events :: "build \<Rightarrow> chain_summary \<Rightarrow> u64 \<Rightarrow> chain_point option \<Rightarrow> owned_block \<Rightarrow> chain_event list option" where
  "block_events b eras window prev blk =
     (case prev of
        None \<Rightarrow> Some [EvGenesis, EvBlock blk]
      | Some p \<Rightarrow> do {
          boundary \<leftarrow> epoch_boundary b eras (cp_slot p) (slot_of blk);
          (if boundary \<noteq> None then Some [EvEwrap (slot_of blk), EvEstart (slot_of blk), EvBlock blk]
           else do {
             rupd \<leftarrow> rupd_boundary b window eras (cp_slot p) (slot_of blk);
             Some (if rupd \<noteq> None then [EvRupd (slot_of blk), EvBlock blk] else [EvBlock blk])
           })
        })"

fun schedule :: "build \<Rightarrow> chain_point option \<Rightarrow> (owned_block \<times> chain_summary \<times> u64) list \<Rightarrow> chain_event list option" where
  "schedule b prev [] = Some []"
| "schedule b prev ((blk, eras, window) # arrivals) = do {
     now \<leftarrow> block_events b eras window prev blk;
     later \<leftarrow> schedule b (Some (block_point blk)) arrivals;
     Some (now @ later)
   }"

definition batch_events :: "('d, 'e) work_batch \<Rightarrow> chain_event list" where
  "batch_events batch = map (\<lambda>w. EvBlock (wb_raw w, wb_block w)) (wk_blocks batch)"

fun unit_events :: "('d, 'e) internal_work_unit \<Rightarrow> chain_event list" where
  "unit_events UnitGenesis = [EvGenesis]"
| "unit_events (UnitBlocks batch) = batch_events batch"
| "unit_events (UnitEwrap slot) = [EvEwrap slot]"
| "unit_events (UnitEstart slot) = [EvEstart slot]"
| "unit_events (UnitRupd slot) = [EvRupd slot]"
| "unit_events UnitForcedStop = []"

fun pending_events :: "('d, 'e) work_buffer \<Rightarrow> chain_event list" where
  "pending_events Empty = []"
| "pending_events (Restart _) = []"
| "pending_events (Genesis blk) = [EvGenesis, EvBlock blk]"
| "pending_events (OpenBatch batch) = batch_events batch"
| "pending_events (PreRupdBoundary batch blk) = batch_events batch @ [EvRupd (slot_of blk), EvBlock blk]"
| "pending_events (RupdBoundary blk) = [EvRupd (slot_of blk), EvBlock blk]"
| "pending_events (PreEwrapBoundary batch blk _) = batch_events batch @ [EvEwrap (slot_of blk), EvEstart (slot_of blk), EvBlock blk]"
| "pending_events (EwrapBoundary blk _) = [EvEwrap (slot_of blk), EvEstart (slot_of blk), EvBlock blk]"
| "pending_events (EstartBoundary blk _) = [EvEstart (slot_of blk), EvBlock blk]"
| "pending_events (PreForcedStop blk) = [EvBlock blk]"
| "pending_events ForcedStop = []"

definition position_of :: "('d, 'e) work_buffer \<Rightarrow> chain_point option" where
  "position_of buf = (if buf = Empty then None else last_point_seen buf)"

text \<open>Any interleaving of arrivals and pops; a pop may find nothing to do.\<close>

datatype buffer_action = Receive owned_block chain_summary u64 | Pop

fun arrivals_of :: "buffer_action list \<Rightarrow> (owned_block \<times> chain_summary \<times> u64) list" where
  "arrivals_of [] = []"
| "arrivals_of (Receive blk eras window # acts) = (blk, eras, window) # arrivals_of acts"
| "arrivals_of (Pop # acts) = arrivals_of acts"

fun run_buffer :: "build \<Rightarrow> epoch option \<Rightarrow> buffer_action list \<Rightarrow> ('d, 'e) work_buffer
    \<Rightarrow> (('d, 'e) internal_work_unit list \<times> ('d, 'e) work_buffer) option" where
  "run_buffer b stop [] buf = Some ([], buf)"
| "run_buffer b stop (Receive blk eras window # acts) buf = do {
     buf \<leftarrow> buffer_receive b blk eras window buf;
     run_buffer b stop acts buf
   }"
| "run_buffer b stop (Pop # acts) buf = do {
     (u, buf) \<leftarrow> buffer_pop b stop buf;
     (us, buf) \<leftarrow> run_buffer b stop acts buf;
     Some (case_option us (\<lambda>u. u # us) u, buf)
   }"

section \<open>The buffer refines the schedule\<close>

lemma batch_events_simps [simp]:
  "batch_events (for_single_block (work_of blk)) = [EvBlock blk]"
  "batch_events (add_work (work_of blk) batch) = batch_events batch @ [EvBlock blk]"
  by (simp_all add: batch_events_def for_single_block_def add_work_def work_batch_default_def work_of_def work_block_new_def)

lemma last_point_simps [simp]:
  "last_point (for_single_block (work_of blk)) = Some (block_point blk)"
  "last_point (add_work (work_of blk) batch) = Some (block_point blk)"
  by (simp_all add: last_point_def for_single_block_def add_work_def work_batch_default_def work_of_def work_block_new_def
      wb_point_def block_point_def)

lemma receive_refines:
  assumes "buffer_receive b blk eras window buf = Some buf'"
  obtains now where "block_events b eras window (position_of buf) blk = Some now"
    and "pending_events buf' = pending_events buf @ now" and "position_of buf' = Some (block_point blk)"
  using assms
  by (cases buf) (auto simp: buffer_receive_def block_events_def position_of_def panic_simps split: option.splits if_splits prod.splits)

lemma pop_refines:
  assumes "buffer_pop b stop buf = Some (u, buf')"
  shows "pending_events buf = case_option [] unit_events u @ pending_events buf'"
    and "buf' = ForcedStop \<or> position_of buf' = position_of buf"
  using assms by (cases buf; auto simp: position_of_def panic_simps split: if_splits)+

lemma stopped_run:
  "run_buffer b stop acts ForcedStop = Some (us, buf') \<Longrightarrow>
    arrivals_of acts = [] \<and> buf' = ForcedStop \<and> concat (map unit_events us) = []"
proof (induction acts arbitrary: us)
  case (Cons act acts)
  then show ?case by (cases act) (auto simp: buffer_receive_def panic_simps)
qed simp

lemma run_refines:
  assumes "run_buffer b stop acts buf = Some (us, buf')"
  shows "\<exists>evs. schedule b (position_of buf) (arrivals_of acts) = Some evs \<and>
    pending_events buf @ evs = concat (map unit_events us) @ pending_events buf'"
  using assms
proof (induction acts arbitrary: buf us)
  case (Cons act acts)
  show ?case
  proof (cases act)
    case (Receive blk eras window)
    with Cons.prems obtain buf1 where buf1: "buffer_receive b blk eras window buf = Some buf1"
        and run: "run_buffer b stop acts buf1 = Some (us, buf')" by (auto simp: panic_simps)
    from buf1 obtain now where "block_events b eras window (position_of buf) blk = Some now"
        "pending_events buf1 = pending_events buf @ now" "position_of buf1 = Some (block_point blk)"
      by (rule receive_refines)
    with Cons.IH [OF run] show ?thesis by (auto simp: Receive)
  next
    case Pop
    with Cons.prems obtain u buf1 us1 where pop: "buffer_pop b stop buf = Some (u, buf1)"
        and run: "run_buffer b stop acts buf1 = Some (us1, buf')" and us: "us = case_option us1 (\<lambda>u. u # us1) u"
      by (auto simp: panic_simps)
    note step = pop_refines [OF pop]
    show ?thesis
    proof (cases "buf1 = ForcedStop")
      case True
      with stopped_run [of b stop acts us1 buf'] run step(1) show ?thesis by (auto simp: Pop us split: option.splits)
    next
      case False
      with step(2) Cons.IH [OF run] step(1) show ?thesis by (auto simp: Pop us split: option.splits)
    qed
  qed
qed simp

section \<open>Boundaries of a schedule\<close>

fun rupd_slot :: "chain_event \<Rightarrow> block_slot list" where
  "rupd_slot (EvRupd s) = [s]"
| "rupd_slot _ = []"

fun ewrap_slot :: "chain_event \<Rightarrow> block_slot list" where
  "ewrap_slot (EvEwrap s) = [s]"
| "ewrap_slot _ = []"

text \<open>Two slots, the second in a later epoch.\<close>

definition later_epoch :: "build \<Rightarrow> chain_summary \<Rightarrow> block_slot \<Rightarrow> block_slot \<Rightarrow> bool" where
  "later_epoch b cs s s' =
     (case (chain_slot_epoch b cs s, chain_slot_epoch b cs s') of
        (Some (e, _), Some (e', _)) \<Rightarrow> e < e'
      | _ \<Rightarrow> False)"

text \<open>Where the rewards of the epoch of a slot become due.\<close>

definition due_slot :: "build \<Rightarrow> u64 \<Rightarrow> chain_summary \<Rightarrow> block_slot \<Rightarrow> block_slot option" where
  "due_slot b window cs s = do {
     (e, _) \<leftarrow> chain_slot_epoch b cs s;
     start \<leftarrow> chain_epoch_start b cs e;
     raw_add b start window
   }"

definition same_epoch :: "build \<Rightarrow> chain_summary \<Rightarrow> block_slot \<Rightarrow> block_slot \<Rightarrow> bool" where
  "same_epoch b cs s s' \<longleftrightarrow>
     map_option fst (chain_slot_epoch b cs s) = map_option fst (chain_slot_epoch b cs s') \<and> chain_slot_epoch b cs s \<noteq> None"

lemma later_epoch_trans: "later_epoch b cs s t \<Longrightarrow> later_epoch b cs t u \<Longrightarrow> later_epoch b cs s u"
  by (auto simp: later_epoch_def split: option.splits)

lemma same_later: "same_epoch b cs s t \<Longrightarrow> later_epoch b cs t u = later_epoch b cs s u"
  by (auto simp: same_epoch_def later_epoch_def split: option.splits)

lemma same_epoch_trans: "same_epoch b cs s t \<Longrightarrow> same_epoch b cs t u \<Longrightarrow> same_epoch b cs s u"
  by (auto simp: same_epoch_def)

lemma same_due: "same_epoch b cs s t \<Longrightarrow> due_slot b w cs t = due_slot b w cs s"
  by (cases "chain_slot_epoch b cs s"; cases "chain_slot_epoch b cs t") (auto simp: same_epoch_def due_slot_def)

lemma block_events_cases:
  assumes "chain_ok cs" and "chain_start cs \<le> cp_slot p" and "cp_slot p \<le> slot_of blk"
    and "block_events b cs w (Some p) blk = Some now"
  obtains (ewrap) "now = [EvEwrap (slot_of blk), EvEstart (slot_of blk), EvBlock blk]" "later_epoch b cs (cp_slot p) (slot_of blk)"
    | (rupd) due where "now = [EvRupd (slot_of blk), EvBlock blk]" "same_epoch b cs (cp_slot p) (slot_of blk)"
        "due_slot b w cs (cp_slot p) = Some due" "cp_slot p \<le> due" "due < slot_of blk"
    | (plain) "now = [EvBlock blk]" "same_epoch b cs (cp_slot p) (slot_of blk)"
proof -
  let ?s = "cp_slot p" and ?t = "slot_of blk"
  from assms(2,3) have t: "chain_start cs \<le> ?t" by simp
  obtain e k e' k' where e: "chain_slot_epoch b cs ?s = Some (e, k)" and e': "chain_slot_epoch b cs ?t = Some (e', k')"
    using chain.epoch_total [OF assms(1,2), of b] chain.epoch_total [OF assms(1) t, of b] by blast
  show thesis
  proof (cases "e = e'")
    case True
    with assms(4) e e' rupd plain show thesis
      by (auto simp: block_events_def epoch_boundary_def rupd_boundary_def same_epoch_def due_slot_def panic_simps split: if_splits)
  next
    case False
    then have "now = [EvEwrap ?t, EvEstart ?t, EvBlock blk]"
      using assms(4) e e' by (auto simp: block_events_def epoch_boundary_def panic_simps split: if_splits)
    moreover have "later_epoch b cs ?s ?t"
      using chain.epoch_mono [OF assms(1-3) e e'] False e e' by (simp add: later_epoch_def)
    ultimately show thesis by (rule ewrap)
  qed
qed

lemma schedule_ewraps:
  assumes "chain_ok cs" and "chain_start cs \<le> cp_slot p" and "sorted (cp_slot p # map slot_of blks)"
    and "schedule b (Some p) (map (\<lambda>blk. (blk, cs, w)) blks) = Some evs"
  shows "sorted_wrt (later_epoch b cs) (concat (map ewrap_slot evs)) \<and>
    (\<forall>s \<in> set (concat (map ewrap_slot evs)). later_epoch b cs (cp_slot p) s)"
  using assms(2-)
proof (induction blks arbitrary: p evs)
  case (Cons blk blks)
  from Cons.prems(3) obtain now later where now: "block_events b cs w (Some p) blk = Some now"
      and later: "schedule b (Some (block_point blk)) (map (\<lambda>blk. (blk, cs, w)) blks) = Some later" and evs: "evs = now @ later"
    by (auto simp: panic_simps)
  have pt: "cp_slot (block_point blk) = slot_of blk" by (simp add: block_point_def slot_of_def)
  have le: "cp_slot p \<le> slot_of blk" "sorted (slot_of blk # map slot_of blks)" using Cons.prems(2) by auto
  then have IH: "sorted_wrt (later_epoch b cs) (concat (map ewrap_slot later)) \<and>
      (\<forall>s \<in> set (concat (map ewrap_slot later)). later_epoch b cs (slot_of blk) s)"
    using Cons.IH [of "block_point blk" later] later Cons.prems(1) pt by auto
  from assms(1) Cons.prems(1) le(1) now show ?case
  proof (cases rule: block_events_cases)
    case ewrap
    with IH evs show ?thesis by (auto intro: later_epoch_trans)
  next
    case (rupd due)
    with IH evs same_later show ?thesis by fastforce
  next
    case plain
    with IH evs same_later show ?thesis by fastforce
  qed
qed simp

lemma schedule_rupds:
  assumes "chain_ok cs" and "chain_start cs \<le> cp_slot p" and "sorted (cp_slot p # map slot_of blks)"
    and "schedule b (Some p) (map (\<lambda>blk. (blk, cs, w)) blks) = Some evs"
  shows "sorted_wrt (later_epoch b cs) (concat (map rupd_slot evs)) \<and>
    (\<forall>s \<in> set (concat (map rupd_slot evs)). later_epoch b cs (cp_slot p) s \<or>
       same_epoch b cs (cp_slot p) s \<and> (\<exists>due. due_slot b w cs (cp_slot p) = Some due \<and> cp_slot p \<le> due))"
  using assms(2-)
proof (induction blks arbitrary: p evs)
  case (Cons blk blks)
  from Cons.prems(3) obtain now later where now: "block_events b cs w (Some p) blk = Some now"
      and later: "schedule b (Some (block_point blk)) (map (\<lambda>blk. (blk, cs, w)) blks) = Some later" and evs: "evs = now @ later"
    by (auto simp: panic_simps)
  have pt: "cp_slot (block_point blk) = slot_of blk" by (simp add: block_point_def slot_of_def)
  have le: "cp_slot p \<le> slot_of blk" "sorted (slot_of blk # map slot_of blks)" using Cons.prems(2) by auto
  have start: "chain_start cs \<le> slot_of blk" using Cons.prems(1) le(1) by simp
  have IH: "sorted_wrt (later_epoch b cs) (concat (map rupd_slot later))"
      "\<And>s. s \<in> set (concat (map rupd_slot later)) \<Longrightarrow> later_epoch b cs (slot_of blk) s \<or>
         same_epoch b cs (slot_of blk) s \<and> (\<exists>due. due_slot b w cs (slot_of blk) = Some due \<and> slot_of blk \<le> due)"
    using Cons.IH [of "block_point blk" later, unfolded pt, OF start le(2) later] by blast+
  from assms(1) Cons.prems(1) le(1) now show ?case
  proof (cases rule: block_events_cases)
    case ewrap
    have "later_epoch b cs (cp_slot p) s" if "s \<in> set (concat (map rupd_slot later))" for s
      using IH(2) [OF that] ewrap(2)
      by (auto intro: later_epoch_trans simp: later_epoch_def same_epoch_def split: option.splits)
    with ewrap IH(1) evs show ?thesis by auto
  next
    case (rupd due)
    have *: "later_epoch b cs (slot_of blk) s" if "s \<in> set (concat (map rupd_slot later))" for s
      using IH(2) [OF that] same_due [OF rupd(2), of w] rupd(3,5) by auto
    then have "later_epoch b cs (cp_slot p) s" if "s \<in> set (concat (map rupd_slot later))" for s
      using that same_later [OF rupd(2)] by blast
    with * rupd IH(1) evs show ?thesis by auto
  next
    case plain
    have "later_epoch b cs (cp_slot p) s \<or> same_epoch b cs (cp_slot p) s \<and>
        (\<exists>due. due_slot b w cs (cp_slot p) = Some due \<and> cp_slot p \<le> due)" if "s \<in> set (concat (map rupd_slot later))" for s
      using IH(2) [OF that] same_later [OF plain(2)] same_due [OF plain(2), of w] same_epoch_trans [OF plain(2)] le(1)
      by (metis order_trans)
    with plain IH(1) evs show ?thesis by auto
  qed
qed simp

section \<open>Properties\<close>

text \<open>
  C5. The work buffer keeps the schedule. From a restart point or from an empty chain, for every
  interleaving of arriving blocks and popped work units that does not panic, the units popped so far
  followed by what is left in the buffer are exactly the schedule of the blocks that arrived: no block is
  lost, repeated or reordered by the batching, an epoch is closed and then opened right before its first
  block, and the rewards update comes right before the block that makes it due. This also holds
  when the node stops at a configured epoch.
\<close>

theorem work_buffer_refines_schedule:
  assumes "run_buffer b stop acts buf = Some (us, buf')" and "buf = Empty \<or> buf = Restart p"
  shows "schedule b (position_of buf) (arrivals_of acts) = Some (concat (map unit_events us) @ pending_events buf')"
  using run_refines [OF assms(1)] assms(2) by auto

definition sample_summary :: chain_summary where
  "sample_summary = append_era 7 \<lparr>er_start = \<lparr>eb_epoch = 0, eb_slot = 0, eb_timestamp = 0\<rparr>, er_end = None,
     er_epoch_length = 100, er_slot_length = 1, er_protocol = 7\<rparr> chain_summary_default"

definition sample_arrival :: "block_slot \<Rightarrow> owned_block" where
  "sample_arrival slot = ([1], \<lparr>bv_slot = slot, bv_hash = 0, bv_prev_hash = None, bv_txs = []\<rparr>)"

definition sample_build :: build where
  "sample_build = \<lparr>strict = True, overflow_checks = True\<rparr>"

lemma sample_summary_ok: "chain_ok sample_summary" "chain_start sample_summary = 0"
  by (simp_all add: sample_summary_def chain_ok_def append_era_def chain_summary_default_def era_ok_def chain_start_def first_era_def)

lemma sample_slot_epochs:
  "chain_slot_epoch sample_build sample_summary 5 = Some (0, 5)"
  "chain_slot_epoch sample_build sample_summary 60 = Some (0, 60)"
  "chain_slot_epoch sample_build sample_summary 120 = Some (1, 20)"
  "chain_epoch_start sample_build sample_summary 0 = Some 0"
  "chain_epoch_start sample_build sample_summary 1 = Some 100"
  by (simp_all add: chain_slot_epoch_def chain_epoch_start_def era_for_slot_def era_for_epoch_def protocol_and_era_for_epoch_def
      era_slot_epoch_def era_epoch_start_def sample_build_def sample_summary_def append_era_def chain_summary_default_def
      raw_sub_def raw_add_def raw_mul_def checked_sub_def checked_add_def checked_mul_def checked_div_def)

theorem work_buffer_refines_schedule_witness:
  "\<exists>us. run_buffer sample_build None [Receive (sample_arrival 60) sample_summary 40, Pop,
      Receive (sample_arrival 120) sample_summary 40, Pop] (Restart (Specific 5 0)) =
        Some (us :: (nat, nat) internal_work_unit list, EwrapBoundary (sample_arrival 120) 0) \<and>
    schedule sample_build (Some (Specific 5 0)) [(sample_arrival 60, sample_summary, 40), (sample_arrival 120, sample_summary, 40)] =
      Some [EvRupd 60, EvBlock (sample_arrival 60), EvEwrap 120, EvEstart 120, EvBlock (sample_arrival 120)]"
proof -
  have run: "run_buffer sample_build None [Receive (sample_arrival 60) sample_summary 40, Pop,
      Receive (sample_arrival 120) sample_summary 40, Pop] (Restart (Specific 5 0) :: (nat, nat) work_buffer) =
    Some ([UnitRupd 60, UnitBlocks (for_single_block (work_of (sample_arrival 60)))], EwrapBoundary (sample_arrival 120) 0)"
    by (simp add: buffer_receive_def epoch_boundary_def rupd_boundary_def sample_slot_epochs slot_of_def sample_arrival_def block_point_def
        raw_add_def checked_add_def)
  have "slot_of (sample_arrival 120) = 120" by (simp add: slot_of_def sample_arrival_def)
  with work_buffer_refines_schedule [OF run, of "Specific 5 0"] run show ?thesis
    by (simp add: position_of_def del: run_buffer.simps schedule.simps)
qed

text \<open>
  C23. Boundaries come once per epoch. When blocks arrive in the order of their slots, the slots at which
  epochs are closed are in ever later epochs, and so are the slots at which rewards are updated: no epoch is closed twice
  and no epoch's rewards are computed twice, wherever the blocks fall.
\<close>

theorem boundaries_once_per_epoch:
  assumes "chain_ok cs" and "chain_start cs \<le> cp_slot p" and "sorted (cp_slot p # map slot_of blks)"
    and "schedule b (Some p) (map (\<lambda>blk. (blk, cs, w)) blks) = Some evs"
  shows "sorted_wrt (later_epoch b cs) (concat (map ewrap_slot evs)) \<and> sorted_wrt (later_epoch b cs) (concat (map rupd_slot evs))"
  using schedule_ewraps [OF assms] schedule_rupds [OF assms] by blast

theorem boundaries_once_per_epoch_witness:
  "\<exists>evs. schedule sample_build (Some (Specific 5 0)) (map (\<lambda>blk. (blk, sample_summary, 40)) [sample_arrival 60, sample_arrival 120]) = Some evs \<and>
     EvRupd 60 \<in> set evs \<and> EvEwrap 120 \<in> set evs \<and>
     sorted_wrt (later_epoch sample_build sample_summary) (concat (map ewrap_slot evs)) \<and>
     sorted_wrt (later_epoch sample_build sample_summary) (concat (map rupd_slot evs))"
proof -
  let ?evs = "[EvRupd 60, EvBlock (sample_arrival 60), EvEwrap 120, EvEstart 120, EvBlock (sample_arrival 120)]"
  have run: "schedule sample_build (Some (Specific 5 0)) (map (\<lambda>blk. (blk, sample_summary, 40)) [sample_arrival 60, sample_arrival 120]) = Some ?evs"
    by (simp add: block_events_def epoch_boundary_def rupd_boundary_def sample_slot_epochs slot_of_def sample_arrival_def block_point_def
        raw_add_def checked_add_def)
  have "sorted (cp_slot (Specific 5 0) # map slot_of [sample_arrival 60, sample_arrival 120])"
    by (simp add: slot_of_def sample_arrival_def)
  with boundaries_once_per_epoch [OF sample_summary_ok(1) _ _ run] run show ?thesis
    by (simp add: sample_summary_ok(2) del: schedule.simps)
qed

end
