(* ===== verification/Node_Logic.thy ===== *)
theory Node_Logic
  imports Work_Buffer Work_Unit
begin

text \<open>
  The logic of the chain between the node and the work buffer (\<^verbatim>\<open>CardanoLogic\<close> of
  \<^verbatim>\<open>crates/cardano/src/lib.rs\<close>) and the two drivers that feed it: live synchronisation
  (\<^verbatim>\<open>roll_forward\<close> of \<^verbatim>\<open>sync.rs\<close>) and bulk import
  (\<^verbatim>\<open>import_blocks\<close> of \<^verbatim>\<open>import.rs\<close>). The execution of a work unit and
  the reading of the eras from the stores are arguments; the unit of a forced stop is modelled, since
  the loop that drains the buffer ends because of it.
\<close>

section \<open>The chain logic\<close>

record ('d, 'e) cardano_logic =
  cl_stop_epoch :: "epoch option"
  cl_work :: "('d, 'e) work_buffer"
  cl_eras :: chain_summary
  cl_stability_window :: u64
  cl_needs_cache_refresh :: bool

definition logic_initialize :: "epoch option \<Rightarrow> chain_point option \<Rightarrow> chain_summary \<Rightarrow> u64 \<Rightarrow> ('d, 'e) cardano_logic" where
  "logic_initialize stop_epoch cursor eras stability_window =
     \<lparr>cl_stop_epoch = stop_epoch,
      cl_work = (case cursor of Some cursor \<Rightarrow> new_from_cursor cursor | None \<Rightarrow> Empty),
      cl_eras = eras, cl_stability_window = stability_window, cl_needs_cache_refresh = False\<rparr>"

definition can_receive_block :: "('d, 'e) cardano_logic \<Rightarrow> bool" where
  "can_receive_block l = buffer_can_receive (cl_work l)"

definition receive_block :: "build \<Rightarrow> codec \<Rightarrow> bytes \<Rightarrow> ('d, 'e) cardano_logic
    \<Rightarrow> ((chain_error + block_slot) \<times> ('d, 'e) cardano_logic) option" where
  "receive_block b cd raw l =
     (if \<not> can_receive_block l then Some (Inl (CantReceiveBlock raw), l)
      else case block_decode cd raw of
          Inl err \<Rightarrow> Some (Inl err, l)
        | Inr view \<Rightarrow> do {
            new_work \<leftarrow> buffer_receive b (raw, view) (cl_eras l) (cl_stability_window l) (cl_work l);
            seen \<leftarrow> last_point_seen new_work;
            Some (Inr (cp_slot seen), l\<lparr>cl_work := new_work\<rparr>)
          })"

definition refresh_cache :: "('m \<Rightarrow> chain_error + chain_summary) \<Rightarrow> 'm \<Rightarrow> ('d, 'e) cardano_logic \<Rightarrow> ('d, 'e) cardano_logic" where
  "refresh_cache load m l = (case load m of Inl _ \<Rightarrow> l | Inr eras \<Rightarrow> l\<lparr>cl_eras := eras\<rparr>)"

text \<open>A failed refresh is only logged; the flag is cleared all the same.\<close>

fun changes_eras :: "('d, 'e) internal_work_unit option \<Rightarrow> bool" where
  "changes_eras (Some UnitGenesis) = True"
| "changes_eras (Some (UnitEstart _)) = True"
| "changes_eras _ = False"

definition pop_work :: "build \<Rightarrow> ('m \<Rightarrow> chain_error + chain_summary) \<Rightarrow> 'm \<Rightarrow> ('d, 'e) cardano_logic
    \<Rightarrow> (('d, 'e) internal_work_unit option \<times> ('d, 'e) cardano_logic) option" where
  "pop_work b load m l =
     (let l = (if cl_needs_cache_refresh l then (refresh_cache load m l)\<lparr>cl_needs_cache_refresh := False\<rparr> else l) in do {
        (work_unit, new_buffer) \<leftarrow> buffer_pop b (cl_stop_epoch l) (cl_work l);
        (let l = l\<lparr>cl_work := new_buffer\<rparr> in
         Some (work_unit, if changes_eras work_unit then l\<lparr>cl_needs_cache_refresh := True\<rparr> else l))
      })"

section \<open>Draining the buffer\<close>

definition forced_stop_unit :: "(unit, 'm) work_unit" where
  "forced_stop_unit = \<lparr>
     wu_total_shards = (\<lambda>_. 1), wu_start_shard = (\<lambda>_. 0),
     wu_initialize = (\<lambda>u m. Some (Inr (), u, m)),
     wu_load = (\<lambda>_ u m. Some (Inr (), u, m)), wu_compute = (\<lambda>_ u m. Some (Inr (), u, m)),
     wu_commit_wal = (\<lambda>_ u m. Some (Inr (), u, m)),
     wu_commit_state = (\<lambda>_ u m. Some (Inl StopEpochReached, u, m)),
     wu_commit_archive = (\<lambda>_ u m. Some (Inr (), u, m)), wu_commit_indexes = (\<lambda>_ u m. Some (Inr (), u, m)),
     wu_finalize = (\<lambda>u m. Some (Inr (), u, m)),
     wu_tip_events = (\<lambda>_. []), wu_mempool_updates = (\<lambda>_. [])\<rparr>"

type_synonym ('d, 'e, 'm) executor = "chain_summary \<Rightarrow> ('d, 'e) internal_work_unit \<Rightarrow> 'm \<Rightarrow> ((domain_error + unit) \<times> 'm) option"

fun run_unit :: "build \<Rightarrow> bool \<Rightarrow> ('d, 'e, 'm) executor \<Rightarrow> ('d, 'e, 'm) executor" where
  "run_unit b include_wal exec eras UnitForcedStop m =
     map_option (\<lambda>(res, _, m). (res, m)) (run_lifecycle b forced_stop_unit include_wal () m)"
| "run_unit b include_wal exec eras u m = exec eras u m"

lemma run_forced_stop [simp]: "run_unit b include_wal exec eras UnitForcedStop m = Some (Inl StopEpochReached, m)"
  by (simp add: run_lifecycle_def forced_stop_unit_def shard_range_def shard_phases_def)

declare run_unit.simps(1) [simp del]

text \<open>Every pop but the one of a forced stop brings the buffer closer to idle.\<close>

fun buffer_rank :: "('d, 'e) work_buffer \<Rightarrow> nat" where
  "buffer_rank Empty = 0"
| "buffer_rank (Restart _) = 0"
| "buffer_rank ForcedStop = 0"
| "buffer_rank (OpenBatch _) = 1"
| "buffer_rank (PreForcedStop _) = 1"
| "buffer_rank (Genesis _) = 2"
| "buffer_rank (RupdBoundary _) = 2"
| "buffer_rank (EstartBoundary _ _) = 2"
| "buffer_rank (PreRupdBoundary _ _) = 3"
| "buffer_rank (EwrapBoundary _ _) = 3"
| "buffer_rank (PreEwrapBoundary _ _ _) = 4"

lemma buffer_pop_rank: "buffer_pop b stop buf = Some (Some u, buf') \<Longrightarrow> u \<noteq> UnitForcedStop \<Longrightarrow> buffer_rank buf' < buffer_rank buf"
  by (cases buf) (auto simp: panic_simps split: if_splits)

lemma pop_work_buffer:
  assumes "pop_work b load m l = Some (u, l')"
  shows "buffer_pop b (cl_stop_epoch l) (cl_work l) = Some (u, cl_work l')"
    and "cl_stop_epoch l' = cl_stop_epoch l" and "cl_stability_window l' = cl_stability_window l"
  using assms by (auto simp: pop_work_def refresh_cache_def Let_def panic_simps split: if_splits sum.splits)

function (sequential) drain_pending_work :: "build \<Rightarrow> ('m \<Rightarrow> chain_error + chain_summary) \<Rightarrow> bool \<Rightarrow> ('d, 'e, 'm) executor
    \<Rightarrow> ('d, 'e) cardano_logic \<Rightarrow> 'm \<Rightarrow> ((domain_error + unit) \<times> ('d, 'e) cardano_logic \<times> 'm) option" where
  "drain_pending_work b load include_wal exec l m =
     (case pop_work b load m l of
        None \<Rightarrow> None
      | Some (None, l) \<Rightarrow> Some (Inr (), l, m)
      | Some (Some work, l) \<Rightarrow>
          (case run_unit b include_wal exec (cl_eras l) work m of
             None \<Rightarrow> None
           | Some (Inl err, m) \<Rightarrow> Some (Inl err, l, m)
           | Some (Inr _, m) \<Rightarrow> drain_pending_work b load include_wal exec l m))"
  by pat_completeness auto
termination
proof (relation "measure (\<lambda>(b, load, include_wal, exec, l, m). buffer_rank (cl_work l))", goal_cases)
  case (2 b load include_wal exec l m x v l' work r res m' u)
  then have pop: "buffer_pop b (cl_stop_epoch l) (cl_work l) = Some (Some work, cl_work l')" and "work \<noteq> UnitForcedStop"
    using pop_work_buffer(1) [of b load m l "Some work" l'] by auto
  from buffer_pop_rank [OF this] show ?case by simp
qed simp

declare drain_pending_work.simps [simp del]

section \<open>The drivers\<close>

definition roll_forward :: "build \<Rightarrow> codec \<Rightarrow> ('m \<Rightarrow> chain_error + chain_summary) \<Rightarrow> ('d, 'e, 'm) executor \<Rightarrow> bytes
    \<Rightarrow> ('d, 'e) cardano_logic \<Rightarrow> 'm \<Rightarrow> ((domain_error + block_slot) \<times> ('d, 'e) cardano_logic \<times> 'm) option" where
  "roll_forward b cd load exec raw l m =
     (case drain_pending_work b load True exec l m of
        None \<Rightarrow> None
      | Some (Inl err, l, m) \<Rightarrow> Some (Inl err, l, m)
      | Some (Inr _, l, m) \<Rightarrow>
          (case receive_block b cd raw l of
             None \<Rightarrow> None
           | Some (Inl err, l) \<Rightarrow> Some (Inl (DomainChainError err), l, m)
           | Some (Inr seen, l) \<Rightarrow>
               (case drain_pending_work b load True exec l m of
                  None \<Rightarrow> None
                | Some (Inl err, l, m) \<Rightarrow> Some (Inl err, l, m)
                | Some (Inr _, l, m) \<Rightarrow> Some (Inr seen, l, m))))"

text \<open>The loop of \<^verbatim>\<open>import_blocks\<close>, which drains only when the buffer refuses a block.\<close>

fun import_loop :: "build \<Rightarrow> codec \<Rightarrow> ('m \<Rightarrow> chain_error + chain_summary) \<Rightarrow> ('d, 'e, 'm) executor \<Rightarrow> bytes list \<Rightarrow> block_slot
    \<Rightarrow> ('d, 'e) cardano_logic \<Rightarrow> 'm \<Rightarrow> ((domain_error + block_slot) \<times> ('d, 'e) cardano_logic \<times> 'm) option" where
  "import_loop b cd load exec [] seen l m = Some (Inr seen, l, m)"
| "import_loop b cd load exec (raw # raws) seen l m =
     (case (if can_receive_block l then Some (Inr (), l, m) else drain_pending_work b load False exec l m) of
        None \<Rightarrow> None
      | Some (Inl err, l, m) \<Rightarrow> Some (Inl err, l, m)
      | Some (Inr _, l, m) \<Rightarrow>
          (case receive_block b cd raw l of
             None \<Rightarrow> None
           | Some (Inl err, l) \<Rightarrow> Some (Inl (DomainChainError err), l, m)
           | Some (Inr seen, l) \<Rightarrow> import_loop b cd load exec raws seen l m))"

definition import_blocks :: "build \<Rightarrow> codec \<Rightarrow> ('m \<Rightarrow> chain_error + chain_summary) \<Rightarrow> ('d, 'e, 'm) executor \<Rightarrow> bytes list
    \<Rightarrow> ('d, 'e) cardano_logic \<Rightarrow> 'm \<Rightarrow> ((domain_error + block_slot) \<times> ('d, 'e) cardano_logic \<times> 'm) option" where
  "import_blocks b cd load exec raws l m =
     (case import_loop b cd load exec raws 0 l m of
        None \<Rightarrow> None
      | Some (Inl err, l, m) \<Rightarrow> Some (Inl err, l, m)
      | Some (Inr seen, l, m) \<Rightarrow>
          (case drain_pending_work b load False exec l m of
             None \<Rightarrow> None
           | Some (Inl err, l, m) \<Rightarrow> Some (Inl err, l, m)
           | Some (Inr _, l, m) \<Rightarrow> Some (Inr seen, l, m)))"

section \<open>What a driver executes\<close>

text \<open>Work units in a row, all of them successful, each with the eras it was popped with.\<close>

fun run_units :: "('d, 'e, 'm) executor \<Rightarrow> (chain_summary \<times> ('d, 'e) internal_work_unit) list \<Rightarrow> 'm \<Rightarrow> 'm option" where
  "run_units exec [] m = Some m"
| "run_units exec ((eras, u) # us) m =
     (case exec eras u m of Some (Inr _, m') \<Rightarrow> run_units exec us m' | _ \<Rightarrow> None)"

definition units_events :: "(chain_summary \<times> ('d, 'e) internal_work_unit) list \<Rightarrow> chain_event list" where
  "units_events us = concat (map (unit_events \<circ> snd) us)"

fun idle :: "('d, 'e) work_buffer \<Rightarrow> bool" where
  "idle Empty = True"
| "idle (Restart _) = True"
| "idle _ = False"

lemma run_units_append: "run_units exec (us @ vs) m = Option.bind (run_units exec us m) (run_units exec vs)"
  by (induction us arbitrary: m) (auto split: option.splits sum.splits)

lemma units_events_simps [simp]:
  "units_events [] = []" "units_events ((eras, u) # us) = unit_events u @ units_events us"
  "units_events (us @ vs) = units_events us @ units_events vs"
  by (simp_all add: units_events_def)

lemma pop_idle: "buffer_pop b stop buf = Some (None, buf') \<Longrightarrow> idle buf \<and> buf' = buf \<and> pending_events buf = []"
  by (cases buf) (auto simp: panic_simps)

text \<open>A drain that succeeds leaves the buffer idle at the same point and executes what was pending.\<close>

lemma drain_executes:
  assumes "drain_pending_work b load include_wal exec l m = Some (Inr (), l', m')"
  shows "idle (cl_work l') \<and> position_of (cl_work l') = position_of (cl_work l) \<and> cl_stability_window l' = cl_stability_window l \<and>
    (\<exists>us. run_units exec us m = Some m' \<and> units_events us = pending_events (cl_work l))"
  using assms
proof (induction b load include_wal exec l m rule: drain_pending_work.induct)
  case (1 b load include_wal exec l m)
  from "1.prems" obtain u l1 where pop: "pop_work b load m l = Some (u, l1)"
    by (subst (asm) drain_pending_work.simps) (auto split: option.splits)
  note buf = pop_work_buffer [OF pop]
  show ?case
  proof (cases u)
    case None
    with "1.prems" pop have "l' = l1" "m' = m" by (subst (asm) drain_pending_work.simps; simp)+
    with pop_idle [of b "cl_stop_epoch l" "cl_work l" "cl_work l1"] buf None show ?thesis
      by (auto intro: exI [of _ "[]"])
  next
    case (Some work)
    with "1.prems" pop obtain m1 where run: "run_unit b include_wal exec (cl_eras l1) work m = Some (Inr (), m1)"
        and rest: "drain_pending_work b load include_wal exec l1 m1 = Some (Inr (), l', m')"
      by (subst (asm) drain_pending_work.simps) (auto split: option.splits sum.splits)
    have work: "work \<noteq> UnitForcedStop" using run by auto
    then have exec: "exec (cl_eras l1) work m = Some (Inr (), m1)" using run by (cases work) auto
    from "1.IH" [OF pop refl Some run] rest obtain us where us: "run_units exec us m1 = Some m'"
        "units_events us = pending_events (cl_work l1)" and IH: "idle (cl_work l')" "position_of (cl_work l') = position_of (cl_work l1)"
        "cl_stability_window l' = cl_stability_window l1" by auto
    have stop: "cl_work l1 \<noteq> ForcedStop"
    proof
      assume "cl_work l1 = ForcedStop"
      then have "pop_work b load m1 l1 = Some (Some UnitForcedStop, l2) \<Longrightarrow> False" for l2
        using rest by (subst (asm) drain_pending_work.simps) auto
      moreover have "\<exists>l2. pop_work b load m1 l1 = Some (Some UnitForcedStop, l2)"
        using \<open>cl_work l1 = ForcedStop\<close> by (auto simp: pop_work_def Let_def refresh_cache_def split: sum.splits)
      ultimately show False by blast
    qed
    note step = pop_refines [OF buf(1) [unfolded Some]]
    have "run_units exec ((cl_eras l1, work) # us) m = Some m'" using exec us(1) by simp
    moreover have "units_events ((cl_eras l1, work) # us) = pending_events (cl_work l)" using step(1) us(2) by simp
    ultimately show ?thesis using IH stop step(2) buf(3) by metis
  qed
qed

lemma receive_block_events:
  assumes "receive_block b cd raw l = Some (Inr s, l')"
  obtains view now where "decode_block cd raw = Some view" and "s = bv_slot view"
    and "block_events b (cl_eras l) (cl_stability_window l) (position_of (cl_work l)) (raw, view) = Some now"
    and "pending_events (cl_work l') = pending_events (cl_work l) @ now"
    and "position_of (cl_work l') = Some (block_point (raw, view))" and "cl_stability_window l' = cl_stability_window l"
proof -
  from assms obtain view where view: "decode_block cd raw = Some view"
      and recv: "buffer_receive b (raw, view) (cl_eras l) (cl_stability_window l) (cl_work l) = Some (cl_work l')"
      and seen: "\<exists>p. last_point_seen (cl_work l') = Some p \<and> s = cp_slot p" and l': "cl_stability_window l' = cl_stability_window l"
    by (auto simp: receive_block_def block_decode_def panic_simps split: if_splits sum.splits option.splits)
  from recv obtain now where now: "block_events b (cl_eras l) (cl_stability_window l) (position_of (cl_work l)) (raw, view) = Some now"
      "pending_events (cl_work l') = pending_events (cl_work l) @ now" "position_of (cl_work l') = Some (block_point (raw, view))"
    by (rule receive_refines)
  have "s = bv_slot view" using seen now(3) by (auto simp: position_of_def block_point_def split: if_splits)
  with view now l' show thesis by (intro that) auto
qed

lemma import_loop_executes:
  assumes "import_loop b cd load exec raws s0 l m = Some (Inr s, l', m')"
  shows "\<exists>arrivals evs us. list_all2 (\<lambda>raw (blk, _). fst blk = raw \<and> decode_block cd raw = Some (snd blk)) raws arrivals \<and>
    schedule b (position_of (cl_work l)) arrivals = Some evs \<and> run_units exec us m = Some m' \<and>
    pending_events (cl_work l) @ evs = units_events us @ pending_events (cl_work l')"
  using assms
proof (induction raws arbitrary: s0 l m)
  case Nil
  then show ?case by (auto intro!: exI [of _ "[]"])
next
  case (Cons raw raws)
  let ?drain = "if can_receive_block l then Some (Inr (), l, m) else drain_pending_work b load False exec l m"
  from Cons.prems obtain l1 m1 l2 s2 where drain: "?drain = Some (Inr (), l1, m1)"
      and recv: "receive_block b cd raw l1 = Some (Inr s2, l2)"
      and rest: "import_loop b cd load exec raws s2 l2 m1 = Some (Inr s, l', m')"
    unfolding import_loop.simps by (auto split: option.splits sum.splits)
  obtain us where us: "run_units exec us m = Some m1" "pending_events (cl_work l) = units_events us @ pending_events (cl_work l1)"
      "position_of (cl_work l1) = position_of (cl_work l)"
  proof (cases "can_receive_block l")
    case True
    with drain show thesis by (intro that [of "[]"]) auto
  next
    case False
    with drain drain_executes [of b load False exec l m l1 m1] obtain us where "run_units exec us m = Some m1"
        "units_events us = pending_events (cl_work l)" "idle (cl_work l1)" "position_of (cl_work l1) = position_of (cl_work l)" by auto
    then show thesis by (intro that [of us]) (cases "cl_work l1"; simp)+
  qed
  from recv obtain view now where view: "decode_block cd raw = Some view"
      and now: "block_events b (cl_eras l1) (cl_stability_window l1) (position_of (cl_work l1)) (raw, view) = Some now"
      and l2: "pending_events (cl_work l2) = pending_events (cl_work l1) @ now" "position_of (cl_work l2) = Some (block_point (raw, view))"
    by (rule receive_block_events)
  from Cons.IH [OF rest] obtain arrivals evs us' where
      "list_all2 (\<lambda>raw (blk, _). fst blk = raw \<and> decode_block cd raw = Some (snd blk)) raws arrivals"
      "schedule b (position_of (cl_work l2)) arrivals = Some evs" "run_units exec us' m1 = Some m'"
      "pending_events (cl_work l2) @ evs = units_events us' @ pending_events (cl_work l')" by blast
  with us l2 view now show ?case
    by (intro exI [of _ "((raw, view), cl_eras l1, cl_stability_window l1) # arrivals"] exI [of _ "now @ evs"] exI [of _ "us @ us'"])
      (auto simp: run_units_append)
qed



text \<open>A logic at a cursor of epoch 0, with an executor that records the events of the units it runs.\<close>

definition sample_decoder :: codec where
  "sample_decoder = \<lparr>decode_block = (\<lambda>raw. if raw = [1] then Some (snd (sample_arrival 60)) else None),
     decodes_output = (\<lambda>_. True), extract_tags = (\<lambda>_. None), index_block = undefined\<rparr>"

definition sample_exec :: "(nat, nat, chain_event list) executor" where
  "sample_exec eras u evs = Some (Inr (), evs @ unit_events u)"

definition sample_load :: "chain_event list \<Rightarrow> chain_error + chain_summary" where
  "sample_load _ = Inr sample_summary"

definition sample_logic :: "(nat, nat) cardano_logic" where
  "sample_logic = logic_initialize None (Some (Specific 5 0)) sample_summary 40"

lemma sample_pair [simp]: "([1], snd (sample_arrival slot)) = sample_arrival slot" "slot_of (sample_arrival slot) = slot"
  "block_point (sample_arrival slot) = Specific slot 0"
  by (simp_all add: sample_arrival_def slot_of_def block_point_def)

lemma sample_receive:
  "receive_block sample_build sample_decoder [1] sample_logic = Some (Inr 60, sample_logic\<lparr>cl_work := RupdBoundary (sample_arrival 60)\<rparr>)"
  by (simp add: receive_block_def sample_logic_def logic_initialize_def can_receive_block_def new_from_cursor_def block_decode_def
      sample_decoder_def buffer_receive_def epoch_boundary_def rupd_boundary_def sample_slot_epochs raw_add_def checked_add_def panic_simps)

lemma sample_drains:
  "drain_pending_work sample_build sample_load wal sample_exec sample_logic evs = Some (Inr (), sample_logic, evs)"
  "drain_pending_work sample_build sample_load wal sample_exec (sample_logic\<lparr>cl_work := RupdBoundary (sample_arrival 60)\<rparr>) evs =
     Some (Inr (), sample_logic\<lparr>cl_work := Restart (Specific 60 0)\<rparr>, evs @ [EvRupd 60, EvBlock (sample_arrival 60)])"
  by (simp_all add: drain_pending_work.simps pop_work_def sample_logic_def logic_initialize_def new_from_cursor_def sample_exec_def Let_def panic_simps)



end
