(* ===== verification/Shards.thy ===== *)
theory Shards
  imports Entity_Delta
begin

text \<open>
  The key ranges that split the accounts into shards (\<^verbatim>\<open>crates/cardano/src/shard.rs\<close>).
  The boundary work units visit the accounts shard by shard; the property is that the shards of every
  valid plan partition the keys of credentials, so that no account is visited twice or left out.
\<close>

definition prefix_space :: u32 where
  "prefix_space = 256"

definition account_shards :: u32 where
  "account_shards = 32"

definition cred_key_array_tag :: u8 where
  "cred_key_array_tag = 0x82"

definition cred_key_variant_addrkeyhash :: u8 where
  "cred_key_variant_addrkeyhash = 0"

definition cred_key_variant_scripthash :: u8 where
  "cred_key_variant_scripthash = 1"

definition cred_key_bytes_header :: "u8 \<times> u8" where
  "cred_key_bytes_header = (0x58, 0x1c)"

definition cred_key_hash_offset :: nat where
  "cred_key_hash_offset = 4"

definition validate_total_shards :: "u32 \<Rightarrow> string + unit" where
  "validate_total_shards total_shards =
     (if total_shards = 0 then Inl ''total_shards must be >= 1''
      else if prefix_space mod total_shards \<noteq> 0 then Inl ''total_shards must divide PREFIX_SPACE''
      else Inr ())"

text \<open>The two ends are byte arrays filled by index; the casts to a byte truncate.\<close>

definition variant_range :: "build \<Rightarrow> u8 \<Rightarrow> u32 \<Rightarrow> u32 \<Rightarrow> (entity_key \<times> entity_key) option" where
  "variant_range b variant shard_index total_shards = do {
     let step = prefix_space div total_shards;
     lo \<leftarrow> raw_mul b shard_index step;
     let start = (replicate key_size 0)[0 := cred_key_array_tag, 1 := variant, 2 := fst cred_key_bytes_header,
       3 := snd cred_key_bytes_header, cred_key_hash_offset := ucast lo];
     let end0 = (replicate key_size 0)[0 := cred_key_array_tag, 1 := variant, 2 := fst cred_key_bytes_header];
     next_index \<leftarrow> raw_add b shard_index 1;
     end1 \<leftarrow> (if next_index = total_shards
        then do {
          h \<leftarrow> raw_add b (snd cred_key_bytes_header) 1;
          Some (end0[3 := h])
        }
        else do {
          hi \<leftarrow> raw_mul b next_index step;
          Some (end0[3 := snd cred_key_bytes_header, cred_key_hash_offset := ucast hi])
        });
     Some (entity_key_from start, entity_key_from end1)
   }"

definition shard_key_ranges :: "build \<Rightarrow> u32 \<Rightarrow> u32 \<Rightarrow> (entity_key \<times> entity_key) list option" where
  "shard_key_ranges b shard_index total_shards = do {
     _ \<leftarrow> assert_that (validate_total_shards total_shards = Inr ());
     _ \<leftarrow> assert_that (shard_index < total_shards);
     r0 \<leftarrow> variant_range b cred_key_variant_addrkeyhash shard_index total_shards;
     r1 \<leftarrow> variant_range b cred_key_variant_scripthash shard_index total_shards;
     Some [r0, r1]
   }"

section \<open>The shards partition the credentials\<close>

text \<open>The key of a credential, as its CBOR encoding lays it out, and the shards a key is visited in.\<close>

definition credential_key :: "u8 \<Rightarrow> bytes \<Rightarrow> entity_key" where
  "credential_key variant hash = entity_key_from ([0x82, variant, 0x58, 0x1c] @ hash)"

definition in_shard :: "build \<Rightarrow> u32 \<Rightarrow> u32 \<Rightarrow> entity_key \<Rightarrow> bool" where
  "in_shard b shard_index total_shards key =
     (case shard_key_ranges b shard_index total_shards of
        None \<Rightarrow> False
      | Some ranges \<Rightarrow> list_ex (\<lambda>(lo, hi). lo \<le> key \<and> key < hi) ranges)"

lemma zeros_least: "replicate (length xs) 0 \<le> (xs :: u8 list)"
  by (induction xs) (auto simp: le_less word_gt_0)

lemma validate_shards:
  assumes "validate_total_shards n = Inr ()"
  shows "unat (prefix_space div n) * unat n = 256" and "0 < unat n" and "unat n \<le> 256"
proof -
  have n: "n \<noteq> 0" "prefix_space mod n = 0" using assms by (auto simp: validate_total_shards_def split: if_splits)
  show pos: "0 < unat n" using n(1) by (simp add: unat_gt_0)
  have "unat prefix_space mod unat n = 0" using n(2) by (simp flip: unat_mod)
  then show eq: "unat (prefix_space div n) * unat n = 256" by (simp add: unat_div prefix_space_def mod_eq_0_iff_dvd)
  show "unat n \<le> 256" by (rule dvd_imp_le) (use eq in \<open>auto intro: dvdI [of _ _ "unat (prefix_space div n)"] simp: mult.commute\<close>)
qed

text \<open>The range of one variant, written out: a byte of the hash decides.\<close>

lemma variant_range_bytes:
  assumes "validate_total_shards n = Inr ()" and "i < n"
  obtains lo hi where "variant_range b v i n = Some ([0x82, v, 0x58, 0x1c, lo] @ replicate 27 0, hi)"
    and "unat lo = unat i * unat (prefix_space div n)"
    and "if i + 1 = n then hi = [0x82, v, 0x58, 0x1d] @ replicate 28 0
         else \<exists>h. hi = [0x82, v, 0x58, 0x1c, h] @ replicate 27 0 \<and> unat h = (unat i + 1) * unat (prefix_space div n)"
proof -
  let ?step = "prefix_space div n"
  note plan = validate_shards [OF assms(1)]
  have i: "unat i < unat n" using assms(2) by (simp add: word_less_nat_alt)
  have step: "0 < unat ?step" using plan(1) by (cases "unat ?step") auto
  have lo: "unat i * unat ?step < 256" using i plan(1) step by (metis mult.commute mult_less_cancel1)
  have next_le: "(unat i + 1) * unat ?step \<le> 256" using i plan(1) by (metis Suc_eq_plus1 Suc_leI mult.commute mult_le_mono2)
  have ni: "unat (i + 1) = unat i + 1" using i plan(3) unat_add_no_overflow [of i 1] by simp
  have mul: "raw_mul b i ?step = Some (i * ?step)" "raw_mul b (i + 1) ?step = Some ((i + 1) * ?step)" "raw_add b i 1 = Some (i + 1)"
    using lo next_le ni i plan(3) by (simp_all add: raw_exact)
  have hi: "unat ((i + 1) * ?step) = (unat i + 1) * unat ?step"
    using next_le ni by (subst unat_mul_no_overflow) simp_all
  have lo': "unat (ucast (i * ?step) :: u8) = unat i * unat ?step"
    using lo by (simp add: unsigned_ucast_eq unat_mul_no_overflow take_bit_nat_eq_self)
  have hi': "unat (ucast ((i + 1) * ?step) :: u8) = (unat i + 1) * unat ?step" if "i + 1 \<noteq> n"
  proof -
    have "unat (i + 1) < unat n" using that i ni by (metis Suc_eq_plus1 Suc_lessI word_unat_eq_iff)
    then have "(unat i + 1) * unat ?step < 256" using ni plan(1) step by (metis mult.commute mult_less_cancel1)
    then show ?thesis using hi by (simp add: unsigned_ucast_eq take_bit_nat_eq_self)
  qed
  have h1: "raw_add b (0x1c :: u8) 1 = Some 0x1d" by (subst raw_exact) simp_all
  show thesis
    by (rule that [of "ucast (i * ?step)" "if i + 1 = n then [0x82, v, 0x58, 0x1d] @ replicate 28 0
        else [0x82, v, 0x58, 0x1c, ucast ((i + 1) * ?step)] @ replicate 27 0"])
      (simp_all add: variant_range_def mul h1 lo' hi' entity_key_from_def key_size_def cred_key_array_tag_def
        cred_key_bytes_header_def cred_key_hash_offset_def numeral_eq_Suc Let_def)
qed

lemma variant_range_Some: "validate_total_shards n = Inr () \<Longrightarrow> i < n \<Longrightarrow> \<exists>r. variant_range b v i n = Some r"
  by (rule variant_range_bytes) auto

lemma variant_range_mem:
  assumes "validate_total_shards n = Inr ()" and "i < n" and "variant_range b v i n = Some (lo, hi)" and "length rest = 27"
  shows "lo \<le> credential_key w (h # rest) \<and> credential_key w (h # rest) < hi \<longleftrightarrow>
    v = w \<and> unat h div unat (prefix_space div n) = unat i"
proof -
  let ?step = "unat (prefix_space div n)"
  note plan = validate_shards [OF assms(1)]
  have step: "0 < ?step" using plan(1) by (cases ?step) auto
  obtain l hi' where range: "variant_range b v i n = Some ([0x82, v, 0x58, 0x1c, l] @ replicate 27 0, hi')" and l: "unat l = unat i * ?step"
      and hi: "if i + 1 = n then hi' = [0x82, v, 0x58, 0x1d] @ replicate 28 0
         else \<exists>x. hi' = [0x82, v, 0x58, 0x1c, x] @ replicate 27 0 \<and> unat x = (unat i + 1) * ?step"
    by (rule variant_range_bytes [OF assms(1,2)])
  from range assms(3) have lo: "lo = [0x82, v, 0x58, 0x1c, l] @ replicate 27 0" "hi = hi'" by simp_all
  have key: "credential_key w (h # rest) = [0x82, w, 0x58, 0x1c, h] @ rest"
    using assms(4) by (simp add: credential_key_def entity_key_from_def key_size_def)
  have zeros: "replicate 27 0 \<le> rest" "\<not> rest < replicate 27 0" using zeros_least [of rest] assms(4) by auto
  have low: "lo \<le> credential_key w (h # rest) \<longleftrightarrow> v < w \<or> v = w \<and> unat i * ?step \<le> unat h"
    using zeros by (auto simp: lo(1) key l [symmetric] le_less word_less_nat_alt word_unat_eq_iff)
  have high: "credential_key w (h # rest) < hi \<longleftrightarrow> w < v \<or> w = v \<and> unat h < (unat i + 1) * ?step"
  proof (cases "i + 1 = n")
    case True
    have "unat n = unat i + 1"
      using True assms(2) plan(3) unat_add_no_overflow [of i 1] by (auto simp: word_less_nat_alt)
    then have "(unat i + 1) * ?step = 256" using plan(1) by (simp add: mult.commute)
    moreover have "unat h < 256" using unsigned_less [where 'a = nat and w = h] by simp
    ultimately show ?thesis using True hi by (auto simp: lo(2) key)
  next
    case False
    then obtain x where "hi = [0x82, v, 0x58, 0x1c, x] @ replicate 27 0" "unat x = (unat i + 1) * ?step" using hi lo(2) by auto
    then show ?thesis using zeros by (auto simp: key word_less_nat_alt)
  qed
  have "unat h div ?step = unat i \<longleftrightarrow> unat i * ?step \<le> unat h \<and> unat h < (unat i + 1) * ?step"
    using less_eq_div_iff_mult_less_eq [OF step, of "unat i" "unat h"] div_less_iff_less_mult [OF step, of "unat h" "unat i + 1"]
    by linarith
  then show ?thesis unfolding low high by auto
qed

lemma in_shard_iff:
  assumes "validate_total_shards n = Inr ()" and "i < n" and "v = 0 \<or> v = 1" and "length hash = 28"
  shows "in_shard b i n (credential_key v hash) \<longleftrightarrow> unat (hd hash) div unat (prefix_space div n) = unat i"
proof -
  obtain h rest where hash: "hash = h # rest" "length rest = 27" using assms(4) by (cases hash) auto
  obtain r0 r1 where r: "variant_range b 0 i n = Some r0" "variant_range b 1 i n = Some r1"
    using variant_range_Some [OF assms(1,2)] by metis
  have "in_shard b i n (credential_key v hash) \<longleftrightarrow>
      (fst r0 \<le> credential_key v hash \<and> credential_key v hash < snd r0) \<or> (fst r1 \<le> credential_key v hash \<and> credential_key v hash < snd r1)"
    using assms r by (simp add: in_shard_def shard_key_ranges_def cred_key_variant_addrkeyhash_def cred_key_variant_scripthash_def
        split: prod.splits)
  also have "\<dots> \<longleftrightarrow> unat h div unat (prefix_space div n) = unat i"
    using variant_range_mem [OF assms(1,2) _ hash(2), of b 0 "fst r0" "snd r0" v h]
      variant_range_mem [OF assms(1,2) _ hash(2), of b 1 "fst r1" "snd r1" v h] r assms(3)
    by (auto simp: hash(1))
  finally show ?thesis by (simp add: hash(1))
qed

text \<open>
  C25. The shards partition the accounts. For every valid number of shards and the key of every credential
  (of a key hash or of a script), exactly one shard visits the key; asking for the ranges of a shard of the
  plan never panics, in a checked build or not.
\<close>

theorem shards_partition_credentials:
  assumes "validate_total_shards n = Inr ()" and "v = 0 \<or> v = 1" and "length hash = 28"
  shows "(\<forall>i. i < n \<longrightarrow> shard_key_ranges b i n \<noteq> None) \<and> (\<exists>!i. i < n \<and> in_shard b i n (credential_key v hash))"
proof -
  let ?i = "unat (hd hash) div unat (prefix_space div n)"
  note plan = validate_shards [OF assms(1)]
  have "shard_key_ranges b i n \<noteq> None" if "i < n" for i
    using variant_range_Some [OF assms(1) that, of b 0] variant_range_Some [OF assms(1) that, of b 1] assms(1) that
    by (auto simp: shard_key_ranges_def cred_key_variant_addrkeyhash_def cred_key_variant_scripthash_def)
  moreover have "unat (hd hash) < unat (prefix_space div n) * unat n"
    using plan(1) unsigned_less [where 'a = nat and w = "hd hash"] by simp
  then have lt: "?i < unat n" by (simp add: less_mult_imp_div_less mult.commute)
  then have small: "unat (word_of_nat ?i :: u32) = ?i"
    using plan(3) by (simp add: unat_of_nat take_bit_nat_eq_self)
  then have "\<exists>!i. i < n \<and> ?i = unat i"
    using lt by (intro ex1I [of _ "word_of_nat ?i"]) (auto simp: word_less_nat_alt)
  ultimately show ?thesis using in_shard_iff [OF assms(1) _ assms(2,3), of _ b] by (metis (no_types, lifting))
qed

theorem shards_partition_credentials_witness:
  "validate_total_shards account_shards = Inr () \<and>
   (\<exists>!i. i < account_shards \<and> in_shard \<lparr>strict = True, overflow_checks = True\<rparr> i account_shards (credential_key 1 (replicate 28 7)))"
proof -
  have "validate_total_shards account_shards = Inr ()"
    by (simp add: validate_total_shards_def account_shards_def prefix_space_def)
  with shards_partition_credentials [of account_shards 1 "replicate 28 7"] show ?thesis by simp
qed

end
