(* ===== verification/Ratify.thy ===== *)
theory Ratify
  imports Complex_Main Gov "HOL-Library.Product_Lexorder" "HOL-Library.Multiset"
begin

text \<open>
  The ratification engine (\<^verbatim>\<open>crates/cardano/src/ewrap/ratify.rs\<close>): the thresholds and
  tallies of the three voting bodies, the structural checks, one ratification run over the proposals of
  a snapshot in order of priority, and the pruning of the siblings of what was enacted. Maps the code
  iterates over are ordered tables, maps it only looks up are functions. The products and sums in
  \<^verbatim>\<open>u128\<close> cannot wrap and are exact.
\<close>

section \<open>Input and outcome\<close>

record ratify_proposal =
  rp_key :: entity_key
  rp_id :: gov_action_id
  rp_action :: proposal_action
  rp_parent :: "gov_action_id option"
  rp_expires_after :: epoch
  rp_order :: "block_slot \<times> hash32 \<times> u32"
  rp_cc_votes :: "stake_credential \<rightharpoonup> vote"
  rp_drep_votes :: "stake_credential \<rightharpoonup> vote"
  rp_spo_votes :: "pool_hash \<rightharpoonup> vote"

datatype default_vote = DefaultNo | DefaultAbstain | DefaultNoConfidence

record ratify_input =
  ri_current_epoch :: epoch
  ri_pparams :: pparams_set
  ri_treasury :: u64
  ri_committee :: "committee option"
  ri_roots :: gov_roots
  ri_committee_auths :: "stake_credential \<rightharpoonup> committee_authorization"
  ri_drep_distr :: "(drep, u64) table"
  ri_pool_distr :: "(pool_hash, u64) table"
  ri_pool_total :: u64
  ri_dreps :: "stake_credential \<rightharpoonup> epoch option"
  ri_pool_default_votes :: "pool_hash \<rightharpoonup> default_vote"
  ri_proposals :: "ratify_proposal list"

datatype verdict = Accepted | ExpiredVerdict | Continuing

type_synonym threshold = "rational_number option"

record tallies =
  ty_prev_action_ok :: bool
  ty_committee_term_ok :: bool
  ty_not_delayed :: bool
  ty_withdrawal_ok :: bool
  ty_cc :: "u64 \<times> u64"
  ty_cc_threshold :: threshold
  ty_cc_accepted :: bool
  ty_drep :: "u64 \<times> u64"
  ty_drep_threshold :: threshold
  ty_drep_accepted :: bool
  ty_spo :: "u64 \<times> u64 \<times> u64"
  ty_spo_threshold :: threshold
  ty_spo_accepted :: bool

record proposal_ratification =
  pr_key :: entity_key
  pr_id :: gov_action_id
  pr_verdict :: verdict
  pr_tallies :: tallies

record ratify_outcome =
  ro_verdicts :: "proposal_ratification list"
  ro_enacted :: "gov_action_id list"
  ro_roots :: gov_roots
  ro_treasury :: u64
  ro_delayed :: bool

record run_state =
  rs_pparams :: pparams_set
  rs_committee :: "committee option"
  rs_roots :: gov_roots
  rs_treasury :: u64
  rs_delayed :: bool

section \<open>Actions and parameters\<close>

fun action_priority :: "proposal_action \<Rightarrow> u8" where
  "action_priority ActNoConfidence = 0"
| "action_priority (ActUpdateCommittee _ _ _) = 1"
| "action_priority (ActNewConstitution _ _) = 2"
| "action_priority (ActHardFork _) = 3"
| "action_priority (ActParamChange _) = 4"
| "action_priority (ActTreasuryWithdrawal _) = 5"
| "action_priority ActInfo = 6"
| "action_priority ActOther = 7"

fun delaying_action :: "proposal_action \<Rightarrow> bool" where
  "delaying_action ActNoConfidence = True"
| "delaying_action (ActUpdateCommittee _ _ _) = True"
| "delaying_action (ActNewConstitution _ _) = True"
| "delaying_action (ActHardFork _) = True"
| "delaying_action _ = False"

definition bootstrap_phase :: "pparams_set \<Rightarrow> bool option" where
  "bootstrap_phase pparams = map_option (\<lambda>m. m = 9) (protocol_major_or_default pparams)"

datatype drep_group = GroupNetwork | GroupEconomic | GroupTechnical | GroupGovernance

fun pparam_drep_group :: "pparam_kind \<Rightarrow> drep_group option" where
  "pparam_drep_group KMinFeeA = Some GroupEconomic"
| "pparam_drep_group KMinFeeB = Some GroupEconomic"
| "pparam_drep_group KKeyDeposit = Some GroupEconomic"
| "pparam_drep_group KPoolDeposit = Some GroupEconomic"
| "pparam_drep_group KExpansionRate = Some GroupEconomic"
| "pparam_drep_group KTreasuryGrowthRate = Some GroupEconomic"
| "pparam_drep_group KMinPoolCost = Some GroupEconomic"
| "pparam_drep_group KAdaPerUtxoByte = Some GroupEconomic"
| "pparam_drep_group KExecutionCosts = Some GroupEconomic"
| "pparam_drep_group KMinFeeRefScriptCostPerByte = Some GroupEconomic"
| "pparam_drep_group KMaxBlockBodySize = Some GroupNetwork"
| "pparam_drep_group KMaxTransactionSize = Some GroupNetwork"
| "pparam_drep_group KMaxBlockHeaderSize = Some GroupNetwork"
| "pparam_drep_group KMaxValueSize = Some GroupNetwork"
| "pparam_drep_group KMaxTxExUnits = Some GroupNetwork"
| "pparam_drep_group KMaxBlockExUnits = Some GroupNetwork"
| "pparam_drep_group KMaxCollateralInputs = Some GroupNetwork"
| "pparam_drep_group KMaximumEpoch = Some GroupTechnical"
| "pparam_drep_group KDesiredNumberOfStakePools = Some GroupTechnical"
| "pparam_drep_group KPoolPledgeInfluence = Some GroupTechnical"
| "pparam_drep_group KCollateralPercentage = Some GroupTechnical"
| "pparam_drep_group KCostModelsPlutusV1 = Some GroupTechnical"
| "pparam_drep_group KCostModelsPlutusV2 = Some GroupTechnical"
| "pparam_drep_group KCostModelsPlutusV3 = Some GroupTechnical"
| "pparam_drep_group KCostModelsUnknown = Some GroupTechnical"
| "pparam_drep_group KPoolVotingThresholds = Some GroupGovernance"
| "pparam_drep_group KDrepVotingThresholds = Some GroupGovernance"
| "pparam_drep_group KMinCommitteeSize = Some GroupGovernance"
| "pparam_drep_group KCommitteeTermLimit = Some GroupGovernance"
| "pparam_drep_group KGovernanceActionValidityPeriod = Some GroupGovernance"
| "pparam_drep_group KGovernanceActionDeposit = Some GroupGovernance"
| "pparam_drep_group KDrepDeposit = Some GroupGovernance"
| "pparam_drep_group KDrepInactivityPeriod = Some GroupGovernance"
| "pparam_drep_group KSystemStart = None"
| "pparam_drep_group KEpochLength = None"
| "pparam_drep_group KSlotLength = None"
| "pparam_drep_group KProtocolVersion = None"
| "pparam_drep_group KMinUtxoValue = None"
| "pparam_drep_group KDecentralizationConstant = None"
| "pparam_drep_group KExtraEntropy = None"

definition pparam_is_security :: "pparam_kind \<Rightarrow> bool" where
  "pparam_is_security k \<longleftrightarrow>
     k \<in> {KMinFeeA, KMinFeeB, KMaxBlockBodySize, KMaxTransactionSize, KMaxBlockHeaderSize, KAdaPerUtxoByte,
          KMaxBlockExUnits, KMaxValueSize, KGovernanceActionDeposit, KMinFeeRefScriptCostPerByte}"

text \<open>The getters \<^verbatim>\<open>..._or_default\<close> of \<^verbatim>\<open>pgetter!\<close> that the engine uses.\<close>

definition pgetter_or_default :: "pparam_kind \<Rightarrow> (pparam_value \<Rightarrow> 'a option) \<Rightarrow> pparams_set \<Rightarrow> 'a option" where
  "pgetter_or_default k proj s = proj (pp_get_or_default s k)"

fun proj_min_committee_size :: "pparam_value \<Rightarrow> u64 option" where
  "proj_min_committee_size (MinCommitteeSize x) = Some x"
| "proj_min_committee_size _ = None"

fun proj_committee_term_limit :: "pparam_value \<Rightarrow> u64 option" where
  "proj_committee_term_limit (CommitteeTermLimit x) = Some x"
| "proj_committee_term_limit _ = None"

fun proj_drep_voting_thresholds :: "pparam_value \<Rightarrow> drep_voting_thresholds option" where
  "proj_drep_voting_thresholds (DrepVotingThresholds x) = Some x"
| "proj_drep_voting_thresholds _ = None"

fun proj_pool_voting_thresholds :: "pparam_value \<Rightarrow> pool_voting_thresholds option" where
  "proj_pool_voting_thresholds (PoolVotingThresholds x) = Some x"
| "proj_pool_voting_thresholds _ = None"

definition zero_threshold :: rational_number where
  "zero_threshold = \<lparr>numerator = 0, denominator = 1\<rparr>"

definition bootstrap_drep_thresholds :: drep_voting_thresholds where
  "bootstrap_drep_thresholds =
     \<lparr>dvt_motion_no_confidence = zero_threshold, dvt_committee_normal = zero_threshold,
      dvt_committee_no_confidence = zero_threshold, dvt_update_constitution = zero_threshold,
      dvt_hard_fork_initiation = zero_threshold, dvt_pp_network_group = zero_threshold,
      dvt_pp_economic_group = zero_threshold, dvt_pp_technical_group = zero_threshold,
      dvt_pp_governance_group = zero_threshold, dvt_treasury_withdrawal = zero_threshold\<rparr>"

definition rational_gte :: "rational_number \<Rightarrow> rational_number \<Rightarrow> bool" where
  "rational_gte x y \<longleftrightarrow> unat (numerator x) * unat (denominator y) \<ge> unat (numerator y) * unat (denominator x)"

definition ratio_meets :: "u64 \<Rightarrow> u64 \<Rightarrow> rational_number \<Rightarrow> bool" where
  "ratio_meets yes n t =
     (if numerator t = 0 then True
      else if n = 0 then False
      else unat yes * unat (denominator t) \<ge> unat (numerator t) * unat n)"

section \<open>Thresholds\<close>

definition active_committee_size :: "ratify_input \<Rightarrow> committee \<Rightarrow> u64" where
  "active_committee_size input cm =
     of_nat (length (filter (\<lambda>(cold, expiry). ri_current_epoch input \<le> expiry \<and>
       (case ri_committee_auths input cold of Some (HotCredential _) \<Rightarrow> True | _ \<Rightarrow> False)) (cm_members cm)))"

definition voting_committee_threshold :: "ratify_input \<Rightarrow> run_state \<Rightarrow> committee option \<Rightarrow> threshold option" where
  "voting_committee_threshold input run cm =
     (case cm of
        None \<Rightarrow> Some None
      | Some cm \<Rightarrow> do {
          min_size \<leftarrow> pgetter_or_default KMinCommitteeSize proj_min_committee_size (rs_pparams run);
          bootstrap \<leftarrow> bootstrap_phase (rs_pparams run);
          Some (if bootstrap \<or> active_committee_size input cm \<ge> min_size then Some (cm_threshold cm) else None)
        })"

fun committee_threshold :: "ratify_input \<Rightarrow> run_state \<Rightarrow> proposal_action \<Rightarrow> threshold option" where
  "committee_threshold input run ActNoConfidence = Some (Some zero_threshold)"
| "committee_threshold input run (ActUpdateCommittee _ _ _) = Some (Some zero_threshold)"
| "committee_threshold input run ActInfo = Some None"
| "committee_threshold input run ActOther = Some None"
| "committee_threshold input run _ = voting_committee_threshold input run (rs_committee run)"

fun group_threshold :: "drep_voting_thresholds \<Rightarrow> drep_group \<Rightarrow> rational_number" where
  "group_threshold t GroupNetwork = dvt_pp_network_group t"
| "group_threshold t GroupEconomic = dvt_pp_economic_group t"
| "group_threshold t GroupTechnical = dvt_pp_technical_group t"
| "group_threshold t GroupGovernance = dvt_pp_governance_group t"

definition pparams_update_drep_threshold :: "drep_voting_thresholds \<Rightarrow> pparams_set \<Rightarrow> rational_number" where
  "pparams_update_drep_threshold thresholds update =
     foldl (\<lambda>m value. case pparam_drep_group (kind_of value) of
         None \<Rightarrow> m
       | Some grp \<Rightarrow> let candidate = group_threshold thresholds grp in if rational_gte candidate m then candidate else m)
       zero_threshold update"

definition live_drep_thresholds :: "run_state \<Rightarrow> drep_voting_thresholds option" where
  "live_drep_thresholds run = do {
     bootstrap \<leftarrow> bootstrap_phase (rs_pparams run);
     (if bootstrap then Some bootstrap_drep_thresholds
      else pgetter_or_default KDrepVotingThresholds proj_drep_voting_thresholds (rs_pparams run))
   }"

definition drep_threshold :: "run_state \<Rightarrow> proposal_action \<Rightarrow> threshold option" where
  "drep_threshold run action = do {
     t \<leftarrow> live_drep_thresholds run;
     Some (case action of
         ActNoConfidence \<Rightarrow> Some (dvt_motion_no_confidence t)
       | ActUpdateCommittee _ _ _ \<Rightarrow>
           Some (if rs_committee run \<noteq> None then dvt_committee_normal t else dvt_committee_no_confidence t)
       | ActNewConstitution _ _ \<Rightarrow> Some (dvt_update_constitution t)
       | ActHardFork _ \<Rightarrow> Some (dvt_hard_fork_initiation t)
       | ActParamChange update \<Rightarrow> Some (pparams_update_drep_threshold t update)
       | ActTreasuryWithdrawal _ \<Rightarrow> Some (dvt_treasury_withdrawal t)
       | ActInfo \<Rightarrow> None
       | ActOther \<Rightarrow> None)
   }"

definition spo_threshold :: "run_state \<Rightarrow> proposal_action \<Rightarrow> threshold option" where
  "spo_threshold run action = do {
     t \<leftarrow> pgetter_or_default KPoolVotingThresholds proj_pool_voting_thresholds (rs_pparams run);
     Some (case action of
         ActNoConfidence \<Rightarrow> Some (pvt_motion_no_confidence t)
       | ActUpdateCommittee _ _ _ \<Rightarrow>
           Some (if rs_committee run \<noteq> None then pvt_committee_normal t else pvt_committee_no_confidence t)
       | ActNewConstitution _ _ \<Rightarrow> Some zero_threshold
       | ActHardFork _ \<Rightarrow> Some (pvt_hard_fork_initiation t)
       | ActParamChange update \<Rightarrow>
           Some (if list_ex (\<lambda>value. pparam_is_security (kind_of value)) update
                 then pvt_security_voting_threshold t else zero_threshold)
       | ActTreasuryWithdrawal _ \<Rightarrow> Some zero_threshold
       | ActInfo \<Rightarrow> None
       | ActOther \<Rightarrow> None)
   }"

section \<open>Tallies\<close>

text \<open>The loops, each over the entries of an ordered map and two counters.\<close>

fun committee_loop :: "build \<Rightarrow> epoch \<Rightarrow> (stake_credential \<rightharpoonup> committee_authorization) \<Rightarrow> (stake_credential \<rightharpoonup> vote)
    \<Rightarrow> (stake_credential, epoch) table \<Rightarrow> u64 \<times> u64 \<Rightarrow> (u64 \<times> u64) option" where
  "committee_loop b e auths votes [] (yes, n) = Some (yes, n)"
| "committee_loop b e auths votes ((cold, expiry) # members) (yes, n) =
     (if e > expiry then committee_loop b e auths votes members (yes, n)
      else case auths cold of
          Some (HotCredential hot) \<Rightarrow>
            (case votes hot of
               Some VoteAbstain \<Rightarrow> committee_loop b e auths votes members (yes, n)
             | Some VoteYes \<Rightarrow> do {
                 yes \<leftarrow> raw_add b yes 1;
                 n \<leftarrow> raw_add b n 1;
                 committee_loop b e auths votes members (yes, n)
               }
             | _ \<Rightarrow> do {
                 n \<leftarrow> raw_add b n 1;
                 committee_loop b e auths votes members (yes, n)
               })
        | _ \<Rightarrow> committee_loop b e auths votes members (yes, n))"

definition committee_tally :: "build \<Rightarrow> epoch \<Rightarrow> (stake_credential, epoch) table \<Rightarrow> (stake_credential \<rightharpoonup> committee_authorization)
    \<Rightarrow> (stake_credential \<rightharpoonup> vote) \<Rightarrow> (u64 \<times> u64) option" where
  "committee_tally b e members auths votes = committee_loop b e auths votes members (0, 0)"

fun drep_credential :: "drep \<Rightarrow> stake_credential option" where
  "drep_credential (DRepKey h) = Some (AddrKeyhash h)"
| "drep_credential (DRepScript h) = Some (ScriptHash h)"
| "drep_credential _ = None"

fun drep_loop :: "build \<Rightarrow> epoch \<Rightarrow> (stake_credential \<rightharpoonup> epoch option) \<Rightarrow> (stake_credential \<rightharpoonup> vote) \<Rightarrow> bool
    \<Rightarrow> (drep, u64) table \<Rightarrow> u64 \<times> u64 \<Rightarrow> (u64 \<times> u64) option" where
  "drep_loop b e dreps votes nc [] (yes, n) = Some (yes, n)"
| "drep_loop b e dreps votes nc ((DRepAbstain, stake) # distr) (yes, n) = drep_loop b e dreps votes nc distr (yes, n)"
| "drep_loop b e dreps votes nc ((DRepNoConfidence, stake) # distr) (yes, n) = do {
     yes \<leftarrow> (if nc then raw_add b yes stake else Some yes);
     n \<leftarrow> raw_add b n stake;
     drep_loop b e dreps votes nc distr (yes, n)
   }"
| "drep_loop b e dreps votes nc ((drep, stake) # distr) (yes, n) =
     (case drep_credential drep of
        None \<Rightarrow> drep_loop b e dreps votes nc distr (yes, n)
      | Some cred \<Rightarrow>
          (case dreps cred of
             None \<Rightarrow> drep_loop b e dreps votes nc distr (yes, n)
           | Some expiry \<Rightarrow>
               if (case expiry of Some x \<Rightarrow> e > x | None \<Rightarrow> False) then drep_loop b e dreps votes nc distr (yes, n)
               else (case votes cred of
                   Some VoteAbstain \<Rightarrow> drep_loop b e dreps votes nc distr (yes, n)
                 | Some VoteYes \<Rightarrow> do {
                     yes \<leftarrow> raw_add b yes stake;
                     n \<leftarrow> raw_add b n stake;
                     drep_loop b e dreps votes nc distr (yes, n)
                   }
                 | _ \<Rightarrow> do {
                     n \<leftarrow> raw_add b n stake;
                     drep_loop b e dreps votes nc distr (yes, n)
                   })))"

definition drep_tally :: "build \<Rightarrow> epoch \<Rightarrow> (drep, u64) table \<Rightarrow> (stake_credential \<rightharpoonup> epoch option)
    \<Rightarrow> (stake_credential \<rightharpoonup> vote) \<Rightarrow> bool \<Rightarrow> (u64 \<times> u64) option" where
  "drep_tally b e distr dreps votes nc = drep_loop b e dreps votes nc distr (0, 0)"

fun is_hard_fork :: "proposal_action \<Rightarrow> bool" where
  "is_hard_fork (ActHardFork _) = True"
| "is_hard_fork _ = False"

text \<open>The vote of a pool whose operator did not vote; \<^verbatim>\<open>None\<close> adds to neither counter.\<close>

fun spo_loop :: "build \<Rightarrow> (pool_hash \<rightharpoonup> vote) \<Rightarrow> (pool_hash \<rightharpoonup> default_vote) \<Rightarrow> proposal_action \<Rightarrow> bool
    \<Rightarrow> (pool_hash, u64) table \<Rightarrow> u64 \<times> u64 \<Rightarrow> (u64 \<times> u64) option" where
  "spo_loop b votes defaults action bootstrap [] (yes, abstain) = Some (yes, abstain)"
| "spo_loop b votes defaults action bootstrap ((pool, stake) # distr) (yes, abstain) =
     (case votes pool of
        Some VoteYes \<Rightarrow> do {
          yes \<leftarrow> raw_add b yes stake;
          spo_loop b votes defaults action bootstrap distr (yes, abstain)
        }
      | Some VoteNo \<Rightarrow> spo_loop b votes defaults action bootstrap distr (yes, abstain)
      | Some VoteAbstain \<Rightarrow> do {
          abstain \<leftarrow> raw_add b abstain stake;
          spo_loop b votes defaults action bootstrap distr (yes, abstain)
        }
      | None \<Rightarrow>
          if is_hard_fork action then spo_loop b votes defaults action bootstrap distr (yes, abstain)
          else if bootstrap then do {
            abstain \<leftarrow> raw_add b abstain stake;
            spo_loop b votes defaults action bootstrap distr (yes, abstain)
          }
          else (case defaults pool of
              Some DefaultNoConfidence \<Rightarrow>
                if action = ActNoConfidence then do {
                  yes \<leftarrow> raw_add b yes stake;
                  spo_loop b votes defaults action bootstrap distr (yes, abstain)
                }
                else spo_loop b votes defaults action bootstrap distr (yes, abstain)
            | Some DefaultAbstain \<Rightarrow> do {
                abstain \<leftarrow> raw_add b abstain stake;
                spo_loop b votes defaults action bootstrap distr (yes, abstain)
              }
            | _ \<Rightarrow> spo_loop b votes defaults action bootstrap distr (yes, abstain)))"

definition spo_tally :: "build \<Rightarrow> (pool_hash, u64) table \<Rightarrow> (pool_hash \<rightharpoonup> vote) \<Rightarrow> (pool_hash \<rightharpoonup> default_vote)
    \<Rightarrow> proposal_action \<Rightarrow> bool \<Rightarrow> (u64 \<times> u64) option" where
  "spo_tally b distr votes defaults action bootstrap = spo_loop b votes defaults action bootstrap distr (0, 0)"

section \<open>The run\<close>

definition prev_action_as_expected :: "run_state \<Rightarrow> ratify_proposal \<Rightarrow> bool" where
  "prev_action_as_expected run p =
     (case action_purpose (rp_action p) of None \<Rightarrow> True | Some purpose \<Rightarrow> rp_parent p = gov_root purpose (rs_roots run))"

text \<open>\<^verbatim>\<open>all\<close> stops at the first member that is out of range; the sum may overflow.\<close>

fun terms_within :: "build \<Rightarrow> epoch \<Rightarrow> u64 \<Rightarrow> (stake_credential \<times> epoch) list \<Rightarrow> bool option" where
  "terms_within b e limit [] = Some True"
| "terms_within b e limit ((_, expiry) # to_add) = do {
     m \<leftarrow> raw_add b e limit;
     (if expiry \<le> m then terms_within b e limit to_add else Some False)
   }"

definition valid_committee_term :: "build \<Rightarrow> run_state \<Rightarrow> epoch \<Rightarrow> proposal_action \<Rightarrow> bool option" where
  "valid_committee_term b run e action =
     (case action of
        ActUpdateCommittee _ to_add _ \<Rightarrow> do {
          max_term \<leftarrow> pgetter_or_default KCommitteeTermLimit proj_committee_term_limit (rs_pparams run);
          terms_within b e max_term to_add
        }
      | _ \<Rightarrow> Some True)"

definition withdrawal_sum :: "(stake_credential \<times> u64) list \<Rightarrow> nat" where
  "withdrawal_sum ws = (\<Sum>(_, coin) \<leftarrow> ws. unat coin)"

definition withdrawal_can_withdraw :: "run_state \<Rightarrow> proposal_action \<Rightarrow> bool" where
  "withdrawal_can_withdraw run action =
     (case action of ActTreasuryWithdrawal ws \<Rightarrow> withdrawal_sum ws \<le> unat (rs_treasury run) | _ \<Rightarrow> True)"

fun enact_action :: "proposal_action \<Rightarrow> run_state \<Rightarrow> run_state" where
  "enact_action (ActParamChange update) run = run\<lparr>rs_pparams := pp_merge (rs_pparams run) update\<rparr>"
| "enact_action (ActHardFork version) run = run\<lparr>rs_pparams := pp_set (rs_pparams run) (ProtocolVersion version)\<rparr>"
| "enact_action (ActTreasuryWithdrawal ws) run =
     run\<lparr>rs_treasury := saturating_sub (rs_treasury run) (of_nat (min (withdrawal_sum ws) (2 ^ 64 - 1)))\<rparr>"
| "enact_action ActNoConfidence run = run\<lparr>rs_committee := None\<rparr>"
| "enact_action (ActUpdateCommittee to_remove to_add threshold) run =
     (let members = (case rs_committee run of Some cm \<Rightarrow> cm_members cm | None \<Rightarrow> []);
          members = fold tbl_remove to_remove members;
          members = fold (\<lambda>(cold, term). tbl_insert cold term) to_add members
      in run\<lparr>rs_committee := Some \<lparr>cm_members = members, cm_threshold = threshold\<rparr>\<rparr>)"
| "enact_action _ run = run"

definition enact :: "run_state \<Rightarrow> ratify_proposal \<Rightarrow> run_state" where
  "enact run p =
     (let run = enact_action (rp_action p) run in
      case action_purpose (rp_action p) of
        Some purpose \<Rightarrow> run\<lparr>rs_roots := set_gov_root purpose (Some (rp_id p)) (rs_roots run)\<rparr>
      | None \<Rightarrow> run)"

definition meets :: "u64 \<times> u64 \<Rightarrow> threshold \<Rightarrow> bool" where
  "meets tally t = (case t of Some threshold \<Rightarrow> ratio_meets (fst tally) (snd tally) threshold | None \<Rightarrow> False)"

text \<open>The checks and tallies of one proposal: the body of the loop up to the verdict.\<close>

definition tally_proposal :: "build \<Rightarrow> ratify_input \<Rightarrow> run_state \<Rightarrow> ratify_proposal \<Rightarrow> tallies option" where
  "tally_proposal b input run p = do {
     let prev_action_ok = prev_action_as_expected run p;
     committee_term_ok \<leftarrow> valid_committee_term b run (ri_current_epoch input) (rp_action p);
     let not_delayed = (\<not> rs_delayed run);
     let withdrawal_ok = withdrawal_can_withdraw run (rp_action p);
     cc_threshold \<leftarrow> committee_threshold input run (rp_action p);
     cc \<leftarrow> (case rs_committee run of
             Some cm \<Rightarrow> committee_tally b (ri_current_epoch input) (cm_members cm) (ri_committee_auths input) (rp_cc_votes p)
           | None \<Rightarrow> Some (0, 0));
     drep_t \<leftarrow> drep_threshold run (rp_action p);
     drep \<leftarrow> drep_tally b (ri_current_epoch input) (ri_drep_distr input) (ri_dreps input) (rp_drep_votes p)
              (rp_action p = ActNoConfidence);
     spo_t \<leftarrow> spo_threshold run (rp_action p);
     bootstrap \<leftarrow> bootstrap_phase (rs_pparams run);
     (spo_yes, spo_abstain) \<leftarrow> spo_tally b (ri_pool_distr input) (rp_spo_votes p) (ri_pool_default_votes input)
              (rp_action p) bootstrap;
     let spo_denominator = saturating_sub (ri_pool_total input) spo_abstain;
     Some \<lparr>ty_prev_action_ok = prev_action_ok, ty_committee_term_ok = committee_term_ok, ty_not_delayed = not_delayed,
       ty_withdrawal_ok = withdrawal_ok, ty_cc = cc, ty_cc_threshold = cc_threshold, ty_cc_accepted = meets cc cc_threshold,
       ty_drep = drep, ty_drep_threshold = drep_t, ty_drep_accepted = meets drep drep_t,
       ty_spo = (spo_yes, spo_abstain, spo_denominator), ty_spo_threshold = spo_t,
       ty_spo_accepted = meets (spo_yes, spo_denominator) spo_t\<rparr>
   }"

definition all_accept :: "tallies \<Rightarrow> bool" where
  "all_accept t \<longleftrightarrow> ty_prev_action_ok t \<and> ty_committee_term_ok t \<and> ty_not_delayed t \<and> ty_withdrawal_ok t \<and>
     ty_cc_accepted t \<and> ty_spo_accepted t \<and> ty_drep_accepted t"

definition ratify_step :: "build \<Rightarrow> ratify_input \<Rightarrow> run_state \<Rightarrow> gov_action_id list \<Rightarrow> ratify_proposal
    \<Rightarrow> (proposal_ratification \<times> run_state \<times> gov_action_id list) option" where
  "ratify_step b input run enacted p = do {
     t \<leftarrow> tally_proposal b input run p;
     let (v, run, enacted) =
       (if all_accept t
        then (Accepted, (enact run p)\<lparr>rs_delayed := delaying_action (rp_action p)\<rparr>, enacted @ [rp_id p])
        else if rp_expires_after p < ri_current_epoch input then (ExpiredVerdict, run, enacted)
        else (Continuing, run, enacted));
     Some (\<lparr>pr_key = rp_key p, pr_id = rp_id p, pr_verdict = v, pr_tallies = t\<rparr>, run, enacted)
   }"

fun ratify_loop :: "build \<Rightarrow> ratify_input \<Rightarrow> ratify_proposal list \<Rightarrow> run_state \<Rightarrow> gov_action_id list
    \<Rightarrow> (proposal_ratification list \<times> run_state \<times> gov_action_id list) option" where
  "ratify_loop b input [] run enacted = Some ([], run, enacted)"
| "ratify_loop b input (p # ps) run enacted = do {
     (r, run, enacted) \<leftarrow> ratify_step b input run enacted p;
     (rs, run, enacted) \<leftarrow> ratify_loop b input ps run enacted;
     Some (r # rs, run, enacted)
   }"

definition ratify_order :: "ratify_input \<Rightarrow> ratify_proposal list" where
  "ratify_order input = sort_key (\<lambda>p. (action_priority (rp_action p), rp_order p)) (ri_proposals input)"

definition run_start :: "ratify_input \<Rightarrow> run_state" where
  "run_start input = \<lparr>rs_pparams = ri_pparams input, rs_committee = ri_committee input, rs_roots = ri_roots input,
     rs_treasury = ri_treasury input, rs_delayed = False\<rparr>"

definition ratify :: "build \<Rightarrow> ratify_input \<Rightarrow> ratify_outcome option" where
  "ratify b input = do {
     (verdicts, run, enacted) \<leftarrow> ratify_loop b input (ratify_order input) (run_start input) [];
     Some \<lparr>ro_verdicts = verdicts, ro_enacted = enacted, ro_roots = rs_roots run, ro_treasury = rs_treasury run, ro_delayed = rs_delayed run\<rparr>
   }"

section \<open>Pruning\<close>

text \<open>\<^verbatim>\<open>by_id\<close>: collecting into a map, the last proposal of an id wins.\<close>

definition by_id :: "ratify_proposal list \<Rightarrow> gov_action_id \<rightharpoonup> ratify_proposal" where
  "by_id ps = map_of (rev (map (\<lambda>p. (rp_id p, p)) ps))"

definition last_enacted :: "ratify_proposal list \<Rightarrow> gov_action_id list \<Rightarrow> gov_purpose \<rightharpoonup> gov_action_id" where
  "last_enacted ps enacted = fold (\<lambda>i m.
     case by_id ps i of
       None \<Rightarrow> m
     | Some p \<Rightarrow> (case action_purpose (rp_action p) of Some purpose \<Rightarrow> m(purpose \<mapsto> i) | None \<Rightarrow> m)) enacted Map.empty"

function walk_parents :: "ratify_proposal list \<Rightarrow> gov_action_id \<Rightarrow> nat \<Rightarrow> gov_action_id option \<Rightarrow> bool" where
  "walk_parents ps winner steps None = False"
| "walk_parents ps winner steps (Some parent) =
     (if parent = winner then True
      else if steps + 1 > length ps then False
      else walk_parents ps winner (steps + 1) (Option.bind (by_id ps parent) rp_parent))"
  by pat_completeness auto
termination by (relation "measure (\<lambda>(ps, winner, steps, cursor). Suc (length ps) - steps)") auto

definition pruned_by_enactment :: "ratify_proposal list \<Rightarrow> gov_action_id list \<Rightarrow> entity_key set" where
  "pruned_by_enactment ps enacted = rp_key ` set (filter (\<lambda>p.
     rp_id p \<notin> set enacted \<and>
     (case action_purpose (rp_action p) of
        None \<Rightarrow> False
      | Some purpose \<Rightarrow>
          (case last_enacted ps enacted purpose of
             None \<Rightarrow> False
           | Some winner \<Rightarrow> \<not> walk_parents ps winner 0 (rp_parent p)))) ps)"

section \<open>One step of the run\<close>

lemma tally_structure:
  assumes "tally_proposal b input run p = Some t"
  shows "ty_prev_action_ok t = prev_action_as_expected run p" and "ty_not_delayed t = (\<not> rs_delayed run)"
    and "ty_withdrawal_ok t = withdrawal_can_withdraw run (rp_action p)"
  using assms by (auto simp: tally_proposal_def Let_def panic_simps)

lemma ratify_step_cases:
  assumes "ratify_step b input run enacted p = Some (r, run', enacted')"
  obtains (accepted) t where "tally_proposal b input run p = Some t" "all_accept t" "pr_verdict r = Accepted"
      "run' = (enact run p)\<lparr>rs_delayed := delaying_action (rp_action p)\<rparr>" "enacted' = enacted @ [rp_id p]"
      "pr_key r = rp_key p" "pr_id r = rp_id p" "pr_tallies r = t"
  | (rejected) t where "tally_proposal b input run p = Some t" "\<not> all_accept t"
      "pr_verdict r = (if rp_expires_after p < ri_current_epoch input then ExpiredVerdict else Continuing)"
      "run' = run" "enacted' = enacted" "pr_key r = rp_key p" "pr_id r = rp_id p" "pr_tallies r = t"
  using assms by (fastforce simp: ratify_step_def Let_def panic_simps split: if_splits)

text \<open>The proposals a run accepted, in order.\<close>

definition accepted_of :: "ratify_proposal list \<Rightarrow> proposal_ratification list \<Rightarrow> ratify_proposal list" where
  "accepted_of ps rs = map fst (filter (\<lambda>(_, r). pr_verdict r = Accepted) (zip ps rs))"

lemma accepted_of_simps [simp]:
  "accepted_of [] rs = []"
  "accepted_of (p # ps) (r # rs) = (if pr_verdict r = Accepted then [p] else []) @ accepted_of ps rs"
  by (simp_all add: accepted_of_def)

lemma ratify_loop_ConsE:
  assumes "ratify_loop b input (p # ps) run enacted = Some (rs, run', enacted')"
  obtains r run1 enacted1 rs1 where "ratify_step b input run enacted p = Some (r, run1, enacted1)"
    and "ratify_loop b input ps run1 enacted1 = Some (rs1, run', enacted')" and "rs = r # rs1"
  using assms by (auto simp: panic_simps)

text \<open>Induction over a run: what one step establishes holds of the run.\<close>

lemma ratify_loop_induct [consumes 1, case_names Nil accepted rejected]:
  assumes "ratify_loop b input ps run enacted = Some (rs, run', enacted')"
    and "\<And>run enacted. Q [] run enacted [] run enacted"
    and "\<And>p ps run enacted r rs t run' enacted'. tally_proposal b input run p = Some t \<Longrightarrow> all_accept t \<Longrightarrow> pr_verdict r = Accepted \<Longrightarrow>
      pr_key r = rp_key p \<Longrightarrow> pr_id r = rp_id p \<Longrightarrow> pr_tallies r = t \<Longrightarrow>
      Q ps ((enact run p)\<lparr>rs_delayed := delaying_action (rp_action p)\<rparr>) (enacted @ [rp_id p]) rs run' enacted' \<Longrightarrow>
      Q (p # ps) run enacted (r # rs) run' enacted'"
    and "\<And>p ps run enacted r rs t run' enacted'. tally_proposal b input run p = Some t \<Longrightarrow> \<not> all_accept t \<Longrightarrow>
      pr_verdict r = (if rp_expires_after p < ri_current_epoch input then ExpiredVerdict else Continuing) \<Longrightarrow>
      pr_key r = rp_key p \<Longrightarrow> pr_id r = rp_id p \<Longrightarrow> pr_tallies r = t \<Longrightarrow>
      Q ps run enacted rs run' enacted' \<Longrightarrow> Q (p # ps) run enacted (r # rs) run' enacted'"
  shows "Q ps run enacted rs run' enacted'"
  using assms(1)
proof (induction ps arbitrary: run enacted rs)
  case Nil
  with assms(2) show ?case by simp
next
  case (Cons p ps)
  from Cons.prems obtain r run1 enacted1 rs1 where step: "ratify_step b input run enacted p = Some (r, run1, enacted1)"
      and rest: "ratify_loop b input ps run1 enacted1 = Some (rs1, run', enacted')" and rs: "rs = r # rs1"
    by (rule ratify_loop_ConsE)
  from Cons.IH [OF rest] have IH: "Q ps run1 enacted1 rs1 run' enacted'" .
  from step show ?case unfolding rs
  proof (cases rule: ratify_step_cases)
    case (accepted t)
    with IH show "Q (p # ps) run enacted (r # rs1) run' enacted'" by (intro assms(3)) simp_all
  next
    case (rejected t)
    with IH show "Q (p # ps) run enacted (r # rs1) run' enacted'" by (intro assms(4)) simp_all
  qed
qed

section \<open>What a run keeps\<close>

lemma enact_simps:
  "rs_delayed (enact run p) = rs_delayed run"
  "rs_treasury (enact run p) = rs_treasury (enact_action (rp_action p) run)"
  "gov_root k (rs_roots (enact run p)) =
     (if action_purpose (rp_action p) = Some k then Some (rp_id p) else gov_root k (rs_roots run))"
proof -
  have other: "rs_roots (enact_action a run) = rs_roots run" "rs_delayed (enact_action a run) = rs_delayed run" for a
    by (cases a; simp add: Let_def)+
  have set: "gov_root k (set_gov_root k' x r) = (if k' = k then x else gov_root k r)" for k' x r
    by (cases k; cases k') simp_all
  show "rs_delayed (enact run p) = rs_delayed run" "rs_treasury (enact run p) = rs_treasury (enact_action (rp_action p) run)"
    "gov_root k (rs_roots (enact run p)) =
       (if action_purpose (rp_action p) = Some k then Some (rp_id p) else gov_root k (rs_roots run))"
    by (auto simp: enact_def other set Let_def split: option.split)
qed

lemma loop_enacted:
  assumes "ratify_loop b input ps run enacted = Some (rs, run', enacted')"
  shows "length rs = length ps \<and> map pr_id rs = map rp_id ps \<and> map pr_key rs = map rp_key ps \<and>
    enacted' = enacted @ map rp_id (accepted_of ps rs)"
  using assms by (induction rule: ratify_loop_induct) auto

text \<open>Lineage: each accepted action declares the root its predecessor of the purpose left.\<close>

fun chain_from :: "gov_action_id option \<Rightarrow> ratify_proposal list \<Rightarrow> gov_action_id option option" where
  "chain_from start [] = Some start"
| "chain_from start (p # ps) = (if rp_parent p = start then chain_from (Some (rp_id p)) ps else None)"

definition of_purpose :: "gov_purpose \<Rightarrow> ratify_proposal list \<Rightarrow> ratify_proposal list" where
  "of_purpose k ps = filter (\<lambda>p. action_purpose (rp_action p) = Some k) ps"

lemma of_purpose_simps [simp]:
  "of_purpose k [] = []"
  "of_purpose k (p # ps) = (if action_purpose (rp_action p) = Some k then [p] else []) @ of_purpose k ps"
  by (simp_all add: of_purpose_def)

lemma loop_lineage:
  assumes "ratify_loop b input ps run enacted = Some (rs, run', enacted')"
  shows "chain_from (gov_root k (rs_roots run)) (of_purpose k (accepted_of ps rs)) = Some (gov_root k (rs_roots run'))"
  using assms
proof (induction rule: ratify_loop_induct)
  case (accepted p ps run enacted r rs t run' enacted')
  then have "prev_action_as_expected run p" using tally_structure(1) by (simp add: all_accept_def)
  with accepted show ?case by (auto simp: enact_simps prev_action_as_expected_def)
qed auto

definition withdrawn :: "ratify_proposal \<Rightarrow> nat" where
  "withdrawn p = (case rp_action p of ActTreasuryWithdrawal ws \<Rightarrow> withdrawal_sum ws | _ \<Rightarrow> 0)"

lemma enact_treasury:
  assumes "withdrawal_can_withdraw run (rp_action p)"
  shows "unat (rs_treasury (enact run p)) + withdrawn p = unat (rs_treasury run)"
proof (cases "rp_action p")
  case (ActTreasuryWithdrawal ws)
  let ?w = "of_nat (min (withdrawal_sum ws) (2 ^ 64 - 1)) :: u64"
  have le: "withdrawal_sum ws \<le> unat (rs_treasury run)" using assms ActTreasuryWithdrawal by (simp add: withdrawal_can_withdraw_def)
  moreover have bound: "unat (rs_treasury run) < 2 ^ 64" using unsigned_less [where 'a = nat and w = "rs_treasury run"] by simp
  ultimately have small: "min (withdrawal_sum ws) (2 ^ 64 - 1) = withdrawal_sum ws" by simp
  then have w: "unat ?w = withdrawal_sum ws" using le bound by (simp add: unsigned_of_nat take_bit_nat_eq_self)
  then have "unat (saturating_sub (rs_treasury run) ?w) = unat (rs_treasury run) - withdrawal_sum ws"
    using le saturating_sub_exact [where x = "rs_treasury run" and y = ?w] by simp
  with le show ?thesis by (simp add: enact_simps ActTreasuryWithdrawal withdrawn_def)
qed (simp_all add: enact_simps withdrawn_def Let_def)

lemma loop_treasury:
  assumes "ratify_loop b input ps run enacted = Some (rs, run', enacted')"
  shows "unat (rs_treasury run') + (\<Sum>p \<leftarrow> accepted_of ps rs. withdrawn p) = unat (rs_treasury run)"
  using assms
proof (induction rule: ratify_loop_induct)
  case (accepted p ps run enacted r rs t run' enacted')
  then have "withdrawal_can_withdraw run (rp_action p)" using tally_structure(3) by (simp add: all_accept_def)
  from enact_treasury [OF this] accepted show ?case by simp
qed auto

lemma loop_delay:
  assumes "ratify_loop b input ps run enacted = Some (rs, run', enacted')"
  shows "(rs_delayed run \<longrightarrow> accepted_of ps rs = []) \<and>
    (\<forall>p \<in> set (butlast (accepted_of ps rs)). \<not> delaying_action (rp_action p)) \<and>
    rs_delayed run' = (if accepted_of ps rs = [] then rs_delayed run else delaying_action (rp_action (last (accepted_of ps rs))))"
  using assms
proof (induction rule: ratify_loop_induct)
  case (accepted p ps run enacted r rs t run' enacted')
  then have "\<not> rs_delayed run" using tally_structure(2) by (simp add: all_accept_def)
  with accepted show ?case by (auto split: if_splits)
qed auto

section \<open>The tallies count ballots\<close>

text \<open>How a member of a body counts, whatever the loop: the abstaining ballots leave the ratio.\<close>

definition member_ballot :: "epoch \<Rightarrow> (stake_credential \<rightharpoonup> committee_authorization) \<Rightarrow> (stake_credential \<rightharpoonup> vote) \<Rightarrow> stake_credential \<times> epoch \<Rightarrow> vote" where
  "member_ballot e auths votes member =
     (if e > snd member then VoteAbstain
      else case auths (fst member) of
          Some (HotCredential hot) \<Rightarrow> (case votes hot of Some v \<Rightarrow> v | None \<Rightarrow> VoteNo)
        | _ \<Rightarrow> VoteAbstain)"

definition drep_ballot :: "epoch \<Rightarrow> (stake_credential \<rightharpoonup> epoch option) \<Rightarrow> (stake_credential \<rightharpoonup> vote) \<Rightarrow> bool \<Rightarrow> drep \<Rightarrow> vote" where
  "drep_ballot e dreps votes nc d =
     (case drep_credential d of
        None \<Rightarrow> if d = DRepAbstain then VoteAbstain else if nc then VoteYes else VoteNo
      | Some cred \<Rightarrow>
          (case dreps cred of
             None \<Rightarrow> VoteAbstain
           | Some expiry \<Rightarrow>
               if (case expiry of Some x \<Rightarrow> e > x | None \<Rightarrow> False) then VoteAbstain
               else (case votes cred of Some v \<Rightarrow> v | None \<Rightarrow> VoteNo)))"

definition pool_ballot :: "(pool_hash \<rightharpoonup> vote) \<Rightarrow> (pool_hash \<rightharpoonup> default_vote) \<Rightarrow> proposal_action \<Rightarrow> bool \<Rightarrow> pool_hash \<Rightarrow> vote" where
  "pool_ballot votes defaults action bootstrap pool =
     (case votes pool of
        Some v \<Rightarrow> v
      | None \<Rightarrow>
          if is_hard_fork action then VoteNo
          else if bootstrap then VoteAbstain
          else (case defaults pool of
              Some DefaultAbstain \<Rightarrow> VoteAbstain
            | Some DefaultNoConfidence \<Rightarrow> if action = ActNoConfidence then VoteYes else VoteNo
            | _ \<Rightarrow> VoteNo))"

definition stake_of :: "('k \<Rightarrow> bool) \<Rightarrow> ('k, u64) table \<Rightarrow> nat" where
  "stake_of p distr = (\<Sum>(k, stake) \<leftarrow> distr. if p k then unat stake else 0)"

definition total_stake :: "('k, u64) table \<Rightarrow> nat" where
  "total_stake distr = (\<Sum>(_, stake) \<leftarrow> distr. unat stake)"

lemma stake_simps [simp]:
  "stake_of p [] = 0" "stake_of p ((k, stake) # distr) = (if p k then unat stake else 0) + stake_of p distr"
  "total_stake [] = 0" "total_stake ((k, stake) # distr) = unat stake + total_stake distr"
  by (simp_all add: stake_of_def total_stake_def)

lemma raw_add_small: "unat (x :: u64) + unat y < 2 ^ 64 \<Longrightarrow> raw_add b x y = Some (x + y) \<and> unat (x + y) = unat x + unat y"
  using unat_add_no_overflow [of x y] by (simp add: raw_add_def checked_add_def)

lemma raw_add_one: "unat (x :: u64) + 1 < 2 ^ 64 \<Longrightarrow> raw_add b x 1 = Some (x + 1) \<and> unat (x + 1) = unat x + 1"
  using raw_add_small [of x 1 b] by simp

lemma committee_loop_exact:
  assumes "unat yes + length members < 2 ^ 64" and "unat n + length members < 2 ^ 64"
  shows "\<exists>y m. committee_loop b e auths votes members (yes, n) = Some (y, m) \<and>
    unat y = unat yes + length (filter (\<lambda>x. member_ballot e auths votes x = VoteYes) members) \<and>
    unat m = unat n + length (filter (\<lambda>x. member_ballot e auths votes x \<noteq> VoteAbstain) members)"
  using assms
proof (induction members arbitrary: yes n)
  case (Cons x members)
  obtain cold expiry where x: "x = (cold, expiry)" by (cases x)
  have fits: "unat yes + length members < 2 ^ 64" "unat n + length members < 2 ^ 64"
    and one: "raw_add b yes 1 = Some (yes + 1)" "unat (yes + 1) = unat yes + 1" "raw_add b n 1 = Some (n + 1)" "unat (n + 1) = unat n + 1"
    using Cons.prems raw_add_one [of yes b] raw_add_one [of n b] by simp_all
  note IH = Cons.IH [OF fits] Cons.IH [of yes "n + 1"] Cons.IH [of "yes + 1" "n + 1"]
  show ?case
  proof (cases "member_ballot e auths votes x")
    case VoteNo
    then have "committee_loop b e auths votes (x # members) (yes, n) = committee_loop b e auths votes members (yes, n + 1)"
      by (auto simp: x member_ballot_def one split: if_splits option.splits committee_authorization.splits)
    with IH(2) Cons.prems one VoteNo show ?thesis by auto
  next
    case VoteYes
    then have "committee_loop b e auths votes (x # members) (yes, n) = committee_loop b e auths votes members (yes + 1, n + 1)"
      by (auto simp: x member_ballot_def one split: if_splits option.splits committee_authorization.splits)
    with IH(3) Cons.prems one VoteYes show ?thesis by auto
  next
    case VoteAbstain
    then have "committee_loop b e auths votes (x # members) (yes, n) = committee_loop b e auths votes members (yes, n)"
      by (auto simp: x member_ballot_def one split: if_splits option.splits committee_authorization.splits)
    with IH(1) VoteAbstain show ?thesis by auto
  qed
qed simp

lemma drep_loop_step:
  assumes "raw_add b yes stake = Some (yes + stake)" and "raw_add b n stake = Some (n + stake)"
  shows "drep_loop b e dreps votes nc ((d, stake) # distr) (yes, n) =
    (case drep_ballot e dreps votes nc d of
       VoteNo \<Rightarrow> drep_loop b e dreps votes nc distr (yes, n + stake)
     | VoteYes \<Rightarrow> drep_loop b e dreps votes nc distr (yes + stake, n + stake)
     | VoteAbstain \<Rightarrow> drep_loop b e dreps votes nc distr (yes, n))"
  using assms by (cases d) (auto simp: drep_ballot_def split: option.splits vote.splits)

lemma drep_loop_exact:
  assumes "unat yes + total_stake distr < 2 ^ 64" and "unat n + total_stake distr < 2 ^ 64"
  shows "\<exists>y m. drep_loop b e dreps votes nc distr (yes, n) = Some (y, m) \<and>
    unat y = unat yes + stake_of (\<lambda>d. drep_ballot e dreps votes nc d = VoteYes) distr \<and>
    unat m = unat n + stake_of (\<lambda>d. drep_ballot e dreps votes nc d \<noteq> VoteAbstain) distr"
  using assms
proof (induction distr arbitrary: yes n)
  case (Cons x distr)
  obtain d stake where x: "x = (d, stake)" by (cases x)
  have fits: "raw_add b yes stake = Some (yes + stake)" "unat (yes + stake) = unat yes + unat stake"
      "raw_add b n stake = Some (n + stake)" "unat (n + stake) = unat n + unat stake"
    using Cons.prems raw_add_small [of yes stake b] raw_add_small [of n stake b] by (simp_all add: x)
  note step = drep_loop_step [OF fits(1,3), of e dreps votes nc d distr]
  show ?case using Cons.IH [of yes n] Cons.IH [of yes "n + stake"] Cons.IH [of "yes + stake" "n + stake"] Cons.prems fits(2,4)
    unfolding x step by (cases "drep_ballot e dreps votes nc d") auto
qed simp

lemma spo_loop_step:
  assumes "raw_add b yes stake = Some (yes + stake)" and "raw_add b abstain stake = Some (abstain + stake)"
  shows "spo_loop b votes defaults action bootstrap ((h, stake) # distr) (yes, abstain) =
    (case pool_ballot votes defaults action bootstrap h of
       VoteNo \<Rightarrow> spo_loop b votes defaults action bootstrap distr (yes, abstain)
     | VoteYes \<Rightarrow> spo_loop b votes defaults action bootstrap distr (yes + stake, abstain)
     | VoteAbstain \<Rightarrow> spo_loop b votes defaults action bootstrap distr (yes, abstain + stake))"
  using assms by (auto simp: pool_ballot_def split: option.splits vote.splits default_vote.splits)

lemma spo_loop_exact:
  assumes "unat yes + total_stake distr < 2 ^ 64" and "unat abstain + total_stake distr < 2 ^ 64"
  shows "\<exists>y x. spo_loop b votes defaults action bootstrap distr (yes, abstain) = Some (y, x) \<and>
    unat y = unat yes + stake_of (\<lambda>h. pool_ballot votes defaults action bootstrap h = VoteYes) distr \<and>
    unat x = unat abstain + stake_of (\<lambda>h. pool_ballot votes defaults action bootstrap h = VoteAbstain) distr"
  using assms
proof (induction distr arbitrary: yes abstain)
  case (Cons x distr)
  obtain h stake where x: "x = (h, stake)" by (cases x)
  have fits: "raw_add b yes stake = Some (yes + stake)" "unat (yes + stake) = unat yes + unat stake"
      "raw_add b abstain stake = Some (abstain + stake)" "unat (abstain + stake) = unat abstain + unat stake"
    using Cons.prems raw_add_small [of yes stake b] raw_add_small [of abstain stake b] by (simp_all add: x)
  note step = spo_loop_step [OF fits(1,3), of votes defaults action bootstrap h distr]
  show ?case using Cons.IH [of yes abstain] Cons.IH [of yes "abstain + stake"] Cons.IH [of "yes + stake" abstain] Cons.prems fits(2,4)
    unfolding x step by (cases "pool_ballot votes defaults action bootstrap h") auto
qed simp

text \<open>The comparison of products is the comparison of fractions, where a body without ballots has ratio 0.\<close>

definition threshold_value :: "rational_number \<Rightarrow> rat" where
  "threshold_value t = of_nat (unat (numerator t)) / of_nat (unat (denominator t))"

lemma fraction_le_iff:
  assumes "0 < d"
  shows "of_nat x / of_nat d \<le> (of_nat y / of_nat n :: rat) \<longleftrightarrow> x = 0 \<or> n \<noteq> 0 \<and> x * n \<le> y * d"
proof (cases "n = 0")
  case True
  with assms show ?thesis by (simp add: divide_le_0_iff)
next
  case False
  with assms have "of_nat x / of_nat d \<le> (of_nat y / of_nat n :: rat) \<longleftrightarrow> x * n \<le> y * d"
    by (simp add: divide_simps flip: of_nat_mult)
  with False show ?thesis by auto
qed

lemma ratio_meets_iff:
  assumes "denominator t \<noteq> 0"
  shows "ratio_meets yes n t \<longleftrightarrow> threshold_value t \<le> of_nat (unat yes) / of_nat (unat n)"
proof -
  have "0 < unat (denominator t)" using assms by (simp add: unat_gt_0)
  then show ?thesis
    unfolding threshold_value_def by (subst fraction_le_iff) (auto simp: ratio_meets_def unat_eq_0)
qed

definition threshold_ok :: "threshold \<Rightarrow> bool" where
  "threshold_ok t \<longleftrightarrow> (\<forall>x. t = Some x \<longrightarrow> denominator x \<noteq> 0)"

definition body_accepts :: "threshold \<Rightarrow> nat \<Rightarrow> nat \<Rightarrow> bool" where
  "body_accepts t yes n = (case t of None \<Rightarrow> False | Some x \<Rightarrow> threshold_value x \<le> of_nat yes / of_nat n)"

lemma meets_iff: "threshold_ok t \<Longrightarrow> meets tally t \<longleftrightarrow> body_accepts t (unat (fst tally)) (unat (snd tally))"
  by (simp add: threshold_ok_def meets_def body_accepts_def ratio_meets_iff del: of_nat_unat split: option.splits)

definition live_members :: "run_state \<Rightarrow> (stake_credential, epoch) table" where
  "live_members run = (case rs_committee run of Some cm \<Rightarrow> cm_members cm | None \<Rightarrow> [])"

lemma unat_saturating_sub: "unat (saturating_sub x y) = unat x - unat (y :: 'a::len word)"
proof (cases "unat y \<le> unat x")
  case True
  from saturating_sub_exact [OF this] show ?thesis by simp
next
  case False
  then show ?thesis by (simp add: saturating_sub_def word_le_nat_alt)
qed

text \<open>The getters never panic: a value found under a kind is of that kind.\<close>

lemma kind_of_default [simp]: "kind_of (default_value k) = k"
  by (cases k) simp_all

lemma kind_of_get: "kind_of (pp_get_or_default s k) = k"
  by (auto simp: pp_get_or_default_def pp_get_def find_Some_iff split: option.split)

lemma getters_total:
  "\<exists>x. pgetter_or_default KMinCommitteeSize proj_min_committee_size s = Some x"
  "\<exists>x. pgetter_or_default KCommitteeTermLimit proj_committee_term_limit s = Some x"
  "\<exists>x. pgetter_or_default KDrepVotingThresholds proj_drep_voting_thresholds s = Some x"
  "\<exists>x. pgetter_or_default KPoolVotingThresholds proj_pool_voting_thresholds s = Some x"
  unfolding pgetter_or_default_def
  using kind_of_get [of s KMinCommitteeSize] kind_of_get [of s KCommitteeTermLimit]
    kind_of_get [of s KDrepVotingThresholds] kind_of_get [of s KPoolVotingThresholds]
  by (auto elim!: kind_of.elims)

lemma bootstrap_phase_total: "\<exists>x. bootstrap_phase s = Some x"
proof -
  have "\<exists>x. proj_protocol_version v = Some x" if "pp_get s KProtocolVersion = Some v" for v
  proof -
    from that have "kind_of v = KProtocolVersion" by (auto simp: pp_get_def find_Some_iff)
    then show ?thesis by (cases v) auto
  qed
  then show ?thesis
    by (fastforce simp: bootstrap_phase_def protocol_major_or_default_def protocol_major_def pp_protocol_version_def pgetter_def
        split: option.split)
qed

lemma thresholds_total:
  "\<exists>t. committee_threshold input run action = Some t" "\<exists>t. drep_threshold run action = Some t"
  "\<exists>t. spo_threshold run action = Some t"
proof -
  obtain x1 x3 x4 y where get: "pgetter_or_default KMinCommitteeSize proj_min_committee_size (rs_pparams run) = Some x1"
      "pgetter_or_default KDrepVotingThresholds proj_drep_voting_thresholds (rs_pparams run) = Some x3"
      "pgetter_or_default KPoolVotingThresholds proj_pool_voting_thresholds (rs_pparams run) = Some x4"
      "bootstrap_phase (rs_pparams run) = Some y"
    using getters_total [of "rs_pparams run"] bootstrap_phase_total [of "rs_pparams run"] by blast
  have "\<exists>t. voting_committee_threshold input run cm = Some t" for cm
    by (cases cm) (simp_all add: voting_committee_threshold_def get)
  then show "\<exists>t. committee_threshold input run action = Some t" by (cases action) simp_all
  show "\<exists>t. drep_threshold run action = Some t" "\<exists>t. spo_threshold run action = Some t"
    by (simp_all add: drep_threshold_def spo_threshold_def live_drep_thresholds_def get)
qed

section \<open>The surviving subtree\<close>

definition up :: "ratify_proposal list \<Rightarrow> gov_action_id option \<Rightarrow> gov_action_id option" where
  "up ps cursor = Option.bind cursor (\<lambda>i. Option.bind (by_id ps i) rp_parent)"

text \<open>Reaching an action from a cursor by following declared parents, however often.\<close>

inductive descends :: "ratify_proposal list \<Rightarrow> gov_action_id \<Rightarrow> gov_action_id option \<Rightarrow> bool" for ps winner where
  here: "descends ps winner (Some winner)"
| above: "descends ps winner (up ps (Some i)) \<Longrightarrow> descends ps winner (Some i)"

lemma up_None [simp]: "up ps None = None" "(up ps ^^ n) None = None"
proof -
  show up: "up ps None = None" by (simp add: up_def)
  then show "(up ps ^^ n) None = None" by (induction n) simp_all
qed

lemma descends_pow: "descends ps w c \<Longrightarrow> \<exists>n. (up ps ^^ n) c = Some w"
proof (induction rule: descends.induct)
  case here
  show ?case by (rule exI [of _ 0]) simp
next
  case (above i)
  then obtain n where "(up ps ^^ n) (up ps (Some i)) = Some w" by blast
  then have "(up ps ^^ Suc n) (Some i) = Some w" by (simp only: funpow_Suc_right comp_def)
  then show ?case ..
qed

lemma walk_sound: "walk_parents ps w steps c \<Longrightarrow> descends ps w c"
proof (induction ps w steps c rule: walk_parents.induct)
  case (2 ps winner steps parent)
  then show ?case by (auto simp: up_def split: if_splits intro: descends.intros)
qed simp

lemma walk_reaches:
  assumes "(up ps ^^ n) c = Some w" and "steps + n \<le> length ps"
  shows "walk_parents ps w steps c"
  using assms
proof (induction n arbitrary: c steps)
  case (Suc n)
  then obtain i where c: "c = Some i" by (cases c) (simp_all add: funpow_Suc_right funpow_swap1)
  from Suc.prems(1) have "(up ps ^^ n) (up ps c) = Some w" by (simp only: funpow_Suc_right comp_def)
  from Suc.IH [OF this, of "steps + 1"] Suc.prems(2) show ?case by (auto simp: c up_def)
qed simp

text \<open>
  The bound on the steps is enough: a shortest way up passes through different proposals, so it is no
  longer than their number.
\<close>

lemma shortest_way:
  assumes "(up ps ^^ n) c = Some w" and least: "\<And>k. k < n \<Longrightarrow> (up ps ^^ k) c \<noteq> Some w"
  shows "n \<le> length ps"
proof -
  let ?x = "\<lambda>k. (up ps ^^ k) c"
  have rest: "(up ps ^^ (n - k)) (?x k) = Some w" if "k \<le> n" for k
    using that assms(1) by (simp flip: funpow_add comp_apply [of "up ps ^^ (n - k)"])
  have "inj_on ?x {..<n}"
  proof (rule linorder_inj_onI)
    fix i j assume ij: "i < j" "i \<in> {..<n}" "j \<in> {..<n}"
    show "?x i \<noteq> ?x j"
    proof
      assume eq: "?x i = ?x j"
      have "(up ps ^^ (n - j + i)) c = (up ps ^^ (n - j)) (?x i)" by (simp add: funpow_add)
      also have "\<dots> = Some w" using rest [of j] ij eq by simp
      finally have "(up ps ^^ (n - j + i)) c = Some w" .
      moreover have "n - j + i < n" using ij by auto
      ultimately show False using least by blast
    qed
  qed auto
  moreover have "?x ` {..<n} \<subseteq> Some ` set (map rp_id ps)"
  proof
    fix v assume "v \<in> ?x ` {..<n}"
    then obtain k where k: "k < n" "v = ?x k" by auto
    have "?x (Suc k) \<noteq> None"
    proof
      assume "?x (Suc k) = None"
      with rest [of "Suc k"] k(1) show False by simp
    qed
    then obtain i p where "?x k = Some i" "by_id ps i = Some p" by (auto simp: up_def bind_eq_Some_conv)
    then show "v \<in> Some ` set (map rp_id ps)" using k(2) by (auto simp: by_id_def dest!: map_of_SomeD)
  qed
  ultimately have "card {..<n} \<le> card (Some ` set (map rp_id ps))" by (rule card_inj_on_le) simp
  also have "\<dots> \<le> length ps" using card_length [of "map rp_id ps"] by (simp add: card_image)
  finally show ?thesis by simp
qed

lemma walk_iff: "walk_parents ps w 0 c \<longleftrightarrow> descends ps w c"
proof
  assume "descends ps w c"
  then have ex: "\<exists>n. (up ps ^^ n) c = Some w" by (rule descends_pow)
  let ?n = "LEAST n. (up ps ^^ n) c = Some w"
  have way: "(up ps ^^ ?n) c = Some w" using ex by (rule LeastI_ex)
  have "?n \<le> length ps" by (rule shortest_way [OF way]) (rule not_less_Least)
  with way show "walk_parents ps w 0 c" by (intro walk_reaches [where n = ?n]) simp_all
qed (rule walk_sound)

text \<open>The last enacted action of a purpose.\<close>

lemma last_enacted_eq:
  "last_enacted ps enacted k =
     (let mine = filter (\<lambda>i. \<exists>p. by_id ps i = Some p \<and> action_purpose (rp_action p) = Some k) enacted
      in if mine = [] then None else Some (last mine))"
proof (induction enacted rule: rev_induct)
  case (snoc i enacted)
  have "last_enacted ps (enacted @ [i]) k =
      (if \<exists>p. by_id ps i = Some p \<and> action_purpose (rp_action p) = Some k then Some i else last_enacted ps enacted k)"
    by (auto simp: last_enacted_def split: option.split)
  with snoc show ?case by (auto simp: Let_def)
qed (simp add: last_enacted_def)

lemma by_id_distinct: "distinct (map rp_id ps) \<Longrightarrow> p \<in> set ps \<Longrightarrow> by_id ps (rp_id p) = Some p"
  unfolding by_id_def by (rule map_of_is_SomeI) (auto simp: rev_map [symmetric] comp_def)

lemma accepted_of_subset: "set (accepted_of ps rs) \<subseteq> set ps"
  by (auto simp: accepted_of_def dest: set_zip_leftD)

lemma chain_from_last: "chain_from start ps = Some end \<Longrightarrow> ps \<noteq> [] \<Longrightarrow> end = Some (rp_id (last ps))"
  by (induction ps arbitrary: start) (auto split: if_splits)

text \<open>The last enacted action of a purpose is the root the run leaves.\<close>

lemma last_enacted_root:
  assumes "distinct (map rp_id ps)" and "set acc \<subseteq> set ps" and "chain_from start (of_purpose k acc) = Some end" and "of_purpose k acc \<noteq> []"
  shows "last_enacted ps (map rp_id acc) k = end"
proof -
  have "filter (\<lambda>i. \<exists>p. by_id ps i = Some p \<and> action_purpose (rp_action p) = Some k) (map rp_id acc) = map rp_id (of_purpose k acc)"
    using assms(2)
  proof (induction acc)
    case (Cons p acc)
    then show ?case using by_id_distinct [OF assms(1), of p] by auto
  qed simp
  then show ?thesis using chain_from_last [OF assms(3,4)] assms(4) by (simp add: last_enacted_eq last_map)
qed

lemma ratify_run:
  assumes "ratify b input = Some out"
  obtains run where "ratify_loop b input (ratify_order input) (run_start input) [] = Some (ro_verdicts out, run, ro_enacted out)"
    and "ro_roots out = rs_roots run" and "ro_treasury out = rs_treasury run" and "ro_delayed out = rs_delayed run"
  using assms by (auto simp: ratify_def panic_simps)

section \<open>Properties\<close>

text \<open>
  C7. Ratification keeps the lineage of governance actions. A run looks at every proposal of the snapshot
  once, by priority and within one priority in the order of submission, and gives each one verdict; what it enacts
  are the accepted ones in that order; and for every purpose the enacted actions form a chain, the first
  declaring the root the run started from, each further one its predecessor, the last being the new root.
\<close>

theorem ratify_keeps_lineage:
  assumes "ratify b input = Some out"
  shows "mset (ratify_order input) = mset (ri_proposals input) \<and>
    sorted (map (\<lambda>p. (action_priority (rp_action p), rp_order p)) (ratify_order input)) \<and>
    map pr_id (ro_verdicts out) = map rp_id (ratify_order input) \<and>
    ro_enacted out = map rp_id (accepted_of (ratify_order input) (ro_verdicts out)) \<and>
    (\<forall>k. chain_from (gov_root k (ri_roots input)) (of_purpose k (accepted_of (ratify_order input) (ro_verdicts out))) =
      Some (gov_root k (ro_roots out)))"
proof -
  from assms obtain run where run: "ratify_loop b input (ratify_order input) (run_start input) [] = Some (ro_verdicts out, run, ro_enacted out)"
      and out: "ro_roots out = rs_roots run" by (rule ratify_run)
  from loop_enacted [OF run] loop_lineage [OF run] show ?thesis by (simp add: run_start_def out ratify_order_def)
qed

text \<open>
  C17. A run never overspends and stops at a delaying action. The treasury it leaves is exactly the treasury it
  started with less every enacted withdrawal, so the withdrawals fit; at most one delaying action is enacted, it
  is the last one, and the run reports the delay exactly then.
\<close>

theorem ratify_treasury_and_delay:
  assumes "ratify b input = Some out" and "accepted_of (ratify_order input) (ro_verdicts out) = acc"
  shows "unat (ro_treasury out) + (\<Sum>p \<leftarrow> acc. withdrawn p) = unat (ri_treasury input) \<and>
    (\<forall>p \<in> set (butlast acc). \<not> delaying_action (rp_action p)) \<and>
    ro_delayed out = (acc \<noteq> [] \<and> delaying_action (rp_action (last acc)))"
proof -
  from assms(1) obtain run where run: "ratify_loop b input (ratify_order input) (run_start input) [] = Some (ro_verdicts out, run, ro_enacted out)"
      and out: "ro_treasury out = rs_treasury run" "ro_delayed out = rs_delayed run" by (rule ratify_run)
  from loop_treasury [OF run] loop_delay [OF run] show ?thesis by (auto simp: run_start_def out assms(2))
qed

text \<open>
  C10. Acceptance is what the ballots say. When the stake fits in the counters and the thresholds are fractions,
  the tallies of a proposal do not panic and it is accepted exactly if its parent is the current root, the terms of
  new members are within the limit, nothing delayed the run, its withdrawals fit the treasury, and in each body
  the fraction of the counted ballots that says yes reaches the body's threshold: members without authorisation,
  resigned or expired are not counted, nor unregistered or expired DReps, a member or DRep that did not vote
  counts as no, a silent pool by its default, and the pools' fraction is of all stake but the abstaining.
\<close>

theorem acceptance_is_exact:
  assumes "length (live_members run) < 2 ^ 64" and "total_stake (ri_drep_distr input) < 2 ^ 64"
    and "total_stake (ri_pool_distr input) < 2 ^ 64"
    and "valid_committee_term b run (ri_current_epoch input) (rp_action p) = Some term_ok"
    and "committee_threshold input run (rp_action p) = Some ct" and "threshold_ok ct"
    and "drep_threshold run (rp_action p) = Some dt" and "threshold_ok dt"
    and "spo_threshold run (rp_action p) = Some st" and "threshold_ok st"
    and "bootstrap_phase (rs_pparams run) = Some bootstrap"
    and "ballot_cc = member_ballot (ri_current_epoch input) (ri_committee_auths input) (rp_cc_votes p)"
    and "ballot_drep = drep_ballot (ri_current_epoch input) (ri_dreps input) (rp_drep_votes p) (rp_action p = ActNoConfidence)"
    and "ballot_spo = pool_ballot (rp_spo_votes p) (ri_pool_default_votes input) (rp_action p) bootstrap"
  shows "\<exists>t. tally_proposal b input run p = Some t \<and>
    (all_accept t \<longleftrightarrow> prev_action_as_expected run p \<and> term_ok \<and> \<not> rs_delayed run \<and> withdrawal_can_withdraw run (rp_action p) \<and>
      body_accepts ct (length (filter (\<lambda>x. ballot_cc x = VoteYes) (live_members run)))
        (length (filter (\<lambda>x. ballot_cc x \<noteq> VoteAbstain) (live_members run))) \<and>
      body_accepts dt (stake_of (\<lambda>d. ballot_drep d = VoteYes) (ri_drep_distr input))
        (stake_of (\<lambda>d. ballot_drep d \<noteq> VoteAbstain) (ri_drep_distr input)) \<and>
      body_accepts st (stake_of (\<lambda>h. ballot_spo h = VoteYes) (ri_pool_distr input))
        (unat (ri_pool_total input) - stake_of (\<lambda>h. ballot_spo h = VoteAbstain) (ri_pool_distr input)))"
proof -
  obtain cc where cc: "(case rs_committee run of
        Some cm \<Rightarrow> committee_tally b (ri_current_epoch input) (cm_members cm) (ri_committee_auths input) (rp_cc_votes p)
      | None \<Rightarrow> Some (0, 0)) = Some cc"
      "unat (fst cc) = length (filter (\<lambda>x. ballot_cc x = VoteYes) (live_members run))"
      "unat (snd cc) = length (filter (\<lambda>x. ballot_cc x \<noteq> VoteAbstain) (live_members run))"
    using committee_loop_exact [of 0 "live_members run" 0 b "ri_current_epoch input" "ri_committee_auths input" "rp_cc_votes p"]
      assms(1,12) by (cases "rs_committee run") (auto simp: live_members_def committee_tally_def)
  obtain dr where dr: "drep_tally b (ri_current_epoch input) (ri_drep_distr input) (ri_dreps input) (rp_drep_votes p)
      (rp_action p = ActNoConfidence) = Some dr" "unat (fst dr) = stake_of (\<lambda>d. ballot_drep d = VoteYes) (ri_drep_distr input)"
      "unat (snd dr) = stake_of (\<lambda>d. ballot_drep d \<noteq> VoteAbstain) (ri_drep_distr input)"
    using drep_loop_exact [of 0 "ri_drep_distr input" 0 b "ri_current_epoch input" "ri_dreps input" "rp_drep_votes p"
        "rp_action p = ActNoConfidence"] assms(2,13) by (auto simp: drep_tally_def)
  obtain yes abstain where spo: "spo_tally b (ri_pool_distr input) (rp_spo_votes p) (ri_pool_default_votes input) (rp_action p)
      bootstrap = Some (yes, abstain)" "unat yes = stake_of (\<lambda>h. ballot_spo h = VoteYes) (ri_pool_distr input)"
      "unat abstain = stake_of (\<lambda>h. ballot_spo h = VoteAbstain) (ri_pool_distr input)"
    using spo_loop_exact [of 0 "ri_pool_distr input" 0 b "rp_spo_votes p" "ri_pool_default_votes input" "rp_action p" bootstrap]
      assms(3,14) by (auto simp: spo_tally_def)
  show ?thesis
    unfolding tally_proposal_def Let_def assms(4,5,7,9,11) cc(1) dr(1) spo(1) bind.bind_lunit prod.case
    by (auto simp: all_accept_def meets_iff [OF assms(6)] meets_iff [OF assms(8)] meets_iff [OF assms(10)]
        unat_saturating_sub cc dr spo)
qed

text \<open>
  C13. Pruning keeps exactly the subtree of the new root. Among the snapshot proposals of a purpose that were not
  enacted, the ones removed after a run are, when the run enacted something of that purpose, exactly those that do
  not descend from the root it left, however long their line of parents is, and otherwise none: the bound on the
  walk up the line, which makes it end on any input, never cuts a line short.
\<close>

theorem pruning_keeps_subtree:
  assumes "ratify b input = Some out" and "distinct (map rp_id (ri_proposals input))" and "distinct (map rp_key (ri_proposals input))"
    and "p \<in> set (ri_proposals input)" and "rp_id p \<notin> set (ro_enacted out)" and "action_purpose (rp_action p) = Some k"
  shows "rp_key p \<in> pruned_by_enactment (ri_proposals input) (ro_enacted out) \<longleftrightarrow>
    of_purpose k (accepted_of (ratify_order input) (ro_verdicts out)) \<noteq> [] \<and>
    (\<exists>w. gov_root k (ro_roots out) = Some w \<and> \<not> descends (ri_proposals input) w (rp_parent p))"
proof -
  let ?ps = "ri_proposals input" and ?acc = "accepted_of (ratify_order input) (ro_verdicts out)"
  from assms(1) obtain run where run: "ratify_loop b input (ratify_order input) (run_start input) [] = Some (ro_verdicts out, run, ro_enacted out)"
      and out: "ro_roots out = rs_roots run" by (rule ratify_run)
  have enacted: "ro_enacted out = map rp_id ?acc" using loop_enacted [OF run] by simp
  have sub: "set ?acc \<subseteq> set ?ps" using accepted_of_subset [of "ratify_order input" "ro_verdicts out"] by (simp add: ratify_order_def)
  have chain: "chain_from (gov_root k (ri_roots input)) (of_purpose k ?acc) = Some (gov_root k (ro_roots out))"
    using loop_lineage [OF run] by (simp add: run_start_def out)
  have "rp_key p \<in> pruned_by_enactment ?ps (ro_enacted out) \<longleftrightarrow>
      (case last_enacted ?ps (ro_enacted out) k of None \<Rightarrow> False | Some w \<Rightarrow> \<not> walk_parents ?ps w 0 (rp_parent p))"
    using assms(3-6) by (auto simp: pruned_by_enactment_def distinct_map dest: inj_onD split: option.splits)
  also have "\<dots> \<longleftrightarrow> of_purpose k ?acc \<noteq> [] \<and> (\<exists>w. gov_root k (ro_roots out) = Some w \<and> \<not> descends ?ps w (rp_parent p))"
  proof (cases "of_purpose k ?acc = []")
    case True
    have "\<not> (by_id ?ps i = Some q \<and> action_purpose (rp_action q) = Some k)" if i: "i \<in> set (ro_enacted out)" for i q
    proof
      assume q: "by_id ?ps i = Some q \<and> action_purpose (rp_action q) = Some k"
      from i enacted obtain a where a: "a \<in> set ?acc" "i = rp_id a" by auto
      with q by_id_distinct [OF assms(2), of a] sub have "q = a" by auto
      with a q True show False by (auto simp: of_purpose_def filter_empty_conv)
    qed
    then have "last_enacted ?ps (ro_enacted out) k = None" by (auto simp: last_enacted_eq filter_empty_conv Let_def)
    with True show ?thesis by simp
  next
    case False
    with last_enacted_root [OF assms(2) sub chain] show ?thesis by (simp add: enacted walk_iff split: option.split)
  qed
  finally show ?thesis .
qed

text \<open>A snapshot of three constitutions, two of them siblings, and a withdrawal.\<close>

definition sample_action :: "hash32 \<Rightarrow> proposal_action \<Rightarrow> gov_action_id option \<Rightarrow> ratify_proposal" where
  "sample_action tx action parent = \<lparr>rp_key = [ucast tx], rp_id = \<lparr>ga_transaction_id = tx, ga_action_index = 0\<rparr>,
     rp_action = action, rp_parent = parent, rp_expires_after = 20, rp_order = (100, tx, 0),
     rp_cc_votes = Map.empty, rp_drep_votes = [AddrKeyhash 7 \<mapsto> VoteYes], rp_spo_votes = Map.empty\<rparr>"

definition sample_constitution :: proposal_action where
  "sample_constitution = ActNewConstitution \<lparr>an_url = ''c'', an_content_hash = 0\<rparr> None"

definition sample_snapshot :: ratify_input where
  "sample_snapshot = \<lparr>ri_current_epoch = 10, ri_pparams = [], ri_treasury = 100,
     ri_committee = Some \<lparr>cm_members = [], cm_threshold = \<lparr>numerator = 0, denominator = 1\<rparr>\<rparr>,
     ri_roots = gov_roots_default, ri_committee_auths = Map.empty, ri_drep_distr = [(DRepKey 7, 5), (DRepNoConfidence, 3)],
     ri_pool_distr = [], ri_pool_total = 0, ri_dreps = [AddrKeyhash 7 \<mapsto> None], ri_pool_default_votes = Map.empty,
     ri_proposals = [sample_action 1 (ActTreasuryWithdrawal [(AddrKeyhash 5, 30)]) None,
       sample_action 2 sample_constitution None, sample_action 3 sample_constitution None,
       sample_action 4 sample_constitution (Some \<lparr>ga_transaction_id = 2, ga_action_index = 0\<rparr>)]\<rparr>"

lemma sample_order:
  "ratify_order sample_snapshot = [sample_action 2 sample_constitution None, sample_action 3 sample_constitution None,
     sample_action 4 sample_constitution (Some \<lparr>ga_transaction_id = 2, ga_action_index = 0\<rparr>),
     sample_action 1 (ActTreasuryWithdrawal [(AddrKeyhash 5, 30)]) None]"
  by (simp add: ratify_order_def sample_snapshot_def sample_action_def sample_constitution_def sort_key_def)

lemma sample_body:
  assumes "rs_pparams run = []" and "rs_committee run = ri_committee sample_snapshot"
    and "action = sample_constitution \<or> action = ActTreasuryWithdrawal [(AddrKeyhash 5, 30)]"
  shows "map_option all_accept (tally_proposal \<lparr>strict = True, overflow_checks = True\<rparr> sample_snapshot run (sample_action tx action parent)) =
    Some (prev_action_as_expected run (sample_action tx action parent) \<and> \<not> rs_delayed run \<and> withdrawal_can_withdraw run action)"
proof -
  have "bootstrap_phase [] = Some False"
    by (simp add: bootstrap_phase_def protocol_major_or_default_def protocol_major_def pp_protocol_version_def pgetter_def pp_get_def)
  moreover have "pgetter_or_default KMinCommitteeSize proj_min_committee_size [] = Some 0"
      "pgetter_or_default KDrepVotingThresholds proj_drep_voting_thresholds [] = Some bootstrap_drep_thresholds"
      "pgetter_or_default KPoolVotingThresholds proj_pool_voting_thresholds [] = Some default_pool_voting_thresholds"
    by (simp_all add: pgetter_or_default_def pp_get_or_default_def pp_get_def bootstrap_drep_thresholds_def
        default_drep_voting_thresholds_def default_rational_number_def zero_threshold_def Let_def)
  ultimately show ?thesis
    using assms by (auto simp: tally_proposal_def Let_def sample_action_def sample_constitution_def sample_snapshot_def all_accept_def
        valid_committee_term_def voting_committee_threshold_def drep_threshold_def live_drep_thresholds_def spo_threshold_def
        committee_tally_def drep_tally_def spo_tally_def meets_def ratio_meets_def zero_threshold_def bootstrap_drep_thresholds_def
        raw_add_def checked_add_def)
qed

lemma sample_step:
  assumes "rs_pparams run = []" and "rs_committee run = ri_committee sample_snapshot"
    and "action = sample_constitution \<or> action = ActTreasuryWithdrawal [(AddrKeyhash 5, 30)]"
    and "p = sample_action tx action parent"
    and "ok \<longleftrightarrow> prev_action_as_expected run p \<and> \<not> rs_delayed run \<and> withdrawal_can_withdraw run action"
  shows "\<exists>r. ratify_step \<lparr>strict = True, overflow_checks = True\<rparr> sample_snapshot run enacted p =
      Some (r, if ok then (enact run p)\<lparr>rs_delayed := delaying_action action\<rparr> else run, if ok then enacted @ [rp_id p] else enacted) \<and>
    pr_verdict r = (if ok then Accepted else Continuing)"
proof -
  from sample_body [OF assms(1-3), of tx parent] obtain t where
      "tally_proposal \<lparr>strict = True, overflow_checks = True\<rparr> sample_snapshot run p = Some t" "all_accept t \<longleftrightarrow> ok"
    using assms(4,5) by (auto simp: map_option_eq_Some)
  then show ?thesis by (simp add: ratify_step_def assms(4) sample_action_def sample_snapshot_def)
qed

lemma sample_run:
  "\<exists>out. ratify \<lparr>strict = True, overflow_checks = True\<rparr> sample_snapshot = Some out \<and>
     accepted_of (ratify_order sample_snapshot) (ro_verdicts out) = [sample_action 2 sample_constitution None] \<and>
     gov_root PurposeConstitution (ro_roots out) = Some \<lparr>ga_transaction_id = 2, ga_action_index = 0\<rparr> \<and>
     ro_enacted out = [\<lparr>ga_transaction_id = 2, ga_action_index = 0\<rparr>]"
proof -
  let ?b = "\<lparr>strict = True, overflow_checks = True\<rparr>" and ?i = "\<lambda>tx. \<lparr>ga_transaction_id = tx, ga_action_index = 0\<rparr>"
  let ?p2 = "sample_action 2 sample_constitution None" and ?p3 = "sample_action 3 sample_constitution None"
  let ?p4 = "sample_action 4 sample_constitution (Some (?i 2))" and ?p1 = "sample_action 1 (ActTreasuryWithdrawal [(AddrKeyhash 5, 30)]) None"
  let ?run = "(enact (run_start sample_snapshot) ?p2)\<lparr>rs_delayed := True\<rparr>"
  have start: "rs_pparams (run_start sample_snapshot) = []" "rs_committee (run_start sample_snapshot) = ri_committee sample_snapshot"
      "rs_pparams ?run = []" "rs_committee ?run = ri_committee sample_snapshot"
      "gov_root PurposeConstitution (rs_roots ?run) = Some (?i 2)"
    by (simp_all add: run_start_def sample_snapshot_def enact_def sample_action_def sample_constitution_def)
  obtain r2 where r2: "ratify_step ?b sample_snapshot (run_start sample_snapshot) [] ?p2 = Some (r2, ?run, [?i 2])" "pr_verdict r2 = Accepted"
    using sample_step [OF start(1,2), of sample_constitution ?p2 2 None True "[]"]
    by (auto simp: prev_action_as_expected_def run_start_def sample_snapshot_def gov_roots_default_def sample_action_def
        sample_constitution_def withdrawal_can_withdraw_def)
  obtain r3 where r3: "ratify_step ?b sample_snapshot ?run [?i 2] ?p3 = Some (r3, ?run, [?i 2])" "pr_verdict r3 = Continuing"
    using sample_step [OF start(3,4), of sample_constitution ?p3 3 None False "[?i 2]"] by auto
  obtain r4 where r4: "ratify_step ?b sample_snapshot ?run [?i 2] ?p4 = Some (r4, ?run, [?i 2])" "pr_verdict r4 = Continuing"
    using sample_step [OF start(3,4), of sample_constitution ?p4 4 "Some (?i 2)" False "[?i 2]"] by auto
  obtain r1 where r1: "ratify_step ?b sample_snapshot ?run [?i 2] ?p1 = Some (r1, ?run, [?i 2])" "pr_verdict r1 = Continuing"
    using sample_step [OF start(3,4), of _ ?p1 1 None False "[?i 2]"] by auto
  show ?thesis using start(5) by (simp add: ratify_def sample_order r1 r2 r3 r4)
qed

theorem ratify_keeps_lineage_witness:
  "\<exists>out. ratify \<lparr>strict = True, overflow_checks = True\<rparr> sample_snapshot = Some out \<and>
     chain_from None [sample_action 2 sample_constitution None] = Some (gov_root PurposeConstitution (ro_roots out))"
proof -
  from sample_run obtain out where out: "ratify \<lparr>strict = True, overflow_checks = True\<rparr> sample_snapshot = Some out"
      "accepted_of (ratify_order sample_snapshot) (ro_verdicts out) = [sample_action 2 sample_constitution None]" by blast
  have "chain_from (gov_root PurposeConstitution (ri_roots sample_snapshot))
      (of_purpose PurposeConstitution [sample_action 2 sample_constitution None]) = Some (gov_root PurposeConstitution (ro_roots out))"
    using ratify_keeps_lineage [OF out(1)] out(2) by (simp del: of_purpose_simps chain_from.simps gov_root.simps)
  with out(1) show ?thesis
    by (intro exI [of _ out]) (simp add: sample_snapshot_def gov_roots_default_def sample_action_def sample_constitution_def)
qed

theorem ratify_treasury_and_delay_witness:
  "\<exists>out. ratify \<lparr>strict = True, overflow_checks = True\<rparr> sample_snapshot = Some out \<and> unat (ro_treasury out) = 100 \<and> ro_delayed out"
proof -
  from sample_run obtain out where out: "ratify \<lparr>strict = True, overflow_checks = True\<rparr> sample_snapshot = Some out"
      "accepted_of (ratify_order sample_snapshot) (ro_verdicts out) = [sample_action 2 sample_constitution None]" by blast
  with ratify_treasury_and_delay [OF out] show ?thesis
    by (auto simp: withdrawn_def sample_action_def sample_constitution_def sample_snapshot_def)
qed

theorem pruning_keeps_subtree_witness:
  "\<exists>out. ratify \<lparr>strict = True, overflow_checks = True\<rparr> sample_snapshot = Some out \<and>
     [3] \<in> pruned_by_enactment (ri_proposals sample_snapshot) (ro_enacted out) \<and>
     [4] \<notin> pruned_by_enactment (ri_proposals sample_snapshot) (ro_enacted out)"
proof -
  let ?i = "\<lambda>tx. \<lparr>ga_transaction_id = tx, ga_action_index = 0\<rparr>"
  from sample_run obtain out where out: "ratify \<lparr>strict = True, overflow_checks = True\<rparr> sample_snapshot = Some out"
      "accepted_of (ratify_order sample_snapshot) (ro_verdicts out) = [sample_action 2 sample_constitution None]"
      "gov_root PurposeConstitution (ro_roots out) = Some (?i 2)" "ro_enacted out = [?i 2]" by blast
  have ids: "distinct (map rp_id (ri_proposals sample_snapshot))" by (simp add: sample_snapshot_def sample_action_def)
  have keys: "distinct (map rp_key (ri_proposals sample_snapshot))"
    by (simp add: sample_snapshot_def sample_action_def)
  have mine: "of_purpose PurposeConstitution [sample_action 2 sample_constitution None] \<noteq> []"
    by (simp add: sample_action_def sample_constitution_def)
  have "\<not> descends (ri_proposals sample_snapshot) (?i 2) None" by (auto elim: descends.cases)
  then have "[3] \<in> pruned_by_enactment (ri_proposals sample_snapshot) (ro_enacted out)"
    using pruning_keeps_subtree [OF out(1) ids keys, of "sample_action 3 sample_constitution None" PurposeConstitution] mine out(2-4)
    by (simp add: sample_snapshot_def sample_action_def sample_constitution_def)
  moreover have "descends (ri_proposals sample_snapshot) (?i 2) (Some (?i 2))" by (rule descends.here)
  then have "[4] \<notin> pruned_by_enactment (ri_proposals sample_snapshot) (ro_enacted out)"
    using pruning_keeps_subtree [OF out(1) ids keys, of "sample_action 4 sample_constitution (Some (?i 2))" PurposeConstitution] mine out(2-4)
    by (simp add: sample_snapshot_def sample_action_def sample_constitution_def)
  ultimately show ?thesis using out(1) by blast
qed

text \<open>Post-bootstrap, a withdrawal that 5 of the 8 counted units of DRep stake approve, over a threshold of one half.\<close>

definition sample_halves :: run_state where
  "sample_halves = (run_start sample_snapshot)\<lparr>rs_pparams :=
     [DrepVotingThresholds (bootstrap_drep_thresholds\<lparr>dvt_treasury_withdrawal := \<lparr>numerator = 1, denominator = 2\<rparr>\<rparr>)]\<rparr>"

theorem acceptance_is_exact_witness:
  "\<exists>t. tally_proposal \<lparr>strict = True, overflow_checks = True\<rparr> sample_snapshot sample_halves
       (sample_action 1 (ActTreasuryWithdrawal [(AddrKeyhash 5, 30)]) None) = Some t \<and> all_accept t"
proof -
  let ?p = "sample_action 1 (ActTreasuryWithdrawal [(AddrKeyhash 5, 30)]) None"
  let ?drep = "drep_ballot 10 (ri_dreps sample_snapshot) (rp_drep_votes ?p) False"
  have get: "bootstrap_phase (rs_pparams sample_halves) = Some False"
      "pgetter_or_default KMinCommitteeSize proj_min_committee_size (rs_pparams sample_halves) = Some 0"
      "pgetter_or_default KPoolVotingThresholds proj_pool_voting_thresholds (rs_pparams sample_halves) = Some default_pool_voting_thresholds"
    by (simp_all add: sample_halves_def bootstrap_phase_def protocol_major_or_default_def protocol_major_def
        pp_protocol_version_def pgetter_def pp_get_def pgetter_or_default_def pp_get_or_default_def)
  have cm: "rs_committee sample_halves = Some \<lparr>cm_members = [], cm_threshold = zero_threshold\<rparr>"
      "pgetter_or_default KDrepVotingThresholds proj_drep_voting_thresholds (rs_pparams sample_halves) =
        Some (bootstrap_drep_thresholds\<lparr>dvt_treasury_withdrawal := \<lparr>numerator = 1, denominator = 2\<rparr>\<rparr>)"
    by (simp_all add: sample_halves_def run_start_def sample_snapshot_def zero_threshold_def pgetter_or_default_def pp_get_or_default_def pp_get_def)
  have thresholds: "committee_threshold sample_snapshot sample_halves (rp_action ?p) = Some (Some zero_threshold)"
      "drep_threshold sample_halves (rp_action ?p) = Some (Some \<lparr>numerator = 1, denominator = 2\<rparr>)"
      "spo_threshold sample_halves (rp_action ?p) = Some (Some zero_threshold)"
    by (simp_all add: sample_action_def voting_committee_threshold_def drep_threshold_def live_drep_thresholds_def spo_threshold_def get cm)
  have small: "length (live_members sample_halves) < 2 ^ 64" "total_stake (ri_drep_distr sample_snapshot) < 2 ^ 64"
      "total_stake (ri_pool_distr sample_snapshot) < 2 ^ 64"
      "valid_committee_term \<lparr>strict = True, overflow_checks = True\<rparr> sample_halves (ri_current_epoch sample_snapshot) (rp_action ?p) = Some True"
      "threshold_ok (Some zero_threshold)" "threshold_ok (Some \<lparr>numerator = 1, denominator = 2\<rparr>)"
    by (simp_all add: live_members_def sample_halves_def run_start_def sample_snapshot_def valid_committee_term_def sample_action_def
        threshold_ok_def zero_threshold_def)
  have yes: "stake_of (\<lambda>d. ?drep d = VoteYes) (ri_drep_distr sample_snapshot) = 5"
      "stake_of (\<lambda>d. ?drep d \<noteq> VoteAbstain) (ri_drep_distr sample_snapshot) = 8"
    by (simp_all add: sample_snapshot_def drep_ballot_def sample_action_def)
  have free: "body_accepts (Some zero_threshold) y n" for y n by (simp add: body_accepts_def threshold_value_def zero_threshold_def)
  have "body_accepts (Some \<lparr>numerator = 1, denominator = 2\<rparr>) 5 8" by (simp add: body_accepts_def threshold_value_def)
  moreover have "prev_action_as_expected sample_halves ?p \<and> \<not> rs_delayed sample_halves \<and> withdrawal_can_withdraw sample_halves (rp_action ?p)"
      "rp_action ?p \<noteq> ActNoConfidence" "ri_current_epoch sample_snapshot = 10"
    by (simp_all add: prev_action_as_expected_def sample_action_def sample_halves_def run_start_def sample_snapshot_def
        withdrawal_can_withdraw_def withdrawal_sum_def)
  ultimately show ?thesis
    using acceptance_is_exact [OF small(1-4) thresholds(1) small(5) thresholds(2) small(6) thresholds(3) small(5) get(1) refl refl refl]
    by (simp add: free yes)
qed

end
