(* ===== verification/Fallible.thy ===== *)
theory Fallible
  imports Dolos_Prelude
begin

text \<open>
  Code that may panic and may return an error: \<open>None\<close> is the panic, \<open>Some (Inl e)\<close> the error,
  \<open>Some (Inr x)\<close> the result. \<open>or_return\<close> is the operator \<^verbatim>\<open>?\<close>, \<open>try_fold\<close> a
  \<^verbatim>\<open>for\<close> loop whose body may return, \<open>fold_opt\<close> one whose body may only panic.
\<close>

type_synonym ('e, 'a) fallible = "('e + 'a) option"

definition or_return :: "('e, 'a) fallible \<Rightarrow> ('a \<Rightarrow> ('e, 'b) fallible) \<Rightarrow> ('e, 'b) fallible" where
  "or_return r f = (case r of None \<Rightarrow> None | Some (Inl e) \<Rightarrow> Some (Inl e) | Some (Inr x) \<Rightarrow> f x)"

lemma or_return_simps [simp]:
  "or_return None f = None"
  "or_return (Some (Inl e)) f = Some (Inl e)"
  "or_return (Some (Inr x)) f = f x"
  by (simp_all add: or_return_def)

lemma or_return_Inr_iff [panic_simps]:
  "or_return r f = Some (Inr y) \<longleftrightarrow> (\<exists>x. r = Some (Inr x) \<and> f x = Some (Inr y))"
  by (auto simp: or_return_def split: option.splits sum.splits)

lemma or_return_InrE:
  assumes "or_return r f = Some (Inr y)"
  obtains x where "r = Some (Inr x)" and "f x = Some (Inr y)"
  using assms by (auto simp: or_return_Inr_iff)

fun try_fold :: "('a \<Rightarrow> 's \<Rightarrow> ('e, 's) fallible) \<Rightarrow> 'a list \<Rightarrow> 's \<Rightarrow> ('e, 's) fallible" where
  "try_fold f [] s = Some (Inr s)"
| "try_fold f (x # xs) s = or_return (f x s) (try_fold f xs)"

fun fold_opt :: "('a \<Rightarrow> 's \<Rightarrow> 's option) \<Rightarrow> 'a list \<Rightarrow> 's \<Rightarrow> 's option" where
  "fold_opt f [] s = Some s"
| "fold_opt f (x # xs) s = do {s \<leftarrow> f x s; fold_opt f xs s}"

lemma try_fold_append: "try_fold f (xs @ ys) s = or_return (try_fold f xs s) (try_fold f ys)"
  by (induction xs arbitrary: s) (auto simp: or_return_def split: option.splits sum.splits)

lemma fold_opt_append: "fold_opt f (xs @ ys) s = Option.bind (fold_opt f xs s) (fold_opt f ys)"
  by (induction xs arbitrary: s) (auto split: bind_splits)

lemma try_fold_concat:
  "try_fold f (concat xss) s = try_fold (\<lambda>xs. try_fold f xs) xss s"
  by (induction xss arbitrary: s) (auto simp: try_fold_append or_return_def split: option.splits sum.splits)

lemma fold_opt_concat: "fold_opt f (concat xss) s = fold_opt (\<lambda>xs. fold_opt f xs) xss s"
  by (induction xss arbitrary: s) (auto simp: fold_opt_append split: bind_splits)

text \<open>Loops keep what their bodies keep, and end when their bodies do.\<close>

lemma try_fold_invariant:
  assumes "try_fold f xs s = Some (Inr s')" and "P s"
    and "\<And>x s s'. x \<in> set xs \<Longrightarrow> P s \<Longrightarrow> f x s = Some (Inr s') \<Longrightarrow> P s'"
  shows "P s'"
  using assms
proof (induction xs arbitrary: s)
  case (Cons x xs)
  from Cons.prems(1) obtain t where t: "f x s = Some (Inr t)" "try_fold f xs t = Some (Inr s')"
    by (auto elim: or_return_InrE)
  from Cons.prems(3) [OF _ Cons.prems(2) t(1)] have "P t" by simp
  from Cons.IH [OF t(2) this] Cons.prems(3) show ?case by auto
qed simp

lemma fold_opt_invariant:
  assumes "fold_opt f xs s = Some s'" and "P s"
    and "\<And>x s s'. x \<in> set xs \<Longrightarrow> P s \<Longrightarrow> f x s = Some s' \<Longrightarrow> P s'"
  shows "P s'"
  using assms
proof (induction xs arbitrary: s)
  case (Cons x xs)
  from Cons.prems(1) obtain t where t: "f x s = Some t" "fold_opt f xs t = Some s'"
    by (auto simp: panic_simps)
  from Cons.prems(3) [OF _ Cons.prems(2) t(1)] have "P t" by simp
  from Cons.IH [OF t(2) this] Cons.prems(3) show ?case by auto
qed simp

lemma fold_opt_total:
  assumes "P s" and "\<And>x s. x \<in> set xs \<Longrightarrow> P s \<Longrightarrow> \<exists>s'. f x s = Some s' \<and> P s'"
  shows "\<exists>s'. fold_opt f xs s = Some s' \<and> P s'"
  using assms
proof (induction xs arbitrary: s)
  case (Cons x xs)
  from Cons.prems(2) [of x s] Cons.prems(1) obtain t where t: "f x s = Some t" "P t" by auto
  from Cons.IH [OF t(2)] Cons.prems(2) t(1) show ?case by auto
qed simp

lemma try_fold_total:
  assumes "P s" and "\<And>x s. x \<in> set xs \<Longrightarrow> P s \<Longrightarrow> \<exists>s'. f x s = Some (Inr s') \<and> P s'"
  shows "\<exists>s'. try_fold f xs s = Some (Inr s') \<and> P s'"
  using assms
proof (induction xs arbitrary: s)
  case (Cons x xs)
  from Cons.prems(2) [of x s] Cons.prems(1) obtain t where t: "f x s = Some (Inr t)" "P t" by auto
  from Cons.IH [OF t(2)] Cons.prems(2) t(1) show ?case by auto
qed simp

text \<open>Two loops in step: the relation between the states holds to the end.\<close>

lemma try_fold_simulates:
  assumes "try_fold f xs s = Some (Inr s')" and "R s t"
    and "\<And>x s t s'. x \<in> set xs \<Longrightarrow> R s t \<Longrightarrow> f x s = Some (Inr s') \<Longrightarrow> \<exists>t'. g x t = Some (Inr t') \<and> R s' t'"
  shows "\<exists>t'. try_fold g xs t = Some (Inr t') \<and> R s' t'"
  using assms
proof (induction xs arbitrary: s t)
  case (Cons x xs)
  from Cons.prems(1) obtain u where u: "f x s = Some (Inr u)" "try_fold f xs u = Some (Inr s')"
    by (auto elim: or_return_InrE)
  from Cons.prems(3) [OF _ Cons.prems(2) u(1)] obtain v where v: "g x t = Some (Inr v)" "R u v" by auto
  from Cons.IH [OF u(2) v(2)] Cons.prems(3) v(1) show ?case by auto
qed simp

end
