(* ===== verification/PParam_Getters.thy ===== *)
theory PParam_Getters
  imports PParams Fallible
begin

text \<open>
  The getters of protocol parameters the epoch boundary reads
  (\<^verbatim>\<open>pgetter!\<close> and \<^verbatim>\<open>ensure_pparam!\<close> of
  \<^verbatim>\<open>crates/cardano/src/model/pparams.rs\<close>): a missing parameter is an error, and the panic
  on a value of another kind never happens.
\<close>

fun proj_desired_number_of_stake_pools :: "pparam_value \<Rightarrow> u32 option" where
  "proj_desired_number_of_stake_pools (DesiredNumberOfStakePools x) = Some x"
| "proj_desired_number_of_stake_pools _ = None"

fun proj_pool_pledge_influence :: "pparam_value \<Rightarrow> rational_number option" where
  "proj_pool_pledge_influence (PoolPledgeInfluence x) = Some x"
| "proj_pool_pledge_influence _ = None"

fun proj_decentralization_constant :: "pparam_value \<Rightarrow> rational_number option" where
  "proj_decentralization_constant (DecentralizationConstant x) = Some x"
| "proj_decentralization_constant _ = None"

fun proj_expansion_rate :: "pparam_value \<Rightarrow> rational_number option" where
  "proj_expansion_rate (ExpansionRate x) = Some x"
| "proj_expansion_rate _ = None"

fun proj_treasury_growth_rate :: "pparam_value \<Rightarrow> rational_number option" where
  "proj_treasury_growth_rate (TreasuryGrowthRate x) = Some x"
| "proj_treasury_growth_rate _ = None"

fun proj_epoch_length :: "pparam_value \<Rightarrow> u64 option" where
  "proj_epoch_length (EpochLength x) = Some x"
| "proj_epoch_length _ = None"

fun proj_key_deposit :: "pparam_value \<Rightarrow> u64 option" where
  "proj_key_deposit (KeyDeposit x) = Some x"
| "proj_key_deposit _ = None"

fun proj_pool_deposit :: "pparam_value \<Rightarrow> u64 option" where
  "proj_pool_deposit (PoolDeposit x) = Some x"
| "proj_pool_deposit _ = None"

fun proj_drep_inactivity_period :: "pparam_value \<Rightarrow> u64 option" where
  "proj_drep_inactivity_period (DrepInactivityPeriod x) = Some x"
| "proj_drep_inactivity_period _ = None"

definition ensure_pparam :: "string \<Rightarrow> 'a option option \<Rightarrow> (chain_error, 'a) fallible" where
  "ensure_pparam name value = map_option (\<lambda>v. case v of None \<Rightarrow> Inl (PParamsNotFound name) | Some x \<Rightarrow> Inr x) value"

definition ensure_k :: "pparams_set \<Rightarrow> (chain_error, u32) fallible" where
  "ensure_k s = ensure_pparam ''k'' (pgetter KDesiredNumberOfStakePools proj_desired_number_of_stake_pools s)"

definition ensure_a0 :: "pparams_set \<Rightarrow> (chain_error, rational_number) fallible" where
  "ensure_a0 s = ensure_pparam ''a0'' (pgetter KPoolPledgeInfluence proj_pool_pledge_influence s)"

definition ensure_d :: "pparams_set \<Rightarrow> (chain_error, rational_number) fallible" where
  "ensure_d s = ensure_pparam ''d'' (pgetter KDecentralizationConstant proj_decentralization_constant s)"

definition ensure_rho :: "pparams_set \<Rightarrow> (chain_error, rational_number) fallible" where
  "ensure_rho s = ensure_pparam ''rho'' (pgetter KExpansionRate proj_expansion_rate s)"

definition ensure_tau :: "pparams_set \<Rightarrow> (chain_error, rational_number) fallible" where
  "ensure_tau s = ensure_pparam ''tau'' (pgetter KTreasuryGrowthRate proj_treasury_growth_rate s)"

definition ensure_epoch_length :: "pparams_set \<Rightarrow> (chain_error, u64) fallible" where
  "ensure_epoch_length s = ensure_pparam ''epoch_length'' (pgetter KEpochLength proj_epoch_length s)"

definition pp_key_deposit :: "pparams_set \<Rightarrow> u64 option option" where
  "pp_key_deposit = pgetter KKeyDeposit proj_key_deposit"

definition ensure_pool_deposit :: "pparams_set \<Rightarrow> (chain_error, u64) fallible" where
  "ensure_pool_deposit s = ensure_pparam ''pool_deposit'' (pgetter KPoolDeposit proj_pool_deposit s)"

definition pool_deposit_or_default :: "pparams_set \<Rightarrow> u64 option" where
  "pool_deposit_or_default s = proj_pool_deposit (pp_get_or_default s KPoolDeposit)"

definition ensure_drep_inactivity_period :: "pparams_set \<Rightarrow> (chain_error, u64) fallible" where
  "ensure_drep_inactivity_period s =
     ensure_pparam ''drep_inactivity_period'' (pgetter KDrepInactivityPeriod proj_drep_inactivity_period s)"

lemma pgetter_total:
  assumes "\<And>v. kind_of v = k \<Longrightarrow> \<exists>x. proj v = Some x"
  shows "\<exists>r. pgetter k proj s = Some r"
proof (cases "pp_get s k")
  case (Some v)
  then obtain x where "proj v = Some x" using assms [OF pp_get_kind [OF Some]] by auto
  with Some show ?thesis by (simp add: pgetter_def)
qed (simp add: pgetter_def)

lemma ensure_pparam_total: "\<exists>r. value = Some r \<Longrightarrow> \<exists>r. ensure_pparam name value = Some r"
  by (auto simp: ensure_pparam_def)

lemma getters_never_panic:
  "\<exists>r. ensure_k s = Some r" "\<exists>r. ensure_a0 s = Some r" "\<exists>r. ensure_d s = Some r"
  "\<exists>r. ensure_rho s = Some r" "\<exists>r. ensure_tau s = Some r" "\<exists>r. ensure_epoch_length s = Some r"
  "\<exists>r. pp_key_deposit s = Some r" "\<exists>r. ensure_pool_deposit s = Some r"
  "\<exists>r. ensure_drep_inactivity_period s = Some r"
  unfolding ensure_k_def ensure_a0_def ensure_d_def ensure_rho_def ensure_tau_def ensure_epoch_length_def
    pp_key_deposit_def ensure_pool_deposit_def ensure_drep_inactivity_period_def
  by ((intro ensure_pparam_total)?, rule pgetter_total, erule kind_of.elims; simp)+

lemma protocol_major_total: "\<exists>r. protocol_major s = Some r"
proof -
  have "\<exists>r. pgetter KProtocolVersion proj_protocol_version s = Some r"
    by (rule pgetter_total, erule kind_of.elims; simp)
  then show ?thesis by (auto simp: protocol_major_def pp_protocol_version_def)
qed

end
