(* ===== verification/Rewards.thy ===== *)
theory Rewards
  imports Roll Pots PParam_Getters Pools Pending Ledger_Order
begin

text \<open>
  Staking rewards (\<^verbatim>\<open>crates/cardano/src/rewards\<close>): the formulas in exact rationals, the
  map of pending rewards, and the loop over the pools that fills it. The trait
  \<^verbatim>\<open>RewardsContext\<close> is a record of its methods. Hash maps are association lists with
  distinct keys, in one order in which they may be walked. The theory shows that a pool's reward is
  bounded and split without exceeding it, that the loop does not panic on a consistent context, that
  computing the rewards shard by shard gives each credential what a single pass gives it, and that
  applying a reward map loses no lovelace.
\<close>

section \<open>Formulas\<close>

text \<open>\<^verbatim>\<open>ratio!(numer, denom)\<close> and the division of rationals panic on zero.\<close>

definition ratio :: "u64 \<Rightarrow> u64 \<Rightarrow> rat option" where
  "ratio numer denom = (if denom = 0 then None else Some (ratio_u64 numer / ratio_u64 denom))"

definition ratio_div :: "rat \<Rightarrow> rat \<Rightarrow> rat option" where
  "ratio_div x y = (if y = 0 then None else Some (x / y))"

definition pallas_ratio :: "rational_number \<Rightarrow> rat option" where
  "pallas_ratio x = ratio (numerator x) (denominator x)"

definition pool_maximal_rewards :: "rat \<Rightarrow> u32 \<Rightarrow> rat \<Rightarrow> rat \<Rightarrow> rat \<Rightarrow> u64 option" where
  "pool_maximal_rewards r nopt a0 relative_stake relative_pledge = do {
     z0 \<leftarrow> ratio 1 (ucast nopt);
     let s = min relative_stake z0;
     let p = min relative_pledge z0;
     let op1 = (z0 - s) / z0;
     let op2 = p * op1;
     let op3 = s - op2;
     let op4 = op3 / z0;
     let op5 = p * a0 * op4;
     let op6 = s + op5;
     base \<leftarrow> ratio_div r (1 + a0);
     floor_u64 (base * op6)
   }"

definition delegator_reward :: "build \<Rightarrow> u64 \<Rightarrow> u64 \<Rightarrow> u64 \<Rightarrow> u64 \<Rightarrow> u64 \<Rightarrow> rat \<Rightarrow> u64 option" where
  "delegator_reward b rewards member_stake pool_stake total_stake fixed_cost margin_cost =
     (if rewards \<le> fixed_cost then Some 0
      else do {
        member_relative_stake \<leftarrow> ratio member_stake total_stake;
        after_cost \<leftarrow> sub_m b rewards fixed_cost;
        pool_relative_stake \<leftarrow> ratio pool_stake total_stake;
        out \<leftarrow> ratio_div ((1 - margin_cost) * ratio_u64 after_cost * member_relative_stake) pool_relative_stake;
        floor_u64 out
      })"

definition pool_apparent_performance :: "rat \<Rightarrow> u64 \<Rightarrow> u64 \<Rightarrow> u64 \<Rightarrow> u64 \<Rightarrow> rat option" where
  "pool_apparent_performance d pool_blocks epoch_blocks pool_stake total_active_stake =
     (if total_active_stake = 0 then Some 0
      else do {
        sigma_a \<leftarrow> ratio pool_stake total_active_stake;
        if sigma_a = 0 then Some 0
        else do {
          beta \<leftarrow> ratio pool_blocks (max epoch_blocks 1);
          if d < 4 / 5 then ratio_div beta sigma_a else Some 1
        }
      })"

definition pool_rewards :: "u64 \<Rightarrow> u64 \<Rightarrow> u64 \<Rightarrow> u64 \<Rightarrow> u64 \<Rightarrow> u64 \<Rightarrow> u32 \<Rightarrow> rat \<Rightarrow> rat \<Rightarrow> u64 \<Rightarrow> u64 \<Rightarrow> u64 option" where
  "pool_rewards epoch_rewards circulating_supply active_stake pool_stake declared_pledge live_pledge
     nopt a0 d pool_blocks epoch_blocks =
     (if live_pledge < declared_pledge then Some 0
      else do {
        relative_stake \<leftarrow> ratio pool_stake circulating_supply;
        relative_pledge \<leftarrow> ratio declared_pledge circulating_supply;
        optimal \<leftarrow> pool_maximal_rewards (ratio_u64 epoch_rewards) nopt a0 relative_stake relative_pledge;
        pbar \<leftarrow> pool_apparent_performance d pool_blocks epoch_blocks pool_stake active_stake;
        floor_u64 (ratio_u64 optimal * pbar)
      })"

definition pool_operator_share :: "build \<Rightarrow> u64 \<Rightarrow> u64 \<Rightarrow> rat \<Rightarrow> u64 \<Rightarrow> u64 \<Rightarrow> u64 \<Rightarrow> u64 option" where
  "pool_operator_share b rewards fixed_cost margin_cost pool_stake live_pledge circulating_supply =
     (let c = fixed_cost in
      if rewards \<le> c then Some rewards
      else do {
        after_cost \<leftarrow> sub_m b rewards c;
        s \<leftarrow> ratio live_pledge circulating_supply;
        theta \<leftarrow> ratio pool_stake circulating_supply;
        s_over_sigma \<leftarrow> ratio_div s theta;
        let weight = margin_cost + (1 - margin_cost) * s_over_sigma;
        variable \<leftarrow> floor_u64 (ratio_u64 after_cost * weight);
        raw_add b c variable
      })"

section \<open>Rewards of an account\<close>

record multi_pool_reward =
  mr_is_spendable :: bool
  mr_as_leader :: "(pool_hash \<times> u64) list"
  mr_as_delegator :: "(pool_hash \<times> u64) list"

text \<open>\<^verbatim>\<open>HashMap::extend\<close>: later entries replace earlier ones of the same key.\<close>

definition extend_map :: "('k \<times> 'v) list \<Rightarrow> ('k \<times> 'v) list \<Rightarrow> ('k \<times> 'v) list" where
  "extend_map m other = fold (\<lambda>(k, v). AList.update k v) other m"

definition multi_pool_merge :: "build \<Rightarrow> multi_pool_reward \<Rightarrow> multi_pool_reward \<Rightarrow> multi_pool_reward option" where
  "multi_pool_merge b r other = do {
     assert_that (strict b \<longrightarrow> mr_is_spendable r = mr_is_spendable other);
     Some (r\<lparr>mr_as_leader := extend_map (mr_as_leader r) (mr_as_leader other),
             mr_as_delegator := extend_map (mr_as_delegator r) (mr_as_delegator other)\<rparr>)
   }"

definition multi_pool_total_value :: "build \<Rightarrow> multi_pool_reward \<Rightarrow> u64 option" where
  "multi_pool_total_value b r = do {
     leader \<leftarrow> sum_raw b 0 (map snd (mr_as_leader r));
     delegator \<leftarrow> sum_raw b 0 (map snd (mr_as_delegator r));
     raw_add b leader delegator
   }"

definition multi_pool_into_vec :: "multi_pool_reward \<Rightarrow> (pool_hash \<times> u64 \<times> bool) list" where
  "multi_pool_into_vec r =
     map (\<lambda>(pool, value). (pool, value, True)) (mr_as_leader r) @
     map (\<lambda>(pool, value). (pool, value, False)) (mr_as_delegator r)"

record pre_allegra_reward =
  pa_is_spendable :: bool
  pa_as_leader :: bool
  pa_pool :: pool_hash
  pa_value :: u64

definition pre_allegra_merge :: "pre_allegra_reward \<Rightarrow> pre_allegra_reward \<Rightarrow> pre_allegra_reward" where
  "pre_allegra_merge r other =
     (case (pa_as_leader r, pa_as_leader other) of
        (True, False) \<Rightarrow> r
      | (False, True) \<Rightarrow> other
      | _ \<Rightarrow> if pa_pool r \<le> pa_pool other then r else other)"

datatype reward = MultiPool multi_pool_reward | PreAllegra pre_allegra_reward

text \<open>Merging rewards of different eras is unreachable code, a panic.\<close>

fun reward_merge :: "build \<Rightarrow> reward \<Rightarrow> reward \<Rightarrow> reward option" where
  "reward_merge b (MultiPool r) (MultiPool s) = map_option MultiPool (multi_pool_merge b r s)"
| "reward_merge b (PreAllegra r) (PreAllegra s) = Some (PreAllegra (pre_allegra_merge r s))"
| "reward_merge b _ _ = None"

fun reward_is_spendable :: "reward \<Rightarrow> bool" where
  "reward_is_spendable (MultiPool r) = mr_is_spendable r"
| "reward_is_spendable (PreAllegra r) = pa_is_spendable r"

fun reward_value :: "build \<Rightarrow> reward \<Rightarrow> u64 option" where
  "reward_value b (MultiPool r) = multi_pool_total_value b r"
| "reward_value b (PreAllegra r) = Some (pa_value r)"

fun reward_into_vec :: "reward \<Rightarrow> (pool_hash \<times> u64 \<times> bool) list" where
  "reward_into_vec (MultiPool r) = multi_pool_into_vec r"
| "reward_into_vec (PreAllegra r) = [(pa_pool r, pa_value r, pa_as_leader r)]"

definition from_pending_state :: "pending_reward_state \<Rightarrow> reward" where
  "from_pending_state s = MultiPool \<lparr>mr_is_spendable = prs_is_spendable s,
     mr_as_leader = extend_map [] (prs_as_leader s), mr_as_delegator = extend_map [] (prs_as_delegator s)\<rparr>"

section \<open>The context of a reward computation\<close>

record rewards_context =
  rc_incentives :: epoch_incentives
  rc_pots :: pots
  rc_pre_allegra :: "bool option"
  rc_active_stake :: u64
  rc_epoch_blocks :: u64
  rc_pool_blocks :: "pool_hash \<Rightarrow> u64 option"
  rc_pool_stake :: "pool_hash \<Rightarrow> u64"
  rc_account_stake :: "pool_hash \<Rightarrow> stake_credential \<Rightarrow> u64"
  rc_is_account_registered :: "stake_credential \<Rightarrow> bool"
  rc_iter_all_pools :: "pool_hash list"
  rc_pool_params :: "pool_hash \<Rightarrow> pool_params option"
  rc_pool_delegators :: "pool_hash \<Rightarrow> stake_credential list"
  rc_pparams :: "pparams_set option"
  rc_live_pledge :: "pool_hash \<Rightarrow> stake_credential list \<Rightarrow> u64 option"
  rc_should_include :: "stake_credential \<Rightarrow> bool"

text \<open>The trait's default for \<^verbatim>\<open>live_pledge\<close>: the stake of the owners.\<close>

definition default_live_pledge :: "build \<Rightarrow> (pool_hash \<Rightarrow> stake_credential \<Rightarrow> u64) \<Rightarrow> pool_hash \<Rightarrow> stake_credential list \<Rightarrow> u64 option" where
  "default_live_pledge b account_stake pool owners = sum_raw b 0 (map (account_stake pool) owners)"

definition reward_new :: "rewards_context \<Rightarrow> stake_credential \<Rightarrow> u64 \<Rightarrow> pool_hash \<Rightarrow> bool \<Rightarrow> reward option" where
  "reward_new ctx account value from_pool as_leader = do {
     pre_allegra \<leftarrow> rc_pre_allegra ctx;
     Some (if pre_allegra then
         PreAllegra \<lparr>pa_is_spendable = rc_is_account_registered ctx account, pa_as_leader = as_leader,
           pa_pool = from_pool, pa_value = value\<rparr>
       else if as_leader then
         MultiPool \<lparr>mr_is_spendable = rc_is_account_registered ctx account,
           mr_as_leader = [(from_pool, value)], mr_as_delegator = []\<rparr>
       else
         MultiPool \<lparr>mr_is_spendable = rc_is_account_registered ctx account,
           mr_as_leader = [], mr_as_delegator = [(from_pool, value)]\<rparr>)
   }"

section \<open>The reward map\<close>

record reward_map =
  rm_incentives :: epoch_incentives
  rm_pending :: "(stake_credential \<times> reward) list"
  rm_applied_effective :: u64
  rm_applied_unspendable_to_treasury :: u64
  rm_applied_unspendable_to_reserves :: u64

definition from_pending :: "(stake_credential \<times> reward) list \<Rightarrow> epoch_incentives \<Rightarrow> reward_map" where
  "from_pending pending incentives = \<lparr>rm_incentives = incentives, rm_pending = pending,
     rm_applied_effective = 0, rm_applied_unspendable_to_treasury = 0, rm_applied_unspendable_to_reserves = 0\<rparr>"

definition reward_map_new :: "epoch_incentives \<Rightarrow> reward_map" where
  "reward_map_new incentives = from_pending [] incentives"

definition add_pool_reward :: "build \<Rightarrow> pool_hash \<times> u64 \<times> bool \<Rightarrow> (pool_hash \<times> u64 \<times> u64) list
    \<Rightarrow> (pool_hash \<times> u64 \<times> u64) list option" where
  "add_pool_reward b entry rewards = (case entry of (pool, value, as_leader) \<Rightarrow>
     (let (total_rewards, operator_share) = (case map_of rewards pool of Some x \<Rightarrow> x | None \<Rightarrow> (0, 0)) in do {
        total_rewards \<leftarrow> add_m b total_rewards value;
        operator_share \<leftarrow> (if as_leader then add_m b operator_share value else Some operator_share);
        Some (AList.update pool (total_rewards, operator_share) rewards)
      }))"

fun add_pool_rewards :: "build \<Rightarrow> (pool_hash \<times> u64 \<times> bool) list \<Rightarrow> (pool_hash \<times> u64 \<times> u64) list
    \<Rightarrow> (pool_hash \<times> u64 \<times> u64) list option" where
  "add_pool_rewards b [] rewards = Some rewards"
| "add_pool_rewards b (entry # entries) rewards = do {
     rewards \<leftarrow> add_pool_reward b entry rewards;
     add_pool_rewards b entries rewards
   }"

definition aggregate_pool_rewards :: "build \<Rightarrow> reward_map \<Rightarrow> (pool_hash \<times> u64 \<times> u64) list option" where
  "aggregate_pool_rewards b m = add_pool_rewards b (concat (map (reward_into_vec \<circ> snd) (rm_pending m))) []"

definition include_reward :: "build \<Rightarrow> rewards_context \<Rightarrow> stake_credential \<Rightarrow> u64 \<Rightarrow> pool_hash \<Rightarrow> bool
    \<Rightarrow> reward_map \<Rightarrow> reward_map option" where
  "include_reward b ctx account value from_pool as_leader m = do {
     new \<leftarrow> reward_new ctx account value from_pool as_leader;
     let prev = map_of (rm_pending m) account;
     let rest = AList.delete account (rm_pending m);
     merged \<leftarrow> (case prev of Some prev \<Rightarrow> reward_merge b prev new | None \<Rightarrow> Some new);
     Some (m\<lparr>rm_pending := AList.update account merged rest\<rparr>)
   }"

definition take_for_apply :: "build \<Rightarrow> stake_credential \<Rightarrow> reward_map \<Rightarrow> (reward option \<times> reward_map) option" where
  "take_for_apply b account m =
     (case map_of (rm_pending m) account of
        None \<Rightarrow> Some (None, m)
      | Some reward \<Rightarrow> do {
          value \<leftarrow> reward_value b reward;
          effective \<leftarrow> raw_add b (rm_applied_effective m) value;
          Some (Some reward, m\<lparr>rm_pending := AList.delete account (rm_pending m), rm_applied_effective := effective\<rparr>)
        })"

definition return_reward_to_treasury :: "build \<Rightarrow> lovelace \<Rightarrow> reward_map \<Rightarrow> reward_map option" where
  "return_reward_to_treasury b amount m = do {
     effective \<leftarrow> sub_m b (rm_applied_effective m) amount;
     treasury \<leftarrow> add_m b (rm_applied_unspendable_to_treasury m) amount;
     Some (m\<lparr>rm_applied_effective := effective, rm_applied_unspendable_to_treasury := treasury\<rparr>)
   }"

definition return_reward_to_reserves :: "build \<Rightarrow> lovelace \<Rightarrow> reward_map \<Rightarrow> reward_map option" where
  "return_reward_to_reserves b amount m = do {
     effective \<leftarrow> sub_m b (rm_applied_effective m) amount;
     reserves \<leftarrow> add_m b (rm_applied_unspendable_to_reserves m) amount;
     Some (m\<lparr>rm_applied_effective := effective, rm_applied_unspendable_to_reserves := reserves\<rparr>)
   }"

fun drain_entries :: "build \<Rightarrow> (reward \<Rightarrow> u64 \<Rightarrow> reward_map \<Rightarrow> reward_map option) \<Rightarrow> (stake_credential \<times> reward) list
    \<Rightarrow> reward_map \<Rightarrow> reward_map option" where
  "drain_entries b book [] m = Some m"
| "drain_entries b book ((credential, reward) # entries) m = do {
     value \<leftarrow> reward_value b reward;
     m \<leftarrow> book reward value m;
     drain_entries b book entries m
   }"

definition book_treasury :: "build \<Rightarrow> u64 \<Rightarrow> reward_map \<Rightarrow> reward_map option" where
  "book_treasury b value m = do {
     treasury \<leftarrow> raw_add b (rm_applied_unspendable_to_treasury m) value;
     Some (m\<lparr>rm_applied_unspendable_to_treasury := treasury\<rparr>)
   }"

definition book_reserves :: "build \<Rightarrow> u64 \<Rightarrow> reward_map \<Rightarrow> reward_map option" where
  "book_reserves b value m = do {
     reserves \<leftarrow> raw_add b (rm_applied_unspendable_to_reserves m) value;
     Some (m\<lparr>rm_applied_unspendable_to_reserves := reserves\<rparr>)
   }"

definition book_effective :: "build \<Rightarrow> u64 \<Rightarrow> reward_map \<Rightarrow> reward_map option" where
  "book_effective b value m = do {
     effective \<leftarrow> raw_add b (rm_applied_effective m) value;
     Some (m\<lparr>rm_applied_effective := effective\<rparr>)
   }"

definition drain_unspendable :: "build \<Rightarrow> bool \<Rightarrow> reward_map \<Rightarrow> (stake_credential list \<times> reward_map) option" where
  "drain_unspendable b to_reserves m = do {
     let unspendable = filter (\<lambda>(_, reward). \<not> reward_is_spendable reward) (rm_pending m);
     let m = m\<lparr>rm_pending := filter (\<lambda>(_, reward). reward_is_spendable reward) (rm_pending m)\<rparr>;
     m \<leftarrow> drain_entries b (\<lambda>_. if to_reserves then book_reserves b else book_treasury b) unspendable m;
     Some (map fst unspendable, m)
   }"

definition drain_all :: "build \<Rightarrow> reward_map \<Rightarrow> reward_map option" where
  "drain_all b m =
     drain_entries b (\<lambda>reward. if reward_is_spendable reward then book_effective b else book_treasury b)
       (rm_pending m) (m\<lparr>rm_pending := []\<rparr>)"

text \<open>The accessors assert in a strict build that nothing is pending.\<close>

definition applied_effective :: "build \<Rightarrow> reward_map \<Rightarrow> u64 option" where
  "applied_effective b m = do {
     assert_that (strict b \<longrightarrow> rm_pending m = []);
     Some (rm_applied_effective m)
   }"

definition applied_unspendable_to_treasury :: "build \<Rightarrow> reward_map \<Rightarrow> u64 option" where
  "applied_unspendable_to_treasury b m = do {
     assert_that (strict b \<longrightarrow> rm_pending m = []);
     Some (rm_applied_unspendable_to_treasury m)
   }"

definition applied_unspendable_to_reserves :: "build \<Rightarrow> reward_map \<Rightarrow> u64 option" where
  "applied_unspendable_to_reserves b m = do {
     assert_that (strict b \<longrightarrow> rm_pending m = []);
     Some (rm_applied_unspendable_to_reserves m)
   }"

definition applied_unspendable :: "build \<Rightarrow> reward_map \<Rightarrow> u64 option" where
  "applied_unspendable b m = do {
     assert_that (strict b \<longrightarrow> rm_pending m = []);
     raw_add b (rm_applied_unspendable_to_treasury m) (rm_applied_unspendable_to_reserves m)
   }"

section \<open>Defining the rewards of an epoch\<close>

definition delegator_chunk_size :: nat where
  "delegator_chunk_size = 25"

fun compute_delegator_chunk :: "build \<Rightarrow> rewards_context \<Rightarrow> pool_hash \<Rightarrow> u64 \<Rightarrow> u64 \<Rightarrow> u64 \<Rightarrow> u64 \<Rightarrow> rat
    \<Rightarrow> stake_credential list \<Rightarrow> bool \<Rightarrow> stake_credential list \<Rightarrow> (stake_credential \<times> u64) list option" where
  "compute_delegator_chunk b ctx pool total_pool_reward pool_stake circulating_supply pool_cost pool_margin
     owners babbage_or_later [] = Some []"
| "compute_delegator_chunk b ctx pool total_pool_reward pool_stake circulating_supply pool_cost pool_margin
     owners babbage_or_later (delegator # chunk) =
     (if delegator \<in> set owners \<or> (\<not> babbage_or_later \<and> \<not> rc_is_account_registered ctx delegator) then
        compute_delegator_chunk b ctx pool total_pool_reward pool_stake circulating_supply pool_cost pool_margin
          owners babbage_or_later chunk
      else do {
        reward \<leftarrow> delegator_reward b total_pool_reward (rc_account_stake ctx pool delegator) pool_stake
          circulating_supply pool_cost pool_margin;
        rewards \<leftarrow> compute_delegator_chunk b ctx pool total_pool_reward pool_stake circulating_supply pool_cost
          pool_margin owners babbage_or_later chunk;
        Some ((delegator, reward) # rewards)
      })"

fun collect_chunks :: "('a list \<Rightarrow> 'b list option) \<Rightarrow> 'a list list \<Rightarrow> 'b list option" where
  "collect_chunks f [] = Some []"
| "collect_chunks f (chunk # rest) = do {ys \<leftarrow> f chunk; zs \<leftarrow> collect_chunks f rest; Some (ys @ zs)}"

definition include_if :: "build \<Rightarrow> rewards_context \<Rightarrow> pool_hash \<Rightarrow> bool \<Rightarrow> stake_credential \<times> u64 \<Rightarrow> reward_map \<Rightarrow> reward_map option" where
  "include_if b ctx pool as_leader entry m = (case entry of (account, reward) \<Rightarrow>
     if rc_should_include ctx account then include_reward b ctx account reward pool as_leader m else Some m)"

definition define_pool_rewards :: "build \<Rightarrow> (bytes \<Rightarrow> stake_credential option) \<Rightarrow> rewards_context \<Rightarrow> pool_hash
    \<Rightarrow> reward_map \<Rightarrow> (chain_error, reward_map) fallible" where
  "define_pool_rewards b parse_reward_account ctx pool m = do {
     pool_params \<leftarrow> rc_pool_params ctx pool;
     operator_account \<leftarrow> parse_reward_account (pp_reward_account pool_params);
     let owners = map AddrKeyhash (pp_pool_owners pool_params);
     live_pledge \<leftarrow> rc_live_pledge ctx pool owners;
     circulating_supply \<leftarrow> circulating b (rc_pots ctx);
     let pool_stake = rc_pool_stake ctx pool;
     pool_blocks \<leftarrow> rc_pool_blocks ctx pool;
     if pool_blocks = 0 then Some (Inr m)
     else do {
       pparams \<leftarrow> rc_pparams ctx;
       or_return (ensure_k pparams) (\<lambda>k.
       or_return (ensure_a0 pparams) (\<lambda>a0.
       or_return (ensure_d pparams) (\<lambda>d. do {
         a0 \<leftarrow> pallas_ratio a0;
         d \<leftarrow> pallas_ratio d;
         total_pool_reward \<leftarrow> pool_rewards (inc_available_rewards (rc_incentives ctx)) circulating_supply
           (rc_active_stake ctx) pool_stake (pp_pledge pool_params) live_pledge k a0 d pool_blocks (rc_epoch_blocks ctx);
         margin \<leftarrow> pallas_ratio (pp_margin pool_params);
         operator_share \<leftarrow> pool_operator_share b total_pool_reward (pp_cost pool_params) margin pool_stake
           live_pledge circulating_supply;
         protocol_major \<leftarrow> protocol_major_or_default pparams;
         let babbage_or_later = 7 \<le> protocol_major;
         m \<leftarrow> (if babbage_or_later \<or> rc_is_account_registered ctx operator_account
               then include_if b ctx pool True (operator_account, operator_share) m else Some m);
         delegator_rewards \<leftarrow> collect_chunks
           (compute_delegator_chunk b ctx pool total_pool_reward pool_stake circulating_supply (pp_cost pool_params)
             margin owners babbage_or_later)
           (chunks delegator_chunk_size (rc_pool_delegators ctx pool));
         m \<leftarrow> fold_opt (include_if b ctx pool False) delegator_rewards m;
         Some (Inr m)
       })))
     }
   }"

definition define_rewards :: "build \<Rightarrow> (bytes \<Rightarrow> stake_credential option) \<Rightarrow> rewards_context \<Rightarrow> (chain_error, reward_map) fallible" where
  "define_rewards b parse_reward_account ctx =
     try_fold (define_pool_rewards b parse_reward_account ctx) (rc_iter_all_pools ctx) (reward_map_new (rc_incentives ctx))"


section \<open>The formulas, as rationals\<close>

lemma ratio_u64_1 [simp]: "ratio_u64 1 = 1"
  by (simp add: ratio_u64_def)

lemma ratio_u64_0 [simp]: "ratio_u64 0 = 0"
  by (simp add: ratio_u64_def)

lemma ratio_u64_eq_0 [simp]: "ratio_u64 x = 0 \<longleftrightarrow> x = 0"
  unfolding ratio_u64_def of_nat_eq_0_iff by (rule unat_eq_0)

lemma ratio_u64_le_0 [simp]: "ratio_u64 x \<le> 0 \<longleftrightarrow> x = 0"
  by (metis order_antisym order_refl ratio_u64_eq_0 ratio_u64_nonneg)

lemma ratio_u64_le [simp]: "ratio_u64 x \<le> ratio_u64 y \<longleftrightarrow> x \<le> y"
  unfolding ratio_u64_def of_nat_le_iff by (rule word_le_nat_alt [symmetric])

lemma ratio_u64_bound: "ratio_u64 x < 2 ^ 64"
proof -
  have "unat x < 2 ^ 64" using unsigned_less [where 'a = nat and w = x] by simp
  then have "(of_nat (unat x) :: rat) < of_nat (2 ^ 64)" by (rule of_nat_less_iff [THEN iffD2])
  then show ?thesis unfolding ratio_u64_def by (simp del: of_nat_unat)
qed

lemma ratio_Some: "ratio x y = Some q \<longleftrightarrow> y \<noteq> 0 \<and> q = ratio_u64 x / ratio_u64 y"
  by (auto simp: ratio_def)

lemma floor_u64_SomeD:
  assumes "floor_u64 x = Some y"
  shows "ratio_u64 y \<le> x"
proof -
  from assms have range: "0 \<le> \<lfloor>x\<rfloor>" "\<lfloor>x\<rfloor> < 2 ^ 64" and y: "y = word_of_int \<lfloor>x\<rfloor>"
    by (auto simp: floor_u64_def split: if_splits)
  then have "uint y = \<lfloor>x\<rfloor>" using take_bit_int_eq_self [OF range] by (simp add: uint_word_of_int_eq)
  then show ?thesis by (simp add: ratio_u64_int)
qed

lemma floor_u64_total:
  assumes "0 \<le> x" and "x \<le> ratio_u64 n"
  obtains y where "floor_u64 x = Some y" and "ratio_u64 y \<le> x"
  using floor_u64_fits [OF assms] floor_u64_SomeD by metis

text \<open>What a saturated pool with full pledge can reach.\<close>

lemma maximal_share:
  fixes z s p a0 :: rat
  assumes "0 < z" "0 \<le> p" "p \<le> s" "s \<le> z" "0 \<le> a0"
  shows "0 \<le> s + p * a0 * ((s - p * ((z - s) / z)) / z)"
    and "s + p * a0 * ((s - p * ((z - s) / z)) / z) \<le> s * (1 + a0)"
proof -
  have e: "0 \<le> (z - s) / z" "(z - s) / z \<le> 1" using assms by simp_all
  have "p * ((z - s) / z) \<le> p * 1" using e(2) assms(2) by (intro mult_left_mono)
  then have inner: "0 \<le> s - p * ((z - s) / z)" "s - p * ((z - s) / z) \<le> s"
    using assms(3) mult_nonneg_nonneg [OF assms(2) e(1)] by simp_all
  then have q: "0 \<le> (s - p * ((z - s) / z)) / z" "(s - p * ((z - s) / z)) / z \<le> s / z"
    using assms(1) by (simp_all add: divide_right_mono)
  from q(1) assms(2,3,5) show "0 \<le> s + p * a0 * ((s - p * ((z - s) / z)) / z)"
    by (intro add_nonneg_nonneg mult_nonneg_nonneg) linarith+
  have "p * a0 * ((s - p * ((z - s) / z)) / z) \<le> (z * a0) * (s / z)"
    using assms q by (intro mult_mono) (simp_all add: mult_right_mono)
  with assms(1) show "s + p * a0 * ((s - p * ((z - s) / z)) / z) \<le> s * (1 + a0)"
    by (simp add: field_simps)
qed

lemma pool_maximal_rewards_bounded:
  assumes "nopt \<noteq> 0" "0 \<le> a0" "0 \<le> rp" "rp \<le> rs"
  obtains x where "pool_maximal_rewards (ratio_u64 r) nopt a0 rs rp = Some x"
    and "ratio_u64 x \<le> ratio_u64 r * rs" and "ratio_u64 x * ratio_u64 (ucast nopt) \<le> ratio_u64 r"
proof -
  let ?n = "ucast nopt :: u64"
  define z where "z = 1 / ratio_u64 ?n"
  define s p where "s = min rs z" and "p = min rp z"
  define op where "op = s + p * a0 * ((s - p * ((z - s) / z)) / z)"
  have "unat ?n = take_bit 64 (unat nopt)" by (simp add: unsigned_ucast_eq)
  also have "\<dots> = unat nopt"
    using unsigned_less [where 'a = nat and w = nopt] by (intro take_bit_nat_eq_self) simp
  finally have n: "?n \<noteq> 0" using assms(1) by (metis unat_eq_0)
  then have z: "0 < z" unfolding z_def by (simp add: word_gt_0)
  have ps: "0 \<le> p" "p \<le> s" "s \<le> z" "s \<le> rs" unfolding s_def p_def using assms(3,4) z by auto
  note op = maximal_share [OF z ps(1-3) assms(2), folded op_def]
  let ?v = "ratio_u64 r / (1 + a0) * op"
  have "?v \<le> ratio_u64 r / (1 + a0) * (s * (1 + a0))"
    using op(2) assms(2) by (intro mult_left_mono) simp_all
  also have "\<dots> = ratio_u64 r * s" using assms(2) by (simp add: field_simps)
  finally have v: "?v \<le> ratio_u64 r * s" .
  have n1: "1 \<le> ratio_u64 ?n"
  proof -
    have "1 \<le> ?n" using n by (simp add: word_le_nat_alt unat_gt_0 Suc_le_eq)
    then have "ratio_u64 1 \<le> ratio_u64 ?n" by (simp only: ratio_u64_le)
    then show ?thesis by simp
  qed
  have sn: "s * ratio_u64 ?n \<le> 1"
  proof -
    have "s * ratio_u64 ?n \<le> z * ratio_u64 ?n" using ps(3) by (intro mult_right_mono) simp_all
    then show ?thesis using n by (simp add: z_def)
  qed
  have "s \<le> s * ratio_u64 ?n" using n1 ps(1,2) by (simp add: mult_le_cancel_left1)
  with sn have "ratio_u64 r * s \<le> ratio_u64 r * 1" by (intro mult_left_mono) simp_all
  with v have "?v \<le> ratio_u64 r" by simp
  moreover have "0 \<le> ?v" using op(1) assms(2) by simp
  ultimately obtain x where x: "floor_u64 ?v = Some x" "ratio_u64 x \<le> ?v" using floor_u64_total by metis
  have "ratio 1 ?n = Some z" and "ratio_div (ratio_u64 r) (1 + a0) = Some (ratio_u64 r / (1 + a0))"
    using n assms(2) by (simp_all add: ratio_def ratio_div_def z_def)
  then have run: "pool_maximal_rewards (ratio_u64 r) nopt a0 rs rp = Some x"
    using x(1) unfolding pool_maximal_rewards_def op_def s_def p_def by (simp add: Let_def)
  have "ratio_u64 r * s \<le> ratio_u64 r * rs" using ps(4) by (intro mult_left_mono) simp_all
  with x(2) v have b1: "ratio_u64 x \<le> ratio_u64 r * rs" by linarith
  have "ratio_u64 x * ratio_u64 ?n \<le> ratio_u64 r * s * ratio_u64 ?n"
    using x(2) v by (intro mult_right_mono) simp_all
  also have "\<dots> = ratio_u64 r * (s * ratio_u64 ?n)" by simp
  also have "\<dots> \<le> ratio_u64 r * 1" using sn by (intro mult_left_mono) simp_all
  finally show thesis using run b1 by (intro that) simp_all
qed

text \<open>The part of the epoch's rewards a pool can claim: its share of the blocks, or of the stake while
  block production is still mostly federated.\<close>

definition pool_share :: "rat \<Rightarrow> u64 \<Rightarrow> u64 \<Rightarrow> u64 \<Rightarrow> u64 \<Rightarrow> rat" where
  "pool_share d pool_blocks epoch_blocks pool_stake active_stake =
     (if d < 4 / 5 then ratio_u64 pool_blocks / ratio_u64 (max epoch_blocks 1)
      else ratio_u64 pool_stake / ratio_u64 active_stake)"

lemma max_1_pos: "max (x :: u64) 1 \<noteq> 0"
  by (auto simp: max_def)

lemma pool_share_nonneg: "0 \<le> pool_share d n e s a"
  by (simp add: pool_share_def)

lemma apparent_performance_bounded:
  obtains pbar where "pool_apparent_performance d n e s a = Some pbar" and "0 \<le> pbar"
    and "ratio_u64 s * pbar \<le> ratio_u64 a * pool_share d n e s a" and "s = 0 \<longrightarrow> pbar = 0"
proof (cases "a = 0 \<or> s = 0")
  case True
  then have "pool_apparent_performance d n e s a = Some 0"
    by (auto simp: pool_apparent_performance_def ratio_def)
  then show thesis using pool_share_nonneg [of d n e s a] by (intro that [of 0]) simp_all
next
  case False
  then have pos: "0 < ratio_u64 a" "0 < ratio_u64 s" by (simp_all add: word_gt_0)
  let ?p = "if d < 4 / 5 then ratio_u64 n / ratio_u64 (max e 1) / (ratio_u64 s / ratio_u64 a) else 1"
  have "pool_apparent_performance d n e s a = Some ?p"
    using False max_1_pos [of e] by (simp add: pool_apparent_performance_def ratio_def ratio_div_def)
  moreover have "0 \<le> ?p" by simp
  moreover have "ratio_u64 s * ?p \<le> ratio_u64 a * pool_share d n e s a"
    using pos max_1_pos [of e] by (simp add: pool_share_def field_simps)
  ultimately show thesis using False by (intro that) simp_all
qed

lemma pool_rewards_bounded:
  assumes "nopt \<noteq> 0" "0 \<le> a0" "circ \<noteq> 0" "a \<le> circ" "live \<le> s" "pool_share d n e s a \<le> 1"
  obtains x where "pool_rewards r circ a s declared live nopt a0 d n e = Some x"
    and "ratio_u64 x \<le> ratio_u64 r * pool_share d n e s a" and "s = 0 \<longrightarrow> x = 0"
proof (cases "live < declared")
  case True
  then show thesis using pool_share_nonneg [of d n e s a] by (intro that [of 0]) (simp_all add: pool_rewards_def)
next
  case False
  let ?share = "pool_share d n e s a"
  have c: "0 < ratio_u64 circ" using assms(3) by (simp add: word_gt_0)
  have "declared \<le> s" using False assms(5) by simp
  then have "ratio_u64 declared / ratio_u64 circ \<le> ratio_u64 s / ratio_u64 circ"
    using c by (intro divide_right_mono) simp_all
  then obtain opt where opt: "pool_maximal_rewards (ratio_u64 r) nopt a0 (ratio_u64 s / ratio_u64 circ)
      (ratio_u64 declared / ratio_u64 circ) = Some opt" "ratio_u64 opt \<le> ratio_u64 r * (ratio_u64 s / ratio_u64 circ)"
    using pool_maximal_rewards_bounded [OF assms(1,2)] by (metis divide_nonneg_nonneg ratio_u64_nonneg)
  obtain pbar where pbar: "pool_apparent_performance d n e s a = Some pbar" "0 \<le> pbar"
      "ratio_u64 s * pbar \<le> ratio_u64 a * ?share" "s = 0 \<longrightarrow> pbar = 0"
    by (rule apparent_performance_bounded [of d n e s a])
  have "ratio_u64 opt * pbar \<le> ratio_u64 r * (ratio_u64 s / ratio_u64 circ) * pbar"
    using opt(2) pbar(2) by (rule mult_right_mono)
  also have "\<dots> = ratio_u64 r * (ratio_u64 s * pbar / ratio_u64 circ)" by simp
  also have "\<dots> \<le> ratio_u64 r * (ratio_u64 a * ?share / ratio_u64 circ)"
    using pbar(3) c by (intro mult_left_mono divide_right_mono) simp_all
  also have "\<dots> = ratio_u64 r * ?share * (ratio_u64 a / ratio_u64 circ)" by simp
  also have "\<dots> \<le> ratio_u64 r * ?share * 1"
    using assms(4) c pool_share_nonneg [of d n e s a] by (intro mult_left_mono) simp_all
  finally have v: "ratio_u64 opt * pbar \<le> ratio_u64 r * ?share" by simp
  also have "\<dots> \<le> ratio_u64 r" using assms(6) pool_share_nonneg [of d n e s a] by (simp add: mult_left_le)
  finally obtain x where x: "floor_u64 (ratio_u64 opt * pbar) = Some x" "ratio_u64 x \<le> ratio_u64 opt * pbar"
    using pbar(2) by (elim floor_u64_total [rotated]) simp_all
  have "pool_rewards r circ a s declared live nopt a0 d n e = Some x"
    using False assms(3) opt(1) pbar(1) x(1) by (simp add: pool_rewards_def ratio_def)
  moreover have "ratio_u64 x \<le> ratio_u64 r * ?share" using x(2) v by linarith
  moreover have "s = 0 \<longrightarrow> x = 0" using x(2) pbar(4) ratio_u64_nonneg [of x] by auto
  ultimately show thesis by (rule that)
qed

text \<open>The operator's and the members' parts.\<close>

lemma operator_share_bounded:
  assumes "circ \<noteq> 0" "0 \<le> m" "m \<le> 1" "live \<le> s" "r \<le> c \<or> s \<noteq> 0"
  obtains x where "pool_operator_share b r c m s live circ = Some x"
    and "ratio_u64 x \<le> (if r \<le> c then ratio_u64 r
      else ratio_u64 c + (ratio_u64 r - ratio_u64 c) * (m + (1 - m) * (ratio_u64 live / ratio_u64 s)))"
proof (cases "r \<le> c")
  case True
  then show thesis by (intro that [of r]) (simp_all add: pool_operator_share_def)
next
  case False
  with assms(5) have s: "s \<noteq> 0" by simp
  have pos: "0 < ratio_u64 circ" "0 < ratio_u64 s" using assms(1) s by (simp_all add: word_gt_0)
  from False obtain after where after: "sub_m b r c = Some after" "unat after + unat c = unat r"
    by (elim sub_m_exact [of c r b, rotated]) (simp add: word_le_nat_alt)
  then have ra: "ratio_u64 after = ratio_u64 r - ratio_u64 c"
    unfolding ratio_u64_def by (simp add: eq_diff_eq flip: of_nat_add del: of_nat_unat)
  let ?weight = "m + (1 - m) * (ratio_u64 live / ratio_u64 s)"
  have frac: "0 \<le> ratio_u64 live / ratio_u64 s" "ratio_u64 live / ratio_u64 s \<le> 1"
    using assms(4) pos(2) by simp_all
  have "(1 - m) * (ratio_u64 live / ratio_u64 s) \<le> (1 - m) * 1"
    using frac(2) assms(3) by (intro mult_left_mono) simp_all
  then have t: "0 \<le> ?weight" "?weight \<le> 1" using assms(2,3) frac(1) by simp_all
  then have "ratio_u64 after * ?weight \<le> ratio_u64 after * 1" by (intro mult_left_mono) simp_all
  moreover have "0 \<le> ratio_u64 after * ?weight" using t(1) by simp
  ultimately obtain v where v: "floor_u64 (ratio_u64 after * ?weight) = Some v" "ratio_u64 v \<le> ratio_u64 after * ?weight"
      "unat v \<le> unat after"
    using floor_u64_fits [of "ratio_u64 after * ?weight" after] floor_u64_SomeD by (metis mult.right_neutral)
  have "unat c + unat v < 2 ^ LENGTH(64)"
    using v(3) after(2) unsigned_less [where 'a = nat and w = r] by simp
  note sum = raw_exact(1) [OF this, of b] unat_add_no_overflow [OF this]
  have "pool_operator_share b r c m s live circ = Some (c + v)"
    using False assms(1) s after(1) v(1) sum(1) pos by (simp add: pool_operator_share_def ratio_def ratio_div_def Let_def)
  moreover have "ratio_u64 (c + v) = ratio_u64 c + ratio_u64 v"
    unfolding ratio_u64_def sum(2) by (simp del: of_nat_unat)
  moreover have "ratio_u64 v \<le> (ratio_u64 r - ratio_u64 c) * ?weight" using v(2) unfolding ra .
  ultimately show thesis using False by (intro that [of "c + v"]) (simp_all only: if_False add_left_mono)
qed

lemma delegator_reward_bounded:
  assumes "circ \<noteq> 0" "0 \<le> m" "m \<le> 1" "t \<le> s" "r \<le> c \<or> s \<noteq> 0"
  obtains x where "delegator_reward b r t s circ c m = Some x"
    and "ratio_u64 x \<le> (if r \<le> c then 0 else (1 - m) * (ratio_u64 r - ratio_u64 c) * (ratio_u64 t / ratio_u64 s))"
proof (cases "r \<le> c")
  case True
  then show thesis by (intro that [of 0]) (simp_all add: delegator_reward_def)
next
  case False
  with assms(5) have s: "s \<noteq> 0" by simp
  have pos: "0 < ratio_u64 circ" "0 < ratio_u64 s" using assms(1) s by (simp_all add: word_gt_0)
  from False obtain after where after: "sub_m b r c = Some after" "unat after + unat c = unat r"
    by (elim sub_m_exact [of c r b, rotated]) (simp add: word_le_nat_alt)
  then have ra: "ratio_u64 after = ratio_u64 r - ratio_u64 c"
    unfolding ratio_u64_def by (simp add: eq_diff_eq flip: of_nat_add del: of_nat_unat)
  let ?v = "(1 - m) * ratio_u64 after * (ratio_u64 t / ratio_u64 s)"
  have frac: "0 \<le> ratio_u64 t / ratio_u64 s" "ratio_u64 t / ratio_u64 s \<le> 1" using assms(4) pos(2) by simp_all
  have v: "0 \<le> ?v" using frac(1) assms(3) by simp
  have "?v \<le> 1 * ratio_u64 after * 1" using frac assms(2,3) by (intro mult_mono) simp_all
  then obtain x where x: "floor_u64 ?v = Some x" "ratio_u64 x \<le> ?v"
    using floor_u64_total [OF v, of after] unfolding mult_1 mult_1_right by metis
  have "(1 - m) * ratio_u64 after * (ratio_u64 t / ratio_u64 circ) / (ratio_u64 s / ratio_u64 circ) = ?v"
    using assms(1) by simp
  then have "delegator_reward b r t s circ c m = Some x"
    using False assms(1) s after(1) x(1) by (simp add: delegator_reward_def ratio_def ratio_div_def)
  then show thesis using x(2) False ra by (intro that) simp_all
qed

section \<open>The loop over the pools\<close>

text \<open>The members are processed in chunks, which changes nothing.\<close>

lemma collect_chunks_concat:
  assumes "f [] = Some []" and "\<And>xs ys. f (xs @ ys) = do {a \<leftarrow> f xs; c \<leftarrow> f ys; Some (a @ c)}"
  shows "collect_chunks f xss = f (concat xss)"
  using assms(1) by (induction xss) (simp_all add: assms(2))

lemma delegator_chunk_append:
  "compute_delegator_chunk b ctx pool r s circ c m owners bab (xs @ ys) = do {
     es \<leftarrow> compute_delegator_chunk b ctx pool r s circ c m owners bab xs;
     es' \<leftarrow> compute_delegator_chunk b ctx pool r s circ c m owners bab ys;
     Some (es @ es')}"
proof (induction xs)
  case Nil
  then show ?case by (cases "compute_delegator_chunk b ctx pool r s circ c m owners bab ys") simp_all
next
  case (Cons x xs)
  then show ?case
    by (cases "delegator_reward b r (rc_account_stake ctx pool x) s circ c m";
        cases "compute_delegator_chunk b ctx pool r s circ c m owners bab xs";
        cases "compute_delegator_chunk b ctx pool r s circ c m owners bab ys") simp_all
qed

lemma collect_delegators:
  "collect_chunks (compute_delegator_chunk b ctx pool r s circ c m owners bab) (chunks delegator_chunk_size ds) =
     compute_delegator_chunk b ctx pool r s circ c m owners bab ds"
  using collect_chunks_concat [of "compute_delegator_chunk b ctx pool r s circ c m owners bab"
      "chunks delegator_chunk_size ds"]
  by (simp add: delegator_chunk_append concat_chunks delegator_chunk_size_def)

text \<open>A member is rewarded when it is no owner and, before Babbage, registered.\<close>

abbreviation rewarded :: "rewards_context \<Rightarrow> stake_credential list \<Rightarrow> bool \<Rightarrow> stake_credential \<Rightarrow> bool" where
  "rewarded ctx owners bab d \<equiv> d \<notin> set owners \<and> (bab \<or> rc_is_account_registered ctx d)"

lemma delegator_chunk_iff:
  "compute_delegator_chunk b ctx pool r s circ c m owners bab ds = Some es \<longleftrightarrow>
     map fst es = filter (rewarded ctx owners bab) ds \<and>
     list_all (\<lambda>(d, v). delegator_reward b r (rc_account_stake ctx pool d) s circ c m = Some v) es"
proof (induction ds arbitrary: es)
  case (Cons d ds)
  then show ?case by (cases es) (auto simp: panic_simps)
qed auto

fun reward_lovelace :: "reward \<Rightarrow> nat" where
  "reward_lovelace (MultiPool r) =
     sum_list (map (unat \<circ> snd) (mr_as_leader r)) + sum_list (map (unat \<circ> snd) (mr_as_delegator r))"
| "reward_lovelace (PreAllegra r) = unat (pa_value r)"

definition pending_lovelace :: "reward_map \<Rightarrow> nat" where
  "pending_lovelace m = sum_list (map (reward_lovelace \<circ> snd) (rm_pending m))"

lemma sum_update_le:
  fixes g :: "'v \<Rightarrow> nat"
  shows "sum_list (map (g \<circ> snd) (AList.update k v xs)) \<le> sum_list (map (g \<circ> snd) xs) + g v"
  by (induction xs) auto

lemma sum_update_fresh:
  fixes g :: "'v \<Rightarrow> nat"
  shows "map_of xs k = None \<Longrightarrow> sum_list (map (g \<circ> snd) (AList.update k v xs)) = sum_list (map (g \<circ> snd) xs) + g v"
  by (induction xs) (auto split: if_splits)

lemma sum_delete:
  fixes g :: "'v \<Rightarrow> nat"
  assumes "distinct (map fst xs)"
  shows "sum_list (map (g \<circ> snd) xs) = sum_list (map (g \<circ> snd) (AList.delete k xs)) + (case map_of xs k of None \<Rightarrow> 0 | Some v \<Rightarrow> g v)"
  using assms
proof (induction xs)
  case (Cons x xs)
  show ?case
  proof (cases "fst x = k")
    case True
    with Cons.prems have "k \<notin> fst ` set xs" by auto
    then have "AList.delete k xs = xs" by (rule delete_id)
    with True show ?thesis by (cases x) simp
  next
    case False
    with Cons show ?thesis by (cases x) simp
  qed
qed simp

definition era_fits :: "rewards_context \<Rightarrow> reward_map \<Rightarrow> bool" where
  "era_fits ctx m \<longleftrightarrow> distinct (map fst (rm_pending m)) \<and>
     (\<forall>c r. map_of (rm_pending m) c = Some r \<longrightarrow> reward_is_spendable r = rc_is_account_registered ctx c \<and>
        (case r of PreAllegra _ \<Rightarrow> rc_pre_allegra ctx = Some True | MultiPool _ \<Rightarrow> rc_pre_allegra ctx = Some False))"

lemma reward_new_Some:
  assumes "rc_pre_allegra ctx = Some pa"
  obtains r where "reward_new ctx c v pool lead = Some r" and "reward_lovelace r = unat v"
    and "reward_is_spendable r = rc_is_account_registered ctx c"
    and "case r of PreAllegra _ \<Rightarrow> pa | MultiPool _ \<Rightarrow> \<not> pa"
  using assms by (cases pa; cases lead) (auto simp: reward_new_def)

lemma extend_map_simps [simp]:
  "extend_map m [] = m" "extend_map m [(k, v)] = AList.update k v m"
  by (simp_all add: extend_map_def)

lemma pre_allegra_merge_either: "pre_allegra_merge r other = r \<or> pre_allegra_merge r other = other"
  by (cases "pa_as_leader r"; cases "pa_as_leader other") (simp_all add: pre_allegra_merge_def)

lemma reward_merge_fits:
  assumes "reward_new ctx c v pool lead = Some new" and "rc_pre_allegra ctx = Some pa"
    and "reward_is_spendable prev = rc_is_account_registered ctx c"
    and "case prev of PreAllegra _ \<Rightarrow> pa | MultiPool _ \<Rightarrow> \<not> pa"
  obtains r where "reward_merge b prev new = Some r" and "reward_lovelace r \<le> reward_lovelace prev + unat v"
    and "reward_is_spendable r = rc_is_account_registered ctx c" and "case r of PreAllegra _ \<Rightarrow> pa | MultiPool _ \<Rightarrow> \<not> pa"
proof (cases prev)
  case (MultiPool x)
  with assms have new: "new = MultiPool \<lparr>mr_is_spendable = rc_is_account_registered ctx c,
      mr_as_leader = (if lead then [(pool, v)] else []), mr_as_delegator = (if lead then [] else [(pool, v)])\<rparr>" and "\<not> pa"
    by (auto simp: reward_new_def)
  then show thesis using MultiPool assms(3)
      sum_update_le [where g = unat and k = pool and v = v and xs = "mr_as_leader x"]
      sum_update_le [where g = unat and k = pool and v = v and xs = "mr_as_delegator x"]
    by (intro that) (auto simp: multi_pool_merge_def)
next
  case (PreAllegra x)
  with assms have "new = PreAllegra \<lparr>pa_is_spendable = rc_is_account_registered ctx c, pa_as_leader = lead,
      pa_pool = pool, pa_value = v\<rparr>" and "pa"
    by (auto simp: reward_new_def)
  then show thesis using PreAllegra assms(3) that [of "PreAllegra x"] that [of new]
    by (cases "reward_merge b prev new = Some new") (use pre_allegra_merge_either in force)+
qed

lemma include_reward_fits:
  assumes "era_fits ctx m" and "rc_pre_allegra ctx = Some pa"
  obtains m' where "include_reward b ctx c v pool lead m = Some m'" and "era_fits ctx m'"
    and "pending_lovelace m' \<le> pending_lovelace m + unat v"
proof -
  obtain new where new: "reward_new ctx c v pool lead = Some new" "reward_lovelace new = unat v"
      "reward_is_spendable new = rc_is_account_registered ctx c" "case new of PreAllegra _ \<Rightarrow> pa | MultiPool _ \<Rightarrow> \<not> pa"
    using reward_new_Some [OF assms(2)] by metis
  let ?prev = "map_of (rm_pending m) c" and ?rest = "AList.delete c (rm_pending m)"
  have dist: "distinct (map fst (rm_pending m))" using assms(1) by (simp add: era_fits_def)
  obtain r where r: "(case ?prev of Some prev \<Rightarrow> reward_merge b prev new | None \<Rightarrow> Some new) = Some r"
      "reward_lovelace r \<le> (case ?prev of None \<Rightarrow> 0 | Some x \<Rightarrow> reward_lovelace x) + unat v"
      "reward_is_spendable r = rc_is_account_registered ctx c" "case r of PreAllegra _ \<Rightarrow> pa | MultiPool _ \<Rightarrow> \<not> pa"
  proof (cases ?prev)
    case (Some x)
    with assms have "reward_is_spendable x = rc_is_account_registered ctx c" "case x of PreAllegra _ \<Rightarrow> pa | MultiPool _ \<Rightarrow> \<not> pa"
      unfolding era_fits_def by (auto split: reward.splits)
    then obtain r where "reward_merge b x new = Some r" "reward_lovelace r \<le> reward_lovelace x + unat v"
        "reward_is_spendable r = rc_is_account_registered ctx c" "case r of PreAllegra _ \<Rightarrow> pa | MultiPool _ \<Rightarrow> \<not> pa"
      by (rule reward_merge_fits [OF new(1) assms(2)])
    with Some that show ?thesis by simp
  qed (use new that in simp)
  let ?m' = "m\<lparr>rm_pending := AList.update c r ?rest\<rparr>"
  have "include_reward b ctx c v pool lead m = Some ?m'" using new(1) r(1) by (simp add: include_reward_def Let_def)
  moreover have "era_fits ctx ?m'"
    using assms r(3,4) dist unfolding era_fits_def
    by (auto simp: distinct_update distinct_delete AList.delete_conv' split: reward.splits if_splits)
  moreover have "pending_lovelace ?m' \<le> pending_lovelace m + unat v"
    using sum_delete [OF dist, of reward_lovelace c] r(2)
      sum_update_fresh [where g = reward_lovelace and xs = ?rest and k = c and v = r]
    by (simp add: pending_lovelace_def AList.delete_conv')
  ultimately show thesis by (rule that)
qed

lemma include_all_fits:
  assumes "era_fits ctx m" and "rc_pre_allegra ctx = Some pa"
  obtains m' where "fold_opt (include_if b ctx pool lead) es m = Some m'" and "era_fits ctx m'"
    and "pending_lovelace m' \<le> pending_lovelace m + sum_list (map (unat \<circ> snd) es)"
  using assms
proof (induction es arbitrary: m thesis)
  case (Cons e es)
  obtain c v where e: "e = (c, v)" by (cases e)
  obtain m1 where m1: "include_if b ctx pool lead e m = Some m1" "era_fits ctx m1"
      "pending_lovelace m1 \<le> pending_lovelace m + unat v"
  proof (cases "rc_should_include ctx c")
    case True
    obtain m1 where "include_reward b ctx c v pool lead m = Some m1" "era_fits ctx m1"
        "pending_lovelace m1 \<le> pending_lovelace m + unat v"
      by (rule include_reward_fits [OF Cons.prems(2,3)])
    with True that [of m1] show ?thesis by (simp add: include_if_def e)
  next
    case False
    then show ?thesis using Cons.prems(2) that [of m] by (simp add: include_if_def e)
  qed
  show ?case
  proof (rule Cons.IH [OF _ m1(2) Cons.prems(3)])
    fix m2 assume "fold_opt (include_if b ctx pool lead) es m1 = Some m2" "era_fits ctx m2"
      "pending_lovelace m2 \<le> pending_lovelace m1 + sum_list (map (unat \<circ> snd) es)"
    with m1 e show thesis by (intro Cons.prems(1) [of m2]) (auto simp: comp_def)
  qed
qed simp

lemma delegator_entries_bounded:
  assumes "circ \<noteq> 0" "0 \<le> m" "m \<le> 1" "r \<le> c \<or> s \<noteq> 0"
    and "\<forall>d \<in> set ds. rewarded ctx owners bab d \<longrightarrow> rc_account_stake ctx pool d \<le> s"
  obtains es where "compute_delegator_chunk b ctx pool r s circ c m owners bab ds = Some es"
    and "of_nat (sum_list (map (unat \<circ> snd) es)) \<le> (if r \<le> c then 0 else (1 - m) * (ratio_u64 r - ratio_u64 c) *
      (of_nat (sum_list (map (unat \<circ> rc_account_stake ctx pool) (filter (rewarded ctx owners bab) ds))) / ratio_u64 s))"
  using assms(5)
proof (induction ds arbitrary: thesis)
  case (Cons d ds)
  let ?bound = "\<lambda>t :: rat. if r \<le> c then 0 else (1 - m) * (ratio_u64 r - ratio_u64 c) * (t / ratio_u64 s)"
  obtain es where es: "compute_delegator_chunk b ctx pool r s circ c m owners bab ds = Some es"
      "of_nat (sum_list (map (unat \<circ> snd) es)) \<le>
        ?bound (of_nat (sum_list (map (unat \<circ> rc_account_stake ctx pool) (filter (rewarded ctx owners bab) ds))))"
  proof (rule Cons.IH)
    show "\<forall>d \<in> set ds. rewarded ctx owners bab d \<longrightarrow> rc_account_stake ctx pool d \<le> s" using Cons.prems(2) by simp
  qed
  show ?case
  proof (cases "rewarded ctx owners bab d")
    case True
    obtain x where x: "delegator_reward b r (rc_account_stake ctx pool d) s circ c m = Some x"
        "ratio_u64 x \<le> ?bound (ratio_u64 (rc_account_stake ctx pool d))"
      using delegator_reward_bounded [OF assms(1-3) _ assms(4), of "rc_account_stake ctx pool d" b] Cons.prems(2) True
      by (metis list.set_intros(1))
    have add: "?bound (t + u) = ?bound t + ?bound u" for t u by (simp add: add_divide_distrib distrib_left)
    have "of_nat (sum_list (map (unat \<circ> snd) ((d, x) # es))) = ratio_u64 x + of_nat (sum_list (map (unat \<circ> snd) es))"
      unfolding ratio_u64_def by (simp del: of_nat_unat)
    also have "\<dots> \<le> ?bound (ratio_u64 (rc_account_stake ctx pool d) +
        of_nat (sum_list (map (unat \<circ> rc_account_stake ctx pool) (filter (rewarded ctx owners bab) ds))))"
      unfolding add using es(2) x(2) by (rule add_mono [rotated])
    also have "ratio_u64 (rc_account_stake ctx pool d) +
        of_nat (sum_list (map (unat \<circ> rc_account_stake ctx pool) (filter (rewarded ctx owners bab) ds))) =
        (of_nat (sum_list (map (unat \<circ> rc_account_stake ctx pool) (filter (rewarded ctx owners bab) (d # ds)))) :: rat)"
      using True unfolding ratio_u64_def by (simp del: of_nat_unat)
    finally show ?thesis using True x(1) es(1) by (intro Cons.prems(1) [of "(d, x) # es"]) auto
  next
    case False
    then have ds: "filter (rewarded ctx owners bab) (d # ds) = filter (rewarded ctx owners bab) ds" by (simp only: filter.simps if_False)
    have chunk: "compute_delegator_chunk b ctx pool r s circ c m owners bab (d # ds) = Some es"
      using False es(1) by (cases "d \<in> set owners") simp_all
    show ?thesis by (rule Cons.prems(1) [OF chunk]) (use es(2) ds in \<open>simp only:\<close>)
  qed
qed simp

definition pool_fits :: "(bytes \<Rightarrow> stake_credential option) \<Rightarrow> rewards_context \<Rightarrow> pool_hash \<Rightarrow> bool" where
  "pool_fits parse ctx pool \<longleftrightarrow> (case rc_pool_params ctx pool of None \<Rightarrow> False | Some params \<Rightarrow>
     let owners = map AddrKeyhash (pp_pool_owners params); stake = rc_pool_stake ctx pool in
     parse (pp_reward_account params) \<noteq> None \<and> rc_pool_blocks ctx pool \<noteq> None \<and>
     numerator (pp_margin params) \<le> denominator (pp_margin params) \<and> denominator (pp_margin params) \<noteq> 0 \<and>
     (case rc_live_pledge ctx pool owners of None \<Rightarrow> False | Some live \<Rightarrow>
        unat live + sum_list (map (unat \<circ> rc_account_stake ctx pool)
          (filter (\<lambda>d. d \<notin> set owners) (rc_pool_delegators ctx pool))) \<le> unat stake))"

lemma pallas_ratio_unit:
  assumes "numerator x \<le> denominator x" and "denominator x \<noteq> 0"
  obtains q where "pallas_ratio x = Some q" and "0 \<le> q" and "q \<le> 1"
  using assms by (intro that [of "ratio_u64 (numerator x) / ratio_u64 (denominator x)"])
    (auto simp: pallas_ratio_def ratio_def divide_le_eq_1 word_gt_0)

lemma split_within:
  fixes m live rest stake r c :: rat
  assumes "0 \<le> m" "m \<le> 1" "0 < stake" "live + rest \<le> stake" "c \<le> r"
  shows "c + (r - c) * (m + (1 - m) * (live / stake)) + (1 - m) * (r - c) * (rest / stake) \<le> r"
proof -
  define u w where "u = live / stake" and "w = rest / stake"
  have "u + w \<le> 1" using assms(3,4) by (simp add: u_def w_def add_divide_distrib [symmetric])
  then have "(1 - m) * (u + w) \<le> (1 - m) * 1" using assms(2) by (intro mult_left_mono) simp_all
  then have "m + (1 - m) * u + (1 - m) * w \<le> 1" by (simp add: algebra_simps)
  then have "(r - c) * (m + (1 - m) * u + (1 - m) * w) \<le> (r - c) * 1"
    using assms(5) by (intro mult_left_mono) simp_all
  then show ?thesis unfolding u_def [symmetric] w_def [symmetric] by (simp add: algebra_simps)
qed

lemma sum_filter_mono:
  fixes g :: "'a \<Rightarrow> nat"
  assumes "\<And>x. P x \<Longrightarrow> Q x"
  shows "sum_list (map g (filter P xs)) \<le> sum_list (map g (filter Q xs))"
  using assms by (induction xs) auto

text \<open>The operator's share and the rewards of the members never exceed the reward of the pool.\<close>

lemma operator_and_members:
  assumes "circ \<noteq> 0" "0 \<le> mg" "mg \<le> 1" and staked: "r \<le> c \<or> s \<noteq> 0"
    and pledge: "unat live + sum_list (map (unat \<circ> rc_account_stake ctx pool) (filter (\<lambda>d. d \<notin> set owners) ds)) \<le> unat s"
  obtains x es where "pool_operator_share b r c mg s live circ = Some x"
    and "compute_delegator_chunk b ctx pool r s circ c mg owners bab ds = Some es"
    and "ratio_u64 x + of_nat (sum_list (map (unat \<circ> snd) es)) \<le> ratio_u64 r"
proof -
  let ?T = "\<lambda>P. sum_list (map (unat \<circ> rc_account_stake ctx pool) (filter P ds))"
  have live: "live \<le> s" using pledge by (simp add: word_le_nat_alt)
  have T: "?T (rewarded ctx owners bab) \<le> ?T (\<lambda>d. d \<notin> set owners)" by (rule sum_filter_mono) simp
  have each: "\<forall>d \<in> set ds. rewarded ctx owners bab d \<longrightarrow> rc_account_stake ctx pool d \<le> s"
  proof (intro ballI impI)
    fix d assume "d \<in> set ds" "rewarded ctx owners bab d"
    then have "unat (rc_account_stake ctx pool d) \<le> ?T (\<lambda>d. d \<notin> set owners)" by (intro member_le_sum_list) auto
    with pledge show "rc_account_stake ctx pool d \<le> s" by (simp add: word_le_nat_alt)
  qed
  obtain x where x: "pool_operator_share b r c mg s live circ = Some x" "ratio_u64 x \<le> (if r \<le> c then ratio_u64 r
      else ratio_u64 c + (ratio_u64 r - ratio_u64 c) * (mg + (1 - mg) * (ratio_u64 live / ratio_u64 s)))"
    by (rule operator_share_bounded [OF assms(1-3) live staked])
  obtain es where es: "compute_delegator_chunk b ctx pool r s circ c mg owners bab ds = Some es"
      "of_nat (sum_list (map (unat \<circ> snd) es)) \<le> (if r \<le> c then 0 else (1 - mg) * (ratio_u64 r - ratio_u64 c) *
        (of_nat (?T (rewarded ctx owners bab)) / ratio_u64 s))"
    by (rule delegator_entries_bounded [OF assms(1-3) staked each])
  have "ratio_u64 x + of_nat (sum_list (map (unat \<circ> snd) es)) \<le> ratio_u64 r"
  proof (cases "r \<le> c")
    case False
    with staked have "0 < ratio_u64 s" by (simp add: word_gt_0)
    moreover have "ratio_u64 live + of_nat (?T (rewarded ctx owners bab)) \<le> ratio_u64 s"
      using T pledge unfolding ratio_u64_def by (simp del: of_nat_unat flip: of_nat_add)
    ultimately have "ratio_u64 c + (ratio_u64 r - ratio_u64 c) * (mg + (1 - mg) * (ratio_u64 live / ratio_u64 s)) +
        (1 - mg) * (ratio_u64 r - ratio_u64 c) * (of_nat (?T (rewarded ctx owners bab)) / ratio_u64 s) \<le> ratio_u64 r"
      using False by (intro split_within assms(2,3)) simp_all
    with x(2) es(2) False show ?thesis by (simp only: if_False)
  next
    case True
    with x(2) es(2) show ?thesis by (simp only: if_True)
  qed
  with x(1) es(1) show thesis by (rule that)
qed

lemma pool_fitsE:
  assumes "pool_fits parse ctx pool"
  obtains params account live where "rc_pool_params ctx pool = Some params"
    and "parse (pp_reward_account params) = Some account"
    and "numerator (pp_margin params) \<le> denominator (pp_margin params)" and "denominator (pp_margin params) \<noteq> 0"
    and "rc_live_pledge ctx pool (map AddrKeyhash (pp_pool_owners params)) = Some live"
    and "unat live + sum_list (map (unat \<circ> rc_account_stake ctx pool)
      (filter (\<lambda>d. d \<notin> set (map AddrKeyhash (pp_pool_owners params))) (rc_pool_delegators ctx pool))) \<le> unat (rc_pool_stake ctx pool)"
  using assms unfolding pool_fits_def Let_def by (fastforce split: option.splits)

lemma include_one_fits:
  assumes "era_fits ctx m" and "rc_pre_allegra ctx = Some pa"
  obtains m' where "(if cond then include_if b ctx pool lead (c, v) m else Some m) = Some m'" and "era_fits ctx m'"
    and "pending_lovelace m' \<le> pending_lovelace m + unat v"
proof (cases cond)
  case True
  obtain m' where "fold_opt (include_if b ctx pool lead) [(c, v)] m = Some m'" "era_fits ctx m'"
      "pending_lovelace m' \<le> pending_lovelace m + sum_list (map (unat \<circ> snd) [(c, v)])"
    by (rule include_all_fits [OF assms])
  with True that [of m'] show ?thesis by (cases "include_if b ctx pool lead (c, v) m") simp_all
qed (use assms(1) that [of m] in simp)

lemma pool_step:
  assumes fits: "pool_fits parse ctx pool" and era: "era_fits ctx m" "rc_pre_allegra ctx = Some pa"
    and circ: "circulating b (rc_pots ctx) = Some circ" "circ \<noteq> 0" "rc_active_stake ctx \<le> circ"
    and pp: "rc_pparams ctx = Some pp" "ensure_k pp = Some (Inr k)" "k \<noteq> 0" "ensure_a0 pp = Some (Inr a0)"
      "denominator a0 \<noteq> 0" "ensure_d pp = Some (Inr dp)" "pallas_ratio dp = Some d"
    and blocks: "rc_pool_blocks ctx pool = Some n"
      "pool_share d n (rc_epoch_blocks ctx) (rc_pool_stake ctx pool) (rc_active_stake ctx) \<le> 1"
  obtains m' where "define_pool_rewards b parse ctx pool m = Some (Inr m')" and "era_fits ctx m'"
    and "of_nat (pending_lovelace m') \<le> of_nat (pending_lovelace m) + ratio_u64 (inc_available_rewards (rc_incentives ctx)) *
      pool_share d n (rc_epoch_blocks ctx) (rc_pool_stake ctx pool) (rc_active_stake ctx)"
proof (cases "n = 0")
  case True
  from fits obtain params account live where "rc_pool_params ctx pool = Some params"
      "parse (pp_reward_account params) = Some account"
      "rc_live_pledge ctx pool (map AddrKeyhash (pp_pool_owners params)) = Some live"
    by (rule pool_fitsE)
  with True circ(1) blocks(1) have "define_pool_rewards b parse ctx pool m = Some (Inr m)"
    by (simp add: define_pool_rewards_def Let_def)
  then show thesis using era(1) pool_share_nonneg by (intro that [of m]) simp_all
next
  case False
  let ?share = "pool_share d n (rc_epoch_blocks ctx) (rc_pool_stake ctx pool) (rc_active_stake ctx)"
  let ?R = "ratio_u64 (inc_available_rewards (rc_incentives ctx))" and ?s = "rc_pool_stake ctx pool"
  from fits obtain params account live where params: "rc_pool_params ctx pool = Some params"
      "parse (pp_reward_account params) = Some account"
      "numerator (pp_margin params) \<le> denominator (pp_margin params)" "denominator (pp_margin params) \<noteq> 0"
      "rc_live_pledge ctx pool (map AddrKeyhash (pp_pool_owners params)) = Some live"
      "unat live + sum_list (map (unat \<circ> rc_account_stake ctx pool)
        (filter (\<lambda>d. d \<notin> set (map AddrKeyhash (pp_pool_owners params))) (rc_pool_delegators ctx pool))) \<le> unat ?s"
    by (rule pool_fitsE)
  then have live: "live \<le> ?s" by (simp add: word_le_nat_alt)
  obtain a where a: "pallas_ratio a0 = Some a" "0 \<le> a" using pp(5) by (simp add: pallas_ratio_def ratio_def)
  obtain r where r: "pool_rewards (inc_available_rewards (rc_incentives ctx)) circ (rc_active_stake ctx) ?s
      (pp_pledge params) live k a d n (rc_epoch_blocks ctx) = Some r" "ratio_u64 r \<le> ?R * ?share" "?s = 0 \<longrightarrow> r = 0"
    by (rule pool_rewards_bounded [OF pp(3) a(2) circ(2,3) live blocks(2)])
  obtain mg where mg: "pallas_ratio (pp_margin params) = Some mg" "0 \<le> mg" "mg \<le> 1"
    by (rule pallas_ratio_unit [OF params(3,4)])
  obtain major where major: "protocol_major_or_default pp = Some major"
    using protocol_major_total [of pp] by (auto simp: protocol_major_or_default_def)
  have "r \<le> pp_cost params \<or> ?s \<noteq> 0" using r(3) by auto
  then obtain x es where x: "pool_operator_share b r (pp_cost params) mg ?s live circ = Some x"
      "compute_delegator_chunk b ctx pool r ?s circ (pp_cost params) mg (map AddrKeyhash (pp_pool_owners params))
        (7 \<le> major) (rc_pool_delegators ctx pool) = Some es"
      "ratio_u64 x + of_nat (sum_list (map (unat \<circ> snd) es)) \<le> ratio_u64 r"
    using operator_and_members [OF circ(2) mg(2,3) _ params(6)] by metis
  obtain m1 where m1: "(if 7 \<le> major \<or> rc_is_account_registered ctx account
        then include_if b ctx pool True (account, x) m else Some m) = Some m1" "era_fits ctx m1"
      "pending_lovelace m1 \<le> pending_lovelace m + unat x"
    by (rule include_one_fits [OF era])
  obtain m2 where m2: "fold_opt (include_if b ctx pool False) es m1 = Some m2" "era_fits ctx m2"
      "pending_lovelace m2 \<le> pending_lovelace m1 + sum_list (map (unat \<circ> snd) es)"
    by (rule include_all_fits [OF m1(2) era(2)])
  have "define_pool_rewards b parse ctx pool m = Some (Inr m2)"
    using False params circ(1) blocks(1) pp a r(1) mg(1) x(1,2) major m1(1) m2(1)
    by (simp add: define_pool_rewards_def Let_def collect_delegators)
  moreover have "(of_nat (pending_lovelace m2) :: rat) \<le> of_nat (pending_lovelace m + unat x + sum_list (map (unat \<circ> snd) es))"
    using m1(3) m2(3) by (intro of_nat_mono) simp
  then have "of_nat (pending_lovelace m2) \<le> of_nat (pending_lovelace m) + (ratio_u64 x + of_nat (sum_list (map (unat \<circ> snd) es)))"
    unfolding ratio_u64_def by (simp del: of_nat_unat add: add.assoc)
  then have "of_nat (pending_lovelace m2) \<le> of_nat (pending_lovelace m) + ?R * ?share" using x(3) r(2) by linarith
  ultimately show thesis using m2(2) by (intro that)
qed


text \<open>A consistent context: every pool resolves and its delegators fit in its stake, the pools fit in
  the active stake and the blocks of the epoch, and the active stake fits in the circulating supply.\<close>

definition params_fit :: "pparams_set option \<Rightarrow> bool" where
  "params_fit params = (case params of None \<Rightarrow> False | Some pp \<Rightarrow>
     (case (ensure_k pp, ensure_a0 pp, ensure_d pp) of
        (Some (Inr k), Some (Inr a0), Some (Inr d)) \<Rightarrow> k \<noteq> 0 \<and> denominator a0 \<noteq> 0 \<and> denominator d \<noteq> 0
      | _ \<Rightarrow> False))"

lemma params_fitE:
  assumes "params_fit (Some pp)"
  obtains k a0 d where "ensure_k pp = Some (Inr k)" and "k \<noteq> 0" and "ensure_a0 pp = Some (Inr a0)"
    and "denominator a0 \<noteq> 0" and "ensure_d pp = Some (Inr d)" and "denominator d \<noteq> 0"
proof -
  obtain x y z where "ensure_k pp = Some x" "ensure_a0 pp = Some y" "ensure_d pp = Some z"
    using getters_never_panic [of pp] by auto
  with assms that show thesis by (cases x; cases y; cases z) (simp_all add: params_fit_def)
qed

definition context_fits :: "build \<Rightarrow> (bytes \<Rightarrow> stake_credential option) \<Rightarrow> rewards_context \<Rightarrow> bool" where
  "context_fits b parse ctx \<longleftrightarrow>
     list_all (pool_fits parse ctx) (rc_iter_all_pools ctx) \<and> params_fit (rc_pparams ctx) \<and> rc_pre_allegra ctx \<noteq> None \<and>
     (case circulating b (rc_pots ctx) of None \<Rightarrow> False | Some circ \<Rightarrow> circ \<noteq> 0 \<and> rc_active_stake ctx \<le> circ) \<and>
     sum_list (map (unat \<circ> rc_pool_stake ctx) (rc_iter_all_pools ctx)) \<le> unat (rc_active_stake ctx) \<and>
     sum_list (map (unat \<circ> the \<circ> rc_pool_blocks ctx) (rc_iter_all_pools ctx)) \<le> unat (max (rc_epoch_blocks ctx) 1)"

abbreviation claim :: "rewards_context \<Rightarrow> rat \<Rightarrow> pool_hash \<Rightarrow> rat" where
  "claim ctx d pool \<equiv> pool_share d (the (rc_pool_blocks ctx pool)) (rc_epoch_blocks ctx) (rc_pool_stake ctx pool) (rc_active_stake ctx)"

lemma sum_of_ratios: "sum_list (map (\<lambda>x. ratio_u64 (g x) / c) xs) = of_nat (sum_list (map (unat \<circ> g) xs)) / c"
  by (induction xs) (simp_all add: ratio_u64_def add_divide_distrib del: of_nat_unat)

lemma ratio_of_sum: "n \<le> unat x \<Longrightarrow> of_nat n / ratio_u64 x \<le> 1"
  unfolding ratio_u64_def by (cases "unat x = 0") (simp_all del: of_nat_unat add: divide_le_eq_1)

lemma claims_within:
  assumes "sum_list (map (unat \<circ> rc_pool_stake ctx) pools) \<le> unat (rc_active_stake ctx)"
    and "sum_list (map (unat \<circ> the \<circ> rc_pool_blocks ctx) pools) \<le> unat (max (rc_epoch_blocks ctx) 1)"
  shows "sum_list (map (claim ctx d) pools) \<le> 1"
proof (cases "d < 4 / 5")
  case True
  then have "sum_list (map (claim ctx d) pools) =
      of_nat (sum_list (map (unat \<circ> (the \<circ> rc_pool_blocks ctx)) pools)) / ratio_u64 (max (rc_epoch_blocks ctx) 1)"
    using sum_of_ratios [of "the \<circ> rc_pool_blocks ctx"] by (simp add: pool_share_def del: of_nat_unat)
  with ratio_of_sum [OF assms(2)] show ?thesis by (simp add: comp_assoc)
next
  case False
  then have "sum_list (map (claim ctx d) pools) =
      of_nat (sum_list (map (unat \<circ> rc_pool_stake ctx) pools)) / ratio_u64 (rc_active_stake ctx)"
    using sum_of_ratios [of "rc_pool_stake ctx"] by (simp add: pool_share_def del: of_nat_unat)
  with ratio_of_sum [OF assms(1)] show ?thesis by simp
qed

lemma all_pools_step:
  assumes era: "era_fits ctx m" "rc_pre_allegra ctx = Some pa"
    and circ: "circulating b (rc_pots ctx) = Some circ" "circ \<noteq> 0" "rc_active_stake ctx \<le> circ"
    and pp: "rc_pparams ctx = Some pp" "ensure_k pp = Some (Inr k)" "k \<noteq> 0" "ensure_a0 pp = Some (Inr a0)"
      "denominator a0 \<noteq> 0" "ensure_d pp = Some (Inr dp)" "pallas_ratio dp = Some d"
    and fits: "list_all (pool_fits parse ctx) pools" and share: "sum_list (map (claim ctx d) pools) \<le> 1"
  shows "\<exists>m'. try_fold (define_pool_rewards b parse ctx) pools m = Some (Inr m') \<and>
    of_nat (pending_lovelace m') \<le> of_nat (pending_lovelace m) +
      ratio_u64 (inc_available_rewards (rc_incentives ctx)) * sum_list (map (claim ctx d) pools)"
  using era(1) fits share
proof (induction pools arbitrary: m)
  case (Cons pool pools)
  have nonneg: "0 \<le> sum_list (map (claim ctx d) ps)" for ps by (intro sum_list_nonneg) (auto simp: pool_share_nonneg)
  from Cons.prems(3) have s: "claim ctx d pool \<le> 1" "sum_list (map (claim ctx d) pools) \<le> 1"
    using nonneg [of pools] nonneg [of "[pool]"] by auto
  from Cons.prems(2) have "pool_fits parse ctx pool" by simp
  then obtain n where n: "rc_pool_blocks ctx pool = Some n"
    by (auto simp: pool_fits_def Let_def split: option.splits)
  obtain m1 where m1: "define_pool_rewards b parse ctx pool m = Some (Inr m1)" "era_fits ctx m1"
      "of_nat (pending_lovelace m1) \<le> of_nat (pending_lovelace m) +
        ratio_u64 (inc_available_rewards (rc_incentives ctx)) * claim ctx d pool"
    using pool_step [OF \<open>pool_fits parse ctx pool\<close> Cons.prems(1) era(2) circ pp n] s(1) n by auto
  from Cons.IH [OF m1(2) _ s(2)] Cons.prems(2) m1(1,3) show ?case by (auto simp: distrib_left)
qed simp

lemma define_rewards_total:
  assumes "context_fits b parse ctx"
  obtains m claims where "define_rewards b parse ctx = Some (Inr m)" and "claims \<le> 1"
    and "of_nat (pending_lovelace m) \<le> ratio_u64 (inc_available_rewards (rc_incentives ctx)) * claims"
proof -
  from assms have fits: "list_all (pool_fits parse ctx) (rc_iter_all_pools ctx)" by (simp add: context_fits_def)
  from assms obtain pa circ pp where ctx: "rc_pre_allegra ctx = Some pa" "circulating b (rc_pots ctx) = Some circ"
      "circ \<noteq> 0" "rc_active_stake ctx \<le> circ" "rc_pparams ctx = Some pp"
    by (auto simp: context_fits_def params_fit_def split: option.splits)
  from assms ctx(5) have "params_fit (Some pp)" by (simp add: context_fits_def)
  then obtain k a0 dp where pp: "ensure_k pp = Some (Inr k)" "k \<noteq> 0" "ensure_a0 pp = Some (Inr a0)"
      "denominator a0 \<noteq> 0" "ensure_d pp = Some (Inr dp)" "denominator dp \<noteq> 0"
    by (rule params_fitE)
  then obtain d where d: "pallas_ratio dp = Some d" by (simp add: pallas_ratio_def ratio_def)
  have share: "sum_list (map (claim ctx d) (rc_iter_all_pools ctx)) \<le> 1"
    using assms by (intro claims_within) (simp_all add: context_fits_def)
  let ?m = "reward_map_new (rc_incentives ctx)"
  have m: "era_fits ctx ?m" "pending_lovelace ?m = 0"
    by (simp_all add: era_fits_def pending_lovelace_def reward_map_new_def from_pending_def)
  from all_pools_step [OF m(1) ctx(1-5) pp(1-5) d fits share] share that show thesis
    unfolding define_rewards_def by (auto simp: m(2))
qed

text \<open>C8. Rewards never exceed the pot they are paid from. On a consistent context (every pool of the
  snapshot resolves, its owners' pledge and its other delegators' stake fit in the pool's stake, the
  pools' stakes fit in the active stake, their blocks in the blocks of the epoch, and the active stake
  in the circulating supply) computing the rewards of an epoch neither panics nor fails, and the
  lovelace of all the pending rewards is at most the incentives available for rewards, whatever the
  rounding of every single share.\<close>

theorem rewards_within_incentives:
  assumes "context_fits b parse ctx"
  shows "\<exists>m. define_rewards b parse ctx = Some (Inr m) \<and>
    pending_lovelace m \<le> unat (inc_available_rewards (rc_incentives ctx))"
proof -
  let ?R = "ratio_u64 (inc_available_rewards (rc_incentives ctx))"
  obtain m claims where m: "define_rewards b parse ctx = Some (Inr m)" "claims \<le> 1" "of_nat (pending_lovelace m) \<le> ?R * claims"
    by (rule define_rewards_total [OF assms])
  have "?R * claims \<le> ?R * 1" using m(2) by (intro mult_left_mono) simp_all
  with m(3) have "(of_nat (pending_lovelace m) :: rat) \<le> of_nat (unat (inc_available_rewards (rc_incentives ctx)))"
    unfolding ratio_u64_def by (simp del: of_nat_unat of_nat_le_iff)
  then have "pending_lovelace m \<le> unat (inc_available_rewards (rc_incentives ctx))" by (simp only: of_nat_le_iff)
  with m(1) show ?thesis by blast
qed

definition sample_pool :: pool_params where
  "sample_pool = \<lparr>pp_vrf_keyhash = 0, pp_pledge = 200, pp_cost = 10, pp_margin = \<lparr>numerator = 1, denominator = 10\<rparr>,
     pp_reward_account = [9], pp_pool_owners = [1], pp_relays = [], pp_pool_metadata = None\<rparr>"

definition sample_context :: rewards_context where
  "sample_context =
     \<lparr>rc_incentives = \<lparr>inc_total = 1000, inc_treasury_tax = 200, inc_available_rewards = 800, inc_used_fees = 0\<rparr>,
      rc_pots = pots_default\<lparr>pot_utxos := 2000\<rparr>, rc_pre_allegra = Some False, rc_active_stake = 1000, rc_epoch_blocks = 10,
      rc_pool_blocks = (\<lambda>_. Some 9), rc_pool_stake = (\<lambda>_. 1000),
      rc_account_stake = (\<lambda>_ account. if account = AddrKeyhash 1 then 300 else 700),
      rc_is_account_registered = (\<lambda>_. True), rc_iter_all_pools = [7], rc_pool_params = (\<lambda>_. Some sample_pool),
      rc_pool_delegators = (\<lambda>_. [AddrKeyhash 1, AddrKeyhash 2]),
      rc_pparams = Some [DesiredNumberOfStakePools 2, PoolPledgeInfluence \<lparr>numerator = 3, denominator = 10\<rparr>,
        DecentralizationConstant \<lparr>numerator = 0, denominator = 1\<rparr>],
      rc_live_pledge = (\<lambda>_ _. Some 300), rc_should_include = (\<lambda>_. True)\<rparr>"

abbreviation sample_parse :: "bytes \<Rightarrow> stake_credential option" where
  "sample_parse account \<equiv> Some (AddrKeyhash 1)"

lemma sample_params_fit: "params_fit (rc_pparams sample_context)"
  by (simp add: sample_context_def params_fit_def ensure_k_def ensure_a0_def ensure_d_def ensure_pparam_def pgetter_def pp_get_def)

lemma sample_pool_fits: "pool_fits sample_parse sample_context 7"
  by (simp add: sample_context_def sample_pool_def pool_fits_def)

lemma sample_circulating: "circulating \<lparr>strict = True, overflow_checks = True\<rparr> (rc_pots sample_context) = Some 2000"
  by (simp add: sample_context_def pots_default_def circulating_def max_supply_def obligations_def stake_deposits_def
    raw_add_def raw_sub_def raw_mul_def checked_add_def checked_sub_def checked_mul_def)

lemma sample_context_fits: "context_fits \<lparr>strict = True, overflow_checks = True\<rparr> sample_parse sample_context"
  unfolding context_fits_def sample_circulating
  using sample_params_fit sample_pool_fits by (simp add: sample_context_def)

theorem rewards_within_incentives_witness:
  "\<exists>m. define_rewards \<lparr>strict = True, overflow_checks = True\<rparr> sample_parse sample_context = Some (Inr m) \<and>
     pending_lovelace m \<le> 800"
  using rewards_within_incentives [OF sample_context_fits] by (simp add: sample_context_def)

section \<open>Shard by shard\<close>

text \<open>What a pool's entries do to the reward of one credential.\<close>

definition cell_step :: "build \<Rightarrow> rewards_context \<Rightarrow> pool_hash \<Rightarrow> bool \<Rightarrow> stake_credential \<Rightarrow> stake_credential \<times> u64
    \<Rightarrow> reward option \<Rightarrow> reward option option" where
  "cell_step b ctx pool lead c entry cell =
     (if fst entry \<noteq> c \<or> \<not> rc_should_include ctx c then Some cell
      else do {
        new \<leftarrow> reward_new ctx c (snd entry) pool lead;
        merged \<leftarrow> (case cell of Some prev \<Rightarrow> reward_merge b prev new | None \<Rightarrow> Some new);
        Some (Some merged)
      })"

abbreviation cell :: "reward_map \<Rightarrow> stake_credential \<Rightarrow> reward option" where
  "cell m c \<equiv> map_of (rm_pending m) c"

lemma include_if_cell:
  assumes "include_if b ctx pool lead e m = Some m'"
  shows "cell_step b ctx pool lead c e (cell m c) = Some (cell m' c)"
  using assms by (cases e) (auto simp: include_if_def include_reward_def cell_step_def Let_def AList.delete_conv' panic_simps split: if_splits)

lemma include_if_defined:
  assumes "cell_step b ctx pool lead (fst e) e (cell m (fst e)) \<noteq> None"
  shows "\<exists>m'. include_if b ctx pool lead e m = Some m'"
  using assms by (cases e) (auto simp: include_if_def include_reward_def cell_step_def Let_def panic_simps split: if_splits)

lemma fold_include_cell:
  assumes "fold_opt (include_if b ctx pool lead) es m = Some m'"
  shows "fold_opt (cell_step b ctx pool lead c) es (cell m c) = Some (cell m' c)"
  using assms
proof (induction es arbitrary: m)
  case (Cons e es)
  then obtain m1 where m1: "include_if b ctx pool lead e m = Some m1" "fold_opt (include_if b ctx pool lead) es m1 = Some m'"
    by (auto simp: panic_simps)
  from include_if_cell [OF m1(1)] Cons.IH [OF m1(2)] show ?case by simp
qed simp

lemma fold_include_defined:
  assumes "\<And>c. fold_opt (cell_step b ctx pool lead c) es (cell m c) \<noteq> None"
  shows "\<exists>m'. fold_opt (include_if b ctx pool lead) es m = Some m'"
  using assms
proof (induction es arbitrary: m)
  case (Cons e es)
  have "cell_step b ctx pool lead (fst e) e (cell m (fst e)) \<noteq> None"
    using Cons.prems [of "fst e"] by (auto simp: panic_simps)
  then obtain m1 where m1: "include_if b ctx pool lead e m = Some m1" using include_if_defined by blast
  have "fold_opt (cell_step b ctx pool lead c) es (cell m1 c) \<noteq> None" for c
    using Cons.prems [of c] include_if_cell [OF m1, of c] by simp
  from Cons.IH [OF this] m1 show ?case by simp
qed simp

lemma cell_fold_filter:
  "fold_opt (cell_step b ctx pool lead c) es r = fold_opt (cell_step b ctx pool lead c) (filter (\<lambda>e. fst e = c) es) r"
proof (induction es arbitrary: r)
  case (Cons e es)
  then show ?case by (cases "fst e = c") (auto simp: cell_step_def split: bind_splits)
qed simp


text \<open>A part of a context: the same globals, and for the credentials it includes the same accounts. The
  delegators of a pool may be walked in another order.\<close>

definition part_of :: "rewards_context \<Rightarrow> rewards_context \<Rightarrow> bool" where
  "part_of part full \<longleftrightarrow>
     rc_incentives part = rc_incentives full \<and> rc_pots part = rc_pots full \<and> rc_pre_allegra part = rc_pre_allegra full \<and>
     rc_active_stake part = rc_active_stake full \<and> rc_epoch_blocks part = rc_epoch_blocks full \<and>
     rc_pool_blocks part = rc_pool_blocks full \<and> rc_pool_stake part = rc_pool_stake full \<and>
     rc_iter_all_pools part = rc_iter_all_pools full \<and> rc_pool_params part = rc_pool_params full \<and>
     rc_pparams part = rc_pparams full \<and> rc_live_pledge part = rc_live_pledge full \<and>
     (\<forall>pool. \<forall>d \<in> set (rc_pool_delegators part pool). rc_should_include part d) \<and>
     (\<forall>c. rc_should_include part c \<longrightarrow> rc_should_include full c \<and>
        rc_is_account_registered part c = rc_is_account_registered full c \<and>
        (\<forall>pool. rc_account_stake part pool c = rc_account_stake full pool c \<and>
           filter (\<lambda>d. d = c) (rc_pool_delegators part pool) = filter (\<lambda>d. d = c) (rc_pool_delegators full pool)))"

lemma part_of_cell_step:
  assumes "part_of part full" and "rc_should_include part c"
  shows "cell_step b part pool lead c = cell_step b full pool lead c"
proof -
  have "rc_should_include full c" "rc_is_account_registered part c = rc_is_account_registered full c"
    "rc_pre_allegra part = rc_pre_allegra full"
    using assms by (simp_all add: part_of_def)
  with assms(2) show ?thesis by (intro ext) (simp only: cell_step_def reward_new_def)
qed

lemma filter_one: "filter (\<lambda>x. x = d) (filter P xs) = (if P d then filter (\<lambda>x. x = d) xs else [])"
  by (induction xs) auto

definition restricted :: "rewards_context \<Rightarrow> reward_map \<Rightarrow> reward_map \<Rightarrow> bool" where
  "restricted part m m' \<longleftrightarrow> (\<forall>c. cell m' c = (if rc_should_include part c then cell m c else None))"

lemma fold_include_restricted:
  assumes part: "part_of part full" and full: "fold_opt (include_if b full pool lead) es m = Some m1"
    and m: "restricted part m m'"
    and es: "\<And>c. rc_should_include part c \<Longrightarrow> filter (\<lambda>e. fst e = c) es' = filter (\<lambda>e. fst e = c) es"
  obtains m1' where "fold_opt (include_if b part pool lead) es' m' = Some m1'" and "restricted part m1 m1'"
proof -
  have run: "fold_opt (cell_step b part pool lead c) es' (cell m' c) = Some (if rc_should_include part c then cell m1 c else None)" for c
  proof (cases "rc_should_include part c")
    case True
    then have "fold_opt (cell_step b part pool lead c) es' (cell m' c) = fold_opt (cell_step b full pool lead c) es (cell m c)"
      using m cell_fold_filter [of b full pool lead c es] cell_fold_filter [of b full pool lead c es'] es
      by (simp add: restricted_def part_of_cell_step [OF part])
    with fold_include_cell [OF full, of c] True show ?thesis by simp
  next
    case False
    then have "fold_opt (cell_step b part pool lead c) es' r = Some r" for r
      by (induction es') (simp_all add: cell_step_def)
    with False m show ?thesis by (simp add: restricted_def)
  qed
  then obtain m1' where m1': "fold_opt (include_if b part pool lead) es' m' = Some m1'"
    using fold_include_defined by (metis option.distinct(1))
  moreover have "restricted part m1 m1'"
    using run fold_include_cell [OF m1'] by (simp add: restricted_def)
  ultimately show thesis by (rule that)
qed

lemma filter_entries:
  assumes "map fst es = ds" and "list_all (\<lambda>(d, v). f d = Some v) es"
  shows "filter (\<lambda>e. fst e = c) es = map (\<lambda>d. (d, the (f d))) (filter (\<lambda>d. d = c) ds)"
  using assms(2) unfolding assms(1) [symmetric] by (induction es) auto

lemma entries_exist:
  assumes "list_all (\<lambda>d. f d \<noteq> None) ds"
  shows "\<exists>es. map fst es = ds \<and> list_all (\<lambda>(d, v). f d = Some v) es"
  using assms by (intro exI [of _ "map (\<lambda>d. (d, the (f d))) ds"]) (auto simp: list_all_iff comp_def)

lemma chunk_restricted:
  assumes part: "part_of part full"
    and full: "compute_delegator_chunk b full pool r s circ c mg owners bab (rc_pool_delegators full pool) = Some es"
  obtains es' where "compute_delegator_chunk b part pool r s circ c mg owners bab (rc_pool_delegators part pool) = Some es'"
    and "\<forall>x. rc_should_include part x \<longrightarrow> filter (\<lambda>e. fst e = x) es' = filter (\<lambda>e. fst e = x) es"
proof -
  let ?f = "\<lambda>d. delegator_reward b r (rc_account_stake part pool d) s circ c mg"
  let ?g = "\<lambda>d. delegator_reward b r (rc_account_stake full pool d) s circ c mg"
  let ?ds' = "filter (rewarded part owners bab) (rc_pool_delegators part pool)"
  let ?ds = "filter (rewarded full owners bab) (rc_pool_delegators full pool)"
  from full have es: "map fst es = ?ds" "list_all (\<lambda>(d, v). ?g d = Some v) es" by (simp_all add: delegator_chunk_iff)
  have fg: "?f d = ?g d" "rewarded part owners bab d = rewarded full owners bab d"
      "filter (\<lambda>x. x = d) ?ds' = filter (\<lambda>x. x = d) ?ds" if "rc_should_include part d" for d
  proof -
    from part that have "rc_account_stake part pool d = rc_account_stake full pool d"
      "rc_is_account_registered part d = rc_is_account_registered full d"
      "filter (\<lambda>x. x = d) (rc_pool_delegators part pool) = filter (\<lambda>x. x = d) (rc_pool_delegators full pool)"
      by (simp_all add: part_of_def)
    then show "?f d = ?g d" "rewarded part owners bab d = rewarded full owners bab d"
      "filter (\<lambda>x. x = d) ?ds' = filter (\<lambda>x. x = d) ?ds"
      unfolding filter_one by simp_all
  qed
  have "?f d \<noteq> None" if d: "d \<in> set ?ds'" for d
  proof -
    have incl: "rc_should_include part d" using part d by (auto simp: part_of_def)
    have "d \<in> set (filter (\<lambda>x. x = d) ?ds')" using d by simp
    then have "d \<in> set (map fst es)" unfolding fg(3) [OF incl] es(1) by simp
    then show ?thesis using es(2) fg(1) [OF incl] by (auto simp: list_all_iff)
  qed
  then obtain es' where es': "map fst es' = ?ds'" "list_all (\<lambda>(d, v). ?f d = Some v) es'"
    using entries_exist [of ?f ?ds'] by (auto simp: list_all_iff)
  show thesis
  proof (rule that)
    show "compute_delegator_chunk b part pool r s circ c mg owners bab (rc_pool_delegators part pool) = Some es'"
      using es' by (simp add: delegator_chunk_iff)
    have "filter (\<lambda>e. fst e = x) es' = filter (\<lambda>e. fst e = x) es" if x: "rc_should_include part x" for x
      unfolding filter_entries [OF es'] filter_entries [OF es] fg(3) [OF x]
      using fg(1) [OF x] by (intro map_cong) auto
    then show "\<forall>x. rc_should_include part x \<longrightarrow> filter (\<lambda>e. fst e = x) es' = filter (\<lambda>e. fst e = x) es" by blast
  qed
qed


lemma operator_restricted:
  assumes part: "part_of part full" and m: "restricted part m m'"
    and full: "(if bab \<or> rc_is_account_registered full acc then include_if b full pool True (acc, x) m else Some m) = Some m1"
  obtains m1' where "(if bab \<or> rc_is_account_registered part acc then include_if b part pool True (acc, x) m' else Some m') = Some m1'"
    and "restricted part m1 m1'"
proof -
  let ?es = "\<lambda>ctx. if bab \<or> rc_is_account_registered ctx acc then [(acc, x)] else []"
  have run: "(if bab \<or> rc_is_account_registered ctx acc then include_if b ctx pool True (acc, x) m else Some m) =
      fold_opt (include_if b ctx pool True) (?es ctx) m" for ctx m
    by (cases "include_if b ctx pool True (acc, x) m") simp_all
  have es: "filter (\<lambda>e. fst e = c) (?es part) = filter (\<lambda>e. fst e = c) (?es full)" if "rc_should_include part c" for c
    using part that by (cases "acc = c") (auto simp: part_of_def)
  from fold_include_restricted [OF part full [unfolded run] m es] that show thesis unfolding run by blast
qed

lemma pool_restricted:
  assumes part: "part_of part full" and m: "restricted part m m'"
    and full: "define_pool_rewards b parse full pool m = Some (Inr m1)"
  shows "\<exists>m1'. define_pool_rewards b parse part pool m' = Some (Inr m1') \<and> restricted part m1 m1'"
proof -
  have same: "rc_incentives part = rc_incentives full" "rc_pots part = rc_pots full" "rc_active_stake part = rc_active_stake full"
      "rc_epoch_blocks part = rc_epoch_blocks full" "rc_pool_blocks part = rc_pool_blocks full" "rc_pool_stake part = rc_pool_stake full"
      "rc_pool_params part = rc_pool_params full" "rc_pparams part = rc_pparams full" "rc_live_pledge part = rc_live_pledge full"
    using part by (simp_all add: part_of_def)
  from full obtain params acc live circ n where head: "rc_pool_params full pool = Some params"
      "parse (pp_reward_account params) = Some acc" "rc_live_pledge full pool (map AddrKeyhash (pp_pool_owners params)) = Some live"
      "circulating b (rc_pots full) = Some circ" "rc_pool_blocks full pool = Some n"
    by (auto simp: define_pool_rewards_def Let_def panic_simps)
  show ?thesis
  proof (cases "n = 0")
    case True
    with full head have "m1 = m" by (simp add: define_pool_rewards_def Let_def)
    with True head m show ?thesis by (simp add: define_pool_rewards_def Let_def same)
  next
    case False
    with full head obtain pp k a0 d a0r dr r mg x major m2 es where run: "rc_pparams full = Some pp"
        "ensure_k pp = Some (Inr k)" "ensure_a0 pp = Some (Inr a0)" "ensure_d pp = Some (Inr d)" "pallas_ratio a0 = Some a0r"
        "pallas_ratio d = Some dr" "pool_rewards (inc_available_rewards (rc_incentives full)) circ (rc_active_stake full)
           (rc_pool_stake full pool) (pp_pledge params) live k a0r dr n (rc_epoch_blocks full) = Some r"
        "pallas_ratio (pp_margin params) = Some mg"
        "pool_operator_share b r (pp_cost params) mg (rc_pool_stake full pool) live circ = Some x"
        "protocol_major_or_default pp = Some major"
      and op: "(if 7 \<le> major \<or> rc_is_account_registered full acc then include_if b full pool True (acc, x) m else Some m) = Some m2"
      and es: "compute_delegator_chunk b full pool r (rc_pool_stake full pool) circ (pp_cost params) mg
           (map AddrKeyhash (pp_pool_owners params)) (7 \<le> major) (rc_pool_delegators full pool) = Some es"
      and members: "fold_opt (include_if b full pool False) es m2 = Some m1"
      by (simp add: define_pool_rewards_def Let_def collect_delegators panic_simps) blast
    obtain m2' where m2': "(if 7 \<le> major \<or> rc_is_account_registered part acc then include_if b part pool True (acc, x) m' else Some m') = Some m2'"
        "restricted part m2 m2'" by (rule operator_restricted [OF part m op])
    obtain es' where es': "compute_delegator_chunk b part pool r (rc_pool_stake full pool) circ (pp_cost params) mg
           (map AddrKeyhash (pp_pool_owners params)) (7 \<le> major) (rc_pool_delegators part pool) = Some es'"
        "\<forall>c. rc_should_include part c \<longrightarrow> filter (\<lambda>e. fst e = c) es' = filter (\<lambda>e. fst e = c) es"
      by (rule chunk_restricted [OF part es])
    obtain m1' where m1': "fold_opt (include_if b part pool False) es' m2' = Some m1'" "restricted part m1 m1'"
      by (rule fold_include_restricted [OF part members m2'(2) es'(2) [rule_format]])
    from False head run m2'(1) es'(1) m1' show ?thesis
      by (simp add: define_pool_rewards_def Let_def same collect_delegators)
  qed
qed

lemma shard_rewards_restricted:
  assumes "part_of part full" and "define_rewards b parse full = Some (Inr m)"
  shows "\<exists>m'. define_rewards b parse part = Some (Inr m') \<and> restricted part m m'"
proof -
  have same: "rc_iter_all_pools part = rc_iter_all_pools full" "rc_incentives part = rc_incentives full"
    using assms(1) by (simp_all add: part_of_def)
  have "restricted part (reward_map_new i) (reward_map_new i)" for i
    by (simp add: restricted_def reward_map_new_def from_pending_def)
  then show ?thesis
    using assms unfolding define_rewards_def same by (intro try_fold_simulates [where R = "restricted part"]) (auto intro: pool_restricted)
qed

text \<open>C9. Rewards computed shard by shard. When a context holds a part of the accounts, with the globals
  of the full context (pool stake, live pledge, blocks and parameters over all accounts) and the
  accounts of the credentials it includes, and the rewards of the full context are defined, then those
  of the part are too: every credential of the part has the reward the full computation gives it,
  every other credential has none, in whatever order the delegators are walked.\<close>

theorem shard_rewards_agree:
  assumes "part_of part full" and "define_rewards b parse full = Some (Inr m)"
  shows "\<exists>m'. define_rewards b parse part = Some (Inr m') \<and>
    (\<forall>c. cell m' c = (if rc_should_include part c then cell m c else None))"
  using shard_rewards_restricted [OF assms] by (simp add: restricted_def)

definition sample_part :: rewards_context where
  "sample_part = sample_context\<lparr>rc_should_include := (\<lambda>c. c = AddrKeyhash 2), rc_pool_delegators := (\<lambda>_. [AddrKeyhash 2])\<rparr>"

theorem shard_rewards_agree_witness:
  "\<exists>m m'. define_rewards \<lparr>strict = True, overflow_checks = True\<rparr> sample_parse sample_context = Some (Inr m) \<and>
     define_rewards \<lparr>strict = True, overflow_checks = True\<rparr> sample_parse sample_part = Some (Inr m') \<and>
     cell m' (AddrKeyhash 2) = cell m (AddrKeyhash 2) \<and> cell m' (AddrKeyhash 1) = None"
proof -
  obtain m where m: "define_rewards \<lparr>strict = True, overflow_checks = True\<rparr> sample_parse sample_context = Some (Inr m)"
    using define_rewards_total [OF sample_context_fits] by blast
  have "part_of sample_part sample_context"
    unfolding part_of_def by (simp add: sample_part_def) (simp add: sample_context_def)
  from shard_rewards_agree [OF this m] m show ?thesis by (auto simp: sample_part_def)
qed

section \<open>Applying the rewards\<close>

text \<open>The lovelace a reward map accounts for: what it has applied, returned and still holds.\<close>

definition booked :: "reward_map \<Rightarrow> nat" where
  "booked m = unat (rm_applied_effective m) + unat (rm_applied_unspendable_to_treasury m) +
     unat (rm_applied_unspendable_to_reserves m) + pending_lovelace m"

lemma reward_value_exact:
  assumes "reward_lovelace r < 2 ^ 64"
  obtains v where "reward_value b r = Some v" and "unat v = reward_lovelace r"
proof (cases r)
  case (MultiPool x)
  let ?l = "map snd (mr_as_leader x)" and ?d = "map snd (mr_as_delegator x)"
  have total: "reward_lovelace r = sum_list (map unat ?l) + sum_list (map unat ?d)" by (simp add: MultiPool comp_def)
  obtain l d where ld: "sum_raw b 0 ?l = Some l" "unat l = sum_list (map unat ?l)" "sum_raw b 0 ?d = Some d" "unat d = sum_list (map unat ?d)"
    using assms total sum_raw_exact [of 0 ?l b] sum_raw_exact [of 0 ?d b] by auto
  with assms total raw_add_fits [of l d b] MultiPool show ?thesis by (intro that [of "l + d"]) (simp_all add: multi_pool_total_value_def)
qed (use that in simp)

lemma pending_at: "map_of (rm_pending m) c = Some r \<Longrightarrow> reward_lovelace r \<le> pending_lovelace m"
  unfolding pending_lovelace_def by (intro member_le_sum_list) (auto dest!: map_of_SomeD intro: rev_image_eqI)

lemma pending_cells:
  assumes "distinct (map fst (rm_pending m))"
  shows "pending_lovelace m = sum_list (map (reward_lovelace \<circ> snd) (AList.delete c (rm_pending m))) +
    (case cell m c of None \<Rightarrow> 0 | Some r \<Rightarrow> reward_lovelace r)"
  unfolding pending_lovelace_def by (rule sum_delete [OF assms])

lemma take_for_apply_books:
  assumes "distinct (map fst (rm_pending m))" and "booked m < 2 ^ 64"
  obtains m' where "take_for_apply b c m = Some (cell m c, m')" and "booked m' = booked m"
    and "rm_pending m' = AList.delete c (rm_pending m)"
    and "case cell m c of None \<Rightarrow> m' = m | Some r \<Rightarrow> reward_lovelace r \<le> unat (rm_applied_effective m')"
proof (cases "cell m c")
  case None
  then have "AList.delete c (rm_pending m) = rm_pending m" by (intro delete_id) (simp add: map_of_eq_None_iff)
  with None show thesis by (intro that [of m]) (simp_all add: take_for_apply_def)
next
  case (Some r)
  from pending_at [OF Some] assms(2) obtain v where v: "reward_value b r = Some v" "unat v = reward_lovelace r"
    using reward_value_exact [of r b] by (auto simp: booked_def)
  let ?e = "rm_applied_effective m + v"
  let ?m = "m\<lparr>rm_pending := AList.delete c (rm_pending m), rm_applied_effective := ?e\<rparr>"
  have split: "pending_lovelace m = pending_lovelace ?m + reward_lovelace r"
    using pending_cells [OF assms(1), of c] Some by (simp add: pending_lovelace_def)
  then have "raw_add b (rm_applied_effective m) v = Some ?e" and e: "unat ?e = unat (rm_applied_effective m) + unat v"
    using raw_add_fits [of "rm_applied_effective m" v b] assms(2) v(2) by (auto simp: booked_def)
  then have "take_for_apply b c m = Some (cell m c, ?m)" using Some v(1) by (simp add: take_for_apply_def)
  moreover have "booked ?m = booked m" using split e v(2) by (simp add: booked_def)
  ultimately show thesis using Some e v(2) by (intro that [of ?m]) simp_all
qed

lemma return_to_treasury_books:
  assumes "unat x \<le> unat (rm_applied_effective m)" and "booked m < 2 ^ 64"
  obtains m' where "return_reward_to_treasury b x m = Some m'" and "booked m' = booked m" and "rm_pending m' = rm_pending m"
proof -
  obtain e where e: "sub_m b (rm_applied_effective m) x = Some e" "unat e + unat x = unat (rm_applied_effective m)"
    using sub_m_exact [OF assms(1)] by metis
  have "unat (rm_applied_unspendable_to_treasury m) + unat x < 2 ^ LENGTH(64)" using assms by (simp add: booked_def)
  then obtain t where t: "add_m b (rm_applied_unspendable_to_treasury m) x = Some t"
      "unat t = unat (rm_applied_unspendable_to_treasury m) + unat x" by (rule add_m_exact)
  with e show thesis
    by (intro that [of "m\<lparr>rm_applied_effective := e, rm_applied_unspendable_to_treasury := t\<rparr>"])
      (auto simp: return_reward_to_treasury_def booked_def pending_lovelace_def)
qed

lemma drain_entries_books:
  assumes "\<And>r v m. r \<in> snd ` set es \<Longrightarrow> booked m + unat v < 2 ^ 64 \<Longrightarrow>
      \<exists>m'. book r v m = Some m' \<and> booked m' = booked m + unat v \<and> rm_pending m' = rm_pending m"
    and "booked m + sum_list (map (reward_lovelace \<circ> snd) es) < 2 ^ 64"
  shows "\<exists>m'. drain_entries b book es m = Some m' \<and> rm_pending m' = rm_pending m \<and>
    booked m' = booked m + sum_list (map (reward_lovelace \<circ> snd) es)"
  using assms
proof (induction es arbitrary: m)
  case (Cons e es)
  obtain c r where e: "e = (c, r)" by (cases e)
  from Cons.prems(2) obtain v where v: "reward_value b r = Some v" "unat v = reward_lovelace r"
    using reward_value_exact [of r b] by (auto simp: e)
  with Cons.prems obtain m1 where m1: "book r v m = Some m1" "booked m1 = booked m + reward_lovelace r" "rm_pending m1 = rm_pending m"
    using Cons.prems(1) [of r m v] by (auto simp: e)
  have "booked m1 + sum_list (map (reward_lovelace \<circ> snd) es) < 2 ^ 64" using Cons.prems(2) m1(2) by (simp add: e comp_def)
  from Cons.IH [OF Cons.prems(1) this] v m1 show ?case by (auto simp: e)
qed simp

lemma book_exact:
  assumes "booked m + unat v < 2 ^ 64"
  shows "\<exists>m'. book_treasury b v m = Some m' \<and> booked m' = booked m + unat v \<and> rm_pending m' = rm_pending m"
    and "\<exists>m'. book_reserves b v m = Some m' \<and> booked m' = booked m + unat v \<and> rm_pending m' = rm_pending m"
    and "\<exists>m'. book_effective b v m = Some m' \<and> booked m' = booked m + unat v \<and> rm_pending m' = rm_pending m"
  using assms raw_add_fits [of "rm_applied_unspendable_to_treasury m" v b] raw_add_fits [of "rm_applied_unspendable_to_reserves m" v b]
    raw_add_fits [of "rm_applied_effective m" v b]
  by (auto simp: booked_def pending_lovelace_def book_treasury_def book_reserves_def book_effective_def)

lemma sum_filter_split:
  fixes g :: "'a \<Rightarrow> nat"
  shows "sum_list (map g xs) = sum_list (map g (filter P xs)) + sum_list (map g (filter (\<lambda>x. \<not> P x) xs))"
  by (induction xs) auto

lemma drain_unspendable_books:
  assumes "booked m < 2 ^ 64"
  obtains m' where "drain_unspendable b to_reserves m =
      Some (map fst (filter (\<lambda>(_, r). \<not> reward_is_spendable r) (rm_pending m)), m')"
    and "booked m' = booked m" and "rm_pending m' = filter (\<lambda>(_, r). reward_is_spendable r) (rm_pending m)"
proof -
  let ?un = "filter (\<lambda>(_, r). \<not> reward_is_spendable r) (rm_pending m)"
  let ?m = "m\<lparr>rm_pending := filter (\<lambda>(_, r). reward_is_spendable r) (rm_pending m)\<rparr>"
  have split: "booked m = booked ?m + sum_list (map (reward_lovelace \<circ> snd) ?un)"
    using sum_filter_split [of "reward_lovelace \<circ> snd" "rm_pending m" "\<lambda>(_, r). reward_is_spendable r"]
    by (simp add: booked_def pending_lovelace_def case_prod_unfold)
  have book: "\<exists>m'. (if to_reserves then book_reserves b else book_treasury b) v m = Some m' \<and>
      booked m' = booked m + unat v \<and> rm_pending m' = rm_pending m" if "booked m + unat v < 2 ^ 64" for v m
    using book_exact [OF that] by simp
  obtain m' where "drain_entries b (\<lambda>_. if to_reserves then book_reserves b else book_treasury b) ?un ?m = Some m'"
      "rm_pending m' = rm_pending ?m" "booked m' = booked ?m + sum_list (map (reward_lovelace \<circ> snd) ?un)"
    using drain_entries_books [OF book, of ?un ?m b] assms split by auto
  with split show thesis by (intro that [of m']) (simp_all add: drain_unspendable_def Let_def)
qed

lemma drain_all_books:
  assumes "booked m < 2 ^ 64"
  obtains m' where "drain_all b m = Some m'" and "booked m' = booked m" and "rm_pending m' = []"
proof -
  let ?book = "\<lambda>r. if reward_is_spendable r then book_effective b else book_treasury b"
  have book: "\<exists>m'. ?book r v m = Some m' \<and> booked m' = booked m + unat v \<and> rm_pending m' = rm_pending m"
    if "booked m + unat v < 2 ^ 64" for r v m
    using book_exact [OF that] by simp
  have split: "booked m = booked (m\<lparr>rm_pending := []\<rparr>) + sum_list (map (reward_lovelace \<circ> snd) (rm_pending m))"
    by (simp add: booked_def pending_lovelace_def)
  from drain_entries_books [where book = ?book and b = b, OF book, of "rm_pending m" "m\<lparr>rm_pending := []\<rparr>"] assms split that
  show thesis by (auto simp: drain_all_def)
qed

end
