(* ===== verification/Typed_Store.thy ===== *)
theory Typed_Store
  imports Cardano_Delta Memory_State Fallible Eras Sync
begin

text \<open>
  The typed reads of the state store (\<^verbatim>\<open>StateStore::iter_entities_typed\<close> and
  \<^verbatim>\<open>read_entity_typed\<close> of \<^verbatim>\<open>crates/core/src/state.rs\<close>) on the tables of entities,
  the singletons the boundary work units start from, and the keys of log rows
  (\<^verbatim>\<open>crates/core/src/archive.rs\<close>). A row is decoded when an iterator reaches it: a row of
  another type is an error there, and what the loop did before is kept.
\<close>

type_synonym key_range = "entity_key \<times> entity_key"
type_synonym store = "cardano_entity tables"

definition full_range :: key_range where
  "full_range = (replicate key_size 0, replicate key_size 255)"

definition typed_rows :: "(cardano_entity \<Rightarrow> 'a option) \<Rightarrow> store \<Rightarrow> namespace \<Rightarrow> key_range option \<Rightarrow> (entity_key \<times> 'a option) list" where
  "typed_rows from t ns bounds = (let (start, stop) = (case bounds of Some r \<Rightarrow> r | None \<Rightarrow> full_range) in
     map (apsnd from) (iter_entities t ns start stop))"

abbreviation decode_error :: chain_error where
  "decode_error \<equiv> ChainStateError (EntityDecodingError '''')"

definition each_row :: "(entity_key \<Rightarrow> 'a \<Rightarrow> 's \<Rightarrow> (chain_error, 's) fallible) \<Rightarrow> entity_key \<times> 'a option \<Rightarrow> 's \<Rightarrow> (chain_error, 's) fallible" where
  "each_row body row s = (case snd row of None \<Rightarrow> Some (Inl decode_error) | Some x \<Rightarrow> body (fst row) x s)"

definition read_typed :: "(cardano_entity \<Rightarrow> 'a option) \<Rightarrow> store \<Rightarrow> ns_key \<Rightarrow> state_error + 'a option" where
  "read_typed from t key = (case tbl_get (t_entities t) key of
     None \<Rightarrow> Inr None
   | Some e \<Rightarrow> (case from e of None \<Rightarrow> Inl (EntityDecodingError '''') | Some x \<Rightarrow> Inr (Some x)))"

definition load_epoch :: "store \<Rightarrow> chain_error + epoch_state" where
  "load_epoch t = (case read_typed from_epoch t epoch_singleton_key of
     Inl err \<Rightarrow> Inl (ChainStateError err) | Inr None \<Rightarrow> Inl NoActiveEpoch | Inr (Some e) \<Rightarrow> Inr e)"

definition load_gov :: "store \<Rightarrow> chain_error + gov_state" where
  "load_gov t = (case read_typed from_gov t gov_singleton_key of
     Inl err \<Rightarrow> Inl (ChainStateError err) | Inr None \<Rightarrow> Inl MissingGovState | Inr (Some g) \<Rightarrow> Inr g)"

definition read_era_summary :: "store \<Rightarrow> chain_error + chain_summary" where
  "read_era_summary t = (case load_era_summary (typed_rows from_era t era_ns None) of
     None \<Rightarrow> Inl decode_error | Some chain \<Rightarrow> Inr chain)"

section \<open>Log keys\<close>

type_synonym log_key = bytes

definition temporal_key :: "block_slot \<Rightarrow> bytes" where
  "temporal_key slot = word_bytes slot"

definition log_key_of :: "bytes \<Rightarrow> entity_key \<Rightarrow> log_key" where
  "log_key_of temporal entity = temporal @ entity"

section \<open>Reads\<close>

text \<open>The rows of a namespace, its bounds aside.\<close>

definition ns_rows :: "store \<Rightarrow> namespace \<Rightarrow> (entity_key \<times> cardano_entity) list" where
  "ns_rows t ns = map (\<lambda>((_, k), e). (k, e)) (filter (\<lambda>((n, _), _). n = ns) (t_entities t))"

lemma typed_rows_bounded:
  assumes "\<not> hi < lo"
  shows "typed_rows from t ns (Some (lo, hi)) = map (apsnd from) (filter (\<lambda>(k, _). lo \<le> k \<and> k < hi) (ns_rows t ns))"
proof -
  have "filter (\<lambda>(k, _). (ns, lo) \<le> k \<and> k < (ns, hi)) es =
      filter (\<lambda>((n, k), _). n = ns \<and> lo \<le> k \<and> k < hi) es" for es :: "(ns_key \<times> cardano_entity) list"
    by (intro filter_cong) auto
  with assms show ?thesis
    by (simp add: typed_rows_def iter_entities_def ns_rows_def filter_map comp_def case_prod_unfold conj_ac)
qed

lemma typed_rows_None: "typed_rows from t ns None = typed_rows from t ns (Some full_range)"
  by (simp add: typed_rows_def)

lemma typed_rows_within:
  assumes "replicate key_size 0 \<le> lo" and "hi \<le> replicate key_size 255"
  shows "typed_rows from t ns (Some (lo, hi)) = filter (\<lambda>(k, _). lo \<le> k \<and> k < hi) (typed_rows from t ns None)"
proof (cases "hi < lo")
  case True
  then have "\<not> (lo \<le> k \<and> k < hi)" for k by auto
  with True show ?thesis by (simp add: typed_rows_def iter_entities_def case_prod_unfold)
next
  case False
  have full: "\<not> replicate key_size 255 < (replicate key_size 0 :: bytes)" by (simp add: key_size_def numeral_eq_Suc)
  show ?thesis
    unfolding typed_rows_None full_range_def typed_rows_bounded [OF False] typed_rows_bounded [OF full]
    using assms by (auto simp: filter_map comp_def case_prod_unfold intro!: arg_cong [where f = "map _"] filter_cong)
qed

lemma ns_rows_distinct:
  assumes "tables_ok t"
  shows "distinct (map fst (ns_rows t ns))"
proof -
  from assms have "distinct (map fst (t_entities t))" by (simp add: tables_ok_def tbl_ok_distinct)
  then have "distinct (map fst (filter (\<lambda>((n, _), _). n = ns) (t_entities t)))" by (rule distinct_map_filter)
  then have "distinct (map snd (map fst (filter (\<lambda>((n, _), _). n = ns) (t_entities t))))"
    by (auto simp: distinct_map inj_on_def)
  then show ?thesis by (simp add: ns_rows_def comp_def case_prod_unfold)
qed

lemma typed_rows_distinct:
  assumes "tables_ok t"
  shows "distinct (map fst (typed_rows from t ns None))"
proof -
  have full: "\<not> replicate key_size 255 < (replicate key_size 0 :: bytes)" by (simp add: key_size_def numeral_eq_Suc)
  show ?thesis
    unfolding typed_rows_None full_range_def typed_rows_bounded [OF full]
    using distinct_map_filter [OF ns_rows_distinct [OF assms, of ns]] by (simp add: comp_def)
qed

text \<open>A commit leaves the rows of the namespaces it does not write.\<close>

fun op_ns :: "cardano_entity op \<Rightarrow> namespace option" where
  "op_ns (WriteEntity ns _ _) = Some ns"
| "op_ns (DeleteEntity ns _) = Some ns"
| "op_ns _ = None"

lemma filter_tbl_insert: "\<not> P k \<Longrightarrow> filter (\<lambda>(k, _). P k) (tbl_insert k v t) = filter (\<lambda>(k, _). P k) t"
  by (induction t) auto

lemma filter_tbl_remove: "\<not> P k \<Longrightarrow> filter (\<lambda>(k, _). P k) (tbl_remove k t) = filter (\<lambda>(k, _). P k) t"
  by (induction t) (auto simp: tbl_remove_def tbl_retain_def)

lemma filter_ns: "filter (\<lambda>((n, _), _). n = ns) es = filter (\<lambda>(k, _). fst k = ns) es"
  by (intro filter_cong) auto

lemma ns_rows_commit_op:
  assumes "op_ns op \<noteq> Some ns"
  shows "ns_rows (commit_op op t) ns = ns_rows t ns"
  using assms unfolding ns_rows_def filter_ns
  by (cases op) (simp_all add: commit_op.simps filter_tbl_insert filter_tbl_remove)

lemma ns_rows_commit:
  assumes "\<forall>op \<in> set ops. op_ns op \<noteq> Some ns"
  shows "ns_rows (commit ops t) ns = ns_rows t ns"
  using assms by (induction ops arbitrary: t) (simp_all add: ns_rows_commit_op)

lemma typed_rows_cong:
  assumes "ns_rows t ns = ns_rows u ns"
  shows "typed_rows from t ns bounds = typed_rows from u ns bounds"
proof (cases "case bounds of Some r \<Rightarrow> r | None \<Rightarrow> full_range")
  case (Pair lo hi)
  then have "typed_rows from w ns bounds = typed_rows from w ns (Some (lo, hi))" for w by (simp add: typed_rows_def)
  moreover have "typed_rows from t ns (Some (lo, hi)) = typed_rows from u ns (Some (lo, hi))"
  proof (cases "hi < lo")
    case False
    with assms show ?thesis unfolding typed_rows_bounded [OF False] by simp
  qed (simp add: typed_rows_def iter_entities_def)
  ultimately show ?thesis by simp
qed

lemma typed_rows_commit:
  assumes "\<forall>op \<in> set ops. op_ns op \<noteq> Some ns"
  shows "typed_rows from (commit ops t) ns bounds = typed_rows from t ns bounds"
  by (intro typed_rows_cong ns_rows_commit assms)

end
