(* ===== verification/Rupd.thy ===== *)
theory Rupd
  imports Rewards Typed_Store Shards Work_Unit Logs
begin

text \<open>
  The reward update (\<^verbatim>\<open>crates/cardano/src/rupd\<close>): the stake snapshot, its globals over
  every pool and account and its per-account half for one shard, the context of the reward computation,
  and the sharded work unit with its phases. The fields of the Shelley genesis file the update reads,
  the CBOR form of a credential, the hexadecimal form of a hash, the reading of a reward account and the
  approximation of a float are in the environment. The theory shows that a shard's update computes what
  the update over all accounts would, and that an interrupted update goes on to the same result.
\<close>

record rupd_env =
  re_build :: build
  re_enc :: cred_codec
  re_hex :: "bytes \<Rightarrow> string"
  re_parse_reward_account :: "bytes \<Rightarrow> stake_credential option"
  re_approximate_float :: "f32 \<Rightarrow> (int \<times> int) option"
  re_active_slots_coeff :: "f32 option"
  re_max_lovelace_supply :: "u64 option"

section \<open>The stake snapshot\<close>

type_synonym delegator_map = "(pool_hash \<times> (stake_credential \<times> u64) list) list"

definition delegators_insert :: "pool_hash \<Rightarrow> stake_credential \<Rightarrow> u64 \<Rightarrow> delegator_map \<Rightarrow> delegator_map" where
  "delegators_insert pool account stake m =
     AList.update pool (AList.update account stake (case map_of m pool of Some d \<Rightarrow> d | None \<Rightarrow> [])) m"

definition get_stake :: "delegator_map \<Rightarrow> pool_hash \<Rightarrow> stake_credential \<Rightarrow> u64" where
  "get_stake m pool account =
     (case map_of m pool of None \<Rightarrow> 0 | Some for_pool \<Rightarrow> (case map_of for_pool account of Some x \<Rightarrow> x | None \<Rightarrow> 0))"

definition iter_delegators :: "delegator_map \<Rightarrow> pool_hash \<Rightarrow> (stake_credential \<times> u64) list" where
  "iter_delegators m pool = (case map_of m pool of Some d \<Rightarrow> d | None \<Rightarrow> [])"

record stake_snapshot =
  ss_active_stake_sum :: u64
  ss_accounts_by_pool :: delegator_map
  ss_registered_accounts :: "stake_credential set"
  ss_pools :: "(pool_hash \<times> pool_snapshot epoch_value) list"
  ss_pool_stake :: "(pool_hash \<times> u64) list"
  ss_pool_delegator_counts :: "(pool_hash \<times> u64) list"
  ss_pool_live_pledges :: "(pool_hash \<times> u64) list"
  ss_performance_epoch_pool_blocks :: u64

definition snapshot_default :: stake_snapshot where
  "snapshot_default = \<lparr>ss_active_stake_sum = 0, ss_accounts_by_pool = [], ss_registered_accounts = {}, ss_pools = [],
     ss_pool_stake = [], ss_pool_delegator_counts = [], ss_pool_live_pledges = [], ss_performance_epoch_pool_blocks = 0\<rparr>"

abbreviation lookup_or_0 :: "('k \<times> u64) list \<Rightarrow> 'k \<Rightarrow> u64" where
  "lookup_or_0 m k \<equiv> (case map_of m k of Some x \<Rightarrow> x | None \<Rightarrow> 0)"

definition get_pool_stake :: "stake_snapshot \<Rightarrow> pool_hash \<Rightarrow> u64" where
  "get_pool_stake s pool = lookup_or_0 (ss_pool_stake s) pool"

definition get_pool_delegator_count :: "stake_snapshot \<Rightarrow> pool_hash \<Rightarrow> u64" where
  "get_pool_delegator_count s pool = lookup_or_0 (ss_pool_delegator_counts s) pool"

definition track_stake :: "build \<Rightarrow> stake_credential \<Rightarrow> pool_hash \<Rightarrow> u64 \<Rightarrow> bool \<Rightarrow> stake_snapshot \<Rightarrow> stake_snapshot option" where
  "track_stake b account pool stake retain s = do {
     total \<leftarrow> (case map_of (ss_pool_stake s) pool of Some x \<Rightarrow> raw_add b x stake | None \<Rightarrow> Some stake);
     count \<leftarrow> (case map_of (ss_pool_delegator_counts s) pool of Some x \<Rightarrow> raw_add b x 1 | None \<Rightarrow> Some 1);
     active \<leftarrow> raw_add b (ss_active_stake_sum s) stake;
     Some (s\<lparr>ss_pool_stake := AList.update pool total (ss_pool_stake s),
       ss_pool_delegator_counts := AList.update pool count (ss_pool_delegator_counts s),
       ss_active_stake_sum := active,
       ss_accounts_by_pool := (if retain then delegators_insert pool account stake (ss_accounts_by_pool s)
         else ss_accounts_by_pool s)\<rparr>)
   }"

definition ensure_pool_aligned :: "(bytes \<Rightarrow> string) \<Rightarrow> pool_hash \<Rightarrow> pool_snapshot epoch_value \<Rightarrow> epoch \<Rightarrow> chain_error + unit" where
  "ensure_pool_aligned hex operator snapshot current_epoch =
     (if is_at_epoch snapshot current_epoch then Inr ()
      else Inl (PoolSnapshotLagging (hex (word_bytes operator)) (ev_epoch_of snapshot) current_epoch))"

definition visit_snapshot_pool :: "build \<Rightarrow> (bytes \<Rightarrow> string) \<Rightarrow> epoch \<Rightarrow> epoch \<Rightarrow> entity_key \<Rightarrow> pool_state
    \<Rightarrow> stake_snapshot \<Rightarrow> (chain_error, stake_snapshot) fallible" where
  "visit_snapshot_pool b hex current_epoch stake_epoch key pool s =
     or_return (Some (ensure_pool_aligned hex (pool_operator pool) (pool_snapshot pool) current_epoch)) (\<lambda>_. do {
       blocks \<leftarrow> (case ev_mark (pool_snapshot pool) of
           Some mark \<Rightarrow> raw_add b (ss_performance_epoch_pool_blocks s) (ucast (ps_blocks_minted mark))
         | None \<Rightarrow> Some (ss_performance_epoch_pool_blocks s));
       let s = s\<lparr>ss_performance_epoch_pool_blocks := blocks\<rparr>;
       Some (Inr (if snapshot_at (pool_snapshot pool) stake_epoch \<noteq> None
         then s\<lparr>ss_pools := AList.update (pool_operator pool) (pool_snapshot pool) (ss_pools s)\<rparr> else s))
     })"

text \<open>The pools each credential is a declared owner of, by the snapshot the rewards are paid on.\<close>

definition add_owner :: "pool_hash \<Rightarrow> hash28 \<Rightarrow> (stake_credential \<times> pool_hash list) list \<Rightarrow> (stake_credential \<times> pool_hash list) list" where
  "add_owner pool owner index = (let cred = AddrKeyhash owner in
     AList.update cred ((case map_of index cred of Some pools \<Rightarrow> pools | None \<Rightarrow> []) @ [pool]) index)"

definition owner_to_pools :: "(pool_hash \<times> pool_snapshot epoch_value) list \<Rightarrow> (stake_credential \<times> pool_hash list) list" where
  "owner_to_pools pools = fold (\<lambda>(pool, snapshot) index.
     (case ev_go snapshot of None \<Rightarrow> index | Some go \<Rightarrow> fold (add_owner pool) (pp_pool_owners (ps_params go)) index)) pools []"

text \<open>The filter both passes over the accounts share: the pool an account counts for, and its stake.\<close>

definition snapshot_stake :: "build \<Rightarrow> stake_snapshot \<Rightarrow> epoch \<Rightarrow> u16 \<Rightarrow> account_state \<Rightarrow> (pool_hash \<times> u64) option option" where
  "snapshot_stake b s stake_epoch protocol account =
     (case delegated_pool_at account stake_epoch of None \<Rightarrow> Some None | Some pool \<Rightarrow>
     (case map_of (ss_pools s) pool of None \<Rightarrow> Some None | Some pool_state \<Rightarrow>
     (case snapshot_at pool_state stake_epoch of None \<Rightarrow> Some None | Some stake_snapshot \<Rightarrow>
      if ps_is_retired stake_snapshot then Some None
      else do {
        stake \<leftarrow> (case snapshot_at (acc_stake account) stake_epoch of
            Some x \<Rightarrow> stake_total_for_era b x protocol | None \<Rightarrow> Some 0);
        Some (Some (pool, stake))
      })))"

definition visit_global_account :: "build \<Rightarrow> (stake_credential \<times> pool_hash list) list \<Rightarrow> epoch \<Rightarrow> u16 \<Rightarrow> entity_key \<Rightarrow> account_state
    \<Rightarrow> stake_snapshot \<Rightarrow> (chain_error, stake_snapshot) fallible" where
  "visit_global_account b owners stake_epoch protocol key account s = do {
     found \<leftarrow> snapshot_stake b s stake_epoch protocol account;
     (case found of
        None \<Rightarrow> Some (Inr s)
      | Some (pool, stake) \<Rightarrow> do {
          s \<leftarrow> track_stake b (acc_credential account) pool stake False s;
          (case map_of owners (acc_credential account) of
             Some owned \<Rightarrow> if pool \<in> set owned then do {
                 pledge \<leftarrow> raw_add b (lookup_or_0 (ss_pool_live_pledges s) pool) stake;
                 Some (Inr (s\<lparr>ss_pool_live_pledges := AList.update pool pledge (ss_pool_live_pledges s)\<rparr>))
               } else Some (Inr s)
           | None \<Rightarrow> Some (Inr s))
        })
   }"

definition snapshot_load_globals :: "build \<Rightarrow> (bytes \<Rightarrow> string) \<Rightarrow> store \<Rightarrow> epoch \<Rightarrow> epoch \<Rightarrow> u16 \<Rightarrow> (chain_error, stake_snapshot) fallible" where
  "snapshot_load_globals b hex t current_epoch stake_epoch protocol =
     or_return (try_fold (each_row (visit_snapshot_pool b hex current_epoch stake_epoch)) (typed_rows from_pool t pool_ns None) snapshot_default) (\<lambda>s.
     try_fold (each_row (visit_global_account b (owner_to_pools (ss_pools s)) stake_epoch protocol))
       (typed_rows from_account t account_ns None) s)"

definition visit_shard_account :: "build \<Rightarrow> epoch \<Rightarrow> u16 \<Rightarrow> entity_key \<Rightarrow> account_state
    \<Rightarrow> stake_snapshot \<Rightarrow> (chain_error, stake_snapshot) fallible" where
  "visit_shard_account b stake_epoch protocol key account s = do {
     let s = (if is_registered account
       then s\<lparr>ss_registered_accounts := insert (acc_credential account) (ss_registered_accounts s)\<rparr> else s);
     found \<leftarrow> snapshot_stake b s stake_epoch protocol account;
     Some (Inr (case found of
        None \<Rightarrow> s
      | Some (pool, stake) \<Rightarrow> s\<lparr>ss_accounts_by_pool := delegators_insert pool (acc_credential account) stake (ss_accounts_by_pool s)\<rparr>))
   }"

definition snapshot_merge_shard :: "build \<Rightarrow> store \<Rightarrow> epoch \<Rightarrow> u16 \<Rightarrow> key_range list \<Rightarrow> stake_snapshot \<Rightarrow> (chain_error, stake_snapshot) fallible" where
  "snapshot_merge_shard b t stake_epoch protocol ranges s =
     try_fold (\<lambda>bounds. try_fold (each_row (visit_shard_account b stake_epoch protocol)) (typed_rows from_account t account_ns (Some bounds))) ranges s"

section \<open>Incentives of the epoch\<close>

definition define_eta :: "rupd_env \<Rightarrow> epoch_state \<Rightarrow> u64 option \<Rightarrow> (chain_error, rat) fallible" where
  "define_eta env epoch pool_blocks = do {
     byron \<leftarrow> (case ev_mark (ep_pparams epoch) of None \<Rightarrow> Some True | Some pp \<Rightarrow> is_byron pp);
     (if byron then Some (Inr 1)
      else case pool_blocks of None \<Rightarrow> Some (Inr 1) | Some blocks \<Rightarrow>
        (case re_active_slots_coeff env of None \<Rightarrow> Some (Inl (GenesisFieldMissing ''active_slots_coeff'')) | Some f \<Rightarrow> do {
           pp \<leftarrow> ev_mark (ep_pparams epoch);
           or_return (ensure_d pp) (\<lambda>d.
           or_return (ensure_epoch_length pp) (\<lambda>epoch_length. do {
             d \<leftarrow> pallas_ratio d;
             eta \<leftarrow> calculate_eta (re_approximate_float env) blocks d f epoch_length;
             Some (Inr eta)
           }))
         }))
   }"

definition neutral_incentives :: epoch_incentives where
  "neutral_incentives = \<lparr>inc_total = 0, inc_treasury_tax = 0, inc_available_rewards = 0, inc_used_fees = 0\<rparr>"

definition define_epoch_incentives :: "rupd_env \<Rightarrow> epoch_state \<Rightarrow> u64 \<Rightarrow> u64 option \<Rightarrow> (chain_error, epoch_incentives) fallible" where
  "define_epoch_incentives env state reserves pool_blocks = do {
     pparams \<leftarrow> unwrap_live (ep_pparams state);
     byron \<leftarrow> is_byron pparams;
     (if byron then Some (Inr neutral_incentives)
      else or_return (ensure_rho pparams) (\<lambda>rho.
        or_return (ensure_tau pparams) (\<lambda>tau. do {
          mark_is_byron \<leftarrow> (case ev_mark (ep_pparams state) of None \<Rightarrow> Some False | Some pp \<Rightarrow> is_byron pp);
          let fee_ss = (case ev_mark (ep_rolling state) of
              Some rolling \<Rightarrow> if \<not> mark_is_byron then rs_gathered_fees rolling else 0 | None \<Rightarrow> 0);
          or_return (define_eta env state pool_blocks) (\<lambda>eta. do {
            rho \<leftarrow> pallas_ratio rho;
            tau \<leftarrow> pallas_ratio tau;
            incentives \<leftarrow> epoch_incentives_of (re_build env) reserves fee_ss rho tau eta;
            Some (Inr incentives)
          })
        })))
   }"

section \<open>The work of an update\<close>

record rupd_work =
  rw_current_epoch :: u64
  rw_snapshot :: stake_snapshot
  rw_pots :: pots
  rw_incentives :: epoch_incentives
  rw_blocks_made_total :: u64
  rw_max_supply :: u64
  rw_chain :: chain_summary
  rw_pparams :: "pparams_set option"
  rw_shard_ranges :: "key_range list option"

definition relevant_epochs :: "build \<Rightarrow> rupd_work \<Rightarrow> (epoch \<times> epoch) option option" where
  "relevant_epochs b w =
     (if rw_current_epoch w < 4 then Some None
      else do {
        snapshot_epoch \<leftarrow> raw_sub b (rw_current_epoch w) 3;
        performance_epoch \<leftarrow> raw_sub b (rw_current_epoch w) 1;
        first_shelley \<leftarrow> first_shelley_epoch (rw_chain w);
        Some (if snapshot_epoch \<le> first_shelley then None else Some (snapshot_epoch, performance_epoch))
      })"

text \<open>The protocol the stake of a snapshot is read under: that of the epoch after it.\<close>

definition snapshot_protocol :: "build \<Rightarrow> chain_summary \<Rightarrow> epoch \<Rightarrow> u16 option" where
  "snapshot_protocol b chain snapshot_epoch = do {
     entering \<leftarrow> raw_add b snapshot_epoch 1;
     map_option er_protocol (era_for_epoch chain entering)
   }"

definition work_load_globals :: "rupd_env \<Rightarrow> store \<Rightarrow> (chain_error, rupd_work) fallible" where
  "work_load_globals env t =
     or_return (Some (load_epoch t)) (\<lambda>epoch.
     (case re_max_lovelace_supply env of None \<Rightarrow> Some (Inl (GenesisFieldMissing ''max_lovelace_supply'')) | Some supply \<Rightarrow>
     (let pots = ep_initial_pots epoch;
          blocks_made_total = (case ev_mark (ep_rolling epoch) of Some x \<Rightarrow> ucast (rs_non_overlay_blocks_minted x) | None \<Rightarrow> 0);
          blocks_made_opt = (if 0 < blocks_made_total then Some blocks_made_total else None) in
     or_return (define_epoch_incentives env epoch (pot_reserves pots) blocks_made_opt) (\<lambda>incentives.
     or_return (Some (read_era_summary t)) (\<lambda>chain.
     (let work = \<lparr>rw_current_epoch = ep_number epoch, rw_snapshot = snapshot_default, rw_pots = pots, rw_incentives = incentives,
          rw_blocks_made_total = blocks_made_total, rw_max_supply = supply, rw_chain = chain,
          rw_pparams = ev_mark (ep_pparams epoch), rw_shard_ranges = None\<rparr> in do {
        epochs \<leftarrow> relevant_epochs (re_build env) work;
        (case epochs of
           None \<Rightarrow> Some (Inr work)
         | Some (snapshot_epoch, _) \<Rightarrow> do {
             protocol \<leftarrow> snapshot_protocol (re_build env) chain snapshot_epoch;
             or_return (snapshot_load_globals (re_build env) (re_hex env) t (ep_number epoch) snapshot_epoch protocol) (\<lambda>snapshot.
               Some (Inr (work\<lparr>rw_snapshot := snapshot\<rparr>)))
           })
      }))))))"

definition work_merge_shard :: "build \<Rightarrow> store \<Rightarrow> key_range list \<Rightarrow> rupd_work \<Rightarrow> (chain_error, rupd_work) fallible" where
  "work_merge_shard b t ranges w = do {
     epochs \<leftarrow> relevant_epochs b w;
     (case epochs of
        None \<Rightarrow> Some (Inr (w\<lparr>rw_shard_ranges := Some ranges\<rparr>))
      | Some (snapshot_epoch, _) \<Rightarrow> do {
          protocol \<leftarrow> snapshot_protocol b (rw_chain w) snapshot_epoch;
          or_return (snapshot_merge_shard b t snapshot_epoch protocol ranges (rw_snapshot w)) (\<lambda>snapshot.
            Some (Inr (w\<lparr>rw_snapshot := snapshot, rw_shard_ranges := Some ranges\<rparr>)))
        })
   }"

text \<open>\<^verbatim>\<open>RupdWork::load\<close>: the update over all accounts in one pass.\<close>

definition work_load :: "rupd_env \<Rightarrow> store \<Rightarrow> (chain_error, rupd_work) fallible" where
  "work_load env t = or_return (work_load_globals env t) (\<lambda>work. do {
     epochs \<leftarrow> relevant_epochs (re_build env) work;
     (if epochs \<noteq> None then work_merge_shard (re_build env) t [full_range] work else Some (Inr work))
   })"

definition rupd_context :: "rupd_env \<Rightarrow> rupd_work \<Rightarrow> rewards_context" where
  "rupd_context env w = (let s = rw_snapshot w in
     \<lparr>rc_incentives = rw_incentives w, rc_pots = rw_pots w,
      rc_pre_allegra = do {
        pp \<leftarrow> rw_pparams w;
        major \<leftarrow> protocol_major pp;
        Some ((case major of Some m \<Rightarrow> m | None \<Rightarrow> 0) < 3)
      },
      rc_active_stake = ss_active_stake_sum s, rc_epoch_blocks = rw_blocks_made_total w,
      rc_pool_blocks = (\<lambda>pool. do {
        snapshot \<leftarrow> map_of (ss_pools s) pool;
        mark \<leftarrow> ev_mark snapshot;
        Some (ucast (ps_blocks_minted mark))
      }),
      rc_pool_stake = get_pool_stake s,
      rc_account_stake = get_stake (ss_accounts_by_pool s),
      rc_is_account_registered = (\<lambda>account. account \<in> ss_registered_accounts s),
      rc_iter_all_pools = map fst (ss_pools s),
      rc_pool_params = (\<lambda>pool. do {
        snapshot \<leftarrow> map_of (ss_pools s) pool;
        go \<leftarrow> ev_go snapshot;
        Some (ps_params go)
      }),
      rc_pool_delegators = (\<lambda>pool. map fst (iter_delegators (ss_accounts_by_pool s) pool)),
      rc_pparams = rw_pparams w,
      rc_live_pledge = (\<lambda>pool owners. Some (lookup_or_0 (ss_pool_live_pledges s) pool)),
      rc_should_include = (\<lambda>account. case rw_shard_ranges w of None \<Rightarrow> True | Some ranges \<Rightarrow>
        (let key = credential_to_key (re_enc env) account in list_ex (\<lambda>(start, stop). start \<le> key \<and> key < stop) ranges))\<rparr>)"

section \<open>The work unit\<close>

record rupd_work_unit =
  ru_slot :: block_slot
  ru_total_shards :: u32
  ru_start_shard :: u32
  ru_work :: "rupd_work option"
  ru_rewards :: "reward_map option"

definition rupd_work_unit_new :: "block_slot \<Rightarrow> rupd_work_unit" where
  "rupd_work_unit_new slot = \<lparr>ru_slot = slot, ru_total_shards = 0, ru_start_shard = 0, ru_work = None, ru_rewards = None\<rparr>"

definition reset_for_next_shard :: "rupd_work_unit \<Rightarrow> rupd_work_unit" where
  "reset_for_next_shard u = u\<lparr>ru_work := map_option (\<lambda>w. w\<lparr>rw_snapshot := (rw_snapshot w)\<lparr>ss_accounts_by_pool := [],
     ss_registered_accounts := {}\<rparr>, rw_shard_ranges := None\<rparr>) (ru_work u), ru_rewards := None\<rparr>"

fun pending_of :: "stake_credential \<Rightarrow> reward \<Rightarrow> pending_reward_state" where
  "pending_of credential (MultiPool r) = \<lparr>prs_credential = credential, prs_is_spendable = mr_is_spendable r,
     prs_as_leader = mr_as_leader r, prs_as_delegator = mr_as_delegator r\<rparr>"
| "pending_of credential (PreAllegra r) = (if pa_as_leader r
     then \<lparr>prs_credential = credential, prs_is_spendable = pa_is_spendable r, prs_as_leader = [(pa_pool r, pa_value r)], prs_as_delegator = []\<rparr>
     else \<lparr>prs_credential = credential, prs_is_spendable = pa_is_spendable r, prs_as_leader = [], prs_as_delegator = [(pa_pool r, pa_value r)]\<rparr>)"

text \<open>\<^verbatim>\<open>commit_shard\<close>: the pending rewards of a shard and its progress, in one transaction.\<close>

definition commit_shard :: "rupd_env \<Rightarrow> u32 \<Rightarrow> rupd_work_unit \<Rightarrow> store \<Rightarrow> (domain_error, store) fallible" where
  "commit_shard env shard_index u t =
     (case ru_rewards u of None \<Rightarrow> Some (Inl (DomainInternal ''rewards not computed'')) | Some rewards \<Rightarrow>
     (let ops = fold (\<lambda>(credential, reward). write_entity pending_reward_ns (credential_to_key (re_enc env) credential)
         (PendingRewardState (pending_of credential reward))) (rm_pending rewards) [] in
     (case read_typed from_epoch t epoch_singleton_key of Inl err \<Rightarrow> Some (Inl (DomainStateError err)) | Inr epoch_entity \<Rightarrow> do {
        (_, epoch_entity) \<leftarrow> rupd_progress_apply (re_build env) (rupd_progress_new shard_index (ru_total_shards u)) epoch_entity;
        let ops = (case epoch_entity of Some epoch_state \<Rightarrow> write_entity epoch_ns (snd epoch_singleton_key) (EpochState epoch_state) ops | None \<Rightarrow> ops);
        Some (Inr (commit ops t))
      })))"

definition add_pending :: "(pool_hash \<times> u64) \<Rightarrow> bool \<Rightarrow> (pool_hash \<times> u64 \<times> u64) list \<Rightarrow> (pool_hash \<times> u64 \<times> u64) list" where
  "add_pending entry as_leader out = (case entry of (pool, value) \<Rightarrow>
     (let (total_rewards, operator_share) = (case map_of out pool of Some x \<Rightarrow> x | None \<Rightarrow> (0, 0)) in
      AList.update pool (saturating_add total_rewards value,
        if as_leader then saturating_add operator_share value else operator_share) out))"

definition aggregate_pending_pool_rewards :: "store \<Rightarrow> (domain_error, (pool_hash \<times> u64 \<times> u64) list) fallible" where
  "aggregate_pending_pool_rewards t =
     (case try_fold (each_row (\<lambda>key pending out. Some (Inr (
          fold (\<lambda>e. add_pending e True) (prs_as_leader pending) (fold (\<lambda>e. add_pending e False) (prs_as_delegator pending) out)))))
          (typed_rows from_pending_reward t pending_reward_ns None) [] of
        None \<Rightarrow> None
      | Some (Inl _) \<Rightarrow> Some (Inl (DomainStateError (EntityDecodingError '''')))
      | Some (Inr out) \<Rightarrow> Some (Inr out))"

definition stake_log_of :: "stake_snapshot \<Rightarrow> (pool_hash \<times> u64 \<times> u64) list \<Rightarrow> pool_hash \<times> pool_snapshot epoch_value \<Rightarrow> stake_log" where
  "stake_log_of s rewards entry = (case entry of (pool, snapshot) \<Rightarrow>
     (let pool_stake = get_pool_stake s pool;
          params = map_option ps_params (ev_go snapshot);
          (total_rewards, operator_share) = (case map_of rewards pool of Some x \<Rightarrow> x | None \<Rightarrow> (0, 0)) in
      \<lparr>sl_blocks_minted = (case ev_mark snapshot of Some mark \<Rightarrow> ucast (ps_blocks_minted mark) | None \<Rightarrow> 0),
       sl_total_stake = pool_stake,
       sl_relative_size = (if 0 < ss_active_stake_sum s then Some (pool_stake, ss_active_stake_sum s) else None),
       sl_delegators_count = get_pool_delegator_count s pool, sl_live_pledge = 0,
       sl_declared_pledge = (case params of Some p \<Rightarrow> pp_pledge p | None \<Rightarrow> 0),
       sl_total_rewards = total_rewards, sl_operator_share = operator_share,
       sl_fixed_cost = (case params of Some p \<Rightarrow> pp_cost p | None \<Rightarrow> 0),
       sl_margin_cost = map_option pp_margin params\<rparr>))"

definition write_stake_logs :: "rupd_env \<Rightarrow> ((log_key \<times> cardano_entity) list \<Rightarrow> 'a \<Rightarrow> domain_error + 'a) \<Rightarrow> rupd_work_unit \<Rightarrow> store \<Rightarrow> 'a
    \<Rightarrow> (domain_error, 'a) fallible" where
  "write_stake_logs env write_logs u t archive =
     (case ru_work u of None \<Rightarrow> Some (Inl (DomainInternal ''rupd work not loaded'')) | Some work \<Rightarrow> do {
        epochs \<leftarrow> relevant_epochs (re_build env) work;
        (case epochs of
           None \<Rightarrow> Some (Inr archive)
         | Some (_, epoch) \<Rightarrow> do {
             start_of_epoch \<leftarrow> chain_epoch_start (re_build env) (rw_chain work) epoch;
             or_return (aggregate_pending_pool_rewards t) (\<lambda>rewards.
               Some (write_logs (map (\<lambda>entry. (log_key_of (temporal_key start_of_epoch) (entity_key_from (word_bytes (fst entry))),
                 StakeLog (stake_log_of (rw_snapshot work) rewards entry))) (ss_pools (rw_snapshot work))) archive))
           })
      })"

text \<open>The phases. The node is a domain; the update touches its state and, at the end, its archive.\<close>

type_synonym ('d, 'r, 'a) rupd_phase = "(rupd_work_unit, ('d, cardano_entity, 'r, 'a) domain) phase"

definition rupd_initialize :: "rupd_env \<Rightarrow> ('d, 'r, 'a) rupd_phase" where
  "rupd_initialize env u dm =
     (case load_epoch (dm_state dm) of Inl err \<Rightarrow> Some (Inl (DomainChainError err), u, dm) | Inr epoch \<Rightarrow>
     (let u = u\<lparr>ru_total_shards := (case ep_rupd_progress epoch of Some p \<Rightarrow> sp_total p | None \<Rightarrow> account_shards),
                ru_start_shard := (case ep_rupd_progress epoch of Some p \<Rightarrow> sp_committed p | None \<Rightarrow> 0)\<rparr> in
     (case work_load_globals env (dm_state dm) of
        None \<Rightarrow> None
      | Some (Inl err) \<Rightarrow> Some (Inl (DomainChainError err), u, dm)
      | Some (Inr work) \<Rightarrow> Some (Inr (), u\<lparr>ru_work := Some work\<rparr>, dm))))"

definition rupd_load :: "rupd_env \<Rightarrow> u32 \<Rightarrow> ('d, 'r, 'a) rupd_phase" where
  "rupd_load env shard_index u dm = (let u = reset_for_next_shard u in do {
     ranges \<leftarrow> shard_key_ranges (re_build env) shard_index (ru_total_shards u);
     (case ru_work u of None \<Rightarrow> Some (Inl (DomainInternal ''rupd globals not initialized''), u, dm) | Some work \<Rightarrow>
     (case work_merge_shard (re_build env) (dm_state dm) ranges work of
        None \<Rightarrow> None
      | Some (Inl err) \<Rightarrow> Some (Inl (DomainChainError err), u, dm)
      | Some (Inr work) \<Rightarrow> Some (Inr (), u\<lparr>ru_work := Some work\<rparr>, dm)))
   })"

definition work_rewards :: "rupd_env \<Rightarrow> rupd_work \<Rightarrow> (chain_error, reward_map) fallible" where
  "work_rewards env work = do {
     epochs \<leftarrow> relevant_epochs (re_build env) work;
     (if epochs \<noteq> None then define_rewards (re_build env) (re_parse_reward_account env) (rupd_context env work)
      else Some (Inr (from_pending [] (rw_incentives work))))
   }"

definition rupd_compute :: "rupd_env \<Rightarrow> u32 \<Rightarrow> ('d, 'r, 'a) rupd_phase" where
  "rupd_compute env shard_index u dm =
     (case ru_work u of None \<Rightarrow> Some (Inl (DomainInternal ''rupd work not loaded''), u, dm) | Some work \<Rightarrow>
     (case work_rewards env work of
        None \<Rightarrow> None
      | Some (Inl err) \<Rightarrow> Some (Inl (DomainChainError err), u, dm)
      | Some (Inr rewards) \<Rightarrow> Some (Inr (), u\<lparr>ru_rewards := Some rewards\<rparr>, dm)))"

definition rupd_commit_state :: "rupd_env \<Rightarrow> u32 \<Rightarrow> ('d, 'r, 'a) rupd_phase" where
  "rupd_commit_state env shard_index u dm =
     (case commit_shard env shard_index u (dm_state dm) of
        None \<Rightarrow> None
      | Some (Inl err) \<Rightarrow> Some (Inl err, u, dm)
      | Some (Inr t) \<Rightarrow> Some (Inr (), u, dm\<lparr>dm_state := t\<rparr>))"

definition close_update :: "epoch_incentives \<Rightarrow> epoch_state \<Rightarrow> epoch_state" where
  "close_update incentives e = e\<lparr>ep_incentives := Some incentives, ep_rupd_progress := None\<rparr>"

definition rupd_finalize :: "rupd_env \<Rightarrow> ((log_key \<times> cardano_entity) list \<Rightarrow> 'a \<Rightarrow> domain_error + 'a) \<Rightarrow> ('d, 'r, 'a) rupd_phase" where
  "rupd_finalize env write_logs u dm =
     (case ru_work u of None \<Rightarrow> Some (Inl (DomainInternal ''rupd work not loaded''), u, dm) | Some work \<Rightarrow>
     (case read_typed from_epoch (dm_state dm) epoch_singleton_key of Inl err \<Rightarrow> Some (Inl (DomainStateError err), u, dm) | Inr entity \<Rightarrow>
     (let ops = (case entity of None \<Rightarrow> [] | Some e \<Rightarrow>
            write_entity epoch_ns (snd epoch_singleton_key) (EpochState (close_update (rw_incentives work) e)) []);
          dm = dm\<lparr>dm_state := commit ops (dm_state dm)\<rparr> in
     (case write_stake_logs env write_logs u (dm_state dm) (dm_archive dm) of
        None \<Rightarrow> None
      | Some (Inl err) \<Rightarrow> Some (Inl err, u, dm)
      | Some (Inr archive) \<Rightarrow> Some (Inr (), u, dm\<lparr>dm_archive := archive\<rparr>)))))"

definition rupd_unit :: "rupd_env \<Rightarrow> ((log_key \<times> cardano_entity) list \<Rightarrow> 'a \<Rightarrow> domain_error + 'a)
    \<Rightarrow> (rupd_work_unit, ('d, cardano_entity, 'r, 'a) domain) work_unit" where
  "rupd_unit env write_logs = \<lparr>wu_total_shards = ru_total_shards, wu_start_shard = ru_start_shard,
     wu_initialize = rupd_initialize env, wu_load = rupd_load env, wu_compute = rupd_compute env,
     wu_commit_wal = (\<lambda>_ u dm. Some (Inr (), u, dm)), wu_commit_state = rupd_commit_state env,
     wu_commit_archive = (\<lambda>_ u dm. Some (Inr (), u, dm)), wu_commit_indexes = (\<lambda>_ u dm. Some (Inr (), u, dm)),
     wu_finalize = rupd_finalize env write_logs, wu_tip_events = (\<lambda>_. []), wu_mempool_updates = (\<lambda>_. [])\<rparr>"

section \<open>What a pass over accounts collects\<close>

abbreviation stake_at :: "delegator_map \<Rightarrow> pool_hash \<Rightarrow> stake_credential \<Rightarrow> u64 option" where
  "stake_at m pool c \<equiv> map_of (iter_delegators m pool) c"

lemma iter_delegators_insert:
  "iter_delegators (delegators_insert p a v m) pool =
     (if p = pool then AList.update a v (iter_delegators m pool) else iter_delegators m pool)"
  by (simp add: iter_delegators_def delegators_insert_def)

lemma get_stake_at: "get_stake m pool c = (case stake_at m pool c of Some x \<Rightarrow> x | None \<Rightarrow> 0)"
  by (simp add: get_stake_def iter_delegators_def split: option.split)

definition place :: "(account_state \<Rightarrow> (pool_hash \<times> u64) option option) \<Rightarrow> account_state \<Rightarrow> delegator_map \<Rightarrow> delegator_map" where
  "place f a m = (case f a of Some (Some (pool, v)) \<Rightarrow> delegators_insert pool (acc_credential a) v m | _ \<Rightarrow> m)"

lemma placed_distinct:
  assumes "distinct (map fst (iter_delegators m pool))"
  shows "distinct (map fst (iter_delegators (fold (place f) as m) pool))"
  using assms
proof (induction as arbitrary: m)
  case (Cons a as)
  have "distinct (map fst (iter_delegators (place f a m) pool))"
    using Cons.prems by (auto simp: place_def iter_delegators_insert distinct_update split: option.splits)
  from Cons.IH [OF this] show ?case by simp
qed simp

text \<open>Accounts that agree where their credentials do are placed by their credential, in any order.\<close>

definition by_credential :: "account_state list \<Rightarrow> bool" where
  "by_credential as \<longleftrightarrow> (\<forall>a \<in> set as. \<forall>a' \<in> set as. acc_credential a = acc_credential a' \<longrightarrow> a = a')"

lemma stake_placed:
  assumes "by_credential as"
  shows "stake_at (fold (place f) as []) pool c = Some v \<longleftrightarrow> (\<exists>a \<in> set as. acc_credential a = c \<and> f a = Some (Some (pool, v)))"
  using assms
proof (induction as arbitrary: v rule: rev_induct)
  case Nil
  show ?case by (simp add: iter_delegators_def)
next
  case (snoc a as)
  from snoc.prems have "by_credential as" by (auto simp: by_credential_def)
  note IH = snoc.IH [OF this]
  show ?case
  proof (cases "acc_credential a = c \<and> (\<exists>w. f a = Some (Some (pool, w)))")
    case True
    then obtain w where w: "f a = Some (Some (pool, w))" "acc_credential a = c" by blast
    have "f x = Some (Some (pool, w))" if "x \<in> set as" "acc_credential x = c" for x
      using snoc.prems that w by (auto simp: by_credential_def)
    with w show ?thesis by (auto simp: place_def iter_delegators_insert)
  next
    case False
    then have "stake_at (place f a m) pool c = stake_at m pool c" for m
      by (auto simp: place_def iter_delegators_insert split: option.splits)
    with False IH show ?thesis by auto
  qed
qed

lemma snapshot_stake_cong:
  assumes "ss_pools s = ss_pools s'"
  shows "snapshot_stake b s = snapshot_stake b s'"
  by (intro ext) (unfold snapshot_stake_def assms, rule refl)

definition collected :: "(account_state \<Rightarrow> (pool_hash \<times> u64) option option) \<Rightarrow> account_state list \<Rightarrow> stake_snapshot \<Rightarrow> stake_snapshot" where
  "collected f as s = s\<lparr>ss_registered_accounts := ss_registered_accounts s \<union> acc_credential ` set (filter is_registered as),
     ss_accounts_by_pool := fold (place f) as (ss_accounts_by_pool s)\<rparr>"

lemma collected_simps [simp]:
  "collected f [] s = s" "collected f bs (collected f as s) = collected f (as @ bs) s"
  "ss_pools (collected f as s) = ss_pools s"
  by (simp_all add: collected_def Un_assoc image_Un)

lemma visit_shard_account_iff:
  "visit_shard_account b e p k a s = Some (Inr s') \<longleftrightarrow>
     snapshot_stake b s e p a \<noteq> None \<and> s' = collected (snapshot_stake b s e p) [a] s"
proof -
  let ?s = "if is_registered a then s\<lparr>ss_registered_accounts := insert (acc_credential a) (ss_registered_accounts s)\<rparr> else s"
  have "snapshot_stake b ?s e p a = snapshot_stake b s e p a" by (intro fun_cong [OF fun_cong [OF fun_cong [OF snapshot_stake_cong]]]) simp
  then show ?thesis
    by (cases "snapshot_stake b s e p a") (auto simp: visit_shard_account_def Let_def collected_def place_def split: option.splits)
qed

lemma visit_rows_iff:
  "try_fold (each_row (visit_shard_account b e p)) rows s = Some (Inr s') \<longleftrightarrow>
     (\<forall>row \<in> set rows. \<exists>a. snd row = Some a \<and> snapshot_stake b s e p a \<noteq> None) \<and>
     s' = collected (snapshot_stake b s e p) (map (the \<circ> snd) rows) s"
proof (induction rows arbitrary: s)
  case (Cons row rows)
  have cong: "snapshot_stake b (collected f as s) = snapshot_stake b s" for f as by (intro snapshot_stake_cong) simp
  obtain k x where row: "row = (k, x)" by (cases row)
  show ?case
  proof (cases x)
    case (Some a)
    then show ?thesis
      using Cons.IH [of "collected (snapshot_stake b s e p) [a] s"]
      by (auto simp: row each_row_def or_return_Inr_iff visit_shard_account_iff cong)
  qed (simp add: row each_row_def)
qed auto

lemma merge_shard_iff:
  "snapshot_merge_shard b t e p ranges s = Some (Inr s') \<longleftrightarrow>
     (let rows = concat (map (\<lambda>r. typed_rows from_account t account_ns (Some r)) ranges) in
      (\<forall>row \<in> set rows. \<exists>a. snd row = Some a \<and> snapshot_stake b s e p a \<noteq> None) \<and>
      s' = collected (snapshot_stake b s e p) (map (the \<circ> snd) rows) s)"
proof -
  have "snapshot_merge_shard b t e p ranges s =
      try_fold (each_row (visit_shard_account b e p)) (concat (map (\<lambda>r. typed_rows from_account t account_ns (Some r)) ranges)) s"
    unfolding snapshot_merge_shard_def try_fold_concat by (induction ranges arbitrary: s) (auto simp: or_return_def split: option.splits sum.splits)
  then show ?thesis unfolding Let_def by (simp only: visit_rows_iff)
qed

section \<open>A shard sees its part of the accounts\<close>

text \<open>Every account is stored under the key of its credential.\<close>

definition accounts_keyed :: "cred_codec \<Rightarrow> store \<Rightarrow> bool" where
  "accounts_keyed enc t \<longleftrightarrow> (\<forall>k a. (k, Some a) \<in> set (typed_rows from_account t account_ns None) \<longrightarrow> k = credential_to_key enc (acc_credential a))"

definition in_ranges :: "key_range list \<Rightarrow> entity_key \<Rightarrow> bool" where
  "in_ranges ranges key \<longleftrightarrow> list_ex (\<lambda>(lo, hi). lo \<le> key \<and> key < hi) ranges"

definition ranges_within :: "key_range list \<Rightarrow> bool" where
  "ranges_within ranges \<longleftrightarrow> list_all (\<lambda>(lo, hi). replicate key_size 0 \<le> lo \<and> hi \<le> replicate key_size 255) ranges"

abbreviation account_rows :: "store \<Rightarrow> key_range list \<Rightarrow> (entity_key \<times> account_state option) list" where
  "account_rows t ranges \<equiv> concat (map (\<lambda>r. typed_rows from_account t account_ns (Some r)) ranges)"

lemma account_rows_within:
  assumes "ranges_within ranges"
  shows "set (account_rows t ranges) = {row \<in> set (typed_rows from_account t account_ns None). in_ranges ranges (fst row)}"
  using assms
proof (induction ranges)
  case (Cons r ranges)
  obtain lo hi where r: "r = (lo, hi)" by (cases r)
  with Cons show ?case by (auto simp: ranges_within_def in_ranges_def typed_rows_within)
qed (simp add: in_ranges_def)

lemma account_rows_full: "account_rows t [full_range] = typed_rows from_account t account_ns None"
  by (simp add: typed_rows_None)

lemma in_full_range:
  assumes "ranges_within ranges" and "in_ranges ranges key"
  shows "in_ranges [full_range] key"
proof -
  from assms obtain lo hi where r: "(lo, hi) \<in> set ranges" "lo \<le> key" "key < hi" by (auto simp: in_ranges_def list_ex_iff)
  with assms(1) have "replicate key_size 0 \<le> lo" "hi \<le> replicate key_size 255" by (auto simp: ranges_within_def list_all_iff)
  with r show ?thesis by (auto simp: in_ranges_def full_range_def)
qed

abbreviation accounts_of :: "(entity_key \<times> account_state option) list \<Rightarrow> account_state list" where
  "accounts_of rows \<equiv> map (the \<circ> snd) rows"

lemma accounts_of_mem:
  assumes "\<forall>row \<in> set rows. \<exists>a. snd row = Some a"
  shows "a \<in> set (accounts_of rows) \<longleftrightarrow> (\<exists>k. (k, Some a) \<in> set rows)"
proof
  assume "a \<in> set (accounts_of rows)"
  then obtain row where row: "row \<in> set rows" "a = the (snd row)" by auto
  with assms have "row = (fst row, Some a)" by (metis option.sel prod.collapse)
  with row(1) show "\<exists>k. (k, Some a) \<in> set rows" by metis
qed force

lemma rows_by_credential:
  assumes "tables_ok t" "accounts_keyed enc t" "set rows \<subseteq> set (typed_rows from_account t account_ns None)"
    and "\<forall>row \<in> set rows. \<exists>a. snd row = Some a"
  shows "by_credential (accounts_of rows)"
  unfolding by_credential_def
proof (intro ballI impI)
  fix a a' assume a: "a \<in> set (accounts_of rows)" and a': "a' \<in> set (accounts_of rows)" and eq: "acc_credential a = acc_credential a'"
  from a a' obtain k k' where k: "(k, Some a) \<in> set rows" "(k', Some a') \<in> set rows"
    unfolding accounts_of_mem [OF assms(4)] by blast
  have "k = credential_to_key enc (acc_credential a)" using k(1) assms(2,3) unfolding accounts_keyed_def by blast
  moreover have "k' = credential_to_key enc (acc_credential a')" using k(2) assms(2,3) unfolding accounts_keyed_def by blast
  ultimately have "k = k'" using eq by simp
  have inj: "inj_on fst (set (typed_rows from_account t account_ns None))"
    using typed_rows_distinct [OF assms(1), of from_account account_ns] by (simp add: distinct_map)
  show "a = a'" using inj_onD [OF inj, of "(k, Some a)" "(k', Some a')"] \<open>k = k'\<close> k assms(3) by auto
qed

text \<open>The accounts of an included credential are the same in the part and in the whole.\<close>

lemma part_accounts:
  assumes "tables_ok t" "accounts_keyed enc t" "ranges_within ranges"
    and all: "\<forall>row \<in> set (account_rows t [full_range]). \<exists>a. snd row = Some a"
  shows "a \<in> set (accounts_of (account_rows t ranges)) \<longleftrightarrow>
    a \<in> set (accounts_of (account_rows t [full_range])) \<and> in_ranges ranges (credential_to_key enc (acc_credential a))"
proof -
  have keyed: "k = credential_to_key enc (acc_credential a)" if "(k, Some a) \<in> set (account_rows t [full_range])" for k a
    using that assms(2) unfolding account_rows_full accounts_keyed_def by blast
  have part: "set (account_rows t ranges) = {row \<in> set (account_rows t [full_range]). in_ranges ranges (fst row)}"
    unfolding account_rows_full by (rule account_rows_within [OF assms(3)])
  have mem: "a \<in> set (accounts_of rows) \<longleftrightarrow> (\<exists>k. (k, Some a) \<in> set rows)" if "set rows \<subseteq> set (account_rows t [full_range])" for rows
    using that all by (intro accounts_of_mem) blast
  have "a \<in> set (accounts_of (account_rows t ranges)) \<longleftrightarrow> (\<exists>k. (k, Some a) \<in> set (account_rows t ranges))"
    using part by (intro mem) auto
  also have "\<dots> \<longleftrightarrow> (\<exists>k. (k, Some a) \<in> set (account_rows t [full_range])) \<and> in_ranges ranges (credential_to_key enc (acc_credential a))"
    unfolding part using keyed by auto
  also have "(\<exists>k. (k, Some a) \<in> set (account_rows t [full_range])) \<longleftrightarrow> a \<in> set (accounts_of (account_rows t [full_range]))"
    by (rule mem [symmetric]) simp
  finally show ?thesis .
qed

lemma filter_keys: "distinct (map fst xs) \<Longrightarrow> filter (\<lambda>d. d = c) (map fst xs) = (if map_of xs c = None then [] else [c])"
proof (induction xs)
  case (Cons x xs)
  then show ?case by (cases x) (force simp: map_of_eq_None_iff filter_empty_conv)
qed simp

lemma context_part_of:
  assumes globals: "ss_pools sp = ss_pools sf" "ss_pool_stake sp = ss_pool_stake sf" "ss_active_stake_sum sp = ss_active_stake_sum sf"
      "ss_pool_live_pledges sp = ss_pool_live_pledges sf"
    and dist: "\<And>pool. distinct (map fst (iter_delegators (ss_accounts_by_pool sf) pool))"
      "\<And>pool. distinct (map fst (iter_delegators (ss_accounts_by_pool sp) pool))"
    and incl: "\<And>pool d. d \<in> fst ` set (iter_delegators (ss_accounts_by_pool sp) pool) \<Longrightarrow> in_ranges ranges (credential_to_key (re_enc env) d)"
    and same: "\<And>pool c. in_ranges ranges (credential_to_key (re_enc env) c) \<Longrightarrow>
        stake_at (ss_accounts_by_pool sp) pool c = stake_at (ss_accounts_by_pool sf) pool c"
    and reg: "\<And>c. in_ranges ranges (credential_to_key (re_enc env) c) \<Longrightarrow>
        c \<in> ss_registered_accounts sp \<longleftrightarrow> c \<in> ss_registered_accounts sf"
    and within: "\<And>k. in_ranges ranges k \<Longrightarrow> in_ranges all k"
  shows "part_of (rupd_context env (w\<lparr>rw_snapshot := sp, rw_shard_ranges := Some ranges\<rparr>))
    (rupd_context env (w\<lparr>rw_snapshot := sf, rw_shard_ranges := Some all\<rparr>))"
proof -
  have "get_pool_stake sp = get_pool_stake sf" by (intro ext) (simp add: get_pool_stake_def globals)
  with globals incl reg within same show ?thesis
    unfolding part_of_def rupd_context_def Let_def in_ranges_def [symmetric]
    by (simp add: get_stake_at filter_keys [OF dist(1)] filter_keys [OF dist(2)])
qed

lemma merged_part_of:
  assumes ok: "tables_ok t" "accounts_keyed (re_enc env) t" "ranges_within ranges"
    and bare: "ss_accounts_by_pool (rw_snapshot w) = []" "ss_registered_accounts (rw_snapshot w) = {}"
    and full: "snapshot_merge_shard b t e p [full_range] (rw_snapshot w) = Some (Inr sf)"
  obtains sp where "snapshot_merge_shard b t e p ranges (rw_snapshot w) = Some (Inr sp)"
    and "part_of (rupd_context env (w\<lparr>rw_snapshot := sp, rw_shard_ranges := Some ranges\<rparr>))
      (rupd_context env (w\<lparr>rw_snapshot := sf, rw_shard_ranges := Some [full_range]\<rparr>))"
proof -
  let ?f = "snapshot_stake b (rw_snapshot w) e p" and ?key = "credential_to_key (re_enc env)"
  let ?P = "account_rows t ranges" and ?F = "account_rows t [full_range]"
  from full have F: "\<forall>row \<in> set ?F. \<exists>a. snd row = Some a \<and> ?f a \<noteq> None" and sf: "sf = collected ?f (accounts_of ?F) (rw_snapshot w)"
    unfolding merge_shard_iff Let_def by blast+
  have sub: "set ?P \<subseteq> set ?F" unfolding account_rows_full account_rows_within [OF ok(3)] by blast
  let ?sp = "collected ?f (accounts_of ?P) (rw_snapshot w)"
  have sp: "snapshot_merge_shard b t e p ranges (rw_snapshot w) = Some (Inr ?sp)"
    unfolding merge_shard_iff Let_def using F sub by blast
  have mem: "a \<in> set (accounts_of ?P) \<longleftrightarrow> a \<in> set (accounts_of ?F) \<and> in_ranges ranges (?key (acc_credential a))" for a
    using F by (intro part_accounts ok) blast
  have cred: "by_credential (accounts_of ?F)" "by_credential (accounts_of ?P)"
    by (rule rows_by_credential [OF ok(1,2)]; use F sub in \<open>unfold account_rows_full; blast\<close>)+
  have maps: "ss_accounts_by_pool sf = fold (place ?f) (accounts_of ?F) []" "ss_accounts_by_pool ?sp = fold (place ?f) (accounts_of ?P) []"
    and regs: "ss_registered_accounts sf = acc_credential ` {a \<in> set (accounts_of ?F). is_registered a}"
      "ss_registered_accounts ?sp = acc_credential ` {a \<in> set (accounts_of ?P). is_registered a}"
    unfolding sf by (simp_all add: collected_def bare)
  have stake: "stake_at (ss_accounts_by_pool ?sp) pool c = Some v \<longleftrightarrow>
      stake_at (ss_accounts_by_pool sf) pool c = Some v \<and> in_ranges ranges (?key c)" for pool c v
    unfolding maps stake_placed [OF cred(1)] stake_placed [OF cred(2)] using mem by blast
  have same: "stake_at (ss_accounts_by_pool ?sp) pool c = stake_at (ss_accounts_by_pool sf) pool c" if "in_ranges ranges (?key c)" for pool c
    using stake [of pool c] that by (metis (no_types) not_None_eq)
  have dist: "distinct (map fst (iter_delegators (ss_accounts_by_pool sf) pool))" "distinct (map fst (iter_delegators (ss_accounts_by_pool ?sp) pool))" for pool
    unfolding maps by (rule placed_distinct, simp add: iter_delegators_def)+
  have reg: "c \<in> ss_registered_accounts ?sp \<longleftrightarrow> c \<in> ss_registered_accounts sf" if "in_ranges ranges (?key c)" for c
    unfolding regs using mem that by blast
  have incl: "in_ranges ranges (?key d)" if "d \<in> fst ` set (iter_delegators (ss_accounts_by_pool ?sp) pool)" for d pool
    using that stake [of pool d] by (metis map_of_eq_None_iff not_None_eq)
  show thesis
  proof (rule that [OF sp])
    show "part_of (rupd_context env (w\<lparr>rw_snapshot := ?sp, rw_shard_ranges := Some ranges\<rparr>))
        (rupd_context env (w\<lparr>rw_snapshot := sf, rw_shard_ranges := Some [full_range]\<rparr>))"
      by (rule context_part_of [OF _ _ _ _ dist incl same reg in_full_range [OF ok(3)]]) (simp_all add: sf collected_def)
  qed
qed

abbreviation bare :: "stake_snapshot \<Rightarrow> bool" where
  "bare s \<equiv> ss_accounts_by_pool s = [] \<and> ss_registered_accounts s = {}"

lemma track_stake_keeps:
  "track_stake b c pool v False s = Some s' \<Longrightarrow>
     ss_accounts_by_pool s' = ss_accounts_by_pool s \<and> ss_registered_accounts s' = ss_registered_accounts s"
  by (auto simp: track_stake_def panic_simps)

lemma visit_global_keeps:
  assumes "visit_global_account b owners se p k a s = Some (Inr s')"
  shows "ss_accounts_by_pool s' = ss_accounts_by_pool s \<and> ss_registered_accounts s' = ss_registered_accounts s"
proof -
  from assms obtain found where found: "snapshot_stake b s se p a = Some found" by (auto simp: visit_global_account_def panic_simps)
  show ?thesis
  proof (cases found)
    case (Some x)
    obtain pool v where x: "x = (pool, v)" by (cases x)
    with assms found Some obtain s1 where s1: "track_stake b (acc_credential a) pool v False s = Some s1"
      by (auto simp: visit_global_account_def panic_simps)
    let ?y = "raw_add b (lookup_or_0 (ss_pool_live_pledges s1) pool) v"
    have "(case map_of owners (acc_credential a) of
        Some owned \<Rightarrow> if pool \<in> set owned then ?y \<bind> (\<lambda>y. Some (Inr (s1\<lparr>ss_pool_live_pledges := AList.update pool y (ss_pool_live_pledges s1)\<rparr>)))
          else Some (Inr s1) | None \<Rightarrow> Some (Inr s1)) = (Some (Inr s') :: (chain_error, stake_snapshot) fallible)"
      using assms found Some x s1 by (simp add: visit_global_account_def)
    then have "ss_accounts_by_pool s' = ss_accounts_by_pool s1 \<and> ss_registered_accounts s' = ss_registered_accounts s1"
      by (cases "map_of owners (acc_credential a)"; cases ?y) (auto split: if_splits)
    with track_stake_keeps [OF s1] show ?thesis by simp
  qed (use assms found in \<open>simp add: visit_global_account_def\<close>)
qed

lemma snapshot_globals_bare:
  assumes "snapshot_load_globals b hex t ce se p = Some (Inr s)"
  shows "bare s"
proof -
  from assms obtain s0 where s0: "try_fold (each_row (visit_snapshot_pool b hex ce se)) (typed_rows from_pool t pool_ns None) snapshot_default = Some (Inr s0)"
      "try_fold (each_row (visit_global_account b (owner_to_pools (ss_pools s0)) se p)) (typed_rows from_account t account_ns None) s0 = Some (Inr s)"
    by (auto simp: snapshot_load_globals_def or_return_Inr_iff)
  have "bare s0"
    by (rule try_fold_invariant [where P = "\<lambda>s. bare s", OF s0(1)])
      (auto simp: snapshot_default_def each_row_def visit_snapshot_pool_def or_return_Inr_iff Let_def panic_simps split: option.splits if_splits)
  show ?thesis
    using \<open>bare s0\<close> by (rule try_fold_invariant [where P = "\<lambda>s. bare s", OF s0(2)])
      (auto simp: each_row_def split: option.splits dest!: visit_global_keeps)
qed

lemma work_globals_bare:
  assumes "work_load_globals env t = Some (Inr w)"
  shows "bare (rw_snapshot w)" and "rw_shard_ranges w = None"
proof -
  have "bare snapshot_default" by (simp add: snapshot_default_def)
  with assms show "bare (rw_snapshot w)" and "rw_shard_ranges w = None"
    by (auto simp: work_load_globals_def or_return_Inr_iff Let_def panic_simps snapshot_globals_bare split: option.splits)
qed

lemma relevant_epochs_cong:
  "rw_current_epoch w = rw_current_epoch w' \<Longrightarrow> rw_chain w = rw_chain w' \<Longrightarrow> relevant_epochs b w = relevant_epochs b w'"
  by (simp add: relevant_epochs_def)

lemma shard_ranges_within:
  assumes "validate_total_shards n = Inr ()" and "i < n"
  obtains ranges where "shard_key_ranges b i n = Some ranges" and "ranges_within ranges"
proof -
  have range: "\<exists>lo hi. variant_range b v i n = Some (lo, hi) \<and> replicate key_size 0 \<le> lo \<and> hi \<le> replicate key_size 255"
    if v: "v = 0 \<or> v = 1" for v
  proof -
    obtain lo hi where r: "variant_range b v i n = Some ([0x82, v, 0x58, 0x1c, lo] @ replicate 27 0, hi)"
        "if i + 1 = n then hi = [0x82, v, 0x58, 0x1d] @ replicate 28 0
         else \<exists>h. hi = [0x82, v, 0x58, 0x1c, h] @ replicate 27 0 \<and> unat h = (unat i + 1) * unat (prefix_space div n)"
      by (rule variant_range_bytes [OF assms, of b v])
    have "replicate key_size 0 \<le> [0x82, v, 0x58, 0x1c, lo] @ replicate 27 0"
      using zeros_least [of "[0x82, v, 0x58, 0x1c, lo] @ replicate 27 0"] by (simp add: key_size_def)
    moreover have "replicate key_size (255 :: u8) = 255 # replicate 31 255" unfolding key_size_def by (simp flip: replicate_Suc)
    then have "0x82 # xs \<le> replicate key_size (255 :: u8)" for xs by simp
    ultimately show ?thesis using r by (auto split: if_splits)
  qed
  obtain lo0 hi0 lo1 hi1 where v: "variant_range b 0 i n = Some (lo0, hi0)" "replicate key_size 0 \<le> lo0 \<and> hi0 \<le> replicate key_size 255"
      "variant_range b 1 i n = Some (lo1, hi1)" "replicate key_size 0 \<le> lo1 \<and> hi1 \<le> replicate key_size 255"
    using range [of 0] range [of 1] by auto
  show thesis
    by (rule that [of "[(lo0, hi0), (lo1, hi1)]"])
      (use v assms in \<open>simp_all add: shard_key_ranges_def cred_key_variant_addrkeyhash_def cred_key_variant_scripthash_def ranges_within_def\<close>)
qed

lemma shard_work:
  assumes ok: "tables_ok t" "accounts_keyed (re_enc env) t" and ranges: "ranges_within ranges" and bare: "bare (rw_snapshot w)"
    and full: "(if the (relevant_epochs (re_build env) w) \<noteq> None then work_merge_shard (re_build env) t [full_range] w else Some (Inr w)) = Some (Inr full)"
      "work_rewards env full = Some (Inr m)"
  shows "\<exists>part m'. work_merge_shard (re_build env) t ranges w = Some (Inr part) \<and> work_rewards env part = Some (Inr m') \<and>
    (\<forall>c. cell m' c = (if in_ranges ranges (credential_to_key (re_enc env) c) then cell m c else None))"
proof (cases "relevant_epochs (re_build env) w")
  case None
  with full show ?thesis by (auto simp: work_merge_shard_def work_rewards_def split: if_splits)
next
  case (Some epochs)
  have rel: "relevant_epochs (re_build env) (w\<lparr>rw_snapshot := s, rw_shard_ranges := r\<rparr>) = Some epochs" for s r
    using Some relevant_epochs_cong [of "w\<lparr>rw_snapshot := s, rw_shard_ranges := r\<rparr>" w] by simp
  show ?thesis
  proof (cases epochs)
    case None
    with Some full have "m = from_pending [] (rw_incentives w)" by (auto simp: work_rewards_def)
    with Some None show ?thesis using rel [of "Some ranges" "rw_snapshot w"]
      by (auto simp: work_merge_shard_def work_rewards_def from_pending_def)
  next
    case (Some ep)
    obtain se pe where ep: "epochs = Some (se, pe)" using Some by (cases ep) auto
    with \<open>relevant_epochs (re_build env) w = Some epochs\<close> full(1) obtain p sf where p: "snapshot_protocol (re_build env) (rw_chain w) se = Some p"
        and sf: "snapshot_merge_shard (re_build env) t se p [full_range] (rw_snapshot w) = Some (Inr sf)"
        and fw: "full = w\<lparr>rw_snapshot := sf, rw_shard_ranges := Some [full_range]\<rparr>"
      by (auto simp: work_merge_shard_def or_return_Inr_iff panic_simps)
    obtain sp where sp: "snapshot_merge_shard (re_build env) t se p ranges (rw_snapshot w) = Some (Inr sp)"
        "part_of (rupd_context env (w\<lparr>rw_snapshot := sp, rw_shard_ranges := Some ranges\<rparr>)) (rupd_context env full)"
      using merged_part_of [OF ok ranges _ _ sf] bare fw by metis
    let ?part = "w\<lparr>rw_snapshot := sp, rw_shard_ranges := Some ranges\<rparr>"
    have "work_merge_shard (re_build env) t ranges w = Some (Inr ?part)"
      using \<open>relevant_epochs (re_build env) w = Some epochs\<close> ep p sp(1) by (simp add: work_merge_shard_def)
    moreover have "define_rewards (re_build env) (re_parse_reward_account env) (rupd_context env full) = Some (Inr m)"
      using full(2) rel ep by (simp add: work_rewards_def fw)
    from shard_rewards_restricted [OF sp(2) this] rel ep have "\<exists>m'. work_rewards env ?part = Some (Inr m') \<and>
        (\<forall>c. cell m' c = (if in_ranges ranges (credential_to_key (re_enc env) c) then cell m c else None))"
      by (simp add: work_rewards_def rupd_context_def Let_def in_ranges_def restricted_def)
    ultimately show ?thesis by blast
  qed
qed

section \<open>The commits of a run\<close>

lemma include_if_distinct:
  assumes "include_if b ctx pool lead e m = Some m'" and "distinct (map fst (rm_pending m))"
  shows "distinct (map fst (rm_pending m'))"
  using assms by (cases e) (auto simp: include_if_def include_reward_def Let_def panic_simps distinct_update distinct_delete split: if_splits)

lemma fold_include_distinct:
  assumes "fold_opt (include_if b ctx pool lead) es m = Some m'" and "distinct (map fst (rm_pending m))"
  shows "distinct (map fst (rm_pending m'))"
  using assms(2) by (rule fold_opt_invariant [where P = "\<lambda>m. distinct (map fst (rm_pending m))", OF assms(1)]) (auto dest: include_if_distinct)

lemma define_pool_distinct:
  assumes "define_pool_rewards b parse ctx pool m = Some (Inr m')" and "distinct (map fst (rm_pending m))"
  shows "distinct (map fst (rm_pending m'))"
proof (cases "rc_pool_blocks ctx pool = Some 0")
  case True
  with assms show ?thesis by (auto simp: define_pool_rewards_def Let_def panic_simps)
next
  case False
  with assms(1) obtain acc x major m1 es where
      "(if 7 \<le> (major :: u16) \<or> rc_is_account_registered ctx acc then include_if b ctx pool True (acc, x) m else Some m) = Some m1"
      "fold_opt (include_if b ctx pool False) es m1 = Some m'"
    by (auto simp: define_pool_rewards_def Let_def panic_simps)
  with assms(2) show ?thesis by (auto dest: include_if_distinct fold_include_distinct split: if_splits)
qed

lemma work_rewards_distinct:
  assumes "work_rewards env w = Some (Inr m)"
  shows "distinct (map fst (rm_pending m))"
proof -
  have "distinct (map fst (rm_pending m'))" if "define_rewards b parse ctx = Some (Inr m')" for b parse ctx m'
    using that unfolding define_rewards_def
    by (rule try_fold_invariant [where P = "\<lambda>m. distinct (map fst (rm_pending m))"])
      (auto simp: reward_map_new_def from_pending_def dest: define_pool_distinct)
  with assms show ?thesis by (auto simp: work_rewards_def from_pending_def panic_simps split: if_splits)
qed

lemma write_all_ops:
  "fold (\<lambda>(c, r). write_entity ns (key c) (f c r)) xs ops = ops @ map (\<lambda>(c, r). WriteEntity ns (key c) (f c r)) xs"
  by (induction xs arbitrary: ops) (auto simp: write_entity_def)

lemma write_all_view:
  assumes "inj key" and "distinct (map fst xs)"
  shows "entity_view (commit (map (\<lambda>(c, r). WriteEntity ns (key c) (f c r)) xs) t) (ns, key c) =
      (case map_of xs c of Some r \<Rightarrow> Some (f c r) | None \<Rightarrow> entity_view t (ns, key c))"
    and "(\<And>c. k \<noteq> (ns, key c)) \<Longrightarrow> entity_view (commit (map (\<lambda>(c, r). WriteEntity ns (key c) (f c r)) xs) t) k = entity_view t k"
  using assms(2)
proof (induction xs arbitrary: t)
  case (Cons x xs)
  obtain c0 r0 where x: "x = (c0, r0)" by (cases x)
  {
    case 1
    with x have "map_of xs c0 = None" by (simp add: map_of_eq_None_iff)
    with 1 x Cons.IH(1) [of "commit_op (WriteEntity ns (key c0) (f c0 r0)) t"] show ?case
      using inj_eq [OF assms(1)] by (auto split: option.splits)
  next
    case 2
    with x Cons.IH(2) [of "commit_op (WriteEntity ns (key c0) (f c0 r0)) t"] show ?case by auto
  }
qed simp_all

text \<open>What the shards of an update have written: the pending rewards of the credentials they cover.\<close>

definition pending_written :: "rupd_env \<Rightarrow> reward_map \<Rightarrow> (stake_credential \<Rightarrow> bool) \<Rightarrow> (ns_key \<rightharpoonup> cardano_entity) \<Rightarrow> (ns_key \<rightharpoonup> cardano_entity) \<Rightarrow> bool" where
  "pending_written env m covered v v' \<longleftrightarrow>
     (\<forall>c. v' (pending_reward_ns, credential_to_key (re_enc env) c) =
        (case cell m c of
           Some r \<Rightarrow> if covered c then Some (PendingRewardState (pending_of c r)) else v (pending_reward_ns, credential_to_key (re_enc env) c)
         | None \<Rightarrow> v (pending_reward_ns, credential_to_key (re_enc env) c))) \<and>
     (\<forall>k. (\<forall>c. k \<noteq> (pending_reward_ns, credential_to_key (re_enc env) c)) \<and> k \<noteq> epoch_singleton_key \<longrightarrow> v' k = v k)"

lemma pending_written_refl: "pending_written env m (\<lambda>_. False) v v"
  by (simp add: pending_written_def split: option.splits)

lemma ns_distinct [simp]:
  "pending_reward_ns \<noteq> epoch_ns" "epoch_ns \<noteq> pending_reward_ns"
  "account_ns \<noteq> epoch_ns" "account_ns \<noteq> pending_reward_ns" "pool_ns \<noteq> epoch_ns" "pool_ns \<noteq> pending_reward_ns"
  "era_ns \<noteq> epoch_ns" "era_ns \<noteq> pending_reward_ns" "epoch_ns \<noteq> account_ns" "pending_reward_ns \<noteq> account_ns"
  "epoch_ns \<noteq> pool_ns" "pending_reward_ns \<noteq> pool_ns" "epoch_ns \<noteq> era_ns" "pending_reward_ns \<noteq> era_ns"
  by (simp_all add: pending_reward_ns_def epoch_ns_def account_ns_def pool_ns_def era_ns_def)

lemma progress_accepted:
  assumes "ep_rupd_progress e = Some \<lparr>sp_committed = k, sp_total = n\<rparr> \<or> (ep_rupd_progress e = None \<and> k = 0)" and "k < n"
  shows "\<exists>d. rupd_progress_apply b (rupd_progress_new k n) (Some e) =
    Some (d, Some (e\<lparr>ep_rupd_progress := Some \<lparr>sp_committed = k + 1, sp_total = n\<rparr>\<rparr>))"
proof -
  have "unat k + unat (1 :: u32) < 2 ^ LENGTH(32)"
    using assms(2) unsigned_less [where 'a = nat and w = n] by (simp add: word_less_nat_alt)
  then have "raw_add b k 1 = Some (k + 1)" by (simp add: raw_exact)
  with assms(1) show ?thesis
    by (auto simp: rupd_progress_apply_def rupd_progress_new_def shard_accepts_def shard_expected_def Let_def)
qed

lemma commit_shard_step:
  assumes inj: "inj (credential_to_key (re_enc env))"
    and t': "tables_ok t'" "pending_written env m covered v (entity_view t')" "entity_view t' epoch_singleton_key = Some (EpochState e)"
    and progress: "ep_rupd_progress e = Some \<lparr>sp_committed = k, sp_total = n\<rparr> \<or> (ep_rupd_progress e = None \<and> k = 0)" "k < n"
    and u: "ru_rewards u = Some m'" "ru_total_shards u = n" "distinct (map fst (rm_pending m'))"
      "\<And>c. cell m' c = (if mine c then cell m c else None)"
  obtains t'' where "commit_shard env k u t' = Some (Inr t'')" and "tables_ok t''"
    and "pending_written env m (\<lambda>c. covered c \<or> mine c) v (entity_view t'')"
    and "entity_view t'' epoch_singleton_key = Some (EpochState (e\<lparr>ep_rupd_progress := Some \<lparr>sp_committed = k + 1, sp_total = n\<rparr>\<rparr>))"
    and "\<And>ns. ns \<noteq> pending_reward_ns \<Longrightarrow> ns \<noteq> epoch_ns \<Longrightarrow> ns_rows t'' ns = ns_rows t' ns"
proof -
  let ?key = "credential_to_key (re_enc env)" and ?e = "e\<lparr>ep_rupd_progress := Some \<lparr>sp_committed = k + 1, sp_total = n\<rparr>\<rparr>"
  let ?W = "map (\<lambda>(c, r). WriteEntity pending_reward_ns (?key c) (PendingRewardState (pending_of c r))) (rm_pending m')"
  let ?ops = "?W @ [WriteEntity epoch_ns (snd epoch_singleton_key) (EpochState ?e)]"
  have key: "epoch_singleton_key = (epoch_ns, snd epoch_singleton_key)" by (simp add: epoch_singleton_key_def)
  have read: "read_typed from_epoch t' epoch_singleton_key = Inr (Some e)"
    using t'(3) by (simp add: read_typed_def entity_view_def)
  obtain d where d: "rupd_progress_apply (re_build env) (rupd_progress_new k n) (Some e) = Some (d, Some ?e)"
    using progress_accepted [OF progress] by blast
  have run: "commit_shard env k u t' = Some (Inr (commit ?ops t'))"
    by (simp add: commit_shard_def u(1,2) read d Let_def write_all_ops write_entity_def)
  have view: "entity_view (commit ?ops t') = (entity_view (commit ?W t'))(epoch_singleton_key \<mapsto> EpochState ?e)"
    unfolding commit_append by (simp flip: key)
  have other: "epoch_singleton_key \<noteq> (pending_reward_ns, x)" "(pending_reward_ns, x) \<noteq> epoch_singleton_key" for x
    by (simp_all add: epoch_singleton_key_def)
  have pend: "pending_written env m (\<lambda>c. covered c \<or> mine c) v (entity_view (commit ?ops t'))"
    using t'(2) other u(4) unfolding pending_written_def view
    by (auto simp: write_all_view [OF inj u(3)] split: option.splits)
  have ops: "op_ns op \<in> {Some pending_reward_ns, Some epoch_ns}" if "op \<in> set ?ops" for op using that by auto
  have "ns_rows (commit ?ops t') ns = ns_rows t' ns" if "ns \<noteq> pending_reward_ns" "ns \<noteq> epoch_ns" for ns
    using ops that by (intro ns_rows_commit) fastforce
  with run pend view commit_ok [OF t'(1)] show thesis by (intro that [of "commit ?ops t'"]) simp_all
qed

section \<open>A run, fresh or resumed\<close>

text \<open>An update over \<open>n\<close> shards of which the first \<open>k\<close> are committed, on a store that started as \<open>t\<close>.\<close>

definition progressed :: "rupd_env \<Rightarrow> store \<Rightarrow> epoch_state \<Rightarrow> reward_map \<Rightarrow> u32 \<Rightarrow> u32 \<Rightarrow> store \<Rightarrow> bool" where
  "progressed env t e m n k t' \<longleftrightarrow> tables_ok t' \<and>
     (\<forall>ns. ns \<noteq> pending_reward_ns \<and> ns \<noteq> epoch_ns \<longrightarrow> ns_rows t' ns = ns_rows t ns) \<and>
     pending_written env m (\<lambda>c. \<exists>i < k. in_shard (re_build env) i n (credential_to_key (re_enc env) c)) (entity_view t) (entity_view t') \<and>
     (\<exists>p. (p = Some \<lparr>sp_committed = k, sp_total = n\<rparr> \<or> p = None \<and> k = 0 \<and> n = account_shards) \<and>
        entity_view t' epoch_singleton_key = Some (EpochState (e\<lparr>ep_rupd_progress := p\<rparr>)))"

lemma load_epoch_view: "entity_view t epoch_singleton_key = Some (EpochState e) \<Longrightarrow> load_epoch t = Inr e"
  by (simp add: load_epoch_def read_typed_def entity_view_def)

lemma incentives_ignore_progress:
  "define_epoch_incentives env (e\<lparr>ep_rupd_progress := p\<rparr>) = define_epoch_incentives env e"
proof -
  have fields: "ep_pparams (e\<lparr>ep_rupd_progress := p\<rparr>) = ep_pparams e" "ep_rolling (e\<lparr>ep_rupd_progress := p\<rparr>) = ep_rolling e" by simp_all
  have "define_eta env (e\<lparr>ep_rupd_progress := p\<rparr>) = define_eta env e" unfolding define_eta_def fields ..
  then show ?thesis unfolding define_epoch_incentives_def fields by (simp only:)
qed

lemma globals_ignore_progress:
  assumes "load_epoch t = Inr e" and "load_epoch t' = Inr (e\<lparr>ep_rupd_progress := p\<rparr>)"
    and "\<And>ns. ns \<noteq> pending_reward_ns \<Longrightarrow> ns \<noteq> epoch_ns \<Longrightarrow> ns_rows t' ns = ns_rows t ns"
  shows "work_load_globals env t' = work_load_globals env t"
proof -
  have fields: "ep_pparams (e\<lparr>ep_rupd_progress := p\<rparr>) = ep_pparams e" "ep_rolling (e\<lparr>ep_rupd_progress := p\<rparr>) = ep_rolling e"
      "ep_initial_pots (e\<lparr>ep_rupd_progress := p\<rparr>) = ep_initial_pots e" "ep_number (e\<lparr>ep_rupd_progress := p\<rparr>) = ep_number e"
    by simp_all
  have rows: "typed_rows from_pool t' pool_ns None = typed_rows from_pool t pool_ns None"
      "typed_rows from_account t' account_ns None = typed_rows from_account t account_ns None"
      "typed_rows from_era t' era_ns None = typed_rows from_era t era_ns None"
    by (intro typed_rows_cong assms(3); simp)+
  have snap: "snapshot_load_globals b hex t' = snapshot_load_globals b hex t" for b hex
    unfolding snapshot_load_globals_def rows ..
  have eras: "read_era_summary t' = read_era_summary t" unfolding read_era_summary_def rows ..
  show ?thesis unfolding work_load_globals_def assms(1,2) or_return_simps snap eras incentives_ignore_progress fields ..
qed

definition reset_work :: "rupd_work \<Rightarrow> rupd_work" where
  "reset_work w = w\<lparr>rw_snapshot := (rw_snapshot w)\<lparr>ss_accounts_by_pool := [], ss_registered_accounts := {}\<rparr>, rw_shard_ranges := None\<rparr>"

lemma reset_merged:
  assumes "work_merge_shard b t ranges w = Some (Inr w')"
  shows "reset_work w' = reset_work w"
  using assms by (auto simp: work_merge_shard_def panic_simps or_return_Inr_iff merge_shard_iff Let_def collected_def reset_work_def split: option.splits)

lemma work_merge_cong:
  assumes "ns_rows t' account_ns = ns_rows t account_ns"
  shows "work_merge_shard b t' ranges w = work_merge_shard b t ranges w"
proof -
  have "typed_rows from_account t' account_ns bounds = typed_rows from_account t account_ns bounds" for bounds
    using assms by (rule typed_rows_cong)
  then have "snapshot_merge_shard b t' = snapshot_merge_shard b t" by (intro ext) (simp add: snapshot_merge_shard_def)
  then show ?thesis unfolding work_merge_shard_def by simp
qed

text \<open>The setting of a run: a store whose accounts are kept under the keys of their credentials, and an
  update whose rewards are defined when computed over all accounts at once.\<close>

definition update_fits :: "rupd_env \<Rightarrow> store \<Rightarrow> epoch_state \<Rightarrow> rupd_work \<Rightarrow> reward_map \<Rightarrow> bool" where
  "update_fits env t e w m \<longleftrightarrow> tables_ok t \<and> accounts_keyed (re_enc env) t \<and> inj (credential_to_key (re_enc env)) \<and>
     load_epoch t = Inr e \<and> work_load_globals env t = Some (Inr w) \<and>
     (\<exists>full. work_load env t = Some (Inr full) \<and> work_rewards env full = Some (Inr m))"

lemma shard_step:
  assumes fits: "update_fits env t e w m" and n: "validate_total_shards n = Inr ()" "k < n"
    and t': "progressed env t e m n k (dm_state dm)"
    and u: "ru_total_shards u = n" "ru_work u = Some w'" "reset_work w' = w"
  obtains u' dm' where "run_all (shard_phases (rupd_unit env write_logs) wal k) u dm = Some (Inr (), u', dm')"
    and "progressed env t e m n (k + 1) (dm_state dm')" and "dm_archive dm' = dm_archive dm"
    and "ru_total_shards u' = n \<and> (\<exists>w'. ru_work u' = Some w' \<and> reset_work w' = w)"
proof -
  let ?b = "re_build env" and ?key = "credential_to_key (re_enc env)"
  from fits have ok: "tables_ok t" "accounts_keyed (re_enc env) t" "inj ?key" "work_load_globals env t = Some (Inr w)"
    by (simp_all add: update_fits_def)
  from fits obtain full where full: "(if the (relevant_epochs ?b w) \<noteq> None then work_merge_shard ?b t [full_range] w else Some (Inr w)) = Some (Inr full)"
      "work_rewards env full = Some (Inr m)"
    by (auto simp: update_fits_def work_load_def panic_simps)
  have bare: "bare (rw_snapshot w)" using u(3) by (auto simp: reset_work_def)
  obtain ranges where r: "shard_key_ranges ?b k n = Some ranges" "ranges_within ranges" by (rule shard_ranges_within [OF n])
  from shard_work [OF ok(1,2) r(2) bare full] obtain part m' where
      part: "work_merge_shard ?b t ranges w = Some (Inr part)" "work_rewards env part = Some (Inr m')"
        "\<And>c. cell m' c = (if in_ranges ranges (?key c) then cell m c else None)" by blast
  from t' obtain p where st: "tables_ok (dm_state dm)" "\<And>ns. ns \<noteq> pending_reward_ns \<Longrightarrow> ns \<noteq> epoch_ns \<Longrightarrow> ns_rows (dm_state dm) ns = ns_rows t ns"
      "pending_written env m (\<lambda>c. \<exists>i < k. in_shard ?b i n (?key c)) (entity_view t) (entity_view (dm_state dm))"
      "p = Some \<lparr>sp_committed = k, sp_total = n\<rparr> \<or> p = None \<and> k = 0"
      "entity_view (dm_state dm) epoch_singleton_key = Some (EpochState (e\<lparr>ep_rupd_progress := p\<rparr>))"
    by (auto simp: progressed_def)
  have merge: "work_merge_shard ?b (dm_state dm) ranges w = Some (Inr part)"
    using part(1) work_merge_cong [OF st(2) [of account_ns]] by simp
  let ?u = "u\<lparr>ru_work := Some part, ru_rewards := Some m'\<rparr>"
  obtain t'' where t'': "commit_shard env k ?u (dm_state dm) = Some (Inr t'')" "tables_ok t''"
      "pending_written env m (\<lambda>c. (\<exists>i < k. in_shard ?b i n (?key c)) \<or> in_ranges ranges (?key c)) (entity_view t) (entity_view t'')"
      "entity_view t'' epoch_singleton_key = Some (EpochState ((e\<lparr>ep_rupd_progress := p\<rparr>)\<lparr>ep_rupd_progress := Some \<lparr>sp_committed = k + 1, sp_total = n\<rparr>\<rparr>))"
      "\<And>ns. ns \<noteq> pending_reward_ns \<Longrightarrow> ns \<noteq> epoch_ns \<Longrightarrow> ns_rows t'' ns = ns_rows (dm_state dm) ns"
    by (rule commit_shard_step [OF ok(3) st(1,3,5) _ n(2), of ?u m' "\<lambda>c. in_ranges ranges (?key c)"])
      (use st(4) u(1) part(3) work_rewards_distinct [OF part(2)] in auto)
  have reset: "reset_for_next_shard u = u\<lparr>ru_work := Some w, ru_rewards := None\<rparr>"
    using u(2,3) by (simp add: reset_for_next_shard_def reset_work_def)
  have "run_all (shard_phases (rupd_unit env write_logs) wal k) u dm = Some (Inr (), ?u, dm\<lparr>dm_state := t''\<rparr>)"
    using u(1) r(1) merge part(2) t''(1)
    by (simp add: shard_phases_def rupd_unit_def rupd_load_def rupd_compute_def rupd_commit_state_def reset Let_def)
  moreover have "(\<exists>i < k + 1. in_shard ?b i n (?key c)) \<longleftrightarrow> (\<exists>i < k. in_shard ?b i n (?key c)) \<or> in_ranges ranges (?key c)" for c
  proof -
    have "unat (k + 1) = unat k + 1"
      using n(2) unsigned_less [where 'a = nat and w = n] unat_add_no_overflow [of k 1] by (simp add: word_less_nat_alt)
    then have "i < k + 1 \<longleftrightarrow> i < k \<or> i = k" for i by (auto simp: word_less_nat_alt word_unat_eq_iff)
    moreover have "in_shard ?b k n (?key c) \<longleftrightarrow> in_ranges ranges (?key c)" by (simp add: in_shard_def r(1) in_ranges_def)
    ultimately show ?thesis by auto
  qed
  then have "progressed env t e m n (k + 1) t''"
    using t''(2-5) st(2) by (auto simp: progressed_def)
  moreover have "reset_work part = w" using reset_merged [OF part(1)] u(3) by (auto simp: reset_work_def)
  ultimately show thesis using u(1) by (intro that [of ?u "dm\<lparr>dm_state := t''\<rparr>"]) auto
qed

lemma shard_loop:
  assumes fits: "update_fits env t e w m" and n: "validate_total_shards n = Inr ()" "k \<le> n"
    and t': "progressed env t e m n k (dm_state dm)"
    and u: "ru_total_shards u = n \<and> (\<exists>w'. ru_work u = Some w' \<and> reset_work w' = w)"
  obtains u' dm' where "\<forall>rest. run_all (concat (map (shard_phases (rupd_unit env write_logs) wal) (shard_range k n)) @ rest) u dm = run_all rest u' dm'"
    and "progressed env t e m n n (dm_state dm')" and "dm_archive dm' = dm_archive dm"
    and "\<exists>w'. ru_work u' = Some w' \<and> reset_work w' = w"
  using n(2) t' u
proof (induction "unat n - unat k" arbitrary: k u dm thesis)
  case 0
  then have "k = n" by (simp add: word_le_nat_alt word_unat_eq_iff)
  with 0 show ?case by (intro 0(2) [of u dm]) (auto simp: shard_range_def)
next
  case (Suc x)
  then have kn: "k < n" by (simp add: word_less_nat_alt)
  have k1: "unat (k + 1) = unat k + 1"
    using kn unsigned_less [where 'a = nat and w = n] unat_add_no_overflow [of k 1] by (simp add: word_less_nat_alt)
  have range: "shard_range k n = k # shard_range (k + 1) n"
    using kn k1 by (simp add: shard_range_def word_less_nat_alt upt_conv_Cons)
  from Suc.prems(4) obtain w' where u: "ru_total_shards u = n" "ru_work u = Some w'" "reset_work w' = w" by blast
  obtain u1 dm1 where step: "run_all (shard_phases (rupd_unit env write_logs) wal k) u dm = Some (Inr (), u1, dm1)"
      "progressed env t e m n (k + 1) (dm_state dm1)" "dm_archive dm1 = dm_archive dm"
      "ru_total_shards u1 = n \<and> (\<exists>w'. ru_work u1 = Some w' \<and> reset_work w' = w)"
    by (rule shard_step [OF fits n(1) kn Suc.prems(3) u])
  have split: "run_all (xs @ ys) u dm = run_all ys u1 dm1" if "run_all xs u dm = Some (Inr (), u1, dm1)"
    for xs ys :: "(rupd_work_unit, ('a, cardano_entity, 'b, 'c) domain) phase list" and u dm u1 dm1
    using that by (induction xs arbitrary: u dm) (auto split: bind_splits sum.splits)
  obtain u' dm' where rest: "\<forall>rest. run_all (concat (map (shard_phases (rupd_unit env write_logs) wal) (shard_range (k + 1) n)) @ rest) u1 dm1 = run_all rest u' dm'"
      "progressed env t e m n n (dm_state dm')" "dm_archive dm' = dm_archive dm1" "\<exists>w'. ru_work u' = Some w' \<and> reset_work w' = w"
  proof (rule Suc.hyps(1) [of "k + 1" u1 dm1])
    show "x = unat n - unat (k + 1)" using Suc.hyps(2) k1 by simp
    show "k + 1 \<le> n" using kn k1 by (simp add: word_le_nat_alt word_less_nat_alt)
  qed (use step in auto)
  show ?case by (rule Suc.prems(1) [of u' dm']) (use rest step(3) split [OF step(1)] in \<open>auto simp: range\<close>)
qed

lemma shard_exists:
  assumes n: "validate_total_shards n = Inr ()" and "v = 0 \<or> v = 1" and "length hash = 28"
  shows "\<exists>i < n. in_shard b i n (credential_key v hash)"
proof -
  let ?i = "unat (hd hash) div unat (prefix_space div n)"
  note plan = validate_shards [OF n]
  have "unat (hd hash) < unat (prefix_space div n) * unat n"
    using plan(1) unsigned_less [where 'a = nat and w = "hd hash"] by simp
  then have lt: "?i < unat n" by (simp add: less_mult_imp_div_less mult.commute)
  then have "unat (word_of_nat ?i :: u32) = ?i" using plan(3) by (simp add: unat_of_nat take_bit_nat_eq_self)
  with lt in_shard_iff [OF n _ assms(2,3)] show ?thesis by (intro exI [of _ "word_of_nat ?i"]) (simp add: word_less_nat_alt)
qed

lemma aggregate_total:
  assumes "tables_ok t" and "\<And>k x. entity_view t (pending_reward_ns, k) = Some x \<Longrightarrow> from_pending_reward x \<noteq> None"
  shows "\<exists>out. aggregate_pending_pool_rewards t = Some (Inr out)"
proof -
  have full: "\<not> replicate key_size 255 < (replicate key_size 0 :: bytes)" by (simp add: key_size_def numeral_eq_Suc)
  have "snd row \<noteq> None" if row: "row \<in> set (typed_rows from_pending_reward t pending_reward_ns None)" for row
  proof -
    from row obtain k x where kx: "((pending_reward_ns, k), x) \<in> set (t_entities t)" "row = (k, from_pending_reward x)"
      unfolding typed_rows_None full_range_def typed_rows_bounded [OF full] by (auto simp: ns_rows_def)
    have "entity_view t (pending_reward_ns, k) = Some x"
      using map_of_is_SomeI [OF tbl_ok_distinct, OF _ kx(1)] assms(1) by (simp add: tables_ok_def entity_view_def tbl_get_def)
    with assms(2) kx(2) show ?thesis by simp
  qed
  then have total: "\<exists>s'. try_fold (each_row (\<lambda>key pending out. Some (Inr (f pending out)))) (typed_rows from_pending_reward t pending_reward_ns None) s = Some (Inr s') \<and> True"
    for f :: "pending_reward_state \<Rightarrow> 's \<Rightarrow> 's" and s
    by (intro try_fold_total) (auto simp: each_row_def split: option.splits)
  from total [of "\<lambda>pending out. fold (\<lambda>e. add_pending e True) (prs_as_leader pending) (fold (\<lambda>e. add_pending e False) (prs_as_delegator pending) out)" "[]"]
  show ?thesis by (auto simp: aggregate_pending_pool_rewards_def)
qed

lemma finalize_closes:
  assumes t': "progressed env t e m n n (dm_state dm)"
    and u: "ru_work u = Some w'" "reset_work w' = w"
    and typed: "\<And>k x. entity_view t (pending_reward_ns, k) = Some x \<Longrightarrow> from_pending_reward x \<noteq> None"
    and archive: "\<And>logs a. \<exists>a'. write_logs logs a = Inr a'"
    and chain: "\<And>se pe. relevant_epochs (re_build env) w = Some (Some (se, pe)) \<Longrightarrow> chain_epoch_start (re_build env) (rw_chain w) pe \<noteq> None"
    and rel: "relevant_epochs (re_build env) w \<noteq> None"
  obtains dm' where "rupd_finalize env write_logs u dm = Some (Inr (), u, dm')"
    and "entity_view (dm_state dm') = (entity_view (dm_state dm))(epoch_singleton_key \<mapsto> EpochState (close_update (rw_incentives w) e))"
proof -
  from t' obtain p where st: "tables_ok (dm_state dm)" "entity_view (dm_state dm) epoch_singleton_key = Some (EpochState (e\<lparr>ep_rupd_progress := p\<rparr>))"
      "pending_written env m (\<lambda>c. \<exists>i < n. in_shard (re_build env) i n (credential_to_key (re_enc env) c)) (entity_view t) (entity_view (dm_state dm))"
    by (auto simp: progressed_def)
  let ?E = "EpochState (close_update (rw_incentives w) e)"
  let ?t = "commit [WriteEntity epoch_ns (snd epoch_singleton_key) ?E] (dm_state dm)"
  have key: "epoch_singleton_key = (epoch_ns, snd epoch_singleton_key)" by (simp add: epoch_singleton_key_def)
  have view: "entity_view ?t = (entity_view (dm_state dm))(epoch_singleton_key \<mapsto> ?E)" by (simp flip: key)
  have w': "rw_incentives w' = rw_incentives w" "rw_chain w' = rw_chain w" "relevant_epochs b w' = relevant_epochs b w" for b
    using u(2) by (auto simp: reset_work_def intro!: relevant_epochs_cong)
  have close: "close_update (rw_incentives w) (e\<lparr>ep_rupd_progress := p\<rparr>) = close_update (rw_incentives w) e" by (simp add: close_update_def)
  have "from_pending_reward x \<noteq> None" if x: "entity_view ?t (pending_reward_ns, k) = Some x" for k x
  proof -
    have "(pending_reward_ns, k) \<noteq> epoch_singleton_key" by (simp add: epoch_singleton_key_def)
    with x view have v: "entity_view (dm_state dm) (pending_reward_ns, k) = Some x" by simp
    show ?thesis
    proof (cases "\<exists>c. k = credential_to_key (re_enc env) c")
      case True
      then obtain c where c: "k = credential_to_key (re_enc env) c" by blast
      with st(3) v typed show ?thesis by (auto simp: pending_written_def split: option.splits if_splits)
    next
      case False
      with st(3) v \<open>(pending_reward_ns, k) \<noteq> epoch_singleton_key\<close> have "entity_view t (pending_reward_ns, k) = Some x"
        by (auto simp: pending_written_def)
      then show ?thesis by (rule typed)
    qed
  qed
  then have "\<exists>out. aggregate_pending_pool_rewards ?t = Some (Inr out)" by (intro aggregate_total commit_ok st(1))
  then obtain out where out: "aggregate_pending_pool_rewards ?t = Some (Inr out)" by blast
  have "\<exists>a'. write_stake_logs env write_logs u ?t (dm_archive dm) = Some (Inr a')"
  proof -
    obtain ep where ep: "relevant_epochs (re_build env) w = Some ep" using rel by blast
    with chain out archive w' u(1) show ?thesis by (cases ep) (auto simp: write_stake_logs_def split: prod.splits option.splits)
  qed
  then obtain a' where a': "write_stake_logs env write_logs u ?t (dm_archive dm) = Some (Inr a')" by blast
  have "read_typed from_epoch (dm_state dm) epoch_singleton_key = Inr (Some (e\<lparr>ep_rupd_progress := p\<rparr>))"
    using st(2) by (simp add: read_typed_def entity_view_def)
  then have "rupd_finalize env write_logs u dm = Some (Inr (), u, (dm\<lparr>dm_state := ?t\<rparr>)\<lparr>dm_archive := a'\<rparr>)"
    using u(1) a' by (simp add: rupd_finalize_def w' close write_entity_def Let_def)
  then show thesis using view by (intro that) auto
qed

text \<open>C6. A reward update, started afresh or resumed after any number of committed shards, ends as the
  update over all accounts at once would. For a store on which the unsharded computation is defined, a
  valid number of shards and a run that has committed the first \<open>k\<close> of them, the work unit
  initializes at shard \<open>k\<close>, runs the rest without panic or error, and leaves for every credential the
  pending reward of the unsharded computation, the incentives of the epoch recorded, the progress
  cleared and every other entity as it was. Credentials are assumed to be encoded as 32-byte keys of
  two variants, and the archive to accept its rows.\<close>

theorem rupd_completes:
  assumes fits: "update_fits env t e w m"
    and keys: "\<forall>c. \<exists>v hash. (v = 0 \<or> v = 1) \<and> length hash = 28 \<and> credential_to_key (re_enc env) c = credential_key v hash"
    and n: "validate_total_shards n = Inr ()" "k \<le> n" and t': "progressed env t e m n k (dm_state dm)"
    and typed: "\<forall>key x. entity_view t (pending_reward_ns, key) = Some x \<longrightarrow> from_pending_reward x \<noteq> None"
    and archive: "\<forall>logs a. \<exists>a'. write_logs logs a = Inr a'"
    and chain: "\<forall>se pe. relevant_epochs (re_build env) w = Some (Some (se, pe)) \<longrightarrow> chain_epoch_start (re_build env) (rw_chain w) pe \<noteq> None"
  shows "\<exists>u dm'. run_lifecycle (re_build env) (rupd_unit env write_logs) wal (rupd_work_unit_new slot) dm = Some (Inr (), u, dm') \<and>
    entity_view (dm_state dm') epoch_singleton_key = Some (EpochState (close_update (rw_incentives w) e)) \<and>
    (\<forall>c. entity_view (dm_state dm') (pending_reward_ns, credential_to_key (re_enc env) c) =
       (case cell m c of Some r \<Rightarrow> Some (PendingRewardState (pending_of c r))
        | None \<Rightarrow> entity_view t (pending_reward_ns, credential_to_key (re_enc env) c))) \<and>
    (\<forall>ns key. ns \<noteq> pending_reward_ns \<and> ns \<noteq> epoch_ns \<longrightarrow> entity_view (dm_state dm') (ns, key) = entity_view t (ns, key))"
proof -
  let ?b = "re_build env" and ?key = "credential_to_key (re_enc env)" and ?unit = "rupd_unit env write_logs"
  from fits have w: "load_epoch t = Inr e" "work_load_globals env t = Some (Inr w)" and full: "work_load env t \<noteq> None"
    by (auto simp: update_fits_def)
  then have rel: "relevant_epochs ?b w \<noteq> None" by (cases "relevant_epochs ?b w") (auto simp: work_load_def)
  from t' obtain p where st: "\<And>ns. ns \<noteq> pending_reward_ns \<Longrightarrow> ns \<noteq> epoch_ns \<Longrightarrow> ns_rows (dm_state dm) ns = ns_rows t ns"
      "p = Some \<lparr>sp_committed = k, sp_total = n\<rparr> \<or> p = None \<and> k = 0 \<and> n = account_shards"
      "load_epoch (dm_state dm) = Inr (e\<lparr>ep_rupd_progress := p\<rparr>)"
    unfolding progressed_def by (metis load_epoch_view)
  let ?u = "(rupd_work_unit_new slot)\<lparr>ru_total_shards := n, ru_start_shard := k, ru_work := Some w\<rparr>"
  have init: "wu_initialize ?unit (rupd_work_unit_new slot) dm = Some (Inr (), ?u, dm)"
    using st(2,3) w(2) globals_ignore_progress [OF w(1) st(3,1)] by (auto simp: rupd_unit_def rupd_initialize_def Let_def)
  have "reset_work w = w" using work_globals_bare [OF w(2)] by (simp add: reset_work_def)
  then have inv: "ru_total_shards ?u = n \<and> (\<exists>w'. ru_work ?u = Some w' \<and> reset_work w' = w)" by simp
  obtain u' dm' where loop: "\<forall>rest. run_all (concat (map (shard_phases ?unit wal) (shard_range k n)) @ rest) ?u dm = run_all rest u' dm'"
      "progressed env t e m n n (dm_state dm')" "dm_archive dm' = dm_archive dm" "\<exists>w'. ru_work u' = Some w' \<and> reset_work w' = w"
    by (rule shard_loop [OF fits n t' inv, where write_logs = write_logs and wal = wal])
  then obtain w' where w': "ru_work u' = Some w'" "reset_work w' = w" by blast
  obtain dm'' where fin: "rupd_finalize env write_logs u' dm' = Some (Inr (), u', dm'')"
      "entity_view (dm_state dm'') = (entity_view (dm_state dm'))(epoch_singleton_key \<mapsto> EpochState (close_update (rw_incentives w) e))"
    by (rule finalize_closes [OF loop(2) w' _ _ _ rel, where write_logs = write_logs]) (use typed archive chain in auto)
  have run: "run_lifecycle ?b ?unit wal (rupd_work_unit_new slot) dm = Some (Inr (), u', dm'')"
    using n(2) loop(1) [rule_format, of "[wu_finalize ?unit]"] fin(1) by (simp add: run_lifecycle_def init Let_def) (simp add: rupd_unit_def)
  have all: "\<exists>i < n. in_shard ?b i n (?key c)" for c using keys shard_exists [OF n(1)] by metis
  from loop(2) have pend: "pending_written env m (\<lambda>c. \<exists>i < n. in_shard ?b i n (?key c)) (entity_view t) (entity_view (dm_state dm'))"
    by (simp add: progressed_def)
  then have cells: "entity_view (dm_state dm') (pending_reward_ns, ?key c) = (case cell m c of Some r \<Rightarrow> Some (PendingRewardState (pending_of c r))
        | None \<Rightarrow> entity_view t (pending_reward_ns, ?key c))" for c
    using all [of c] by (simp add: pending_written_def cong: option.case_cong)
  have key: "(ns, x) \<noteq> epoch_singleton_key" if "ns \<noteq> epoch_ns" for ns x using that by (auto simp: epoch_singleton_key_def)
  have rest: "entity_view (dm_state dm') (ns, x) = entity_view t (ns, x)" if "ns \<noteq> pending_reward_ns" "ns \<noteq> epoch_ns" for ns x
    using pend that key [OF that(2)] by (simp add: pending_written_def)
  show ?thesis
    by (intro exI [of _ u'] exI [of _ dm''] conjI allI impI run) (simp_all add: fin(2) key cells rest)
qed

definition sample_key :: cred_codec where
  "sample_key c = (case c of AddrKeyhash h \<Rightarrow> [0x82, 0, 0x58, 0x1c] @ word_bytes h | ScriptHash h \<Rightarrow> [0x82, 1, 0x58, 0x1c] @ word_bytes h)"

definition sample_update_env :: rupd_env where
  "sample_update_env = \<lparr>re_build = \<lparr>strict = True, overflow_checks = True\<rparr>, re_enc = sample_key, re_hex = (\<lambda>_. ''''),
     re_parse_reward_account = (\<lambda>_. None), re_approximate_float = (\<lambda>_. None), re_active_slots_coeff = None,
     re_max_lovelace_supply = Some 45000\<rparr>"

definition sample_epoch :: epoch_state where
  "sample_epoch = epoch_state_default\<lparr>ep_number := 5, ep_pparams := ev_with_live 5 []\<rparr>"

definition sample_era :: era_summary where
  "sample_era = \<lparr>er_start = \<lparr>eb_epoch = 0, eb_slot = 0, eb_timestamp = 0\<rparr>, er_end = None, er_epoch_length = 100, er_slot_length = 1, er_protocol = 9\<rparr>"

definition sample_store :: store where
  "sample_store = tables_default\<lparr>t_entities := [(epoch_singleton_key, EpochState sample_epoch), ((era_ns, protocol_key 9), EraSummary sample_era)]\<rparr>"

definition sample_work :: rupd_work where
  "sample_work = \<lparr>rw_current_epoch = 5, rw_snapshot = snapshot_default, rw_pots = pots_default, rw_incentives = neutral_incentives,
     rw_blocks_made_total = 0, rw_max_supply = 45000,
     rw_chain = \<lparr>cs_past = [], cs_protocols = [9], cs_edge = Some sample_era\<rparr>, rw_pparams = None, rw_shard_ranges = None\<rparr>"

lemma sample_key_form: "\<exists>v hash. (v = 0 \<or> v = 1) \<and> length hash = 28 \<and> credential_to_key sample_key c = credential_key v hash"
proof (cases c)
  case (AddrKeyhash h)
  then show ?thesis by (intro exI [of _ 0] exI [of _ "word_bytes h"]) (simp add: credential_to_key_def sample_key_def credential_key_def)
next
  case (ScriptHash h)
  then show ?thesis by (intro exI [of _ 1] exI [of _ "word_bytes h"]) (simp add: credential_to_key_def sample_key_def credential_key_def)
qed

lemma sample_key_inj: "inj (credential_to_key sample_key)"
proof (rule injI)
  fix c d assume "credential_to_key sample_key c = credential_to_key sample_key d"
  then show "c = d"
    by (cases c; cases d) (simp_all add: credential_to_key_def sample_key_def entity_key_from_def key_size_def word_bytes_inject)
qed

lemma sample_rows:
  "ns_rows sample_store account_ns = []" "ns_rows sample_store pool_ns = []" "ns_rows sample_store pending_reward_ns = []"
  "ns_rows sample_store era_ns = [(protocol_key 9, EraSummary sample_era)]"
  "tbl_get (t_entities sample_store) epoch_singleton_key = Some (EpochState sample_epoch)" "tables_ok sample_store"
  by (simp_all add: sample_store_def tables_default_def ns_rows_def epoch_singleton_key_def tbl_get_def tables_ok_def tbl_ok_def
    epoch_ns_def account_ns_def pool_ns_def pending_reward_ns_def era_ns_def)

lemma typed_rows_empty:
  assumes "ns_rows t ns = []"
  shows "typed_rows from t ns bounds = []"
proof -
  have "typed_rows from t ns bounds = typed_rows from (t\<lparr>t_entities := []\<rparr>) ns bounds"
    using assms by (intro typed_rows_cong) (simp add: ns_rows_def)
  then show ?thesis by (simp add: typed_rows_def iter_entities_def split: prod.splits)
qed

lemma sample_globals: "work_load_globals sample_update_env sample_store = Some (Inr sample_work)"
proof -
  have "typed_rows from_era sample_store era_ns None = [(protocol_key 9, Some sample_era)]"
  proof -
    have full: "\<not> replicate key_size 255 < (replicate key_size 0 :: bytes)" by (simp add: key_size_def numeral_eq_Suc)
    have "replicate key_size 0 \<le> protocol_key 9 \<and> protocol_key 9 < replicate key_size 255" by code_simp
    then show ?thesis unfolding typed_rows_None full_range_def typed_rows_bounded [OF full] sample_rows by simp
  qed
  then have eras: "read_era_summary sample_store = Inr (rw_chain sample_work)"
    by (simp add: read_era_summary_def load_era_summary_def chain_summary_default_def append_era_def sample_work_def) code_simp
  have epoch: "load_epoch sample_store = Inr sample_epoch" by (simp add: load_epoch_def read_typed_def sample_rows)
  have inc: "define_epoch_incentives sample_update_env sample_epoch r x = Some (Inr neutral_incentives)" for r x
    by (simp add: define_epoch_incentives_def sample_epoch_def unwrap_live_def ev_with_live_def ev_new_def) code_simp
  have relevant: "relevant_epochs \<lparr>strict = True, overflow_checks = True\<rparr> sample_work = Some (Some (2, 4))"
    by (simp add: relevant_epochs_def sample_work_def first_shelley_epoch_def raw_sub_def checked_sub_def)
  have protocol: "snapshot_protocol \<lparr>strict = True, overflow_checks = True\<rparr> (rw_chain sample_work) 2 = Some 9"
    by (simp add: snapshot_protocol_def sample_work_def raw_add_def checked_add_def era_for_epoch_def protocol_and_era_for_epoch_def sample_era_def)
  have snapshot: "snapshot_load_globals b hex sample_store ce se pr = Some (Inr snapshot_default)" for b hex ce se pr
    by (simp add: snapshot_load_globals_def typed_rows_empty sample_rows)
  have work: "\<lparr>rw_current_epoch = ep_number sample_epoch, rw_snapshot = snapshot_default, rw_pots = ep_initial_pots sample_epoch,
      rw_incentives = neutral_incentives, rw_blocks_made_total = 0, rw_max_supply = 45000, rw_chain = rw_chain sample_work,
      rw_pparams = ev_mark (ep_pparams sample_epoch), rw_shard_ranges = None\<rparr> = sample_work"
    by (simp add: sample_work_def sample_epoch_def epoch_state_default_def ev_with_live_def ev_new_def)
  have mark: "ev_mark (ep_rolling sample_epoch) = None" by (simp add: sample_epoch_def epoch_state_default_def ev_new_def)
  have env: "re_build sample_update_env = \<lparr>strict = True, overflow_checks = True\<rparr>" "re_max_lovelace_supply sample_update_env = Some 45000"
    by (simp_all add: sample_update_env_def)
  have "rw_snapshot sample_work = snapshot_default" by (simp add: sample_work_def)
  then have "sample_work\<lparr>rw_snapshot := snapshot_default\<rparr> = sample_work" by simp
  then show ?thesis
    by (simp add: work_load_globals_def epoch inc eras mark env work relevant protocol snapshot Let_def)
qed

lemma sample_fits: "update_fits sample_update_env sample_store sample_epoch sample_work (reward_map_new neutral_incentives)"
proof -
  let ?b = "\<lparr>strict = True, overflow_checks = True\<rparr>"
  have b: "re_build sample_update_env = ?b" by (simp add: sample_update_env_def)
  have relevant: "relevant_epochs ?b (sample_work\<lparr>rw_snapshot := s, rw_shard_ranges := r\<rparr>) = Some (Some (2, 4))" for s r
    by (simp add: relevant_epochs_def sample_work_def first_shelley_epoch_def raw_sub_def checked_sub_def)
  have protocol: "snapshot_protocol ?b (rw_chain sample_work) 2 = Some 9"
    by (simp add: snapshot_protocol_def sample_work_def raw_add_def checked_add_def era_for_epoch_def protocol_and_era_for_epoch_def sample_era_def)
  let ?full = "sample_work\<lparr>rw_snapshot := snapshot_default, rw_shard_ranges := Some [full_range]\<rparr>"
  have w: "sample_work\<lparr>rw_snapshot := snapshot_default, rw_shard_ranges := None\<rparr> = sample_work" "rw_snapshot sample_work = snapshot_default"
    by (simp_all add: sample_work_def)
  note rel0 = relevant [of None snapshot_default, unfolded w(1)]
  have "snapshot_merge_shard ?b sample_store 2 9 [full_range] snapshot_default = Some (Inr snapshot_default)"
    by (simp add: snapshot_merge_shard_def typed_rows_empty sample_rows)
  then have "work_load sample_update_env sample_store = Some (Inr ?full)"
    by (simp add: work_load_def sample_globals b rel0 work_merge_shard_def protocol w(2))
  moreover have "work_rewards sample_update_env ?full = Some (Inr (reward_map_new neutral_incentives))"
    by (simp add: work_rewards_def b relevant define_rewards_def rupd_context_def Let_def) (simp add: sample_work_def snapshot_default_def)
  moreover have "load_epoch sample_store = Inr sample_epoch" by (simp add: load_epoch_def read_typed_def sample_rows)
  moreover have "accounts_keyed (re_enc sample_update_env) sample_store" by (simp add: accounts_keyed_def typed_rows_empty sample_rows)
  ultimately show ?thesis
    using sample_globals sample_rows(6) sample_key_inj by (simp add: update_fits_def) (simp add: sample_update_env_def)
qed

definition sample_update_domain :: "(unit, cardano_entity, unit, (log_key \<times> cardano_entity) list) domain" where
  "sample_update_domain = \<lparr>dm_wal = \<lparr>wal_data = [], wal_version = None\<rparr>, dm_state = sample_store, dm_archive = [],
     dm_indexes = \<lparr>it_cursor = None, it_utxo_tags = [], it_archive_tags = [], it_exact = []\<rparr>, dm_mempool = mempool_new, dm_tips = []\<rparr>"

theorem rupd_completes_witness:
  "\<exists>u dm'. run_lifecycle \<lparr>strict = True, overflow_checks = True\<rparr> (rupd_unit sample_update_env (\<lambda>logs a. Inr (a @ logs))) True
      (rupd_work_unit_new 480) sample_update_domain = Some (Inr (), u, dm') \<and>
     entity_view (dm_state dm') epoch_singleton_key = Some (EpochState (close_update neutral_incentives sample_epoch))"
proof -
  have t: "progressed sample_update_env sample_store sample_epoch (reward_map_new neutral_incentives) account_shards 0 sample_store"
  proof -
    have "sample_epoch\<lparr>ep_rupd_progress := None\<rparr> = sample_epoch" by (simp add: sample_epoch_def epoch_state_default_def)
    then have "entity_view sample_store epoch_singleton_key = Some (EpochState (sample_epoch\<lparr>ep_rupd_progress := None\<rparr>))"
      by (simp add: entity_view_def sample_rows)
    then show ?thesis using sample_rows(6) by (auto simp: progressed_def pending_written_def split: option.splits)
  qed
  have chain: "relevant_epochs (re_build sample_update_env) sample_work = Some (Some (se, pe)) \<longrightarrow>
      chain_epoch_start (re_build sample_update_env) (rw_chain sample_work) pe \<noteq> None" for se pe
    by (simp add: sample_update_env_def sample_work_def relevant_epochs_def first_shelley_epoch_def chain_epoch_start_def era_epoch_start_def
      era_for_epoch_def protocol_and_era_for_epoch_def sample_era_def raw_sub_def checked_sub_def raw_add_def checked_add_def raw_mul_def checked_mul_def)
  have keys: "re_enc sample_update_env = sample_key" "re_build sample_update_env = \<lparr>strict = True, overflow_checks = True\<rparr>"
    "rw_incentives sample_work = neutral_incentives" by (simp_all add: sample_update_env_def sample_work_def)
  have "entity_view sample_store (pending_reward_ns, x) = None" for x
    by (simp add: entity_view_def tbl_get_def sample_store_def epoch_singleton_key_def)
  then show ?thesis
    using rupd_completes [OF sample_fits, of account_shards 0 sample_update_domain "\<lambda>logs a. Inr (a @ logs)" True 480]
      t chain sample_key_form
    by (simp add: keys sample_update_domain_def validate_total_shards_def account_shards_def prefix_space_def) blast
qed

end
