(* ===== verification/Spec2Isabelle.thy ===== *)
theory Spec2Isabelle
  imports Cardano_Node Node_Logic Consensus Memory_Index Shards Ratify Rewards Rupd
begin

text \<open>
  A verification development of Dolos (\<^verbatim>\<open>crates/core\<close>, \<^verbatim>\<open>crates/cardano\<close>,
  \<^verbatim>\<open>crates/redb3\<close>), a data node for the Cardano chain. Dolos does not validate the chain: it
  follows a trusted peer, keeps the ledger's entities and UTxO set as of its tip, an archive and
  indexes of the blocks, and a log that lets it go back.

  \<^bold>\<open>How the program works.\<close> A block arrives at \<^verbatim>\<open>sync.rs\<close>. It is decoded and handed to the work
  buffer, a state machine that collects blocks into batches and cuts them where something else has to
  run: the genesis block, the reward update in the middle of an epoch, the end and the start of an
  epoch at its boundary, or the epoch at which the node is told to stop. Work units leave the buffer
  and run through a lifecycle (initialize, then per shard load, compute and the commits to log, state,
  archive and index, then finalize). The unit of a batch of blocks lets visitors turn each block into
  deltas of entities, loads the entities in chunks, applies the deltas grouped by entity, computes the
  UTxO delta of each block and commits everything; the applied deltas go to the write-ahead log, each
  with what it needs to be undone. A rollback walks the log backwards and undoes it; a start after a
  crash compares the cursors of the stores and replays the log on the ones that are behind. At a
  boundary the deltas of the closing epoch are emitted, governance proposals are ratified, and pots,
  parameters and eras move on. Transactions submitted to the node wait in a mempool that is told about
  every block applied and undone.

  \<^bold>\<open>Conventions.\<close> Integers of the source are words of their width. Build-dependent arithmetic (the
  \<^verbatim>\<open>add!\<close> and \<^verbatim>\<open>sub!\<close> macros, debug assertions) takes the build as an argument; a
  panic is \<open>None\<close>, an error of a \<^verbatim>\<open>Result\<close> is \<open>Inl\<close>. A struct is a \<open>record\<close>, an enum a
  \<open>datatype\<close> with the source's variants. What the source takes from libraries that are not part of the
  repository (\<^verbatim>\<open>pallas\<close> decoding of blocks, hash functions, the CBOR form of a credential, the
  order in which a \<^verbatim>\<open>HashMap\<close> is walked, the archive) is an argument of the definitions that use it.

  \<^bold>\<open>Foundations.\<close>
  \<^item> \<open>Dolos_Prelude\<close>: words, checked and saturating arithmetic, monadic folds and their lemmas, the
    collections \<open>panic_simps\<close> and others.
  \<^item> \<open>Ledger_Types\<close>, \<open>Ledger_Order\<close>: the \<^verbatim>\<open>pallas\<close> types the entities store, and the orders of
    credentials and DReps as class instances; \<open>Errors\<close>: the shared error enums.
  \<^item> \<open>Ordered_Table\<close>: \<^verbatim>\<open>BTreeMap\<close> and database tables as sorted association lists, with the locale
    \<open>ordered_table\<close> for their laws.
  \<^item> \<open>Chain_Point\<close> (\<^verbatim>\<open>core/src/point.rs\<close>): points, their order, the 40-byte key and its round trip.
  \<^item> \<open>Epoch_Value\<close> (\<^verbatim>\<open>model/epoch_value.rs\<close>): a value with the versions of four epochs; the
    operations refine a function from epochs to values.
  \<^item> \<open>Slot_History\<close> (\<^verbatim>\<open>VoteHistory\<close>, \<^verbatim>\<open>AuthHistory\<close>): append-only histories read as of a slot.

  \<^bold>\<open>Entities and deltas.\<close> \<open>Entity_Delta\<close> (\<^verbatim>\<open>core/src/state.rs\<close>) has entity keys, lazily loaded
  tables, apply and undo of a chunk, and the locale \<open>reversible_delta\<close>: a delta applied to an entity and
  undone restores it, and undoing needs only what the log kept of it. The theories \<open>Accounts\<close>,
  \<open>Pools\<close>, \<open>DReps\<close>, \<open>Pending\<close>, \<open>Datums\<close>, \<open>Assets\<close>, \<open>Epochs\<close>, \<open>Proposals\<close> and \<open>Gov\<close> (files of the
  same name under \<^verbatim>\<open>cardano/src/model\<close>), with \<open>Pots\<close> (\<^verbatim>\<open>pots.rs\<close>) and \<open>PParams\<close>
  (\<^verbatim>\<open>model/pparams.rs\<close>, \<^verbatim>\<open>forks.rs\<close>), define each entity, its queries and every delta
  with \<^verbatim>\<open>key\<close>, \<^verbatim>\<open>apply\<close> and \<^verbatim>\<open>undo\<close>, and interpret the locale once per delta. Where
  the code is not reversible (a saturated counter, a field that is not serialised) the interpretation
  carries the condition under which it is. Further lemmas of these theories: conservation of the
  supply by the pots, bounds of the incentives, reference counts of datums, DRep expiries, the sharded
  epoch wrap-up counted once, votes read as of a slot, the boundary stake distribution as a sum over
  the shards, parameter migrations that reach the forced version.

  \<open>Cardano_Delta\<close> (\<^verbatim>\<open>model/mod.rs\<close>) is the sum of all entities and of the 64 deltas.
  \<open>Delta_Views\<close> lifts the contract of a delta to chunks in the locale \<open>delta_system\<close>: applying a chunk
  through the cache equals running its deltas one by one on the view of the store, and undoing it
  restores the view. \<open>Replay\<close> says which deltas may be applied again from the log.

  \<^bold>\<open>Stores.\<close> \<open>Wal\<close> (\<^verbatim>\<open>redb3/src/wal/mod.rs\<close>, \<^verbatim>\<open>core/src/wal.rs\<close>): versions, append,
  truncation, pruning, reset, search for points and intersection, with the locale \<open>wal_log\<close>.
  \<open>Memory_State\<close> and \<open>Memory_Index\<close> (\<^verbatim>\<open>core/src/builtin/memory\<close>): the state store and the index
  store with their writers. \<open>Utxo_Set\<close> (\<^verbatim>\<open>utxoset.rs\<close>): the UTxO delta of a block and its inverse.
  \<open>Mempool\<close> (\<^verbatim>\<open>core/src/builtin/mempool.rs\<close>): stages of a transaction; a confirmation refines an
  abstract fate per transaction.

  \<^bold>\<open>Time, work and boundaries.\<close> \<open>Eras\<close> (\<^verbatim>\<open>eras.rs\<close> and the era transition of
  \<^verbatim>\<open>estart\<close>): slots, epochs and times, with the locale \<open>epoch_calendar\<close> (reading a slot and going
  back to the epoch's start). \<open>Work_Buffer\<close> (\<^verbatim>\<open>work.rs\<close>): the buffer refines a schedule, which
  keeps the blocks in order and puts each boundary once between them. \<open>Shards\<close> (\<^verbatim>\<open>shard.rs\<close>): the
  ranges of the shards partition the credentials. \<open>Ratify\<close> (\<^verbatim>\<open>ewrap/ratify.rs\<close>): thresholds,
  tallies of committee, DReps and pools, the run by priority over an evolving state, and the pruning of
  what a ruling makes impossible.

  \<^bold>\<open>Rewards.\<close> \<open>Fallible\<close> has the folds of functions that may panic or fail, \<open>PParam_Getters\<close> the
  parameter readings the rewards need, \<open>Logs\<close> the archive's log records. \<open>Rewards\<close>
  (\<^verbatim>\<open>rewards/mod.rs\<close>, \<^verbatim>\<open>rewards/formulas.rs\<close>): the formulas over rationals, the reward map of a
  snapshot, what is spendable when it is applied, and the books of the map. Its lemmas: the rewards
  shared out stay within the epoch's incentives; the maps of the shards are the unsharded map
  restricted to each shard; taking, returning and draining rewards keeps the sum of what is paid, sent
  back and pending. \<open>Typed_Store\<close> reads the entities of a namespace out of the store, over a range of
  keys. \<open>Rupd\<close> (\<^verbatim>\<open>rupd\<close>): the stake snapshot, its loading, the phases of the work unit; an update,
  fresh or resumed after a crash between two shards, leaves the pending rewards and the incentives
  that one unsharded computation gives.

  \<^bold>\<open>The node.\<close> \<open>Work_Unit\<close> (\<^verbatim>\<open>core/src/work_unit.rs\<close>): the lifecycle and its executors.
  \<open>Roll\<close> (\<^verbatim>\<open>roll/batch.rs\<close>, \<^verbatim>\<open>roll/work_unit.rs\<close>): a batch of blocks. \<open>Ledger_Path\<close>: the
  specification of the node, paths of the ledger along log entries; the batch refines it.
  \<open>Chain_Logic\<close>: undo and catch-up of a logged block. \<open>Sync\<close> (\<^verbatim>\<open>core/src/sync.rs\<close>): rollback, in
  the locale \<open>node_system\<close>. \<open>Bootstrap\<close> (\<^verbatim>\<open>core/src/bootstrap.rs\<close>): integrity and catch-up, in the
  locale \<open>replay_system\<close>. \<open>Node_Logic\<close> (\<^verbatim>\<open>CardanoLogic\<close> of \<^verbatim>\<open>cardano/src/lib.rs\<close> and the
  draining loops): blocks received one at a time or in bulk run the schedule of the buffer.
  \<open>Cardano_Node\<close> interprets both locales on the Cardano deltas, and this theory states what follows
  for the whole node. \<open>Consensus\<close> (\<^verbatim>\<open>consensus.rs\<close>): continuity and the pull stage's fragment.

  \<^bold>\<open>Bounds and termination.\<close> There is no fuel. The draining of the work buffer is a \<open>function\<close> whose
  measure is the rank of the buffer's state, so it always ends; the walk to the ancestors of a
  proposal is bounded by the number of proposals, as in the code. The numbers of the source (chunks of
  100 entities, mempool thresholds, windows of the search for a point) are the model's. Hypotheses of the
  theorems: the deltas of a block are fresh (not yet applied), entities have the type of their namespace,
  inputs spent by a batch exist, sums that the code adds without a check fit their width.

  \<^bold>\<open>Not modelled.\<close> The visitors that turn decoded blocks into deltas (the deltas themselves are
  modelled, their emission is an argument of the work units), since what they read is the
  \<^verbatim>\<open>pallas\<close> view of a block; the loading of the boundary snapshots and the boundary visitors of
  \<^verbatim>\<open>ewrap\<close> and \<^verbatim>\<open>estart\<close>; genesis and start-up migrations; validation of submitted
  transactions, which calls \<^verbatim>\<open>pallas\<close>; the adapters to fjall, redb and flat files other than the log;
  the HTTP and RPC services, which map stored entities to schemas; snapshots, networking and the command
  line, which are I/O.
\<close>

section \<open>Properties of the whole node\<close>

text \<open>
  C2. Executing a batch of blocks refines the ledger. When the work unit of a batch runs through its
  lifecycle (blocks sorted and linked, inputs loaded ahead in one query, deltas grouped by entity and
  run over a cache loaded in chunks, then the commits), what it appends to the log is a path of the
  ledger from the state before to the state after: block by block, the deltas in the order the log
  lists them run on the entities, and the outputs and inputs of the block on the UTxO set. The cursor
  is at the last block and subscribers get one event per block, in order.
\<close>

theorem roll_batch_refines_ledger:
  fixes env :: ledger_env
  assumes "execute_work_unit (cardano_node env cd h walk arch_app arch_cut arch_tip)
      (roll_unit (cardano_node env cd h walk arch_app arch_cut arch_tip) visit c) u dm = Some (Inr (), u', dm')"
    and "fresh_batch cd (ru_batch u)" and "typed_table ns_of (entity_view (dm_state dm))"
    and "roll_load (env_build env) (cardano_key env) visit (decodes_output cd) c (dm_state dm) (ru_batch u) = Some (Inr batch1)"
    and "valid_spends (utxo_view (dm_state dm)) (map wb_block (wk_blocks batch1))"
    and "rolls_ok (cardano_key env) (cardano_apply env) cardano_fresh cardano_ok (entity_view (dm_state dm)) (map listed (wk_blocks batch1))"
  shows "ledger_path cd (cardano_key env) (cardano_apply env) cardano_fresh cardano_ok cardano_stored
      (entity_view (dm_state dm)) (utxo_view (dm_state dm)) (batch_log cardano_stored (ru_batch u'))
      (entity_view (dm_state dm')) (utxo_view (dm_state dm')) \<and>
    dm_wal dm' = append_entries cardano_stored (map (block_entry (wk_utxos (ru_batch u'))) (wk_blocks (ru_batch u'))) (dm_wal dm) \<and>
    t_cursor (dm_state dm') = last_point (ru_batch u') \<and> dm_tips dm' = dm_tips dm @ roll_tip_events u'"
proof -
  have empty: "wk_entities (ru_batch u) = []" using assms(2) by (simp add: fresh_batch_def)
  obtain batch2 where "roll_phases (env_build env) (cardano_key env) (cardano_apply env) ns_of cardano_stored visit (decodes_output cd) c
      (ru_batch u) (dm_wal dm, dm_state dm) = Some (Inr (batch2, ru_batch u', dm_wal dm', dm_state dm'))"
      and tips: "dm_tips dm' = dm_tips dm @ roll_tip_events u'"
    using execute_roll [OF assms(1)] by auto
  moreover from roll_phases_InrD(1) [OF this(1)] assms(4) have "batch2 = batch1" by simp
  ultimately have run: "roll_phases (env_build env) (cardano_key env) (cardano_apply env) ns_of cardano_stored visit (decodes_output cd) c
      (ru_batch u) (dm_wal dm, dm_state dm) = Some (Inr (batch1, ru_batch u', dm_wal dm', dm_state dm'))" by simp
  note ledger = cardano.delta_system_axioms
  show ?thesis
    using delta_system.roll_phases_path [OF ledger run assms(2,3,5,6)]
      delta_system.roll_phases_view(5,6) [OF ledger run empty assms(3)] tips by simp
qed

theorem roll_batch_refines_ledger_witness:
  "\<exists>u dm. execute_work_unit sample_node (roll_unit sample_node sample_visit ()) \<lparr>ru_batch = sample_batch, ru_live_mode = True\<rparr>
      (sample_domain sample_log sample_start) = Some (Inr (), u, dm) \<and>
    ledger_path sample_codec (cardano_key sample_env) (cardano_apply sample_env) cardano_fresh cardano_ok cardano_stored
      (entity_view sample_start) (utxo_view sample_start) [sample_entry] (entity_view (dm_state dm)) (utxo_view (dm_state dm))"
proof -
  obtain u dm where run: "execute_work_unit sample_node (roll_unit sample_node sample_visit ()) \<lparr>ru_batch = sample_batch, ru_live_mode = True\<rparr>
      (sample_domain sample_log sample_start) = Some (Inr (), u, dm)" and u: "ru_batch u = sample_computed"
    by (rule sample_executes)
  show ?thesis
    using roll_batch_refines_ledger [OF run [unfolded sample_node_def], of sample_loaded] run u
      sample_fresh sample_start_ok(3) sample_load sample_loaded_spends sample_loaded_ok
    by (auto simp: sample_batch_log sample_domain_def)
qed

text \<open>
  C1. Rolling back undoes rolling forward. From a state and a log at the same point, any number of
  batches rolled forward and then one rollback to that point give back exactly that state, with every
  entity, UTxO and the cursor, and exactly that log; the archive is truncated, subscribers get the undo
  of every block from the last to the first, and the mempool stays well formed. The blocks have to be
  in distinct slots, to spend what exists, and their deltas to meet their preconditions.
\<close>

theorem rollback_undoes_rolls:
  fixes env :: ledger_env
  assumes "rolled (cardano_node env cd h walk arch_app arch_cut arch_tip) cardano_fresh cardano_ok visit
      (w0, t0) es (dm_wal dm, dm_state dm)"
    and "wal_ok w0" and "find_tip w0 = Some (p0, log0)" and "tables_ok t0" and "t_cursor t0 = Some p0"
    and "typed_table ns_of (entity_view t0)" and "distinct (map cp_slot (p0 # map fst es))"
    and "mempool_fine (dm_mempool dm)" and "complete_walk walk" and "arch_cut p0 (dm_archive dm) = Inr archive"
  shows "\<exists>dm'. rollback (cardano_node env cd h walk arch_app arch_cut arch_tip) p0 dm = Some (Inr (), dm') \<and>
    dm_state dm' = t0 \<and> dm_wal dm' = w0 \<and> dm_archive dm' = archive \<and> mempool_fine (dm_mempool dm') \<and>
    dm_tips dm' = dm_tips dm @ map (\<lambda>(p, log). UndoTip p (lv_block log)) (rev es)"
  using cardano_node.rolled_rollback [OF assms(1) tip_is_last(2) [OF assms(2,3)] assms(4,5) _ tip_is_last(1) [OF assms(2,3)] _ assms(7,8)]
    assms(5,6,9,10)
  by auto

theorem rollback_undoes_rolls_witness:
  "\<exists>w t dm'. rolled sample_node cardano_fresh cardano_ok sample_visit (sample_log, sample_start) [sample_entry] (w, t) \<and>
     t \<noteq> sample_start \<and> rollback sample_node (Specific 5 3) (sample_domain w t) = Some (Inr (), dm') \<and>
     dm_state dm' = sample_start \<and> dm_wal dm' = sample_log \<and> dm_tips dm' = [UndoTip (Specific 7 9) [1]]"
proof -
  obtain w t where run: "rolled sample_node cardano_fresh cardano_ok sample_visit (sample_log, sample_start) [sample_entry] (w, t)"
      and "t \<noteq> sample_start"
    by (rule sample_rolled)
  moreover have "\<exists>dm'. rollback sample_node (Specific 5 3) (sample_domain w t) = Some (Inr (), dm') \<and>
      dm_state dm' = sample_start \<and> dm_wal dm' = sample_log \<and> dm_tips dm' = [UndoTip (Specific 7 9) [1]]"
    using rollback_undoes_rolls [OF _ sample_start_ok(4,5,1,2,3), of sample_env sample_codec "\<lambda>_. 0" sample_walk "\<lambda>_ _ _. Inr ()"
        "\<lambda>_ _. Inr ()" "\<lambda>_. Inr None" sample_visit "[sample_entry]" "sample_domain w t" "()"]
      run complete_sample_walk sample_mempool_fine [of w t]
    by (auto simp: sample_node_def sample_entry_def sample_domain_def)
  ultimately show ?thesis by blast
qed

text \<open>
  C40. Rolling back to a point the log does not hold leaves the cursor behind. When every entry of the
  log is older than the target or newer, as after pruning, the rollback succeeds and undoes every
  block after the target, but it only sets the cursor where it meets the target: entities and UTxOs
  are those of the target, and the cursor still names the last of the undone blocks.
\<close>

theorem rollback_unlogged_keeps_cursor:
  fixes env :: ledger_env
  assumes "rolled (cardano_node env cd h walk arch_app arch_cut arch_tip) cardano_fresh cardano_ok visit
      (w0, t0) es (dm_wal dm, dm_state dm)" and "es \<noteq> []"
    and "\<forall>k \<in> fst ` set (wal_data w0). k < into_bytes p0" and "tables_ok t0" and "t_cursor t0 = Some p0"
    and "typed_table ns_of (entity_view t0)" and "distinct (map cp_slot (p0 # map fst es))"
    and "mempool_fine (dm_mempool dm)" and "complete_walk walk" and "arch_cut p0 (dm_archive dm) = Inr archive"
  shows "\<exists>dm'. rollback (cardano_node env cd h walk arch_app arch_cut arch_tip) p0 dm = Some (Inr (), dm') \<and>
    dm_state dm' = t0\<lparr>t_cursor := Some (fst (last es))\<rparr> \<and> fst (last es) \<noteq> p0 \<and> dm_wal dm' = w0"
proof -
  have "\<forall>k \<in> fst ` set (wal_data w0). k \<le> into_bytes p0" using assms(3) by (auto simp: less_imp_le)
  moreover have "fst (last es) \<noteq> p0" using assms(2,7) last_in_set [OF assms(2)] by auto
  ultimately show ?thesis
    using cardano_node.rolled_rollback [OF assms(1) _ assms(4,5) _ iter_logs_above [OF assms(3)] _ assms(7,8)] assms(2,6,9,10)
    by (auto simp: last_map)
qed

theorem rollback_unlogged_keeps_cursor_witness:
  "\<exists>w t dm'. rolled sample_node cardano_fresh cardano_ok sample_visit (\<lparr>wal_data = [], wal_version = None\<rparr>, sample_start) [sample_entry] (w, t) \<and>
     rollback sample_node (Specific 5 3) (sample_domain w t) = Some (Inr (), dm') \<and>
     dm_state dm' = sample_start\<lparr>t_cursor := Some (Specific 7 9)\<rparr>"
proof -
  obtain w t where run: "rolled sample_node cardano_fresh cardano_ok sample_visit
      (\<lparr>wal_data = [], wal_version = None\<rparr>, sample_start) [sample_entry] (w, t)"
    by (rule sample_rolled)
  then show ?thesis
    using rollback_unlogged_keeps_cursor [OF _ _ _ sample_start_ok(1,2,3), of sample_env sample_codec "\<lambda>_. 0" sample_walk
        "\<lambda>_ _ _. Inr ()" "\<lambda>_ _. Inr ()" "\<lambda>_. Inr None" sample_visit "\<lparr>wal_data = [], wal_version = None\<rparr>" "[sample_entry]"
        "sample_domain w t" "()"]
      complete_sample_walk sample_mempool_fine [of w t]
    by (auto simp: sample_node_def sample_entry_def sample_domain_def)
qed





end
